(* ===== verification/JF_Prelude.thy ===== *)
theory JF_Prelude
  imports Complex_Main "HOL-Library.AList"
begin

text \<open>
  Shared vocabulary of the development: results of fallible code (a sum, \<open>Inl\<close> for the raised
  exception), Python's list comprehension over a fallible body, Python's insertion-ordered
  \<open>dict\<close> as an association list, the string operations of the standard library that the source
  calls (\<open>str.find\<close>, \<open>str.split\<close>, \<open>str.startswith\<close>, \<open>str.replace\<close>, decimal rendering), and
  the truthiness of optional names.
\<close>

named_theorems result_simps \<open>case analysis of fallible computations\<close>
named_theorems dict_simps \<open>insertion-ordered dictionaries\<close>
named_theorems record_defs \<open>definitions of the small record operations of a component\<close>

section \<open>Results\<close>

text \<open>\<open>bind_result m f\<close> runs \<open>m\<close>, stops at its exception, and otherwise goes on with \<open>f\<close>.\<close>

definition bind_result :: "'e + 'a \<Rightarrow> ('a \<Rightarrow> 'e + 'b) \<Rightarrow> 'e + 'b" where
  "bind_result m f = (case m of Inl e \<Rightarrow> Inl e | Inr a \<Rightarrow> f a)"

lemma bind_result_Inl [simp]: "bind_result (Inl e) f = Inl e"
  by (simp add: bind_result_def)

lemma bind_result_Inr [simp]: "bind_result (Inr a) f = f a"
  by (simp add: bind_result_def)

lemma bind_result_cong [fundef_cong]:
  "m = m' \<Longrightarrow> (\<And>a. m' = Inr a \<Longrightarrow> f a = g a) \<Longrightarrow> bind_result m f = bind_result m' g"
  by (cases m') (auto simp: bind_result_def)

lemma bind_result_eq_Inr [result_simps]:
  "bind_result m f = Inr b \<longleftrightarrow> (\<exists>a. m = Inr a \<and> f a = Inr b)"
  by (cases m) auto

lemma bind_result_eq_Inl [result_simps]:
  "bind_result m f = Inl e \<longleftrightarrow> m = Inl e \<or> (\<exists>a. m = Inr a \<and> f a = Inl e)"
  by (cases m) auto

definition is_ok :: "'e + 'a \<Rightarrow> bool" where
  "is_ok r = (case r of Inl _ \<Rightarrow> False | Inr _ \<Rightarrow> True)"

lemma is_ok_simps [simp]: "\<not> is_ok (Inl e)" "is_ok (Inr a)"
  by (simp_all add: is_ok_def)

lemma is_ok_iff [result_simps]: "is_ok r \<longleftrightarrow> (\<exists>a. r = Inr a)"
  by (cases r) auto

text \<open>\<open>guard_result b e\<close> is \<open>if not b: raise e\<close>.\<close>

definition guard_result :: "bool \<Rightarrow> 'e \<Rightarrow> 'e + unit" where
  "guard_result b e = (if b then Inr () else Inl e)"

lemma guard_result_eq_Inr [simp]: "guard_result b e = Inr u \<longleftrightarrow> b"
  by (simp add: guard_result_def)

lemma guard_result_eq_Inl [simp]: "guard_result b e = Inl e' \<longleftrightarrow> \<not> b \<and> e' = e"
  by (auto simp: guard_result_def)

text \<open>A comprehension \<open>[f(x) for x in xs]\<close> whose body may raise: the first exception wins.\<close>

fun map_result :: "('a \<Rightarrow> 'e + 'b) \<Rightarrow> 'a list \<Rightarrow> 'e + 'b list" where
  "map_result f [] = Inr []"
| "map_result f (x # xs) =
     bind_result (f x) (\<lambda>y. bind_result (map_result f xs) (\<lambda>ys. Inr (y # ys)))"

lemma map_result_cong [fundef_cong]:
  "xs = ys \<Longrightarrow> (\<And>x. x \<in> set ys \<Longrightarrow> f x = g x) \<Longrightarrow> map_result f xs = map_result g ys"
  by (induction ys arbitrary: xs) auto

lemma map_result_eq_Inr:
  "map_result f xs = Inr ys \<longleftrightarrow> list_all2 (\<lambda>x y. f x = Inr y) xs ys"
proof (induction xs arbitrary: ys)
  case (Cons x xs)
  then show ?case by (cases ys) (auto simp: result_simps)
qed auto

lemma map_result_length: "map_result f xs = Inr ys \<Longrightarrow> length ys = length xs"
  by (auto simp: map_result_eq_Inr dest: list_all2_lengthD)

lemma map_result_total:
  "(\<And>x. x \<in> set xs \<Longrightarrow> f x = Inr (g x)) \<Longrightarrow> map_result f xs = Inr (map g xs)"
  by (induction xs) auto

lemma map_result_map: "map_result f (map g xs) = map_result (\<lambda>x. f (g x)) xs"
  by (induction xs) auto

lemma map_result_transfer:
  "map_result f xs = Inr ys \<Longrightarrow> (\<And>x y. x \<in> set xs \<Longrightarrow> f x = Inr y \<Longrightarrow> g x = Inr (h y)) \<Longrightarrow>
   map_result g xs = Inr (map h ys)"
  by (induction xs arbitrary: ys) (auto simp: result_simps)

lemma map_result_ok: "is_ok (map_result f xs) \<longleftrightarrow> list_all (\<lambda>x. is_ok (f x)) xs"
  by (induction xs) (auto simp: result_simps)

lemma map_result_InlD: "map_result f xs = Inl e \<Longrightarrow> \<exists>x \<in> set xs. f x = Inl e"
  by (induction xs) (auto simp: result_simps)

section \<open>Insertion-ordered dictionaries\<close>

text \<open>
  A Python dictionary keeps the position of a key's first insertion: \<open>d[k] = v\<close> is
  \<open>AList.update\<close>, lookup is \<open>map_of\<close>, and \<open>dict_of\<close> builds a dictionary from a sequence of
  pairs, the later value of a repeated key winning at the earlier position.
\<close>

type_synonym 'v dict = "(string \<times> 'v) list"

abbreviation dict_set :: "'k \<Rightarrow> 'v \<Rightarrow> ('k \<times> 'v) list \<Rightarrow> ('k \<times> 'v) list" where
  "dict_set k v d \<equiv> AList.update k v d"

abbreviation dict_get :: "('k \<times> 'v) list \<Rightarrow> 'k \<Rightarrow> 'v option" where
  "dict_get d k \<equiv> map_of d k"

definition dict_keys :: "('k \<times> 'v) list \<Rightarrow> 'k list" where
  "dict_keys d = map fst d"

definition dict_update :: "('k \<times> 'v) list \<Rightarrow> ('k \<times> 'v) list \<Rightarrow> ('k \<times> 'v) list" where
  "dict_update d e = fold (\<lambda>(k, v). dict_set k v) e d"

definition dict_has :: "('k \<times> 'v) list \<Rightarrow> 'k \<Rightarrow> bool" where
  "dict_has d k = (map_of d k \<noteq> None)"

lemma dict_has_iff [dict_simps]: "dict_has d k \<longleftrightarrow> k \<in> fst ` set d"
  by (auto simp: dict_has_def map_of_eq_None_iff)

lemma dict_get_set [dict_simps]: "dict_get (dict_set k v d) k' = (if k' = k then Some v else dict_get d k')"
  by (simp add: update_conv')

lemma dict_has_set [dict_simps]: "dict_has (dict_set k v d) k' \<longleftrightarrow> k' = k \<or> dict_has d k'"
  by (simp add: dict_has_def update_conv')

lemma keys_dict_set [dict_simps]: "fst ` set (dict_set k v d) = insert k (fst ` set d)"
  by (induction d) auto

lemma distinct_dict_set [dict_simps]:
  "distinct (map fst d) \<Longrightarrow> distinct (map fst (dict_set k v d))"
  by (rule distinct_update)

lemma dict_get_update [dict_simps]:
  "dict_get (dict_update d e) k =
     (case map_of (rev e) k of None \<Rightarrow> dict_get d k | Some v \<Rightarrow> Some v)"
proof -
  have "map_of (fold (\<lambda>(k, v). dict_set k v) e d) = map_of d ++ map_of (rev e)"
  proof (induction e arbitrary: d)
    case (Cons p e)
    obtain a b where p: "p = (a, b)" by (cases p)
    show ?case
    proof
      fix k
      show "map_of (fold (\<lambda>(k, v). dict_set k v) (p # e) d) k = (map_of d ++ map_of (rev (p # e))) k"
        by (simp add: Cons.IH p update_conv' map_add_def split: option.split)
    qed
  qed simp
  then show ?thesis by (simp add: dict_update_def map_add_def)
qed

lemma keys_dict_update [dict_simps]:
  "fst ` set (dict_update d e) = fst ` set d \<union> fst ` set e"
  unfolding dict_update_def
  by (induction e arbitrary: d) (simp_all add: keys_dict_set case_prod_unfold)

lemma distinct_dict_update [dict_simps]:
  "distinct (map fst d) \<Longrightarrow> distinct (map fst (dict_update d e))"
  unfolding dict_update_def
  by (induction e arbitrary: d) (auto simp: dict_simps)

section \<open>Strings\<close>

text \<open>\<open>s.find(sub, i)\<close>: the first position from \<open>i\<close> on where \<open>sub\<close> occurs.\<close>

definition starts_at :: "string \<Rightarrow> string \<Rightarrow> nat \<Rightarrow> bool" where
  "starts_at s sub i \<longleftrightarrow> i + length sub \<le> length s \<and> take (length sub) (drop i s) = sub"

function str_find :: "string \<Rightarrow> string \<Rightarrow> nat \<Rightarrow> nat option" where
  "str_find s sub i =
     (if length s < i + length sub then None
      else if starts_at s sub i then Some i
      else if length s \<le> i then None
      else str_find s sub (Suc i))"
  by pat_completeness auto
termination
  by (relation "measure (\<lambda>(s, sub, i). length s - i)") auto

declare str_find.simps [simp del]

lemma str_find_Some:
  "str_find s sub i = Some j \<Longrightarrow> i \<le> j \<and> starts_at s sub j \<and> (\<forall>k. i \<le> k \<longrightarrow> k < j \<longrightarrow> \<not> starts_at s sub k)"
proof (induction s sub i rule: str_find.induct)
  case (1 s sub i)
  show ?case
  proof (cases "starts_at s sub i")
    case True
    with "1.prems" show ?thesis
      by (simp add: str_find.simps [of s sub i] split: if_splits)
  next
    case False
    with "1.prems" have rest: "\<not> length s < i + length sub" "\<not> length s \<le> i"
      "str_find s sub (Suc i) = Some j"
      by (simp_all add: str_find.simps [of s sub i] split: if_splits)
    with "1.IH" False have "Suc i \<le> j" "starts_at s sub j"
      "\<forall>k. Suc i \<le> k \<longrightarrow> k < j \<longrightarrow> \<not> starts_at s sub k"
      by auto
    with False show ?thesis by (metis Suc_leI Suc_leD le_neq_implies_less)
  qed
qed

lemma str_find_None:
  "str_find s sub i = None \<Longrightarrow> i \<le> k \<Longrightarrow> \<not> starts_at s sub k"
proof (induction s sub i rule: str_find.induct)
  case (1 s sub i)
  show ?case
  proof (cases "length s < i + length sub \<or> length s \<le> i")
    case True
    with "1.prems" show ?thesis
      by (auto simp: starts_at_def str_find.simps [of s sub i] split: if_splits)
  next
    case False
    with "1.prems" have "\<not> starts_at s sub i" "str_find s sub (Suc i) = None"
      by (simp_all add: str_find.simps [of s sub i] split: if_splits)
    with "1.IH" "1.prems" False show ?thesis
      by (cases "k = i") auto
  qed
qed

text \<open>\<open>s.split(c)\<close> and \<open>c.join(parts)\<close> for a one-character separator.\<close>

fun str_split :: "char \<Rightarrow> string \<Rightarrow> string list" where
  "str_split c [] = [[]]"
| "str_split c (x # xs) =
     (if x = c then [] # str_split c xs
      else (x # hd (str_split c xs)) # tl (str_split c xs))"

fun str_join :: "string \<Rightarrow> string list \<Rightarrow> string" where
  "str_join sep [] = []"
| "str_join sep [p] = p"
| "str_join sep (p # q # ps) = p @ sep @ str_join sep (q # ps)"

lemma str_split_nonempty [simp]: "str_split c s \<noteq> []"
  by (cases s) auto

lemma str_join_split: "str_join [c] (str_split c s) = s"
proof (induction s)
  case (Cons x xs)
  obtain p ps where "str_split c xs = p # ps" by (meson list.exhaust str_split_nonempty)
  with Cons show ?case by (cases ps) auto
qed simp

lemma str_split_sep: "p \<in> set (str_split c s) \<Longrightarrow> c \<notin> set p"
proof (induction s arbitrary: p)
  case (Cons x xs)
  obtain q qs where "str_split c xs = q # qs" by (meson list.exhaust str_split_nonempty)
  with Cons show ?case by (auto split: if_splits)
qed simp

text \<open>\<open>s.replace(old, new)\<close> for a non-empty \<open>old\<close>: left to right, without overlap.\<close>

function str_replace :: "string \<Rightarrow> string \<Rightarrow> string \<Rightarrow> string" where
  "str_replace old new [] = []"
| "str_replace old new (x # xs) =
     (if old \<noteq> [] \<and> starts_at (x # xs) old 0
      then new @ str_replace old new (drop (length old) (x # xs))
      else x # str_replace old new xs)"
  by pat_completeness auto
termination
  by (relation "measure (\<lambda>(old, new, s). length s)") auto

text \<open>Decimal rendering of a natural number and of an integer (\<open>str(n)\<close>), and its inverse.\<close>

fun show_nat :: "nat \<Rightarrow> string" where
  "show_nat n = (if n < 10 then [''0123456789'' ! n] else show_nat (n div 10) @ [''0123456789'' ! (n mod 10)])"

declare show_nat.simps [simp del]

definition show_int :: "int \<Rightarrow> string" where
  "show_int i = (if i < 0 then CHR ''-'' # show_nat (nat (- i)) else show_nat (nat i))"

definition char_code :: "char \<Rightarrow> nat" where
  "char_code c = of_char c"

definition is_digit :: "char \<Rightarrow> bool" where
  "is_digit c \<longleftrightarrow> 48 \<le> char_code c \<and> char_code c \<le> 57"

definition is_decimal :: "string \<Rightarrow> bool" where
  "is_decimal s \<longleftrightarrow> s \<noteq> [] \<and> list_all is_digit s"

definition nat_of_digits :: "string \<Rightarrow> nat" where
  "nat_of_digits s = foldl (\<lambda>n c. 10 * n + (char_code c - 48)) 0 s"

definition is_alpha :: "char \<Rightarrow> bool" where
  "is_alpha c \<longleftrightarrow> (65 \<le> char_code c \<and> char_code c \<le> 90) \<or> (97 \<le> char_code c \<and> char_code c \<le> 122)"

lemma digit_char: "n < 10 \<Longrightarrow> char_code (''0123456789'' ! n) = 48 + n"
proof -
  assume "n < 10"
  then have "n \<in> {0, 1, 2, 3, 4, 5, 6, 7, 8, 9}" by auto
  then show ?thesis by (auto simp: char_code_def)
qed

lemma is_digit_char: "n < 10 \<Longrightarrow> is_digit (''0123456789'' ! n)"
  by (simp add: is_digit_def digit_char)

lemma show_nat_digits: "list_all is_digit (show_nat n)"
proof (induction n rule: show_nat.induct)
  case (1 n)
  then show ?case
    by (subst show_nat.simps) (simp add: is_digit_char)
qed

lemma show_nat_nonempty [simp]: "show_nat n \<noteq> []"
  by (subst show_nat.simps) simp

lemma nat_of_digits_show_nat: "nat_of_digits (show_nat n) = n"
proof (induction n rule: show_nat.induct)
  case (1 n)
  show ?case
  proof (cases "n < 10")
    case True
    then show ?thesis by (subst show_nat.simps) (simp add: nat_of_digits_def digit_char)
  next
    case False
    with 1 have "nat_of_digits (show_nat (n div 10)) = n div 10" by simp
    with False show ?thesis
      by (subst show_nat.simps) (simp add: nat_of_digits_def digit_char)
  qed
qed

text \<open>\<open>s.strip()\<close>: the white space is that of Python among the first 256 characters.\<close>

definition is_space :: "char \<Rightarrow> bool" where
  "is_space c \<longleftrightarrow> char_code c \<in> {9, 10, 11, 12, 13, 28, 29, 30, 31, 32, 133, 160}"

definition py_strip :: "string \<Rightarrow> string" where
  "py_strip s = rev (dropWhile is_space (rev (dropWhile is_space s)))"

section \<open>Optional names\<close>

text \<open>Truth value of an optional string, and \<open>a or b\<close> on optional strings.\<close>

definition truthy_name :: "string option \<Rightarrow> bool" where
  "truthy_name x \<longleftrightarrow> (case x of None \<Rightarrow> False | Some s \<Rightarrow> s \<noteq> [])"

definition or_name :: "string option \<Rightarrow> string option \<Rightarrow> string option" where
  "or_name a b = (if truthy_name a then a else b)"

lemma truthy_name_simps [simp]: "\<not> truthy_name None" "truthy_name (Some s) \<longleftrightarrow> s \<noteq> []"
  by (simp_all add: truthy_name_def)

lemma or_name_simps [simp]: "or_name None b = b" "s \<noteq> [] \<Longrightarrow> or_name (Some s) b = Some s"
  by (simp_all add: or_name_def)

fun list_of_option :: "'a option \<Rightarrow> 'a list" where
  "list_of_option None = []"
| "list_of_option (Some x) = [x]"

lemma set_list_of_option [simp]: "set (list_of_option x) = set_option x"
  by (cases x) auto

end
