(* ===== verification/JF_Values.thy ===== *)
theory JF_Values
  imports JF_Prelude
begin

text \<open>
  Runtime values (\<open>engine/data.py\<close>): Python values as they reach the engine, JSON-compatible
  values as the engine keeps them, the normalization of the first into the second, and the
  traversal of a normalized value by a path. A finite float is the rational number it denotes, so
  that the comparison of integers and floats is Python's exact one.
\<close>

section \<open>Python values\<close>

datatype pyfloat = Fin rat | PosInf | NegInf | NotANumber

text \<open>
  \<open>PModel v\<close> is a pydantic model whose \<open>model_dump(mode="json")\<close> is \<open>v\<close>, \<open>PDataclass\<close> a
  dataclass instance with its fields in order, \<open>POpaque t\<close> any other object, of type name \<open>t\<close>
  (subclasses of the scalar types included: the code tests \<open>type(value)\<close>). A dictionary key that
  is not exactly a \<open>str\<close> is \<open>KOther\<close>.
\<close>

datatype pykey = KStr string | KOther string

datatype pyval =
    PNone
  | PBool bool
  | PInt int
  | PFloat pyfloat
  | PStr string
  | PList "pyval list"
  | PTuple "pyval list"
  | PDict "(pykey \<times> pyval) list"
  | PModel pyval
  | PDataclass "(string \<times> pyval) list"
  | POpaque string

datatype json =
    JNull
  | JBool bool
  | JInt int
  | JFloat rat
  | JStr string
  | JList "json list"
  | JObj "(string \<times> json) list"

text \<open>\<open>type(value).__name__\<close> of a JSON value.\<close>

fun json_type_name :: "json \<Rightarrow> string" where
  "json_type_name JNull = ''NoneType''"
| "json_type_name (JBool _) = ''bool''"
| "json_type_name (JInt _) = ''int''"
| "json_type_name (JFloat _) = ''float''"
| "json_type_name (JStr _) = ''str''"
| "json_type_name (JList _) = ''list''"
| "json_type_name (JObj _) = ''dict''"

lemma size_pair_snd [termination_simp]:
  "(k, v) \<in> set kvs \<Longrightarrow> size v < Suc (size_list (size_prod g size) kvs)"
  by (induction kvs) auto

lemma size_pair_snd' [termination_simp]:
  "p \<in> set kvs \<Longrightarrow> size (snd p) < Suc (size_list (size_prod g size) kvs)"
  by (cases p) (auto intro: size_pair_snd)

section \<open>Errors of the data layer\<close>

datatype limit_kind =
    PAYLOAD_BYTES | COLLECTION_ITEMS | FANOUT_ITEMS | PARALLELISM | LOOP_ATTEMPTS
  | TOTAL_INVOCATIONS | QUEUED_MESSAGES | QUEUED_MESSAGE_BYTES

datatype normalize_reason =
    DepthExceeds nat | NonFinite | NonStringKey | UnsupportedType string | ExpectedObject

datatype path_reason =
    TooManyTokens nat | RequiresStringKey | KeyNotPresent | RequiresIntegerIndex
  | IndexOutOfRange | CannotTraverse string

datatype data_error =
    DataNormalizationError string normalize_reason
  | DataPathError string path_reason
  | DataLimitExceeded limit_kind string nat nat

section \<open>Normalization\<close>

definition MAX_JSON_DEPTH :: nat where "MAX_JSON_DEPTH = 32"
definition DEFAULT_COLLECTION_ITEMS :: nat where "DEFAULT_COLLECTION_ITEMS = 10000"

definition path_key :: "string \<Rightarrow> string \<Rightarrow> string" where
  "path_key path k = path @ ''.'' @ k"

definition path_index :: "string \<Rightarrow> nat \<Rightarrow> string" where
  "path_index path i = path @ ''['' @ show_nat i @ '']''"

definition collection_limit :: "nat \<Rightarrow> string \<Rightarrow> nat \<Rightarrow> data_error + unit" where
  "collection_limit max_items path n =
     guard_result (n \<le> max_items) (DataLimitExceeded COLLECTION_ITEMS path n max_items)"

text \<open>
  \<open>normalize_json_value\<close>: the depth check comes first, whatever the value is. The dictionary a
  dataclass turns into, and the dump of a model, are normalized at the depth of the object itself.
\<close>

definition within_depth :: "nat \<Rightarrow> string \<Rightarrow> nat \<Rightarrow> data_error + json \<Rightarrow> data_error + json" where
  "within_depth max_depth path depth r =
     (if max_depth < depth
      then Inl (DataNormalizationError path (DepthExceeds max_depth)) else r)"

lemma size_enumerate [termination_simp]:
  "p \<in> set (enumerate n xs) \<Longrightarrow> size (snd p) < Suc (size_list size xs)"
  by (induction xs arbitrary: n) (auto, fastforce)

fun normalize_json_value ::
    "nat \<Rightarrow> nat \<Rightarrow> string \<Rightarrow> nat \<Rightarrow> pyval \<Rightarrow> data_error + json" where
  "normalize_json_value md mi path d PNone = within_depth md path d (Inr JNull)"
| "normalize_json_value md mi path d (PBool b) = within_depth md path d (Inr (JBool b))"
| "normalize_json_value md mi path d (PInt i) = within_depth md path d (Inr (JInt i))"
| "normalize_json_value md mi path d (PStr s) = within_depth md path d (Inr (JStr s))"
| "normalize_json_value md mi path d (PFloat f) = within_depth md path d
     (case f of Fin q \<Rightarrow> Inr (JFloat q) | _ \<Rightarrow> Inl (DataNormalizationError path NonFinite))"
| "normalize_json_value md mi path d (PModel v) = within_depth md path d
     (normalize_json_value md mi path d v)"
| "normalize_json_value md mi path d (PDataclass fs) = within_depth md path d
     (bind_result (collection_limit mi path (length fs)) (\<lambda>_.
        map_sum id JObj (map_result (\<lambda>kv. map_sum id (Pair (fst kv))
          (normalize_json_value md mi (path_key path (fst kv)) (Suc d) (snd kv))) fs)))"
| "normalize_json_value md mi path d (PDict kvs) = within_depth md path d
     (bind_result (collection_limit mi path (length kvs)) (\<lambda>_.
        map_sum id JObj (map_result (\<lambda>kv. (case fst kv of
            KOther _ \<Rightarrow> Inl (DataNormalizationError path NonStringKey)
          | KStr k \<Rightarrow> map_sum id (Pair k)
              (normalize_json_value md mi (path_key path k) (Suc d) (snd kv)))) kvs)))"
| "normalize_json_value md mi path d (PList xs) = within_depth md path d
     (bind_result (collection_limit mi path (length xs)) (\<lambda>_.
        map_sum id JList (map_result (\<lambda>ix.
          normalize_json_value md mi (path_index path (fst ix)) (Suc d) (snd ix))
          (enumerate 0 xs))))"
| "normalize_json_value md mi path d (PTuple xs) = within_depth md path d
     (bind_result (collection_limit mi path (length xs)) (\<lambda>_.
        map_sum id JList (map_result (\<lambda>ix.
          normalize_json_value md mi (path_index path (fst ix)) (Suc d) (snd ix))
          (enumerate 0 xs))))"
| "normalize_json_value md mi path d (POpaque t) = within_depth md path d
     (Inl (DataNormalizationError path (UnsupportedType t)))"

definition normalize_json_object ::
    "nat \<Rightarrow> nat \<Rightarrow> string \<Rightarrow> pyval \<Rightarrow> data_error + json dict" where
  "normalize_json_object md mi path value =
     bind_result (normalize_json_value md mi path 0 value) (\<lambda>j.
       (case j of JObj kvs \<Rightarrow> Inr kvs
                | _ \<Rightarrow> Inl (DataNormalizationError path ExpectedObject)))"

section \<open>JSON values as Python values\<close>

fun of_json :: "json \<Rightarrow> pyval" where
  "of_json JNull = PNone"
| "of_json (JBool b) = PBool b"
| "of_json (JInt i) = PInt i"
| "of_json (JFloat q) = PFloat (Fin q)"
| "of_json (JStr s) = PStr s"
| "of_json (JList xs) = PList (map of_json xs)"
| "of_json (JObj kvs) = PDict (map (\<lambda>kv. (KStr (fst kv), of_json (snd kv))) kvs)"

text \<open>
  The shape the limits speak about: \<open>json_fits md mi j\<close> when \<open>j\<close> nests at most \<open>md\<close> levels of
  non-empty collections and no collection has more than \<open>mi\<close> items.
\<close>

fun json_fits :: "nat \<Rightarrow> nat \<Rightarrow> json \<Rightarrow> bool" where
  "json_fits md mi (JList xs) \<longleftrightarrow> length xs \<le> mi \<and> (xs = [] \<or> 0 < md) \<and> list_all (json_fits (md - 1) mi) xs"
| "json_fits md mi (JObj kvs) \<longleftrightarrow>
     length kvs \<le> mi \<and> (kvs = [] \<or> 0 < md) \<and> list_all (\<lambda>kv. json_fits (md - 1) mi (snd kv)) kvs"
| "json_fits md mi _ \<longleftrightarrow> True"

lemma within_depth_eq_Inr [simp]: "within_depth md path d r = Inr j \<longleftrightarrow> d \<le> md \<and> r = Inr j"
  by (auto simp: within_depth_def)

lemma within_depth_eq_Inl:
  "within_depth md path d r = Inl e \<longleftrightarrow>
     (md < d \<and> e = DataNormalizationError path (DepthExceeds md)) \<or> (d \<le> md \<and> r = Inl e)"
  by (auto simp: within_depth_def)

lemma within_depth_ok [simp]: "d \<le> md \<Longrightarrow> within_depth md path d r = r"
  by (simp add: within_depth_def)

lemma collection_limit_eq_Inr [simp]: "collection_limit mi path n = Inr u \<longleftrightarrow> n \<le> mi"
  by (simp add: collection_limit_def)

lemma collection_limit_ok [simp]: "n \<le> mi \<Longrightarrow> collection_limit mi path n = Inr ()"
  by simp

lemma map_sum_eq_Inr [simp]: "map_sum id f r = Inr y \<longleftrightarrow> (\<exists>x. r = Inr x \<and> y = f x)"
  by (cases r) auto

lemma map_sum_eq_Inl [simp]: "map_sum id f r = Inl e \<longleftrightarrow> r = Inl e"
  by (cases r) auto

lemma map_result_enumerate:
  assumes "\<And>i x. x \<in> set xs \<Longrightarrow> f (i, x) = Inr (g x)"
  shows "map_result f (enumerate n xs) = Inr (map g xs)"
  using assms by (induction xs arbitrary: n) auto

lemma normalize_of_json:
  "d \<le> md \<Longrightarrow> json_fits (md - d) mi j \<Longrightarrow> normalize_json_value md mi path d (of_json j) = Inr j"
proof (induction j arbitrary: d path)
  case (JList xs)
  have "map_result (\<lambda>ix. normalize_json_value md mi (path_index path (fst ix)) (Suc d) (snd ix))
      (enumerate 0 (map of_json xs)) = Inr xs"
  proof -
    have "normalize_json_value md mi (path_index path i) (Suc d) (of_json x) = Inr x"
      if "x \<in> set xs" for x i
      using JList.IH [OF that, of "Suc d"] JList.prems that by (auto simp: list_all_iff)
    then have "map_result (\<lambda>ix. normalize_json_value md mi (path_index path (fst ix)) (Suc d) (of_json (snd ix)))
        (enumerate n xs) = Inr (map (\<lambda>x. x) xs)" for n
      by (intro map_result_enumerate) auto
    moreover have "map_result (\<lambda>ix. normalize_json_value md mi (path_index path (fst ix)) (Suc d) (snd ix))
        (enumerate n (map of_json xs)) =
        map_result (\<lambda>ix. normalize_json_value md mi (path_index path (fst ix)) (Suc d) (of_json (snd ix)))
          (enumerate n xs)" for n
      by (induction xs arbitrary: n) auto
    ultimately show ?thesis by simp
  qed
  with JList.prems show ?case by simp
next
  case (JObj kvs)
  have "map_result (\<lambda>kv. map_sum id (Pair (fst kv))
      (normalize_json_value md mi (path_key path (fst kv)) (Suc d) (of_json (snd kv)))) kvs = Inr kvs"
  proof -
    have "normalize_json_value md mi (path_key path (fst kv)) (Suc d) (of_json (snd kv)) = Inr (snd kv)"
      if "kv \<in> set kvs" for kv
      using JObj.IH [of kv "snd kv" "Suc d"] JObj.prems that by (cases kv) (auto simp: list_all_iff)
    then have "map_result (\<lambda>kv. map_sum id (Pair (fst kv))
        (normalize_json_value md mi (path_key path (fst kv)) (Suc d) (of_json (snd kv)))) kvs
        = Inr (map (\<lambda>kv. kv) kvs)"
      by (intro map_result_total) auto
    then show ?thesis by simp
  qed
  then show ?case using JObj.prems by (simp add: map_result_map)
qed simp_all

lemma list_all2_in2: "list_all2 P xs ys \<Longrightarrow> y \<in> set ys \<Longrightarrow> \<exists>x \<in> set xs. P x y"
  by (induction rule: list_all2_induct) auto

lemma json_fits_JListI:
  assumes "length ys \<le> mi" "\<And>y. y \<in> set ys \<Longrightarrow> Suc d \<le> md \<and> json_fits (md - Suc d) mi y"
  shows "json_fits (md - d) mi (JList ys)"
proof (cases "ys = []")
  case False
  then have "Suc d \<le> md" using assms(2) [OF hd_in_set] by blast
  with assms show ?thesis by (simp add: list_all_iff)
qed simp

lemma json_fits_JObjI:
  assumes "length ys \<le> mi" "\<And>y. y \<in> set ys \<Longrightarrow> Suc d \<le> md \<and> json_fits (md - Suc d) mi (snd y)"
  shows "json_fits (md - d) mi (JObj ys)"
proof (cases "ys = []")
  case False
  then have "Suc d \<le> md" using assms(2) [OF hd_in_set] by blast
  with assms show ?thesis by (simp add: list_all_iff)
qed simp

lemma normalize_fits:
  "normalize_json_value md mi path d v = Inr j \<Longrightarrow> d \<le> md \<and> json_fits (md - d) mi j"
proof (induction md mi path d v arbitrary: j rule: normalize_json_value.induct)
  case (5 md mi path d f)
  then show ?case by (auto split: pyfloat.splits)
next
  case (7 md mi path d fs)
  then obtain ys where ys: "d \<le> md" "length fs \<le> mi" "j = JObj ys"
    "list_all2 (\<lambda>kv y. \<exists>x. normalize_json_value md mi (path_key path (fst kv)) (Suc d) (snd kv) = Inr x
       \<and> y = (fst kv, x)) fs ys"
    by (auto simp: result_simps map_result_eq_Inr)
  have "Suc d \<le> md \<and> json_fits (md - Suc d) mi (snd y)" if "y \<in> set ys" for y
    using list_all2_in2 [OF ys(4) that] "7.IH" ys(1,2) by fastforce
  moreover have "length ys \<le> mi" using ys(2) list_all2_lengthD [OF ys(4)] by simp
  ultimately show ?case using ys(1,3) json_fits_JObjI [of ys mi d md]
    by simp
next
  case (8 md mi path d kvs)
  then obtain ys where ys: "d \<le> md" "length kvs \<le> mi" "j = JObj ys"
    "list_all2 (\<lambda>kv y. (case fst kv of KOther _ \<Rightarrow> Inl (DataNormalizationError path NonStringKey)
       | KStr k \<Rightarrow> map_sum id (Pair k)
           (normalize_json_value md mi (path_key path k) (Suc d) (snd kv))) = Inr y) kvs ys"
    by (auto simp: result_simps map_result_eq_Inr)
  have "Suc d \<le> md \<and> json_fits (md - Suc d) mi (snd y)" if "y \<in> set ys" for y
    using list_all2_in2 [OF ys(4) that] "8.IH" ys(1,2)
    by (fastforce split: pykey.splits)
  moreover have "length ys \<le> mi" using ys(2) list_all2_lengthD [OF ys(4)] by simp
  ultimately show ?case using ys(1,3) json_fits_JObjI [of ys mi d md]
    by simp
next
  case (9 md mi path d xs)
  then obtain ys where ys: "d \<le> md" "length xs \<le> mi" "j = JList ys"
    "list_all2 (\<lambda>ix y. normalize_json_value md mi (path_index path (fst ix)) (Suc d) (snd ix) = Inr y)
       (enumerate 0 xs) ys"
    by (auto simp: result_simps map_result_eq_Inr)
  have "Suc d \<le> md \<and> json_fits (md - Suc d) mi y" if "y \<in> set ys" for y
    using list_all2_in2 [OF ys(4) that] "9.IH" ys(1,2) by fastforce
  moreover have "length ys \<le> mi" using ys(2) list_all2_lengthD [OF ys(4)] by simp
  ultimately show ?case using ys(1,3) json_fits_JListI [of ys mi d md]
    by simp
next
  case (10 md mi path d xs)
  then obtain ys where ys: "d \<le> md" "length xs \<le> mi" "j = JList ys"
    "list_all2 (\<lambda>ix y. normalize_json_value md mi (path_index path (fst ix)) (Suc d) (snd ix) = Inr y)
       (enumerate 0 xs) ys"
    by (auto simp: result_simps map_result_eq_Inr)
  have "Suc d \<le> md \<and> json_fits (md - Suc d) mi y" if "y \<in> set ys" for y
    using list_all2_in2 [OF ys(4) that] "10.IH" ys(1,2) by fastforce
  moreover have "length ys \<le> mi" using ys(2) list_all2_lengthD [OF ys(4)] by simp
  ultimately show ?case using ys(1,3) json_fits_JListI [of ys mi d md]
    by simp
qed auto

end
