(* ===== verification/JF_Grammar.thy ===== *)
theory JF_Grammar
  imports JF_Values
begin

text \<open>
  The authored grammar (\<open>config/grammar.py\<close>): identifiers, reference paths, and \<open>${name}\<close>
  placeholders, with the parser of each, what a successful parse guarantees, and the traversal of a
  JSON value along a parsed path (\<open>resolve_json_path\<close> of \<open>engine/data.py\<close>) against the plain
  lookup it implements.
\<close>

section \<open>Reference paths\<close>

definition MAX_IDENTIFIER_LENGTH :: nat where "MAX_IDENTIFIER_LENGTH = 128"
definition MAX_REFERENCE_COMPONENTS :: nat where "MAX_REFERENCE_COMPONENTS = 33"
definition MAX_REFERENCE_COMPONENT_LENGTH :: nat where "MAX_REFERENCE_COMPONENT_LENGTH = 128"
definition RESERVED_DATA_ROOTS :: "string list" where
  "RESERVED_DATA_ROOTS = [''error'', ''input'', ''request_id'']"

definition is_ident_start :: "char \<Rightarrow> bool" where
  "is_ident_start c \<longleftrightarrow> is_alpha c \<or> c = CHR ''_''"

definition is_ident_char :: "char \<Rightarrow> bool" where
  "is_ident_char c \<longleftrightarrow> is_ident_start c \<or> is_digit c"

text \<open>\<open>REFERENCE_COMPONENT_PATTERN.fullmatch\<close>.\<close>

definition is_identifier :: "string \<Rightarrow> bool" where
  "is_identifier s \<longleftrightarrow>
     (case s of [] \<Rightarrow> False | c # cs \<Rightarrow> is_ident_start c \<and> list_all is_ident_char cs)"

text \<open>
  A path token: a key, an integer index, or the boolean that a subscript of a condition may carry
  (in Python \<open>True\<close> is an instance of \<open>int\<close>, but its type is not \<open>int\<close>).
\<close>

datatype path_token = TKey string | TIdx int | TBool bool

record reference_path =
  rp_value :: string
  rp_components :: "path_token list"

datatype reference_error =
    NotAString | TooManyComponents | EmptyComponent | ComponentTooLong | LeadingZeroes
  | InvalidComponent string | RootNotIdentifier

datatype reference_object = RefParsed reference_path | RefText string | RefOther

definition parse_component :: "nat \<Rightarrow> string \<Rightarrow> reference_error + path_token" where
  "parse_component index part =
     (if part = [] then Inl EmptyComponent
      else if MAX_REFERENCE_COMPONENT_LENGTH < length part then Inl ComponentTooLong
      else if 0 < index \<and> is_decimal part
        then (if 1 < length part \<and> hd part = CHR ''0'' then Inl LeadingZeroes
              else Inr (TIdx (int (nat_of_digits part))))
      else if is_identifier part then Inr (TKey part)
      else Inl (InvalidComponent part))"

definition parse_reference :: "reference_object \<Rightarrow> reference_error + reference_path" where
  "parse_reference obj = (case obj of
       RefParsed r \<Rightarrow> Inr r
     | RefOther \<Rightarrow> Inl NotAString
     | RefText value \<Rightarrow>
         (let parts = str_split (CHR ''.'') value
          in if MAX_REFERENCE_COMPONENTS < length parts then Inl TooManyComponents
             else bind_result (map_result (\<lambda>(index, part). parse_component index part) (enumerate 0 parts))
               (\<lambda>components. Inr \<lparr>rp_value = value, rp_components = components\<rparr>)))"

definition reference_root :: "reference_path \<Rightarrow> reference_error + string" where
  "reference_root r = (case rp_components r of TKey s # _ \<Rightarrow> Inr s | _ \<Rightarrow> Inl RootNotIdentifier)"

definition reference_tail :: "reference_path \<Rightarrow> path_token list" where
  "reference_tail r = drop 1 (rp_components r)"

text \<open>The root's name, for paths that come from the parser (\<open>parse_reference_root\<close> below).\<close>

definition ref_root :: "reference_path \<Rightarrow> string" where
  "ref_root r = (case rp_components r of TKey s # _ \<Rightarrow> s | _ \<Rightarrow> [])"

definition parsed_reference :: "reference_path \<Rightarrow> bool" where
  "parsed_reference r \<longleftrightarrow> parse_reference (RefText (rp_value r)) = Inr r"

fun show_token :: "path_token \<Rightarrow> string" where
  "show_token (TKey s) = s"
| "show_token (TIdx i) = show_int i"
| "show_token (TBool b) = (if b then ''True'' else ''False'')"

lemma parse_reference_value:
  "parse_reference (RefText s) = Inr r \<Longrightarrow> rp_value r = s"
  by (auto simp: parse_reference_def Let_def result_simps split: if_splits)

lemma parse_reference_parsed:
  "parse_reference (RefText s) = Inr r \<Longrightarrow> parsed_reference r"
  using parse_reference_value [of s r] by (simp add: parsed_reference_def)

lemma parse_reference_components:
  assumes "parse_reference (RefText s) = Inr r"
  shows "length (rp_components r) \<le> MAX_REFERENCE_COMPONENTS \<and>
         list_all2 (\<lambda>(i, p) t. parse_component i p = Inr t)
           (enumerate 0 (str_split (CHR ''.'') s)) (rp_components r)"
proof -
  from assms have n: "length (str_split (CHR ''.'') s) \<le> MAX_REFERENCE_COMPONENTS"
    and m: "map_result (\<lambda>(i, p). parse_component i p) (enumerate 0 (str_split (CHR ''.'') s))
      = Inr (rp_components r)"
    by (auto simp: parse_reference_def Let_def result_simps split: if_splits)
  from m have "length (rp_components r) = length (str_split (CHR ''.'') s)"
    by (auto dest: map_result_length)
  with n m show ?thesis by (simp add: map_result_eq_Inr case_prod_unfold)
qed

lemma parse_component_0: "parse_component 0 p = Inr t \<Longrightarrow> t = TKey p \<and> is_identifier p"
  by (auto simp: parse_component_def split: if_splits)

lemma parse_reference_head:
  assumes "parse_reference (RefText s) = Inr r"
  shows "\<exists>x ts. rp_components r = TKey x # ts \<and> is_identifier x"
proof -
  obtain p ps where "str_split (CHR ''.'') s = p # ps"
    by (meson list.exhaust str_split_nonempty)
  with parse_reference_components [OF assms] show ?thesis
    by (auto simp: list_all2_Cons1 dest: parse_component_0)
qed

lemma parse_reference_root:
  "parse_reference (RefText s) = Inr r \<Longrightarrow> reference_root r = Inr (ref_root r) \<and> is_identifier (ref_root r)"
  by (auto simp: reference_root_def ref_root_def dest: parse_reference_head)

lemma parsed_reference_root:
  "parsed_reference r \<Longrightarrow> reference_root r = Inr (ref_root r)"
  by (auto simp: parsed_reference_def dest: parse_reference_root)

lemma components_root:
  "parsed_reference r \<Longrightarrow> rp_components r = TKey (ref_root r) # reference_tail r"
  by (auto simp: parsed_reference_def ref_root_def reference_tail_def dest: parse_reference_head)

lemma reference_tail_short:
  "parsed_reference r \<Longrightarrow> length (reference_tail r) \<le> MAX_REFERENCE_COMPONENTS - 1"
  using parse_reference_components [of "rp_value r" r]
  by (auto simp: parsed_reference_def reference_tail_def intro: diff_le_mono)

section \<open>Placeholders\<close>

record placeholder =
  ph_name :: string
  ph_start :: nat
  ph_end :: nat

datatype placeholder_error = UnclosedPlaceholder nat | InvalidPlaceholderName nat string

text \<open>
  The loop of \<open>parse_placeholders\<close> from position \<open>index\<close>: find the next opening, then its closing
  brace, check the name between them, and go on behind the brace.
\<close>

definition substring :: "string \<Rightarrow> nat \<Rightarrow> nat \<Rightarrow> string" where
  "substring s i j = take (j - i) (drop i s)"

function parse_placeholders_from ::
    "string \<Rightarrow> nat \<Rightarrow> placeholder_error + placeholder list" where
  "parse_placeholders_from value index =
     (if length value \<le> index then Inr []
      else (case str_find value ''${'' index of
        None \<Rightarrow> Inr []
      | Some start \<Rightarrow> (case str_find value ''}'' (start + 2) of
          None \<Rightarrow> Inl (UnclosedPlaceholder start)
        | Some stop \<Rightarrow>
            (let name = substring value (start + 2) stop
             in if is_identifier name
                then bind_result (parse_placeholders_from value (stop + 1)) (\<lambda>ps.
                  Inr (\<lparr>ph_name = name, ph_start = start, ph_end = stop + 1\<rparr> # ps))
                else Inl (InvalidPlaceholderName start name)))))"
  by pat_completeness auto
termination
proof (relation "measure (\<lambda>(s, i). length s - i)")
  fix s index start stop
  assume "\<not> length s \<le> index" "str_find s ''${'' index = Some start"
    "str_find s ''}'' (start + 2) = Some stop"
  then show "((s, stop + 1), (s, index)) \<in> measure (\<lambda>(s, i). length s - i)"
    by (auto dest!: str_find_Some)
qed auto

declare parse_placeholders_from.simps [simp del]

definition parse_placeholders :: "string \<Rightarrow> placeholder_error + placeholder list" where
  "parse_placeholders value = parse_placeholders_from value 0"

text \<open>What the parser promises about the placeholders found from a position on.\<close>

fun placeholders_ok :: "string \<Rightarrow> nat \<Rightarrow> placeholder list \<Rightarrow> bool" where
  "placeholders_ok s i [] \<longleftrightarrow> (\<forall>k \<ge> i. \<not> starts_at s ''${'' k)"
| "placeholders_ok s i (p # ps) \<longleftrightarrow>
     i \<le> ph_start p \<and> (\<forall>k. i \<le> k \<longrightarrow> k < ph_start p \<longrightarrow> \<not> starts_at s ''${'' k) \<and>
     ph_end p \<le> length s \<and> is_identifier (ph_name p) \<and>
     ph_end p = ph_start p + length (ph_name p) + 3 \<and>
     substring s (ph_start p) (ph_end p) = ''${'' @ ph_name p @ ''}'' \<and>
     placeholders_ok s (ph_end p) ps"

lemma substring_append:
  "i \<le> j \<Longrightarrow> j \<le> k \<Longrightarrow> substring s i j @ substring s j k = substring s i k"
proof -
  assume "i \<le> j" "j \<le> k"
  then obtain a b where "j = i + a" "k = j + b" by (meson le_Suc_ex)
  then show ?thesis by (simp add: substring_def take_add add.commute)
qed

lemma substring_starts: "starts_at s p i \<Longrightarrow> substring s i (i + length p) = p"
  by (simp add: starts_at_def substring_def)

lemma length_substring: "i \<le> j \<Longrightarrow> j \<le> length s \<Longrightarrow> length (substring s i j) = j - i"
  by (simp add: substring_def)

lemma parse_placeholders_from_ok:
  "parse_placeholders_from s i = Inr ps \<Longrightarrow> placeholders_ok s i ps"
proof (induction s i arbitrary: ps rule: parse_placeholders_from.induct)
  case (1 s i)
  show ?case
  proof (cases "length s \<le> i")
    case True
    with "1.prems" show ?thesis
      by (auto simp: parse_placeholders_from.simps [of s i] starts_at_def)
  next
    case False
    show ?thesis
    proof (cases "str_find s ''${'' i")
      case None
      with "1.prems" False have "ps = []" by (simp add: parse_placeholders_from.simps [of s i])
      with None show ?thesis by (auto dest: str_find_None)
    next
      case (Some a)
      note found = str_find_Some [OF Some]
      from "1.prems" False Some obtain b where b: "str_find s ''}'' (a + 2) = Some b"
        by (auto simp: parse_placeholders_from.simps [of s i] split: option.splits)
      note closed = str_find_Some [OF b]
      let ?n = "substring s (a + 2) b"
      from "1.prems" False Some b obtain qs where qs: "is_identifier ?n"
        "parse_placeholders_from s (b + 1) = Inr qs"
        "ps = \<lparr>ph_name = ?n, ph_start = a, ph_end = b + 1\<rparr> # qs"
        by (auto simp: parse_placeholders_from.simps [of s i] Let_def result_simps split: if_splits)
      have rest: "placeholders_ok s (b + 1) qs"
        using "1.IH" [OF False Some b refl qs(1) qs(2)] .
      have len: "a + 2 \<le> b" "b + 1 \<le> length s" using closed by (auto simp: starts_at_def)
      have "substring s a (b + 1) = substring s a (a + 2) @ ?n @ substring s b (b + 1)"
        using len by (simp add: substring_append)
      also have "substring s a (a + 2) = ''${''"
        using substring_starts [of s "''${''" a] found by simp
      also have "substring s b (b + 1) = ''}''"
        using substring_starts [of s "''}''" b] closed by simp
      finally have "substring s a (b + 1) = ''${'' @ ?n @ ''}''" .
      with found len rest qs show ?thesis by (auto simp: length_substring)
    qed
  qed
qed

lemma parse_placeholders_ok: "parse_placeholders s = Inr ps \<Longrightarrow> placeholders_ok s 0 ps"
  by (simp add: parse_placeholders_def parse_placeholders_from_ok)

text \<open>
  The recursive walks over a configuration value: \<open>validate_placeholders\<close> raises at the first
  malformed string, \<open>placeholder_names\<close> collects the names.
\<close>

fun validate_placeholders :: "string \<Rightarrow> json \<Rightarrow> (string \<times> placeholder_error) + unit" where
  "validate_placeholders path (JStr s) =
     (case parse_placeholders s of Inl e \<Rightarrow> Inl (path, e) | Inr _ \<Rightarrow> Inr ())"
| "validate_placeholders path (JObj kvs) =
     bind_result (map_result (\<lambda>kv. validate_placeholders (path_key path (fst kv)) (snd kv)) kvs) (\<lambda>_. Inr ())"
| "validate_placeholders path (JList xs) =
     bind_result (map_result (\<lambda>ix. validate_placeholders (path_key path (show_nat (fst ix))) (snd ix))
       (enumerate 0 xs)) (\<lambda>_. Inr ())"
| "validate_placeholders path _ = Inr ()"

fun placeholder_names :: "json \<Rightarrow> placeholder_error + string list" where
  "placeholder_names (JStr s) = map_sum id (map ph_name) (parse_placeholders s)"
| "placeholder_names (JObj kvs) =
     map_sum id concat (map_result (\<lambda>kv. placeholder_names (snd kv)) kvs)"
| "placeholder_names (JList xs) = map_sum id concat (map_result placeholder_names xs)"
| "placeholder_names _ = Inr []"

definition validate_data_roots :: "string list \<Rightarrow> string list + unit" where
  "validate_data_roots names =
     (let collisions = filter (\<lambda>r. r \<in> set names) RESERVED_DATA_ROOTS
      in if collisions = [] then Inr () else Inl collisions)"

lemma map_result_enumerate_ok:
  "is_ok (map_result (\<lambda>ix. f (fst ix) (snd ix)) (enumerate n xs)) \<longleftrightarrow>
     list_all (\<lambda>ix. is_ok (f (fst ix) (snd ix))) (enumerate n xs)"
  by (induction xs arbitrary: n) (auto simp: result_simps)

lemma is_ok_map_sum [simp]: "is_ok (map_sum id f r) \<longleftrightarrow> is_ok r"
  by (cases r) auto

lemma is_ok_bind_unit [simp]: "is_ok (bind_result m (\<lambda>_. Inr ())) \<longleftrightarrow> is_ok m"
  by (cases m) auto

lemma list_all_enumerate_snd:
  assumes "\<And>x i. x \<in> set xs \<Longrightarrow> P (i, x) = Q x"
  shows "list_all P (enumerate n xs) = list_all Q xs"
  using assms by (induction xs arbitrary: n) auto

text \<open>Validation accepts exactly the values whose placeholder names can be collected.\<close>

lemma validate_placeholders_ok:
  "is_ok (validate_placeholders path j) \<longleftrightarrow> is_ok (placeholder_names j)"
proof (induction path j rule: validate_placeholders.induct)
  case (2 path kvs)
  then show ?case by (auto simp: map_result_ok list_all_iff)
next
  case (3 path xs)
  have "is_ok (validate_placeholders path (JList xs)) \<longleftrightarrow>
      list_all (\<lambda>ix. is_ok (validate_placeholders (path_key path (show_nat (fst ix))) (snd ix))) (enumerate 0 xs)"
    by (simp add: map_result_ok)
  also have "\<dots> \<longleftrightarrow> list_all (\<lambda>ix. is_ok (placeholder_names (snd ix))) (enumerate 0 xs)"
    using 3 by (auto simp: list_all_iff)
  also have "\<dots> \<longleftrightarrow> list_all (\<lambda>x. is_ok (placeholder_names x)) xs"
    by (rule list_all_enumerate_snd) simp
  finally show ?case by (simp add: map_result_ok)
qed (auto split: sum.split simp: is_ok_def)

section \<open>Path traversal\<close>

definition MAX_PATH_TOKENS :: nat where "MAX_PATH_TOKENS = MAX_REFERENCE_COMPONENTS - 1"

definition resolve_token :: "json \<Rightarrow> path_token \<Rightarrow> string \<Rightarrow> data_error + json \<times> string" where
  "resolve_token v token path = (case v of
      JObj kvs \<Rightarrow> (case token of
          TKey k \<Rightarrow> (case map_of kvs k of
              None \<Rightarrow> Inl (DataPathError (path_key path k) KeyNotPresent)
            | Some x \<Rightarrow> Inr (x, path_key path k))
        | _ \<Rightarrow> Inl (DataPathError path RequiresStringKey))
    | JList xs \<Rightarrow> (case token of
          TIdx i \<Rightarrow> (let next = path @ ''['' @ show_int i @ '']'' in
             if i < 0 \<or> int (length xs) \<le> i
             then Inl (DataPathError next IndexOutOfRange) else Inr (xs ! nat i, next))
        | _ \<Rightarrow> Inl (DataPathError path RequiresIntegerIndex))
    | _ \<Rightarrow> Inl (DataPathError path (CannotTraverse (json_type_name v))))"

fun resolve_tokens :: "json \<Rightarrow> path_token list \<Rightarrow> string \<Rightarrow> data_error + json" where
  "resolve_tokens v [] path = Inr v"
| "resolve_tokens v (t # ts) path =
     bind_result (resolve_token v t path) (\<lambda>(v', path'). resolve_tokens v' ts path')"

definition resolve_json_path :: "pyval \<Rightarrow> path_token list \<Rightarrow> string \<Rightarrow> data_error + json" where
  "resolve_json_path v tokens rname =
     (if MAX_PATH_TOKENS < length tokens
      then Inl (DataPathError rname (TooManyTokens MAX_PATH_TOKENS))
      else bind_result (normalize_json_value MAX_JSON_DEPTH DEFAULT_COLLECTION_ITEMS rname 0 v)
        (\<lambda>current. resolve_tokens current tokens rname))"

text \<open>The lookup the traversal implements, without paths and error positions.\<close>

fun json_at :: "json \<Rightarrow> path_token list \<Rightarrow> json option" where
  "json_at v [] = Some v"
| "json_at (JObj kvs) (TKey k # ts) = Option.bind (map_of kvs k) (\<lambda>v. json_at v ts)"
| "json_at (JList xs) (TIdx i # ts) =
     (if 0 \<le> i \<and> i < int (length xs) then json_at (xs ! nat i) ts else None)"
| "json_at _ _ = None"

abbreviation json_default_fits :: "json \<Rightarrow> bool" where
  "json_default_fits \<equiv> json_fits MAX_JSON_DEPTH DEFAULT_COLLECTION_ITEMS"

lemma resolve_tokens_json_at: "resolve_tokens v ts path = Inr w \<longleftrightarrow> json_at v ts = Some w"
  by (induction v ts arbitrary: path rule: json_at.induct)
     (auto simp: resolve_token_def Let_def result_simps split: option.splits path_token.splits json.splits)

lemma json_at_append:
  "json_at v (ts @ us) = Option.bind (json_at v ts) (\<lambda>w. json_at w us)"
  by (induction v ts rule: json_at.induct) (auto split: bind_splits)

lemma resolve_of_json:
  assumes "json_default_fits v"
  shows "resolve_json_path (of_json v) ts rname = Inr w \<longleftrightarrow>
         length ts \<le> MAX_PATH_TOKENS \<and> json_at v ts = Some w"
  using normalize_of_json [of 0 MAX_JSON_DEPTH DEFAULT_COLLECTION_ITEMS v rname] assms
  by (auto simp: resolve_json_path_def resolve_tokens_json_at)

lemma json_fits_mono:
  "json_fits md mi j \<Longrightarrow> md \<le> md' \<Longrightarrow> mi \<le> mi' \<Longrightarrow> json_fits md' mi' j"
proof (induction md mi j arbitrary: md' rule: json_fits.induct)
  case (1 md mi xs)
  then show ?case by (fastforce simp: list_all_iff intro: diff_le_mono)
next
  case (2 md mi kvs)
  then show ?case by (fastforce simp: list_all_iff intro: diff_le_mono)
qed auto

lemma json_at_fits: "json_at v ts = Some w \<Longrightarrow> json_fits md mi v \<Longrightarrow> json_fits md mi w"
proof (induction v ts rule: json_at.induct)
  case (2 kvs k ts)
  then obtain x where x: "map_of kvs k = Some x" "json_at x ts = Some w"
    by (auto simp: Option.bind_eq_Some_conv)
  then have "(k, x) \<in> set kvs" by (auto dest: map_of_SomeD)
  with 2 x show ?case by (fastforce simp: list_all_iff intro: json_fits_mono)
next
  case (3 xs i ts)
  then have i: "0 \<le> i" "i < int (length xs)" "json_at (xs ! nat i) ts = Some w"
    by (auto split: if_splits)
  then have "xs ! nat i \<in> set xs" by simp
  with 3 i show ?case by (fastforce simp: list_all_iff intro: json_fits_mono)
qed auto

end
