(* ===== verification/JF_Errors.thy ===== *)
theory JF_Errors
  imports JF_Grammar
begin

text \<open>
  The failure taxonomy (\<open>engine/errors.py\<close>, the detail models of \<open>engine/audit.py\<close>, the guards of
  \<open>engine/limits.py\<close>): exceptions with their chain of causes, the recognition of a cancellation, the
  extraction of the innermost reported cause, and the classification of an exception into the stable
  detail that the audit record and the failure handlers see.

  An exception object is its class with the data the engine reads from it, the pair
  \<open>type\<close>/\<open>message\<close> that an exception of the Temporal client carries (with its \<open>non_retryable\<close> flag),
  and its cause. A chain of causes is finite. The wording of \<open>str(exc)\<close> is a parameter \<open>render\<close>. The
  checkpoint that a \<open>FlowContinuation\<close> of the runner carries is kept in the runner's state.
\<close>

datatype flow_error_kind =
    MISSING_PARAMS | RESOLUTION_ERROR | WAIT_TIMEOUT | LOOP_EXHAUSTED | UNSAFE_LOOP_CACHE
  | INVARIANT_VIOLATION

datatype failure_code =
    INVALID_TRIGGER | INVALID_SIGNAL | INPUT_CONTRACT_FAILED | PARAMETERS_FAILED | STEP_FAILED
  | HANDLER_FAILED | RESULT_FAILED | ARCHIVAL_FAILED | INTERNAL_ERROR | LIMIT_EXCEEDED

datatype failure_category =
    CatInput | CatDefinition | CatContract | CatExecution | CatInfrastructure | CatInternal

datatype failure_phase =
    PhTrigger | PhSignal | PhWorkflowInput | PhParameters | PhStep | PhHandler | PhResult
  | PhArchive | PhInternal

fun flow_error_value :: "flow_error_kind \<Rightarrow> string" where
  "flow_error_value MISSING_PARAMS = ''MISSING_PARAMS''"
| "flow_error_value RESOLUTION_ERROR = ''RESOLUTION_ERROR''"
| "flow_error_value WAIT_TIMEOUT = ''WAIT_TIMEOUT''"
| "flow_error_value LOOP_EXHAUSTED = ''LOOP_EXHAUSTED''"
| "flow_error_value UNSAFE_LOOP_CACHE = ''UNSAFE_LOOP_CACHE''"
| "flow_error_value INVARIANT_VIOLATION = ''INVARIANT_VIOLATION''"

fun failure_code_value :: "failure_code \<Rightarrow> string" where
  "failure_code_value INVALID_TRIGGER = ''INVALID_TRIGGER''"
| "failure_code_value INVALID_SIGNAL = ''INVALID_SIGNAL''"
| "failure_code_value INPUT_CONTRACT_FAILED = ''INPUT_CONTRACT_FAILED''"
| "failure_code_value PARAMETERS_FAILED = ''PARAMETERS_FAILED''"
| "failure_code_value STEP_FAILED = ''STEP_FAILED''"
| "failure_code_value HANDLER_FAILED = ''HANDLER_FAILED''"
| "failure_code_value RESULT_FAILED = ''RESULT_FAILED''"
| "failure_code_value ARCHIVAL_FAILED = ''ARCHIVAL_FAILED''"
| "failure_code_value INTERNAL_ERROR = ''INTERNAL_ERROR''"
| "failure_code_value LIMIT_EXCEEDED = ''LIMIT_EXCEEDED''"

record failure_detail =
  fd_code :: string
  fd_cause_code :: string
  fd_category :: failure_category
  fd_phase :: failure_phase
  fd_message :: string
  fd_retryable :: bool
  fd_step :: "string option"

record failure_metadata =
  fm_code :: string
  fm_cause_code :: string
  fm_category :: failure_category
  fm_phase :: failure_phase
  fm_retryable :: bool
  fm_step :: "string option"

definition from_detail :: "failure_detail \<Rightarrow> failure_metadata" where
  "from_detail d = \<lparr>fm_code = fd_code d, fm_cause_code = fd_cause_code d,
     fm_category = fd_category d, fm_phase = fd_phase d, fm_retryable = fd_retryable d,
     fm_step = fd_step d\<rparr>"

section \<open>Exceptions\<close>

datatype syntax_reason =
    NotParsed | UnaryNotAllowed | OperatorNotAllowed | FunctionNotAllowed | WrongArity
  | ExistsNeedsReference | AttributeOnNonReference | SubscriptOnNonReference
  | SubscriptNotConstant | LiteralNotAllowed | CollectionNotLiteral | UnsupportedSyntax

datatype resolution_error =
    InvalidReference reference_error | ReferenceData data_error | ReferenceRootMissing string
  | PlaceholderSyntax placeholder_error | ParamMissing string

datatype condition_error =
    CondSyntax syntax_reason | CondData data_error | CondUnknownRoot string
  | CondIncomparable | CondNoLength | CondInternal

datatype exn_kind =
    FlowDefinitionError flow_error_kind
  | LimitExceededError limit_kind string nat nat
  | DataError string data_error
  | ReferenceResolutionError resolution_error
  | ConditionEvaluationError condition_error
  | PayloadSerializationError string
  | HandlerFailure failure_detail failure_detail
  | CancelledError
  | FlowContinuation
  | PyError string
  | ExternalError string

datatype exn = Exn (ex_kind: exn_kind) (ex_details: "(string \<times> string \<times> bool option) option")
  (ex_cause: "exn option")

definition raise_kind :: "exn_kind \<Rightarrow> exn" where
  "raise_kind k = Exn k None None"

definition raise_from :: "exn_kind \<Rightarrow> exn \<Rightarrow> exn" where
  "raise_from k e = Exn k None (Some e)"

fun data_exn :: "data_error \<Rightarrow> exn" where
  "data_exn (DataLimitExceeded k b a l) = raise_kind (LimitExceededError k b a l)"
| "data_exn (DataNormalizationError p r) = raise_kind (DataError ''DataNormalizationError'' (DataNormalizationError p r))"
| "data_exn (DataPathError p r) = raise_kind (DataError ''DataPathError'' (DataPathError p r))"

text \<open>\<open>except (DataNormalizationError, DataPathError)\<close> lets a limit error pass.\<close>

fun is_limit_error :: "data_error \<Rightarrow> bool" where
  "is_limit_error (DataLimitExceeded _ _ _ _) \<longleftrightarrow> True"
| "is_limit_error _ \<longleftrightarrow> False"

fun exn_class_name :: "exn_kind \<Rightarrow> string" where
  "exn_class_name (FlowDefinitionError _) = ''FlowDefinitionError''"
| "exn_class_name (LimitExceededError _ _ _ _) = ''LimitExceededError''"
| "exn_class_name (DataError n _) = n"
| "exn_class_name (ReferenceResolutionError _) = ''ReferenceResolutionError''"
| "exn_class_name (ConditionEvaluationError _) = ''ConditionEvaluationError''"
| "exn_class_name (PayloadSerializationError _) = ''PayloadSerializationError''"
| "exn_class_name (HandlerFailure _ _) = ''_HandlerFailure''"
| "exn_class_name CancelledError = ''CancelledError''"
| "exn_class_name FlowContinuation = ''FlowContinuation''"
| "exn_class_name (PyError n) = n"
| "exn_class_name (ExternalError n) = n"

section \<open>Limits\<close>

definition enforce_limit :: "nat \<Rightarrow> nat \<Rightarrow> limit_kind \<Rightarrow> string \<Rightarrow> exn + unit" where
  "enforce_limit actual limit kind boundary =
     (if limit < actual then Inl (raise_kind (LimitExceededError kind boundary actual limit))
      else Inr ())"

text \<open>
  \<open>enforce_payload_bytes\<close>, over the length in bytes of the strict JSON form of the value;
  \<open>None\<close> when the value has no such form.
\<close>

definition enforce_payload_bytes :: "nat option \<Rightarrow> string \<Rightarrow> nat \<Rightarrow> exn + unit" where
  "enforce_payload_bytes n_bytes boundary limit = (case n_bytes of
       None \<Rightarrow> Inl (raise_kind (PayloadSerializationError boundary))
     | Some actual \<Rightarrow> enforce_limit actual limit PAYLOAD_BYTES boundary)"

lemma enforce_limit_eq_Inr [simp]: "enforce_limit a l k b = Inr u \<longleftrightarrow> a \<le> l"
  by (auto simp: enforce_limit_def)

lemma enforce_payload_bytes_eq_Inr [simp]:
  "enforce_payload_bytes s b l = Inr u \<longleftrightarrow> (\<exists>n. s = Some n \<and> n \<le> l)"
  by (auto simp: enforce_payload_bytes_def split: option.split)

section \<open>Cancellation and causes\<close>

definition MAX_CAUSE_DEPTH :: nat where "MAX_CAUSE_DEPTH = 10"

definition is_cancelled_class :: "exn_kind \<Rightarrow> bool" where
  "is_cancelled_class k \<longleftrightarrow> k = CancelledError"

fun cancelled_within :: "nat \<Rightarrow> exn option \<Rightarrow> bool" where
  "cancelled_within 0 _ = False"
| "cancelled_within (Suc n) None = False"
| "cancelled_within (Suc n) (Some e) =
     (is_cancelled_class (ex_kind e) \<or> cancelled_within n (ex_cause e))"

definition is_cancellation :: "exn \<Rightarrow> bool" where
  "is_cancellation e = cancelled_within MAX_CAUSE_DEPTH (Some e)"

text \<open>The chain of causes, outermost first.\<close>

fun cause_chain :: "exn \<Rightarrow> exn_kind list" where
  "cause_chain (Exn k d None) = [k]"
| "cause_chain (Exn k d (Some e)) = k # cause_chain e"

lemma cancelled_within_chain:
  "cancelled_within n (Some e) \<longleftrightarrow> CancelledError \<in> set (take n (cause_chain e))"
proof (induction n arbitrary: e)
  case (Suc n)
  show ?case
  proof (cases e)
    case (Exn k d c)
    show ?thesis
    proof (cases c)
      case None
      with Exn show ?thesis by (cases n) (auto simp: is_cancelled_class_def)
    next
      case (Some e')
      with Exn Suc.IH [of e'] show ?thesis by (auto simp: is_cancelled_class_def)
    qed
  qed
qed simp

fun error_details_loop ::
    "nat \<Rightarrow> exn option \<Rightarrow> string \<times> string \<times> bool option \<Rightarrow> string \<times> string \<times> bool option" where
  "error_details_loop 0 _ best = best"
| "error_details_loop (Suc n) None best = best"
| "error_details_loop (Suc n) (Some e) best =
     error_details_loop n (ex_cause e)
       (case ex_details e of
          Some (t, m, nr) \<Rightarrow> if t \<noteq> [] \<and> m \<noteq> [] then (t, m, nr) else best
        | None \<Rightarrow> best)"

definition error_details :: "(exn_kind \<Rightarrow> string) \<Rightarrow> exn \<Rightarrow> string \<times> string \<times> bool option" where
  "error_details render e =
     error_details_loop MAX_CAUSE_DEPTH (Some e) (exn_class_name (ex_kind e), render (ex_kind e), None)"

section \<open>Classification\<close>

definition MAX_FAILURE_CODE_LENGTH :: nat where "MAX_FAILURE_CODE_LENGTH = 128"
definition MAX_FAILURE_MESSAGE_LENGTH :: nat where "MAX_FAILURE_MESSAGE_LENGTH = 1024"
definition MAX_CORRELATION_VALUE_LENGTH :: nat where "MAX_CORRELATION_VALUE_LENGTH = 128"

text \<open>The ellipsis is one character; among the 256 characters of HOL it is written CHR 0x85.\<close>

definition bounded :: "string \<Rightarrow> nat \<Rightarrow> string" where
  "bounded s limit = (if length s \<le> limit then s else take (limit - 1) s @ [CHR 0x85])"

fun phase_code :: "failure_phase \<Rightarrow> failure_code" where
  "phase_code PhTrigger = INVALID_TRIGGER"
| "phase_code PhSignal = INVALID_SIGNAL"
| "phase_code PhWorkflowInput = INPUT_CONTRACT_FAILED"
| "phase_code PhParameters = PARAMETERS_FAILED"
| "phase_code PhStep = STEP_FAILED"
| "phase_code PhHandler = HANDLER_FAILED"
| "phase_code PhResult = RESULT_FAILED"
| "phase_code PhArchive = ARCHIVAL_FAILED"
| "phase_code PhInternal = INTERNAL_ERROR"

definition phase_category :: "failure_phase \<Rightarrow> failure_category" where
  "phase_category p =
     (if p \<in> {PhTrigger, PhSignal, PhParameters} then CatInput
      else if p \<in> {PhWorkflowInput, PhResult} then CatContract
      else if p \<in> {PhStep, PhHandler} then CatExecution
      else if p = PhArchive then CatInfrastructure
      else CatInternal)"

definition classify_failure ::
    "(exn_kind \<Rightarrow> string) \<Rightarrow> exn \<Rightarrow> failure_phase \<Rightarrow> string option \<Rightarrow> failure_code option \<Rightarrow> failure_detail" where
  "classify_failure render e phase step code =
     (case error_details render e of (cause_code, message, non_retryable) \<Rightarrow>
       (case (case ex_kind e of
            LimitExceededError _ _ _ _ \<Rightarrow> (failure_code_value LIMIT_EXCEEDED, phase_category phase, False)
          | FlowDefinitionError k \<Rightarrow> (flow_error_value k, CatDefinition, False)
          | _ \<Rightarrow> (failure_code_value (case code of Some c \<Rightarrow> c | None \<Rightarrow> phase_code phase),
                  phase_category phase,
                  (case non_retryable of Some b \<Rightarrow> \<not> b | None \<Rightarrow> False)))
        of (stable_code, category, retryable) \<Rightarrow>
        \<lparr>fd_code = bounded stable_code MAX_FAILURE_CODE_LENGTH,
         fd_cause_code = bounded cause_code MAX_FAILURE_CODE_LENGTH,
         fd_category = category, fd_phase = phase,
         fd_message = bounded message MAX_FAILURE_MESSAGE_LENGTH,
         fd_retryable = retryable, fd_step = step\<rparr>))"

lemma length_bounded: "0 < limit \<Longrightarrow> length (bounded s limit) \<le> limit"
  by (auto simp: bounded_def)

lemma bounded_idem: "0 < limit \<Longrightarrow> bounded (bounded s limit) limit = bounded s limit"
  using length_bounded [of limit s] by (simp add: bounded_def [of "bounded s limit"])

lemma classify_failure_simps [simp]:
  "fd_phase (classify_failure render e phase step code) = phase"
  "fd_step (classify_failure render e phase step code) = step"
  by (auto simp: classify_failure_def split: prod.splits)

lemma classify_failure_bounds:
  "length (fd_code (classify_failure render e phase step code)) \<le> MAX_FAILURE_CODE_LENGTH"
  "length (fd_cause_code (classify_failure render e phase step code)) \<le> MAX_FAILURE_CODE_LENGTH"
  "length (fd_message (classify_failure render e phase step code)) \<le> MAX_FAILURE_MESSAGE_LENGTH"
  by (auto simp: classify_failure_def MAX_FAILURE_CODE_LENGTH_def MAX_FAILURE_MESSAGE_LENGTH_def
      intro: length_bounded split: prod.splits)

text \<open>The details reported are those of the innermost cause, among the first ten, that has any.\<close>

definition own_details :: "exn \<Rightarrow> (string \<times> string \<times> bool option) option" where
  "own_details e = (case ex_details e of
     Some (t, m, nr) \<Rightarrow> (if t \<noteq> [] \<and> m \<noteq> [] then Some (t, m, nr) else None) | None \<Rightarrow> None)"

fun details_chain :: "exn \<Rightarrow> (string \<times> string \<times> bool option) option list" where
  "details_chain (Exn k d None) = [own_details (Exn k d None)]"
| "details_chain (Exn k d (Some e)) = own_details (Exn k d (Some e)) # details_chain e"

lemma error_details_loop_chain:
  "error_details_loop n (Some e) best =
     (case rev (List.map_filter id (take n (details_chain e))) of [] \<Rightarrow> best | x # _ \<Rightarrow> x)"
proof (induction n arbitrary: e best)
  case (Suc n)
  show ?case
  proof (cases e)
    case (Exn k d c)
    have step: "error_details_loop (Suc n) (Some e) best = error_details_loop n c
        (case own_details e of Some x \<Rightarrow> x | None \<Rightarrow> best)"
      using Exn by (auto simp: own_details_def split: option.splits)
    show ?thesis
    proof (cases c)
      case None
      then have "error_details_loop n c b = b" for b by (cases n) auto
      with None step Exn show ?thesis
        by (auto simp: map_filter_simps split: option.splits)
    next
      case (Some e')
      with step Suc.IH [of e'] Exn show ?thesis
        by (auto simp: map_filter_simps split: option.splits list.splits)
    qed
  qed
qed (simp add: map_filter_simps)

end
