(* ===== verification/JF_References.thy ===== *)
theory JF_References
  imports JF_Errors
begin

text \<open>
  Reference resolution and parameter interpolation (\<open>engine/references.py\<close>): a reference reads a step
  output, else a parameter, along its path; interpolation replaces \<open>${name}\<close> in the strings of a
  value. Python's \<open>str\<close> of a float or of a collection is the parameter \<open>py_repr\<close>.
\<close>

section \<open>References\<close>

definition raise_resolution :: "resolution_error \<Rightarrow> exn" where
  "raise_resolution r = raise_kind (ReferenceResolutionError r)"

text \<open>\<open>except (DataNormalizationError, DataPathError)\<close> turned into a resolution error.\<close>

definition resolution_of_data :: "data_error + 'a \<Rightarrow> exn + 'a" where
  "resolution_of_data r = (case r of
       Inl e \<Rightarrow> Inl (if is_limit_error e then data_exn e
                     else raise_from (ReferenceResolutionError (ReferenceData e)) (data_exn e))
     | Inr v \<Rightarrow> Inr v)"

definition resolve_reference ::
    "reference_object \<Rightarrow> json dict \<Rightarrow> json dict \<Rightarrow> exn + json" where
  "resolve_reference ref step_outputs params =
     (case parse_reference ref of
        Inl e \<Rightarrow> Inl (raise_resolution (InvalidReference e))
      | Inr reference \<Rightarrow>
          (case reference_root reference of
             Inl e \<Rightarrow> Inl (raise_resolution (InvalidReference e))
           | Inr rname \<Rightarrow>
               (case (case map_of step_outputs rname of Some v \<Rightarrow> Some v | None \<Rightarrow> map_of params rname) of
                  None \<Rightarrow> Inl (raise_resolution (ReferenceRootMissing rname))
                | Some v \<Rightarrow> resolution_of_data
                    (resolve_json_path (of_json v) (reference_tail reference) rname))))"

text \<open>The four forms of a step's \<open>input\<close>.\<close>

datatype input_spec =
    NoInput
  | InputRef reference_path
  | InputMap "(string \<times> reference_path) list"
  | InputList "reference_path list"

definition resolve_input :: "input_spec \<Rightarrow> json dict \<Rightarrow> json dict \<Rightarrow> exn + json" where
  "resolve_input spec step_outputs params = (case spec of
       NoInput \<Rightarrow> Inr JNull
     | InputRef r \<Rightarrow> resolve_reference (RefParsed r) step_outputs params
     | InputMap kvs \<Rightarrow> map_sum id JObj (map_result (\<lambda>kv. map_sum id (Pair (fst kv))
         (resolve_reference (RefParsed (snd kv)) step_outputs params)) kvs)
     | InputList rs \<Rightarrow> map_sum id JList
         (map_result (\<lambda>r. resolve_reference (RefParsed r) step_outputs params) rs))"

text \<open>The scope a reference is read in: step outputs shadow parameters.\<close>

definition scope_lookup :: "json dict \<Rightarrow> json dict \<Rightarrow> string \<Rightarrow> json option" where
  "scope_lookup step_outputs params k =
     (case map_of step_outputs k of Some v \<Rightarrow> Some v | None \<Rightarrow> map_of params k)"

definition scope_names :: "json dict \<Rightarrow> json dict \<Rightarrow> string set" where
  "scope_names step_outputs params = fst ` set step_outputs \<union> fst ` set params"

lemma scope_lookup_None: "scope_lookup so ps k = None \<longleftrightarrow> k \<notin> scope_names so ps"
  by (auto simp: scope_lookup_def scope_names_def dom_map_of_conv_image_fst [symmetric]
      split: option.split)

lemma resolution_of_data_eq_Inr [simp]: "resolution_of_data r = Inr v \<longleftrightarrow> r = Inr v"
  by (auto simp: resolution_of_data_def split: sum.split)

text \<open>
  The abstract meaning of a reference: look the root up in the scope, then walk the path.
\<close>

definition reference_value :: "json dict \<Rightarrow> json dict \<Rightarrow> reference_path \<Rightarrow> json option" where
  "reference_value so ps r = Option.bind (scope_lookup so ps (ref_root r)) (\<lambda>v. json_at v (reference_tail r))"

definition scope_fits :: "json dict \<Rightarrow> json dict \<Rightarrow> bool" where
  "scope_fits so ps \<longleftrightarrow> list_all (\<lambda>kv. json_default_fits (snd kv)) so \<and> list_all (\<lambda>kv. json_default_fits (snd kv)) ps"

lemma scope_fits_lookup: "scope_fits so ps \<Longrightarrow> scope_lookup so ps k = Some v \<Longrightarrow> json_default_fits v"
  by (force simp: scope_fits_def scope_lookup_def list_all_iff split: option.splits dest: map_of_SomeD)

lemma resolve_reference_unfold:
  "parsed_reference r \<Longrightarrow> resolve_reference (RefParsed r) so ps =
     (case scope_lookup so ps (ref_root r) of
        None \<Rightarrow> Inl (raise_resolution (ReferenceRootMissing (ref_root r)))
      | Some v \<Rightarrow> resolution_of_data (resolve_json_path (of_json v) (reference_tail r) (ref_root r)))"
  by (simp add: resolve_reference_def parse_reference_def parsed_reference_root scope_lookup_def)

lemma reference_tail_bound: "parsed_reference r \<Longrightarrow> length (reference_tail r) \<le> MAX_PATH_TOKENS"
  using reference_tail_short [of r] by (simp add: MAX_PATH_TOKENS_def)

lemma resolve_reference_value:
  assumes "parsed_reference r" "scope_fits so ps"
  shows "resolve_reference (RefParsed r) so ps = Inr v \<longleftrightarrow> reference_value so ps r = Some v"
  using assms
  by (auto simp: resolve_reference_unfold reference_value_def resolve_of_json reference_tail_bound
      dest: scope_fits_lookup split: option.split)

text \<open>A reference whose root is in scope never reports a missing root.\<close>

lemma resolve_reference_root_in_scope:
  assumes "parsed_reference r" "ref_root r \<in> scope_names so ps"
  shows "resolve_reference (RefParsed r) so ps \<noteq> Inl (raise_resolution (ReferenceRootMissing k))"
proof -
  from assms obtain v where "scope_lookup so ps (ref_root r) = Some v"
    using scope_lookup_None [of so ps "ref_root r"] by fastforce
  moreover have "resolution_of_data d \<noteq> Inl (raise_resolution (ReferenceRootMissing k))" for d :: "data_error + json"
    by (cases d; cases "projl d")
       (auto simp: resolution_of_data_def raise_resolution_def raise_kind_def raise_from_def)
  ultimately show ?thesis using assms by (simp add: resolve_reference_unfold)
qed

section \<open>Interpolation\<close>

fun py_str :: "(json \<Rightarrow> string) \<Rightarrow> json \<Rightarrow> string" where
  "py_str py_repr (JStr s) = s"
| "py_str py_repr JNull = ''None''"
| "py_str py_repr (JBool b) = (if b then ''True'' else ''False'')"
| "py_str py_repr (JInt i) = show_int i"
| "py_str py_repr v = py_repr v"

definition param_or_raise :: "json dict \<Rightarrow> string \<Rightarrow> exn + json" where
  "param_or_raise params key = (case map_of params key of
     Some v \<Rightarrow> Inr v | None \<Rightarrow> Inl (raise_resolution (ParamMissing key)))"

fun interpolate_pieces ::
    "(json \<Rightarrow> string) \<Rightarrow> json dict \<Rightarrow> string \<Rightarrow> nat \<Rightarrow> placeholder list \<Rightarrow> exn + string" where
  "interpolate_pieces py_repr params s position [] = Inr (substring s position (length s))"
| "interpolate_pieces py_repr params s position (p # ps) =
     bind_result (param_or_raise params (ph_name p)) (\<lambda>v.
     bind_result (interpolate_pieces py_repr params s (ph_end p) ps) (\<lambda>rest.
       Inr (substring s position (ph_start p) @ py_str py_repr v @ rest)))"

definition interpolate_string :: "(json \<Rightarrow> string) \<Rightarrow> string \<Rightarrow> json dict \<Rightarrow> exn + json" where
  "interpolate_string py_repr s params = (case parse_placeholders s of
       Inl e \<Rightarrow> Inl (raise_resolution (PlaceholderSyntax e))
     | Inr ps \<Rightarrow>
         (case ps of
            [] \<Rightarrow> Inr (JStr s)
          | p # rest \<Rightarrow>
              if rest = [] \<and> ph_start p = 0 \<and> ph_end p = length s
              then param_or_raise params (ph_name p)
              else map_sum id JStr (interpolate_pieces py_repr params s 0 ps)))"

fun interpolate_params :: "(json \<Rightarrow> string) \<Rightarrow> json dict \<Rightarrow> json \<Rightarrow> exn + json" where
  "interpolate_params py_repr params (JStr s) = interpolate_string py_repr s params"
| "interpolate_params py_repr params (JObj kvs) =
     map_sum id JObj (map_result (\<lambda>kv. map_sum id (Pair (fst kv))
       (interpolate_params py_repr params (snd kv))) kvs)"
| "interpolate_params py_repr params (JList xs) =
     map_sum id JList (map_result (interpolate_params py_repr params) xs)"
| "interpolate_params py_repr params v = Inr v"

fun find_unresolved_placeholders :: "json \<Rightarrow> exn + string list" where
  "find_unresolved_placeholders (JStr s) = (case parse_placeholders s of
       Inl e \<Rightarrow> Inl (raise_resolution (PlaceholderSyntax e))
     | Inr ps \<Rightarrow> Inr (map ph_name ps))"
| "find_unresolved_placeholders (JObj kvs) =
     map_sum id concat (map_result (\<lambda>kv. find_unresolved_placeholders (snd kv)) kvs)"
| "find_unresolved_placeholders (JList xs) =
     map_sum id concat (map_result find_unresolved_placeholders xs)"
| "find_unresolved_placeholders _ = Inr []"

text \<open>
  \<open>find_unresolved_placeholders\<close> and \<open>placeholder_names\<close> agree, errors aside.
\<close>

lemma find_unresolved_names:
  "placeholder_names j = Inr ns \<Longrightarrow> find_unresolved_placeholders j = Inr ns"
proof (induction j arbitrary: ns)
  case (JList xs)
  then obtain nss where nss: "map_result placeholder_names xs = Inr nss" "ns = concat nss" by auto
  then have "map_result find_unresolved_placeholders xs = Inr (map (\<lambda>y. y) nss)"
    by (elim map_result_transfer) (auto simp: JList.IH)
  with nss show ?case by simp
next
  case (JObj kvs)
  then obtain nss where nss: "map_result (\<lambda>kv. placeholder_names (snd kv)) kvs = Inr nss" "ns = concat nss"
    by auto
  then have "map_result (\<lambda>kv. find_unresolved_placeholders (snd kv)) kvs = Inr (map (\<lambda>y. y) nss)"
    by (elim map_result_transfer) (auto simp: JObj.IH)
  with nss show ?case by simp
qed auto

lemma interpolate_pieces_ok:
  "is_ok (interpolate_pieces R params s i ps) \<longleftrightarrow> ph_name ` set ps \<subseteq> fst ` set params"
proof (induction ps arbitrary: i)
  case (Cons p ps)
  have "is_ok (param_or_raise params (ph_name p)) \<longleftrightarrow> ph_name p \<in> fst ` set params"
    by (auto simp: param_or_raise_def dom_map_of_conv_image_fst [symmetric] split: option.split)
  with Cons show ?case by (auto simp: result_simps)
qed simp

lemma interpolate_string_ok:
  assumes "parse_placeholders s = Inr ps"
  shows "is_ok (interpolate_string R s params) \<longleftrightarrow> ph_name ` set ps \<subseteq> fst ` set params"
proof (cases ps)
  case Nil
  with assms show ?thesis by (simp add: interpolate_string_def)
next
  case (Cons p rest)
  have "is_ok (param_or_raise params k) \<longleftrightarrow> k \<in> fst ` set params" for k
    by (auto simp: param_or_raise_def dom_map_of_conv_image_fst [symmetric] split: option.split)
  with Cons assms interpolate_pieces_ok [of R params s 0 ps] show ?thesis
    by (auto simp: interpolate_string_def)
qed

text \<open>Interpolation succeeds exactly when every placeholder of the value names a parameter.\<close>

lemma interpolate_params_ok:
  "placeholder_names j = Inr ns \<Longrightarrow>
   is_ok (interpolate_params R params j) \<longleftrightarrow> set ns \<subseteq> fst ` set params"
proof (induction j arbitrary: ns)
  case (JStr s)
  then obtain ps where ps: "parse_placeholders s = Inr ps" "ns = map ph_name ps"
    by (auto split: sum.splits)
  then show ?case using interpolate_string_ok [OF ps(1), of R params] by simp
next
  case (JList xs)
  then obtain nss where nss: "list_all2 (\<lambda>x y. placeholder_names x = Inr y) xs nss" "ns = concat nss"
    by (auto simp: map_result_eq_Inr)
  have "list_all (\<lambda>x. is_ok (interpolate_params R params x)) xs \<longleftrightarrow>
      list_all (\<lambda>ys. set ys \<subseteq> fst ` set params) nss"
    using nss(1) JList.IH by (induction rule: list_all2_induct) auto
  with nss(2) show ?case by (auto simp: map_result_ok list_all_iff)
next
  case (JObj kvs)
  then obtain nss where nss: "list_all2 (\<lambda>x y. placeholder_names (snd x) = Inr y) kvs nss" "ns = concat nss"
    by (auto simp: map_result_eq_Inr)
  have "list_all (\<lambda>x. is_ok (interpolate_params R params (snd x))) kvs \<longleftrightarrow>
      list_all (\<lambda>ys. set ys \<subseteq> fst ` set params) nss"
    using nss(1) JObj.IH by (induction rule: list_all2_induct) (auto simp: snds.simps)
  with nss(2) show ?case by (auto simp: map_result_ok list_all_iff)
qed auto

text \<open>
  Interpolating under parameters that render as their own placeholder gives the text back: the
  pieces between the placeholders are copied exactly.
\<close>

definition self_params :: "json dict \<Rightarrow> string set \<Rightarrow> bool" where
  "self_params params names \<longleftrightarrow> (\<forall>n \<in> names. map_of params n = Some (JStr (''${'' @ n @ ''}'')))"

lemma interpolate_pieces_self:
  "placeholders_ok s i ps \<Longrightarrow> i \<le> length s \<Longrightarrow> self_params params (ph_name ` set ps) \<Longrightarrow>
   interpolate_pieces R params s i ps = Inr (substring s i (length s))"
proof (induction ps arbitrary: i)
  case (Cons p ps)
  let ?a = "ph_start p" and ?b = "ph_end p"
  from Cons.prems have b: "i \<le> ?a" "?a \<le> ?b" "?b \<le> length s"
    and piece: "substring s ?a ?b = ''${'' @ ph_name p @ ''}''" and rest: "placeholders_ok s ?b ps"
    by auto
  have self: "self_params params (ph_name ` set ps)"
    "map_of params (ph_name p) = Some (JStr (''${'' @ ph_name p @ ''}''))"
    using Cons.prems(3) by (auto simp: self_params_def)
  have "interpolate_pieces R params s ?b ps = Inr (substring s ?b (length s))"
    using Cons.IH [OF rest b(3) self(1)] .
  moreover have "substring s i ?a @ (substring s ?a ?b @ substring s ?b (length s)) = substring s i (length s)"
    using b by (simp add: substring_append)
  ultimately show ?case using self(2) piece by (simp add: param_or_raise_def)
qed simp

lemma interpolate_string_self:
  assumes "parse_placeholders s = Inr ps" "self_params params (ph_name ` set ps)"
  shows "interpolate_string R s params = Inr (JStr s)"
proof (cases ps)
  case Nil
  with assms show ?thesis by (simp add: interpolate_string_def)
next
  case (Cons p rest)
  have ok: "placeholders_ok s 0 (p # rest)" using assms(1) Cons parse_placeholders_ok by blast
  have pieces: "interpolate_pieces R params s 0 (p # rest) = Inr s"
    using interpolate_pieces_self [OF ok, of params R] assms(2) Cons by (simp add: substring_def)
  show ?thesis
  proof (cases "rest = [] \<and> ph_start p = 0 \<and> ph_end p = length s")
    case True
    with ok have "s = ''${'' @ ph_name p @ ''}''" by (simp add: substring_def)
    with True assms Cons show ?thesis
      by (simp add: interpolate_string_def param_or_raise_def self_params_def)
  next
    case False
    then show ?thesis using assms(1) Cons pieces by (simp only: interpolate_string_def) auto
  qed
qed

end
