(* ===== verification/JF_Evaluator.thy ===== *)
theory JF_Evaluator
  imports JF_References "HOL-Library.Char_ord" "HOL-Library.List_Lexorder" "HOL-Library.Product_Lexorder"
begin

text \<open>
  Inline conditions (\<open>engine/evaluator.py\<close>): the syntax trees of Python's \<open>ast\<close> that the module
  inspects, the whitelist check, the roots and references of a condition, and the evaluation, with
  Python's equality, ordering, membership, length and truth value on the values a condition can
  reach. \<open>ast.parse\<close> is the parameter \<open>ps\<close> of the functions that start from the text: \<open>None\<close> for a
  \<open>SyntaxError\<close>, else the body of the parsed expression. A node class the module never looks into is
  \<open>OtherExpr\<close> with the class name. Python's limit on the recursion depth is not modelled.
\<close>

section \<open>Syntax trees\<close>

datatype pyconst =
    CNone | CBool bool | CInt int | CFloat pyfloat | CStr string | CBytes string
  | CComplex pyfloat | CEllipsis

datatype cmpop = OpEq | OpNotEq | OpLt | OpLtE | OpGt | OpGtE | OpIn | OpNotIn | OpIs | OpIsNot

datatype unop = UNot | UOther string

datatype expr =
    BoolOp bool "expr list"
  | UnaryOp unop expr
  | Compare expr "(cmpop \<times> expr) list"
  | Call expr "expr list" bool
  | Attribute expr string
  | Subscript expr expr
  | Name string
  | Constant pyconst
  | ListE "expr list"
  | TupleE "expr list"
  | OtherExpr string

definition WHITELISTED_FUNCTIONS :: "string list" where
  "WHITELISTED_FUNCTIONS = [''len'', ''exists'']"

fun is_reference_node :: "expr \<Rightarrow> bool" where
  "is_reference_node (Name _) = True"
| "is_reference_node (Attribute _ _) = True"
| "is_reference_node (Subscript _ _) = True"
| "is_reference_node _ = False"

text \<open>\<open>isinstance(value, (str, int))\<close>, as the token a subscript stands for.\<close>

fun subscript_token :: "expr \<Rightarrow> path_token option" where
  "subscript_token (Constant (CStr s)) = Some (TKey s)"
| "subscript_token (Constant (CInt i)) = Some (TIdx i)"
| "subscript_token (Constant (CBool b)) = Some (TBool b)"
| "subscript_token _ = None"

fun is_constant :: "expr \<Rightarrow> bool" where
  "is_constant (Constant _) = True"
| "is_constant _ = False"

fun is_literal_constant :: "pyconst \<Rightarrow> bool" where
  "is_literal_constant (CBytes _) = False"
| "is_literal_constant (CComplex _) = False"
| "is_literal_constant CEllipsis = False"
| "is_literal_constant _ = True"

fun function_name :: "expr \<Rightarrow> string option" where
  "function_name (Name f) = (if f \<in> set WHITELISTED_FUNCTIONS then Some f else None)"
| "function_name _ = None"

definition allowed_op :: "cmpop \<Rightarrow> bool" where
  "allowed_op op \<longleftrightarrow> op \<noteq> OpIs \<and> op \<noteq> OpIsNot"

fun check_node :: "expr \<Rightarrow> syntax_reason + unit" where
  "check_node (BoolOp _ vs) = bind_result (map_result check_node vs) (\<lambda>_. Inr ())"
| "check_node (UnaryOp op e) = (if op = UNot then check_node e else Inl UnaryNotAllowed)"
| "check_node (Compare left rest) =
     (if \<not> list_all (\<lambda>oe. allowed_op (fst oe)) rest then Inl OperatorNotAllowed
      else bind_result (check_node left) (\<lambda>_.
             bind_result (map_result (\<lambda>oe. check_node (snd oe)) rest) (\<lambda>_. Inr ())))"
| "check_node (Call f args keywords) = (case function_name f of
       None \<Rightarrow> Inl FunctionNotAllowed
     | Some name \<Rightarrow>
         (case args of
            [arg] \<Rightarrow>
              if keywords then Inl WrongArity
              else if name = ''exists'' \<and> \<not> is_reference_node arg then Inl ExistsNeedsReference
              else check_node arg
          | _ \<Rightarrow> Inl WrongArity))"
| "check_node (Attribute e attr) =
     (if is_reference_node e then check_node e else Inl AttributeOnNonReference)"
| "check_node (Subscript e i) =
     (if \<not> is_reference_node e then Inl SubscriptOnNonReference
      else if subscript_token i = None then Inl SubscriptNotConstant
      else check_node e)"
| "check_node (Name _) = Inr ()"
| "check_node (Constant c) = (if is_literal_constant c then Inr () else Inl LiteralNotAllowed)"
| "check_node (ListE es) = (if list_all is_constant es then Inr () else Inl CollectionNotLiteral)"
| "check_node (TupleE es) = (if list_all is_constant es then Inr () else Inl CollectionNotLiteral)"
| "check_node (OtherExpr _) = Inl UnsupportedSyntax"

definition parse_condition :: "(string \<Rightarrow> expr option) \<Rightarrow> string \<Rightarrow> syntax_reason + expr" where
  "parse_condition ps expression = (case ps (py_strip expression) of
       None \<Rightarrow> Inl NotParsed
     | Some body \<Rightarrow> bind_result (check_node body) (\<lambda>_. Inr body))"

section \<open>Values\<close>

text \<open>
  What an expression evaluates to: a JSON value of the context, or a literal. Bytes, complex
  numbers and the ellipsis occur only as elements of a literal list or tuple.
\<close>

datatype cval =
    VNone | VBool bool | VInt int | VFloat pyfloat | VStr string | VBytes string
  | VComplex pyfloat | VEllipsis | VList "cval list" | VTuple "cval list" | VDict "(string \<times> cval) list"

fun cval_of_const :: "pyconst \<Rightarrow> cval" where
  "cval_of_const CNone = VNone"
| "cval_of_const (CBool b) = VBool b"
| "cval_of_const (CInt i) = VInt i"
| "cval_of_const (CFloat f) = VFloat f"
| "cval_of_const (CStr s) = VStr s"
| "cval_of_const (CBytes s) = VBytes s"
| "cval_of_const (CComplex f) = VComplex f"
| "cval_of_const CEllipsis = VEllipsis"

fun cval_of_json :: "json \<Rightarrow> cval" where
  "cval_of_json JNull = VNone"
| "cval_of_json (JBool b) = VBool b"
| "cval_of_json (JInt i) = VInt i"
| "cval_of_json (JFloat q) = VFloat (Fin q)"
| "cval_of_json (JStr s) = VStr s"
| "cval_of_json (JList xs) = VList (map cval_of_json xs)"
| "cval_of_json (JObj kvs) = VDict (map (\<lambda>kv. (fst kv, cval_of_json (snd kv))) kvs)"

fun pyval_of_cval :: "cval \<Rightarrow> pyval" where
  "pyval_of_cval VNone = PNone"
| "pyval_of_cval (VBool b) = PBool b"
| "pyval_of_cval (VInt i) = PInt i"
| "pyval_of_cval (VFloat f) = PFloat f"
| "pyval_of_cval (VStr s) = PStr s"
| "pyval_of_cval (VBytes _) = POpaque ''bytes''"
| "pyval_of_cval (VComplex _) = POpaque ''complex''"
| "pyval_of_cval VEllipsis = POpaque ''ellipsis''"
| "pyval_of_cval (VList xs) = PList (map pyval_of_cval xs)"
| "pyval_of_cval (VTuple xs) = PTuple (map pyval_of_cval xs)"
| "pyval_of_cval (VDict kvs) = PDict (map (\<lambda>kv. (KStr (fst kv), pyval_of_cval (snd kv))) kvs)"

text \<open>
  Numbers: a \<open>bool\<close> is an \<open>int\<close>, and Python compares integers with floats exactly.
\<close>

fun cval_number :: "cval \<Rightarrow> pyfloat option" where
  "cval_number (VBool b) = Some (Fin (if b then 1 else 0))"
| "cval_number (VInt i) = Some (Fin (of_int i))"
| "cval_number (VFloat f) = Some f"
| "cval_number _ = None"

fun float_eq :: "pyfloat \<Rightarrow> pyfloat \<Rightarrow> bool" where
  "float_eq (Fin p) (Fin q) = (p = q)"
| "float_eq PosInf PosInf = True"
| "float_eq NegInf NegInf = True"
| "float_eq _ _ = False"

fun float_less :: "pyfloat \<Rightarrow> pyfloat \<Rightarrow> bool" where
  "float_less (Fin p) (Fin q) = (p < q)"
| "float_less (Fin _) PosInf = True"
| "float_less NegInf (Fin _) = True"
| "float_less NegInf PosInf = True"
| "float_less _ _ = False"

fun cval_eq :: "cval \<Rightarrow> cval \<Rightarrow> bool"
  and cvals_eq :: "cval list \<Rightarrow> cval list \<Rightarrow> bool"
  and entries_eq :: "(string \<times> cval) list \<Rightarrow> (string \<times> cval) list \<Rightarrow> bool" where
  "cval_eq VNone w \<longleftrightarrow> w = VNone"
| "cval_eq VEllipsis w \<longleftrightarrow> w = VEllipsis"
| "cval_eq (VStr s) w \<longleftrightarrow> w = VStr s"
| "cval_eq (VBytes s) w \<longleftrightarrow> w = VBytes s"
| "cval_eq (VComplex f) w \<longleftrightarrow> (case w of
     VComplex g \<Rightarrow> float_eq f g
   | _ \<Rightarrow> (case cval_number w of Some n \<Rightarrow> float_eq f (Fin 0) \<and> float_eq n (Fin 0) | None \<Rightarrow> False))"
| "cval_eq (VList xs) w \<longleftrightarrow> (case w of VList ys \<Rightarrow> cvals_eq xs ys | _ \<Rightarrow> False)"
| "cval_eq (VTuple xs) w \<longleftrightarrow> (case w of VTuple ys \<Rightarrow> cvals_eq xs ys | _ \<Rightarrow> False)"
| "cval_eq (VDict kvs) w \<longleftrightarrow>
     (case w of VDict kws \<Rightarrow> length kvs = length kws \<and> entries_eq kvs kws | _ \<Rightarrow> False)"
| "cval_eq v w \<longleftrightarrow> (case cval_number v of
     None \<Rightarrow> False
   | Some m \<Rightarrow> (case w of
       VComplex f \<Rightarrow> float_eq f (Fin 0) \<and> float_eq m (Fin 0)
     | _ \<Rightarrow> (case cval_number w of Some n \<Rightarrow> float_eq m n | None \<Rightarrow> False)))"
| "cvals_eq [] ys \<longleftrightarrow> ys = []"
| "cvals_eq (x # xs) ys \<longleftrightarrow> (case ys of [] \<Rightarrow> False | y # ys' \<Rightarrow> cval_eq x y \<and> cvals_eq xs ys')"
| "entries_eq [] kws \<longleftrightarrow> True"
| "entries_eq ((k, v) # kvs) kws \<longleftrightarrow>
     (case map_of kws k of None \<Rightarrow> False | Some w \<Rightarrow> cval_eq v w) \<and> entries_eq kvs kws"

text \<open>The rich comparisons that order; \<open>None\<close> is Python's \<open>TypeError\<close>.\<close>

definition ord_result :: "cmpop \<Rightarrow> bool \<Rightarrow> bool \<Rightarrow> bool \<Rightarrow> bool" where
  "ord_result op lt eq gt = (case op of
     OpLt \<Rightarrow> lt | OpLtE \<Rightarrow> lt \<or> eq | OpGt \<Rightarrow> gt | OpGtE \<Rightarrow> gt \<or> eq | _ \<Rightarrow> False)"

definition string_ord :: "cmpop \<Rightarrow> string \<Rightarrow> string \<Rightarrow> bool" where
  "string_ord op s t = ord_result op (s < t) (s = t) (t < s)"

fun cval_ord :: "cmpop \<Rightarrow> cval \<Rightarrow> cval \<Rightarrow> bool option"
  and cvals_ord :: "cmpop \<Rightarrow> cval list \<Rightarrow> cval list \<Rightarrow> bool option" where
  "cval_ord op (VStr s) w = (case w of VStr t \<Rightarrow> Some (string_ord op s t) | _ \<Rightarrow> None)"
| "cval_ord op (VBytes s) w = (case w of VBytes t \<Rightarrow> Some (string_ord op s t) | _ \<Rightarrow> None)"
| "cval_ord op (VList xs) w = (case w of VList ys \<Rightarrow> cvals_ord op xs ys | _ \<Rightarrow> None)"
| "cval_ord op (VTuple xs) w = (case w of VTuple ys \<Rightarrow> cvals_ord op xs ys | _ \<Rightarrow> None)"
| "cval_ord op v w = (case (cval_number v, cval_number w) of
       (Some m, Some n) \<Rightarrow> Some (ord_result op (float_less m n) (float_eq m n) (float_less n m))
     | _ \<Rightarrow> None)"
| "cvals_ord op [] ys = Some (ord_result op (ys \<noteq> []) (ys = []) False)"
| "cvals_ord op (x # xs) ys = (case ys of
       [] \<Rightarrow> Some (ord_result op False False True)
     | y # ys' \<Rightarrow> if cval_eq x y then cvals_ord op xs ys' else cval_ord op x y)"

text \<open>
  \<open>left in right\<close>. A dictionary hashes the left operand first: lists and dictionaries have no hash,
  other operands that are no strings are in no dictionary. The operand on the right of a checked
  expression is never a bytes literal (\<open>evaluate_plain\<close> below), so that case is left out.
\<close>

definition cval_in :: "cval \<Rightarrow> cval \<Rightarrow> bool option" where
  "cval_in v w = (case w of
       VStr t \<Rightarrow> (case v of VStr s \<Rightarrow> Some (str_find t s 0 \<noteq> None) | _ \<Rightarrow> None)
     | VList ws \<Rightarrow> Some (list_ex (cval_eq v) ws)
     | VTuple ws \<Rightarrow> Some (list_ex (cval_eq v) ws)
     | VDict kws \<Rightarrow> (case v of
         VStr s \<Rightarrow> Some (dict_has kws s)
       | VList _ \<Rightarrow> None
       | VDict _ \<Rightarrow> None
       | _ \<Rightarrow> Some False)
     | _ \<Rightarrow> None)"

definition compare_values :: "cmpop \<Rightarrow> cval \<Rightarrow> cval \<Rightarrow> bool option" where
  "compare_values op v w = (case op of
       OpIn \<Rightarrow> cval_in v w
     | OpNotIn \<Rightarrow> map_option Not (cval_in v w)
     | OpEq \<Rightarrow> Some (cval_eq v w)
     | OpNotEq \<Rightarrow> Some (\<not> cval_eq v w)
     | _ \<Rightarrow> cval_ord op v w)"

fun cval_truthy :: "cval \<Rightarrow> bool" where
  "cval_truthy VNone \<longleftrightarrow> False"
| "cval_truthy (VBool b) \<longleftrightarrow> b"
| "cval_truthy (VInt i) \<longleftrightarrow> i \<noteq> 0"
| "cval_truthy (VFloat f) \<longleftrightarrow> f \<noteq> Fin 0"
| "cval_truthy (VStr s) \<longleftrightarrow> s \<noteq> []"
| "cval_truthy (VBytes s) \<longleftrightarrow> s \<noteq> []"
| "cval_truthy (VComplex f) \<longleftrightarrow> f \<noteq> Fin 0"
| "cval_truthy VEllipsis \<longleftrightarrow> True"
| "cval_truthy (VList xs) \<longleftrightarrow> xs \<noteq> []"
| "cval_truthy (VTuple xs) \<longleftrightarrow> xs \<noteq> []"
| "cval_truthy (VDict kvs) \<longleftrightarrow> kvs \<noteq> []"

definition cval_len :: "cval \<Rightarrow> nat option" where
  "cval_len v = (case v of
       VStr s \<Rightarrow> Some (length s) | VBytes s \<Rightarrow> Some (length s)
     | VList xs \<Rightarrow> Some (length xs) | VTuple xs \<Rightarrow> Some (length xs)
     | VDict kvs \<Rightarrow> Some (length kvs) | _ \<Rightarrow> None)"

section \<open>Evaluation\<close>

definition NAME_LITERALS :: "(string \<times> cval) list" where
  "NAME_LITERALS = [(''true'', VBool True), (''false'', VBool False), (''null'', VNone),
     (''True'', VBool True), (''False'', VBool False), (''None'', VNone)]"

record eval_context =
  ec_data :: json
  ec_step_outputs :: "json dict"
  ec_params :: "json dict"

definition raise_condition :: "condition_error \<Rightarrow> exn" where
  "raise_condition c = raise_kind (ConditionEvaluationError c)"

definition is_condition_error :: "exn \<Rightarrow> bool" where
  "is_condition_error e = (case ex_kind e of ConditionEvaluationError _ \<Rightarrow> True | _ \<Rightarrow> False)"

text \<open>\<open>except (DataNormalizationError, DataPathError)\<close> turned into a condition error.\<close>

definition condition_of_data :: "data_error + 'a \<Rightarrow> exn + 'a" where
  "condition_of_data r = (case r of
       Inl e \<Rightarrow> Inl (if is_limit_error e then data_exn e
                     else raise_from (ConditionEvaluationError (CondData e)) (data_exn e))
     | Inr v \<Rightarrow> Inr v)"

definition resolve_root :: "string \<Rightarrow> eval_context \<Rightarrow> exn + json" where
  "resolve_root name ctx =
     (if name = ''input'' then Inr (ec_data ctx)
      else case map_of (ec_step_outputs ctx) name of
        Some v \<Rightarrow> Inr v
      | None \<Rightarrow> (case map_of (ec_params ctx) name of
          Some v \<Rightarrow> Inr v
        | None \<Rightarrow> Inl (raise_condition (CondUnknownRoot name))))"

definition get_path_value :: "cval \<Rightarrow> path_token \<Rightarrow> exn + cval" where
  "get_path_value obj token = map_sum id cval_of_json
     (condition_of_data (resolve_json_path (pyval_of_cval obj) [token] ''condition value''))"

fun evaluate :: "expr \<Rightarrow> eval_context \<Rightarrow> exn + cval"
  and evaluate_all :: "expr list \<Rightarrow> eval_context \<Rightarrow> exn + bool"
  and evaluate_any :: "expr list \<Rightarrow> eval_context \<Rightarrow> exn + bool"
  and evaluate_list :: "expr list \<Rightarrow> eval_context \<Rightarrow> exn + cval list"
  and evaluate_compare :: "cval \<Rightarrow> (cmpop \<times> expr) list \<Rightarrow> eval_context \<Rightarrow> exn + bool" where
  "evaluate (BoolOp is_and vs) ctx =
     map_sum id VBool (if is_and then evaluate_all vs ctx else evaluate_any vs ctx)"
| "evaluate (UnaryOp op e) ctx = map_sum id (\<lambda>v. VBool (\<not> cval_truthy v)) (evaluate e ctx)"
| "evaluate (Compare left rest) ctx =
     bind_result (evaluate left ctx) (\<lambda>v. map_sum id VBool (evaluate_compare v rest ctx))"
| "evaluate (Call f args keywords) ctx = (case f of
       Name name \<Rightarrow> (case args of
           arg # _ \<Rightarrow>
             if name = ''exists''
             then (case evaluate arg ctx of
                 Inl e \<Rightarrow> if is_condition_error e then Inr (VBool False) else Inl e
               | Inr _ \<Rightarrow> Inr (VBool True))
             else bind_result (evaluate arg ctx) (\<lambda>v. (case cval_len v of
                 None \<Rightarrow> Inl (raise_condition CondNoLength)
               | Some n \<Rightarrow> Inr (VInt (int n))))
         | [] \<Rightarrow> Inl (raise_kind (PyError ''IndexError'')))
     | _ \<Rightarrow> Inl (raise_condition CondInternal))"
| "evaluate (Name name) ctx = (case map_of NAME_LITERALS name of
       Some v \<Rightarrow> Inr v | None \<Rightarrow> map_sum id cval_of_json (resolve_root name ctx))"
| "evaluate (Attribute e attr) ctx =
     bind_result (evaluate e ctx) (\<lambda>v. get_path_value v (TKey attr))"
| "evaluate (Subscript e i) ctx = (case subscript_token i of
       None \<Rightarrow> Inl (raise_condition CondInternal)
     | Some token \<Rightarrow> bind_result (evaluate e ctx) (\<lambda>v. get_path_value v token))"
| "evaluate (Constant c) ctx = Inr (cval_of_const c)"
| "evaluate (ListE es) ctx = map_sum id VList (evaluate_list es ctx)"
| "evaluate (TupleE es) ctx = map_sum id VTuple (evaluate_list es ctx)"
| "evaluate (OtherExpr _) ctx = Inl (raise_condition CondInternal)"
| "evaluate_all [] ctx = Inr True"
| "evaluate_all (e # es) ctx =
     bind_result (evaluate e ctx) (\<lambda>v. if cval_truthy v then evaluate_all es ctx else Inr False)"
| "evaluate_any [] ctx = Inr False"
| "evaluate_any (e # es) ctx =
     bind_result (evaluate e ctx) (\<lambda>v. if cval_truthy v then Inr True else evaluate_any es ctx)"
| "evaluate_list [] ctx = Inr []"
| "evaluate_list (e # es) ctx = bind_result (evaluate e ctx) (\<lambda>v.
     bind_result (evaluate_list es ctx) (\<lambda>vs. Inr (v # vs)))"
| "evaluate_compare left [] ctx = Inr True"
| "evaluate_compare left ((op, e) # rest) ctx = bind_result (evaluate e ctx) (\<lambda>right.
     (case compare_values op left right of
        None \<Rightarrow> Inl (raise_condition CondIncomparable)
      | Some ok \<Rightarrow> if ok then evaluate_compare right rest ctx else Inr False))"

text \<open>
  \<open>evaluate_condition\<close>: the data and the two scopes are normalized before anything is evaluated.
\<close>

definition evaluate_condition ::
    "(string \<Rightarrow> expr option) \<Rightarrow> string \<Rightarrow> pyval \<Rightarrow> pyval \<Rightarrow> pyval \<Rightarrow> exn + bool" where
  "evaluate_condition ps condition data step_outputs params =
     (case parse_condition ps condition of
        Inl e \<Rightarrow> Inl (raise_condition (CondSyntax e))
      | Inr body \<Rightarrow>
          bind_result (condition_of_data
            (bind_result (normalize_json_value MAX_JSON_DEPTH DEFAULT_COLLECTION_ITEMS ''input'' 0 data) (\<lambda>d.
             bind_result (normalize_json_object MAX_JSON_DEPTH DEFAULT_COLLECTION_ITEMS ''steps'' step_outputs) (\<lambda>so.
             bind_result (normalize_json_object MAX_JSON_DEPTH DEFAULT_COLLECTION_ITEMS ''params'' params) (\<lambda>ps.
               Inr \<lparr>ec_data = d, ec_step_outputs = so, ec_params = ps\<rparr>)))))
            (\<lambda>ctx. map_sum id cval_truthy (evaluate body ctx)))"

section \<open>References of a condition\<close>

record condition_reference =
  cr_root :: string
  cr_path :: "path_token list"
  cr_optional :: bool

text \<open>\<open>node.id for node in ast.walk(tree)\<close>: the names of the tree, the called functions included.\<close>

fun expr_names :: "expr \<Rightarrow> string list" where
  "expr_names (BoolOp _ vs) = concat (map expr_names vs)"
| "expr_names (UnaryOp _ e) = expr_names e"
| "expr_names (Compare left rest) = expr_names left @ concat (map (\<lambda>oe. expr_names (snd oe)) rest)"
| "expr_names (Call f args _) = expr_names f @ concat (map expr_names args)"
| "expr_names (Attribute e _) = expr_names e"
| "expr_names (Subscript e i) = expr_names e @ expr_names i"
| "expr_names (Name name) = [name]"
| "expr_names (Constant _) = []"
| "expr_names (ListE es) = concat (map expr_names es)"
| "expr_names (TupleE es) = concat (map expr_names es)"
| "expr_names (OtherExpr _) = []"

definition is_data_root :: "string \<Rightarrow> bool" where
  "is_data_root name \<longleftrightarrow> map_of NAME_LITERALS name = None \<and> name \<notin> set WHITELISTED_FUNCTIONS"

definition expr_roots :: "expr \<Rightarrow> string set" where
  "expr_roots e = set (filter is_data_root (expr_names e))"

definition condition_reference_roots ::
    "(string \<Rightarrow> expr option) \<Rightarrow> string \<Rightarrow> syntax_reason + string set" where
  "condition_reference_roots ps expression = map_sum id expr_roots (parse_condition ps expression)"

text \<open>
  \<open>_condition_reference\<close>: the path of a chain of attributes and subscripts; \<open>None\<close> when the chain is
  none, which the check has excluded.
\<close>

fun reference_chain :: "expr \<Rightarrow> (string \<times> path_token list) option" where
  "reference_chain (Name name) = Some (name, [])"
| "reference_chain (Attribute e attr) =
     map_option (\<lambda>(name, path). (name, path @ [TKey attr])) (reference_chain e)"
| "reference_chain (Subscript e i) = (case subscript_token i of
       None \<Rightarrow> None
     | Some token \<Rightarrow> map_option (\<lambda>(name, path). (name, path @ [token])) (reference_chain e))"
| "reference_chain _ = None"

definition chain_references :: "bool \<Rightarrow> expr \<Rightarrow> condition_reference list" where
  "chain_references optional e = (case reference_chain e of
       None \<Rightarrow> []
     | Some (name, path) \<Rightarrow>
         if is_data_root name
         then [\<lparr>cr_root = name, cr_path = path, cr_optional = optional\<rparr>] else [])"

fun visit_references :: "bool \<Rightarrow> expr \<Rightarrow> condition_reference list" where
  "visit_references opt (BoolOp _ vs) = concat (map (visit_references opt) vs)"
| "visit_references opt (UnaryOp _ e) = visit_references opt e"
| "visit_references opt (Compare left rest) =
     visit_references opt left @ concat (map (\<lambda>oe. visit_references opt (snd oe)) rest)"
| "visit_references opt (Call f args _) = (case (f, args) of
       (Name name, arg # _) \<Rightarrow> visit_references (name = ''exists'') arg
     | _ \<Rightarrow> [])"
| "visit_references opt (ListE es) = concat (map (visit_references opt) es)"
| "visit_references opt (TupleE es) = concat (map (visit_references opt) es)"
| "visit_references opt (Name name) = chain_references opt (Name name)"
| "visit_references opt (Attribute e attr) = chain_references opt (Attribute e attr)"
| "visit_references opt (Subscript e i) = chain_references opt (Subscript e i)"
| "visit_references opt _ = []"

definition token_sort_key :: "path_token \<Rightarrow> string" where
  "token_sort_key token = (case token of
     TKey _ \<Rightarrow> ''str:'' | TIdx _ \<Rightarrow> ''int:'' | TBool _ \<Rightarrow> ''bool:'') @ show_token token"

definition reference_sort_key :: "condition_reference \<Rightarrow> string \<times> string list" where
  "reference_sort_key r = (cr_root r, map token_sort_key (cr_path r))"

text \<open>
  The references are collected in a set and sorted by root and path; two that differ only in
  \<open>optional\<close> come in the order of the hash table, here in the order of the visit.
\<close>

definition condition_references ::
    "(string \<Rightarrow> expr option) \<Rightarrow> string \<Rightarrow> syntax_reason + condition_reference list" where
  "condition_references ps expression =
     map_sum id (\<lambda>body. sort_key reference_sort_key (remdups (visit_references False body)))
       (parse_condition ps expression)"

section \<open>What the check guarantees\<close>

lemma map_result_unit_ok: "map_result f xs = Inr us \<Longrightarrow> x \<in> set xs \<Longrightarrow> \<exists>u. f x = Inr u"
  by (induction xs arbitrary: us) (auto simp: result_simps)

lemma check_list_ok [simp]:
  "bind_result (map_result f xs) (\<lambda>_. Inr ()) = Inr () \<longleftrightarrow> (\<forall>x \<in> set xs. f x = Inr ())"
  by (induction xs) (auto simp: result_simps)

lemma check_node_Compare [simp]: "check_node (Compare l rest) = Inr () \<longleftrightarrow>
    (\<forall>oe \<in> set rest. allowed_op (fst oe)) \<and> check_node l = Inr () \<and> (\<forall>oe \<in> set rest. check_node (snd oe) = Inr ())"
proof -
  have "bind_result m (\<lambda>_. k) = Inr () \<longleftrightarrow> m = Inr () \<and> k = Inr ()" for m :: "syntax_reason + unit" and k
    by (cases m) auto
  then show ?thesis by (auto simp: list_all_iff)
qed

declare check_node.simps(3) [simp del]

lemma check_node_Call:
  "check_node (Call f args kw) = Inr () \<Longrightarrow>
   \<exists>name arg. f = Name name \<and> name \<in> set WHITELISTED_FUNCTIONS \<and> args = [arg] \<and> check_node arg = Inr () \<and>
     (name = ''exists'' \<longrightarrow> is_reference_node arg)"
  by (cases f) (auto split: option.splits list.splits if_splits)

lemma check_node_reference:
  "check_node e = Inr () \<Longrightarrow> is_reference_node e \<Longrightarrow> \<exists>name path. reference_chain e = Some (name, path)"
  by (induction e rule: reference_chain.induct) (auto split: if_splits option.splits)

text \<open>Literal collections have no references.\<close>

lemma is_constant_cases: "is_constant e \<Longrightarrow> \<exists>c. e = Constant c"
  by (cases e) auto

lemma constants_silent:
  assumes "list_all is_constant es"
  shows "concat (map (visit_references opt) es) = []" "concat (map expr_names es) = []"
    "\<exists>vs. evaluate_list es ctx = Inr vs"
proof -
  show "concat (map (visit_references opt) es) = []" "concat (map expr_names es) = []"
    using assms by (induction es) (auto dest!: is_constant_cases)
  show "\<exists>vs. evaluate_list es ctx = Inr vs"
    using assms by (induction es) (auto dest!: is_constant_cases)
qed

text \<open>
  The roots of the references are the data roots of the tree.
\<close>

lemma chain_references_roots:
  "reference_chain e = Some (name, path) \<Longrightarrow> cr_root ` set (chain_references opt e) = (if is_data_root name then {name} else {})"
  by (auto simp: chain_references_def)

lemma reference_chain_names:
  "check_node e = Inr () \<Longrightarrow> reference_chain e = Some (name, path) \<Longrightarrow> expr_names e = [name]"
proof (induction e arbitrary: path rule: reference_chain.induct)
  case (3 e i)
  then obtain token where "subscript_token i = Some token" by (auto split: option.splits if_splits)
  then have "expr_names i = []" by (cases i rule: subscript_token.cases) auto
  with 3 show ?case by (auto split: option.splits if_splits)
qed (auto split: if_splits)

lemma expr_roots_def': "expr_roots e = {n \<in> set (expr_names e). is_data_root n}"
  by (auto simp: expr_roots_def)

lemma whitelisted_not_root: "name \<in> set WHITELISTED_FUNCTIONS \<Longrightarrow> \<not> is_data_root name"
  by (auto simp: is_data_root_def)

lemma visit_references_roots:
  "check_node e = Inr () \<Longrightarrow> cr_root ` set (visit_references opt e) = expr_roots e"
proof (induction opt e rule: visit_references.induct)
  case (4 opt f args kw)
  then obtain name arg where c: "f = Name name" "name \<in> set WHITELISTED_FUNCTIONS" "args = [arg]"
    "check_node arg = Inr ()"
    using check_node_Call [OF "4.prems"] by blast
  have "cr_root ` set (visit_references (name = ''exists'') arg) = expr_roots arg"
    by (rule "4.IH" [OF _ c(1) c(3) c(4)]) (simp add: c)
  with c show ?case using whitelisted_not_root [of name] by (auto simp: expr_roots_def')
next
  case (8 opt e attr)
  then obtain name path where "reference_chain (Attribute e attr) = Some (name, path)"
    using check_node_reference [of "Attribute e attr"] by auto
  with 8 show ?case
    using reference_chain_names [of "Attribute e attr" name path]
    by (auto simp: chain_references_roots expr_roots_def' simp del: reference_chain.simps expr_names.simps)
next
  case (9 opt e i)
  then obtain name path where "reference_chain (Subscript e i) = Some (name, path)"
    using check_node_reference [of "Subscript e i"] by auto
  with 9 show ?case
    using reference_chain_names [of "Subscript e i" name path]
    by (auto simp: chain_references_roots expr_roots_def' simp del: reference_chain.simps expr_names.simps)
next
  case (7 opt name)
  then show ?case by (auto simp: chain_references_roots expr_roots_def')
next
  case (5 opt es)
  then have "list_all is_constant es" by (simp split: if_splits)
  then show ?case using constants_silent [of es] by (simp add: expr_roots_def')
next
  case (6 opt es)
  then have "list_all is_constant es" by (simp split: if_splits)
  then show ?case using constants_silent [of es] by (simp add: expr_roots_def')
next
  case (1 opt b vs)
  then have "cr_root ` set (visit_references opt v) = expr_roots v" if "v \<in> set vs" for v
    using that by simp
  then show ?case by (auto simp: expr_roots_def' image_UN)
next
  case (2 opt op e)
  then show ?case by (auto simp: expr_roots_def' split: if_splits)
next
  case (3 opt left rest)
  then have "cr_root ` set (visit_references opt (snd oe)) = expr_roots (snd oe)" if "oe \<in> set rest" for oe
    using that by simp
  with 3 show ?case by (auto simp: expr_roots_def' image_UN image_Un)
qed (auto simp: expr_roots_def')

section \<open>What an evaluation depends on\<close>

lemma evaluate_coincidence:
  "\<forall>n \<in> set (expr_names e). resolve_root n ctx = resolve_root n ctx' \<Longrightarrow> evaluate e ctx = evaluate e ctx'"
  "\<forall>e \<in> set es. \<forall>n \<in> set (expr_names e). resolve_root n ctx = resolve_root n ctx' \<Longrightarrow>
     evaluate_all es ctx = evaluate_all es ctx'"
  "\<forall>e \<in> set es. \<forall>n \<in> set (expr_names e). resolve_root n ctx = resolve_root n ctx' \<Longrightarrow>
     evaluate_any es ctx = evaluate_any es ctx'"
  "\<forall>e \<in> set es. \<forall>n \<in> set (expr_names e). resolve_root n ctx = resolve_root n ctx' \<Longrightarrow>
     evaluate_list es ctx = evaluate_list es ctx'"
  "\<forall>oe \<in> set rest. \<forall>n \<in> set (expr_names (snd oe)). resolve_root n ctx = resolve_root n ctx' \<Longrightarrow>
     evaluate_compare v rest ctx = evaluate_compare v rest ctx'"
proof (induction e ctx and es ctx and es ctx and es ctx and v rest ctx
    rule: evaluate_evaluate_all_evaluate_any_evaluate_list_evaluate_compare.induct)
  case (3 left rest ctx)
  then have "evaluate left ctx = evaluate left ctx'" by auto
  moreover have "evaluate_compare v rest ctx = evaluate_compare v rest ctx'"
    if "evaluate left ctx = Inr v" for v
    by (rule "3.IH"(2) [OF that]) (use "3.prems" in auto)
  ultimately show ?case by (simp cong: bind_result_cong)
next
  case (4 f args kw ctx)
  then show ?case by (auto split: expr.split list.split)
qed (auto split: option.split intro!: bind_result_cong)

text \<open>A reference node reads the scope along its chain.\<close>

lemma pyval_of_cval_of_json [simp]: "pyval_of_cval (cval_of_json j) = of_json j"
  by (induction j) auto

definition reference_at :: "eval_context \<Rightarrow> string \<Rightarrow> path_token list \<Rightarrow> json option" where
  "reference_at ctx name path =
     (case resolve_root name ctx of Inl _ \<Rightarrow> None | Inr v \<Rightarrow> json_at v path)"

definition context_fits :: "eval_context \<Rightarrow> bool" where
  "context_fits ctx \<longleftrightarrow> json_default_fits (ec_data ctx) \<and> scope_fits (ec_step_outputs ctx) (ec_params ctx)"

lemma resolve_root_fits: "context_fits ctx \<Longrightarrow> resolve_root name ctx = Inr v \<Longrightarrow> json_default_fits v"
  by (auto simp: context_fits_def resolve_root_def scope_fits_def list_all_iff
      split: if_splits option.splits dest!: map_of_SomeD)

lemma resolve_root_error: "resolve_root name ctx = Inl x \<Longrightarrow> is_condition_error x"
  by (auto simp: resolve_root_def raise_condition_def raise_kind_def is_condition_error_def
      split: if_splits option.splits)

lemma resolve_tokens_no_limit: "resolve_tokens v ts path = Inl e \<Longrightarrow> \<not> is_limit_error e"
  by (induction ts arbitrary: v path)
     (auto simp: resolve_token_def Let_def result_simps split: option.splits path_token.splits json.splits if_splits)

lemma condition_of_data_eq_Inr [simp]: "condition_of_data r = Inr v \<longleftrightarrow> r = Inr v"
  by (auto simp: condition_of_data_def split: sum.split)

lemma get_path_value_json:
  assumes "json_default_fits v"
  shows "get_path_value (cval_of_json v) t = Inr w \<longleftrightarrow> (\<exists>j. json_at v [t] = Some j \<and> w = cval_of_json j)"
    and "get_path_value (cval_of_json v) t = Inl x \<Longrightarrow> is_condition_error x"
proof -
  show "get_path_value (cval_of_json v) t = Inr w \<longleftrightarrow> (\<exists>j. json_at v [t] = Some j \<and> w = cval_of_json j)"
  proof -
    have "resolve_json_path (of_json v) [t] ''condition value'' = Inr j \<longleftrightarrow> json_at v [t] = Some j" for j
      using resolve_of_json [OF assms, of "[t]"]
      by (simp add: MAX_PATH_TOKENS_def MAX_REFERENCE_COMPONENTS_def)
    then show ?thesis by (auto simp: get_path_value_def)
  qed
  show "is_condition_error x" if "get_path_value (cval_of_json v) t = Inl x"
    using that normalize_of_json [of 0 MAX_JSON_DEPTH DEFAULT_COLLECTION_ITEMS v "''condition value''"] assms
      resolve_tokens_no_limit [of v "[t]" "''condition value''"]
    by (auto simp: get_path_value_def condition_of_data_def resolve_json_path_def MAX_PATH_TOKENS_def
        MAX_REFERENCE_COMPONENTS_def raise_from_def is_condition_error_def split: sum.splits)
qed

lemma reference_at_fits: "context_fits ctx \<Longrightarrow> reference_at ctx name path = Some j \<Longrightarrow> json_default_fits j"
  by (auto simp: reference_at_def split: sum.splits intro: json_at_fits resolve_root_fits)

lemma reference_at_snoc:
  "reference_at ctx name (path @ [t]) = Option.bind (reference_at ctx name path) (\<lambda>v. json_at v [t])"
  by (simp add: reference_at_def json_at_append split: sum.split)

definition reads_reference :: "eval_context \<Rightarrow> string \<Rightarrow> path_token list \<Rightarrow> exn + cval \<Rightarrow> bool" where
  "reads_reference ctx name path r \<longleftrightarrow> (case r of
       Inr w \<Rightarrow> map_option cval_of_json (reference_at ctx name path) = Some w
     | Inl x \<Rightarrow> reference_at ctx name path = None \<and> is_condition_error x)"

lemma reads_reference_step:
  assumes "context_fits ctx" "reads_reference ctx name path r"
  shows "reads_reference ctx name (path @ [t]) (bind_result r (\<lambda>v. get_path_value v t))"
proof (cases "reference_at ctx name path")
  case None
  with assms show ?thesis
    by (cases r) (auto simp: reads_reference_def reference_at_snoc)
next
  case (Some j)
  note g = get_path_value_json [OF reference_at_fits [OF assms(1) Some]]
  from Some assms have r: "r = Inr (cval_of_json j)"
    by (cases r) (auto simp: reads_reference_def)
  show ?thesis
  proof (cases "get_path_value (cval_of_json j) t")
    case (Inl x)
    with g(1) [of t] g(2) [of t x] r Some show ?thesis
      by (cases "json_at j [t]") (auto simp: reads_reference_def reference_at_snoc)
  next
    case (Inr w)
    with g(1) [of t w] r Some show ?thesis by (auto simp: reads_reference_def reference_at_snoc)
  qed
qed

lemma evaluate_reference:
  assumes "context_fits ctx"
  shows "check_node e = Inr () \<Longrightarrow> reference_chain e = Some (name, path) \<Longrightarrow>
    map_of NAME_LITERALS name = None \<Longrightarrow> reads_reference ctx name path (evaluate e ctx)"
proof (induction e arbitrary: path rule: reference_chain.induct)
  case (1 n)
  then show ?case
    by (auto simp: reads_reference_def reference_at_def split: sum.splits dest: resolve_root_error)
next
  case (2 e attr)
  then show ?case by (auto intro: reads_reference_step [OF assms] split: if_splits)
next
  case (3 e i)
  then show ?case by (auto intro: reads_reference_step [OF assms] split: if_splits option.splits)
qed auto

text \<open>A checked expression evaluates to no bytes, complex number or ellipsis.\<close>

fun plain_value :: "cval \<Rightarrow> bool" where
  "plain_value (VBytes _) = False"
| "plain_value (VComplex _) = False"
| "plain_value VEllipsis = False"
| "plain_value _ = True"

lemma plain_value_json [simp]: "plain_value (cval_of_json j)"
  by (cases j) auto

lemma evaluate_plain:
  assumes "check_node e = Inr ()" "evaluate e ctx = Inr v"
  shows "plain_value v"
proof (cases e)
  case (Name name)
  with assms show ?thesis
    by (auto simp: NAME_LITERALS_def split: option.splits if_splits)
next
  case (Constant c)
  with assms show ?thesis by (cases c) auto
next
  case (Call f args kw)
  with assms check_node_Call [of f args kw] show ?thesis
    by (auto simp: result_simps split: if_splits sum.splits option.splits)
qed (use assms in \<open>auto simp: result_simps get_path_value_def split: if_splits option.splits\<close>)

section \<open>The errors of an evaluation\<close>

text \<open>The branches marked unreachable in the source are unreachable on a checked expression.\<close>

definition runtime_error :: "exn \<Rightarrow> bool" where
  "runtime_error x \<longleftrightarrow> (case ex_kind x of
       ConditionEvaluationError c \<Rightarrow> c \<noteq> CondInternal
     | LimitExceededError _ _ _ _ \<Rightarrow> True
     | _ \<Rightarrow> False)"

lemma runtime_error_raise [simp]: "runtime_error (raise_condition c) \<longleftrightarrow> c \<noteq> CondInternal"
  by (simp add: runtime_error_def raise_condition_def raise_kind_def)

lemma condition_of_data_error: "condition_of_data r = Inl x \<Longrightarrow> runtime_error x"
  by (auto simp: condition_of_data_def runtime_error_def raise_from_def raise_kind_def
      split: sum.splits elim!: is_limit_error.elims(2))

lemma get_path_value_error: "get_path_value v t = Inl x \<Longrightarrow> runtime_error x"
  by (auto simp: get_path_value_def dest: condition_of_data_error)

lemma resolve_root_runtime: "resolve_root name ctx = Inl x \<Longrightarrow> runtime_error x"
  by (auto simp: resolve_root_def split: if_splits option.splits)

lemma evaluate_constants: "list_all is_constant es \<Longrightarrow> evaluate_list es ctx \<noteq> Inl x"
  using constants_silent(3) [of es ctx] by auto

lemma evaluate_error:
  "check_node e = Inr () \<Longrightarrow> evaluate e ctx = Inl x \<Longrightarrow> runtime_error x"
  "\<forall>e \<in> set es. check_node e = Inr () \<Longrightarrow> evaluate_all es ctx = Inl x \<Longrightarrow> runtime_error x"
  "\<forall>e \<in> set es. check_node e = Inr () \<Longrightarrow> evaluate_any es ctx = Inl x \<Longrightarrow> runtime_error x"
  "\<forall>e \<in> set es. check_node e = Inr () \<Longrightarrow> evaluate_list es ctx = Inl x \<Longrightarrow> runtime_error x"
  "\<forall>oe \<in> set rest. check_node (snd oe) = Inr () \<Longrightarrow> evaluate_compare v rest ctx = Inl x \<Longrightarrow> runtime_error x"
proof (induction e ctx and es ctx and es ctx and es ctx and v rest ctx
    rule: evaluate_evaluate_all_evaluate_any_evaluate_list_evaluate_compare.induct)
  case (1 is_and vs ctx)
  then show ?case by (cases is_and) auto
next
  case (4 f args kw ctx)
  obtain name arg where c: "f = Name name" "args = [arg]" "check_node arg = Inr ()"
    using check_node_Call [OF "4.prems"(1)] by blast
  show ?case
  proof (cases "evaluate arg ctx")
    case (Inl y)
    with c "4.prems"(2) have x: "evaluate arg ctx = Inl x" by (auto split: if_splits)
    show ?thesis
      by (cases "name = ''exists''") (use "4.IH" c x in auto)
  next
    case (Inr w)
    with c "4.prems"(2) show ?thesis by (auto split: if_splits option.splits)
  qed
next
  case (7 e i ctx)
  then show ?case
    by (auto simp: result_simps split: if_splits option.splits dest: get_path_value_error)
next
  case (9 es ctx)
  then show ?case by (auto simp: evaluate_constants split: if_splits)
next
  case (10 es ctx)
  then show ?case by (auto simp: evaluate_constants split: if_splits)
qed (auto simp: result_simps split: if_splits option.splits
    dest: get_path_value_error resolve_root_runtime)

text \<open>
  The chains an evaluation may need: those of the expression that no \<open>exists\<close> guards. Those with a
  data root are its references that are not optional.
\<close>

fun required_chains :: "expr \<Rightarrow> (string \<times> path_token list) list" where
  "required_chains (BoolOp _ vs) = concat (map required_chains vs)"
| "required_chains (UnaryOp _ e) = required_chains e"
| "required_chains (Compare left rest) =
     required_chains left @ concat (map (\<lambda>oe. required_chains (snd oe)) rest)"
| "required_chains (Call f args _) = (case (f, args) of
       (Name name, arg # _) \<Rightarrow> if name = ''exists'' then [] else required_chains arg
     | _ \<Rightarrow> [])"
| "required_chains (Name name) = [(name, [])]"
| "required_chains (Attribute e attr) = list_of_option (reference_chain (Attribute e attr))"
| "required_chains (Subscript e i) = list_of_option (reference_chain (Subscript e i))"
| "required_chains _ = []"

definition chain_reference :: "bool \<Rightarrow> string \<times> path_token list \<Rightarrow> condition_reference" where
  "chain_reference opt c = \<lparr>cr_root = fst c, cr_path = snd c, cr_optional = opt\<rparr>"

lemma required_chains_references:
  "check_node e = Inr () \<Longrightarrow> c \<in> set (required_chains e) \<Longrightarrow> is_data_root (fst c) \<Longrightarrow>
   chain_reference False c \<in> set (visit_references False e)"
proof (induction e rule: required_chains.induct)
  case (4 f args kw)
  obtain name arg where g: "f = Name name" "args = [arg]" "check_node arg = Inr ()"
    using check_node_Call [OF "4.prems"(1)] by blast
  with "4.prems" have n: "name \<noteq> ''exists''" "c \<in> set (required_chains arg)" by (auto split: if_splits)
  have "chain_reference False c \<in> set (visit_references False arg)"
    by (rule "4.IH") (use g n "4.prems" in auto)
  with g n show ?case by simp
next
  case (3 left rest)
  then show ?case by (simp add: image_iff) fastforce
next
  case (6 e attr)
  then show ?case by (auto simp: chain_references_def chain_reference_def split: option.split)
next
  case (7 e i)
  then show ?case by (auto simp: chain_references_def chain_reference_def split: option.split)
qed (auto simp: chain_references_def chain_reference_def split: if_splits)

definition chain_resolves :: "eval_context \<Rightarrow> string \<times> path_token list \<Rightarrow> bool" where
  "chain_resolves ctx c \<longleftrightarrow>
     (if map_of NAME_LITERALS (fst c) = None then reference_at ctx (fst c) (snd c) \<noteq> None else snd c = [])"

definition comparison_error :: "exn \<Rightarrow> bool" where
  "comparison_error x \<longleftrightarrow>
     ex_kind x = ConditionEvaluationError CondIncomparable \<or> ex_kind x = ConditionEvaluationError CondNoLength"

lemma comparison_error_raise [simp]:
  "comparison_error (raise_condition c) \<longleftrightarrow> c = CondIncomparable \<or> c = CondNoLength"
  by (simp add: comparison_error_def raise_condition_def raise_kind_def)

lemma evaluate_chain_ok:
  assumes "context_fits ctx" "check_node e = Inr ()" "reference_chain e = Some c" "chain_resolves ctx c"
  shows "evaluate e ctx \<noteq> Inl x"
proof (cases "map_of NAME_LITERALS (fst c)")
  case None
  with assms evaluate_reference [of ctx e "fst c" "snd c"] show ?thesis
    by (auto simp: reads_reference_def chain_resolves_def)
next
  case (Some v)
  with assms have "snd c = []" by (simp add: chain_resolves_def)
  with assms(3) have "e = Name (fst c)"
    by (cases e) (auto split: option.splits)
  with Some show ?thesis by simp
qed

lemma NAME_LITERALS_json: "map_of NAME_LITERALS name = Some v \<Longrightarrow> v \<in> cval_of_json ` {JNull, JBool True, JBool False}"
  by (auto simp: NAME_LITERALS_def split: if_splits)

lemma evaluate_reference_node:
  assumes fits: "context_fits ctx"
  shows "check_node e = Inr () \<Longrightarrow> is_reference_node e \<Longrightarrow>
    (case evaluate e ctx of Inl x \<Rightarrow> is_condition_error x
     | Inr w \<Rightarrow> \<exists>j. w = cval_of_json j \<and> json_default_fits j)"
proof (induction e rule: reference_chain.induct)
  case (1 name)
  then show ?case
    using resolve_root_fits [OF fits] resolve_root_error
    by (fastforce split: option.split sum.split dest: NAME_LITERALS_json)
next
  case (2 e attr)
  have step: "case get_path_value (cval_of_json j) t of Inl x \<Rightarrow> is_condition_error x
      | Inr w \<Rightarrow> \<exists>j. w = cval_of_json j \<and> json_default_fits j" if "json_default_fits j" for j t
    using get_path_value_json [OF that, of t] that by (fastforce split: sum.split intro: json_at_fits)
  from 2 show ?case
    by (cases "evaluate e ctx") (auto split: if_splits intro: step)
next
  case (3 e i)
  have step: "case get_path_value (cval_of_json j) t of Inl x \<Rightarrow> is_condition_error x
      | Inr w \<Rightarrow> \<exists>j. w = cval_of_json j \<and> json_default_fits j" if "json_default_fits j" for j t
    using get_path_value_json [OF that, of t] that by (fastforce split: sum.split intro: json_at_fits)
  from 3 show ?case
    by (cases "evaluate e ctx") (auto split: if_splits option.splits intro: step)
qed auto

text \<open>
  On a context within the limits, an evaluation whose required chains resolve can fail only by
  comparing, or measuring, values of the wrong type.
\<close>

lemma evaluate_required:
  assumes fits: "context_fits ctx"
  shows
  "check_node e = Inr () \<Longrightarrow> \<forall>c \<in> set (required_chains e). chain_resolves ctx c \<Longrightarrow>
     evaluate e ctx = Inl x \<Longrightarrow> comparison_error x"
  "\<forall>e \<in> set es. check_node e = Inr () \<and> (\<forall>c \<in> set (required_chains e). chain_resolves ctx c) \<Longrightarrow>
     evaluate_all es ctx = Inl x \<Longrightarrow> comparison_error x"
  "\<forall>e \<in> set es. check_node e = Inr () \<and> (\<forall>c \<in> set (required_chains e). chain_resolves ctx c) \<Longrightarrow>
     evaluate_any es ctx = Inl x \<Longrightarrow> comparison_error x"
  "\<forall>e \<in> set es. check_node e = Inr () \<and> (\<forall>c \<in> set (required_chains e). chain_resolves ctx c) \<Longrightarrow>
     evaluate_list es ctx = Inl x \<Longrightarrow> comparison_error x"
  "\<forall>oe \<in> set rest. check_node (snd oe) = Inr () \<and> (\<forall>c \<in> set (required_chains (snd oe)). chain_resolves ctx c) \<Longrightarrow>
     evaluate_compare v rest ctx = Inl x \<Longrightarrow> comparison_error x"
  using fits
proof (induction e ctx and es ctx and es ctx and es ctx and v rest ctx
    rule: evaluate_evaluate_all_evaluate_any_evaluate_list_evaluate_compare.induct)
  case (1 is_and vs ctx)
  then show ?case by (cases is_and) auto
next
  case (4 f args kw ctx)
  obtain name arg where c: "f = Name name" "args = [arg]" "check_node arg = Inr ()"
    "name = ''exists'' \<longrightarrow> is_reference_node arg"
    using check_node_Call [OF "4.prems"(1)] by blast
  show ?case
  proof (cases "evaluate arg ctx")
    case (Inl y)
    have "name \<noteq> ''exists''"
      using c "4.prems"(3,4) Inl evaluate_reference_node [of ctx arg] by auto
    moreover from this c "4.prems"(3) Inl have "evaluate arg ctx = Inl x" by simp
    ultimately show ?thesis using "4.IH"(2) [OF c(1,2) _ c(3)] c "4.prems" by auto
  next
    case (Inr w)
    with c "4.prems" show ?thesis by (auto split: if_splits option.splits)
  qed
next
  case (5 name ctx)
  then show ?case using evaluate_chain_ok [of ctx "Name name" "(name, [])" x] by simp
next
  case (6 e attr ctx)
  then obtain c where "reference_chain (Attribute e attr) = Some c"
    using check_node_reference [of "Attribute e attr"] by auto
  with 6 show ?case
    using evaluate_chain_ok [of ctx "Attribute e attr" c x] by (auto simp del: evaluate.simps)
next
  case (7 e i ctx)
  then obtain c where "reference_chain (Subscript e i) = Some c"
    using check_node_reference [of "Subscript e i"] by auto
  with 7 show ?case
    using evaluate_chain_ok [of ctx "Subscript e i" c x] by (auto simp del: evaluate.simps)
next
  case (9 es ctx)
  then show ?case by (auto simp: evaluate_constants split: if_splits)
next
  case (10 es ctx)
  then show ?case by (auto simp: evaluate_constants split: if_splits)
qed (auto simp: result_simps split: if_splits option.splits)

end
