(* ===== verification/JF_Models.thy ===== *)
theory JF_Models
  imports JF_Evaluator
begin

text \<open>
  The declaration models of a workflow (\<open>config/models.py\<close>) with their validators: the branches of
  \<open>on_result\<close>, a bounded wait, a step definition with the normalization of the legacy target form,
  a flow step, and the workflow. The types and numeric bounds that pydantic checks field by field
  before a validator runs are the predicates \<open>*_fields\<close>; pydantic itself is not modelled.
\<close>

section \<open>Bounds\<close>

definition MAX_ACTION_LENGTH :: nat where "MAX_ACTION_LENGTH = 512"
definition MAX_DESCRIPTION_LENGTH :: nat where "MAX_DESCRIPTION_LENGTH = 4096"
definition MAX_PATH_LENGTH :: nat where "MAX_PATH_LENGTH = 4096"
definition MAX_TIMEOUT_SECONDS :: nat where "MAX_TIMEOUT_SECONDS = 31536000"
definition MAX_CONCURRENCY :: nat where "MAX_CONCURRENCY = 1000"
definition MAX_ITERATIONS :: nat where "MAX_ITERATIONS = 10000"

definition within_bounds :: "nat \<Rightarrow> nat \<Rightarrow> nat option \<Rightarrow> bool" where
  "within_bounds lo hi x = (case x of None \<Rightarrow> True | Some n \<Rightarrow> lo \<le> n \<and> n \<le> hi)"

definition text_bounds :: "nat \<Rightarrow> string option \<Rightarrow> bool" where
  "text_bounds hi x = (case x of None \<Rightarrow> True | Some s \<Rightarrow> s \<noteq> [] \<and> length s \<le> hi)"

definition is_name :: "string \<Rightarrow> bool" where
  "is_name s \<longleftrightarrow> is_identifier s \<and> length s \<le> MAX_IDENTIFIER_LENGTH"

definition name_field :: "string option \<Rightarrow> bool" where
  "name_field x = (case x of None \<Rightarrow> True | Some s \<Rightarrow> is_name s)"

lemma is_name_nonempty: "is_name s \<Longrightarrow> s \<noteq> []"
  by (auto simp: is_name_def is_identifier_def)

lemma name_field_truthy: "name_field x \<Longrightarrow> truthy_name x \<longleftrightarrow> x \<noteq> None"
  by (cases x) (auto simp: name_field_def dest: is_name_nonempty)

section \<open>Branches and waits\<close>

datatype iteration_fail_strategy = STOP | SKIP | COLLECT

record evaluator_condition =
  evc_evaluator :: string
  evc_resources :: "string list"

datatype branch_when = WhenExpression string | WhenEvaluator evaluator_condition

record on_result_branch =
  ob_when :: "branch_when option"
  ob_default :: "string option"
  ob_then :: "string option"

datatype model_error =
    BranchNeedsWhenOrDefault | BranchWhenAndDefault | BranchNeedsThen
  | WaitUnbounded
  | MixedTarget | TargetNotBoth | TargetIncomplete
  | CacheOnWorkflow | SchemaOnWorkflow
  | TerminalWithFields string | StepKindCount string | WaitWithLoopOrCondition string
  | OnFailureOnWait string | SleepWithOutput string
  | UntilNotOp string | UntilWithForEach string | UntilNeedsMaxIterations string | LoopFieldsWithoutUntil string
  | ThenAndOnResult string | ConditionNeedsThen string | ParallelWithoutForEach string
  | ParallelNeedsConcurrency string | ConcurrencyWithoutParallel string | NoSuccessor string
  | PlaceholderInvalid "string \<times> placeholder_error" | OutputSchemaNeedsResult
  | NoDefaultBranch string | DefaultNotLast string

definition validate_branch :: "on_result_branch \<Rightarrow> model_error + unit" where
  "validate_branch b =
     (if ob_default b = None \<and> ob_when b = None then Inl BranchNeedsWhenOrDefault
      else if ob_default b \<noteq> None \<and> ob_when b \<noteq> None then Inl BranchWhenAndDefault
      else if ob_when b \<noteq> None \<and> ob_then b = None then Inl BranchNeedsThen
      else Inr ())"

record wait_for_config =
  wf_signal :: string
  wf_timeout_sec :: "nat option"
  wf_timeout_until :: "reference_path option"
  wf_on_timeout :: "string option"

definition validate_bounded :: "wait_for_config \<Rightarrow> model_error + unit" where
  "validate_bounded w =
     (if wf_timeout_sec w = None \<and> wf_timeout_until w = None then Inl WaitUnbounded else Inr ())"

section \<open>Step definitions\<close>

record cache_config =
  cc_resource :: string
  cc_key :: string
  cc_ttl_sec :: "nat option"

datatype step_target = ServiceOperationTarget string string | ChildWorkflowTarget string

datatype schema_source = SchemaInline json | SchemaPath string

record step_definition =
  sd_target :: step_target
  sd_params :: "json dict"
  sd_required_resources :: "string list"
  sd_cache :: "cache_config option"
  sd_input_schema :: "schema_source option"
  sd_output_schema :: "schema_source option"

text \<open>
  \<open>normalize_legacy_target\<close> on a mapping: the fields \<open>service\<close>, \<open>action\<close> and \<open>workflow\<close> become a
  \<open>target\<close>. \<open>dict.pop(key, None)\<close> makes an explicit \<open>null\<close> the same as an absent key.
\<close>

definition dict_pop :: "string \<Rightarrow> pyval dict \<Rightarrow> pyval" where
  "dict_pop k d = (case map_of d k of None \<Rightarrow> PNone | Some v \<Rightarrow> v)"

definition legacy_keys :: "string list" where
  "legacy_keys = [''service'', ''action'', ''workflow'']"

definition normalize_legacy_target :: "pyval dict \<Rightarrow> model_error + pyval dict" where
  "normalize_legacy_target d =
     (if dict_has d ''target''
      then (if list_ex (dict_has d) legacy_keys then Inl MixedTarget else Inr d)
      else
        (let workflow = dict_pop ''workflow'' d;
             service = dict_pop ''service'' d;
             action = dict_pop ''action'' d;
             rest = filter (\<lambda>kv. fst kv \<notin> set legacy_keys) d
         in if workflow \<noteq> PNone
            then (if service \<noteq> PNone \<or> action \<noteq> PNone then Inl TargetNotBoth
                  else Inr (dict_set ''target'' (PDict [(KStr ''kind'', PStr ''workflow''),
                         (KStr ''workflow'', workflow)]) rest))
            else if service \<noteq> PNone \<or> action \<noteq> PNone
            then (if service = PNone \<or> action = PNone then Inl TargetIncomplete
                  else Inr (dict_set ''target'' (PDict [(KStr ''kind'', PStr ''service''),
                         (KStr ''service'', service), (KStr ''action'', action)]) rest))
            else Inl TargetIncomplete))"

definition validate_target_options :: "step_definition \<Rightarrow> model_error + unit" where
  "validate_target_options s = (case sd_target s of
       ServiceOperationTarget _ _ \<Rightarrow> Inr ()
     | ChildWorkflowTarget _ \<Rightarrow>
         if sd_cache s \<noteq> None then Inl CacheOnWorkflow
         else if sd_input_schema s \<noteq> None \<or> sd_output_schema s \<noteq> None then Inl SchemaOnWorkflow
         else Inr ())"

text \<open>A normalized declaration has a target and none of the legacy fields.\<close>

lemma normalize_legacy_target_result:
  assumes "normalize_legacy_target d = Inr d'"
  shows "dict_has d' ''target'' \<and> \<not> list_ex (dict_has d') legacy_keys"
proof (cases "dict_has d ''target''")
  case True
  with assms show ?thesis by (auto simp: normalize_legacy_target_def split: if_splits)
next
  case False
  with assms obtain t where "d' = dict_set ''target'' t (filter (\<lambda>kv. fst kv \<notin> set legacy_keys) d)"
    by (auto simp: normalize_legacy_target_def Let_def split: if_splits)
  then show ?thesis by (auto simp: legacy_keys_def dict_simps)
qed

lemma normalize_legacy_target_idem:
  assumes "normalize_legacy_target d = Inr d'"
  shows "normalize_legacy_target d' = Inr d'"
  using normalize_legacy_target_result [OF assms] by (simp add: normalize_legacy_target_def)

section \<open>Flow steps\<close>

record flow_step =
  fs_name :: string
  fs_op :: "string option"
  fs_input :: input_spec
  fs_output :: "string option"
  fs_params :: "json dict"
  fs_then :: "string option"
  fs_on_result :: "on_result_branch list option"
  fs_condition :: "string option"
  fs_for_each :: "reference_path option"
  fs_as_var :: "string option"
  fs_parallel :: bool
  fs_max_concurrency :: "nat option"
  fs_on_iteration_fail :: "iteration_fail_strategy option"
  fs_wait_for :: "wait_for_config option"
  fs_sleep_sec :: "nat option"
  fs_until :: "string option"
  fs_max_iterations :: "nat option"
  fs_interval_sec :: "nat option"
  fs_on_exhausted :: "string option"
  fs_on_failure :: "string option"
  fs_terminal :: bool
  fs_reason :: "string option"

text \<open>A flow step with every optional field at its default.\<close>

definition plain_step :: "string \<Rightarrow> flow_step" where
  "plain_step name = \<lparr>fs_name = name, fs_op = None, fs_input = NoInput, fs_output = None,
     fs_params = [], fs_then = None, fs_on_result = None, fs_condition = None, fs_for_each = None,
     fs_as_var = None, fs_parallel = False, fs_max_concurrency = None, fs_on_iteration_fail = None,
     fs_wait_for = None, fs_sleep_sec = None, fs_until = None, fs_max_iterations = None,
     fs_interval_sec = None, fs_on_exhausted = None, fs_on_failure = None, fs_terminal = False,
     fs_reason = None\<rparr>"

definition branches :: "flow_step \<Rightarrow> on_result_branch list" where
  "branches s = (case fs_on_result s of None \<Rightarrow> [] | Some bs \<Rightarrow> bs)"

definition terminal_conflicts :: "flow_step \<Rightarrow> bool" where
  "terminal_conflicts s \<longleftrightarrow>
     fs_op s \<noteq> None \<or> fs_input s \<noteq> NoInput \<or> fs_output s \<noteq> None \<or> fs_params s \<noteq> [] \<or>
     fs_then s \<noteq> None \<or> fs_on_result s \<noteq> None \<or> fs_condition s \<noteq> None \<or> fs_for_each s \<noteq> None \<or>
     fs_as_var s \<noteq> None \<or> fs_max_concurrency s \<noteq> None \<or> fs_on_iteration_fail s \<noteq> None \<or>
     fs_wait_for s \<noteq> None \<or> fs_sleep_sec s \<noteq> None \<or> fs_until s \<noteq> None \<or>
     fs_max_iterations s \<noteq> None \<or> fs_interval_sec s \<noteq> None \<or> fs_on_exhausted s \<noteq> None \<or>
     fs_on_failure s \<noteq> None"

definition step_kinds :: "flow_step \<Rightarrow> nat" where
  "step_kinds s = length (filter id [fs_op s \<noteq> None, fs_wait_for s \<noteq> None, fs_sleep_sec s \<noteq> None])"

text \<open>
  The second half reads the truth value of \<open>wait_for\<close> (a model, always true), of \<open>sleep_sec\<close> (at
  least 1), and of names, which are not empty.
\<close>

definition is_pause :: "flow_step \<Rightarrow> bool" where
  "is_pause s \<longleftrightarrow> fs_wait_for s \<noteq> None \<or> (case fs_sleep_sec s of None \<Rightarrow> False | Some n \<Rightarrow> n \<noteq> 0)"

definition validate_flow_step :: "flow_step \<Rightarrow> model_error + unit" where
  "validate_flow_step s =
     (if fs_terminal s then
        (if terminal_conflicts s \<or> fs_parallel s then Inl (TerminalWithFields (fs_name s)) else Inr ())
      else if step_kinds s \<noteq> 1 then Inl (StepKindCount (fs_name s))
      else if is_pause s \<and> (fs_for_each s \<noteq> None \<or> truthy_name (fs_condition s))
        then Inl (WaitWithLoopOrCondition (fs_name s))
      else if truthy_name (fs_on_failure s) \<and> is_pause s then Inl (OnFailureOnWait (fs_name s))
      else if fs_sleep_sec s \<noteq> None \<and> (branches s \<noteq> [] \<or> truthy_name (fs_output s))
        then Inl (SleepWithOutput (fs_name s))
      else if fs_until s \<noteq> None \<and> fs_op s = None then Inl (UntilNotOp (fs_name s))
      else if fs_until s \<noteq> None \<and> fs_for_each s \<noteq> None then Inl (UntilWithForEach (fs_name s))
      else if fs_until s \<noteq> None \<and> fs_max_iterations s = None then Inl (UntilNeedsMaxIterations (fs_name s))
      else if fs_until s = None \<and> (fs_max_iterations s \<noteq> None \<or> fs_interval_sec s \<noteq> None \<or> fs_on_exhausted s \<noteq> None)
        then Inl (LoopFieldsWithoutUntil (fs_name s))
      else if truthy_name (fs_then s) \<and> branches s \<noteq> [] \<and> fs_condition s = None
        then Inl (ThenAndOnResult (fs_name s))
      else if fs_condition s \<noteq> None \<and> fs_then s = None then Inl (ConditionNeedsThen (fs_name s))
      else if fs_parallel s \<and> fs_for_each s = None then Inl (ParallelWithoutForEach (fs_name s))
      else if fs_parallel s \<and> fs_max_concurrency s = None then Inl (ParallelNeedsConcurrency (fs_name s))
      else if fs_max_concurrency s \<noteq> None \<and> \<not> fs_parallel s then Inl (ConcurrencyWithoutParallel (fs_name s))
      else if fs_then s = None \<and> branches s = [] then Inl (NoSuccessor (fs_name s))
      else Inr ())"

text \<open>The bounds pydantic checks on the fields of a step.\<close>

definition flow_step_fields :: "flow_step \<Rightarrow> bool" where
  "flow_step_fields s \<longleftrightarrow> is_name (fs_name s) \<and>
     list_all name_field [fs_op s, fs_output s, fs_then s, fs_as_var s, fs_on_exhausted s, fs_on_failure s] \<and>
     list_all (text_bounds MAX_DESCRIPTION_LENGTH) [fs_condition s, fs_until s, fs_reason s] \<and>
     within_bounds 1 MAX_CONCURRENCY (fs_max_concurrency s) \<and>
     list_all (within_bounds 1 MAX_TIMEOUT_SECONDS) [fs_sleep_sec s, fs_interval_sec s] \<and>
     within_bounds 1 MAX_ITERATIONS (fs_max_iterations s) \<and>
     list_all (\<lambda>b. validate_branch b = Inr () \<and> name_field (ob_default b) \<and> name_field (ob_then b)) (branches s)"

definition valid_step :: "flow_step \<Rightarrow> bool" where
  "valid_step s \<longleftrightarrow> flow_step_fields s \<and> validate_flow_step s = Inr ()"

section \<open>Audit capture\<close>

datatype audit_capture = MetadataOnly | Redacted "string list" nat | ApprovedFull nat

fun capture_mode :: "audit_capture \<Rightarrow> string" where
  "capture_mode MetadataOnly = ''metadata-only''"
| "capture_mode (Redacted _ _) = ''redacted''"
| "capture_mode (ApprovedFull _) = ''approved-full''"

definition AUDIT_REDACTABLE_ROOTS :: "string list" where
  "AUDIT_REDACTABLE_ROOTS = [''params'', ''steps'', ''result'', ''error'', ''failures'']"

definition AUDIT_STEP_PAYLOAD_FIELDS :: "string list" where
  "AUDIT_STEP_PAYLOAD_FIELDS = [''globals'', ''input'', ''output'', ''message'']"

text \<open>A JSON Pointer's escapes, and its tokens.\<close>

fun pointer_escapes_ok :: "string \<Rightarrow> bool" where
  "pointer_escapes_ok [] = True"
| "pointer_escapes_ok (c # cs) =
     (if c \<noteq> CHR 0x7E then pointer_escapes_ok cs
      else case cs of [] \<Rightarrow> False | d # ds \<Rightarrow> (d = CHR ''0'' \<or> d = CHR ''1'') \<and> pointer_escapes_ok ds)"

definition pointer_tokens :: "string \<Rightarrow> string list" where
  "pointer_tokens path =
     map (\<lambda>t. str_replace [CHR 0x7E, CHR ''0''] [CHR 0x7E] (str_replace [CHR 0x7E, CHR ''1''] ''/'' t))
       (str_split (CHR ''/'') (drop 1 path))"

datatype redaction_error =
    NotAPointer | InvalidEscape | NotAPayloadField | NotAStepPayload | NotAnErrorMessage
  | NotAFailureMessage | DuplicatePath

definition validate_redaction_path :: "string \<Rightarrow> redaction_error + unit" where
  "validate_redaction_path path =
     (let tokens = pointer_tokens path
      in if \<not> starts_at path ''/'' 0 then Inl NotAPointer
         else if \<not> pointer_escapes_ok path then Inl InvalidEscape
         else if tokens = [] \<or> hd tokens \<notin> set AUDIT_REDACTABLE_ROOTS then Inl NotAPayloadField
         else if hd tokens = ''steps'' \<and> (length tokens < 3 \<or> tokens ! 2 \<notin> set AUDIT_STEP_PAYLOAD_FIELDS)
           then Inl NotAStepPayload
         else if hd tokens = ''error'' \<and> (length tokens < 2 \<or> tokens ! 1 \<noteq> ''message'') then Inl NotAnErrorMessage
         else if hd tokens = ''failures'' \<and> (length tokens < 3 \<or> tokens ! 2 \<noteq> ''message'')
           then Inl NotAFailureMessage
         else Inr ())"

definition validate_redaction_paths :: "string list \<Rightarrow> redaction_error + string list" where
  "validate_redaction_paths paths =
     bind_result (map_result validate_redaction_path paths) (\<lambda>_.
       if distinct paths then Inr paths else Inl DuplicatePath)"

record on_complete_config =
  oc_resource :: string
  oc_path :: string
  oc_retention_policy :: string
  oc_capture :: audit_capture

section \<open>Workflows\<close>

record workflow_config =
  wc_workflow :: string
  wc_on_complete :: "on_complete_config option"
  wc_on_error :: "string option"
  wc_params :: "(string \<times> string) list"
  wc_input_schema :: "schema_source option"
  wc_output_schema :: "schema_source option"
  wc_result :: "reference_path option"
  wc_steps :: "(string \<times> step_definition) list"
  wc_flow :: "flow_step list"

text \<open>The positions of the branches with a \<open>default\<close>.\<close>

definition default_positions :: "on_result_branch list \<Rightarrow> nat list" where
  "default_positions bs = map fst (filter (\<lambda>ib. ob_default (snd ib) \<noteq> None) (enumerate 0 bs))"

definition validate_branches :: "flow_step \<Rightarrow> model_error + unit" where
  "validate_branches s = (case branches s of
       [] \<Rightarrow> Inr ()
     | bs \<Rightarrow>
         if default_positions bs = [] then Inl (NoDefaultBranch (fs_name s))
         else if default_positions bs \<noteq> [length bs - 1] then Inl (DefaultNotLast (fs_name s))
         else Inr ())"

text \<open>\<open>dump\<close> is \<open>self.model_dump(mode="python")\<close>.\<close>

definition validate_workflow :: "json \<Rightarrow> workflow_config \<Rightarrow> model_error + unit" where
  "validate_workflow dump w =
     (case validate_placeholders ''workflow'' dump of
        Inl e \<Rightarrow> Inl (PlaceholderInvalid e)
      | Inr _ \<Rightarrow>
          if wc_output_schema w \<noteq> None \<and> wc_result w = None then Inl OutputSchemaNeedsResult
          else bind_result (map_result validate_branches (wc_flow w)) (\<lambda>_. Inr ()))"

definition valid_workflow :: "workflow_config \<Rightarrow> bool" where
  "valid_workflow w \<longleftrightarrow> wc_flow w \<noteq> [] \<and>
     list_all (\<lambda>s. valid_step s \<and> validate_branches s = Inr ()) (wc_flow w)"

text \<open>
  In a validated list of branches exactly the last one is the default, so every branch before it
  has a condition, and the search for a matching branch always ends in one.
\<close>

lemma default_positions_iff:
  "i \<in> set (default_positions bs) \<longleftrightarrow> i < length bs \<and> ob_default (bs ! i) \<noteq> None"
  by (auto simp: default_positions_def image_iff in_set_enumerate_eq intro!: exI [of _ i] bexI [of _ "(i, bs ! i)"])

lemma validate_branches_last:
  assumes "validate_branches s = Inr ()" "branches s \<noteq> []"
  shows "i < length (branches s) \<Longrightarrow> ob_default (branches s ! i) \<noteq> None \<longleftrightarrow> i = length (branches s) - 1"
proof -
  assume i: "i < length (branches s)"
  have "default_positions (branches s) = [length (branches s) - 1]"
    using assms by (auto simp: validate_branches_def split: list.splits if_splits)
  with default_positions_iff [of i "branches s"] i show ?thesis by simp
qed

lemma validate_workflow_ok:
  assumes "validate_workflow dump w = Inr ()"
  shows "list_all (\<lambda>s. validate_branches s = Inr ()) (wc_flow w)"
  using assms by (auto simp: validate_workflow_def list_all_iff split: sum.splits if_splits)

lemma valid_step_kinds:
  assumes "valid_step s" "\<not> fs_terminal s"
  shows "(fs_op s \<noteq> None \<and> fs_wait_for s = None \<and> fs_sleep_sec s = None) \<or>
         (fs_op s = None \<and> fs_wait_for s \<noteq> None \<and> fs_sleep_sec s = None) \<or>
         (fs_op s = None \<and> fs_wait_for s = None \<and> fs_sleep_sec s \<noteq> None)"
proof -
  have "step_kinds s = 1"
    using assms by (auto simp: valid_step_def validate_flow_step_def split: if_splits)
  then show ?thesis by (auto simp: step_kinds_def split: if_splits)
qed

lemma if_raise: "(if c then Inl e else r) = Inr u \<longleftrightarrow> \<not> c \<and> r = Inr u"
  by simp

lemma validate_flow_step_ok:
  assumes "\<not> fs_terminal s" "validate_flow_step s = Inr ()"
  shows "step_kinds s = 1"
    "is_pause s \<Longrightarrow> fs_for_each s = None \<and> \<not> truthy_name (fs_condition s)"
    "truthy_name (fs_on_failure s) \<Longrightarrow> \<not> is_pause s"
    "fs_sleep_sec s \<noteq> None \<Longrightarrow> branches s = [] \<and> \<not> truthy_name (fs_output s)"
    "fs_until s \<noteq> None \<Longrightarrow> fs_op s \<noteq> None \<and> fs_for_each s = None \<and> fs_max_iterations s \<noteq> None"
    "fs_until s = None \<Longrightarrow> fs_max_iterations s = None \<and> fs_interval_sec s = None \<and> fs_on_exhausted s = None"
    "truthy_name (fs_then s) \<Longrightarrow> branches s \<noteq> [] \<Longrightarrow> fs_condition s \<noteq> None"
    "fs_condition s \<noteq> None \<Longrightarrow> fs_then s \<noteq> None"
    "fs_parallel s \<Longrightarrow> fs_for_each s \<noteq> None \<and> fs_max_concurrency s \<noteq> None"
    "fs_max_concurrency s \<noteq> None \<Longrightarrow> fs_parallel s"
    "fs_then s = None \<Longrightarrow> branches s \<noteq> []"
proof -
  note v = assms(2) [unfolded validate_flow_step_def, simplified assms(1) if_False, unfolded if_raise]
  show "step_kinds s = 1"
    "is_pause s \<Longrightarrow> fs_for_each s = None \<and> \<not> truthy_name (fs_condition s)"
    "truthy_name (fs_on_failure s) \<Longrightarrow> \<not> is_pause s"
    "fs_sleep_sec s \<noteq> None \<Longrightarrow> branches s = [] \<and> \<not> truthy_name (fs_output s)"
    "fs_until s \<noteq> None \<Longrightarrow> fs_op s \<noteq> None \<and> fs_for_each s = None \<and> fs_max_iterations s \<noteq> None"
    "fs_until s = None \<Longrightarrow> fs_max_iterations s = None \<and> fs_interval_sec s = None \<and> fs_on_exhausted s = None"
    "truthy_name (fs_then s) \<Longrightarrow> branches s \<noteq> [] \<Longrightarrow> fs_condition s \<noteq> None"
    "fs_condition s \<noteq> None \<Longrightarrow> fs_then s \<noteq> None"
    "fs_parallel s \<Longrightarrow> fs_for_each s \<noteq> None \<and> fs_max_concurrency s \<noteq> None"
    "fs_max_concurrency s \<noteq> None \<Longrightarrow> fs_parallel s"
    "fs_then s = None \<Longrightarrow> branches s \<noteq> []"
    using v by simp_all
qed

lemma valid_step_names:
  assumes "valid_step s"
  shows "truthy_name (fs_condition s) \<longleftrightarrow> fs_condition s \<noteq> None"
    "truthy_name (fs_on_failure s) \<longleftrightarrow> fs_on_failure s \<noteq> None"
    "truthy_name (fs_output s) \<longleftrightarrow> fs_output s \<noteq> None"
    "truthy_name (fs_then s) \<longleftrightarrow> fs_then s \<noteq> None"
    "is_pause s \<longleftrightarrow> fs_wait_for s \<noteq> None \<or> fs_sleep_sec s \<noteq> None"
  using assms
  by (auto simp: valid_step_def flow_step_fields_def text_bounds_def name_field_truthy is_pause_def
      within_bounds_def split: option.splits)

lemma valid_stepD: "valid_step s \<Longrightarrow> flow_step_fields s \<and> validate_flow_step s = Inr ()"
  by (simp add: valid_step_def)

lemma valid_step_pause:
  assumes "valid_step s" "\<not> fs_terminal s" "fs_op s = None"
  shows "fs_for_each s = None \<and> fs_condition s = None \<and> fs_until s = None \<and> fs_on_failure s = None"
proof -
  note ok = validate_flow_step_ok [OF assms(2) valid_stepD [OF assms(1), THEN conjunct2]]
  have "is_pause s" using valid_step_kinds [OF assms(1,2)] assms(3) valid_step_names(5) [OF assms(1)] by auto
  with ok(2,3,5) assms(3) valid_step_names(1,2) [OF assms(1)] show ?thesis by blast
qed

lemma valid_step_until:
  assumes "valid_step s" "\<not> fs_terminal s" "fs_until s \<noteq> None"
  shows "fs_for_each s = None \<and> (\<exists>n \<ge> 1. fs_max_iterations s = Some n)"
  using validate_flow_step_ok(5) [OF assms(2) valid_stepD [OF assms(1), THEN conjunct2] assms(3)]
    valid_stepD [OF assms(1)]
  by (auto simp: flow_step_fields_def within_bounds_def)

lemma valid_step_parallel:
  assumes "valid_step s" "\<not> fs_terminal s" "fs_parallel s"
  shows "fs_for_each s \<noteq> None \<and> (\<exists>n \<ge> 1. fs_max_concurrency s = Some n)"
  using validate_flow_step_ok(9) [OF assms(2) valid_stepD [OF assms(1), THEN conjunct2] assms(3)]
    valid_stepD [OF assms(1)]
  by (auto simp: flow_step_fields_def within_bounds_def)

lemma valid_step_successor:
  assumes "valid_step s" "\<not> fs_terminal s"
  shows "fs_then s \<noteq> None \<or> branches s \<noteq> []" "fs_condition s \<noteq> None \<Longrightarrow> fs_then s \<noteq> None"
    "fs_sleep_sec s \<noteq> None \<Longrightarrow> branches s = [] \<and> fs_output s = None"
  using validate_flow_step_ok(4,8,11) [OF assms(2) valid_stepD [OF assms(1), THEN conjunct2]]
    valid_step_names(3) [OF assms(1)]
  by auto

end
