(* ===== verification/JF_Analysis.thy ===== *)
theory JF_Analysis
  imports JF_Models
begin

text \<open>
  The control-flow and dataflow analysis of a workflow (\<open>engine/analysis.py\<close>): the edges between
  steps, reachability by a worklist, the search for a cycle, the symbols available on every path to
  a step, and the issues reported. Against them stand the plain notions: the edge relation and its
  closure, and the inductive set of paths with the symbols each one makes available.
\<close>

section \<open>Edges\<close>

definition INPUT_ROOT :: string where "INPUT_ROOT = ''input''"
definition ERROR_ROOT :: string where "ERROR_ROOT = ''error''"
definition REQUEST_ID_ROOT :: string where "REQUEST_ID_ROOT = ''request_id''"

datatype edge_kind =
    SUCCESS | CONDITION_SKIP | RESULT_BRANCH | RESULT_DEFAULT | WAIT_TIMEOUT_EDGE
  | LOOP_EXHAUSTION | FAILURE

record flow_edge =
  fe_source :: string
  fe_target :: string
  fe_kind :: edge_kind
  fe_produced :: "string set"

datatype analysis_issue =
    CircularFlow "string list"
  | UnreachableStep string
  | NoTerminalSuccessor string
  | RootUnavailable string string
  | ResultUnavailable string

definition steps_dict :: "flow_step list \<Rightarrow> flow_step dict" where
  "steps_dict flow = dict_update [] (map (\<lambda>s. (fs_name s, s)) flow)"

definition step_names :: "flow_step list \<Rightarrow> string list" where
  "step_names flow = dict_keys (steps_dict flow)"

definition produced_symbols :: "flow_step \<Rightarrow> string set" where
  "produced_symbols s =
     (if fs_sleep_sec s \<noteq> None then {}
      else insert (fs_name s) (set (list_of_option (fs_output s))))"

text \<open>\<open>target in steps\<close>, where the target may be \<open>None\<close>: the edge, when there is one.\<close>

definition edge_to :: "string list \<Rightarrow> string \<Rightarrow> string option \<Rightarrow> edge_kind \<Rightarrow> string set \<Rightarrow> flow_edge list" where
  "edge_to names source target kind produced = (case target of
       Some t \<Rightarrow> if t \<in> set names
         then [\<lparr>fe_source = source, fe_target = t, fe_kind = kind, fe_produced = produced\<rparr>] else []
     | None \<Rightarrow> [])"

definition branch_edges :: "string list \<Rightarrow> flow_step \<Rightarrow> flow_edge list" where
  "branch_edges names s = concat (map (\<lambda>b.
     edge_to names (fs_name s) (or_name (ob_then b) (ob_default b))
       (if ob_default b \<noteq> None then RESULT_DEFAULT else RESULT_BRANCH) (produced_symbols s)) (branches s))"

definition failure_handler :: "workflow_config \<Rightarrow> flow_step \<Rightarrow> string option" where
  "failure_handler w s = (case fs_on_failure s of Some h \<Rightarrow> Some h | None \<Rightarrow> wc_on_error w)"

definition step_edges :: "string list \<Rightarrow> workflow_config \<Rightarrow> flow_step \<Rightarrow> flow_edge list" where
  "step_edges names w s =
     (if fs_terminal s then []
      else
        (if fs_condition s \<noteq> None then edge_to names (fs_name s) (fs_then s) CONDITION_SKIP {} else []) @
        (if branches s \<noteq> [] then branch_edges names s
         else edge_to names (fs_name s) (fs_then s) SUCCESS (produced_symbols s)) @
        (case fs_wait_for s of None \<Rightarrow> []
         | Some wt \<Rightarrow> edge_to names (fs_name s) (wf_on_timeout wt) WAIT_TIMEOUT_EDGE {}) @
        (if fs_until s \<noteq> None then edge_to names (fs_name s) (fs_on_exhausted s) LOOP_EXHAUSTION {} else []) @
        (if fs_op s \<noteq> None then edge_to names (fs_name s) (failure_handler w s) FAILURE {ERROR_ROOT} else []))"

definition build_edges :: "workflow_config \<Rightarrow> flow_edge list" where
  "build_edges w = concat (map (step_edges (step_names (wc_flow w)) w) (wc_flow w))"

definition outgoing :: "flow_edge list \<Rightarrow> string \<Rightarrow> flow_edge list" where
  "outgoing edges name = filter (\<lambda>e. fe_source e = name) edges"

definition incoming :: "flow_edge list \<Rightarrow> string \<Rightarrow> flow_edge list" where
  "incoming edges name = filter (\<lambda>e. fe_target e = name) edges"

definition edge_rel :: "flow_edge list \<Rightarrow> (string \<times> string) set" where
  "edge_rel edges = (\<lambda>e. (fe_source e, fe_target e)) ` set edges"

definition targets :: "flow_edge list \<Rightarrow> string set" where
  "targets edges = fe_target ` set edges"

lemma in_outgoing [simp]: "e \<in> set (outgoing edges name) \<longleftrightarrow> e \<in> set edges \<and> fe_source e = name"
  by (auto simp: outgoing_def)

lemma in_incoming [simp]: "e \<in> set (incoming edges name) \<longleftrightarrow> e \<in> set edges \<and> fe_target e = name"
  by (auto simp: incoming_def)

lemma finite_targets [simp]: "finite (targets edges)"
  by (simp add: targets_def)

lemma finite_edge_rel [simp]: "finite (edge_rel edges)"
  by (simp add: edge_rel_def)

lemma edge_relI: "e \<in> set edges \<Longrightarrow> (fe_source e, fe_target e) \<in> edge_rel edges"
  by (auto simp: edge_rel_def)

lemma edge_relE:
  assumes "(a, b) \<in> edge_rel edges"
  obtains e where "e \<in> set edges" "fe_source e = a" "fe_target e = b"
  using assms by (auto simp: edge_rel_def)

lemma targets_outgoing: "targets (outgoing edges name) = edge_rel edges `` {name}"
  by (auto simp: targets_def edge_rel_def)

lemma edge_rel_targets: "(a, b) \<in> edge_rel edges \<Longrightarrow> b \<in> targets edges"
  by (auto simp: edge_rel_def targets_def)

lemma set_step_names: "set (step_names flow) = fs_name ` set flow"
  by (simp add: step_names_def dict_keys_def steps_dict_def dict_simps image_image)

lemma distinct_step_names: "distinct (step_names flow)"
  by (simp add: step_names_def dict_keys_def steps_dict_def dict_simps)

lemma edge_to_target: "e \<in> set (edge_to names s t k p) \<Longrightarrow> fe_target e \<in> set names \<and> fe_source e = s"
  by (auto simp: edge_to_def split: option.splits if_splits)

lemma step_edges_ends: "e \<in> set (step_edges names w s) \<Longrightarrow> fe_target e \<in> set names \<and> fe_source e = fs_name s"
  by (auto simp: step_edges_def branch_edges_def dest: edge_to_target split: if_splits option.splits)

lemma build_edges_ends:
  "e \<in> set (build_edges w) \<Longrightarrow> fe_target e \<in> fs_name ` set (wc_flow w) \<and> fe_source e \<in> fs_name ` set (wc_flow w)"
  by (auto simp: build_edges_def set_step_names dest!: step_edges_ends)

section \<open>Reachability\<close>

text \<open>The worklist \<open>pending\<close> is a stack; its top is the head of the list.\<close>

function reach_loop :: "flow_edge list \<Rightarrow> string list \<Rightarrow> string set \<Rightarrow> string set" where
  "reach_loop edges [] reached = reached"
| "reach_loop edges (current # pending) reached =
     (if current \<in> reached then reach_loop edges pending reached
      else reach_loop edges (rev (map fe_target (outgoing edges current)) @ pending) (insert current reached))"
  by pat_completeness auto
termination
proof (relation "inv_image (less_than <*lex*> less_than)
    (\<lambda>(edges, pending, reached). (card ((set pending \<union> targets edges) - reached), length pending))", goal_cases)
  case (2 edges current pending reached)
  then have "(set pending \<union> targets edges) - reached = (set (current # pending) \<union> targets edges) - reached"
    by auto
  then show ?case by simp
next
  case (3 edges current pending reached)
  let ?new = "rev (map fe_target (outgoing edges current)) @ pending"
  have "(set ?new \<union> targets edges) - insert current reached \<subset> (set (current # pending) \<union> targets edges) - reached"
    using 3 by (auto simp: targets_def)
  then have "card ((set ?new \<union> targets edges) - insert current reached)
      < card ((set (current # pending) \<union> targets edges) - reached)"
    by (intro psubset_card_mono) auto
  then show ?case by simp
qed auto

definition reachable :: "flow_edge list \<Rightarrow> string list \<Rightarrow> string set" where
  "reachable edges entries = reach_loop edges (rev entries) {}"

text \<open>Every node reached so far has all its successors reached or pending.\<close>

lemma reach_loop_correct:
  assumes "\<forall>x \<in> reached. edge_rel edges `` {x} \<subseteq> reached \<union> set pending"
  shows "reach_loop edges pending reached = (edge_rel edges)\<^sup>* `` (set pending \<union> reached)"
  using assms
proof (induction edges pending reached rule: reach_loop.induct)
  case (1 edges reached)
  then have "edge_rel edges `` reached \<subseteq> reached" by auto
  then show ?case by (simp add: Image_closed_trancl)
next
  case (2 edges current pending reached)
  let ?r = "edge_rel edges"
  show ?case
  proof (cases "current \<in> reached")
    case True
    with 2 show ?thesis by (auto simp: insert_absorb)
  next
    case False
    let ?new = "rev (map fe_target (outgoing edges current)) @ pending"
    have new: "set ?new = ?r `` {current} \<union> set pending"
      using targets_outgoing [of edges current] by (auto simp: targets_def)
    have "\<forall>x \<in> insert current reached. ?r `` {x} \<subseteq> insert current reached \<union> set ?new"
      using "2.prems" new by auto
    with "2.IH"(2) False have "reach_loop edges (current # pending) reached
        = ?r\<^sup>* `` (set ?new \<union> insert current reached)"
      by simp
    also have "\<dots> = ?r\<^sup>* `` (set (current # pending) \<union> reached)"
      using new by (auto intro: converse_rtrancl_into_rtrancl)
    finally show ?thesis .
  qed
qed

lemma reachable_rtrancl: "reachable edges entries = (edge_rel edges)\<^sup>* `` set entries"
  by (simp add: reachable_def reach_loop_correct)

section \<open>Cycles\<close>

text \<open>
  The depth-first search of \<open>_find_cycle\<close>. The set \<open>visiting\<close> is the set of the names on the
  \<open>stack\<close>; \<open>visited\<close> is threaded through the calls. \<open>Inl\<close> is the cycle found, \<open>Inr\<close> the visited set
  on the normal return.
\<close>

definition stack_cycle :: "string list \<Rightarrow> string \<Rightarrow> string list" where
  "stack_cycle stack t = dropWhile (\<lambda>x. x \<noteq> t) stack @ [t]"

function visit_node :: "flow_edge list \<Rightarrow> string \<Rightarrow> string list \<Rightarrow> string set \<Rightarrow> string list + string set"
  and visit_edges :: "flow_edge list \<Rightarrow> flow_edge list \<Rightarrow> string list \<Rightarrow> string set \<Rightarrow> string list + string set" where
  "visit_node edges name stack visited =
     map_sum id (insert name) (visit_edges edges (outgoing edges name) (stack @ [name]) visited)"
| "visit_edges edges [] stack visited = Inr visited"
| "visit_edges edges (e # es) stack visited =
     (if fe_target e \<in> set stack then Inl (stack_cycle stack (fe_target e))
      else if fe_target e \<in> visited then visit_edges edges es stack visited
      else bind_result (visit_node edges (fe_target e) stack visited) (\<lambda>visited'.
             visit_edges edges es stack visited'))"
  by pat_completeness auto
termination
proof (relation "inv_image (less_than <*lex*> less_than)
    (\<lambda>x. case x of
       Inl (edges, name, stack, visited) \<Rightarrow> (card (targets edges - set (stack @ [name])), Suc (length edges))
     | Inr (edges, es, stack, visited) \<Rightarrow> (card ((targets edges \<union> targets es) - set stack), length es))",
    goal_cases)
  case (2 edges name stack visited)
  have "targets edges \<union> targets (outgoing edges name) = targets edges"
    by (auto simp: targets_def)
  moreover have "length (outgoing edges name) \<le> length edges"
    by (simp add: outgoing_def)
  ultimately show ?case by (simp add: less_Suc_eq_le)
next
  case (3 edges e es stack visited)
  have "card ((targets edges \<union> targets es) - set stack) \<le> card ((targets edges \<union> targets (e # es)) - set stack)"
    by (rule card_mono) (auto simp: targets_def)
  then show ?case by auto
next
  case (4 edges e es stack visited)
  have "targets edges - set (stack @ [fe_target e]) \<subset> (targets edges \<union> targets (e # es)) - set stack"
    using 4 by (auto simp: targets_def)
  then have "card (targets edges - set (stack @ [fe_target e])) < card ((targets edges \<union> targets (e # es)) - set stack)"
    by (intro psubset_card_mono) auto
  then show ?case by simp
next
  case (5 edges e es stack visited)
  have "card ((targets edges \<union> targets es) - set stack) \<le> card ((targets edges \<union> targets (e # es)) - set stack)"
    by (rule card_mono) (auto simp: targets_def)
  then show ?case by auto
qed auto

fun find_cycle_from :: "flow_edge list \<Rightarrow> string list \<Rightarrow> string set \<Rightarrow> string list option" where
  "find_cycle_from edges [] visited = None"
| "find_cycle_from edges (name # names) visited =
     (if name \<in> visited then find_cycle_from edges names visited
      else case visit_node edges name [] visited of
          Inl cycle \<Rightarrow> Some cycle
        | Inr visited' \<Rightarrow> find_cycle_from edges names visited')"

definition find_cycle :: "string list \<Rightarrow> flow_edge list \<Rightarrow> string list option" where
  "find_cycle names edges = find_cycle_from edges names {}"

text \<open>
  A finished set of nodes is closed under the edges and lies on no cycle.
\<close>

definition finished :: "flow_edge list \<Rightarrow> string set \<Rightarrow> bool" where
  "finished edges V \<longleftrightarrow> edge_rel edges `` V \<subseteq> V \<and> (\<forall>x \<in> V. (x, x) \<notin> (edge_rel edges)\<^sup>+)"

lemma finished_trancl: "finished edges V \<Longrightarrow> x \<in> V \<Longrightarrow> (x, y) \<in> (edge_rel edges)\<^sup>+ \<Longrightarrow> y \<in> V"
  by (erule trancl_induct) (auto simp: finished_def)

lemma finished_insert:
  assumes "finished edges V" "edge_rel edges `` {x} \<subseteq> V" "x \<notin> V"
  shows "finished edges (insert x V)"
proof -
  have "(x, x) \<notin> (edge_rel edges)\<^sup>+"
  proof
    assume "(x, x) \<in> (edge_rel edges)\<^sup>+"
    then obtain y where "(x, y) \<in> edge_rel edges" "y = x \<or> (y, x) \<in> (edge_rel edges)\<^sup>+"
      by (meson tranclD rtranclD)
    with assms show False using finished_trancl by blast
  qed
  with assms show ?thesis by (auto simp: finished_def)
qed

lemma visit_finished:
  "visit_node edges name stack visited = Inr V \<Longrightarrow> finished edges visited \<Longrightarrow> name \<notin> visited \<Longrightarrow>
     set stack \<inter> visited = {} \<Longrightarrow> name \<notin> set stack \<Longrightarrow>
     finished edges V \<and> insert name visited \<subseteq> V \<and> set stack \<inter> V = {}"
  "visit_edges edges es stack visited = Inr V \<Longrightarrow> finished edges visited \<Longrightarrow>
     set stack \<inter> visited = {} \<Longrightarrow>
     finished edges V \<and> visited \<union> targets es \<subseteq> V \<and> set stack \<inter> V = {}"
proof (induction edges name stack visited and edges es stack visited arbitrary: V and V
    rule: visit_node_visit_edges.induct)
  case (1 edges name stack visited)
  then obtain V' where V': "visit_edges edges (outgoing edges name) (stack @ [name]) visited = Inr V'"
    "V = insert name V'"
    by auto
  have "finished edges V' \<and> visited \<union> targets (outgoing edges name) \<subseteq> V' \<and> set (stack @ [name]) \<inter> V' = {}"
    by (rule "1.IH") (use V' "1.prems" in auto)
  with V' "1.prems" show ?case
    using finished_insert [of edges V' name] by (auto simp: targets_outgoing)
next
  case (3 edges e es stack visited)
  let ?t = "fe_target e"
  from "3.prems"(1) have t: "?t \<notin> set stack" by (auto split: if_splits)
  show ?case
  proof (cases "?t \<in> visited")
    case True
    with 3 t show ?thesis by (auto simp: targets_def)
  next
    case False
    with "3.prems"(1) t obtain V' where V': "visit_node edges ?t stack visited = Inr V'"
      "visit_edges edges es stack V' = Inr V"
      by (auto simp: result_simps)
    have a: "finished edges V' \<and> insert ?t visited \<subseteq> V' \<and> set stack \<inter> V' = {}"
      using "3.IH"(2) [OF t False V'(1)] "3.prems" t False by simp
    have "finished edges V \<and> V' \<union> targets es \<subseteq> V \<and> set stack \<inter> V = {}"
      using "3.IH"(3) [OF t False V'(1) V'(2)] a by simp
    with a show ?thesis by (auto simp: targets_def)
  qed
qed (auto simp: targets_def)

text \<open>A reported cycle is one: consecutive names are linked by edges, and it returns to its start.\<close>

fun edge_path :: "flow_edge list \<Rightarrow> string list \<Rightarrow> bool" where
  "edge_path edges (x # y # zs) \<longleftrightarrow> (x, y) \<in> edge_rel edges \<and> edge_path edges (y # zs)"
| "edge_path edges _ \<longleftrightarrow> True"

lemma edge_path_snoc:
  "edge_path edges (xs @ [x]) \<Longrightarrow> (x, y) \<in> edge_rel edges \<Longrightarrow> edge_path edges (xs @ [x, y])"
  by (induction edges xs rule: edge_path.induct) auto

lemma edge_path_append: "edge_path edges (xs @ ys) \<Longrightarrow> edge_path edges ys"
proof (induction xs)
  case (Cons a xs)
  then show ?case by (cases "xs @ ys") auto
qed simp

lemma edge_path_trancl:
  "edge_path edges (x # xs) \<Longrightarrow> xs \<noteq> [] \<Longrightarrow> (x, last xs) \<in> (edge_rel edges)\<^sup>+"
proof (induction xs arbitrary: x)
  case (Cons y ys)
  then show ?case by (cases ys) (auto intro: trancl_into_trancl2)
qed simp

definition is_cycle :: "flow_edge list \<Rightarrow> string list \<Rightarrow> bool" where
  "is_cycle edges c \<longleftrightarrow> 2 \<le> length c \<and> hd c = last c \<and> edge_path edges c"

lemma is_cycle_trancl:
  assumes "is_cycle edges c"
  shows "(hd c, hd c) \<in> (edge_rel edges)\<^sup>+"
proof -
  obtain x y ys where c: "c = x # y # ys"
    using assms by (cases c; cases "tl c") (auto simp: is_cycle_def)
  then have "(x, last (y # ys)) \<in> (edge_rel edges)\<^sup>+" "x = last (y # ys)"
    using assms edge_path_trancl [of edges x "y # ys"] by (auto simp: is_cycle_def)
  with c show ?thesis by simp
qed

lemma stack_cycle_is_cycle:
  assumes "edge_path edges (xs @ [x])" "(x, t) \<in> edge_rel edges" "t \<in> set (xs @ [x])"
  shows "is_cycle edges (stack_cycle (xs @ [x]) t)"
proof -
  obtain ys zs where split: "xs @ [x] = ys @ t # zs" "t \<notin> set ys"
    using assms(3) by (meson split_list_first)
  have "dropWhile (\<lambda>x. x \<noteq> t) (ys @ t # zs) = t # zs"
    using split(2) by (induction ys) auto
  with split(1) have d: "dropWhile (\<lambda>x. x \<noteq> t) (xs @ [x]) = t # zs"
    by simp
  have "edge_path edges (ys @ t # zs @ [t])"
    using edge_path_snoc [OF assms(1,2)] split by (metis append.assoc append_Cons append_Nil)
  then have "edge_path edges (t # zs @ [t])" by (rule edge_path_append)
  with d show ?thesis by (simp add: stack_cycle_def is_cycle_def)
qed

lemma visit_cycle:
  "visit_node edges name stack visited = Inl c \<Longrightarrow> edge_path edges (stack @ [name]) \<Longrightarrow> is_cycle edges c"
  "visit_edges edges es stack visited = Inl c \<Longrightarrow> stack \<noteq> [] \<Longrightarrow> edge_path edges stack \<Longrightarrow>
     set es \<subseteq> set (outgoing edges (last stack)) \<Longrightarrow> is_cycle edges c"
proof (induction edges name stack visited and edges es stack visited arbitrary: c and c
    rule: visit_node_visit_edges.induct)
  case (1 edges name stack visited)
  then show ?case by auto
next
  case (3 edges e es stack visited)
  let ?t = "fe_target e"
  obtain xs x where stack: "stack = xs @ [x]" using "3.prems"(2) by (metis rev_exhaust)
  have edge: "(x, ?t) \<in> edge_rel edges"
    using "3.prems"(4) stack by (auto intro: edge_relI)
  show ?case
  proof (cases "?t \<in> set stack")
    case True
    with 3 stack edge show ?thesis using stack_cycle_is_cycle [of edges xs x ?t] by auto
  next
    case False
    have p: "edge_path edges (stack @ [?t])"
      using edge_path_snoc [of edges xs x ?t] "3.prems"(3) stack edge by simp
    from False 3 p show ?thesis by (auto simp: result_simps split: if_splits)
  qed
qed auto

lemma find_cycle_from_Some: "find_cycle_from edges names visited = Some c \<Longrightarrow> is_cycle edges c"
  by (induction edges names visited rule: find_cycle_from.induct)
     (auto split: if_splits sum.splits dest: visit_cycle(1) simp del: visit_node.simps)

lemma find_cycle_from_None:
  "find_cycle_from edges names visited = None \<Longrightarrow> finished edges visited \<Longrightarrow>
   \<exists>V. finished edges V \<and> visited \<union> set names \<subseteq> V"
proof (induction edges names visited rule: find_cycle_from.induct)
  case (2 edges name names visited)
  show ?case
  proof (cases "name \<in> visited")
    case True
    with 2 show ?thesis by auto
  next
    case False
    with "2.prems"(1) obtain V where V: "visit_node edges name [] visited = Inr V"
      "find_cycle_from edges names V = None"
      by (auto split: sum.splits)
    with visit_finished(1) [OF V(1) "2.prems"(2) False] have "finished edges V" "insert name visited \<subseteq> V"
      by auto
    with "2.IH"(2) [OF False V] show ?thesis by auto
  qed
qed auto

theorem find_cycle_None:
  assumes "\<forall>e \<in> set edges. fe_source e \<in> set names"
  shows "find_cycle names edges = None \<longleftrightarrow> acyclic (edge_rel edges)"
proof
  assume "find_cycle names edges = None"
  then obtain V where V: "finished edges V" "set names \<subseteq> V"
    using find_cycle_from_None [of edges names "{}"] by (auto simp: find_cycle_def finished_def)
  have "x \<in> V" if "(x, x) \<in> (edge_rel edges)\<^sup>+" for x
    using that assms V(2) by (auto dest!: tranclD elim!: edge_relE)
  with V(1) show "acyclic (edge_rel edges)" by (auto simp: acyclic_def finished_def)
next
  assume acyclic: "acyclic (edge_rel edges)"
  show "find_cycle names edges = None"
  proof (cases "find_cycle names edges")
    case (Some c)
    then have "is_cycle edges c" by (simp add: find_cycle_def find_cycle_from_Some)
    then show ?thesis using acyclic is_cycle_trancl [of edges c] by (simp add: acyclic_def)
  qed
qed

section \<open>Symbols available on every path\<close>

text \<open>
  \<open>_must_available\<close> orders the steps topologically, counting down the edges that still come in,
  and then intersects, along that order, what the predecessors make available.
\<close>

fun lower_indegrees ::
    "flow_edge list \<Rightarrow> (string \<Rightarrow> int) \<Rightarrow> string list \<Rightarrow> (string \<Rightarrow> int) \<times> string list" where
  "lower_indegrees [] indegree pending = (indegree, pending)"
| "lower_indegrees (e # es) indegree pending =
     (let indegree' = indegree(fe_target e := indegree (fe_target e) - 1)
      in lower_indegrees es indegree'
           (if indegree' (fe_target e) = 0 then pending @ [fe_target e] else pending))"

definition positive_targets :: "flow_edge list \<Rightarrow> (string \<Rightarrow> int) \<Rightarrow> nat" where
  "positive_targets edges indegree = card {v \<in> targets edges. 0 < indegree v}"

lemma positive_targets_lower:
  assumes "t \<in> targets edges"
  shows "(if indegree t - 1 = 0 then 1 else 0) + positive_targets edges (indegree(t := indegree t - 1))
    \<le> positive_targets edges indegree"
proof -
  let ?A = "{v \<in> targets edges. 0 < indegree v}"
  let ?B = "{v \<in> targets edges. 0 < (indegree(t := indegree t - 1)) v}"
  have sub: "?B \<subseteq> ?A" by auto
  show ?thesis
  proof (cases "indegree t - 1 = 0")
    case True
    then have "t \<in> ?A" "t \<notin> ?B" using assms by auto
    with sub have "?B \<subset> ?A" by blast
    then have "card ?B < card ?A" by (intro psubset_card_mono) auto
    with True show ?thesis by (simp add: positive_targets_def)
  next
    case False
    with sub show ?thesis by (auto simp: positive_targets_def intro!: card_mono)
  qed
qed

lemma lower_indegrees_measure:
  "set es \<subseteq> set edges \<Longrightarrow> lower_indegrees es indegree pending = (indegree', pending') \<Longrightarrow>
   length pending' + positive_targets edges indegree' \<le> length pending + positive_targets edges indegree"
proof (induction es arbitrary: indegree pending)
  case (Cons e es)
  let ?d = "indegree(fe_target e := indegree (fe_target e) - 1)"
  let ?p = "if ?d (fe_target e) = 0 then pending @ [fe_target e] else pending"
  have "length pending' + positive_targets edges indegree' \<le> length ?p + positive_targets edges ?d"
    by (rule Cons.IH) (use Cons.prems in \<open>simp_all only: lower_indegrees.simps Let_def set_simps insert_subset\<close>)
  moreover have "fe_target e \<in> targets edges" using Cons.prems(1) by (auto simp: targets_def)
  ultimately show ?case using positive_targets_lower [of "fe_target e" edges indegree]
    by (auto split: if_splits)
qed simp

function kahn_loop ::
    "flow_edge list \<Rightarrow> (string \<Rightarrow> int) \<Rightarrow> string list \<Rightarrow> string list \<Rightarrow> string list" where
  "kahn_loop edges indegree [] order = order"
| "kahn_loop edges indegree (current # pending) order =
     (case lower_indegrees (outgoing edges current) indegree pending of
        (indegree', pending') \<Rightarrow> kahn_loop edges indegree' pending' (order @ [current]))"
  by pat_completeness auto
termination
proof (relation "measure (\<lambda>(edges, indegree, pending, order). length pending + positive_targets edges indegree)", goal_cases)
  case (2 edges indegree current pending order indegree' pending')
  then have "length pending' + positive_targets edges indegree' \<le> length pending + positive_targets edges indegree"
    by (intro lower_indegrees_measure [of "outgoing edges current"]) auto
  with 2 show ?case by simp
qed auto

definition indegrees :: "flow_edge list \<Rightarrow> string \<Rightarrow> int" where
  "indegrees edges v = int (length (incoming edges v))"

definition kahn_order :: "string list \<Rightarrow> flow_edge list \<Rightarrow> string list" where
  "kahn_order names edges =
     kahn_loop edges (indegrees edges) (filter (\<lambda>n. indegrees edges n = 0) names) []"

text \<open>\<open>frozenset.intersection(*sets)\<close>, of at least one set.\<close>

fun intersection_of :: "string set list \<Rightarrow> string set" where
  "intersection_of [] = {}"
| "intersection_of [A] = A"
| "intersection_of (A # As) = A \<inter> intersection_of As"

definition predecessor_sets ::
    "flow_edge list \<Rightarrow> (string \<times> string set) list \<Rightarrow> (string \<times> string set) list \<Rightarrow> string \<Rightarrow> string set list" where
  "predecessor_sets edges entry_available available name =
     list_of_option (map_of entry_available name) @
     concat (map (\<lambda>e. case map_of available (fe_source e) of
         None \<Rightarrow> [] | Some A \<Rightarrow> [A \<union> fe_produced e]) (incoming edges name))"

definition available_step ::
    "flow_edge list \<Rightarrow> string set \<Rightarrow> (string \<times> string set) list \<Rightarrow> string \<Rightarrow>
     (string \<times> string set) list \<Rightarrow> (string \<times> string set) list" where
  "available_step edges reached entry_available name available =
     (if name \<notin> reached then available
      else (let sets = predecessor_sets edges entry_available available name
            in if sets = [] then available else dict_set name (intersection_of sets) available))"

definition must_available ::
    "string list \<Rightarrow> flow_edge list \<Rightarrow> string set \<Rightarrow> (string \<times> string set) list \<Rightarrow> (string \<times> string set) list" where
  "must_available names edges reached entry_available =
     fold (available_step edges reached entry_available) (kahn_order names edges) []"

text \<open>The paths from the entries, with what each makes available.\<close>

inductive path_makes :: "flow_edge list \<Rightarrow> (string \<times> string set) list \<Rightarrow> string \<Rightarrow> string set \<Rightarrow> bool"
  for edges entry_available where
  start: "map_of entry_available n = Some A \<Longrightarrow> path_makes edges entry_available n A"
| along: "path_makes edges entry_available n A \<Longrightarrow> e \<in> set edges \<Longrightarrow> fe_source e = n \<Longrightarrow>
    path_makes edges entry_available (fe_target e) (A \<union> fe_produced e)"

inductive_cases path_makesE: "path_makes edges entry_available n A"

lemma intersection_of_Inter: "As \<noteq> [] \<Longrightarrow> intersection_of As = \<Inter>(set As)"
  by (induction As rule: intersection_of.induct) auto

subsection \<open>The topological order\<close>

text \<open>
  The state of the ordering loop: every count is the number of edges still to come from nodes not
  yet ordered, the nodes of count 0 are those ordered or pending, each once, and the sources of
  the edges into them stand before them.
\<close>

definition pending_count :: "flow_edge list \<Rightarrow> string set \<Rightarrow> string \<Rightarrow> int" where
  "pending_count edges done v = int (length (filter (\<lambda>e. fe_source e \<notin> done) (incoming edges v)))"

definition kahn_inv :: "string list \<Rightarrow> flow_edge list \<Rightarrow> (string \<Rightarrow> int) \<Rightarrow> string list \<Rightarrow> string list \<Rightarrow> bool" where
  "kahn_inv names edges indegree pending order \<longleftrightarrow>
     distinct (order @ pending) \<and>
     (\<forall>v. indegree v = pending_count edges (set order) v) \<and>
     set (order @ pending) = {v \<in> set names. pending_count edges (set order) v = 0} \<and>
     (\<forall>i < length order. \<forall>e \<in> set edges. fe_target e = order ! i \<longrightarrow> fe_source e \<in> set (take i order))"

lemma pending_count_0: "pending_count edges D v = 0 \<longleftrightarrow> (\<forall>e \<in> set edges. fe_target e = v \<longrightarrow> fe_source e \<in> D)"
  by (auto simp: pending_count_def filter_empty_conv)

text \<open>Lowering the counts along the edges of one node is the same as moving the node to the ordered ones.\<close>

definition count_in :: "flow_edge list \<Rightarrow> string \<Rightarrow> int" where
  "count_in es v = int (length (filter (\<lambda>e. fe_target e = v) es))"

lemma count_in_Cons: "count_in (e # es) v = (if v = fe_target e then 1 else 0) + count_in es v"
  by (simp add: count_in_def)

lemma lower_indegrees_counts:
  "fst (lower_indegrees es indegree pending) = (\<lambda>v. indegree v - count_in es v)"
proof (induction es arbitrary: indegree pending)
  case Nil
  then show ?case by (simp add: count_in_def)
next
  case (Cons e es)
  then show ?case by (auto simp: Let_def count_in_Cons fun_eq_iff)
qed

lemma lower_indegrees_pending:
  assumes "\<forall>v. count_in es v \<le> indegree v"
  shows "\<exists>new. snd (lower_indegrees es indegree pending) = pending @ new \<and> distinct new \<and>
      set new = {v. 0 < count_in es v \<and> indegree v = count_in es v}"
  using assms
proof (induction es arbitrary: indegree pending)
  case Nil
  then show ?case by (auto simp: count_in_def)
next
  case (Cons e es)
  let ?t = "fe_target e"
  let ?d = "indegree(?t := indegree ?t - 1)"
  let ?p = "if ?d ?t = 0 then pending @ [?t] else pending"
  let ?first = "if ?d ?t = 0 then [?t] else []"
  have pos: "count_in es v \<le> ?d v" for v
    using spec [OF Cons.prems, of v] unfolding count_in_Cons by (cases "v = ?t") auto
  have nonneg: "0 \<le> count_in es v" for v by (simp add: count_in_def)
  obtain new where new: "snd (lower_indegrees es ?d ?p) = ?p @ new" "distinct new"
    "set new = {v. 0 < count_in es v \<and> ?d v = count_in es v}"
    using Cons.IH [of ?d ?p] pos by blast
  have "lower_indegrees (e # es) indegree pending = lower_indegrees es ?d ?p"
    by (simp only: lower_indegrees.simps Let_def)
  then have res: "snd (lower_indegrees (e # es) indegree pending) = pending @ (?first @ new)"
    using new(1) by simp
  have "set (?first @ new) = {v. 0 < count_in (e # es) v \<and> indegree v = count_in (e # es) v}"
  proof (intro set_eqI)
    fix v
    show "v \<in> set (?first @ new) \<longleftrightarrow> v \<in> {v. 0 < count_in (e # es) v \<and> indegree v = count_in (e # es) v}"
      using new(3) count_in_Cons [of e es v] pos [of v] nonneg [of v] by (cases "v = ?t") auto
  qed
  moreover have "distinct (?first @ new)" using new(2,3) by auto
  ultimately show ?case using res by blast
qed

lemma count_in_outgoing:
  assumes "c \<notin> D"
  shows "pending_count edges (insert c D) v = pending_count edges D v - count_in (outgoing edges c) v"
  using assms
  by (induction edges) (auto simp: pending_count_def count_in_def incoming_def outgoing_def)

lemma pending_count_nonneg [simp]: "0 \<le> pending_count edges D v"
  by (simp add: pending_count_def)

lemma kahn_inv_step:
  assumes inv: "kahn_inv names edges indegree (c # pending) order"
    and ends: "\<forall>e \<in> set edges. fe_target e \<in> set names"
    and step: "lower_indegrees (outgoing edges c) indegree pending = (indegree', pending')"
  shows "kahn_inv names edges indegree' pending' (order @ [c])"
proof -
  from inv have dist: "distinct (order @ c # pending)"
    and count: "\<And>v. indegree v = pending_count edges (set order) v"
    and zero: "set (order @ c # pending) = {v \<in> set names. pending_count edges (set order) v = 0}"
    and sorted: "\<And>i e. i < length order \<Longrightarrow> e \<in> set edges \<Longrightarrow> fe_target e = order ! i \<Longrightarrow>
      fe_source e \<in> set (take i order)"
    by (auto simp: kahn_inv_def)
  let ?k = "count_in (outgoing edges c)"
  have fresh: "c \<notin> set order" using dist by auto
  have moved: "pending_count edges (set (order @ [c])) v = pending_count edges (set order) v - ?k v" for v
    using count_in_outgoing [OF fresh] by simp
  have bound: "\<forall>v. ?k v \<le> indegree v"
    using moved pending_count_nonneg [of edges "set (order @ [c])"] count by (metis diff_ge_0_iff_ge)
  have counts: "indegree' v = pending_count edges (set (order @ [c])) v" for v
    using lower_indegrees_counts [of "outgoing edges c" indegree pending] step moved count by simp
  obtain new where new: "pending' = pending @ new" "distinct new"
    "set new = {v. 0 < ?k v \<and> indegree v = ?k v}"
    using lower_indegrees_pending [OF bound, of pending] step by auto
  have target: "0 < ?k v \<Longrightarrow> v \<in> set names" for v
    using ends by (auto simp: count_in_def filter_empty_conv)
  have nonneg: "0 \<le> ?k v" for v by (simp add: count_in_def)
  have old: "v \<in> set (order @ c # pending) \<Longrightarrow> indegree v = 0 \<and> v \<in> set names" for v
    using zero count by auto
  have "set (order @ [c] @ pending') = {v \<in> set names. pending_count edges (set (order @ [c])) v = 0}"
  proof (intro set_eqI iffI)
    fix v
    assume "v \<in> set (order @ [c] @ pending')"
    then consider "v \<in> set (order @ c # pending)" | "v \<in> set new" using new(1) by auto
    then show "v \<in> {v \<in> set names. pending_count edges (set (order @ [c])) v = 0}"
    proof cases
      case 1
      then have "indegree v = 0" "v \<in> set names" using old by auto
      moreover have "?k v = 0" using bound nonneg [of v] calculation(1) by (metis antisym)
      ultimately show ?thesis using moved [of v] count [of v] by simp
    next
      case 2
      then show ?thesis using new(3) target moved [of v] count [of v] by auto
    qed
  next
    fix v
    assume "v \<in> {v \<in> set names. pending_count edges (set (order @ [c])) v = 0}"
    then have v: "v \<in> set names" "indegree v = ?k v" using moved [of v] count [of v] by auto
    show "v \<in> set (order @ [c] @ pending')"
    proof (cases "?k v = 0")
      case True
      with v count [of v] zero show ?thesis using new(1) by auto
    next
      case False
      with v nonneg [of v] new(3) have "v \<in> set new" by auto
      with new(1) show ?thesis by simp
    qed
  qed
  moreover have "distinct (order @ [c] @ pending')"
    using dist new old by (fastforce simp: new(1))
  moreover have "fe_source e \<in> set (take i (order @ [c]))"
    if "i < length (order @ [c])" "e \<in> set edges" "fe_target e = (order @ [c]) ! i" for i e
  proof (cases "i < length order")
    case True
    with sorted that show ?thesis by (auto simp: nth_append)
  next
    case False
    with that have "fe_target e = c" "i = length order" by (auto simp: nth_append split: if_splits)
    moreover have "pending_count edges (set order) c = 0" using zero by auto
    ultimately show ?thesis using that(2) by (auto simp: pending_count_0)
  qed
  ultimately show ?thesis using counts by (simp add: kahn_inv_def)
qed

lemma kahn_loop_inv:
  "kahn_inv names edges indegree pending order \<Longrightarrow> \<forall>e \<in> set edges. fe_target e \<in> set names \<Longrightarrow>
   \<exists>indegree'. kahn_inv names edges indegree' [] (kahn_loop edges indegree pending order)"
proof (induction edges indegree pending order rule: kahn_loop.induct)
  case (2 edges indegree current pending order)
  then show ?case using kahn_inv_step [OF "2.prems"] by (auto split: prod.split)
qed auto

text \<open>On an acyclic flow the order holds every name, the source of every edge before its target.\<close>

lemma kahn_order_topological:
  assumes "\<forall>e \<in> set edges. fe_target e \<in> set names \<and> fe_source e \<in> set names"
    and "distinct names" and "acyclic (edge_rel edges)"
  shows "set (kahn_order names edges) = set names" "distinct (kahn_order names edges)"
    "\<And>i e. i < length (kahn_order names edges) \<Longrightarrow> e \<in> set edges \<Longrightarrow> fe_target e = kahn_order names edges ! i \<Longrightarrow>
       fe_source e \<in> set (take i (kahn_order names edges))"
proof -
  let ?o = "kahn_order names edges"
  have "kahn_inv names edges (indegrees edges) (filter (\<lambda>n. indegrees edges n = 0) names) []"
    using assms(2) by (auto simp: kahn_inv_def pending_count_def indegrees_def)
  then obtain indegree' where inv: "kahn_inv names edges indegree' [] ?o"
    using kahn_loop_inv assms(1) unfolding kahn_order_def by blast
  then have o: "set ?o = {v \<in> set names. pending_count edges (set ?o) v = 0}"
    by (simp add: kahn_inv_def)
  have "v \<in> set ?o" if "v \<in> set names" for v
    using assms(3) that
  proof (induction v rule: wf_induct [of "edge_rel edges"])
    case 1
    show ?case using assms(3) by (simp add: finite_acyclic_wf)
  next
    case (2 v)
    have "fe_source e \<in> set ?o" if "e \<in> set edges" "fe_target e = v" for e
      using 2 that assms(1) edge_relI [OF that(1)] by auto
    then have "pending_count edges (set ?o) v = 0" by (simp add: pending_count_0)
    with 2 o show ?case by blast
  qed
  then show "set ?o = set names" using o by auto
  show "distinct ?o" using inv by (simp add: kahn_inv_def)
  show "\<And>i e. i < length ?o \<Longrightarrow> e \<in> set edges \<Longrightarrow> fe_target e = ?o ! i \<Longrightarrow> fe_source e \<in> set (take i ?o)"
    using inv by (simp add: kahn_inv_def)
qed

subsection \<open>Exactness\<close>

definition meet_paths :: "flow_edge list \<Rightarrow> (string \<times> string set) list \<Rightarrow> string \<Rightarrow> string set" where
  "meet_paths edges entry_available n = \<Inter>{A. path_makes edges entry_available n A}"

definition path_reached :: "flow_edge list \<Rightarrow> (string \<times> string set) list \<Rightarrow> string set" where
  "path_reached edges entry_available = {n. \<exists>A. path_makes edges entry_available n A}"

lemma path_makes_iff:
  "path_makes edges entries n A \<longleftrightarrow> map_of entries n = Some A \<or>
     (\<exists>e \<in> set edges. \<exists>B. fe_target e = n \<and> path_makes edges entries (fe_source e) B \<and> A = B \<union> fe_produced e)"
  by (subst path_makes.simps) auto

lemma path_reached_rtrancl:
  "path_reached edges entries = (edge_rel edges)\<^sup>* `` (fst ` set entries)"
proof (intro set_eqI iffI)
  fix n
  assume "n \<in> path_reached edges entries"
  then obtain A where "path_makes edges entries n A" by (auto simp: path_reached_def)
  then show "n \<in> (edge_rel edges)\<^sup>* `` (fst ` set entries)"
  proof induction
    case (start n A)
    then have "n \<in> fst ` set entries" using map_of_SomeD by force
    then show ?case by auto
  next
    case (along n A e)
    then show ?case using edge_relI by (blast intro: rtrancl_into_rtrancl)
  qed
next
  fix n
  assume "n \<in> (edge_rel edges)\<^sup>* `` (fst ` set entries)"
  then obtain m where m: "(m, n) \<in> (edge_rel edges)\<^sup>*" "m \<in> fst ` set entries" by auto
  from m(1) show "n \<in> path_reached edges entries"
  proof induction
    case base
    from m(2) obtain A where "map_of entries m = Some A"
      by (auto simp: dom_map_of_conv_image_fst [symmetric])
    then show ?case by (auto simp: path_reached_def intro: path_makes.start)
  next
    case (step y z)
    then show ?case by (auto simp: path_reached_def elim!: edge_relE intro: path_makes.along)
  qed
qed

text \<open>The availability computed for the steps of \<open>D\<close>, and for no others.\<close>

definition exact_on :: "flow_edge list \<Rightarrow> (string \<times> string set) list \<Rightarrow> string set \<Rightarrow> (string \<times> string set) list \<Rightarrow> bool" where
  "exact_on edges entries D available \<longleftrightarrow> (\<forall>n. map_of available n =
     (if n \<in> D \<inter> path_reached edges entries then Some (meet_paths edges entries n) else None))"

lemma predecessor_sets_exact:
  assumes "exact_on edges entries D available"
    and "\<forall>e \<in> set edges. fe_target e = n \<longrightarrow> fe_source e \<in> D"
  shows "set (predecessor_sets edges entries available n) =
    set (list_of_option (map_of entries n)) \<union>
    {meet_paths edges entries (fe_source e) \<union> fe_produced e |e.
       e \<in> set edges \<and> fe_target e = n \<and> fe_source e \<in> path_reached edges entries}" (is "_ = ?R")
proof -
  let ?f = "\<lambda>e. case map_of available (fe_source e) of None \<Rightarrow> [] | Some A \<Rightarrow> [A \<union> fe_produced e]"
  have f: "set (?f e) = (if fe_source e \<in> path_reached edges entries
      then {meet_paths edges entries (fe_source e) \<union> fe_produced e} else {})"
    if "e \<in> set edges" "fe_target e = n" for e
  proof -
    have "map_of available (fe_source e) = (if fe_source e \<in> path_reached edges entries
      then Some (meet_paths edges entries (fe_source e)) else None)"
      using assms that by (simp add: exact_on_def)
    then show ?thesis by simp
  qed
  have "set (concat (map ?f (incoming edges n))) = (\<Union>e \<in> set (incoming edges n). set (?f e))"
    by simp
  also have "\<dots> = (\<Union>e \<in> set (incoming edges n). if fe_source e \<in> path_reached edges entries
      then {meet_paths edges entries (fe_source e) \<union> fe_produced e} else {})"
    using f by (intro SUP_cong) auto
  also have "\<dots> = {meet_paths edges entries (fe_source e) \<union> fe_produced e |e.
       e \<in> set edges \<and> fe_target e = n \<and> fe_source e \<in> path_reached edges entries}"
    by auto
  finally show ?thesis by (simp add: predecessor_sets_def)
qed

lemma meet_paths_step:
  "\<Inter>(set (list_of_option (map_of entries n)) \<union>
    {meet_paths edges entries (fe_source e) \<union> fe_produced e |e.
       e \<in> set edges \<and> fe_target e = n \<and> fe_source e \<in> path_reached edges entries}) = meet_paths edges entries n"
  (is "\<Inter>?R = _")
proof (intro equalityI subsetI)
  fix x
  assume x: "x \<in> \<Inter>?R"
  show "x \<in> meet_paths edges entries n"
  proof (unfold meet_paths_def, intro InterI, clarify)
    fix A
    assume "path_makes edges entries n A"
    then consider "map_of entries n = Some A"
      | e B where "e \<in> set edges" "fe_target e = n" "path_makes edges entries (fe_source e) B" "A = B \<union> fe_produced e"
      using path_makes_iff [of edges entries n A] by blast
    then show "x \<in> A"
    proof cases
      case 1
      with x show ?thesis by simp
    next
      case 2
      then have "meet_paths edges entries (fe_source e) \<union> fe_produced e \<in> ?R"
        by (auto simp: path_reached_def)
      with x have "x \<in> meet_paths edges entries (fe_source e) \<union> fe_produced e" by blast
      with 2 show ?thesis by (auto simp: meet_paths_def)
    qed
  qed
next
  fix x
  assume x: "x \<in> meet_paths edges entries n"
  then have all: "path_makes edges entries n A \<Longrightarrow> x \<in> A" for A by (auto simp: meet_paths_def)
  show "x \<in> \<Inter>?R"
  proof (intro InterI)
    fix A
    assume "A \<in> ?R"
    then consider "map_of entries n = Some A"
      | e where "e \<in> set edges" "fe_target e = n" "A = meet_paths edges entries (fe_source e) \<union> fe_produced e"
      by auto
    then show "x \<in> A"
    proof cases
      case 1
      then show ?thesis by (intro all path_makes.start)
    next
      case 2
      have "x \<in> B \<union> fe_produced e" if "path_makes edges entries (fe_source e) B" for B
        using path_makes.along [OF that 2(1) refl] 2(2) by (intro all) simp
      with 2(3) show ?thesis by (auto simp: meet_paths_def)
    qed
  qed
qed

lemma path_reached_step:
  "n \<in> path_reached edges entries \<longleftrightarrow> map_of entries n \<noteq> None \<or>
     (\<exists>e \<in> set edges. fe_target e = n \<and> fe_source e \<in> path_reached edges entries)"
  unfolding path_reached_def using path_makes_iff [of edges entries n] by blast

lemma available_step_exact:
  assumes "exact_on edges entries D available" "n \<notin> D"
    and "\<forall>e \<in> set edges. fe_target e = n \<longrightarrow> fe_source e \<in> D"
  shows "exact_on edges entries (insert n D) (available_step edges (path_reached edges entries) entries n available)"
proof (cases "n \<in> path_reached edges entries")
  case False
  with assms show ?thesis by (auto simp: available_step_def exact_on_def)
next
  case True
  let ?sets = "predecessor_sets edges entries available n"
  note sets = predecessor_sets_exact [OF assms(1,3)]
  have "set ?sets \<noteq> {}"
    using True path_reached_step [of n edges entries] unfolding sets by (cases "map_of entries n") auto
  then have ne: "?sets \<noteq> []" by auto
  have meet: "intersection_of ?sets = meet_paths edges entries n"
    using intersection_of_Inter [OF ne] sets meet_paths_step [of entries n edges] by simp
  have "available_step edges (path_reached edges entries) entries n available
      = dict_set n (meet_paths edges entries n) available"
    using True ne meet by (simp add: available_step_def Let_def)
  with True assms(1) show ?thesis by (simp add: exact_on_def dict_simps)
qed

theorem must_available_exact:
  assumes ends: "\<forall>e \<in> set edges. fe_target e \<in> set names \<and> fe_source e \<in> set names"
    and "distinct names" "acyclic (edge_rel edges)"
  shows "map_of (must_available names edges (path_reached edges entries) entries) n =
    (if n \<in> set names \<inter> path_reached edges entries then Some (meet_paths edges entries n) else None)"
proof -
  let ?o = "kahn_order names edges"
  let ?step = "available_step edges (path_reached edges entries) entries"
  note o = kahn_order_topological [OF assms]
  have "exact_on edges entries (set (take i ?o)) (fold ?step (take i ?o) [])" if "i \<le> length ?o" for i
    using that
  proof (induction i)
    case 0
    then show ?case by (simp add: exact_on_def)
  next
    case (Suc i)
    then have i: "i < length ?o" by simp
    have take: "take (Suc i) ?o = take i ?o @ [?o ! i]" by (rule take_Suc_conv_app_nth [OF i])
    have "?o ! i \<notin> set (take i ?o)"
      using o(2) i by (auto simp: in_set_conv_nth nth_eq_iff_index_eq)
    with available_step_exact [of edges entries "set (take i ?o)" _ "?o ! i"] Suc i o(3)
    show ?case by (simp add: take)
  qed
  from this [of "length ?o"] o(1) show ?thesis
    by (simp add: must_available_def exact_on_def)
qed

section \<open>Issues\<close>

definition workflow_roots :: "workflow_config \<Rightarrow> string set" where
  "workflow_roots w = insert REQUEST_ID_ROOT (fst ` set (wc_params w))"

definition handler_candidates ::
    "string set \<Rightarrow> (string \<times> string set) list \<Rightarrow> flow_edge list \<Rightarrow> (string \<times> string set list) list" where
  "handler_candidates normal_reachable normal_available edges = fold (\<lambda>e candidates.
     (if fe_kind e \<noteq> FAILURE \<or> fe_source e \<notin> normal_reachable then candidates
      else (case map_of normal_available (fe_source e) of
          None \<Rightarrow> candidates
        | Some A \<Rightarrow> dict_set (fe_target e)
            ((case map_of candidates (fe_target e) of None \<Rightarrow> [] | Some As \<Rightarrow> As) @ [A \<union> fe_produced e])
            candidates))) edges []"

definition handler_entry_available ::
    "flow_edge list \<Rightarrow> string set \<Rightarrow> (string \<times> string set) list \<Rightarrow> (string \<times> string set) list" where
  "handler_entry_available edges normal_reachable normal_available =
     map (\<lambda>(t, sets). (t, intersection_of sets)) (handler_candidates normal_reachable normal_available edges)"

definition expression_roots :: "(string \<Rightarrow> expr option) \<Rightarrow> string \<Rightarrow> string list" where
  "expression_roots ps expression = (case parse_condition ps expression of
       Inl _ \<Rightarrow> []
     | Inr body \<Rightarrow> filter (\<lambda>n. is_data_root n \<and> n \<noteq> INPUT_ROOT) (expr_names body))"

definition input_roots :: "input_spec \<Rightarrow> string list" where
  "input_roots spec = (case spec of
       NoInput \<Rightarrow> [] | InputRef r \<Rightarrow> [ref_root r]
     | InputMap kvs \<Rightarrow> map (\<lambda>kv. ref_root (snd kv)) kvs
     | InputList rs \<Rightarrow> map ref_root rs)"

definition branch_expressions :: "flow_step \<Rightarrow> string list" where
  "branch_expressions s = concat (map (\<lambda>b. case ob_when b of
     Some (WhenExpression e) \<Rightarrow> [e] | _ \<Rightarrow> []) (branches s))"

definition step_expressions :: "flow_step \<Rightarrow> string list" where
  "step_expressions s =
     list_of_option (fs_condition s) @ list_of_option (fs_until s) @ branch_expressions s"

definition step_reference_roots :: "(string \<Rightarrow> expr option) \<Rightarrow> flow_step \<Rightarrow> string list" where
  "step_reference_roots ps s =
     input_roots (fs_input s) @
     filter (\<lambda>n. n \<noteq> INPUT_ROOT) (map ref_root (list_of_option (fs_for_each s))) @
     (case fs_wait_for s of None \<Rightarrow> []
      | Some wt \<Rightarrow> map ref_root (list_of_option (wf_timeout_until wt))) @
     concat (map (expression_roots ps) (step_expressions s))"

text \<open>The symbols guaranteed at a step: those of the normal and of the handler region together.\<close>

definition availability_at ::
    "(string \<times> string set) list \<Rightarrow> (string \<times> string set) list \<Rightarrow> string \<Rightarrow> string set list" where
  "availability_at normal_available handler_available name =
     list_of_option (map_of normal_available name) @ list_of_option (map_of handler_available name)"

definition reachability_issues :: "string list \<Rightarrow> string set \<Rightarrow> analysis_issue list" where
  "reachability_issues names reached = map UnreachableStep (filter (\<lambda>n. n \<notin> reached) names)"

definition sink_issues :: "workflow_config \<Rightarrow> string set \<Rightarrow> flow_edge list \<Rightarrow> analysis_issue list" where
  "sink_issues w reached execution_edges = map (\<lambda>s. NoTerminalSuccessor (fs_name s))
     (filter (\<lambda>s. fs_name s \<in> reached \<and> \<not> fs_terminal s \<and> outgoing execution_edges (fs_name s) = [])
       (wc_flow w))"

definition reference_issues ::
    "(string \<Rightarrow> expr option) \<Rightarrow> workflow_config \<Rightarrow> (string \<times> string set) list \<Rightarrow> (string \<times> string set) list \<Rightarrow>
     analysis_issue list" where
  "reference_issues ps w normal_available handler_available = concat (map (\<lambda>s.
     (let availability = availability_at normal_available handler_available (fs_name s)
      in if fs_terminal s \<or> availability = [] then []
         else map (RootUnavailable (fs_name s)) (sort (remdups
           (filter (\<lambda>r. r \<notin> intersection_of availability) (step_reference_roots ps s)))))) (wc_flow w))"

definition result_issues ::
    "workflow_config \<Rightarrow> (string \<times> string set) list \<Rightarrow> (string \<times> string set) list \<Rightarrow> analysis_issue list" where
  "result_issues w normal_available handler_available = (case wc_result w of
       None \<Rightarrow> []
     | Some r \<Rightarrow> concat (map (\<lambda>s.
         (let availability = availability_at normal_available handler_available (fs_name s)
          in if \<not> fs_terminal s \<or> fs_reason s \<noteq> None then []
             else if availability \<noteq> [] \<and> ref_root r \<notin> intersection_of availability
             then [ResultUnavailable (fs_name s)] else [])) (wc_flow w)))"

definition execution_edges :: "workflow_config \<Rightarrow> flow_edge list" where
  "execution_edges w = filter (\<lambda>e. fe_kind e \<noteq> FAILURE) (build_edges w)"

definition entry_name :: "workflow_config \<Rightarrow> string" where
  "entry_name w = fs_name (hd (wc_flow w))"

definition normal_reachable :: "workflow_config \<Rightarrow> string set" where
  "normal_reachable w = reachable (execution_edges w) [entry_name w]"

definition handler_entries :: "workflow_config \<Rightarrow> string list" where
  "handler_entries w = remdups (map fe_target
     (filter (\<lambda>e. fe_kind e = FAILURE \<and> fe_source e \<in> normal_reachable w) (build_edges w)))"

definition handler_reachable :: "workflow_config \<Rightarrow> string set" where
  "handler_reachable w = reachable (execution_edges w) (handler_entries w)"

definition normal_available :: "workflow_config \<Rightarrow> (string \<times> string set) list" where
  "normal_available w = must_available (step_names (wc_flow w)) (execution_edges w) (normal_reachable w)
     [(entry_name w, workflow_roots w)]"

definition handler_available :: "workflow_config \<Rightarrow> (string \<times> string set) list" where
  "handler_available w = must_available (step_names (wc_flow w)) (execution_edges w) (handler_reachable w)
     (handler_entry_available (build_edges w) (normal_reachable w) (normal_available w))"

definition analyze_workflow :: "(string \<Rightarrow> expr option) \<Rightarrow> workflow_config \<Rightarrow> analysis_issue list" where
  "analyze_workflow ps w = (case find_cycle (step_names (wc_flow w)) (execution_edges w) of
       Some cycle \<Rightarrow> [CircularFlow cycle]
     | None \<Rightarrow>
         (let reached = normal_reachable w \<union> handler_reachable w
          in reachability_issues (step_names (wc_flow w)) reached @
             sink_issues w reached (execution_edges w) @
             reference_issues ps w (normal_available w) (handler_available w) @
             result_issues w (normal_available w) (handler_available w)))"

section \<open>What an empty list of issues guarantees\<close>

text \<open>
  The paths of the analysis: a normal path starts at the entry step with the workflow's roots; a
  handler path continues, by a failure edge, a normal path to the step that fails.
\<close>

abbreviation normal_path :: "workflow_config \<Rightarrow> string \<Rightarrow> string set \<Rightarrow> bool" where
  "normal_path w \<equiv> path_makes (execution_edges w) [(entry_name w, workflow_roots w)]"

inductive handler_path :: "workflow_config \<Rightarrow> string \<Rightarrow> string set \<Rightarrow> bool" for w where
  fails: "normal_path w n A \<Longrightarrow> e \<in> set (build_edges w) \<Longrightarrow> fe_kind e = FAILURE \<Longrightarrow> fe_source e = n \<Longrightarrow>
    handler_path w (fe_target e) (A \<union> fe_produced e)"
| along: "handler_path w n A \<Longrightarrow> e \<in> set (execution_edges w) \<Longrightarrow> fe_source e = n \<Longrightarrow>
    handler_path w (fe_target e) (A \<union> fe_produced e)"

lemma execution_edges_ends:
  "\<forall>e \<in> set (execution_edges w). fe_target e \<in> set (step_names (wc_flow w)) \<and> fe_source e \<in> set (step_names (wc_flow w))"
  by (auto simp: execution_edges_def set_step_names dest: build_edges_ends)

lemma normal_reachable_paths: "normal_reachable w = path_reached (execution_edges w) [(entry_name w, workflow_roots w)]"
  by (simp add: normal_reachable_def reachable_rtrancl path_reached_rtrancl)

lemma normal_path_names: "wc_flow w \<noteq> [] \<Longrightarrow> normal_path w n A \<Longrightarrow> n \<in> set (step_names (wc_flow w))"
  by (erule path_makes.cases) (auto simp: entry_name_def set_step_names execution_edges_ends split: if_splits
      dest: execution_edges_ends [rule_format])

lemma normal_available_exact:
  assumes "acyclic (edge_rel (execution_edges w))" "wc_flow w \<noteq> []"
  shows "map_of (normal_available w) n =
    (if n \<in> normal_reachable w
     then Some (meet_paths (execution_edges w) [(entry_name w, workflow_roots w)] n) else None)"
proof -
  have "n \<in> set (step_names (wc_flow w))" if "n \<in> normal_reachable w"
    using that normal_path_names [OF assms(2)] by (auto simp: normal_reachable_paths path_reached_def)
  then show ?thesis
    using must_available_exact [OF execution_edges_ends distinct_step_names assms(1),
        of "[(entry_name w, workflow_roots w)]" n]
    by (auto simp: normal_available_def normal_reachable_paths)
qed

definition failure_sets ::
    "string set \<Rightarrow> (string \<times> string set) list \<Rightarrow> flow_edge list \<Rightarrow> string \<Rightarrow> string set list" where
  "failure_sets R available edges t = concat (map (\<lambda>e.
     (if fe_kind e = FAILURE \<and> fe_source e \<in> R \<and> fe_target e = t
      then (case map_of available (fe_source e) of None \<Rightarrow> [] | Some A \<Rightarrow> [A \<union> fe_produced e])
      else [])) edges)"

lemma handler_candidates_sets:
  "map_of (handler_candidates R available edges) t =
     (if failure_sets R available edges t = [] then None else Some (failure_sets R available edges t))"
proof -
  let ?f = "\<lambda>e candidates.
     (if fe_kind e \<noteq> FAILURE \<or> fe_source e \<notin> R then candidates
      else (case map_of available (fe_source e) of
          None \<Rightarrow> candidates
        | Some A \<Rightarrow> dict_set (fe_target e)
            ((case map_of candidates (fe_target e) of None \<Rightarrow> [] | Some As \<Rightarrow> As) @ [A \<union> fe_produced e])
            candidates))"
  have "map_of (fold ?f edges c) t = (case map_of c t of
      None \<Rightarrow> (if failure_sets R available edges t = [] then None else Some (failure_sets R available edges t))
    | Some As \<Rightarrow> Some (As @ failure_sets R available edges t))" for c
  proof (induction edges arbitrary: c)
    case Nil
    then show ?case by (simp add: failure_sets_def split: option.split)
  next
    case (Cons e es)
    have split: "failure_sets R available (e # es) t = failure_sets R available [e] t @ failure_sets R available es t"
      by (simp add: failure_sets_def)
    have head: "map_of (?f e c) t = (case map_of c t of
        None \<Rightarrow> (if failure_sets R available [e] t = [] then None else Some (failure_sets R available [e] t))
      | Some As \<Rightarrow> Some (As @ failure_sets R available [e] t))"
      by (auto simp: failure_sets_def dict_simps split: option.split)
    show ?case
      unfolding fold_simps comp_apply Cons.IH [of "?f e c"] head split by (auto split: option.split)
  qed
  from this [of "[]"] show ?thesis by (simp add: handler_candidates_def)
qed

lemma handler_entry_sets:
  "map_of (handler_entry_available edges R available) t =
     (if failure_sets R available edges t = [] then None
      else Some (intersection_of (failure_sets R available edges t)))"
  using map_of_map [of intersection_of "handler_candidates R available edges"]
  by (simp add: handler_entry_available_def handler_candidates_sets)

definition failure_set :: "string set \<Rightarrow> (string \<times> string set) list \<Rightarrow> string \<Rightarrow> flow_edge \<Rightarrow> string set list" where
  "failure_set R available t e =
     (if fe_kind e = FAILURE \<and> fe_source e \<in> R \<and> fe_target e = t
      then (case map_of available (fe_source e) of None \<Rightarrow> [] | Some A \<Rightarrow> [A \<union> fe_produced e])
      else [])"

lemma failure_set_some: "map_of available (fe_source e) = Some A \<Longrightarrow> fe_source e \<in> R \<Longrightarrow>
    fe_kind e = FAILURE \<Longrightarrow> fe_target e = t \<Longrightarrow> failure_set R available t e = [A \<union> fe_produced e]"
  by (simp only: failure_set_def) simp

lemma failure_set_none:
  "\<not> (fe_kind e = FAILURE \<and> fe_source e \<in> R \<and> fe_target e = t) \<Longrightarrow> failure_set R available t e = []"
  by (simp only: failure_set_def) simp

lemma set_failure_set:
  assumes "\<forall>n \<in> R. map_of available n = Some (f n)"
  shows "set (failure_set R available t e) = (if fe_kind e = FAILURE \<and> fe_source e \<in> R \<and> fe_target e = t
    then {f (fe_source e) \<union> fe_produced e} else {})"
proof (cases "fe_kind e = FAILURE \<and> fe_source e \<in> R \<and> fe_target e = t")
  case True
  then show ?thesis using failure_set_some [of available e "f (fe_source e)" R t] assms by simp
next
  case False
  then show ?thesis using failure_set_none [OF False] by (simp only: if_False) simp
qed

lemma failure_sets_set: "failure_sets R available edges t = concat (map (failure_set R available t) edges)"
  by (simp add: failure_sets_def failure_set_def [abs_def])

lemma set_failure_sets:
  assumes "\<forall>n \<in> R. map_of available n = Some (f n)"
  shows "set (failure_sets R available edges t) = {f (fe_source e) \<union> fe_produced e |e.
    e \<in> set edges \<and> fe_kind e = FAILURE \<and> fe_source e \<in> R \<and> fe_target e = t}"
  by (auto simp: failure_sets_set set_failure_set [OF assms] split: if_splits)

abbreviation handler_entry_map :: "workflow_config \<Rightarrow> (string \<times> string set) list" where
  "handler_entry_map w \<equiv> handler_entry_available (build_edges w) (normal_reachable w) (normal_available w)"

lemma set_handler_entries:
  "set (handler_entries w) = {fe_target e |e. e \<in> set (build_edges w) \<and> fe_kind e = FAILURE \<and> fe_source e \<in> normal_reachable w}"
  by (auto simp: handler_entries_def)

lemma handler_entry_map_sets:
  assumes "acyclic (edge_rel (execution_edges w))" "wc_flow w \<noteq> []"
  shows "set (failure_sets (normal_reachable w) (normal_available w) (build_edges w) t) =
    {meet_paths (execution_edges w) [(entry_name w, workflow_roots w)] (fe_source e) \<union> fe_produced e |e.
      e \<in> set (build_edges w) \<and> fe_kind e = FAILURE \<and> fe_source e \<in> normal_reachable w \<and> fe_target e = t}"
  by (rule set_failure_sets) (simp add: normal_available_exact [OF assms])

lemma handler_entry_map_dom:
  assumes "acyclic (edge_rel (execution_edges w))" "wc_flow w \<noteq> []"
  shows "fst ` set (handler_entry_map w) = set (handler_entries w)"
proof -
  have "t \<in> fst ` set (handler_entry_map w) \<longleftrightarrow> t \<in> set (handler_entries w)" for t
  proof -
    have "t \<in> fst ` set (handler_entry_map w) \<longleftrightarrow>
        set (failure_sets (normal_reachable w) (normal_available w) (build_edges w) t) \<noteq> {}"
      using handler_entry_sets [of "build_edges w" "normal_reachable w" "normal_available w" t]
      by (auto simp: dom_map_of_conv_image_fst [symmetric])
    also have "\<dots> \<longleftrightarrow> t \<in> set (handler_entries w)"
      unfolding handler_entry_map_sets [OF assms] set_handler_entries by blast
    finally show ?thesis .
  qed
  then show ?thesis by blast
qed

lemma handler_reachable_paths:
  assumes "acyclic (edge_rel (execution_edges w))" "wc_flow w \<noteq> []"
  shows "handler_reachable w = path_reached (execution_edges w) (handler_entry_map w)"
  by (simp add: handler_reachable_def reachable_rtrancl path_reached_rtrancl handler_entry_map_dom [OF assms])

lemma handler_path_covered:
  assumes "acyclic (edge_rel (execution_edges w))" "wc_flow w \<noteq> []"
  shows "handler_path w n B \<Longrightarrow> \<exists>A \<subseteq> B. path_makes (execution_edges w) (handler_entry_map w) n A"
proof (induction rule: handler_path.induct)
  case (fails n A e)
  let ?S = "failure_sets (normal_reachable w) (normal_available w) (build_edges w) (fe_target e)"
  have n: "n \<in> normal_reachable w" using fails(1) by (auto simp: normal_reachable_paths path_reached_def)
  have mem: "meet_paths (execution_edges w) [(entry_name w, workflow_roots w)] n \<union> fe_produced e \<in> set ?S"
    using fails n unfolding handler_entry_map_sets [OF assms] by blast
  then have ne: "?S \<noteq> []" by auto
  then have "map_of (handler_entry_map w) (fe_target e) = Some (intersection_of ?S)"
    by (simp add: handler_entry_sets)
  then have "path_makes (execution_edges w) (handler_entry_map w) (fe_target e) (intersection_of ?S)"
    by (rule path_makes.start)
  moreover have "intersection_of ?S \<subseteq> A \<union> fe_produced e"
    using mem fails(1) unfolding intersection_of_Inter [OF ne] by (auto simp: meet_paths_def)
  ultimately show ?case by blast
next
  case (along n B e)
  then obtain A where A: "A \<subseteq> B" "path_makes (execution_edges w) (handler_entry_map w) n A" by blast
  have "path_makes (execution_edges w) (handler_entry_map w) (fe_target e) (A \<union> fe_produced e)"
    using path_makes.along [OF A(2)] along by blast
  with A show ?case by blast
qed

lemma handler_available_exact:
  assumes "acyclic (edge_rel (execution_edges w))" "wc_flow w \<noteq> []"
  shows "map_of (handler_available w) n =
    (if n \<in> handler_reachable w
     then Some (meet_paths (execution_edges w) (handler_entry_map w) n) else None)"
proof -
  have "n \<in> set (step_names (wc_flow w))" if n: "n \<in> handler_reachable w"
  proof -
    from n obtain A where "path_makes (execution_edges w) (handler_entry_map w) n A"
      using handler_reachable_paths [OF assms] by (auto simp: path_reached_def)
    then show ?thesis
    proof cases
      case start
      then have "n \<in> fst ` set (handler_entry_map w)" using map_of_SomeD by force
      then show ?thesis
        using handler_entry_map_dom [OF assms] build_edges_ends by (auto simp: set_handler_entries set_step_names)
    next
      case (along m A' e)
      then show ?thesis using execution_edges_ends by auto
    qed
  qed
  then show ?thesis
    using must_available_exact [OF execution_edges_ends distinct_step_names assms(1), of "handler_entry_map w" n]
    by (auto simp: handler_available_def handler_reachable_paths [OF assms])
qed

text \<open>The availability at a step is contained in the symbols of every path to it.\<close>

lemma availability_sound:
  assumes "acyclic (edge_rel (execution_edges w))" "wc_flow w \<noteq> []"
    and "normal_path w n A \<or> handler_path w n A"
  shows "availability_at (normal_available w) (handler_available w) n \<noteq> [] \<and>
    intersection_of (availability_at (normal_available w) (handler_available w) n) \<subseteq> A"
proof -
  let ?av = "availability_at (normal_available w) (handler_available w) n"
  have "\<exists>S \<in> set ?av. S \<subseteq> A"
    using assms(3)
  proof
    assume path: "normal_path w n A"
    then have "n \<in> normal_reachable w" by (auto simp: normal_reachable_paths path_reached_def)
    with path show ?thesis
      by (auto simp: availability_at_def normal_available_exact [OF assms(1,2)] meet_paths_def)
  next
    assume "handler_path w n A"
    then obtain B where B: "B \<subseteq> A" "path_makes (execution_edges w) (handler_entry_map w) n B"
      using handler_path_covered [OF assms(1,2)] by blast
    then have "n \<in> handler_reachable w"
      by (auto simp: handler_reachable_paths [OF assms(1,2)] path_reached_def)
    with B show ?thesis
      by (auto simp: availability_at_def handler_available_exact [OF assms(1,2)] meet_paths_def)
  qed
  then obtain S where S: "S \<in> set ?av" "S \<subseteq> A" by blast
  then have "?av \<noteq> []" by auto
  with S show ?thesis using intersection_of_Inter [of ?av] by blast
qed

lemma analyze_clean_parts:
  assumes "analyze_workflow ps w = []"
  shows "acyclic (edge_rel (execution_edges w))"
    "reachability_issues (step_names (wc_flow w)) (normal_reachable w \<union> handler_reachable w) = []"
    "sink_issues w (normal_reachable w \<union> handler_reachable w) (execution_edges w) = []"
    "reference_issues ps w (normal_available w) (handler_available w) = []"
    "result_issues w (normal_available w) (handler_available w) = []"
proof -
  have "find_cycle (step_names (wc_flow w)) (execution_edges w) = None"
    using assms by (auto simp: analyze_workflow_def split: option.splits)
  then show "acyclic (edge_rel (execution_edges w))"
    using find_cycle_None [of "execution_edges w" "step_names (wc_flow w)"] execution_edges_ends by blast
qed (use assms in \<open>auto simp: analyze_workflow_def Let_def split: option.splits\<close>)

lemma analyze_clean_references:
  assumes clean: "analyze_workflow ps w = []" and s: "s \<in> set (wc_flow w)" "\<not> fs_terminal s"
    and path: "normal_path w (fs_name s) A \<or> handler_path w (fs_name s) A"
  shows "set (step_reference_roots ps s) \<subseteq> A"
proof -
  note parts = analyze_clean_parts [OF clean]
  have ne: "wc_flow w \<noteq> []" using s by auto
  let ?av = "availability_at (normal_available w) (handler_available w) (fs_name s)"
  note av = availability_sound [OF parts(1) ne path]
  let ?missing = "\<lambda>s. filter (\<lambda>r. r \<notin> intersection_of
    (availability_at (normal_available w) (handler_available w) (fs_name s))) (step_reference_roots ps s)"
  have "concat (map (\<lambda>s. if fs_terminal s \<or> availability_at (normal_available w) (handler_available w) (fs_name s) = []
      then [] else map (RootUnavailable (fs_name s)) (sort (remdups (?missing s)))) (wc_flow w)) = []"
    using parts(4) by (simp only: reference_issues_def Let_def)
  then have "(if fs_terminal s \<or> ?av = [] then [] else map (RootUnavailable (fs_name s)) (sort (remdups (?missing s)))) = []"
    using s(1) unfolding concat_eq_Nil_conv by force
  then have "set (sort (remdups (?missing s))) = {}" using s(2) av by simp
  then have "?missing s = []" by (simp only: set_sort set_remdups set_empty)
  with av show ?thesis by (auto simp: filter_empty_conv)
qed

lemma analyze_clean_result:
  assumes clean: "analyze_workflow ps w = []" and s: "s \<in> set (wc_flow w)" "fs_terminal s" "fs_reason s = None"
    and path: "normal_path w (fs_name s) A \<or> handler_path w (fs_name s) A" and r: "wc_result w = Some r"
  shows "ref_root r \<in> A"
proof -
  note parts = analyze_clean_parts [OF clean]
  have ne: "wc_flow w \<noteq> []" using s by auto
  note av = availability_sound [OF parts(1) ne path]
  have "ref_root r \<in> intersection_of (availability_at (normal_available w) (handler_available w) (fs_name s))"
    using parts(5) s r av by (auto simp: result_issues_def Let_def split: if_splits)
  with av show ?thesis by blast
qed

lemma analyze_clean_progress:
  assumes clean: "analyze_workflow ps w = []" and s: "s \<in> set (wc_flow w)"
  shows "fs_name s \<in> normal_reachable w \<union> handler_reachable w"
    and "fs_terminal s \<or> outgoing (execution_edges w) (fs_name s) \<noteq> []"
proof -
  note parts = analyze_clean_parts [OF clean]
  show r: "fs_name s \<in> normal_reachable w \<union> handler_reachable w"
    using parts(2) s by (auto simp: reachability_issues_def filter_empty_conv set_step_names)
  show "fs_terminal s \<or> outgoing (execution_edges w) (fs_name s) \<noteq> []"
    using parts(3) s r by (auto simp: sink_issues_def filter_empty_conv)
qed

end
