(* ===== verification/JF_Audit_Capture.thy ===== *)
theory JF_Audit_Capture
  imports JF_Models
begin

text \<open>
  What an archived run record keeps (\<open>engine/audit_capture.py\<close>): metadata only, or a copy redacted
  at JSON Pointers and bounded in the bytes of its payload fields. The length in bytes of a value's
  canonical strict JSON form is the parameter \<open>n_bytes\<close>; \<open>None\<close> is a value without one.
\<close>

definition STRICT_JSON_VERSION :: nat where "STRICT_JSON_VERSION = 1"

definition REDACTED_VALUE :: json where "REDACTED_VALUE = JStr ''[REDACTED]''"

definition PAYLOAD_FIELDS :: "string list" where
  "PAYLOAD_FIELDS = [''params'', ''globals'', ''input'', ''output'', ''result'', ''message'']"

definition STEP_METADATA_FIELDS :: "string list" where
  "STEP_METADATA_FIELDS = [''seq'', ''status'', ''started_at'', ''duration_ms'', ''condition'', ''then'',
     ''signal'', ''sleep_sec'', ''attempts'', ''cache'', ''items_total'', ''items_failed'', ''code'']"

definition FAILURE_METADATA_FIELDS :: "string list" where
  "FAILURE_METADATA_FIELDS = [''step'', ''code'', ''cause_code'']"

datatype capture_error =
    CaptureNotAPointer | CaptureLimit nat nat | CaptureNotJson

section \<open>Metadata only\<close>

definition keep_fields :: "string list \<Rightarrow> json dict \<Rightarrow> json dict" where
  "keep_fields names entry = filter (\<lambda>kv. fst kv \<in> set names) entry"

fun step_metadata :: "string \<times> json \<Rightarrow> (string \<times> json) list" where
  "step_metadata (name, JObj entry) = [(name, JObj (keep_fields STEP_METADATA_FIELDS entry))]"
| "step_metadata _ = []"

fun failure_item :: "string list \<Rightarrow> json \<Rightarrow> json list" where
  "failure_item names (JObj failure) = [JObj (keep_fields names failure)]"
| "failure_item names _ = []"

definition failure_fields :: "string list" where
  "failure_fields = FAILURE_METADATA_FIELDS @ [''category'', ''phase'', ''retryable'']"

definition captured_steps :: "json dict \<Rightarrow> json option" where
  "captured_steps r = (case map_of r ''steps'' of
       Some (JObj steps) \<Rightarrow> Some (JObj (concat (map step_metadata steps)))
     | Some (JList steps) \<Rightarrow> Some (JList steps)
     | _ \<Rightarrow> None)"

definition captured_error :: "json dict \<Rightarrow> json option" where
  "captured_error r = (case map_of r ''error'' of
       Some (JObj e) \<Rightarrow> Some (JObj (keep_fields failure_fields e)) | _ \<Rightarrow> None)"

definition captured_failures :: "string \<Rightarrow> string list \<Rightarrow> json dict \<Rightarrow> json option" where
  "captured_failures key names r = (case map_of r key of
       Some (JList fs) \<Rightarrow> Some (JList (concat (map (failure_item names) fs))) | _ \<Rightarrow> None)"

definition set_if :: "string \<Rightarrow> json option \<Rightarrow> json dict \<Rightarrow> json dict" where
  "set_if key v d = (case v of None \<Rightarrow> d | Some x \<Rightarrow> dict_set key x d)"

definition metadata_only :: "json dict \<Rightarrow> json dict" where
  "metadata_only r =
     set_if ''secondary'' (captured_failures ''secondary'' failure_fields r)
       (set_if ''failures'' (captured_failures ''failures'' FAILURE_METADATA_FIELDS r)
         (set_if ''error'' (captured_error r)
           (set_if ''steps'' (captured_steps r)
             (filter (\<lambda>kv. fst kv \<notin> {''params'', ''steps'', ''error'', ''failures'', ''result'', ''secondary''}) r))))"

section \<open>Redaction\<close>

text \<open>\<open>int(token)\<close>: white space around, a sign, digits with single underscores between them.\<close>

fun int_digits :: "string \<Rightarrow> string option" where
  "int_digits [] = None"
| "int_digits [c] = (if is_digit c then Some [c] else None)"
| "int_digits (c # d # cs) =
     (if \<not> is_digit c then None
      else if d = CHR ''_'' then map_option (Cons c) (int_digits cs)
      else map_option (Cons c) (int_digits (d # cs)))"

definition py_int :: "string \<Rightarrow> int option" where
  "py_int s = (case py_strip s of
       [] \<Rightarrow> None
     | c # cs \<Rightarrow>
         if c = CHR ''-'' then map_option (\<lambda>ds. - int (nat_of_digits ds)) (int_digits cs)
         else if c = CHR ''+'' then map_option (\<lambda>ds. int (nat_of_digits ds)) (int_digits cs)
         else map_option (\<lambda>ds. int (nat_of_digits ds)) (int_digits (c # cs)))"

fun redact_at :: "string list \<Rightarrow> json \<Rightarrow> json" where
  "redact_at [] v = REDACTED_VALUE"
| "redact_at (t # ts) (JObj kvs) =
     (if t = ''*'' then JObj (map (\<lambda>kv. (fst kv, redact_at ts (snd kv))) kvs)
      else JObj (map (\<lambda>kv. if fst kv = t then (fst kv, redact_at ts (snd kv)) else kv) kvs))"
| "redact_at (t # ts) (JList xs) =
     (if t = ''*'' then JList (map (redact_at ts) xs)
      else case py_int t of
          None \<Rightarrow> JList xs
        | Some i \<Rightarrow> if i < 0 \<or> int (length xs) \<le> i then JList xs
            else JList (xs[nat i := redact_at ts (xs ! nat i)]))"
| "redact_at (t # ts) v = v"

definition redact_pointer :: "string \<Rightarrow> json \<Rightarrow> capture_error + json" where
  "redact_pointer pointer v =
     (if starts_at pointer ''/'' 0 then Inr (redact_at (pointer_tokens pointer) v)
      else Inl CaptureNotAPointer)"

fun redact_pointers :: "string list \<Rightarrow> json \<Rightarrow> capture_error + json" where
  "redact_pointers [] v = Inr v"
| "redact_pointers (p # ps) v = bind_result (redact_pointer p v) (redact_pointers ps)"

text \<open>The payloads of a record, in the order they are found.\<close>

fun collect_payloads :: "json \<Rightarrow> json list" where
  "collect_payloads (JObj kvs) =
     concat (map (\<lambda>kv. if fst kv \<in> set PAYLOAD_FIELDS then [snd kv] else collect_payloads (snd kv)) kvs)"
| "collect_payloads (JList xs) = concat (map collect_payloads xs)"
| "collect_payloads _ = []"

definition enforce_capture_limit :: "(json \<Rightarrow> nat option) \<Rightarrow> json \<Rightarrow> nat \<Rightarrow> capture_error + unit" where
  "enforce_capture_limit n_bytes record limit = (case n_bytes (JList (collect_payloads record)) of
       None \<Rightarrow> Inl CaptureNotJson
     | Some actual \<Rightarrow> guard_result (actual \<le> limit) (CaptureLimit actual limit))"

definition as_object :: "json \<Rightarrow> json dict" where
  "as_object v = (case v of JObj kvs \<Rightarrow> kvs | _ \<Rightarrow> [])"

definition stamp_capture :: "audit_capture \<Rightarrow> json dict \<Rightarrow> json dict" where
  "stamp_capture capture captured =
     dict_set ''serialization_version'' (JInt (int STRICT_JSON_VERSION))
       (dict_set ''capture_mode'' (JStr (capture_mode capture)) captured)"

definition bounded_copy :: "(json \<Rightarrow> nat option) \<Rightarrow> nat \<Rightarrow> json \<Rightarrow> capture_error + json dict" where
  "bounded_copy n_bytes limit captured =
     bind_result (enforce_capture_limit n_bytes captured limit) (\<lambda>_. Inr (as_object captured))"

definition capture_audit_record ::
    "(json \<Rightarrow> nat option) \<Rightarrow> json dict \<Rightarrow> audit_capture \<Rightarrow> capture_error + json dict" where
  "capture_audit_record n_bytes r capture = map_sum id (stamp_capture capture) (case capture of
       MetadataOnly \<Rightarrow> Inr (metadata_only r)
     | Redacted paths limit \<Rightarrow>
         bind_result (redact_pointers paths (JObj r)) (bounded_copy n_bytes limit)
     | ApprovedFull limit \<Rightarrow> bounded_copy n_bytes limit (JObj r))"

section \<open>Metadata-only capture is independent of the payloads\<close>

text \<open>A record stripped of every payload field.\<close>

definition drop_fields :: "string list \<Rightarrow> json dict \<Rightarrow> json dict" where
  "drop_fields names d = filter (\<lambda>kv. fst kv \<notin> set names) d"

fun drop_in :: "string list \<Rightarrow> json \<Rightarrow> json" where
  "drop_in names (JObj d) = JObj (drop_fields names d)"
| "drop_in names v = v"

definition strip_payloads :: "json dict \<Rightarrow> json dict" where
  "strip_payloads r = map (\<lambda>kv.
     (case kv of
        (k, JObj d) \<Rightarrow> if k = ''steps'' then (k, JObj (map (\<lambda>(n, v). (n, drop_in PAYLOAD_FIELDS v)) d))
                     else if k = ''error'' then (k, drop_in PAYLOAD_FIELDS (JObj d)) else kv
      | (k, JList xs) \<Rightarrow> if k = ''failures'' \<or> k = ''secondary'' then (k, JList (map (drop_in PAYLOAD_FIELDS) xs)) else kv
      | _ \<Rightarrow> kv)) (drop_fields [''params'', ''result''] r)"

lemma keep_drop:
  "set keep \<inter> set gone = {} \<Longrightarrow> keep_fields keep (drop_fields gone d) = keep_fields keep d"
  by (induction d) (auto simp: keep_fields_def drop_fields_def)

lemma metadata_fields_disjoint:
  "set STEP_METADATA_FIELDS \<inter> set PAYLOAD_FIELDS = {}"
  "set failure_fields \<inter> set PAYLOAD_FIELDS = {}"
  "set FAILURE_METADATA_FIELDS \<inter> set PAYLOAD_FIELDS = {}"
  by (simp_all add: STEP_METADATA_FIELDS_def PAYLOAD_FIELDS_def failure_fields_def FAILURE_METADATA_FIELDS_def)

lemma step_metadata_drop: "step_metadata (n, drop_in PAYLOAD_FIELDS v) = step_metadata (n, v)"
  by (cases v) (simp_all add: keep_drop metadata_fields_disjoint)

lemma failure_item_drop:
  "set names \<inter> set PAYLOAD_FIELDS = {} \<Longrightarrow> failure_item names (drop_in PAYLOAD_FIELDS v) = failure_item names v"
  by (cases v) (simp_all add: keep_drop)

text \<open>What \<open>strip_payloads\<close> does to the value of a key.\<close>

definition strip_value :: "string \<Rightarrow> json \<Rightarrow> json" where
  "strip_value k v = (case v of
        JObj d \<Rightarrow> if k = ''steps'' then JObj (map (\<lambda>(n, v). (n, drop_in PAYLOAD_FIELDS v)) d)
                else if k = ''error'' then drop_in PAYLOAD_FIELDS (JObj d) else v
      | JList xs \<Rightarrow> if k = ''failures'' \<or> k = ''secondary'' then JList (map (drop_in PAYLOAD_FIELDS) xs) else v
      | _ \<Rightarrow> v)"

lemma strip_payloads_eq:
  "strip_payloads r = map (\<lambda>kv. (fst kv, strip_value (fst kv) (snd kv))) (drop_fields [''params'', ''result''] r)"
  unfolding strip_payloads_def
  by (rule map_cong) (auto simp: strip_value_def split: json.split)

lemma strip_payloads_lookup:
  assumes "k \<noteq> ''params''" "k \<noteq> ''result''"
  shows "map_of (strip_payloads r) k = map_option (strip_value k) (map_of r k)"
proof -
  have "map_of (map (\<lambda>kv. (fst kv, strip_value (fst kv) (snd kv))) d) k = map_option (strip_value k) (map_of d k)" for d
    by (induction d) auto
  moreover have "map_of (drop_fields [''params'', ''result''] r) k = map_of r k"
    using assms by (induction r) (auto simp: drop_fields_def)
  ultimately show ?thesis by (simp add: strip_payloads_eq)
qed

lemma captured_steps_strip: "captured_steps (strip_payloads r) = captured_steps r"
proof -
  have "concat (map step_metadata (map (\<lambda>(n, v). (n, drop_in PAYLOAD_FIELDS v)) d)) = concat (map step_metadata d)" for d
    by (induction d) (auto simp: step_metadata_drop)
  then show ?thesis
    by (auto simp: captured_steps_def strip_payloads_lookup strip_value_def split: option.split json.split)
qed

lemma captured_error_strip: "captured_error (strip_payloads r) = captured_error r"
  by (auto simp: captured_error_def strip_payloads_lookup strip_value_def keep_drop metadata_fields_disjoint
      split: option.split json.split)

lemma captured_failures_strip:
  assumes "key = ''failures'' \<or> key = ''secondary''" "set names \<inter> set PAYLOAD_FIELDS = {}"
  shows "captured_failures key names (strip_payloads r) = captured_failures key names r"
proof -
  have "concat (map (failure_item names) (map (drop_in PAYLOAD_FIELDS) xs)) = concat (map (failure_item names) xs)" for xs
    by (induction xs) (auto simp: failure_item_drop assms(2))
  then show ?thesis
    using assms(1)
    by (auto simp: captured_failures_def strip_payloads_lookup strip_value_def split: option.split json.split)
qed

lemma metadata_only_strip: "metadata_only (strip_payloads r) = metadata_only r"
proof -
  let ?special = "{''params'', ''steps'', ''error'', ''failures'', ''result'', ''secondary''}"
  have v: "strip_value k v = v" if "k \<notin> ?special" for k v
    using that by (auto simp: strip_value_def split: json.split)
  have "filter (\<lambda>kv. fst kv \<notin> ?special) (strip_payloads r) = filter (\<lambda>kv. fst kv \<notin> ?special) r"
    unfolding strip_payloads_eq by (induction r) (auto simp: v drop_fields_def)
  then show ?thesis
    unfolding metadata_only_def
    by (simp only: captured_steps_strip captured_error_strip captured_failures_strip metadata_fields_disjoint simp_thms)
qed

section \<open>Redaction hides exactly the matching positions\<close>

text \<open>When a pointer token stands for a step of a path.\<close>

fun token_matches :: "string \<Rightarrow> path_token \<Rightarrow> bool" where
  "token_matches t (TKey k) \<longleftrightarrow> t = ''*'' \<or> t = k"
| "token_matches t (TIdx i) \<longleftrightarrow> t = ''*'' \<or> py_int t = Some i"
| "token_matches t (TBool _) \<longleftrightarrow> False"

lemma map_of_redact_key:
  "map_of (map (\<lambda>kv. if fst kv = t then (fst kv, f (snd kv)) else kv) kvs) k
    = map_option (if k = t then f else id) (map_of kvs k)"
  by (induction kvs) auto

lemma map_of_redact_all:
  "map_of (map (\<lambda>kv. (fst kv, f (snd kv))) kvs) k = map_option f (map_of kvs k)"
  by (induction kvs) auto

lemma redact_step:
  "json_at (redact_at (t # ts) v) (p # path) =
     Option.bind (json_at v [p]) (\<lambda>w. json_at (if token_matches t p then redact_at ts w else w) path)"
proof (cases v)
  case (JList xs)
  show ?thesis
  proof (cases p)
    case (TIdx i)
    show ?thesis
    proof (cases "t = ''*''")
      case True
      with JList TIdx show ?thesis by (auto simp: nth_map)
    next
      case False
      show ?thesis
      proof (cases "py_int t")
        case None
        with JList TIdx False show ?thesis by simp
      next
        case (Some j)
        with JList TIdx False show ?thesis by (auto simp: nth_list_update)
      qed
    qed
  qed (use JList in \<open>auto split: option.split\<close>)
next
  case (JObj kvs)
  show ?thesis
  proof (cases p)
    case (TKey k)
    with JObj show ?thesis
      by (auto simp: map_of_redact_key map_of_redact_all split: option.split bind_splits)
  qed (use JObj in auto)
qed (cases p; simp)+

lemma redact_hits:
  "list_all2 token_matches ts path \<Longrightarrow>
   json_at (redact_at ts v) path = map_option (\<lambda>_. REDACTED_VALUE) (json_at v path)"
proof (induction arbitrary: v rule: list_all2_induct)
  case (Cons t ts p path)
  have "json_at v (p # path) = Option.bind (json_at v [p]) (\<lambda>w. json_at w path)"
    using json_at_append [of v "[p]" path] by simp
  with Cons show ?case
    unfolding redact_step by (cases "json_at v [p]") auto
qed simp

lemma redact_misses:
  "length ts \<le> length path \<Longrightarrow> \<not> list_all2 token_matches ts (take (length ts) path) \<Longrightarrow>
   json_at (redact_at ts v) path = json_at v path"
proof (induction ts arbitrary: v path)
  case (Cons t ts)
  then obtain p rest where path: "path = p # rest" by (cases path) auto
  have at: "json_at v (p # rest) = Option.bind (json_at v [p]) (\<lambda>w. json_at w rest)"
    using json_at_append [of v "[p]" rest] by simp
  show ?case
  proof (cases "token_matches t p")
    case True
    with Cons.prems path have "json_at (redact_at ts w) rest = json_at w rest" for w
      by (intro Cons.IH) auto
    with True show ?thesis unfolding path redact_step at by (cases "json_at v [p]") auto
  next
    case False
    then show ?thesis unfolding path redact_step at by simp
  qed
qed simp

text \<open>What a bounded capture has passed.\<close>

lemma capture_within_limit:
  assumes "capture_audit_record n_bytes r (ApprovedFull limit) = Inr c"
  shows "\<exists>n \<le> limit. n_bytes (JList (collect_payloads (JObj r))) = Some n"
  using assms
  by (auto simp: capture_audit_record_def bounded_copy_def enforce_capture_limit_def result_simps
      split: option.splits)

lemma capture_stamped:
  "capture_audit_record n_bytes r capture = Inr c \<Longrightarrow>
   map_of c ''capture_mode'' = Some (JStr (capture_mode capture)) \<and>
   map_of c ''serialization_version'' = Some (JInt (int STRICT_JSON_VERSION))"
  by (auto simp: capture_audit_record_def stamp_capture_def dict_simps)

end
