(* ===== verification/JF_Machine.thy ===== *)
theory JF_Machine
  imports JF_Analysis JF_Audit_Capture
begin

text \<open>
  What the runner (\<open>engine/runner.py\<close>) works on: the runtime limits (\<open>config/runtime_limits.py\<close>), the
  step executor it drives, the records of \<open>engine/audit.py\<close> and the checkpoints of
  \<open>engine/continuation.py\<close>, its run state, and the sequencing of effects: a computation takes the
  state, and gives a result or an exception together with the state it leaves behind, so that what
  was changed before an exception stays changed, as in the source.

  The executor is a parameter: a record of functions on a world \<open>'w\<close>, the coroutines of
  \<open>StepExecutor\<close>. Awaiting one of them is applying it. The world also decides which of several
  running tasks completes next (\<open>x_next_done\<close>), for the parallel iterations.
\<close>

section \<open>Limits\<close>

record runtime_limits =
  rl_trigger_payload_bytes :: int
  rl_workflow_output_bytes :: int
  rl_activity_input_bytes :: int
  rl_activity_output_bytes :: int
  rl_failure_record_bytes :: int
  rl_audit_record_bytes :: int
  rl_cache_entry_bytes :: int
  rl_fanout_items :: int
  rl_fanout_chunk_items :: int
  rl_parallelism :: int
  rl_loop_attempts :: int
  rl_total_invocations :: int
  rl_queued_messages :: int
  rl_signal_payload_bytes :: int
  rl_queued_message_bytes :: int
  rl_collection_items :: int
  rl_workflow_state_bytes :: int
  rl_continuation_input_bytes :: int
  rl_history_events :: int
  rl_history_bytes :: int

definition DEFAULT_RUNTIME_LIMITS :: runtime_limits where
  "DEFAULT_RUNTIME_LIMITS = \<lparr>
     rl_trigger_payload_bytes = 256 * 1024, rl_workflow_output_bytes = 1024 * 1024,
     rl_activity_input_bytes = 512 * 1024, rl_activity_output_bytes = 512 * 1024,
     rl_failure_record_bytes = 32 * 1024, rl_audit_record_bytes = 1024 * 1024,
     rl_cache_entry_bytes = 512 * 1024, rl_fanout_items = 1000, rl_fanout_chunk_items = 20,
     rl_parallelism = 32, rl_loop_attempts = 1000, rl_total_invocations = 10000,
     rl_queued_messages = 1000, rl_signal_payload_bytes = 256 * 1024,
     rl_queued_message_bytes = 256 * 1024, rl_collection_items = 10000,
     rl_workflow_state_bytes = 768 * 1024, rl_continuation_input_bytes = 1536 * 1024,
     rl_history_events = 10000, rl_history_bytes = 10 * 1024 * 1024\<rparr>"

definition limit_values :: "runtime_limits \<Rightarrow> int list" where
  "limit_values l = [rl_trigger_payload_bytes l, rl_workflow_output_bytes l, rl_activity_input_bytes l,
     rl_activity_output_bytes l, rl_failure_record_bytes l, rl_audit_record_bytes l,
     rl_cache_entry_bytes l, rl_fanout_items l, rl_fanout_chunk_items l, rl_parallelism l,
     rl_loop_attempts l, rl_total_invocations l, rl_queued_messages l, rl_signal_payload_bytes l,
     rl_queued_message_bytes l, rl_collection_items l, rl_workflow_state_bytes l,
     rl_continuation_input_bytes l, rl_history_events l, rl_history_bytes l]"

datatype limits_error = LimitNotPositive | ChunkExceedsFanout

definition validate_limits :: "runtime_limits \<Rightarrow> limits_error + unit" where
  "validate_limits l =
     (if list_ex (\<lambda>v. v < 1) (limit_values l) then Inl LimitNotPositive
      else if rl_fanout_items l < rl_fanout_chunk_items l then Inl ChunkExceedsFanout
      else Inr ())"

lemma default_limits_valid: "validate_limits DEFAULT_RUNTIME_LIMITS = Inr ()"
  by (simp add: validate_limits_def limit_values_def DEFAULT_RUNTIME_LIMITS_def)

section \<open>Records\<close>

record transition_record =
  tr_step :: string
  tr_matched :: string
  tr_target :: string

record step_failure_record =
  sf_step :: string
  sf_code :: string
  sf_cause_code :: string
  sf_message :: string

definition dump_transition :: "transition_record \<Rightarrow> json" where
  "dump_transition t = JObj [(''step'', JStr (tr_step t)), (''matched'', JStr (tr_matched t)),
     (''target'', JStr (tr_target t))]"

definition dump_step_failure :: "step_failure_record \<Rightarrow> json" where
  "dump_step_failure f = JObj [(''step'', JStr (sf_step f)), (''code'', JStr (sf_code f)),
     (''cause_code'', JStr (sf_cause_code f)), (''message'', JStr (sf_message f))]"

text \<open>
  \<open>StepAuditEntry(...).dump()\<close>: the fields that were set, in the order of the declaration.
\<close>

record step_audit_entry =
  ae_seq :: nat
  ae_status :: string
  ae_globals :: "json option"
  ae_input :: "json option"
  ae_output :: "json option"
  ae_started_at :: "json option"
  ae_duration_ms :: "json option"
  ae_condition :: "json option"
  ae_then :: "json option"
  ae_signal :: "json option"
  ae_sleep_sec :: "json option"
  ae_attempts :: "json option"
  ae_cache :: "json option"
  ae_items_total :: "json option"
  ae_items_failed :: "json option"
  ae_code :: "json option"
  ae_message :: "json option"

definition audit_entry :: "nat \<Rightarrow> string \<Rightarrow> step_audit_entry" where
  "audit_entry seq status = \<lparr>ae_seq = seq, ae_status = status, ae_globals = None, ae_input = None,
     ae_output = None, ae_started_at = None, ae_duration_ms = None, ae_condition = None,
     ae_then = None, ae_signal = None, ae_sleep_sec = None, ae_attempts = None, ae_cache = None,
     ae_items_total = None, ae_items_failed = None, ae_code = None, ae_message = None\<rparr>"

definition set_fields :: "(string \<times> json option) list \<Rightarrow> json dict" where
  "set_fields fs = concat (map (\<lambda>kv. map (Pair (fst kv)) (list_of_option (snd kv))) fs)"

definition dump_entry :: "step_audit_entry \<Rightarrow> json dict" where
  "dump_entry e = set_fields [(''seq'', Some (JInt (int (ae_seq e)))), (''status'', Some (JStr (ae_status e))),
     (''globals'', ae_globals e), (''input'', ae_input e), (''output'', ae_output e),
     (''started_at'', ae_started_at e), (''duration_ms'', ae_duration_ms e),
     (''condition'', ae_condition e), (''then'', ae_then e), (''signal'', ae_signal e),
     (''sleep_sec'', ae_sleep_sec e), (''attempts'', ae_attempts e), (''cache'', ae_cache e),
     (''items_total'', ae_items_total e), (''items_failed'', ae_items_failed e),
     (''code'', ae_code e), (''message'', ae_message e)]"

lemma dump_entry_get [simp]:
  "map_of (dump_entry e) ''seq'' = Some (JInt (int (ae_seq e)))"
  "map_of (dump_entry e) ''status'' = Some (JStr (ae_status e))"
  by (simp_all add: dump_entry_def set_fields_def)

section \<open>Checkpoints\<close>

record failure_episode =
  fep_primary :: failure_detail
  fep_handler :: string
  fep_steps :: "string list"

datatype iteration_key = KeyIndex nat | KeyName string

datatype iteration_result = Included iteration_key json | Omitted iteration_key

fun result_key :: "iteration_result \<Rightarrow> iteration_key" where
  "result_key (Included k _) = k"
| "result_key (Omitted k) = k"

record iteration_checkpoint =
  ic_step_name :: string
  ic_started_at_epoch :: rat
  ic_next_offset :: nat
  ic_results :: "iteration_result list"
  ic_failed :: nat

record until_checkpoint =
  uc_step_name :: string
  uc_started_at_epoch :: rat
  uc_attempts_completed :: nat
  uc_last_result :: json

datatype loop_checkpoint = IterationLoop iteration_checkpoint | UntilLoop until_checkpoint

definition validate_progress :: "iteration_checkpoint \<Rightarrow> bool" where
  "validate_progress c \<longleftrightarrow> length (ic_results c) = ic_next_offset c \<and> ic_failed c \<le> ic_next_offset c"

record runner_checkpoint =
  ck_started_at :: string
  ck_params :: "json dict"
  ck_step_outputs :: "json dict"
  ck_step_timings :: "json dict dict"
  ck_transitions :: "transition_record list"
  ck_failures :: "step_failure_record list"
  ck_active_episode :: "failure_episode option"
  ck_next_step_name :: string
  ck_next_seq :: nat
  ck_invocations :: nat
  ck_loop :: "loop_checkpoint option"

record history_observation =
  ho_events :: int
  ho_bytes :: int
  ho_server_suggested :: bool

section \<open>The executor and the environment\<close>

record cache_directive =
  cd_resource :: string
  cd_key :: json
  cd_ttl_sec :: "nat option"

record step_invocation =
  si_step_name :: string
  si_service_name :: string
  si_action :: string
  si_input :: json
  si_globals :: "json dict"
  si_cache :: "cache_directive option"
  si_input_schema :: "schema_source option"
  si_output_schema :: "schema_source option"
  si_required_resources :: "string list"

record 'w executor =
  x_run_step :: "step_invocation \<Rightarrow> 'w \<Rightarrow> (exn + pyval \<times> string option) \<times> 'w"
  x_run_evaluator :: "string \<Rightarrow> json \<Rightarrow> string list \<Rightarrow> string \<Rightarrow> 'w \<Rightarrow> (exn + bool) \<times> 'w"
  x_wait_for_event :: "string \<Rightarrow> rat \<Rightarrow> 'w \<Rightarrow> (exn + pyval option) \<times> 'w"
  x_sleep :: "nat \<Rightarrow> 'w \<Rightarrow> (exn + unit) \<times> 'w"
  x_validate_contract :: "schema_source \<Rightarrow> json \<Rightarrow> string \<Rightarrow> string \<Rightarrow> 'w \<Rightarrow> (exn + unit) \<times> 'w"
  x_run_subworkflow :: "string \<Rightarrow> string \<Rightarrow> json dict \<Rightarrow> 'w \<Rightarrow> (exn + pyval) \<times> 'w"
  x_archive :: "string \<Rightarrow> json \<Rightarrow> string \<Rightarrow> string \<Rightarrow> json dict \<Rightarrow> 'w \<Rightarrow> (exn + unit) \<times> 'w"
  x_observe_history :: "'w \<Rightarrow> history_observation"
  x_now :: "'w \<Rightarrow> rat"
  x_next_done :: "nat list \<Rightarrow> 'w \<Rightarrow> nat \<times> 'w"

text \<open>
  An ISO-8601 timestamp that \<open>datetime.fromisoformat\<close> accepts: with an offset, or naive and then
  read in the local zone of the process; either way as the epoch seconds it denotes.
\<close>

datatype iso_datetime = Aware rat | Naive rat

text \<open>
  The pure parameters: \<open>ast.parse\<close>, Python's \<open>str\<close> of a float or a collection, \<open>str(exc)\<close>, the
  length of a value's strict JSON form, \<open>_iso\<close>, \<open>datetime.fromisoformat\<close>, and the JSON form that
  pydantic gives a checkpoint and the correlation identity.
\<close>

record environment =
  en_parse :: "string \<Rightarrow> expr option"
  en_repr :: "json \<Rightarrow> string"
  en_render :: "exn_kind \<Rightarrow> string"
  en_bytes :: "json \<Rightarrow> nat option"
  en_iso :: "rat \<Rightarrow> string"
  en_fromiso :: "string \<Rightarrow> iso_datetime option"
  en_dump_checkpoint :: "runner_checkpoint \<Rightarrow> json"

text \<open>
  The identities a run is stamped with; the artifact and the execution configuration are kept in
  the JSON form pydantic gives them.
\<close>

record run_identity =
  ri_run_id :: "string option"
  ri_definition_digest :: "string option"
  ri_worker_deployment :: "string option"
  ri_worker_build_id :: "string option"
  ri_worker_artifact :: "json option"
  ri_environment_snapshot_digest :: "string option"
  ri_trigger_source :: "string option"
  ri_trigger_name :: "string option"
  ri_source_identity_digest :: "string option"
  ri_correlation_identity_digest :: "string option"
  ri_scope_digest :: "string option"
  ri_execution_configuration :: "json option"

definition no_identity :: run_identity where
  "no_identity = \<lparr>ri_run_id = None, ri_definition_digest = None, ri_worker_deployment = None,
     ri_worker_build_id = None, ri_worker_artifact = None, ri_environment_snapshot_digest = None,
     ri_trigger_source = None, ri_trigger_name = None, ri_source_identity_digest = None,
     ri_correlation_identity_digest = None, ri_scope_digest = None, ri_execution_configuration = None\<rparr>"

text \<open>
  The runner: its configuration, the parameters of the services it may call, the limits, the two
  switches, the identities it stamps on records, and what it drives.
\<close>

record 'w runner =
  rn_config :: workflow_config
  rn_services :: "(string \<times> json dict) list"
  rn_limits :: runtime_limits
  rn_bounded :: bool
  rn_timezone_aware :: bool
  rn_identity :: run_identity
  rn_executor :: "'w executor"
  rn_env :: environment

section \<open>The correlation identity\<close>

record correlation_identity =
  ci_workflow :: string
  ci_request_id :: "string option"
  ci_identity :: run_identity

definition bounded_id :: "string option \<Rightarrow> string option" where
  "bounded_id = map_option (\<lambda>s. bounded s MAX_CORRELATION_VALUE_LENGTH)"

definition correlation_identity_of :: "string \<Rightarrow> string option \<Rightarrow> run_identity \<Rightarrow> correlation_identity" where
  "correlation_identity_of workflow request_id ri = \<lparr>
     ci_workflow = bounded workflow MAX_CORRELATION_VALUE_LENGTH,
     ci_request_id = bounded_id request_id,
     ci_identity = ri\<lparr>
       ri_run_id := bounded_id (ri_run_id ri),
       ri_definition_digest := bounded_id (ri_definition_digest ri),
       ri_worker_deployment := bounded_id (ri_worker_deployment ri),
       ri_worker_build_id := bounded_id (ri_worker_build_id ri),
       ri_environment_snapshot_digest := bounded_id (ri_environment_snapshot_digest ri),
       ri_trigger_source := bounded_id (ri_trigger_source ri),
       ri_trigger_name := bounded_id (ri_trigger_name ri)\<rparr>\<rparr>"

section \<open>The run state and its effects\<close>

record 'w mach =
  m_world :: 'w
  m_invocations :: nat
  m_correlation :: correlation_identity
  m_started_at :: string
  m_params :: "json dict"
  m_outputs :: "json dict"
  m_timings :: "json dict dict"
  m_transitions :: "transition_record list"
  m_failures :: "step_failure_record list"
  m_episode :: "failure_episode option"
  m_phase :: failure_phase
  m_step :: "string option"
  m_step_started :: "rat option"
  m_next_seq :: nat
  m_requested :: "runner_checkpoint option"

type_synonym ('w, 'a) eff = "'w mach \<Rightarrow> (exn + 'a) \<times> 'w mach"

definition ret :: "'a \<Rightarrow> ('w, 'a) eff" where
  "ret a m = (Inr a, m)"

definition throw :: "exn \<Rightarrow> ('w, 'a) eff" where
  "throw e m = (Inl e, m)"

definition bind_eff :: "('w, 'a) eff \<Rightarrow> ('a \<Rightarrow> ('w, 'b) eff) \<Rightarrow> ('w, 'b) eff" where
  "bind_eff c f m = (case c m of (Inl e, m') \<Rightarrow> (Inl e, m') | (Inr a, m') \<Rightarrow> f a m')"

definition lift_result :: "exn + 'a \<Rightarrow> ('w, 'a) eff" where
  "lift_result r m = (r, m)"

definition modify :: "('w mach \<Rightarrow> 'w mach) \<Rightarrow> ('w, unit) eff" where
  "modify f m = (Inr (), f m)"

definition gets :: "('w mach \<Rightarrow> 'a) \<Rightarrow> ('w, 'a) eff" where
  "gets f m = (Inr (f m), m)"

text \<open>Awaiting an operation of the executor.\<close>

definition perform :: "('w \<Rightarrow> (exn + 'a) \<times> 'w) \<Rightarrow> ('w, 'a) eff" where
  "perform act m = (case act (m_world m) of (r, w) \<Rightarrow> (r, m\<lparr>m_world := w\<rparr>))"

text \<open>\<open>try\<close>: the handler gets the exception and the state it left behind.\<close>

definition try_eff :: "('w, 'a) eff \<Rightarrow> (exn \<Rightarrow> ('w, 'a) eff) \<Rightarrow> ('w, 'a) eff" where
  "try_eff c h m = (case c m of (Inl e, m') \<Rightarrow> h e m' | (Inr a, m') \<Rightarrow> (Inr a, m'))"

named_theorems eff_defs \<open>definitions of the effect combinators\<close>

lemmas eff_basic [eff_defs] =
  ret_def throw_def bind_eff_def lift_result_def modify_def gets_def perform_def try_eff_def

lemma bind_eff_cong [fundef_cong]:
  "m = m' \<Longrightarrow> c m' = c' m' \<Longrightarrow> (\<And>a m''. c' m' = (Inr a, m'') \<Longrightarrow> f a m'' = g a m'') \<Longrightarrow>
   bind_eff c f m = bind_eff c' g m'"
  by (auto simp: bind_eff_def split: prod.split sum.split)

text \<open>
  A computation keeps a property of the state when the state it leaves has it, whatever the
  outcome, whenever the state it starts from has it.
\<close>

definition keeps :: "('w mach \<Rightarrow> bool) \<Rightarrow> ('w, 'a) eff \<Rightarrow> bool" where
  "keeps P c \<longleftrightarrow> (\<forall>m. P m \<longrightarrow> P (snd (c m)))"

lemma keepsD: "keeps P c \<Longrightarrow> P m \<Longrightarrow> c m = (r, m') \<Longrightarrow> P m'"
  by (auto simp: keeps_def dest: spec [of _ m])

lemma keeps_ret [simp, intro]: "keeps P (ret a)"
  by (simp add: keeps_def ret_def)

lemma keeps_throw [simp, intro]: "keeps P (throw e)"
  by (simp add: keeps_def throw_def)

lemma keeps_lift [simp, intro]: "keeps P (lift_result r)"
  by (simp add: keeps_def lift_result_def)

lemma keeps_gets [simp, intro]: "keeps P (gets f)"
  by (simp add: keeps_def gets_def)

lemma keeps_modify: "(\<And>m. P m \<Longrightarrow> P (f m)) \<Longrightarrow> keeps P (modify f)"
  by (simp add: keeps_def modify_def)

lemma keeps_bind: "keeps P c \<Longrightarrow> (\<And>a. keeps P (f a)) \<Longrightarrow> keeps P (bind_eff c f)"
  unfolding keeps_def bind_eff_def
  by (metis (no_types, lifting) case_prod_unfold snd_conv surj_pair sum.case_eq_if)

lemma keeps_try: "keeps P c \<Longrightarrow> (\<And>e. keeps P (h e)) \<Longrightarrow> keeps P (try_eff c h)"
  unfolding keeps_def try_eff_def
  by (metis (no_types, lifting) case_prod_unfold snd_conv surj_pair sum.case_eq_if)

lemma keeps_if [intro]: "(b \<Longrightarrow> keeps P c) \<Longrightarrow> (\<not> b \<Longrightarrow> keeps P d) \<Longrightarrow> keeps P (if b then c else d)"
  by simp

lemma bind_eff_eq_Inr:
  "bind_eff c f m = (Inr b, m') \<longleftrightarrow> (\<exists>a m1. c m = (Inr a, m1) \<and> f a m1 = (Inr b, m'))"
  by (auto simp: bind_eff_def split: prod.splits sum.splits)

lemma bind_eff_eq_Inl:
  "bind_eff c f m = (Inl e, m') \<longleftrightarrow>
     c m = (Inl e, m') \<or> (\<exists>a m1. c m = (Inr a, m1) \<and> f a m1 = (Inl e, m'))"
  by (auto simp: bind_eff_def split: prod.splits sum.splits)

end
