(* ===== verification/JF_Failures.thy ===== *)
theory JF_Failures
  imports JF_Machine
begin

text \<open>
  The bounded failure record of a run (\<open>build_execution_error\<close> of \<open>engine/errors.py\<close> and the
  records of \<open>engine/audit.py\<close>): the last steps and transitions, the classified error with its
  secondary failures, and the fallback to a record without steps when it would be too large.
\<close>

definition MAX_FAILURE_STEPS :: nat where "MAX_FAILURE_STEPS = 50"
definition MAX_FAILURE_TRANSITIONS :: nat where "MAX_FAILURE_TRANSITIONS = 50"
definition MAX_SECONDARY_FAILURES :: nat where "MAX_SECONDARY_FAILURES = 4"
definition AUDIT_VERSION :: nat where "AUDIT_VERSION = 4"

record failure_step_metadata =
  fsm_name :: string
  fsm_seq :: int
  fsm_status :: string
  fsm_code :: "string option"

record failure_record =
  fr_correlation :: correlation_identity
  fr_error :: failure_metadata
  fr_secondary :: "failure_metadata list"
  fr_steps :: "failure_step_metadata list"
  fr_transitions :: "transition_record list"
  fr_started_at :: string
  fr_failed_at :: string

record execution_error =
  xe_classification :: failure_detail
  xe_record :: failure_record
  xe_correlation :: correlation_identity
  xe_secondary :: "failure_detail list"

text \<open>The last \<open>n\<close> elements, \<open>xs[-n:]\<close> for a positive \<open>n\<close>.\<close>

definition last_n :: "nat \<Rightarrow> 'a list \<Rightarrow> 'a list" where
  "last_n n xs = drop (length xs - n) xs"

lemma length_last_n: "length (last_n n xs) = min n (length xs)"
  by (auto simp: last_n_def)

lemma set_last_n: "set (last_n n xs) \<subseteq> set xs"
  by (simp add: last_n_def set_drop_subset)

definition json_int :: "json option \<Rightarrow> int" where
  "json_int v = (case v of Some (JInt i) \<Rightarrow> i | _ \<Rightarrow> 0)"

text \<open>\<open>str(value)\<close> of an entry's status or code, which are strings.\<close>

definition json_text :: "string \<Rightarrow> json option \<Rightarrow> string" where
  "json_text other v = (case v of Some (JStr s) \<Rightarrow> s | _ \<Rightarrow> other)"

definition failure_step :: "string \<times> json dict \<Rightarrow> failure_step_metadata" where
  "failure_step ne = (case ne of (name, entry) \<Rightarrow> \<lparr>
     fsm_name = bounded name MAX_FAILURE_CODE_LENGTH,
     fsm_seq = json_int (map_of entry ''seq''),
     fsm_status = bounded (json_text ''unknown'' (map_of entry ''status'')) MAX_FAILURE_CODE_LENGTH,
     fsm_code = (case map_of entry ''code'' of
        Some (JStr c) \<Rightarrow> Some (bounded c MAX_FAILURE_CODE_LENGTH) | _ \<Rightarrow> None)\<rparr>)"

definition failure_steps :: "json dict dict \<Rightarrow> failure_step_metadata list" where
  "failure_steps entries = map failure_step
     (last_n MAX_FAILURE_STEPS (sort_key (\<lambda>ne. json_int (map_of (snd ne) ''seq'')) entries))"

definition failure_transition :: "transition_record \<Rightarrow> transition_record" where
  "failure_transition t = \<lparr>
     tr_step = bounded (tr_step t) MAX_FAILURE_CODE_LENGTH,
     tr_matched = bounded (tr_matched t) MAX_FAILURE_CODE_LENGTH,
     tr_target = bounded (tr_target t) MAX_FAILURE_CODE_LENGTH\<rparr>"

definition failure_transitions :: "transition_record list \<Rightarrow> transition_record list" where
  "failure_transitions ts = map failure_transition (last_n MAX_FAILURE_TRANSITIONS ts)"

section \<open>The dumped record\<close>

fun category_value :: "failure_category \<Rightarrow> string" where
  "category_value CatInput = ''input''"
| "category_value CatDefinition = ''definition''"
| "category_value CatContract = ''contract''"
| "category_value CatExecution = ''execution''"
| "category_value CatInfrastructure = ''infrastructure''"
| "category_value CatInternal = ''internal''"

fun phase_value :: "failure_phase \<Rightarrow> string" where
  "phase_value PhTrigger = ''trigger''"
| "phase_value PhSignal = ''signal''"
| "phase_value PhWorkflowInput = ''workflow_input''"
| "phase_value PhParameters = ''parameters''"
| "phase_value PhStep = ''step''"
| "phase_value PhHandler = ''handler''"
| "phase_value PhResult = ''result''"
| "phase_value PhArchive = ''archive''"
| "phase_value PhInternal = ''internal''"

definition opt_str :: "string option \<Rightarrow> json option" where
  "opt_str = map_option JStr"

definition dump_metadata :: "failure_metadata \<Rightarrow> json" where
  "dump_metadata d = JObj (set_fields [
     (''code'', Some (JStr (fm_code d))), (''cause_code'', Some (JStr (fm_cause_code d))),
     (''category'', Some (JStr (category_value (fm_category d)))),
     (''phase'', Some (JStr (phase_value (fm_phase d)))),
     (''retryable'', Some (JBool (fm_retryable d))), (''step'', opt_str (fm_step d))])"

definition dump_correlation :: "correlation_identity \<Rightarrow> json" where
  "dump_correlation c = (let i = ci_identity c in JObj (set_fields [
     (''workflow'', Some (JStr (ci_workflow c))), (''request_id'', opt_str (ci_request_id c)),
     (''run_id'', opt_str (ri_run_id i)), (''definition_digest'', opt_str (ri_definition_digest i)),
     (''worker_deployment'', opt_str (ri_worker_deployment i)),
     (''worker_build_id'', opt_str (ri_worker_build_id i)), (''worker_artifact'', ri_worker_artifact i),
     (''environment_snapshot_digest'', opt_str (ri_environment_snapshot_digest i)),
     (''trigger_source'', opt_str (ri_trigger_source i)), (''trigger_name'', opt_str (ri_trigger_name i)),
     (''source_identity_digest'', opt_str (ri_source_identity_digest i)),
     (''correlation_identity_digest'', opt_str (ri_correlation_identity_digest i)),
     (''scope_digest'', opt_str (ri_scope_digest i)),
     (''execution_configuration'', ri_execution_configuration i)]))"

definition dump_failure_step :: "failure_step_metadata \<Rightarrow> json" where
  "dump_failure_step s = JObj (set_fields [(''name'', Some (JStr (fsm_name s))),
     (''seq'', Some (JInt (fsm_seq s))), (''status'', Some (JStr (fsm_status s))),
     (''code'', opt_str (fsm_code s))])"

definition dump_failure_record :: "failure_record \<Rightarrow> json dict" where
  "dump_failure_record r = [
     (''audit_version'', JInt (int AUDIT_VERSION)),
     (''serialization_version'', JInt (int STRICT_JSON_VERSION)),
     (''correlation'', dump_correlation (fr_correlation r)), (''status'', JStr ''failed''),
     (''error'', dump_metadata (fr_error r)),
     (''secondary'', JList (map dump_metadata (fr_secondary r))),
     (''steps'', JList (map dump_failure_step (fr_steps r))),
     (''transitions'', JList (map dump_transition (fr_transitions r))),
     (''started_at'', JStr (fr_started_at r)), (''failed_at'', JStr (fr_failed_at r))]"

section \<open>Building the error\<close>

text \<open>
  \<open>None\<close> is the exception that the serialization of the record raises when it has no strict JSON
  form; the record holds strings, integers and booleans only, apart from the two provenance values.
\<close>

definition build_execution_error ::
    "(exn_kind \<Rightarrow> string) \<Rightarrow> (json \<Rightarrow> nat option) \<Rightarrow> exn \<Rightarrow> correlation_identity \<Rightarrow> failure_phase \<Rightarrow>
     string \<Rightarrow> string \<Rightarrow> string option \<Rightarrow> json dict dict \<Rightarrow> transition_record list \<Rightarrow>
     failure_detail option \<Rightarrow> failure_detail list \<Rightarrow> nat \<Rightarrow> execution_error option" where
  "build_execution_error render n_bytes e correlation phase started_at failed_at step entries transitions
     primary secondary max_record_bytes =
     (let classification = (case primary of Some p \<Rightarrow> p | None \<Rightarrow> classify_failure render e phase step None);
          secondary_failures = take MAX_SECONDARY_FAILURES secondary;
          record_full = \<lparr>fr_correlation = correlation, fr_error = from_detail classification,
            fr_secondary = map from_detail secondary_failures, fr_steps = failure_steps entries,
            fr_transitions = failure_transitions transitions, fr_started_at = started_at,
            fr_failed_at = failed_at\<rparr>
      in (case n_bytes (JObj (dump_failure_record record_full)) of
            None \<Rightarrow> None
          | Some n \<Rightarrow> Some \<lparr>xe_classification = classification,
              xe_record = (if max_record_bytes < n then record_full\<lparr>fr_steps := [], fr_transitions := []\<rparr>
                           else record_full),
              xe_correlation = correlation, xe_secondary = secondary_failures\<rparr>))"

text \<open>The bounds every failure record keeps.\<close>

definition failure_record_bounded :: "failure_record \<Rightarrow> bool" where
  "failure_record_bounded r \<longleftrightarrow>
     length (fr_steps r) \<le> MAX_FAILURE_STEPS \<and> length (fr_transitions r) \<le> MAX_FAILURE_TRANSITIONS \<and>
     length (fr_secondary r) \<le> MAX_SECONDARY_FAILURES \<and>
     list_all (\<lambda>s. length (fsm_name s) \<le> MAX_FAILURE_CODE_LENGTH \<and> length (fsm_status s) \<le> MAX_FAILURE_CODE_LENGTH \<and>
       (\<forall>c. fsm_code s = Some c \<longrightarrow> length c \<le> MAX_FAILURE_CODE_LENGTH)) (fr_steps r) \<and>
     list_all (\<lambda>t. length (tr_step t) \<le> MAX_FAILURE_CODE_LENGTH \<and> length (tr_matched t) \<le> MAX_FAILURE_CODE_LENGTH \<and>
       length (tr_target t) \<le> MAX_FAILURE_CODE_LENGTH) (fr_transitions r)"

lemma failure_step_bounds:
  "length (fsm_name (failure_step ne)) \<le> MAX_FAILURE_CODE_LENGTH"
  "length (fsm_status (failure_step ne)) \<le> MAX_FAILURE_CODE_LENGTH"
  "fsm_code (failure_step ne) = Some c \<Longrightarrow> length c \<le> MAX_FAILURE_CODE_LENGTH"
  by (cases ne; auto simp: failure_step_def MAX_FAILURE_CODE_LENGTH_def length_bounded
      split: option.splits json.splits)+

lemma failure_transition_bounds:
  "length (tr_step (failure_transition t)) \<le> MAX_FAILURE_CODE_LENGTH"
  "length (tr_matched (failure_transition t)) \<le> MAX_FAILURE_CODE_LENGTH"
  "length (tr_target (failure_transition t)) \<le> MAX_FAILURE_CODE_LENGTH"
  by (simp_all add: failure_transition_def MAX_FAILURE_CODE_LENGTH_def length_bounded)

lemma build_execution_error_bounded:
  assumes "build_execution_error render n_bytes e c phase sa fa step entries ts primary secondary mx = Some xe"
  shows "failure_record_bounded (xe_record xe)"
proof -
  have "list_all (\<lambda>s. length (fsm_name s) \<le> MAX_FAILURE_CODE_LENGTH \<and> length (fsm_status s) \<le> MAX_FAILURE_CODE_LENGTH \<and>
       (\<forall>c. fsm_code s = Some c \<longrightarrow> length c \<le> MAX_FAILURE_CODE_LENGTH)) (failure_steps entries)"
    by (auto simp: failure_steps_def list_all_iff failure_step_bounds)
  moreover have "list_all (\<lambda>t. length (tr_step t) \<le> MAX_FAILURE_CODE_LENGTH \<and> length (tr_matched t) \<le> MAX_FAILURE_CODE_LENGTH \<and>
       length (tr_target t) \<le> MAX_FAILURE_CODE_LENGTH) (failure_transitions ts)"
    by (auto simp: failure_transitions_def list_all_iff failure_transition_bounds)
  ultimately show ?thesis
    using assms
    by (auto simp: build_execution_error_def Let_def failure_record_bounded_def failure_steps_def
        failure_transitions_def length_last_n split: option.splits if_splits)
qed

text \<open>The steps kept are the latest ones, in the order of their sequence numbers.\<close>

lemma failure_steps_sorted: "sorted (map fsm_seq (failure_steps entries))"
proof -
  let ?k = "\<lambda>ne. json_int (map_of (snd ne) ''seq'')"
  have "sorted (map ?k (sort_key ?k entries))" by (rule sorted_sort_key)
  then have "sorted (map ?k (last_n MAX_FAILURE_STEPS (sort_key ?k entries)))"
    by (simp add: last_n_def drop_map [symmetric] sorted_wrt_drop)
  moreover have "map fsm_seq (failure_steps entries) = map ?k (last_n MAX_FAILURE_STEPS (sort_key ?k entries))"
    by (auto simp: failure_steps_def failure_step_def split: prod.split)
  ultimately show ?thesis by simp
qed

end
