(* ===== verification/JF_Runner.thy ===== *)
theory JF_Runner
  imports JF_Failures
begin

text \<open>
  The runner (\<open>engine/runner.py\<close>): invocation of a step's operation, until loops, sequential and
  parallel iterations, waits, result branches, checkpoints, failure handlers, the loop over the steps
  and the completion of the run. Lemmas about it are in the theories that follow.

  Fuel bounds the number of flow steps of one run (\<open>flow_loop\<close>): \<open>None\<close> is a run that has not
  ended after that many steps. Everything inside one step is total.
\<close>

section \<open>Errors of the runner\<close>

definition flow_error :: "flow_error_kind \<Rightarrow> exn" where
  "flow_error k = raise_kind (FlowDefinitionError k)"

definition flow_error_from :: "flow_error_kind \<Rightarrow> exn \<Rightarrow> exn" where
  "flow_error_from k e = raise_from (FlowDefinitionError k) e"

definition is_flow_error :: "exn \<Rightarrow> bool" where
  "is_flow_error e = (case ex_kind e of FlowDefinitionError _ \<Rightarrow> True | _ \<Rightarrow> False)"

definition is_resolution_error :: "exn \<Rightarrow> bool" where
  "is_resolution_error e = (case ex_kind e of ReferenceResolutionError _ \<Rightarrow> True | _ \<Rightarrow> False)"

text \<open>\<open>except (ReferenceResolutionError, ConditionEvaluationError)\<close>.\<close>

definition as_flow_resolution :: "exn + 'a \<Rightarrow> exn + 'a" where
  "as_flow_resolution r = (case r of
       Inl e \<Rightarrow> Inl (if is_resolution_error e \<or> is_condition_error e
                     then flow_error_from RESOLUTION_ERROR e else e)
     | Inr v \<Rightarrow> Inr v)"

definition key_error :: exn where "key_error = raise_kind (PyError ''KeyError'')"
definition type_error :: exn where "type_error = raise_kind (PyError ''TypeError'')"
definition value_error :: exn where "value_error = raise_kind (PyError ''ValueError'')"

definition data_result :: "data_error + 'a \<Rightarrow> exn + 'a" where
  "data_result r = (case r of Inl e \<Rightarrow> Inl (data_exn e) | Inr v \<Rightarrow> Inr v)"

definition normalize_value :: "'w runner \<Rightarrow> string \<Rightarrow> pyval \<Rightarrow> exn + json" where
  "normalize_value rn path v =
     data_result (normalize_json_value MAX_JSON_DEPTH (nat (rl_collection_items (rn_limits rn))) path 0 v)"

definition normalize_object :: "'w runner \<Rightarrow> string \<Rightarrow> pyval \<Rightarrow> exn + json dict" where
  "normalize_object rn path v =
     data_result (normalize_json_object MAX_JSON_DEPTH (nat (rl_collection_items (rn_limits rn))) path v)"

definition interpolate :: "'w runner \<Rightarrow> json \<Rightarrow> json dict \<Rightarrow> exn + json" where
  "interpolate rn v params = interpolate_params (en_repr (rn_env rn)) params v"

definition payload_limit :: "'w runner \<Rightarrow> json \<Rightarrow> string \<Rightarrow> int \<Rightarrow> exn + unit" where
  "payload_limit rn v boundary limit =
     enforce_payload_bytes (en_bytes (rn_env rn) v) boundary (nat limit)"

definition condition_holds :: "'w runner \<Rightarrow> string \<Rightarrow> json \<Rightarrow> ('w, bool) eff" where
  "condition_holds rn cond data m = (evaluate_condition (en_parse (rn_env rn)) cond (of_json data)
       (of_json (JObj (m_outputs m))) (of_json (JObj (m_params m))), m)"

definition now :: "'w runner \<Rightarrow> ('w, rat) eff" where
  "now rn = gets (\<lambda>m. x_now (rn_executor rn) (m_world m))"

definition iso_json :: "'w runner \<Rightarrow> rat \<Rightarrow> json" where
  "iso_json rn t = JStr (en_iso (rn_env rn) t)"

text \<open>\<open>int(x * 1000)\<close>: truncation towards zero.\<close>

definition duration_json :: "rat \<Rightarrow> rat \<Rightarrow> json" where
  "duration_json started stopped =
     (let d = (stopped - started) * 1000 in JInt (if 0 \<le> d then \<lfloor>d\<rfloor> else \<lceil>d\<rceil>))"

section \<open>Checkpoints\<close>

definition build_checkpoint :: "'w mach \<Rightarrow> string \<Rightarrow> nat \<Rightarrow> loop_checkpoint option \<Rightarrow> runner_checkpoint" where
  "build_checkpoint m next_step next_seq loop = \<lparr>
     ck_started_at = m_started_at m, ck_params = m_params m, ck_step_outputs = m_outputs m,
     ck_step_timings = m_timings m, ck_transitions = m_transitions m, ck_failures = m_failures m,
     ck_active_episode = m_episode m, ck_next_step_name = next_step, ck_next_seq = next_seq,
     ck_invocations = m_invocations m, ck_loop = loop\<rparr>"

definition history_exhausted :: "'w runner \<Rightarrow> history_observation \<Rightarrow> bool" where
  "history_exhausted rn obs \<longleftrightarrow> ho_server_suggested obs \<or>
     rl_history_events (rn_limits rn) \<le> ho_events obs \<or> rl_history_bytes (rn_limits rn) \<le> ho_bytes obs"

definition enforce_checkpoint :: "'w runner \<Rightarrow> runner_checkpoint \<Rightarrow> ('w, unit) eff" where
  "enforce_checkpoint rn ck =
     bind_eff (lift_result (payload_limit rn (en_dump_checkpoint (rn_env rn) ck)
       ''workflow.continuation.state'' (rl_workflow_state_bytes (rn_limits rn)))) (\<lambda>_.
     bind_eff (gets (\<lambda>m. x_observe_history (rn_executor rn) (m_world m))) (\<lambda>obs.
       if history_exhausted rn obs
       then bind_eff (modify (\<lambda>m. m\<lparr>m_requested := Some ck\<rparr>)) (\<lambda>_. throw (raise_kind FlowContinuation))
       else ret ()))"

definition checkpoint_after_step :: "'w runner \<Rightarrow> string option \<Rightarrow> nat \<Rightarrow> ('w, unit) eff" where
  "checkpoint_after_step rn next_step next_seq = (case next_step of
       None \<Rightarrow> ret ()
     | Some t \<Rightarrow>
         if \<not> rn_bounded rn then ret ()
         else bind_eff (gets (\<lambda>m. build_checkpoint m t next_seq None)) (enforce_checkpoint rn))"

definition checkpoint_during_loop :: "'w runner \<Rightarrow> string \<Rightarrow> nat \<Rightarrow> loop_checkpoint \<Rightarrow> ('w, unit) eff" where
  "checkpoint_during_loop rn step_name seq loop =
     (if \<not> rn_bounded rn then ret ()
      else bind_eff (gets (\<lambda>m. build_checkpoint m step_name seq (Some loop))) (enforce_checkpoint rn))"

section \<open>Invocations\<close>

definition invocation_limit_error :: "'w runner \<Rightarrow> nat \<Rightarrow> exn + unit" where
  "invocation_limit_error rn n = enforce_limit n (nat (rl_total_invocations (rn_limits rn)))
     TOTAL_INVOCATIONS ''workflow.step_invocations''"

definition count_invocation :: "'w runner \<Rightarrow> ('w, unit) eff" where
  "count_invocation rn =
     bind_eff (modify (\<lambda>m. m\<lparr>m_invocations := Suc (m_invocations m)\<rparr>)) (\<lambda>_.
     bind_eff (gets m_invocations) (\<lambda>n. lift_result (invocation_limit_error rn n)))"

definition child_result :: "json \<Rightarrow> json" where
  "child_result record = (case record of
       JObj kvs \<Rightarrow> (case map_of kvs ''result'' of Some v \<Rightarrow> v | None \<Rightarrow> record)
     | _ \<Rightarrow> record)"

definition invoke_child ::
    "'w runner \<Rightarrow> string \<Rightarrow> string \<Rightarrow> json \<Rightarrow> json dict \<Rightarrow> ('w, json \<times> string option) eff" where
  "invoke_child rn workflow step_name input globals =
     bind_eff (perform (x_run_subworkflow (rn_executor rn) workflow step_name
       (if input \<noteq> JNull then dict_set ''input'' input globals else globals))) (\<lambda>raw.
     bind_eff (lift_result (normalize_value rn (''steps.'' @ step_name @ ''.child_record'') raw)) (\<lambda>record.
       ret (child_result record, None)))"

definition cache_directive_for ::
    "'w runner \<Rightarrow> step_definition \<Rightarrow> ('w, cache_directive option) eff" where
  "cache_directive_for rn sd = (case sd_cache sd of
       None \<Rightarrow> ret None
     | Some c \<Rightarrow> bind_eff (gets m_params) (\<lambda>params.
         bind_eff (lift_result (interpolate rn (JStr (cc_key c)) params)) (\<lambda>key.
           ret (Some \<lparr>cd_resource = cc_resource c, cd_key = key, cd_ttl_sec = cc_ttl_sec c\<rparr>))))"

definition invoke_service ::
    "'w runner \<Rightarrow> step_definition \<Rightarrow> string \<Rightarrow> string \<Rightarrow> string \<Rightarrow> json \<Rightarrow> json dict \<Rightarrow>
     ('w, json \<times> string option) eff" where
  "invoke_service rn sd service action step_name input globals =
     bind_eff (cache_directive_for rn sd) (\<lambda>cache.
     if map_of (rn_services rn) service = None then throw key_error
     else bind_eff (perform (x_run_step (rn_executor rn) \<lparr>
         si_step_name = step_name, si_service_name = service, si_action = action, si_input = input,
         si_globals = globals, si_cache = cache, si_input_schema = sd_input_schema sd,
         si_output_schema = sd_output_schema sd, si_required_resources = sd_required_resources sd\<rparr>))
       (\<lambda>(data, cache_state).
         bind_eff (lift_result (normalize_value rn (''steps.'' @ step_name @ ''.output'') data)) (\<lambda>v.
           ret (v, cache_state))))"

definition invoke_target ::
    "'w runner \<Rightarrow> step_definition \<Rightarrow> string \<Rightarrow> json \<Rightarrow> json dict \<Rightarrow> ('w, json \<times> string option) eff" where
  "invoke_target rn sd step_name input globals = (case sd_target sd of
       ChildWorkflowTarget workflow \<Rightarrow> invoke_child rn workflow step_name input globals
     | ServiceOperationTarget service action \<Rightarrow> invoke_service rn sd service action step_name input globals)"

definition invoke ::
    "'w runner \<Rightarrow> step_definition \<Rightarrow> string \<Rightarrow> json \<Rightarrow> json dict \<Rightarrow> ('w, json \<times> string option) eff" where
  "invoke rn sd step_name input globals =
     bind_eff (count_invocation rn) (\<lambda>_. invoke_target rn sd step_name input globals)"

definition reject_loop_cache :: "step_definition \<Rightarrow> ('w, unit) eff" where
  "reject_loop_cache sd = (if sd_cache sd = None then ret () else throw (flow_error UNSAFE_LOOP_CACHE))"

section \<open>Until loops\<close>

definition until_name :: "string \<Rightarrow> nat \<Rightarrow> string" where
  "until_name name attempt = name @ ''#'' @ show_nat attempt"

text \<open>\<open>except ConditionEvaluationError\<close> turned into a definition error.\<close>

definition as_flow_condition :: "('w, 'a) eff \<Rightarrow> ('w, 'a) eff" where
  "as_flow_condition c m = (case c m of
       (Inl e, m') \<Rightarrow> (Inl (if is_condition_error e then flow_error_from RESOLUTION_ERROR e else e), m')
     | (Inr a, m') \<Rightarrow> (Inr a, m'))"

definition flow_condition :: "'w runner \<Rightarrow> string \<Rightarrow> json \<Rightarrow> ('w, bool) eff" where
  "flow_condition rn cond data = as_flow_condition (condition_holds rn cond data)"

definition sleep_between :: "'w runner \<Rightarrow> flow_step \<Rightarrow> nat \<Rightarrow> nat \<Rightarrow> ('w, unit) eff" where
  "sleep_between rn step attempt attempts = (case fs_interval_sec step of
       Some interval \<Rightarrow> if attempt < attempts \<and> interval \<noteq> 0
         then perform (x_sleep (rn_executor rn) interval) else ret ()
     | None \<Rightarrow> ret ())"

text \<open>\<open>remaining\<close> attempts are left, the next one is \<open>attempt\<close>.\<close>

fun until_loop ::
    "'w runner \<Rightarrow> flow_step \<Rightarrow> step_definition \<Rightarrow> string \<Rightarrow> json \<Rightarrow> json dict \<Rightarrow> nat \<Rightarrow> rat \<Rightarrow> nat \<Rightarrow>
     nat \<Rightarrow> nat \<Rightarrow> json \<Rightarrow> ('w, json \<times> nat \<times> bool) eff" where
  "until_loop rn step sd cond input globals seq started attempts 0 attempt result =
     ret (result, attempts, False)"
| "until_loop rn step sd cond input globals seq started attempts (Suc remaining) attempt result =
     bind_eff (invoke rn sd (until_name (fs_name step) attempt) input globals) (\<lambda>(data, _).
     bind_eff (flow_condition rn cond data) (\<lambda>satisfied.
       if satisfied then ret (data, attempt, True)
       else bind_eff (sleep_between rn step attempt attempts) (\<lambda>_.
            bind_eff (checkpoint_during_loop rn (fs_name step) seq (UntilLoop \<lparr>
                uc_step_name = fs_name step, uc_started_at_epoch = started,
                uc_attempts_completed = attempt, uc_last_result = data\<rparr>)) (\<lambda>_.
              until_loop rn step sd cond input globals seq started attempts remaining (Suc attempt) data))))"

definition run_until ::
    "'w runner \<Rightarrow> flow_step \<Rightarrow> step_definition \<Rightarrow> json \<Rightarrow> json dict \<Rightarrow> nat \<Rightarrow> rat \<Rightarrow>
     until_checkpoint option \<Rightarrow> ('w, json \<times> nat \<times> bool) eff" where
  "run_until rn step sd input globals seq started continuation =
     bind_eff (reject_loop_cache sd) (\<lambda>_. (case (fs_until step, fs_max_iterations step) of
         (Some cond, Some attempts) \<Rightarrow>
           bind_eff (lift_result (enforce_limit attempts (nat (rl_loop_attempts (rn_limits rn))) LOOP_ATTEMPTS
             (''steps.'' @ fs_name step @ ''.max_iterations''))) (\<lambda>_.
           let completed = (case continuation of Some c \<Rightarrow> uc_attempts_completed c | None \<Rightarrow> 0);
               result = (case continuation of Some c \<Rightarrow> uc_last_result c | None \<Rightarrow> JNull)
           in if attempts < completed then throw (flow_error INVARIANT_VIOLATION)
              else until_loop rn step sd cond input globals seq started attempts
                     (attempts - completed) (Suc completed) result)
       | _ \<Rightarrow> throw (flow_error INVARIANT_VIOLATION)))"

section \<open>Iterations\<close>

definition resolve_iteration_items ::
    "'w runner \<Rightarrow> reference_path \<Rightarrow> json \<Rightarrow> 'w mach \<Rightarrow> exn + (iteration_key \<times> json) list \<times> bool" where
  "resolve_iteration_items rn ref input m =
     (let items =
        (if ref_root ref = ''input''
         then (if reference_tail ref = [] then Inr input
               else resolution_of_data (resolve_json_path (of_json input) (reference_tail ref) ''input''))
         else resolve_reference (RefParsed ref) (m_outputs m) (m_params m))
      in bind_result (as_flow_resolution items) (\<lambda>v. (case v of
           JList xs \<Rightarrow> Inr (map (\<lambda>ix. (KeyIndex (fst ix), snd ix)) (enumerate 0 xs), False)
         | JObj kvs \<Rightarrow> Inr (map (\<lambda>kv. (KeyName (fst kv), snd kv)) kvs, True)
         | _ \<Rightarrow> Inl (flow_error RESOLUTION_ERROR))))"

fun show_key :: "iteration_key \<Rightarrow> string" where
  "show_key (KeyIndex i) = show_nat i"
| "show_key (KeyName k) = k"

definition item_name :: "string \<Rightarrow> iteration_key \<Rightarrow> string" where
  "item_name name key = name @ ''['' @ show_key key @ '']''"

definition item_input :: "flow_step \<Rightarrow> json \<Rightarrow> json \<Rightarrow> json" where
  "item_input step input item = (if truthy_name (fs_as_var step) then item else input)"

definition item_globals :: "flow_step \<Rightarrow> json dict \<Rightarrow> json \<Rightarrow> json dict" where
  "item_globals step globals item = (case fs_as_var step of
       Some v \<Rightarrow> if v \<noteq> [] then dict_set v item globals else globals
     | None \<Rightarrow> globals)"

definition iteration_failure :: "failure_detail \<Rightarrow> json" where
  "iteration_failure d = JObj [(''_error'', JBool True), (''code'', JStr (fd_cause_code d)),
     (''message'', JStr (fd_message d))]"

text \<open>\<open>_append_iteration_results\<close>: the results appended, and how many failed.\<close>

fun iteration_entry ::
    "'w runner \<Rightarrow> string \<Rightarrow> iteration_fail_strategy \<Rightarrow> iteration_key \<times> (exn + json) \<Rightarrow> iteration_result" where
  "iteration_entry rn name strategy (key, Inr v) = Included key v"
| "iteration_entry rn name strategy (key, Inl e) =
     (if strategy = COLLECT
      then Included key (iteration_failure (classify_failure (en_render (rn_env rn)) e PhStep
             (Some (item_name name key)) (Some STEP_FAILED)))
      else Omitted key)"

definition append_iteration_results ::
    "'w runner \<Rightarrow> string \<Rightarrow> iteration_fail_strategy \<Rightarrow> (iteration_key \<times> (exn + json)) list \<Rightarrow>
     iteration_result list \<Rightarrow> iteration_result list \<times> nat" where
  "append_iteration_results rn name strategy outcomes processed =
     (processed @ map (iteration_entry rn name strategy) outcomes,
      length (filter (\<lambda>ko. \<not> is_ok (snd ko)) outcomes))"

definition stops_iteration :: "iteration_fail_strategy \<Rightarrow> exn \<Rightarrow> bool" where
  "stops_iteration strategy e \<longleftrightarrow> is_cancellation e \<or> strategy = STOP"

text \<open>An outcome as a value: an exception that does not stop the iteration is one.\<close>

definition outcome_of :: "iteration_fail_strategy \<Rightarrow> ('w, json) eff \<Rightarrow> ('w, exn + json) eff" where
  "outcome_of strategy c m = (case c m of
       (Inr v, m') \<Rightarrow> (Inr (Inr v), m')
     | (Inl e, m') \<Rightarrow> if stops_iteration strategy e then (Inl e, m') else (Inr (Inl e), m'))"

definition data_of :: "('w, json \<times> string option) eff \<Rightarrow> ('w, json) eff" where
  "data_of c = bind_eff c (\<lambda>r. ret (fst r))"

definition iteration_state ::
    "flow_step \<Rightarrow> rat \<Rightarrow> iteration_result list \<Rightarrow> nat \<Rightarrow> nat \<Rightarrow> loop_checkpoint" where
  "iteration_state step started processed next_offset failed = IterationLoop \<lparr>
     ic_step_name = fs_name step, ic_started_at_epoch = started, ic_next_offset = next_offset,
     ic_results = processed, ic_failed = failed\<rparr>"

fun sequential_loop ::
    "'w runner \<Rightarrow> flow_step \<Rightarrow> step_definition \<Rightarrow> json \<Rightarrow> json dict \<Rightarrow> nat \<Rightarrow> rat \<Rightarrow>
     iteration_fail_strategy \<Rightarrow> nat \<Rightarrow> (iteration_key \<times> json) list \<Rightarrow> iteration_result list \<Rightarrow> nat \<Rightarrow>
     ('w, iteration_result list \<times> nat) eff" where
  "sequential_loop rn step sd input globals seq started strategy offset [] processed failed =
     ret (processed, failed)"
| "sequential_loop rn step sd input globals seq started strategy offset ((key, item) # items) processed failed =
     bind_eff (outcome_of strategy (data_of (invoke rn sd (item_name (fs_name step) key)
         (item_input step input item) (item_globals step globals item)))) (\<lambda>outcome.
     case append_iteration_results rn (fs_name step) strategy [(key, outcome)] processed of
       (processed', fresh) \<Rightarrow>
         bind_eff (checkpoint_during_loop rn (fs_name step) seq
             (iteration_state step started processed' (Suc offset) (failed + fresh))) (\<lambda>_.
           sequential_loop rn step sd input globals seq started strategy (Suc offset) items processed'
             (failed + fresh)))"

text \<open>
  The tasks of a parallel chunk. Tasks start in the order of their items, as the semaphore is fair;
  a task counts its invocation when it starts, and fails at once when that exceeds the limit. A
  running task completes when the world says so; its effects happen then. A completion frees a slot,
  which the next waiting task takes before the failure of a task is noticed; then the first failure
  that stops the iteration ends it, and the tasks still running are cancelled.
\<close>

fun start_tasks ::
    "'w runner \<Rightarrow> nat \<Rightarrow> nat list \<Rightarrow> nat list \<Rightarrow> (nat \<times> (exn + json)) list \<Rightarrow> nat \<Rightarrow>
     nat list \<times> nat list \<times> (nat \<times> (exn + json)) list \<times> nat" where
  "start_tasks rn slots [] running ended invocations = ([], running, ended, invocations)"
| "start_tasks rn slots (i # pending) running ended invocations =
     (if slots \<le> length running then (i # pending, running, ended, invocations)
      else (case invocation_limit_error rn (Suc invocations) of
          Inl e \<Rightarrow> start_tasks rn slots pending running (ended @ [(i, Inl e)]) (Suc invocations)
        | Inr _ \<Rightarrow> start_tasks rn slots pending (running @ [i]) ended (Suc invocations)))"

definition stopping_error :: "iteration_fail_strategy \<Rightarrow> (nat \<times> (exn + json)) list \<Rightarrow> exn option" where
  "stopping_error strategy ended =
     (case filter (\<lambda>io. case snd io of Inl e \<Rightarrow> stops_iteration strategy e | Inr _ \<Rightarrow> False) ended of
        (_, Inl e) # _ \<Rightarrow> Some e | _ \<Rightarrow> None)"

definition start_waiting ::
    "'w runner \<Rightarrow> nat \<Rightarrow> iteration_fail_strategy \<Rightarrow> nat list \<Rightarrow> nat list \<Rightarrow> (nat \<times> (exn + json)) list \<Rightarrow>
     ('w, nat list \<times> nat list \<times> (nat \<times> (exn + json)) list) eff" where
  "start_waiting rn slots strategy pending running ended m =
     (case start_tasks rn slots pending running ended (m_invocations m) of
        (pending', running', ended', invocations) \<Rightarrow>
          ((case stopping_error strategy ended' of
              Some e \<Rightarrow> Inl e | None \<Rightarrow> Inr (pending', running', ended')),
           m\<lparr>m_invocations := invocations\<rparr>))"

lemma start_tasks_length:
  "start_tasks rn slots pending running ended n = (pending', running', ended', n') \<Longrightarrow>
   length pending' + length running' \<le> length pending + length running"
  by (induction rn slots pending running ended n arbitrary: pending' running' ended' n' rule: start_tasks.induct)
     (fastforce split: if_splits sum.splits)+

function gather_loop ::
    "'w runner \<Rightarrow> nat \<Rightarrow> iteration_fail_strategy \<Rightarrow> (nat \<Rightarrow> ('w, json) eff) \<Rightarrow> nat list \<Rightarrow> nat list \<Rightarrow>
     (nat \<times> (exn + json)) list \<Rightarrow> 'w mach \<Rightarrow> (exn + (nat \<times> (exn + json)) list) \<times> 'w mach" where
  "gather_loop rn slots strategy task pending [] ended m = (Inr ended, m)"
| "gather_loop rn slots strategy task pending (r # rs) ended m =
     (case x_next_done (rn_executor rn) (r # rs) (m_world m) of (k, w) \<Rightarrow>
       (case (r # rs) ! (k mod length (r # rs)) of i \<Rightarrow>
         (case task i (m\<lparr>m_world := w\<rparr>) of (outcome, m1) \<Rightarrow>
           (case start_waiting rn slots strategy pending (remove1 i (r # rs)) (ended @ [(i, outcome)]) m1 of
              (Inl e, m2) \<Rightarrow> (Inl e, m2)
            | (Inr (pending', running', ended'), m2) \<Rightarrow>
                gather_loop rn slots strategy task pending' running' ended' m2))))"
  by pat_completeness auto
termination
proof (relation "measure (\<lambda>(rn, slots, strategy, task, pending, running, ended, m).
    length pending + length running)", goal_cases)
  case (2 rn slots strategy task pending r rs ended m k w outcome m1 res m2 triple pending' rest running' ended')
  let ?run = "r # rs"
  let ?i = "?run ! (k mod length ?run)"
  have mem: "?i \<in> set ?run" by (intro nth_mem) simp
  obtain n where "start_tasks rn slots pending (remove1 ?i ?run) (ended @ [(?i, outcome)]) (m_invocations m1)
      = (pending', running', ended', n)"
    using 2 by (auto simp: start_waiting_def split: prod.splits option.splits)
  moreover have "length (remove1 ?i ?run) = length rs"
    using length_remove1 [of ?i ?run] mem by (metis diff_Suc_1 length_Cons)
  ultimately show ?case using start_tasks_length by fastforce
qed auto

definition take_outcome :: "(nat \<times> (exn + json)) list \<Rightarrow> nat \<Rightarrow> exn + json" where
  "take_outcome ended i = (case map_of ended i of Some r \<Rightarrow> r | None \<Rightarrow> Inl key_error)"

definition run_chunk ::
    "'w runner \<Rightarrow> nat \<Rightarrow> iteration_fail_strategy \<Rightarrow> (iteration_key \<times> json \<Rightarrow> ('w, json) eff) \<Rightarrow>
     (iteration_key \<times> json) list \<Rightarrow> ('w, (iteration_key \<times> (exn + json)) list) eff" where
  "run_chunk rn slots strategy run chunk =
     bind_eff (start_waiting rn slots strategy [0..<length chunk] [] []) (\<lambda>(pending, running, ended).
     bind_eff (gather_loop rn slots strategy (\<lambda>i. run (chunk ! i)) pending running ended) (\<lambda>ended'.
       ret (map (\<lambda>i. (fst (chunk ! i), take_outcome ended' i)) [0..<length chunk])))"

text \<open>The chunks of a parallel iteration; a chunk has at least one item, as the limit is positive.\<close>

function parallel_loop ::
    "'w runner \<Rightarrow> flow_step \<Rightarrow> nat \<Rightarrow> nat \<Rightarrow> (iteration_key \<times> json \<Rightarrow> ('w, json) eff) \<Rightarrow> nat \<Rightarrow> rat \<Rightarrow>
     iteration_fail_strategy \<Rightarrow> nat \<Rightarrow> (iteration_key \<times> json) list \<Rightarrow> iteration_result list \<Rightarrow> nat \<Rightarrow>
     ('w, iteration_result list \<times> nat) eff" where
  "parallel_loop rn step slots chunk_items run seq started strategy offset [] processed failed m =
     ret (processed, failed) m"
| "parallel_loop rn step slots chunk_items run seq started strategy offset (x # xs) processed failed m =
     bind_eff (run_chunk rn slots strategy run (take (max 1 chunk_items) (x # xs))) (\<lambda>outcomes.
     case append_iteration_results rn (fs_name step) strategy outcomes processed of (processed', fresh) \<Rightarrow>
       bind_eff (checkpoint_during_loop rn (fs_name step) seq
           (iteration_state step started processed'
              (offset + length (take (max 1 chunk_items) (x # xs))) (failed + fresh))) (\<lambda>_.
         parallel_loop rn step slots chunk_items run seq started strategy
           (offset + length (take (max 1 chunk_items) (x # xs))) (drop (max 1 chunk_items) (x # xs))
           processed' (failed + fresh))) m"
  by pat_completeness auto
termination
  by (relation "measure (\<lambda>(rn, step, slots, c, run, seq, started, strategy, offset, items, p, f, m). length items)")
     auto

definition iteration_value :: "bool \<Rightarrow> iteration_result list \<Rightarrow> json" where
  "iteration_value is_dict processed =
     (if is_dict
      then JObj (concat (map (\<lambda>r. case r of Included k v \<Rightarrow> [(show_key k, v)] | Omitted _ \<Rightarrow> []) processed))
      else JList (concat (map (\<lambda>r. case r of Included _ v \<Rightarrow> [v] | Omitted _ \<Rightarrow> []) processed)))"

definition run_item ::
    "'w runner \<Rightarrow> flow_step \<Rightarrow> step_definition \<Rightarrow> json \<Rightarrow> json dict \<Rightarrow> iteration_key \<times> json \<Rightarrow> ('w, json) eff" where
  "run_item rn step sd input globals ki = data_of (invoke_target rn sd (item_name (fs_name step) (fst ki))
     (item_input step input (snd ki)) (item_globals step globals (snd ki)))"

definition fail_strategy :: "flow_step \<Rightarrow> iteration_fail_strategy" where
  "fail_strategy step = (case fs_on_iteration_fail step of None \<Rightarrow> STOP | Some s \<Rightarrow> s)"

definition chunk_size :: "'w runner \<Rightarrow> nat \<Rightarrow> nat" where
  "chunk_size rn n = (if rn_bounded rn then nat (rl_fanout_chunk_items (rn_limits rn))
     else if n \<noteq> 0 then n else nat (rl_fanout_chunk_items (rn_limits rn)))"

text \<open>The checks on a continuation: its offset, and the keys it has processed.\<close>

definition continuation_fits ::
    "iteration_result list \<Rightarrow> nat \<Rightarrow> (iteration_key \<times> json) list \<Rightarrow> bool" where
  "continuation_fits processed next_offset items \<longleftrightarrow>
     length processed = next_offset \<and> next_offset \<le> length items \<and>
     map result_key processed = map fst (take (length processed) items)"

definition run_iteration ::
    "'w runner \<Rightarrow> flow_step \<Rightarrow> reference_path \<Rightarrow> step_definition \<Rightarrow> json \<Rightarrow> json dict \<Rightarrow> nat \<Rightarrow> rat \<Rightarrow>
     iteration_checkpoint option \<Rightarrow> ('w, json \<times> nat \<times> nat) eff" where
  "run_iteration rn step ref sd input globals seq started continuation =
     bind_eff (reject_loop_cache sd) (\<lambda>_.
     if fs_parallel step \<and> fs_max_concurrency step = None then throw (flow_error INVARIANT_VIOLATION)
     else bind_eff (lift_result (case fs_max_concurrency step of
           Some n \<Rightarrow> if fs_parallel step
             then enforce_limit n (nat (rl_parallelism (rn_limits rn))) PARALLELISM
                    (''steps.'' @ fs_name step @ ''.max_concurrency'')
             else Inr ()
         | None \<Rightarrow> Inr ())) (\<lambda>_.
     bind_eff (\<lambda>m. (resolve_iteration_items rn ref input m, m)) (\<lambda>(items, is_dict).
     bind_eff (lift_result (enforce_limit (length items) (nat (rl_fanout_items (rn_limits rn))) FANOUT_ITEMS
         (''steps.'' @ fs_name step @ ''.for_each''))) (\<lambda>_.
     let processed = (case continuation of Some c \<Rightarrow> ic_results c | None \<Rightarrow> []);
         failed = (case continuation of Some c \<Rightarrow> ic_failed c | None \<Rightarrow> 0);
         next_offset = (case continuation of Some c \<Rightarrow> ic_next_offset c | None \<Rightarrow> 0)
     in if \<not> continuation_fits processed next_offset items then throw (flow_error INVARIANT_VIOLATION)
        else bind_eff
          (case fs_max_concurrency step of
             Some slots \<Rightarrow>
               if fs_parallel step
               then parallel_loop rn step slots (chunk_size rn (length items)) (run_item rn step sd input globals)
                      seq started (fail_strategy step) next_offset (drop next_offset items) processed failed
               else sequential_loop rn step sd input globals seq started (fail_strategy step) next_offset
                      (drop next_offset items) processed failed
           | None \<Rightarrow> sequential_loop rn step sd input globals seq started (fail_strategy step) next_offset
                      (drop next_offset items) processed failed)
          (\<lambda>(processed', failed'). ret (iteration_value is_dict processed', length items, failed'))))))"

section \<open>Waits\<close>

text \<open>\<open>_deadline_epoch\<close>.\<close>

definition deadline_epoch :: "'w runner \<Rightarrow> json \<Rightarrow> exn + rat" where
  "deadline_epoch rn v = (case v of
       JInt i \<Rightarrow> Inr (of_int i)
     | JFloat q \<Rightarrow> Inr q
     | JStr s \<Rightarrow> (case en_fromiso (rn_env rn) s of
           None \<Rightarrow> Inl value_error
         | Some (Aware t) \<Rightarrow> Inr t
         | Some (Naive t) \<Rightarrow> if rn_timezone_aware rn then Inl value_error else Inr t)
     | _ \<Rightarrow> Inl type_error)"

definition is_deadline_error :: "exn \<Rightarrow> bool" where
  "is_deadline_error e \<longleftrightarrow> is_resolution_error e \<or> ex_kind e = PyError ''ValueError'' \<or> ex_kind e = PyError ''TypeError''"

definition remaining_until :: "'w runner \<Rightarrow> reference_path \<Rightarrow> 'w mach \<Rightarrow> exn + rat" where
  "remaining_until rn ref m =
     (case bind_result (resolve_reference (RefParsed ref) (m_outputs m) (m_params m)) (\<lambda>v.
           bind_result (deadline_epoch rn v) (\<lambda>t. Inr (t - x_now (rn_executor rn) (m_world m)))) of
        Inl e \<Rightarrow> Inl (if is_deadline_error e then flow_error_from RESOLUTION_ERROR e else e)
      | Inr t \<Rightarrow> Inr t)"

definition wait_timeout :: "'w runner \<Rightarrow> wait_for_config \<Rightarrow> 'w mach \<Rightarrow> exn + rat" where
  "wait_timeout rn wt m =
     (let base = map_option of_nat (wf_timeout_sec wt)
      in (case wf_timeout_until wt of
            None \<Rightarrow> (case base of None \<Rightarrow> Inl (flow_error INVARIANT_VIOLATION) | Some t \<Rightarrow> Inr t)
          | Some ref \<Rightarrow> bind_result (remaining_until rn ref m) (\<lambda>remaining.
              Inr (case base of None \<Rightarrow> remaining | Some t \<Rightarrow> min t remaining))))"

definition run_wait :: "'w runner \<Rightarrow> wait_for_config \<Rightarrow> ('w, pyval option) eff" where
  "run_wait rn wt =
     bind_eff (\<lambda>m. (wait_timeout rn wt m, m)) (\<lambda>timeout.
       perform (x_wait_for_event (rn_executor rn) (wf_signal wt) (max 0 timeout)))"

section \<open>Outputs and branches\<close>

text \<open>
  \<open>_store_output\<close>: under the step's own name, and under the alias. The entry under the name is a
  dictionary on the first execution; when a step without an alias runs again, the entry is its last
  result, and the assignment into it fails unless that is a dictionary.
\<close>

definition store_output :: "flow_step \<Rightarrow> json \<Rightarrow> json dict \<Rightarrow> exn + json dict" where
  "store_output step result outputs =
     (let name = fs_name step;
          key = (case fs_output step of Some a \<Rightarrow> if a \<noteq> [] then a else name | None \<Rightarrow> name);
          outputs1 = (if dict_has outputs name then outputs else dict_set name (JObj []) outputs)
      in (case map_of outputs1 name of
            Some (JObj d) \<Rightarrow> Inr (dict_set key result (dict_set name (JObj (dict_set key result d)) outputs1))
          | _ \<Rightarrow> Inl type_error))"

definition store_result :: "flow_step \<Rightarrow> json \<Rightarrow> ('w, unit) eff" where
  "store_result step result m = (case store_output step result (m_outputs m) of
       Inl e \<Rightarrow> (Inl e, m) | Inr outputs \<Rightarrow> (Inr (), m\<lparr>m_outputs := outputs\<rparr>))"

definition decision :: "string \<Rightarrow> string \<Rightarrow> string \<Rightarrow> transition_record" where
  "decision step matched target = \<lparr>tr_step = step, tr_matched = matched, tr_target = target\<rparr>"

definition branch_matches ::
    "'w runner \<Rightarrow> flow_step \<Rightarrow> json \<Rightarrow> branch_when \<Rightarrow> ('w, bool \<times> string) eff" where
  "branch_matches rn step result cond = (case cond of
       WhenEvaluator ev \<Rightarrow>
         bind_eff (as_flow_condition (perform (x_run_evaluator (rn_executor rn) (evc_evaluator ev) result
             (evc_resources ev) (fs_name step)))) (\<lambda>b. ret (b, ''evaluator:'' @ evc_evaluator ev))
     | WhenExpression e \<Rightarrow> bind_eff (flow_condition rn e result) (\<lambda>b. ret (b, e)))"

fun choose_branch ::
    "'w runner \<Rightarrow> flow_step \<Rightarrow> json \<Rightarrow> on_result_branch list \<Rightarrow>
     ('w, string option \<times> transition_record option) eff" where
  "choose_branch rn step result [] = ret (None, None)"
| "choose_branch rn step result (b # bs) = (case ob_default b of
       Some t \<Rightarrow> ret (Some t, Some (decision (fs_name step) ''default'' t))
     | None \<Rightarrow> (case ob_when b of
         None \<Rightarrow> throw (flow_error INVARIANT_VIOLATION)
       | Some cond \<Rightarrow> bind_eff (branch_matches rn step result cond) (\<lambda>(matched, how).
           if \<not> matched then choose_branch rn step result bs
           else (case ob_then b of
               None \<Rightarrow> throw (flow_error INVARIANT_VIOLATION)
             | Some t \<Rightarrow> ret (Some t, Some (decision (fs_name step) how t))))))"

definition next_step :: "'w runner \<Rightarrow> flow_step \<Rightarrow> json \<Rightarrow> ('w, string option \<times> transition_record option) eff" where
  "next_step rn step result =
     (if branches step = [] then ret (fs_then step, None) else choose_branch rn step result (branches step))"

section \<open>Regions of the flow\<close>

definition lookup_step :: "'w runner \<Rightarrow> string \<Rightarrow> flow_step option" where
  "lookup_step rn name = map_of (steps_dict (wc_flow (rn_config rn))) name"

definition normal_successors :: "flow_step \<Rightarrow> string list" where
  "normal_successors step =
     list_of_option (fs_then step) @
     concat (map (\<lambda>b. list_of_option (or_name (ob_then b) (ob_default b))) (branches step)) @
     (case fs_wait_for step of Some wt \<Rightarrow> list_of_option (wf_on_timeout wt) | None \<Rightarrow> []) @
     list_of_option (fs_on_exhausted step)"

text \<open>
  The worklist shared by \<open>_reachable_from_entry\<close> and \<open>_handler_region\<close>: \<open>enter\<close> tells whether a node
  joins the region, \<open>expand\<close> what it adds to the pending nodes. The successors of a step come from
  the flow, so the region stays within the names of the flow.
\<close>

function region_loop ::
    "(string \<Rightarrow> string list) \<Rightarrow> (string \<Rightarrow> bool) \<Rightarrow> string list \<Rightarrow> string list \<Rightarrow> string list \<Rightarrow> string list" where
  "region_loop expand enter universe [] region = region"
| "region_loop expand enter universe (current # pending) region =
     (if current \<in> set region \<or> current \<notin> set universe then region_loop expand enter universe pending region
      else if \<not> enter current then region_loop expand enter universe pending region
      else region_loop expand enter universe (rev (expand current) @ pending) (current # region))"
  by pat_completeness auto
termination
proof (relation "inv_image (less_than <*lex*> less_than)
    (\<lambda>(expand, enter, universe, pending, region). (card (set universe - set region), length pending))", goal_cases)
  case (4 expand enter universe current pending region)
  then have "set universe - set (current # region) \<subset> set universe - set region" by auto
  then have "card (set universe - set (current # region)) < card (set universe - set region)"
    by (intro psubset_card_mono) auto
  then show ?case by simp
qed auto

definition step_successors :: "'w runner \<Rightarrow> string \<Rightarrow> string list" where
  "step_successors rn name = (case lookup_step rn name of Some s \<Rightarrow> normal_successors s | None \<Rightarrow> [])"

definition rn_names :: "'w runner \<Rightarrow> string list" where
  "rn_names rn = step_names (wc_flow (rn_config rn))"

definition reachable_from_entry :: "'w runner \<Rightarrow> string list" where
  "reachable_from_entry rn = (case wc_flow (rn_config rn) of
       [] \<Rightarrow> []
     | s # _ \<Rightarrow> region_loop (step_successors rn) (\<lambda>_. True) (rn_names rn) [fs_name s] [])"

definition handler_region :: "'w runner \<Rightarrow> string \<Rightarrow> string list" where
  "handler_region rn entry =
     (let normal = reachable_from_entry rn
      in region_loop (\<lambda>n. if n \<in> set normal then [] else step_successors rn n)
           (\<lambda>n. n \<notin> set normal \<or> n = entry) (rn_names rn) [entry] [])"

section \<open>One step\<close>

datatype step_outcome = Terminal "string option" | Next "string option" nat

definition begin_step :: "string \<Rightarrow> nat \<Rightarrow> 'w mach \<Rightarrow> 'w mach" where
  "begin_step name seq m = m\<lparr>
     m_phase := PhStep, m_step := Some name, m_step_started := None, m_next_seq := seq,
     m_episode := (case m_episode m of
        Some ep \<Rightarrow> if name \<in> set (fep_steps ep) then Some ep else None | None \<Rightarrow> None)\<rparr>"

definition loop_matches :: "flow_step \<Rightarrow> loop_checkpoint \<Rightarrow> bool" where
  "loop_matches step loop = (case loop of
       IterationLoop c \<Rightarrow> ic_step_name c = fs_name step \<and> fs_for_each step \<noteq> None
     | UntilLoop c \<Rightarrow> uc_step_name c = fs_name step \<and> fs_until step \<noteq> None)"

definition set_timing :: "string \<Rightarrow> step_audit_entry \<Rightarrow> ('w, unit) eff" where
  "set_timing name entry = modify (\<lambda>m. m\<lparr>m_timings := dict_set name (dump_entry entry) (m_timings m)\<rparr>)"

definition add_transition :: "transition_record \<Rightarrow> ('w, unit) eff" where
  "add_transition t = modify (\<lambda>m. m\<lparr>m_transitions := m_transitions m @ [t]\<rparr>)"

definition add_decision :: "transition_record option \<Rightarrow> ('w, unit) eff" where
  "add_decision t = (case t of None \<Rightarrow> ret () | Some r \<Rightarrow> add_transition r)"

definition finish_step :: "'w runner \<Rightarrow> string option \<Rightarrow> nat \<Rightarrow> ('w, step_outcome) eff" where
  "finish_step rn next_name seq =
     bind_eff (checkpoint_after_step rn next_name (Suc seq)) (\<lambda>_. ret (Next next_name (Suc seq)))"

definition sleep_step :: "'w runner \<Rightarrow> flow_step \<Rightarrow> nat \<Rightarrow> nat \<Rightarrow> ('w, step_outcome) eff" where
  "sleep_step rn step seconds seq =
     bind_eff (perform (x_sleep (rn_executor rn) seconds)) (\<lambda>_.
     bind_eff (set_timing (fs_name step)
       ((audit_entry seq ''slept'')\<lparr>ae_sleep_sec := Some (JInt (int seconds))\<rparr>)) (\<lambda>_.
     finish_step rn (fs_then step) seq))"

definition wait_timed_out :: "'w runner \<Rightarrow> flow_step \<Rightarrow> wait_for_config \<Rightarrow> nat \<Rightarrow> ('w, step_outcome) eff" where
  "wait_timed_out rn step wt seq =
     bind_eff (set_timing (fs_name step)
       ((audit_entry seq ''timed_out'')\<lparr>ae_signal := Some (JStr (wf_signal wt))\<rparr>)) (\<lambda>_.
     (case wf_on_timeout wt of
        None \<Rightarrow> throw (flow_error WAIT_TIMEOUT)
      | Some t \<Rightarrow> bind_eff (add_transition (decision (fs_name step) ''timeout'' t)) (\<lambda>_.
          finish_step rn (Some t) seq)))"

definition wait_received ::
    "'w runner \<Rightarrow> flow_step \<Rightarrow> wait_for_config \<Rightarrow> nat \<Rightarrow> rat \<Rightarrow> pyval \<Rightarrow> ('w, step_outcome) eff" where
  "wait_received rn step wt seq started payload =
     bind_eff (lift_result (normalize_value rn (''steps.'' @ fs_name step @ ''.output'') payload)) (\<lambda>v.
     bind_eff (store_result step v) (\<lambda>_.
     bind_eff (now rn) (\<lambda>stopped.
     bind_eff (set_timing (fs_name step) ((audit_entry seq ''succeeded'')\<lparr>
         ae_signal := Some (JStr (wf_signal wt)), ae_output := Some v,
         ae_started_at := Some (iso_json rn started),
         ae_duration_ms := Some (duration_json started stopped)\<rparr>)) (\<lambda>_.
     bind_eff (next_step rn step v) (\<lambda>(next_name, dec).
     bind_eff (add_decision dec) (\<lambda>_. finish_step rn next_name seq))))))"

definition wait_step :: "'w runner \<Rightarrow> flow_step \<Rightarrow> wait_for_config \<Rightarrow> nat \<Rightarrow> ('w, step_outcome) eff" where
  "wait_step rn step wt seq =
     bind_eff (now rn) (\<lambda>started.
     bind_eff (run_wait rn wt) (\<lambda>payload. (case payload of
         None \<Rightarrow> wait_timed_out rn step wt seq
       | Some v \<Rightarrow> wait_received rn step wt seq started v)))"

text \<open>What the operation of a step produced: its result, the counts of an iteration, the attempts of
  an until loop and whether it was satisfied, the cache state.\<close>

record op_result =
  or_data :: json
  or_stats :: "(nat \<times> nat) option"
  or_attempts :: "nat option"
  or_exhausted :: bool
  or_cache :: "string option"

definition run_operation ::
    "'w runner \<Rightarrow> flow_step \<Rightarrow> step_definition \<Rightarrow> json \<Rightarrow> json dict \<Rightarrow> nat \<Rightarrow> rat \<Rightarrow>
     loop_checkpoint option \<Rightarrow> ('w, op_result) eff" where
  "run_operation rn step sd input globals seq started loop = (case fs_for_each step of
       Some ref \<Rightarrow>
         bind_eff (run_iteration rn step ref sd input globals seq started
             (case loop of Some (IterationLoop c) \<Rightarrow> Some c | _ \<Rightarrow> None)) (\<lambda>(v, total, failed).
           ret \<lparr>or_data = v, or_stats = Some (total, failed), or_attempts = None, or_exhausted = False,
             or_cache = None\<rparr>)
     | None \<Rightarrow>
         if truthy_name (fs_until step)
         then bind_eff (run_until rn step sd input globals seq started
             (case loop of Some (UntilLoop c) \<Rightarrow> Some c | _ \<Rightarrow> None)) (\<lambda>(v, attempts, satisfied).
           ret \<lparr>or_data = v, or_stats = None, or_attempts = Some attempts, or_exhausted = \<not> satisfied,
             or_cache = None\<rparr>)
         else bind_eff (invoke rn sd (fs_name step) input globals) (\<lambda>(v, cache).
           ret \<lparr>or_data = v, or_stats = None, or_attempts = None, or_exhausted = False, or_cache = cache\<rparr>))"

definition step_handler :: "'w runner \<Rightarrow> flow_step \<Rightarrow> string option" where
  "step_handler rn step = or_name (fs_on_failure step) (wc_on_error (rn_config rn))"

definition step_failure_of :: "failure_detail \<Rightarrow> string \<Rightarrow> step_failure_record" where
  "step_failure_of d step = \<lparr>sf_step = step, sf_code = fd_code d, sf_cause_code = fd_cause_code d,
     sf_message = fd_message d\<rparr>"

text \<open>The \<open>except Exception\<close> clause around the operation of a step.\<close>

definition operation_failed ::
    "'w runner \<Rightarrow> flow_step \<Rightarrow> nat \<Rightarrow> rat \<Rightarrow> exn \<Rightarrow> ('w, step_outcome) eff" where
  "operation_failed rn step seq started e =
     (if is_flow_error e \<or> is_cancellation e then throw e
      else bind_eff (gets m_episode) (\<lambda>episode. (case episode of
          Some ep \<Rightarrow> throw (raise_from (HandlerFailure (fep_primary ep)
            (classify_failure (en_render (rn_env rn)) e PhHandler (Some (fs_name step)) (Some HANDLER_FAILED))) e)
        | None \<Rightarrow> (case step_handler rn step of
            None \<Rightarrow> throw e
          | Some handler \<Rightarrow>
              (let d = classify_failure (en_render (rn_env rn)) e PhStep (Some (fs_name step)) (Some STEP_FAILED);
                   failure = step_failure_of d (fs_name step)
               in bind_eff (modify (\<lambda>m. m\<lparr>
                     m_failures := m_failures m @ [failure],
                     m_timings := dict_set (fs_name step) (dump_entry ((audit_entry seq ''failed'')\<lparr>
                       ae_code := Some (JStr (fd_code d)), ae_message := Some (JStr (fd_message d)),
                       ae_started_at := Some (iso_json rn started)\<rparr>)) (m_timings m),
                     m_outputs := dict_set ''error'' (dump_step_failure failure) (m_outputs m),
                     m_transitions := m_transitions m @ [decision (fs_name step) ''error'' handler],
                     m_episode := Some \<lparr>fep_primary = d, fep_handler = handler,
                       fep_steps = handler_region rn handler\<rparr>\<rparr>)) (\<lambda>_.
                  finish_step rn (Some handler) seq))))))"

definition op_entry ::
    "'w runner \<Rightarrow> nat \<Rightarrow> json dict \<Rightarrow> json \<Rightarrow> op_result \<Rightarrow> rat \<Rightarrow> rat \<Rightarrow> step_audit_entry" where
  "op_entry rn seq globals input r started stopped =
     (audit_entry seq (if or_exhausted r then ''exhausted'' else ''succeeded''))\<lparr>
       ae_globals := Some (JObj globals), ae_input := Some input, ae_output := Some (or_data r),
       ae_started_at := Some (iso_json rn started),
       ae_duration_ms := Some (duration_json started stopped),
       ae_items_total := map_option (\<lambda>s. JInt (int (fst s))) (or_stats r),
       ae_items_failed := map_option (\<lambda>s. JInt (int (snd s))) (or_stats r),
       ae_attempts := map_option (\<lambda>n. JInt (int n)) (or_attempts r),
       ae_cache := map_option JStr (or_cache r)\<rparr>"

definition operation_done ::
    "'w runner \<Rightarrow> flow_step \<Rightarrow> nat \<Rightarrow> json dict \<Rightarrow> json \<Rightarrow> rat \<Rightarrow> op_result \<Rightarrow> ('w, step_outcome) eff" where
  "operation_done rn step seq globals input started r =
     bind_eff (if or_exhausted r then ret () else store_result step (or_data r)) (\<lambda>_.
     bind_eff (now rn) (\<lambda>stopped.
     bind_eff (set_timing (fs_name step) (op_entry rn seq globals input r started stopped)) (\<lambda>_.
     if or_exhausted r
     then (case fs_on_exhausted step of
         None \<Rightarrow> throw (flow_error LOOP_EXHAUSTED)
       | Some t \<Rightarrow> bind_eff (add_transition (decision (fs_name step) ''exhausted'' t)) (\<lambda>_.
           finish_step rn (Some t) seq))
     else bind_eff (next_step rn step (or_data r)) (\<lambda>(next_name, dec).
          bind_eff (add_decision dec) (\<lambda>_. finish_step rn next_name seq)))))"

text \<open>The operation, its failure and its completion: an exception of the completion is not caught.\<close>

definition operation_step ::
    "'w runner \<Rightarrow> flow_step \<Rightarrow> step_definition \<Rightarrow> json \<Rightarrow> json dict \<Rightarrow> nat \<Rightarrow> rat \<Rightarrow>
     loop_checkpoint option \<Rightarrow> ('w, step_outcome) eff" where
  "operation_step rn step sd input globals seq started loop m =
     (case run_operation rn step sd input globals seq started loop m of
        (Inl e, m') \<Rightarrow> operation_failed rn step seq started e m'
      | (Inr r, m') \<Rightarrow> operation_done rn step seq globals input started r m')"

definition service_params :: "'w runner \<Rightarrow> step_definition \<Rightarrow> exn + json dict" where
  "service_params rn sd = (case sd_target sd of
       ServiceOperationTarget service _ \<Rightarrow> (case map_of (rn_services rn) service of
           None \<Rightarrow> Inl key_error | Some ps \<Rightarrow> Inr ps)
     | ChildWorkflowTarget _ \<Rightarrow> Inr [])"

definition step_globals :: "'w runner \<Rightarrow> flow_step \<Rightarrow> step_definition \<Rightarrow> json dict \<Rightarrow> exn + json dict" where
  "step_globals rn step sd params =
     bind_result (service_params rn sd) (\<lambda>sp.
     bind_result (interpolate rn (JObj (dict_update (dict_update sp (sd_params sd)) (fs_params step))) params) (\<lambda>g.
       normalize_object rn (''steps.'' @ fs_name step @ ''.globals'') (of_json g)))"

text \<open>The input of a step and whether its condition lets it run.\<close>

definition step_input :: "'w runner \<Rightarrow> flow_step \<Rightarrow> ('w, json \<times> bool) eff" where
  "step_input rn step m = (as_flow_resolution
     (bind_result (resolve_input (fs_input step) (m_outputs m) (m_params m)) (\<lambda>input.
       (case fs_condition step of
          Some cond \<Rightarrow>
            if cond = [] then Inr (input, True)
            else map_sum id (Pair input) (fst (condition_holds rn cond input m))
        | None \<Rightarrow> Inr (input, True)))), m)"

definition skip_step :: "'w runner \<Rightarrow> flow_step \<Rightarrow> nat \<Rightarrow> ('w, step_outcome) eff" where
  "skip_step rn step seq =
     bind_eff (set_timing (fs_name step) ((audit_entry seq ''skipped'')\<lparr>
         ae_condition := map_option JStr (fs_condition step),
         ae_then := Some (case fs_then step of Some t \<Rightarrow> JStr t | None \<Rightarrow> JNull)\<rparr>)) (\<lambda>_.
     finish_step rn (fs_then step) seq)"

definition op_step :: "'w runner \<Rightarrow> flow_step \<Rightarrow> nat \<Rightarrow> loop_checkpoint option \<Rightarrow> ('w, step_outcome) eff" where
  "op_step rn step seq loop =
     bind_eff (case loop of
         Some (IterationLoop c) \<Rightarrow> ret (ic_started_at_epoch c)
       | Some (UntilLoop c) \<Rightarrow> ret (uc_started_at_epoch c)
       | None \<Rightarrow> now rn) (\<lambda>started.
     bind_eff (modify (\<lambda>m. m\<lparr>m_step_started := Some started\<rparr>)) (\<lambda>_.
     (case fs_op step of
        None \<Rightarrow> throw (flow_error INVARIANT_VIOLATION)
      | Some op \<Rightarrow> (case map_of (wc_steps (rn_config rn)) op of
          None \<Rightarrow> throw key_error
        | Some sd \<Rightarrow>
            bind_eff (\<lambda>m. (step_globals rn step sd (m_params m), m)) (\<lambda>globals.
            bind_eff (step_input rn step) (\<lambda>(input, runs).
              if \<not> runs then skip_step rn step seq
              else operation_step rn step sd input globals seq started loop))))))"

definition execute_step ::
    "'w runner \<Rightarrow> string \<Rightarrow> nat \<Rightarrow> loop_checkpoint option \<Rightarrow> ('w, step_outcome) eff" where
  "execute_step rn name seq loop =
     bind_eff (modify (begin_step name seq)) (\<lambda>_.
     (case lookup_step rn name of
        None \<Rightarrow> throw key_error
      | Some step \<Rightarrow>
          if (case loop of Some l \<Rightarrow> \<not> loop_matches step l | None \<Rightarrow> False)
          then throw (flow_error INVARIANT_VIOLATION)
          else if fs_terminal step then ret (Terminal (fs_reason step))
          else (case fs_sleep_sec step of
              Some seconds \<Rightarrow> sleep_step rn step seconds seq
            | None \<Rightarrow> (case fs_wait_for step of
                Some wt \<Rightarrow> wait_step rn step wt seq
              | None \<Rightarrow> op_step rn step seq loop))))"

section \<open>The flow\<close>

text \<open>\<open>while current_step_name\<close>, and the end of the control flow without a terminal.\<close>

fun flow_loop ::
    "'w runner \<Rightarrow> nat \<Rightarrow> string option \<Rightarrow> nat \<Rightarrow> loop_checkpoint option \<Rightarrow> 'w mach \<Rightarrow>
     ((exn + string option) \<times> 'w mach) option" where
  "flow_loop rn 0 name seq loop m = None"
| "flow_loop rn (Suc fuel) name seq loop m =
     (if \<not> truthy_name name then Some (Inl (flow_error INVARIANT_VIOLATION), m)
      else (case execute_step rn (the name) seq loop m of
          (Inl e, m') \<Rightarrow> Some (Inl e, m')
        | (Inr (Terminal reason), m') \<Rightarrow> Some (Inr reason, m')
        | (Inr (Next name' seq'), m') \<Rightarrow> flow_loop rn fuel name' seq' None m'))"

end
