(* ===== verification/JF_Frames.thy ===== *)
theory JF_Frames
  imports JF_Runner
begin

text \<open>
  What the operations of the runner may change. A reflexive and transitive relation between the state
  before and the state after is kept by every composition of computations that keep it: the locale
  \<open>state_relation\<close>. Its interpretations give the frame of an operation (the loops and invocations
  touch only the world, the invocation count and the requested checkpoint) and the growth of the
  run's history.
\<close>

section \<open>Relations kept by computations\<close>

locale state_relation =
  fixes R :: "'w mach \<Rightarrow> 'w mach \<Rightarrow> bool"
  assumes R_refl: "R m m"
    and R_trans: "R m m1 \<Longrightarrow> R m1 m2 \<Longrightarrow> R m m2"
begin

definition stays :: "('w, 'a) eff \<Rightarrow> bool" where
  "stays c \<longleftrightarrow> (\<forall>m. R m (snd (c m)))"

lemma staysD: "stays c \<Longrightarrow> c m = (r, m') \<Longrightarrow> R m m'"
  by (auto simp: stays_def dest: spec [of _ m])

lemma staysI: "(\<And>m r m'. c m = (r, m') \<Longrightarrow> R m m') \<Longrightarrow> stays c"
  by (metis stays_def prod.collapse)

lemma stays_ret [intro!]: "stays (ret a)"
  by (simp add: stays_def ret_def R_refl)

lemma stays_throw [intro!]: "stays (throw e)"
  by (simp add: stays_def throw_def R_refl)

lemma stays_lift [intro!]: "stays (lift_result r)"
  by (simp add: stays_def lift_result_def R_refl)

lemma stays_gets [intro!]: "stays (gets f)"
  by (simp add: stays_def gets_def R_refl)

lemma stays_pure [intro!]: "stays (\<lambda>m. (f m, m))"
  by (simp add: stays_def R_refl)

lemma stays_modify: "(\<And>m. R m (f m)) \<Longrightarrow> stays (modify f)"
  by (simp add: stays_def modify_def)

lemma stays_if [intro!]: "(b \<Longrightarrow> stays c) \<Longrightarrow> (\<not> b \<Longrightarrow> stays d) \<Longrightarrow> stays (if b then c else d)"
  by simp

lemma stays_bind [intro!]: "stays c \<Longrightarrow> (\<And>a. stays (f a)) \<Longrightarrow> stays (bind_eff c f)"
  by (intro staysI) (auto simp: bind_eff_def split: prod.splits sum.splits dest: staysD intro: R_trans)

lemma stays_perform: "(\<And>m w. R m (m\<lparr>m_world := w\<rparr>)) \<Longrightarrow> stays (perform act)"
  by (intro staysI) (auto simp: perform_def split: prod.splits)

lemma stays_as_flow_condition [intro!]: "stays c \<Longrightarrow> stays (as_flow_condition c)"
  by (intro staysI) (auto simp: as_flow_condition_def split: prod.splits sum.splits if_splits dest: staysD)

lemma stays_outcome_of [intro!]: "stays c \<Longrightarrow> stays (outcome_of s c)"
  by (intro staysI) (auto simp: outcome_of_def split: prod.splits sum.splits if_splits dest: staysD)

lemma stays_data_of [intro!]: "stays c \<Longrightarrow> stays (data_of c)"
  by (auto simp: data_of_def)

end

text \<open>The laws on the changes of the executor: to the world alone.\<close>

locale world_relation = state_relation R for R :: "'w mach \<Rightarrow> 'w mach \<Rightarrow> bool" +
  assumes R_world: "R m (m\<lparr>m_world := w\<rparr>)"
begin

lemma stays_perform' [intro!]: "stays (perform act)"
  by (intro stays_perform R_world)

lemma stays_now [intro!]: "stays (now rn)"
  by (auto simp: now_def)

lemma stays_invoke_target [intro!]: "stays (invoke_target rn sd name input globals)"
  by (auto simp: invoke_target_def invoke_child_def invoke_service_def cache_directive_for_def
      split: step_target.split option.split)

lemma stays_reject [intro!]: "stays (reject_loop_cache sd)"
  by (auto simp: reject_loop_cache_def)

lemma stays_condition_holds [intro!]: "stays (condition_holds rn cond data)"
  unfolding condition_holds_def by (rule stays_pure)

lemma stays_flow_condition [intro!]: "stays (flow_condition rn cond data)"
  by (auto simp: flow_condition_def)

lemma stays_sleep_between [intro!]: "stays (sleep_between rn step a n)"
  by (auto simp: sleep_between_def split: option.split)

lemma stays_run_item [intro!]: "stays (run_item rn step sd input globals ki)"
  by (auto simp: run_item_def)

lemma stays_run_wait [intro!]: "stays (run_wait rn wt)"
  by (auto simp: run_wait_def intro!: stays_pure)

lemma stays_branch_matches [intro!]: "stays (branch_matches rn step result cond)"
  by (auto simp: branch_matches_def split: branch_when.split)

lemma stays_choose_branch: "stays (choose_branch rn step result bs)"
proof (induction bs)
  case (Cons b bs)
  have "stays (case ob_then b of None \<Rightarrow> throw (flow_error INVARIANT_VIOLATION)
      | Some t \<Rightarrow> ret (Some t, Some (decision (fs_name step) how t)))" for how
    by (auto split: option.split)
  with Cons show ?case by (auto simp: case_prod_unfold split: option.split)
qed auto

lemma stays_next_step [intro!]: "stays (next_step rn step result)"
  by (auto simp: next_step_def intro!: stays_choose_branch)

lemma stays_step_input [intro!]: "stays (step_input rn step)"
  unfolding step_input_def by (rule stays_pure)

end

text \<open>Invocations are counted.\<close>

locale call_relation = world_relation R for R :: "'w mach \<Rightarrow> 'w mach \<Rightarrow> bool" +
  assumes R_count: "R m (m\<lparr>m_invocations := m_invocations m + n\<rparr>)"
begin

lemma stays_count [intro!]: "stays (count_invocation rn)"
  unfolding count_invocation_def
  using R_count [where n = 1] by (intro stays_bind stays_modify stays_gets stays_lift) auto

lemma stays_invoke [intro!]: "stays (invoke rn sd name input globals)"
  by (auto simp: invoke_def)

lemma start_tasks_count:
  "start_tasks rn slots pending running ended n = (p, r, e, n') \<Longrightarrow> \<exists>k. n' = n + k"
proof (induction rn slots pending running ended n arbitrary: p r e n' rule: start_tasks.induct)
  case (2 rn slots i pending running ended invocations)
  show ?case
  proof (cases "slots \<le> length running")
    case False
    then show ?thesis
    proof (cases "invocation_limit_error rn (Suc invocations)")
      case (Inl x)
      with 2 False have "\<exists>k. n' = Suc invocations + k" by auto
      then show ?thesis by (metis add_Suc_shift)
    next
      case (Inr u)
      with 2 False have "\<exists>k. n' = Suc invocations + k" by auto
      then show ?thesis by (metis add_Suc_shift)
    qed
  qed (use 2 in auto)
qed auto

lemma stays_start_waiting [intro!]: "stays (start_waiting rn slots strategy pending running ended)"
  by (intro staysI) (auto simp: start_waiting_def R_count split: prod.splits dest!: start_tasks_count)

lemma stays_gather_loop:
  assumes "\<And>i. stays (task i)"
  shows "R m (snd (gather_loop rn slots strategy task pending running ended m))"
proof (induction rn slots strategy task pending running ended m
    rule: gather_loop.induct [where P = "\<lambda>rn slots strategy task pending running ended m.
      (\<forall>i. stays (task i)) \<longrightarrow> R m (snd (gather_loop rn slots strategy task pending running ended m))",
      THEN mp])
  case 1
  then show ?case by (simp add: R_refl)
next
  case (2 rn slots strategy task pending r rs ended m)
  show ?case
  proof
    assume task: "\<forall>i. stays (task i)"
    obtain k w where kw: "x_next_done (rn_executor rn) (r # rs) (m_world m) = (k, w)" by fastforce
    let ?i = "(r # rs) ! (k mod length (r # rs))"
    obtain out m1 where out: "task ?i (m\<lparr>m_world := w\<rparr>) = (out, m1)" by fastforce
    obtain res m2 where res: "start_waiting rn slots strategy pending (remove1 ?i (r # rs)) (ended @ [(?i, out)]) m1 = (res, m2)"
      by fastforce
    have "R m m1" using R_trans [OF R_world] staysD [OF spec [OF task] out] by blast
    then have m2: "R m m2" using R_trans staysD [OF stays_start_waiting res] by blast
    show "R m (snd (gather_loop rn slots strategy task pending (r # rs) ended m))"
    proof (cases res)
      case (Inl e)
      with kw out res m2 show ?thesis by simp
    next
      case (Inr t)
      obtain p' r' e' where t: "t = (p', r', e')" by (cases t)
      have "R m2 (snd (gather_loop rn slots strategy task p' r' e' m2))"
        using 2 [OF kw [symmetric] out [symmetric] res [symmetric] Inr t [symmetric] refl] task
        by blast
      with kw out res m2 Inr t show ?thesis using R_trans by simp
    qed
  qed
qed (use assms in auto)

lemma stays_gather [intro!]:
  "(\<And>i. stays (task i)) \<Longrightarrow> stays (gather_loop rn slots strategy task pending running ended)"
  using stays_gather_loop by (simp add: stays_def)

lemma stays_run_chunk [intro!]: "(\<And>x. stays (run x)) \<Longrightarrow> stays (run_chunk rn slots strategy run chunk)"
  unfolding run_chunk_def case_prod_unfold
  by (intro stays_bind stays_start_waiting stays_gather stays_ret)

end

text \<open>Loops also request checkpoints, which hold the parameters of the state they are taken of.\<close>

locale loop_relation = call_relation R for R :: "'w mach \<Rightarrow> 'w mach \<Rightarrow> bool" +
  assumes R_request: "ck_params ck = m_params m \<Longrightarrow> R m (m\<lparr>m_requested := Some ck\<rparr>)"
begin

lemma stays_build_checkpoint:
  "stays (bind_eff (gets (\<lambda>m. build_checkpoint m t seq loop)) (enforce_checkpoint rn))"
proof (rule staysI)
  fix m r m'
  assume "bind_eff (gets (\<lambda>m. build_checkpoint m t seq loop)) (enforce_checkpoint rn) m = (r, m')"
  then have "m' = m \<or> m' = m\<lparr>m_requested := Some (build_checkpoint m t seq loop)\<rparr>"
    by (auto simp: eff_basic enforce_checkpoint_def split: sum.splits if_splits)
  then show "R m m'" by (auto simp: R_refl build_checkpoint_def intro!: R_request)
qed

lemma stays_checkpoint_after_step [intro!]: "stays (checkpoint_after_step rn n s)"
  by (auto simp: checkpoint_after_step_def intro!: stays_build_checkpoint split: option.split)

lemma stays_checkpoint_during_loop [intro!]: "stays (checkpoint_during_loop rn n s l)"
  by (auto simp: checkpoint_during_loop_def intro!: stays_build_checkpoint)

lemma stays_until_loop:
  "stays (until_loop rn step sd cond input globals seq started attempts remaining attempt result)"
  by (induction remaining arbitrary: attempt result) (auto simp: case_prod_unfold)

lemma stays_run_until [intro!]: "stays (run_until rn step sd input globals seq started c)"
  unfolding run_until_def Let_def
  by (intro stays_bind stays_reject) (auto split: option.split intro!: stays_bind stays_until_loop)

lemma stays_sequential_loop:
  "stays (sequential_loop rn step sd input globals seq started strategy offset items processed failed)"
proof (induction items arbitrary: offset processed failed)
  case (Cons ki items)
  then show ?case by (cases ki) (auto simp: case_prod_unfold)
qed auto

lemma stays_parallel_loop:
  assumes "\<And>x. stays (run x)"
  shows "stays (parallel_loop rn step slots c run seq started strategy offset items processed failed)"
proof (induction "length items" arbitrary: offset items processed failed rule: less_induct)
  case less
  show ?case
  proof (cases items)
    case Nil
    then have "parallel_loop rn step slots c run seq started strategy offset items processed failed
        = ret (processed, failed)"
      by (simp add: fun_eq_iff)
    then show ?thesis by auto
  next
    case (Cons x xs)
    let ?c = "max 1 c"
    let ?off = "offset + length (take ?c (x # xs))"
    have IH: "stays (parallel_loop rn step slots c run seq started strategy ?off (drop ?c (x # xs)) p f)" for p f
      by (rule less) (simp add: Cons)
    have "parallel_loop rn step slots c run seq started strategy offset items processed failed =
      bind_eff (run_chunk rn slots strategy run (take ?c (x # xs))) (\<lambda>outcomes.
        case append_iteration_results rn (fs_name step) strategy outcomes processed of (processed', fresh) \<Rightarrow>
          bind_eff (checkpoint_during_loop rn (fs_name step) seq
            (iteration_state step started processed' ?off (failed + fresh))) (\<lambda>_.
            parallel_loop rn step slots c run seq started strategy ?off (drop ?c (x # xs)) processed' (failed + fresh)))"
      unfolding Cons by (intro ext) (simp only: parallel_loop.simps)
    with IH assms show ?thesis by (auto simp: case_prod_unfold)
  qed
qed

lemma stays_run_iteration [intro!]: "stays (run_iteration rn step ref sd input globals seq started c)"
  unfolding run_iteration_def Let_def case_prod_unfold
  by (auto split: option.split intro!: stays_sequential_loop stays_parallel_loop stays_pure)

lemma stays_run_operation [intro!]: "stays (run_operation rn step sd input globals seq started loop)"
  unfolding run_operation_def case_prod_unfold by (auto split: option.split loop_checkpoint.split)

lemma stays_finish_step [intro!]: "stays (finish_step rn n seq)"
  by (auto simp: finish_step_def)

end

section \<open>Interpretations\<close>

text \<open>The frame: everything but the world, the invocation count, which never falls, and the request.\<close>

definition same_run :: "'w mach \<Rightarrow> 'w mach \<Rightarrow> bool" where
  "same_run m m' \<longleftrightarrow> (\<exists>w n ck. m' = m\<lparr>m_world := w, m_invocations := m_invocations m + n, m_requested := ck\<rparr>)"

lemma same_run_refl: "same_run m m"
  unfolding same_run_def
  by (rule exI [of _ "m_world m"], rule exI [of _ 0], rule exI [of _ "m_requested m"]) simp

lemma same_run_trans: "same_run m m1 \<Longrightarrow> same_run m1 m2 \<Longrightarrow> same_run m m2"
proof -
  assume "same_run m m1" "same_run m1 m2"
  then obtain w n ck w' n' ck' where
    "m1 = m\<lparr>m_world := w, m_invocations := m_invocations m + n, m_requested := ck\<rparr>"
    "m2 = m1\<lparr>m_world := w', m_invocations := m_invocations m1 + n', m_requested := ck'\<rparr>"
    unfolding same_run_def by blast
  then have "m2 = m\<lparr>m_world := w', m_invocations := m_invocations m + (n + n'), m_requested := ck'\<rparr>" by simp
  then show ?thesis unfolding same_run_def by blast
qed

lemma same_run_fields:
  assumes "same_run m m'"
  shows "m_outputs m' = m_outputs m" "m_params m' = m_params m" "m_timings m' = m_timings m"
    "m_transitions m' = m_transitions m" "m_failures m' = m_failures m" "m_episode m' = m_episode m"
    "m_phase m' = m_phase m" "m_step m' = m_step m" "m_step_started m' = m_step_started m"
    "m_next_seq m' = m_next_seq m" "m_started_at m' = m_started_at m" "m_correlation m' = m_correlation m"
    "m_invocations m \<le> m_invocations m'"
  using assms by (auto simp: same_run_def)

interpretation frame: loop_relation same_run
proof unfold_locales
  show "same_run m m" for m :: "'w mach" by (rule same_run_refl)
  show "same_run m m1 \<Longrightarrow> same_run m1 m2 \<Longrightarrow> same_run m m2" for m m1 m2 :: "'w mach" by (rule same_run_trans)
  show "same_run m (m\<lparr>m_world := w\<rparr>)" for m :: "'w mach" and w
    unfolding same_run_def
    by (rule exI [of _ w], rule exI [of _ 0], rule exI [of _ "m_requested m"]) simp
  show "same_run m (m\<lparr>m_invocations := m_invocations m + n\<rparr>)" for m :: "'w mach" and n
    unfolding same_run_def
    by (rule exI [of _ "m_world m"], rule exI [of _ n], rule exI [of _ "m_requested m"]) simp
  show "same_run m (m\<lparr>m_requested := Some ck\<rparr>)" for m :: "'w mach" and ck
    unfolding same_run_def
    by (rule exI [of _ "m_world m"], rule exI [of _ 0], rule exI [of _ "Some ck"]) simp
qed

text \<open>Nothing but a checkpoint requests one.\<close>

interpretation unrequested: call_relation "\<lambda>m m'. m_requested m' = m_requested m"
  by unfold_locales auto

text \<open>Only an invocation counts as one.\<close>

interpretation uncounted: world_relation "\<lambda>m m'. m_invocations m' = m_invocations m"
  by unfold_locales auto

text \<open>The invocation count never falls.\<close>

interpretation counting: loop_relation "\<lambda>m m'. m_invocations m \<le> m_invocations m'"
  by unfold_locales auto

end
