(* ===== verification/JF_Flow.thy ===== *)
theory JF_Flow
  imports JF_Frames
begin

text \<open>
  One step of the flow against the edges of the analysis: wherever the runner goes next, it goes
  along an edge that \<open>engine/analysis.py\<close> has built for the step, of the kind the analysis gives it,
  and the scope has grown by what the edge is said to produce.
\<close>

section \<open>Validity of a flow\<close>

text \<open>
  The analysis, the validation and the handler regions take \<open>then\<close> of a branch before its \<open>default\<close>;
  the runner goes to \<open>default\<close>. They agree when no branch has both.
\<close>

definition plain_branch :: "on_result_branch \<Rightarrow> bool" where
  "plain_branch b \<longleftrightarrow> ob_default b = None \<or> ob_then b = None"

definition plain_flow :: "workflow_config \<Rightarrow> bool" where
  "plain_flow w \<longleftrightarrow> list_all (\<lambda>s. list_all plain_branch (branches s)) (wc_flow w)"

definition valid_flow :: "workflow_config \<Rightarrow> bool" where
  "valid_flow w \<longleftrightarrow> valid_workflow w \<and> plain_flow w \<and> name_field (wc_on_error w)"

abbreviation scope :: "'w mach \<Rightarrow> string set" where
  "scope m \<equiv> scope_names (m_outputs m) (m_params m)"

lemma steps_dict_lookup:
  assumes "map_of (steps_dict flow) name = Some s"
  shows "s \<in> set flow \<and> fs_name s = name"
proof -
  have "map_of (rev (map (\<lambda>s. (fs_name s, s)) flow)) name = Some s"
    using assms by (simp add: steps_dict_def dict_get_update split: option.splits)
  then have "(name, s) \<in> set (rev (map (\<lambda>s. (fs_name s, s)) flow))" by (rule map_of_SomeD)
  then show ?thesis by auto
qed

lemma lookup_stepD: "lookup_step rn name = Some s \<Longrightarrow> s \<in> set (wc_flow (rn_config rn)) \<and> fs_name s = name"
  unfolding lookup_step_def by (rule steps_dict_lookup)

lemma lookup_step_None: "lookup_step rn name = None \<longleftrightarrow> name \<notin> set (rn_names rn)"
  by (auto simp: lookup_step_def rn_names_def step_names_def dict_keys_def map_of_eq_None_iff)

lemma valid_flow_step:
  assumes "valid_flow w" "s \<in> set (wc_flow w)"
  shows "valid_step s" "validate_branches s = Inr ()" "\<And>b. b \<in> set (branches s) \<Longrightarrow> plain_branch b"
  using assms by (auto simp: valid_flow_def valid_workflow_def plain_flow_def list_all_iff)

section \<open>The effect of a step\<close>

definition flow_edge_of :: "flow_step \<Rightarrow> string \<Rightarrow> edge_kind \<Rightarrow> string set \<Rightarrow> flow_edge" where
  "flow_edge_of s t kind produced = \<lparr>fe_source = fs_name s, fe_target = t, fe_kind = kind, fe_produced = produced\<rparr>"

definition goes_along :: "'w runner \<Rightarrow> flow_step \<Rightarrow> string \<Rightarrow> 'w mach \<Rightarrow> 'w mach \<Rightarrow> bool" where
  "goes_along rn s t m m' \<longleftrightarrow> (\<exists>kind produced.
     (t \<in> set (rn_names rn) \<longrightarrow> flow_edge_of s t kind produced \<in> set (step_edges (rn_names rn) (rn_config rn) s)) \<and>
     scope m \<union> produced \<subseteq> scope m' \<and>
     (if kind = FAILURE
      then (\<exists>f. m_failures m' = m_failures m @ [f]) \<and> m_episode m = None \<and>
        (\<exists>d. m_episode m' = Some \<lparr>fep_primary = d, fep_handler = t, fep_steps = handler_region rn t\<rparr>)
      else m_failures m' = m_failures m \<and> m_episode m' = m_episode m))"

text \<open>The records a step leaves: one entry with its sequence number, at most one transition.\<close>

definition leaves_records :: "flow_step \<Rightarrow> nat \<Rightarrow> string option \<Rightarrow> 'w mach \<Rightarrow> 'w mach \<Rightarrow> bool" where
  "leaves_records s seq t m m' \<longleftrightarrow> m_params m' = m_params m \<and>
     (\<exists>entry. m_timings m' = dict_set (fs_name s) entry (m_timings m) \<and> map_of entry ''seq'' = Some (JInt (int seq))) \<and>
     (\<exists>ts. m_transitions m' = m_transitions m @ ts \<and> length ts \<le> 1 \<and>
        (\<forall>x \<in> set ts. tr_step x = fs_name s \<and> Some (tr_target x) = t))"

definition step_effect :: "'w runner \<Rightarrow> flow_step \<Rightarrow> nat \<Rightarrow> string option \<Rightarrow> 'w mach \<Rightarrow> 'w mach \<Rightarrow> bool" where
  "step_effect rn s seq nxt m m' \<longleftrightarrow> leaves_records s seq nxt m m' \<and>
     (\<exists>t. nxt = Some t \<and> goes_along rn s t m m')"

lemma edge_toI: "t \<in> set names \<Longrightarrow>
    \<lparr>fe_source = src, fe_target = t, fe_kind = k, fe_produced = p\<rparr> \<in> set (edge_to names src (Some t) k p)"
  by (simp add: edge_to_def)

lemma finish_stepD:
  assumes "finish_step rn n seq m = (Inr out, m')"
  shows "out = Next n (Suc seq) \<and> same_run m m'"
proof -
  have "same_run m m'" by (rule frame.staysD [OF frame.stays_finish_step assms])
  with assms show ?thesis
    by (auto simp: finish_step_def bind_eff_eq_Inr ret_def)
qed

lemma goes_along_cong:
  assumes "m_outputs m1 = m_outputs m" "m_params m1 = m_params m" "m_failures m1 = m_failures m"
    "m_episode m1 = m_episode m"
    and "m_outputs m2' = m_outputs m2" "m_params m2' = m_params m2" "m_failures m2' = m_failures m2"
    "m_episode m2' = m_episode m2"
  shows "goes_along rn s t m1 m2' = goes_along rn s t m m2"
  unfolding goes_along_def assms ..

lemma leaves_records_cong:
  assumes "m_params m1 = m_params m" "m_timings m1 = m_timings m" "m_transitions m1 = m_transitions m"
    and "m_params m2' = m_params m2" "m_timings m2' = m_timings m2" "m_transitions m2' = m_transitions m2"
  shows "leaves_records s seq t m1 m2' = leaves_records s seq t m m2"
  unfolding leaves_records_def assms ..

lemma step_effect_after:
  assumes "step_effect rn s seq t m m1" "same_run m1 m2"
  shows "step_effect rn s seq t m m2"
  using assms(1) goes_along_cong [of m m m2 m1 rn s] leaves_records_cong [of m m m2 m1 s seq t]
    same_run_fields [OF assms(2)]
  by (simp add: step_effect_def)

lemma step_effect_before:
  assumes "same_run m m1" "step_effect rn s seq t m1 m2"
  shows "step_effect rn s seq t m m2"
  using assms(2) goes_along_cong [of m1 m m2 m2 rn s] leaves_records_cong [of m1 m m2 m2 s seq t]
    same_run_fields [OF assms(1)]
  by (simp add: step_effect_def)

text \<open>The scope after a result is stored.\<close>

lemma store_output_keys:
  assumes "store_output s v outputs = Inr outputs'" "name_field (fs_output s)" "fs_sleep_sec s = None"
  shows "fst ` set outputs' = fst ` set outputs \<union> produced_symbols s"
proof -
  let ?name = "fs_name s"
  let ?key = "case fs_output s of Some a \<Rightarrow> if a \<noteq> [] then a else ?name | None \<Rightarrow> ?name"
  let ?o1 = "if dict_has outputs ?name then outputs else dict_set ?name (JObj []) outputs"
  from assms(1) obtain d where "outputs' = dict_set ?key v (dict_set ?name (JObj (dict_set ?key v d)) ?o1)"
    by (auto simp: store_output_def Let_def split: option.splits json.splits)
  then have keys: "fst ` set outputs' = insert ?key (insert ?name (fst ` set outputs))"
    by (auto simp: dict_simps)
  have "produced_symbols s = {?key, ?name}"
    using assms(2,3) by (cases "fs_output s") (auto simp: produced_symbols_def name_field_def dest: is_name_nonempty)
  with keys show ?thesis by auto
qed

lemma store_resultD:
  assumes "store_result s v m = (Inr u, m')" "name_field (fs_output s)" "fs_sleep_sec s = None"
  shows "\<exists>outputs. m' = m\<lparr>m_outputs := outputs\<rparr> \<and> fst ` set outputs = fst ` set (m_outputs m) \<union> produced_symbols s"
proof -
  obtain outputs where "store_output s v (m_outputs m) = Inr outputs" "m' = m\<lparr>m_outputs := outputs\<rparr>"
    using assms(1) by (auto simp: store_result_def split: sum.splits)
  with store_output_keys [OF _ assms(2,3)] show ?thesis by blast
qed

text \<open>Where \<open>_next_step\<close> leads, and what it reports.\<close>

lemma choose_branchD:
  assumes "choose_branch rn s v bs m = (Inr (nxt, dec), m')" "\<And>b. b \<in> set bs \<Longrightarrow> plain_branch b"
    and "bs \<noteq> []" "ob_default (last bs) \<noteq> None"
    and "\<And>b. b \<in> set bs \<Longrightarrow> name_field (ob_then b) \<and> name_field (ob_default b)"
  shows "\<exists>b \<in> set bs. \<exists>t how. nxt = Some t \<and> or_name (ob_then b) (ob_default b) = Some t \<and>
    dec = Some (decision (fs_name s) how t)"
  using assms
proof (induction bs arbitrary: m)
  case (Cons b bs)
  have nf: "name_field (ob_then b)" "name_field (ob_default b)" using Cons.prems(5) by auto
  show ?case
  proof (cases "ob_default b")
    case (Some t)
    moreover have "ob_then b = None" using Cons.prems(2) [of b] Some by (auto simp: plain_branch_def)
    moreover have "nxt = Some t" "dec = Some (decision (fs_name s) ''default'' t)"
      using Cons.prems(1) Some by (auto simp: ret_def)
    ultimately show ?thesis
      by (intro bexI [of _ b] exI [of _ t] exI [of _ "''default''"]) (auto simp: Some)
  next
    case None
    then have bs: "bs \<noteq> []" using Cons.prems(4) by auto
    obtain cond where c: "ob_when b = Some cond"
      using Cons.prems(1) None by (cases "ob_when b") (auto simp: throw_def)
    let ?rest = "\<lambda>matched how. if \<not> matched then choose_branch rn s v bs
        else (case ob_then b of None \<Rightarrow> throw (flow_error INVARIANT_VIOLATION)
              | Some t \<Rightarrow> ret (Some t, Some (decision (fs_name s) how t)))"
    have "bind_eff (branch_matches rn s v cond) (\<lambda>(matched, how). ?rest matched how) m = (Inr (nxt, dec), m')"
      using Cons.prems(1) None c by simp
    then obtain matched how m1 where rest: "?rest matched how m1 = (Inr (nxt, dec), m')"
      unfolding bind_eff_eq_Inr by (metis (no_types, lifting) case_prod_conv surj_pair)
    show ?thesis
    proof (cases matched)
      case True
      with rest obtain t where t: "ob_then b = Some t" "nxt = Some t" "dec = Some (decision (fs_name s) how t)"
        by (auto simp: throw_def ret_def split: option.splits)
      then have "t \<noteq> []" using nf by (auto simp: name_field_def dest: is_name_nonempty)
      with t show ?thesis by (intro bexI [of _ b]) auto
    next
      case False
      with rest have "choose_branch rn s v bs m1 = (Inr (nxt, dec), m')" by simp
      from Cons.IH [OF this] Cons.prems bs show ?thesis by auto
    qed
  qed
qed simp

lemma flow_step_fields_names:
  assumes "valid_step s"
  shows "name_field (fs_output s)" "name_field (fs_then s)" "name_field (fs_on_failure s)" "name_field (fs_on_exhausted s)"
    "\<And>b. b \<in> set (branches s) \<Longrightarrow> name_field (ob_then b) \<and> name_field (ob_default b)"
  using assms by (auto simp: valid_step_def flow_step_fields_def list_all_iff)

lemma branch_edgesI:
  assumes "b \<in> set (branches s)" "or_name (ob_then b) (ob_default b) = Some t" "t \<in> set names"
  shows "flow_edge_of s t (if ob_default b \<noteq> None then RESULT_DEFAULT else RESULT_BRANCH) (produced_symbols s)
    \<in> set (branch_edges names s)"
  using assms by (auto simp: branch_edges_def flow_edge_of_def edge_to_def intro!: bexI [of _ b])

text \<open>The normal successor, reached with the scope grown by the step's result.\<close>

lemma next_stepD:
  assumes w: "valid_flow (rn_config rn)" and s: "s \<in> set (wc_flow (rn_config rn))" "\<not> fs_terminal s"
    and run: "next_step rn s v m = (Inr (nxt, dec), m')"
  shows "\<exists>t kind. nxt = Some t \<and> kind \<noteq> FAILURE \<and>
    (t \<in> set (rn_names rn) \<longrightarrow>
       flow_edge_of s t kind (produced_symbols s) \<in> set (step_edges (rn_names rn) (rn_config rn) s)) \<and>
    (dec = None \<or> (\<exists>how. dec = Some (decision (fs_name s) how t)))"
proof (cases "branches s = []")
  case True
  with run have "nxt = fs_then s" "dec = None" by (auto simp: next_step_def ret_def)
  moreover obtain t where "fs_then s = Some t"
    using valid_step_successor(1) [OF valid_flow_step(1) [OF w s(1)] s(2)] True by auto
  ultimately show ?thesis
    using True s(2) by (auto simp: step_edges_def flow_edge_of_def edge_toI intro!: exI [of _ SUCCESS])
next
  case False
  have v: "valid_step s" "validate_branches s = Inr ()" "\<And>b. b \<in> set (branches s) \<Longrightarrow> plain_branch b"
    using valid_flow_step [OF w s(1)] by auto
  have "ob_default (last (branches s)) \<noteq> None"
    using validate_branches_last [OF v(2) False, of "length (branches s) - 1"] False by (simp add: last_conv_nth)
  then obtain b t how where b: "b \<in> set (branches s)" "nxt = Some t"
    "or_name (ob_then b) (ob_default b) = Some t" "dec = Some (decision (fs_name s) how t)"
    using choose_branchD [of rn s v "branches s" m nxt dec m'] run False v flow_step_fields_names(5) [OF v(1)]
    by (auto simp: next_step_def)
  then show ?thesis
    using branch_edgesI [OF b(1,3)] False s(2)
    by (intro exI [of _ t] exI [of _ "if ob_default b \<noteq> None then RESULT_DEFAULT else RESULT_BRANCH"])
       (auto simp: step_edges_def)
qed

text \<open>Sleeping, waiting, skipping: one entry, one edge that produces nothing.\<close>

lemma set_timingD: "set_timing name e m = (Inr u, m') \<Longrightarrow> m' = m\<lparr>m_timings := dict_set name (dump_entry e) (m_timings m)\<rparr>"
  by (simp add: set_timing_def modify_def)

lemma add_decisionD: "add_decision dec m = (Inr u, m') \<Longrightarrow> m' = m\<lparr>m_transitions := m_transitions m @ list_of_option dec\<rparr>"
  by (cases dec) (simp_all add: add_decision_def add_transition_def modify_def ret_def)

lemma step_effectI:
  assumes "m_params m' = m_params m"
    and "m_timings m' = dict_set (fs_name s) (dump_entry e) (m_timings m)" "ae_seq e = seq"
    and "m_transitions m' = m_transitions m @ list_of_option dec"
    and "dec = None \<or> (\<exists>how. dec = Some (decision (fs_name s) how t))"
    and "t \<in> set (rn_names rn) \<Longrightarrow> flow_edge_of s t kind produced \<in> set (step_edges (rn_names rn) (rn_config rn) s)"
    and "scope m \<union> produced \<subseteq> scope m'" "kind \<noteq> FAILURE"
    and "m_failures m' = m_failures m" "m_episode m' = m_episode m"
  shows "step_effect rn s seq (Some t) m m'"
proof -
  have "leaves_records s seq (Some t) m m'"
    unfolding leaves_records_def
    using assms(1-5)
    by (intro conjI exI [of _ "dump_entry e"] exI [of _ "list_of_option dec"]) (auto simp: decision_def)
  moreover have "goes_along rn s t m m'"
    unfolding goes_along_def
    using assms(6-10) by (intro exI [of _ kind] exI [of _ produced]) auto
  ultimately show ?thesis by (simp add: step_effect_def)
qed

lemma success_edge:
  "\<not> fs_terminal s \<Longrightarrow> branches s = [] \<Longrightarrow> fs_then s = Some t \<Longrightarrow> t \<in> set names \<Longrightarrow>
   flow_edge_of s t SUCCESS (produced_symbols s) \<in> set (step_edges names w s)"
  by (simp add: step_edges_def flow_edge_of_def edge_to_def)

lemma skip_edge:
  "\<not> fs_terminal s \<Longrightarrow> fs_condition s \<noteq> None \<Longrightarrow> fs_then s = Some t \<Longrightarrow> t \<in> set names \<Longrightarrow>
   flow_edge_of s t CONDITION_SKIP {} \<in> set (step_edges names w s)"
  by (simp add: step_edges_def flow_edge_of_def edge_to_def)

lemma timeout_edge:
  "\<not> fs_terminal s \<Longrightarrow> fs_wait_for s = Some wt \<Longrightarrow> wf_on_timeout wt = Some t \<Longrightarrow> t \<in> set names \<Longrightarrow>
   flow_edge_of s t WAIT_TIMEOUT_EDGE {} \<in> set (step_edges names w s)"
  by (simp add: step_edges_def flow_edge_of_def edge_to_def)

lemma exhausted_edge:
  "\<not> fs_terminal s \<Longrightarrow> fs_until s \<noteq> None \<Longrightarrow> fs_on_exhausted s = Some t \<Longrightarrow> t \<in> set names \<Longrightarrow>
   flow_edge_of s t LOOP_EXHAUSTION {} \<in> set (step_edges names w s)"
  by (simp add: step_edges_def flow_edge_of_def edge_to_def)

lemma failure_edge:
  "\<not> fs_terminal s \<Longrightarrow> fs_op s \<noteq> None \<Longrightarrow> failure_handler w s = Some t \<Longrightarrow> t \<in> set names \<Longrightarrow>
   flow_edge_of s t FAILURE {ERROR_ROOT} \<in> set (step_edges names w s)"
  by (simp add: step_edges_def flow_edge_of_def edge_to_def)

lemma sleep_stepD:
  assumes "valid_flow (rn_config rn)" "s \<in> set (wc_flow (rn_config rn))" "\<not> fs_terminal s" "fs_sleep_sec s \<noteq> None"
    and "sleep_step rn s seconds seq m = (Inr out, m')"
  shows "\<exists>nxt. out = Next nxt (Suc seq) \<and> step_effect rn s seq nxt m m'"
proof -
  let ?e = "(audit_entry seq ''slept'')\<lparr>ae_sleep_sec := Some (JInt (int seconds))\<rparr>"
  obtain m1 m2 u where m1: "perform (x_sleep (rn_executor rn) seconds) m = (Inr u, m1)"
    and m2: "set_timing (fs_name s) ?e m1 = (Inr (), m2)"
    and fin: "finish_step rn (fs_then s) seq m2 = (Inr out, m')"
    using assms(5) by (auto simp: sleep_step_def bind_eff_eq_Inr)
  note r1 = same_run_fields [OF frame.staysD [OF frame.stays_perform' m1]]
  note r2 = set_timingD [OF m2]
  note f = finish_stepD [OF fin]
  note r3 = same_run_fields [OF f [THEN conjunct2]]
  note v = valid_step_successor [OF valid_flow_step(1) [OF assms(1,2)] assms(3)]
  obtain t where t: "fs_then s = Some t" "branches s = []" using v(1,3) assms(4) by auto
  have p: "produced_symbols s = {}" using assms(4) by (simp add: produced_symbols_def)
  note edge = success_edge [OF assms(3) t(2,1), where names = "rn_names rn" and w = "rn_config rn", unfolded p]
  have "step_effect rn s seq (Some t) m m'"
    by (rule step_effectI [where e = ?e and dec = None and kind = SUCCESS and produced = "{}"])
       (use r1 r2 r3 edge in \<open>auto simp: audit_entry_def\<close>)
  with f t show ?thesis by auto
qed

lemma skip_stepD:
  assumes "valid_flow (rn_config rn)" "s \<in> set (wc_flow (rn_config rn))" "\<not> fs_terminal s" "fs_condition s \<noteq> None"
    and "skip_step rn s seq m = (Inr out, m')"
  shows "\<exists>nxt. out = Next nxt (Suc seq) \<and> step_effect rn s seq nxt m m'"
proof -
  let ?e = "(audit_entry seq ''skipped'')\<lparr>ae_condition := map_option JStr (fs_condition s),
         ae_then := Some (case fs_then s of Some t \<Rightarrow> JStr t | None \<Rightarrow> JNull)\<rparr>"
  obtain m2 where m2: "set_timing (fs_name s) ?e m = (Inr (), m2)"
    and fin: "finish_step rn (fs_then s) seq m2 = (Inr out, m')"
    using assms(5) by (auto simp: skip_step_def bind_eff_eq_Inr)
  note r2 = set_timingD [OF m2]
  note f = finish_stepD [OF fin]
  note r3 = same_run_fields [OF f [THEN conjunct2]]
  note v = valid_step_successor [OF valid_flow_step(1) [OF assms(1,2)] assms(3)]
  obtain t where t: "fs_then s = Some t" using v(2) assms(4) by auto
  have "step_effect rn s seq (Some t) m m'"
    by (rule step_effectI [where e = ?e and dec = None and kind = CONDITION_SKIP and produced = "{}"])
       (use r2 r3 assms(3,4) t in \<open>auto simp: audit_entry_def intro: skip_edge\<close>)
  with f t show ?thesis by auto
qed

lemma wait_timed_outD:
  assumes "\<not> fs_terminal s" "fs_wait_for s = Some wt" "wait_timed_out rn s wt seq m = (Inr out, m')"
  shows "\<exists>nxt. out = Next nxt (Suc seq) \<and> step_effect rn s seq nxt m m'"
proof -
  let ?e = "(audit_entry seq ''timed_out'')\<lparr>ae_signal := Some (JStr (wf_signal wt))\<rparr>"
  obtain m2 m3 t where m2: "set_timing (fs_name s) ?e m = (Inr (), m2)"
    and t: "wf_on_timeout wt = Some t"
    and m3: "add_transition (decision (fs_name s) ''timeout'' t) m2 = (Inr (), m3)"
    and fin: "finish_step rn (Some t) seq m3 = (Inr out, m')"
    using assms(3) by (auto simp: wait_timed_out_def bind_eff_eq_Inr throw_def split: option.splits)
  note r2 = set_timingD [OF m2]
  have r3: "m3 = m2\<lparr>m_transitions := m_transitions m2 @ [decision (fs_name s) ''timeout'' t]\<rparr>"
    using m3 by (simp add: add_transition_def modify_def)
  note f = finish_stepD [OF fin]
  note r4 = same_run_fields [OF f [THEN conjunct2]]
  have "step_effect rn s seq (Some t) m m'"
    by (rule step_effectI [where e = ?e and dec = "Some (decision (fs_name s) ''timeout'' t)"
          and kind = WAIT_TIMEOUT_EDGE and produced = "{}"])
       (use r2 r3 r4 assms(1,2) t in \<open>auto simp: audit_entry_def intro: timeout_edge\<close>)
  with f show ?thesis by auto
qed

text \<open>The end of a step with a result: the result is stored, a successor is chosen.\<close>

lemma completedD:
  assumes w: "valid_flow (rn_config rn)" and s: "s \<in> set (wc_flow (rn_config rn))" "\<not> fs_terminal s" "fs_sleep_sec s = None"
    and st: "store_result s v m = (Inr u, m1)" and ti: "set_timing (fs_name s) e m1 = (Inr u', m2)" "ae_seq e = seq"
    and nx: "next_step rn s v m2 = (Inr (nxt, dec), m3)" and de: "add_decision dec m3 = (Inr u'', m4)"
    and fin: "finish_step rn nxt seq m4 = (Inr out, m')"
  shows "\<exists>nxt. out = Next nxt (Suc seq) \<and> step_effect rn s seq nxt m m'"
proof -
  note names = flow_step_fields_names [OF valid_flow_step(1) [OF w s(1)]]
  obtain outputs where r1: "m1 = m\<lparr>m_outputs := outputs\<rparr>"
    and keys: "fst ` set outputs = fst ` set (m_outputs m) \<union> produced_symbols s"
    using store_resultD [OF st names(1) s(3)] by auto
  note r2 = set_timingD [OF ti(1)]
  note r3 = same_run_fields [OF frame.staysD [OF frame.stays_next_step nx]]
  note r4 = add_decisionD [OF de]
  note f = finish_stepD [OF fin]
  note r5 = same_run_fields [OF f [THEN conjunct2]]
  obtain t kind where t: "nxt = Some t" "kind \<noteq> FAILURE"
    "t \<in> set (rn_names rn) \<longrightarrow>
       flow_edge_of s t kind (produced_symbols s) \<in> set (step_edges (rn_names rn) (rn_config rn) s)"
    "dec = None \<or> (\<exists>how. dec = Some (decision (fs_name s) how t))"
    using next_stepD [OF w s(1,2) nx] by auto
  have "scope m \<union> produced_symbols s \<subseteq> scope m'"
    using keys by (auto simp: r1 r2 r3 r4 r5 scope_names_def)
  then have "step_effect rn s seq (Some t) m m'"
    by (intro step_effectI [where e = e and dec = dec and kind = kind and produced = "produced_symbols s"])
       (use t ti(2) in \<open>auto simp: r1 r2 r3 r4 r5\<close>)
  with f t show ?thesis by auto
qed

lemma wait_receivedD:
  assumes "valid_flow (rn_config rn)" "s \<in> set (wc_flow (rn_config rn))" "\<not> fs_terminal s" "fs_sleep_sec s = None"
    and run: "wait_received rn s wt seq started payload m = (Inr out, m')"
  shows "\<exists>nxt. out = Next nxt (Suc seq) \<and> step_effect rn s seq nxt m m'"
proof -
  from run obtain v m1 stopped m2 nxt dec m3 m4 where
    st: "store_result s v m = (Inr (), m1)" and
    ti: "set_timing (fs_name s) ((audit_entry seq ''succeeded'')\<lparr>
         ae_signal := Some (JStr (wf_signal wt)), ae_output := Some v,
         ae_started_at := Some (iso_json rn started),
         ae_duration_ms := Some (duration_json started stopped)\<rparr>) m1 = (Inr (), m2)" and
    nx: "next_step rn s v m2 = (Inr (nxt, dec), m3)" "add_decision dec m3 = (Inr (), m4)"
      "finish_step rn nxt seq m4 = (Inr out, m')"
    by (auto simp: wait_received_def bind_eff_eq_Inr lift_result_def now_def gets_def)
  show ?thesis
    by (rule completedD [OF assms(1-4) st ti _ nx]) (simp add: audit_entry_def)
qed

lemma run_operation_exhausted:
  "run_operation rn s sd input globals seq started loop m = (Inr r, m') \<Longrightarrow> or_exhausted r \<Longrightarrow> fs_until s \<noteq> None"
  by (cases "fs_until s") (auto simp: run_operation_def bind_eff_eq_Inr ret_def split: option.splits if_splits)

lemma operation_doneD:
  assumes v: "valid_flow (rn_config rn)" "s \<in> set (wc_flow (rn_config rn))" "\<not> fs_terminal s" "fs_sleep_sec s = None"
    and ex: "or_exhausted r \<Longrightarrow> fs_until s \<noteq> None"
    and run: "operation_done rn s seq globals input started r m = (Inr out, m')"
  shows "\<exists>nxt. out = Next nxt (Suc seq) \<and> step_effect rn s seq nxt m m'"
proof (cases "or_exhausted r")
  case True
  from run True obtain stopped m2 m3 t where
    m2: "set_timing (fs_name s) (op_entry rn seq globals input r started stopped) m = (Inr (), m2)" and
    t: "fs_on_exhausted s = Some t" and
    m3: "add_transition (decision (fs_name s) ''exhausted'' t) m2 = (Inr (), m3)" and
    fin: "finish_step rn (Some t) seq m3 = (Inr out, m')"
    by (auto simp: operation_done_def bind_eff_eq_Inr throw_def ret_def now_def gets_def split: option.splits)
  note r2 = set_timingD [OF m2]
  have r3: "m3 = m2\<lparr>m_transitions := m_transitions m2 @ [decision (fs_name s) ''exhausted'' t]\<rparr>"
    using m3 by (simp add: add_transition_def modify_def)
  note f = finish_stepD [OF fin]
  note r4 = same_run_fields [OF f [THEN conjunct2]]
  have "step_effect rn s seq (Some t) m m'"
    by (rule step_effectI [where e = "op_entry rn seq globals input r started stopped"
          and dec = "Some (decision (fs_name s) ''exhausted'' t)" and kind = LOOP_EXHAUSTION and produced = "{}"])
       (use r2 r3 r4 v(3) ex [OF True] t in \<open>auto simp: op_entry_def audit_entry_def intro: exhausted_edge\<close>)
  with f show ?thesis by auto
next
  case False
  from run False obtain m1 stopped m2 nxt dec m3 m4 where
    st: "store_result s (or_data r) m = (Inr (), m1)" and
    ti: "set_timing (fs_name s) (op_entry rn seq globals input r started stopped) m1 = (Inr (), m2)" and
    nx: "next_step rn s (or_data r) m2 = (Inr (nxt, dec), m3)" "add_decision dec m3 = (Inr (), m4)"
      "finish_step rn nxt seq m4 = (Inr out, m')"
    by (auto simp: operation_done_def bind_eff_eq_Inr now_def gets_def)
  show ?thesis
    by (rule completedD [OF v st ti _ nx]) (simp add: op_entry_def audit_entry_def)
qed

text \<open>A caught failure: the scope gets \<open>error\<close>, the failure is recorded, the handler is entered.\<close>

lemma handler_agrees:
  assumes "valid_flow (rn_config rn)" "s \<in> set (wc_flow (rn_config rn))"
  shows "step_handler rn s = failure_handler (rn_config rn) s"
proof -
  have "truthy_name (fs_on_failure s) \<longleftrightarrow> fs_on_failure s \<noteq> None"
    using flow_step_fields_names(3) [OF valid_flow_step(1) [OF assms]] by (rule name_field_truthy)
  then show ?thesis
    by (auto simp: step_handler_def failure_handler_def or_name_def split: option.split)
qed

lemma operation_failedD:
  assumes v: "valid_flow (rn_config rn)" "s \<in> set (wc_flow (rn_config rn))" "\<not> fs_terminal s" "fs_op s \<noteq> None"
    and run: "operation_failed rn s seq started e m = (Inr out, m')"
  shows "\<exists>nxt. out = Next nxt (Suc seq) \<and> step_effect rn s seq nxt m m'"
proof -
  let ?d = "classify_failure (en_render (rn_env rn)) e PhStep (Some (fs_name s)) (Some STEP_FAILED)"
  let ?f = "step_failure_of ?d (fs_name s)"
  let ?e = "(audit_entry seq ''failed'')\<lparr>
       ae_code := Some (JStr (fd_code ?d)), ae_message := Some (JStr (fd_message ?d)),
       ae_started_at := Some (iso_json rn started)\<rparr>"
  obtain handler where ep: "m_episode m = None" and h: "step_handler rn s = Some handler"
    using run by (auto simp: operation_failed_def bind_eff_eq_Inr throw_def gets_def Let_def
        split: if_splits option.splits)
  let ?m = "m\<lparr>m_failures := m_failures m @ [?f],
       m_timings := dict_set (fs_name s) (dump_entry ?e) (m_timings m),
       m_outputs := dict_set ''error'' (dump_step_failure ?f) (m_outputs m),
       m_transitions := m_transitions m @ [decision (fs_name s) ''error'' handler],
       m_episode := Some \<lparr>fep_primary = ?d, fep_handler = handler, fep_steps = handler_region rn handler\<rparr>\<rparr>"
  have fin: "finish_step rn (Some handler) seq ?m = (Inr out, m')"
    using run ep h by (auto simp: operation_failed_def bind_eff_eq_Inr throw_def gets_def modify_def Let_def
        split: if_splits)
  note f = finish_stepD [OF fin]
  note r = same_run_fields [OF f [THEN conjunct2]]
  have edge: "handler \<in> set (rn_names rn) \<longrightarrow>
      flow_edge_of s handler FAILURE {ERROR_ROOT} \<in> set (step_edges (rn_names rn) (rn_config rn) s)"
    using failure_edge [OF v(3,4)] h handler_agrees [OF v(1,2)] by simp
  have "goes_along rn s handler m m'"
    unfolding goes_along_def
    using edge ep r by (intro exI [of _ FAILURE] exI [of _ "{ERROR_ROOT}"])
      (auto simp: scope_names_def ERROR_ROOT_def dict_simps)
  moreover have "leaves_records s seq (Some handler) m m'"
    unfolding leaves_records_def using r
    by (intro conjI exI [of _ "dump_entry ?e"] exI [of _ "[decision (fs_name s) ''error'' handler]"])
       (simp_all add: audit_entry_def decision_def)
  ultimately show ?thesis using f by (auto simp: step_effect_def)
qed

lemma operation_stepD:
  assumes v: "valid_flow (rn_config rn)" "s \<in> set (wc_flow (rn_config rn))" "\<not> fs_terminal s" "fs_sleep_sec s = None"
    "fs_op s \<noteq> None"
    and run: "operation_step rn s sd input globals seq started loop m = (Inr out, m')"
  shows "\<exists>nxt. out = Next nxt (Suc seq) \<and> step_effect rn s seq nxt m m'"
proof -
  obtain res m1 where op: "run_operation rn s sd input globals seq started loop m = (res, m1)" by fastforce
  have same: "same_run m m1" by (rule frame.staysD [OF frame.stays_run_operation op])
  have "\<exists>nxt. out = Next nxt (Suc seq) \<and> step_effect rn s seq nxt m1 m'"
  proof (cases res)
    case (Inl e)
    with run op have "operation_failed rn s seq started e m1 = (Inr out, m')"
      by (simp add: operation_step_def)
    then show ?thesis by (rule operation_failedD [OF v(1,2,3,5)])
  next
    case (Inr r)
    with run op have "operation_done rn s seq globals input started r m1 = (Inr out, m')"
      by (simp add: operation_step_def)
    then show ?thesis
      using op Inr by (intro operation_doneD [OF v(1-4)]) (auto dest: run_operation_exhausted)
  qed
  with step_effect_before [OF same] show ?thesis by blast
qed

lemma step_effect_start:
  "step_effect rn s seq t (m\<lparr>m_step_started := x\<rparr>) m' \<Longrightarrow> step_effect rn s seq t m m'"
  using goes_along_cong [of "m\<lparr>m_step_started := x\<rparr>" m m' m' rn s]
    leaves_records_cong [of "m\<lparr>m_step_started := x\<rparr>" m m' m' s seq t]
  by (simp add: step_effect_def)

lemma op_stepD:
  assumes v: "valid_flow (rn_config rn)" "s \<in> set (wc_flow (rn_config rn))" "\<not> fs_terminal s" "fs_sleep_sec s = None"
    and run: "op_step rn s seq loop m = (Inr out, m')"
  shows "\<exists>nxt. out = Next nxt (Suc seq) \<and> step_effect rn s seq nxt m m'"
proof -
  let ?clock = "case loop of
         Some (IterationLoop c) \<Rightarrow> ret (ic_started_at_epoch c)
       | Some (UntilLoop c) \<Rightarrow> ret (uc_started_at_epoch c)
       | None \<Rightarrow> now rn"
  have "\<exists>started. ?clock m = (Inr started, m)"
    by (cases loop) (auto simp: ret_def now_def gets_def split: loop_checkpoint.split)
  then obtain started where st: "?clock m = (Inr started, m)" by blast
  let ?m = "m\<lparr>m_step_started := Some started\<rparr>"
  obtain op where op: "fs_op s = Some op"
    using run st by (cases "fs_op s") (auto simp: op_step_def bind_eff_def modify_def throw_def)
  obtain sd where sd: "map_of (wc_steps (rn_config rn)) op = Some sd"
    using run st op by (cases "map_of (wc_steps (rn_config rn)) op") (auto simp: op_step_def bind_eff_def modify_def throw_def)
  obtain globals input runs where runs:
    "(if \<not> runs then skip_step rn s seq else operation_step rn s sd input globals seq started loop) ?m = (Inr out, m')"
    and inp: "step_input rn s ?m = (Inr (input, runs), ?m)"
    using run st op sd
    by (auto simp: op_step_def bind_eff_def modify_def throw_def step_input_def split: sum.splits prod.splits)
  have "\<exists>nxt. out = Next nxt (Suc seq) \<and> step_effect rn s seq nxt ?m m'"
  proof (cases runs)
    case True
    with runs show ?thesis by (intro operation_stepD [OF v]) (auto simp: op)
  next
    case False
    have "fs_condition s \<noteq> None"
      using inp False by (auto simp: step_input_def as_flow_resolution_def bind_result_def split: sum.splits option.splits)
    with runs False show ?thesis by (intro skip_stepD [OF v(1-3)]) auto
  qed
  with step_effect_start show ?thesis by blast
qed

lemma wait_stepD:
  assumes v: "valid_flow (rn_config rn)" "s \<in> set (wc_flow (rn_config rn))" "\<not> fs_terminal s" "fs_sleep_sec s = None"
    "fs_wait_for s = Some wt"
    and run: "wait_step rn s wt seq m = (Inr out, m')"
  shows "\<exists>nxt. out = Next nxt (Suc seq) \<and> step_effect rn s seq nxt m m'"
proof -
  obtain started payload m1 where w: "run_wait rn wt m = (Inr payload, m1)"
    and k: "(case payload of None \<Rightarrow> wait_timed_out rn s wt seq
       | Some v \<Rightarrow> wait_received rn s wt seq started v) m1 = (Inr out, m')"
    using run by (auto simp: wait_step_def bind_eff_eq_Inr now_def gets_def)
  have "\<exists>nxt. out = Next nxt (Suc seq) \<and> step_effect rn s seq nxt m1 m'"
    using k wait_timed_outD [OF v(3,5)] wait_receivedD [OF v(1-4)] by (cases payload) auto
  with step_effect_before [OF frame.staysD [OF frame.stays_run_wait w]] show ?thesis by blast
qed

section \<open>The step\<close>

text \<open>A step that hands over to another one, and a step that ends the flow.\<close>

lemma execute_stepD:
  assumes w: "valid_flow (rn_config rn)" and run: "execute_step rn name seq loop m = (Inr out, m')"
  obtains s where "lookup_step rn name = Some s" "fs_terminal s" "out = Terminal (fs_reason s)" "m' = begin_step name seq m"
  | s nxt where "lookup_step rn name = Some s" "\<not> fs_terminal s" "out = Next nxt (Suc seq)"
      "step_effect rn s seq nxt (begin_step name seq m) m'"
proof -
  let ?m = "begin_step name seq m"
  obtain s where s: "lookup_step rn name = Some s"
    using run by (cases "lookup_step rn name") (auto simp: execute_step_def bind_eff_def modify_def throw_def)
  note mem = lookup_stepD [OF s, THEN conjunct1]
  have k: "(if fs_terminal s then ret (Terminal (fs_reason s))
          else (case fs_sleep_sec s of
              Some seconds \<Rightarrow> sleep_step rn s seconds seq
            | None \<Rightarrow> (case fs_wait_for s of
                Some wt \<Rightarrow> wait_step rn s wt seq
              | None \<Rightarrow> op_step rn s seq loop))) ?m = (Inr out, m')"
    using run s by (auto simp: execute_step_def bind_eff_def modify_def throw_def split: if_splits option.splits)
  show ?thesis
  proof (cases "fs_terminal s")
    case True
    with k that(1) s show ?thesis by (auto simp: ret_def)
  next
    case False
    have "\<exists>nxt. out = Next nxt (Suc seq) \<and> step_effect rn s seq nxt ?m m'"
    proof (cases "fs_sleep_sec s")
      case (Some seconds)
      with k False show ?thesis by (intro sleep_stepD [OF w mem False]) auto
    next
      case None
      then show ?thesis
        using k False wait_stepD [OF w mem False None] op_stepD [OF w mem False None]
        by (cases "fs_wait_for s") auto
    qed
    with that(2) s False show ?thesis by blast
  qed
qed

end
