(* ===== verification/JF_Run.thy ===== *)
theory JF_Run
  imports JF_Runner
begin

text \<open>
  A whole run (\<open>FlowRunner.run\<close>): the restored or fresh state, the workflow input and parameters, the
  flow, the record of a completed run with its result, sizes and archive, and, for a failed run, the
  bounded failure record and its archive.
\<close>

section \<open>The state a run starts from\<close>

definition fresh_state :: "'w runner \<Rightarrow> string \<Rightarrow> 'w \<Rightarrow> 'w mach" where
  "fresh_state rn request_id w = \<lparr>
     m_world = w, m_invocations = 0,
     m_correlation = correlation_identity_of (wc_workflow (rn_config rn)) (Some request_id) (rn_identity rn),
     m_started_at = en_iso (rn_env rn) (x_now (rn_executor rn) w), m_params = [], m_outputs = [],
     m_timings = [], m_transitions = [], m_failures = [], m_episode = None, m_phase = PhInternal,
     m_step = None, m_step_started = None, m_next_seq = 0, m_requested = None\<rparr>"

definition restore_state :: "'w runner \<Rightarrow> string \<Rightarrow> runner_checkpoint \<Rightarrow> 'w \<Rightarrow> 'w mach" where
  "restore_state rn request_id ck w = \<lparr>
     m_world = w, m_invocations = ck_invocations ck,
     m_correlation = correlation_identity_of (wc_workflow (rn_config rn)) (Some request_id) (rn_identity rn),
     m_started_at = ck_started_at ck, m_params = ck_params ck, m_outputs = ck_step_outputs ck,
     m_timings = ck_step_timings ck, m_transitions = ck_transitions ck, m_failures = ck_failures ck,
     m_episode = ck_active_episode ck, m_phase = PhInternal,
     m_step = None, m_step_started = None, m_next_seq = 0, m_requested = None\<rparr>"

definition start_state :: "'w runner \<Rightarrow> string \<Rightarrow> runner_checkpoint option \<Rightarrow> 'w \<Rightarrow> 'w mach" where
  "start_state rn request_id ck w = (case ck of
       None \<Rightarrow> fresh_state rn request_id w | Some c \<Rightarrow> restore_state rn request_id c w)"

definition set_phase :: "failure_phase \<Rightarrow> ('w, unit) eff" where
  "set_phase p = modify (\<lambda>m. m\<lparr>m_phase := p\<rparr>)"

section \<open>Parameters\<close>

text \<open>
  \<open>request_id\<close> is the one of the correlation identity, which is cut to 128 characters. The values of
  the mapping are interpolated against the mapping itself, once.
\<close>

definition build_params :: "'w runner \<Rightarrow> string \<Rightarrow> json dict \<Rightarrow> exn + json dict" where
  "build_params rn request_id globals =
     (let raw = dict_set ''request_id'' (JStr request_id)
            (dict_update (map (\<lambda>kv. (fst kv, JStr (snd kv))) (wc_params (rn_config rn))) globals)
      in bind_result (interpolate rn (JObj raw) raw) (\<lambda>v.
         bind_result (normalize_object rn ''workflow.params'' (of_json v)) (\<lambda>params.
         bind_result (find_unresolved_placeholders (JObj params)) (\<lambda>unresolved.
           if unresolved = [] then Inr params else Inl (flow_error MISSING_PARAMS)))))"

definition contract_check ::
    "'w runner \<Rightarrow> schema_source option \<Rightarrow> json \<Rightarrow> string \<Rightarrow> ('w, unit) eff" where
  "contract_check rn schema payload direction = (case schema of
       None \<Rightarrow> ret ()
     | Some s \<Rightarrow> perform (x_validate_contract (rn_executor rn) s payload direction (wc_workflow (rn_config rn))))"

definition prepare_run :: "'w runner \<Rightarrow> string \<Rightarrow> pyval \<Rightarrow> ('w, unit) eff" where
  "prepare_run rn request_id trigger_globals =
     bind_eff (set_phase PhWorkflowInput) (\<lambda>_.
     bind_eff (lift_result (normalize_object rn ''trigger.globals'' trigger_globals)) (\<lambda>globals.
     bind_eff (lift_result (payload_limit rn (JObj globals) ''workflow.trigger''
         (rl_trigger_payload_bytes (rn_limits rn)))) (\<lambda>_.
     bind_eff (contract_check rn (wc_input_schema (rn_config rn)) (JObj globals) ''workflow input'') (\<lambda>_.
     bind_eff (set_phase PhParameters) (\<lambda>_.
     bind_eff (lift_result (build_params rn request_id globals)) (\<lambda>params.
       modify (\<lambda>m. m\<lparr>m_params := params\<rparr>)))))))"

section \<open>The completed record\<close>

definition run_status :: "string option \<Rightarrow> step_failure_record list \<Rightarrow> string" where
  "run_status reason failures =
     (if reason \<noteq> None then ''terminated'' else if failures \<noteq> [] then ''recovered'' else ''completed'')"

definition identity_fields :: "run_identity \<Rightarrow> json dict" where
  "identity_fields i = set_fields [
     (''definition_digest'', opt_str (ri_definition_digest i)),
     (''worker_deployment'', opt_str (ri_worker_deployment i)),
     (''worker_build_id'', opt_str (ri_worker_build_id i)), (''worker_artifact'', ri_worker_artifact i),
     (''environment_snapshot_digest'', opt_str (ri_environment_snapshot_digest i)),
     (''trigger_source'', opt_str (ri_trigger_source i)), (''trigger_name'', opt_str (ri_trigger_name i)),
     (''source_identity_digest'', opt_str (ri_source_identity_digest i)),
     (''correlation_identity_digest'', opt_str (ri_correlation_identity_digest i)),
     (''scope_digest'', opt_str (ri_scope_digest i)),
     (''execution_configuration'', ri_execution_configuration i)]"

definition audit_record ::
    "'w runner \<Rightarrow> string \<Rightarrow> string option \<Rightarrow> json option \<Rightarrow> string \<Rightarrow> 'w mach \<Rightarrow> json dict" where
  "audit_record rn request_id reason result completed_at m =
     [(''audit_version'', JInt (int AUDIT_VERSION)),
      (''serialization_version'', JInt (int STRICT_JSON_VERSION)),
      (''request_id'', JStr request_id), (''workflow'', JStr (wc_workflow (rn_config rn)))] @
     identity_fields (rn_identity rn) @
     [(''status'', JStr (run_status reason (m_failures m))),
      (''reason'', (case reason of Some r \<Rightarrow> JStr r | None \<Rightarrow> JNull)),
      (''params'', JObj (m_params m)),
      (''steps'', JObj (map (\<lambda>kv. (fst kv, JObj (snd kv))) (m_timings m))),
      (''transitions'', JList (map dump_transition (m_transitions m))),
      (''started_at'', JStr (m_started_at m)), (''completed_at'', JStr completed_at)] @
     (if m_failures m = [] then []
      else [(''error'', dump_step_failure (last (m_failures m))),
            (''failures'', JList (map dump_step_failure (m_failures m)))]) @
     set_fields [(''result'', result)]"

text \<open>
  The configured result. A result that cannot be resolved fails a run that ended without a reason,
  and is left out of one that was terminated.
\<close>

definition workflow_result :: "'w runner \<Rightarrow> string option \<Rightarrow> ('w, json option) eff" where
  "workflow_result rn reason = (case wc_result (rn_config rn) of
       None \<Rightarrow> ret None
     | Some ref \<Rightarrow>
         bind_eff (gets (\<lambda>m. resolve_reference (RefParsed ref) (m_outputs m) (m_params m))) (\<lambda>r. (case r of
           Inl e \<Rightarrow>
             if is_resolution_error e
             then (if reason = None then throw (flow_error_from INVARIANT_VIOLATION e) else ret None)
             else throw e
         | Inr v \<Rightarrow>
             bind_eff (contract_check rn (wc_output_schema (rn_config rn)) v ''workflow output'') (\<lambda>_.
             bind_eff (lift_result (payload_limit rn v ''workflow.result''
                 (rl_workflow_output_bytes (rn_limits rn)))) (\<lambda>_. ret (Some v))))))"

fun capture_exn :: "capture_error \<Rightarrow> exn" where
  "capture_exn CaptureNotAPointer = raise_kind (PyError ''AuditCaptureError'')"
| "capture_exn (CaptureLimit _ _) = raise_kind (PyError ''AuditCaptureLimitError'')"
| "capture_exn CaptureNotJson = raise_kind (PyError ''StrictJsonError'')"

definition captured :: "'w runner \<Rightarrow> json dict \<Rightarrow> audit_capture \<Rightarrow> exn + json dict" where
  "captured rn r capture = (case capture_audit_record (en_bytes (rn_env rn)) r capture of
       Inl e \<Rightarrow> Inl (capture_exn e) | Inr c \<Rightarrow> Inr c)"

definition archive_completed :: "'w runner \<Rightarrow> json dict \<Rightarrow> ('w, unit) eff" where
  "archive_completed rn record = (case wc_on_complete (rn_config rn) of
       None \<Rightarrow> ret ()
     | Some oc \<Rightarrow>
         bind_eff (set_phase PhArchive) (\<lambda>_.
         bind_eff (lift_result (captured rn record (oc_capture oc))) (\<lambda>archived.
         bind_eff (lift_result (payload_limit rn (JObj archived) ''workflow.archive''
             (rl_audit_record_bytes (rn_limits rn)))) (\<lambda>_.
         bind_eff (\<lambda>m. (interpolate rn (JStr (oc_path oc)) (m_params m), m)) (\<lambda>path.
           perform (x_archive (rn_executor rn) (oc_resource oc) path (oc_retention_policy oc)
             (capture_mode (oc_capture oc)) archived))))))"

definition complete_run :: "'w runner \<Rightarrow> string \<Rightarrow> string option \<Rightarrow> ('w, json dict) eff" where
  "complete_run rn request_id reason =
     bind_eff (modify (\<lambda>m. m\<lparr>m_episode := None\<rparr>)) (\<lambda>_.
     bind_eff (now rn) (\<lambda>completed.
     bind_eff (set_phase PhResult) (\<lambda>_.
     bind_eff (workflow_result rn reason) (\<lambda>result.
     bind_eff (gets (audit_record rn request_id reason result (en_iso (rn_env rn) completed))) (\<lambda>record.
     bind_eff (lift_result (payload_limit rn (JObj record) ''workflow.audit''
         (rl_audit_record_bytes (rn_limits rn)))) (\<lambda>_.
     bind_eff (lift_result (payload_limit rn (JObj record) ''workflow.output''
         (rl_workflow_output_bytes (rn_limits rn)))) (\<lambda>_.
     bind_eff (archive_completed rn record) (\<lambda>_. ret record))))))))"

text \<open>\<open>_execute\<close>; \<open>None\<close> is a flow that has not ended within the fuel.\<close>

definition execute ::
    "'w runner \<Rightarrow> nat \<Rightarrow> pyval \<Rightarrow> runner_checkpoint option \<Rightarrow> 'w mach \<Rightarrow>
     ((exn + json dict) \<times> 'w mach) option" where
  "execute rn fuel trigger_globals ck m =
     (case ci_request_id (m_correlation m) of
        None \<Rightarrow> Some (Inl (flow_error INVARIANT_VIOLATION), m)
      | Some request_id \<Rightarrow>
          (case (case ck of None \<Rightarrow> prepare_run rn request_id trigger_globals m | Some _ \<Rightarrow> (Inr (), m)) of
             (Inl e, m') \<Rightarrow> Some (Inl e, m')
           | (Inr _, m') \<Rightarrow>
               (case wc_flow (rn_config rn) of
                  [] \<Rightarrow> Some (Inl (flow_error INVARIANT_VIOLATION), m')
                | s # _ \<Rightarrow>
                    (case flow_loop rn fuel
                        (Some (case ck of Some c \<Rightarrow> ck_next_step_name c | None \<Rightarrow> fs_name s))
                        (case ck of Some c \<Rightarrow> ck_next_seq c | None \<Rightarrow> 0)
                        (case ck of Some c \<Rightarrow> ck_loop c | None \<Rightarrow> None) m' of
                       None \<Rightarrow> None
                     | Some (Inl e, m2) \<Rightarrow> Some (Inl e, m2)
                     | Some (Inr reason, m2) \<Rightarrow> Some (complete_run rn request_id reason m2)))))"

section \<open>Failed runs\<close>

definition record_unhandled_step :: "'w runner \<Rightarrow> failure_detail \<Rightarrow> 'w mach \<Rightarrow> 'w mach" where
  "record_unhandled_step rn d m = (case fd_step d of
       None \<Rightarrow> m
     | Some name \<Rightarrow>
         if (case map_of (m_timings m) name of
               Some entry \<Rightarrow> map_of entry ''status'' = Some (JStr ''failed'') | None \<Rightarrow> False)
         then m
         else m\<lparr>m_timings := dict_set name (dump_entry ((audit_entry (m_next_seq m) ''failed'')\<lparr>
             ae_code := Some (JStr (fd_code d)), ae_message := Some (JStr (fd_message d)),
             ae_started_at := Some (case m_step_started m of Some t \<Rightarrow> iso_json rn t | None \<Rightarrow> JNull)\<rparr>))
           (m_timings m)\<rparr>)"

text \<open>Which failure is reported as the primary one, which as secondary, and for which step.\<close>

definition failure_roles ::
    "'w runner \<Rightarrow> exn \<Rightarrow> 'w mach \<Rightarrow> failure_detail option \<times> failure_detail list \<times> failure_detail" where
  "failure_roles rn e m =
     (let step_name = (if m_phase m = PhStep then m_step m else None);
          render = en_render (rn_env rn)
      in (case ex_kind e of
            HandlerFailure primary handler \<Rightarrow> (Some primary, [handler], handler)
          | _ \<Rightarrow> (case m_episode m of
              Some ep \<Rightarrow>
                (let h = classify_failure render e PhHandler (m_step m) (Some HANDLER_FAILED)
                 in (Some (fep_primary ep), [h], h))
            | None \<Rightarrow> (None, [], classify_failure render e (m_phase m) step_name None))))"

definition run_failure :: "'w runner \<Rightarrow> exn \<Rightarrow> 'w mach \<Rightarrow> execution_error option \<times> 'w mach" where
  "run_failure rn e m = (case failure_roles rn e m of (primary, secondary, for_step) \<Rightarrow>
     (let m' = record_unhandled_step rn for_step m
      in (build_execution_error (en_render (rn_env rn)) (en_bytes (rn_env rn)) e (m_correlation m') (m_phase m')
            (m_started_at m') (en_iso (rn_env rn) (x_now (rn_executor rn) (m_world m')))
            (if m_phase m = PhStep then m_step m else None) (m_timings m') (m_transitions m')
            primary secondary (nat (rl_failure_record_bytes (rn_limits rn))), m')))"

definition archive_params :: "'w mach \<Rightarrow> json dict" where
  "archive_params m = (case ci_request_id (m_correlation m) of
       None \<Rightarrow> m_params m
     | Some r \<Rightarrow> if dict_has (m_params m) ''request_id'' then m_params m
         else dict_set ''request_id'' (JStr r) (m_params m))"

definition archive_failure_record :: "'w runner \<Rightarrow> on_complete_config \<Rightarrow> failure_record \<Rightarrow> ('w, unit) eff" where
  "archive_failure_record rn oc record =
     bind_eff (\<lambda>m. (interpolate rn (JStr (oc_path oc)) (archive_params m), m)) (\<lambda>path.
     bind_eff (lift_result (find_unresolved_placeholders path)) (\<lambda>unresolved.
     if unresolved \<noteq> [] then throw (flow_error MISSING_PARAMS)
     else bind_eff (lift_result (captured rn (dump_failure_record record) (oc_capture oc))) (\<lambda>archived.
       perform (x_archive (rn_executor rn) (oc_resource oc) path (oc_retention_policy oc)
         (capture_mode (oc_capture oc)) archived))))"

text \<open>
  The outcome of a run: its record, a request for a fresh history with the checkpoint, the failure
  of an ordinary exception (with its bounded record), or an exception that is passed on: a
  cancellation, or one that serializing the failure record raises.
\<close>

datatype run_outcome =
    RunCompleted "json dict"
  | RunContinued runner_checkpoint
  | RunFailed execution_error
  | RunRaised exn

definition serialization_error :: exn where
  "serialization_error = raise_kind (PyError ''StrictJsonError'')"

definition archive_failure ::
    "'w runner \<Rightarrow> execution_error \<Rightarrow> 'w mach \<Rightarrow> run_outcome \<times> 'w mach" where
  "archive_failure rn failure m = (case wc_on_complete (rn_config rn) of
       None \<Rightarrow> (RunFailed failure, m)
     | Some oc \<Rightarrow>
         if m_phase m = PhArchive then (RunFailed failure, m)
         else (case archive_failure_record rn oc (xe_record failure) m of
             (Inr _, m') \<Rightarrow> (RunFailed failure, m')
           | (Inl e, m') \<Rightarrow>
               if is_cancellation e then (RunRaised e, m')
               else (let d = classify_failure (en_render (rn_env rn)) e PhArchive None (Some ARCHIVAL_FAILED)
                     in (case build_execution_error (en_render (rn_env rn)) (en_bytes (rn_env rn)) e
                           (m_correlation m') (fd_phase (xe_classification failure)) (m_started_at m')
                           (en_iso (rn_env rn) (x_now (rn_executor rn) (m_world m')))
                           (fd_step (xe_classification failure)) (m_timings m') (m_transitions m')
                           (Some (xe_classification failure)) (xe_secondary failure @ [d])
                           (nat (rl_failure_record_bytes (rn_limits rn))) of
                         None \<Rightarrow> (RunRaised serialization_error, m')
                       | Some xe \<Rightarrow> (RunFailed xe, m')))))"

definition run ::
    "'w runner \<Rightarrow> nat \<Rightarrow> string \<Rightarrow> pyval \<Rightarrow> runner_checkpoint option \<Rightarrow> 'w \<Rightarrow> (run_outcome \<times> 'w mach) option" where
  "run rn fuel request_id trigger_globals ck w =
     (case execute rn fuel trigger_globals ck (start_state rn request_id ck w) of
        None \<Rightarrow> None
      | Some (Inr record, m) \<Rightarrow> Some (RunCompleted record, m)
      | Some (Inl e, m) \<Rightarrow>
          if is_cancellation e then Some (RunRaised e, m)
          else if ex_kind e = FlowContinuation
          then Some (case m_requested m of Some c \<Rightarrow> RunContinued c | None \<Rightarrow> RunRaised e, m)
          else (case run_failure rn e m of
              (None, m') \<Rightarrow> Some (RunRaised serialization_error, m')
            | (Some failure, m') \<Rightarrow> Some (archive_failure rn failure m')))"

end
