(* ===== verification/JF_Progress.thy ===== *)
theory JF_Progress
  imports JF_Flow JF_Run
begin

text \<open>
  Whole runs of the flow: the states the loop over the steps goes through, as the reflexive and
  transitive closure of one step; the availability of the symbols a step refers to, on every run; the
  history a run leaves; and the end of the loop, for flows whose edges, those of failures included,
  form no cycle.
\<close>

section \<open>The states of the loop\<close>

type_synonym 'w flow_state = "string option \<times> nat \<times> loop_checkpoint option \<times> 'w mach"

inductive flow_next :: "'w runner \<Rightarrow> 'w flow_state \<Rightarrow> 'w flow_state \<Rightarrow> bool" for rn where
  step: "truthy_name name \<Longrightarrow> execute_step rn (the name) seq loop m = (Inr (Next name' seq'), m') \<Longrightarrow>
    flow_next rn (name, seq, loop, m) (name', seq', None, m')"

inductive_cases flow_nextE: "flow_next rn (name, seq, loop, m) (name', seq', loop', m')"

inductive flow_ends :: "'w runner \<Rightarrow> 'w flow_state \<Rightarrow> exn + string option \<Rightarrow> 'w mach \<Rightarrow> bool" for rn where
  lost: "\<not> truthy_name name \<Longrightarrow> flow_ends rn (name, seq, loop, m) (Inl (flow_error INVARIANT_VIOLATION)) m"
| raised: "truthy_name name \<Longrightarrow> execute_step rn (the name) seq loop m = (Inl e, m') \<Longrightarrow>
    flow_ends rn (name, seq, loop, m) (Inl e) m'"
| terminal: "truthy_name name \<Longrightarrow> execute_step rn (the name) seq loop m = (Inr (Terminal reason), m') \<Longrightarrow>
    flow_ends rn (name, seq, loop, m) (Inr reason) m'"

inductive_cases flow_endsE: "flow_ends rn (name, seq, loop, m) r m'"

text \<open>The loop computes this relation.\<close>

lemma flow_loop_sound:
  "flow_loop rn fuel name seq loop m = Some (r, m') \<Longrightarrow>
   \<exists>st. (flow_next rn)\<^sup>*\<^sup>* (name, seq, loop, m) st \<and> flow_ends rn st r m'"
proof (induction fuel arbitrary: name seq loop m)
  case (Suc fuel)
  have here: "flow_ends rn (name, seq, loop, m) r m' \<Longrightarrow> ?case" by blast
  show ?case
  proof (cases "truthy_name name")
    case False
    with Suc.prems show ?thesis by (intro here) (auto intro: flow_ends.lost)
  next
    case True
    obtain res m1 where ex: "execute_step rn (the name) seq loop m = (res, m1)" by fastforce
    show ?thesis
    proof (cases res)
      case (Inl e)
      with Suc.prems True ex show ?thesis by (intro here) (auto intro: flow_ends.raised)
    next
      case (Inr out)
      show ?thesis
      proof (cases out)
        case (Terminal reason)
        with Suc.prems True ex Inr show ?thesis by (intro here) (auto intro: flow_ends.terminal)
      next
        case (Next name' seq')
        with Suc.prems True ex Inr have "flow_loop rn fuel name' seq' None m1 = Some (r, m')" by simp
        from Suc.IH [OF this] obtain st where
          "(flow_next rn)\<^sup>*\<^sup>* (name', seq', None, m1) st" "flow_ends rn st r m'"
          by blast
        moreover have "flow_next rn (name, seq, loop, m) (name', seq', None, m1)"
          using True ex Inr Next by (auto intro: flow_next.step)
        ultimately show ?thesis by (meson converse_rtranclp_into_rtranclp)
      qed
    qed
  qed
qed simp

lemma flow_loop_complete:
  assumes "(flow_next rn)\<^sup>*\<^sup>* (name, seq, loop, m) st" "flow_ends rn st r m'"
  shows "\<exists>fuel. flow_loop rn fuel name seq loop m = Some (r, m')"
  using assms(1)
proof (induction "(name, seq, loop, m)" arbitrary: name seq loop m rule: converse_rtranclp_induct)
  case base
  have "flow_loop rn (Suc 0) name seq loop m = Some (r, m')"
    using assms(2) base by (auto elim!: flow_ends.cases)
  then show ?case by blast
next
  case (step st1)
  obtain name1 seq1 loop1 m1 where st1: "st1 = (name1, seq1, loop1, m1)" by (cases st1)
  with step obtain fuel where fuel: "flow_loop rn fuel name1 seq1 loop1 m1 = Some (r, m')" by blast
  have "flow_loop rn (Suc fuel) name seq loop m = Some (r, m')"
    using step(1) fuel by (auto simp: st1 elim!: flow_nextE)
  then show ?case by blast
qed

text \<open>More fuel gives the same end.\<close>

lemma flow_loop_mono:
  "flow_loop rn fuel name seq loop m = Some x \<Longrightarrow> fuel \<le> fuel' \<Longrightarrow> flow_loop rn fuel' name seq loop m = Some x"
proof (induction fuel arbitrary: fuel' name seq loop m)
  case (Suc fuel)
  then obtain k where k: "fuel' = Suc k" "fuel \<le> k" by (metis Suc_le_D Suc_le_mono)
  note IH = Suc.IH [OF _ k(2)]
  obtain res m1 where "execute_step rn (the name) seq loop m = (res, m1)" by fastforce
  with Suc.prems(1) k(1) IH show ?case
    by (cases "truthy_name name"; cases res; cases "projr res") simp_all
qed simp

section \<open>Availability\<close>

definition on_path :: "'w runner \<Rightarrow> string \<Rightarrow> 'w mach \<Rightarrow> bool" where
  "on_path rn n m \<longleftrightarrow> (\<exists>A. A \<subseteq> scope m \<and>
     (if m_failures m = [] then normal_path (rn_config rn) n A else handler_path (rn_config rn) n A))"

lemma begin_step_fields [simp]:
  "m_outputs (begin_step n s m) = m_outputs m" "m_params (begin_step n s m) = m_params m"
  "m_timings (begin_step n s m) = m_timings m" "m_transitions (begin_step n s m) = m_transitions m"
  "m_failures (begin_step n s m) = m_failures m" "m_requested (begin_step n s m) = m_requested m"
  "m_invocations (begin_step n s m) = m_invocations m" "m_world (begin_step n s m) = m_world m"
  by (simp_all add: begin_step_def)

lemma step_edge_in_build:
  "s \<in> set (wc_flow w) \<Longrightarrow> e \<in> set (step_edges (step_names (wc_flow w)) w s) \<Longrightarrow> e \<in> set (build_edges w)"
  by (auto simp: build_edges_def)

lemma on_path_step:
  assumes w: "valid_flow (rn_config rn)" and run: "execute_step rn n seq loop m = (Inr (Next nxt seq'), m')"
    and t: "nxt = Some t" "t \<in> set (rn_names rn)" and on: "on_path rn n m" and once: "length (m_failures m') \<le> 1"
  shows "on_path rn t m'"
proof -
  obtain s where s: "lookup_step rn n = Some s" and eff: "step_effect rn s seq (Some t) (begin_step n seq m) m'"
    using execute_stepD [OF w run] t by (metis step_outcome.distinct(1) step_outcome.inject(2))
  have mem: "s \<in> set (wc_flow (rn_config rn))" "fs_name s = n" using lookup_stepD [OF s] by auto
  obtain kind produced where
    edge: "flow_edge_of s t kind produced \<in> set (build_edges (rn_config rn))" and
    grow: "scope m \<union> produced \<subseteq> scope m'" and
    fails: "if kind = FAILURE then (\<exists>f. m_failures m' = m_failures m @ [f]) else m_failures m' = m_failures m"
    using eff t step_edge_in_build [OF mem(1)]
    by (fastforce simp: step_effect_def goes_along_def rn_names_def split: if_splits)
  obtain A where A: "A \<subseteq> scope m"
    "if m_failures m = [] then normal_path (rn_config rn) n A else handler_path (rn_config rn) n A"
    using on by (auto simp: on_path_def)
  let ?e = "flow_edge_of s t kind produced"
  have e: "fe_source ?e = n" "fe_target ?e = t" "fe_kind ?e = kind" "fe_produced ?e = produced"
    by (simp_all add: flow_edge_of_def mem)
  have new: "A \<union> produced \<subseteq> scope m'" using A grow by blast
  show ?thesis
  proof (cases "kind = FAILURE")
    case True
    then have "m_failures m = []" "m_failures m' \<noteq> []" using fails once by auto
    moreover have "handler_path (rn_config rn) t (A \<union> produced)"
      using handler_path.fails [of "rn_config rn" n A ?e] A(2) calculation edge e True by simp
    ultimately show ?thesis using new unfolding on_path_def by (intro exI [of _ "A \<union> produced"]) simp
  next
    case False
    then have f: "m_failures m' = m_failures m" and ex: "?e \<in> set (execution_edges (rn_config rn))"
      using fails edge e by (auto simp: execution_edges_def)
    have "if m_failures m' = [] then normal_path (rn_config rn) t (A \<union> produced)
        else handler_path (rn_config rn) t (A \<union> produced)"
      using A(2) f handler_path.along [of "rn_config rn" n A ?e] path_makes.along [of _ _ n A ?e] ex e by auto
    with new show ?thesis unfolding on_path_def by blast
  qed
qed

lemma execute_step_failures:
  assumes "valid_flow (rn_config rn)" "execute_step rn n seq loop m = (Inr (Next nxt seq'), m')"
  shows "length (m_failures m) \<le> length (m_failures m')" "\<exists>t. nxt = Some t" "n \<in> set (rn_names rn)" "seq' = Suc seq"
    "m_params m' = m_params m"
proof -
  obtain s where s: "lookup_step rn n = Some s" "seq' = Suc seq" and eff: "step_effect rn s seq nxt (begin_step n seq m) m'"
    using execute_stepD [OF assms] by (metis step_outcome.distinct(1) step_outcome.inject(2))
  then show "length (m_failures m) \<le> length (m_failures m')" "\<exists>t. nxt = Some t" "seq' = Suc seq"
    "m_params m' = m_params m"
    by (auto simp: step_effect_def goes_along_def leaves_records_def split: if_splits)
  show "n \<in> set (rn_names rn)" using lookup_step_None [of rn n] s by auto
qed

lemma flow_on_path:
  assumes w: "valid_flow (rn_config rn)"
    and reach: "(flow_next rn)\<^sup>*\<^sup>* (Some (entry_name (rn_config rn)), seq0, loop0, m0) (name, seq, loop, m)"
    and start: "workflow_roots (rn_config rn) \<subseteq> scope m0" "m_failures m0 = []" "wc_flow (rn_config rn) \<noteq> []"
    and once: "length (m_failures m) \<le> 1" and n: "name = Some n" "n \<in> set (rn_names rn)"
  shows "on_path rn n m"
  using reach once n
proof (induction "(name, seq, loop, m)" arbitrary: name seq loop m n rule: rtranclp_induct)
  case base
  then have "normal_path (rn_config rn) n (workflow_roots (rn_config rn))"
    by (auto intro: path_makes.start)
  with start show ?case by (auto simp: on_path_def)
next
  case (step st)
  obtain name1 seq1 loop1 m1 where st: "st = (name1, seq1, loop1, m1)" by (cases st)
  with step(2) have ex: "truthy_name name1" "execute_step rn (the name1) seq1 loop1 m1 = (Inr (Next name seq), m)"
    by (auto elim!: flow_nextE)
  then obtain n1 where n1: "name1 = Some n1" by (cases name1) auto
  note facts = execute_step_failures [OF w ex(2)]
  have "on_path rn n1 m1"
    using step(3) [OF _ _ n1] st facts(1,3) step(4) n1 by simp
  with on_path_step [OF w _ _ step(6)] ex(2) n1 step(4,5) show ?case by simp
qed

text \<open>Every symbol a step refers to is there when the step runs, as long as at most one step has failed.\<close>

lemma references_available:
  assumes w: "valid_flow (rn_config rn)" "analyze_workflow ps (rn_config rn) = []"
    and reach: "(flow_next rn)\<^sup>*\<^sup>* (Some (entry_name (rn_config rn)), seq0, loop0, m0) (Some n, seq, loop, m)"
    and start: "workflow_roots (rn_config rn) \<subseteq> scope m0" "m_failures m0 = []"
    and once: "length (m_failures m) \<le> 1" and s: "lookup_step rn n = Some s" "\<not> fs_terminal s"
  shows "set (step_reference_roots ps s) \<subseteq> scope m"
proof -
  have mem: "s \<in> set (wc_flow (rn_config rn))" "fs_name s = n" using lookup_stepD [OF s(1)] by auto
  then have "n \<in> set (rn_names rn)" "wc_flow (rn_config rn) \<noteq> []"
    using lookup_step_None [of rn n] s by auto
  then have "on_path rn n m"
    using flow_on_path [OF w(1) reach start _ once refl] by blast
  then obtain A where "A \<subseteq> scope m" "normal_path (rn_config rn) n A \<or> handler_path (rn_config rn) n A"
    by (auto simp: on_path_def split: if_splits)
  with analyze_clean_references [OF w(2) mem(1) s(2)] mem(2) show ?thesis by blast
qed

lemma result_available:
  assumes w: "valid_flow (rn_config rn)" "analyze_workflow ps (rn_config rn) = []"
    and reach: "(flow_next rn)\<^sup>*\<^sup>* (Some (entry_name (rn_config rn)), seq0, loop0, m0) (Some n, seq, loop, m)"
    and start: "workflow_roots (rn_config rn) \<subseteq> scope m0" "m_failures m0 = []"
    and once: "length (m_failures m) \<le> 1" and s: "lookup_step rn n = Some s" "fs_terminal s" "fs_reason s = None"
    and r: "wc_result (rn_config rn) = Some r"
  shows "ref_root r \<in> scope m"
proof -
  have mem: "s \<in> set (wc_flow (rn_config rn))" "fs_name s = n" using lookup_stepD [OF s(1)] by auto
  then have "n \<in> set (rn_names rn)" "wc_flow (rn_config rn) \<noteq> []"
    using lookup_step_None [of rn n] s by auto
  then have "on_path rn n m"
    using flow_on_path [OF w(1) reach start _ once refl] by blast
  then obtain A where "A \<subseteq> scope m" "normal_path (rn_config rn) n A \<or> handler_path (rn_config rn) n A"
    by (auto simp: on_path_def split: if_splits)
  with analyze_clean_result [OF w(2) mem(1) s(2,3) _ r] mem(2) show ?thesis by blast
qed

section \<open>The end of the loop\<close>

definition descendants :: "flow_edge list \<Rightarrow> string \<Rightarrow> string set" where
  "descendants edges n = (edge_rel edges)\<^sup>+ `` {n}"

lemma descendants_targets: "descendants edges n \<subseteq> targets edges"
proof -
  have "descendants edges n \<subseteq> Range ((edge_rel edges)\<^sup>+)" unfolding descendants_def by blast
  also have "\<dots> = targets edges" unfolding trancl_range by (auto simp: edge_rel_def targets_def)
  finally show ?thesis .
qed

lemma finite_descendants: "finite (descendants edges n)"
  by (rule finite_subset [OF descendants_targets]) simp

lemma descendants_shrink:
  assumes "acyclic (edge_rel edges)" "(n, t) \<in> edge_rel edges"
  shows "Suc (card (descendants edges t)) \<le> card (descendants edges n)"
proof -
  have "descendants edges t \<subset> descendants edges n"
    using assms by (auto simp: descendants_def acyclic_def intro: trancl_into_trancl2)
  then show ?thesis using psubset_card_mono [OF finite_descendants] by (simp add: Suc_leI)
qed

lemma descendants_bound: "card (descendants (build_edges w) n) \<le> length (wc_flow w)"
proof -
  have "descendants (build_edges w) n \<subseteq> fs_name ` set (wc_flow w)"
    using descendants_targets [of "build_edges w" n] by (auto simp: targets_def dest: build_edges_ends)
  then have "card (descendants (build_edges w) n) \<le> card (fs_name ` set (wc_flow w))"
    by (intro card_mono) auto
  also have "\<dots> \<le> length (wc_flow w)"
    by (metis card_image_le card_length finite_set le_trans)
  finally show ?thesis .
qed

lemma flow_edge_taken:
  assumes w: "valid_flow (rn_config rn)" and run: "execute_step rn n seq loop m = (Inr (Next (Some t) seq'), m')"
    and t: "t \<in> set (rn_names rn)"
  shows "(n, t) \<in> edge_rel (build_edges (rn_config rn))"
proof -
  obtain s where s: "lookup_step rn n = Some s" and eff: "step_effect rn s seq (Some t) (begin_step n seq m) m'"
    using execute_stepD [OF w run] by (metis step_outcome.distinct(1) step_outcome.inject(2))
  have mem: "s \<in> set (wc_flow (rn_config rn))" "fs_name s = n" using lookup_stepD [OF s] by auto
  obtain kind produced where
    "flow_edge_of s t kind produced \<in> set (build_edges (rn_config rn))"
    using eff t step_edge_in_build [OF mem(1)]
    by (fastforce simp: step_effect_def goes_along_def rn_names_def split: if_splits)
  from edge_relI [OF this] show ?thesis by (simp add: flow_edge_of_def mem)
qed

lemma flow_loop_unknown: "n \<notin> set (rn_names rn) \<Longrightarrow> flow_loop rn (Suc fuel) (Some n) seq loop m \<noteq> None"
  using lookup_step_None [of rn n] by (auto simp: execute_step_def bind_eff_def modify_def throw_def)

lemma flow_loop_ends:
  assumes w: "valid_flow (rn_config rn)" "acyclic (edge_rel (build_edges (rn_config rn)))"
  shows "card (descendants (build_edges (rn_config rn)) n) + 2 \<le> fuel \<Longrightarrow> flow_loop rn fuel (Some n) seq loop m \<noteq> None"
proof (induction fuel arbitrary: n seq loop m)
  case (Suc fuel)
  show ?case
  proof (cases "\<exists>nxt seq' m'. execute_step rn n seq loop m = (Inr (Next nxt seq'), m')")
    case False
    then show ?thesis by (auto split: sum.splits prod.splits step_outcome.splits)
  next
    case True
    then obtain nxt seq' m' where run: "execute_step rn n seq loop m = (Inr (Next nxt seq'), m')" by blast
    obtain t where t: "nxt = Some t" using execute_step_failures(2) [OF w(1) run] by blast
    have "flow_loop rn fuel (Some t) seq' None m' \<noteq> None"
    proof (cases "t \<in> set (rn_names rn)")
      case True
      with flow_edge_taken [OF w(1) run [unfolded t]] have "(n, t) \<in> edge_rel (build_edges (rn_config rn))" by blast
      from descendants_shrink [OF w(2) this] Suc show ?thesis by simp
    next
      case False
      from Suc.prems obtain k where "fuel = Suc k" by (cases fuel) auto
      with flow_loop_unknown [OF False] show ?thesis by blast
    qed
    with run t show ?thesis by simp
  qed
qed simp

lemma flow_loop_within:
  assumes "valid_flow (rn_config rn)" "find_cycle (step_names (wc_flow (rn_config rn))) (build_edges (rn_config rn)) = None"
    and "length (wc_flow (rn_config rn)) + 2 \<le> fuel"
  shows "flow_loop rn fuel name seq loop m \<noteq> None"
proof (cases name)
  case None
  obtain k where "fuel = Suc k" using assms(3) by (cases fuel) auto
  with None show ?thesis by simp
next
  case (Some n)
  have "acyclic (edge_rel (build_edges (rn_config rn)))"
    using assms(2) find_cycle_None [of "build_edges (rn_config rn)" "step_names (wc_flow (rn_config rn))"]
      build_edges_ends by (force simp: set_step_names)
  moreover have "card (descendants (build_edges (rn_config rn)) n) + 2 \<le> fuel"
    using assms(3) descendants_bound [of "rn_config rn" n] by simp
  ultimately show ?thesis unfolding Some by (rule flow_loop_ends [OF assms(1)])
qed

section \<open>The history of a run\<close>

text \<open>Every entry carries the number of a step already begun; transitions are no more than steps.\<close>

definition history_ok :: "nat \<Rightarrow> 'w mach \<Rightarrow> bool" where
  "history_ok seq m \<longleftrightarrow> length (m_transitions m) \<le> seq \<and> distinct (map fst (m_timings m)) \<and>
     (\<forall>name entry. map_of (m_timings m) name = Some entry \<longrightarrow>
        (\<exists>k < seq. map_of entry ''seq'' = Some (JInt (int k))))"

lemma history_step:
  assumes w: "valid_flow (rn_config rn)" and run: "execute_step rn n seq loop m = (Inr (Next nxt seq'), m')"
    and h: "history_ok seq m"
  shows "history_ok seq' m'"
proof -
  obtain s where s: "seq' = Suc seq" and eff: "step_effect rn s seq nxt (begin_step n seq m) m'"
    using execute_stepD [OF w run] by (metis step_outcome.distinct(1) step_outcome.inject(2))
  then obtain entry ts where
    t: "m_timings m' = dict_set (fs_name s) entry (m_timings m)" "map_of entry ''seq'' = Some (JInt (int seq))"
    and ts: "m_transitions m' = m_transitions m @ ts" "length ts \<le> 1"
    by (auto simp: step_effect_def leaves_records_def)
  have "\<exists>k < Suc seq. map_of e ''seq'' = Some (JInt (int k))" if "map_of (m_timings m') name = Some e" for name e
    using that h t less_Suc_eq by (fastforce simp: dict_simps history_ok_def split: if_splits)
  with s t ts h show ?thesis by (auto simp: history_ok_def dict_simps)
qed

lemma flow_history:
  assumes w: "valid_flow (rn_config rn)"
    and reach: "((flow_next rn) ^^ k) (name0, seq0, loop0, m0) (name, seq, loop, m)" and h: "history_ok seq0 m0"
  shows "seq = seq0 + k \<and> history_ok seq m \<and> m_params m = m_params m0"
  using reach
proof (induction k arbitrary: name seq loop m)
  case 0
  with h show ?case by simp
next
  case (Suc k)
  then obtain st where reach1: "((flow_next rn) ^^ k) (name0, seq0, loop0, m0) st" "flow_next rn st (name, seq, loop, m)"
    by auto
  obtain name1 seq1 loop1 m1 where st: "st = (name1, seq1, loop1, m1)" by (cases st)
  with Suc.IH reach1(1) have IH: "seq1 = seq0 + k" "history_ok seq1 m1" "m_params m1 = m_params m0" by auto
  have ex: "execute_step rn (the name1) seq1 loop1 m1 = (Inr (Next name seq), m)"
    using reach1(2) st by (auto elim!: flow_nextE)
  show ?case using execute_step_failures(4,5) [OF w ex] history_step [OF w ex IH(2)] IH by simp
qed

end
