(* ===== verification/JF_Continue.thy ===== *)
theory JF_Continue
  imports JF_Progress
begin

text \<open>
  Fresh histories (\<open>_enforce_checkpoint\<close>, \<open>_build_checkpoint\<close>, \<open>_run_state\<close> and the continuations of
  \<open>_run_iteration\<close> and \<open>_run_until\<close>): the checkpoint a run requests is the state it has, the flow
  resumed from it goes on as the interrupted flow would have, and a loop resumed from the checkpoint it
  requested gives what the loop without interruption gives.
\<close>

section \<open>Requests\<close>

lemma bind_eff_Inr: "c m = (Inr a, m1) \<Longrightarrow> bind_eff c f m = f a m1"
  by (simp add: bind_eff_def)

lemma bind_eff_pure: "bind_eff (\<lambda>m. (r m, m)) f m = (case r m of Inl e \<Rightarrow> (Inl e, m) | Inr a \<Rightarrow> f a m)"
  by (simp add: bind_eff_def split: sum.split)

lemma bind_eff_lift: "bind_eff (lift_result r) f m = (case r of Inl e \<Rightarrow> (Inl e, m) | Inr a \<Rightarrow> f a m)"
  by (simp add: bind_eff_def lift_result_def split: sum.split)

lemma enforce_checkpoint_cases:
  "enforce_checkpoint rn ck m = (Inr u, m') \<Longrightarrow> m' = m"
  "enforce_checkpoint rn ck m = (Inl e, m') \<Longrightarrow>
     m' = m \<or> (e = raise_kind FlowContinuation \<and> m' = m\<lparr>m_requested := Some ck\<rparr>)"
  by (auto simp: enforce_checkpoint_def bind_eff_def lift_result_def gets_def modify_def ret_def throw_def
      split: sum.splits if_splits)

lemma checkpoint_during_loop_cases:
  "checkpoint_during_loop rn name seq loop m = (Inr u, m') \<Longrightarrow> m' = m"
  "checkpoint_during_loop rn name seq loop m = (Inl e, m') \<Longrightarrow>
     m' = m \<or> (e = raise_kind FlowContinuation \<and> rn_bounded rn \<and>
       m' = m\<lparr>m_requested := Some (build_checkpoint m name seq (Some loop))\<rparr>)"
  using enforce_checkpoint_cases [of rn "build_checkpoint m name seq (Some loop)" m]
  by (auto simp: checkpoint_during_loop_def bind_eff_def gets_def ret_def split: if_splits)

lemma checkpoint_after_step_cases:
  "checkpoint_after_step rn (Some t) seq m = (Inr u, m') \<Longrightarrow> m' = m"
  "checkpoint_after_step rn (Some t) seq m = (Inl e, m') \<Longrightarrow>
     m' = m \<or> (e = raise_kind FlowContinuation \<and> rn_bounded rn \<and>
       m' = m\<lparr>m_requested := Some (build_checkpoint m t seq None)\<rparr>)"
  using enforce_checkpoint_cases [of rn "build_checkpoint m t seq None" m]
  by (auto simp: checkpoint_after_step_def bind_eff_def gets_def ret_def split: if_splits)

section \<open>The resumed flow\<close>

definition same_correlation :: "'w runner \<Rightarrow> string \<Rightarrow> 'w mach \<Rightarrow> bool" where
  "same_correlation rn request_id m \<longleftrightarrow>
     m_correlation m = correlation_identity_of (wc_workflow (rn_config rn)) (Some request_id) (rn_identity rn)"

lemma begin_restored:
  assumes "same_correlation rn request_id m"
  shows "begin_step t seq (restore_state rn request_id (build_checkpoint m t seq loop) (m_world m))
    = begin_step t seq (m\<lparr>m_requested := None\<rparr>)"
  using assms by (simp add: same_correlation_def begin_step_def restore_state_def build_checkpoint_def)

lemma execute_step_begin:
  "begin_step t seq m1 = begin_step t seq m2 \<Longrightarrow> execute_step rn t seq loop m1 = execute_step rn t seq loop m2"
  by (simp add: execute_step_def bind_eff_def modify_def)

lemma flow_loop_resumed:
  assumes "same_correlation rn request_id m" "t \<noteq> []"
  shows "flow_loop rn (Suc fuel) (Some t) seq loop
      (restore_state rn request_id (build_checkpoint m t seq loop) (m_world m))
    = flow_loop rn (Suc fuel) (Some t) seq loop (m\<lparr>m_requested := None\<rparr>)"
  using execute_step_begin [OF begin_restored [OF assms(1)], of rn t seq loop loop] assms(2) by simp

section \<open>Resumed loops\<close>

text \<open>The runner that never asks for a fresh history.\<close>

definition unbounded :: "'w runner \<Rightarrow> 'w runner" where
  "unbounded rn = rn\<lparr>rn_bounded := False\<rparr>"

lemma unbounded_fields [simp]:
  "rn_config (unbounded rn) = rn_config rn" "rn_services (unbounded rn) = rn_services rn"
  "rn_limits (unbounded rn) = rn_limits rn" "rn_executor (unbounded rn) = rn_executor rn"
  "rn_env (unbounded rn) = rn_env rn" "rn_identity (unbounded rn) = rn_identity rn" "\<not> rn_bounded (unbounded rn)"
  by (simp_all add: unbounded_def)

lemma invoke_unbounded: "invoke (unbounded rn) = invoke rn"
  unfolding fun_eq_iff invoke_def count_invocation_def invocation_limit_error_def invoke_target_def
    invoke_child_def invoke_service_def cache_directive_for_def normalize_value_def interpolate_def
    unbounded_fields
  by (intro allI refl)

lemma entries_unbounded: "append_iteration_results (unbounded rn) = append_iteration_results rn"
proof -
  have "iteration_entry (unbounded rn) name strategy ko = iteration_entry rn name strategy ko" for name strategy ko
    by (induction rn name strategy ko rule: iteration_entry.induct) simp_all
  then show ?thesis by (simp add: append_iteration_results_def fun_eq_iff)
qed

lemma checkpoint_unbounded: "checkpoint_during_loop (unbounded rn) name seq loop = ret ()"
  by (simp add: checkpoint_during_loop_def)

lemma flow_condition_unbounded: "flow_condition (unbounded rn) = flow_condition rn"
  unfolding fun_eq_iff flow_condition_def as_flow_condition_def condition_holds_def unbounded_fields
  by (intro allI refl)

lemma sleep_unbounded: "sleep_between (unbounded rn) = sleep_between rn"
  unfolding fun_eq_iff sleep_between_def unbounded_fields by (intro allI refl)

text \<open>What a loop knows: the keys of the results are those of the items done, no more have failed.\<close>

definition loop_progress ::
    "(iteration_key \<times> json) list \<Rightarrow> iteration_result list \<Rightarrow> nat \<Rightarrow> nat \<Rightarrow> bool" where
  "loop_progress items processed offset failed \<longleftrightarrow>
     continuation_fits processed offset items \<and> failed \<le> offset"

lemma loop_progress_validates:
  "loop_progress items (ic_results c) (ic_next_offset c) (ic_failed c) \<Longrightarrow> validate_progress c"
  by (simp add: loop_progress_def continuation_fits_def validate_progress_def)

lemma entry_key [simp]: "result_key (iteration_entry rn name strategy ko) = fst ko"
  by (induction rn name strategy ko rule: iteration_entry.induct) auto

lemma loop_progress_append:
  assumes "loop_progress items processed offset failed" "map fst outcomes = map fst (take n (drop offset items))"
    and "append_iteration_results rn name strategy outcomes processed = (processed', fresh)" "n \<le> length items - offset"
  shows "loop_progress items processed' (offset + n) (failed + fresh)"
proof -
  have len: "length outcomes = n" using arg_cong [OF assms(2), of length] assms(4) by simp
  have p: "length processed = offset" "offset \<le> length items" "map result_key processed = map fst (take offset items)"
    using assms(1) by (auto simp: loop_progress_def continuation_fits_def)
  have new: "processed' = processed @ map (iteration_entry rn name strategy) outcomes"
    "fresh = length (filter (\<lambda>ko. \<not> is_ok (snd ko)) outcomes)"
    using assms(3) by (auto simp: append_iteration_results_def)
  have "fresh \<le> n" using new(2) len length_filter_le by metis
  moreover have "map result_key processed' = map fst (take (offset + n) items)"
    using p(3) assms(2) by (simp add: new take_add comp_def)
  ultimately show ?thesis
    using assms(1,4) p len new(1) by (auto simp: loop_progress_def continuation_fits_def)
qed

text \<open>
  A sequential iteration that asks for a fresh history: the checkpoint is the state it leaves, its
  progress fits the items, and from there the iteration ends as it would have without the checkpoint.
\<close>

lemma sequential_requests:
  assumes "sequential_loop rn step sd input globals seq started strategy offset items processed failed m = (Inl e, m')"
    and "m_requested m = None" "m_requested m' = Some ck"
    and "loop_progress all processed offset failed" "items = drop offset all"
  shows "\<exists>processed' offset' failed'.
    ck = build_checkpoint m' (fs_name step) seq (Some (iteration_state step started processed' offset' failed')) \<and>
    e = raise_kind FlowContinuation \<and> loop_progress all processed' offset' failed' \<and>
    sequential_loop (unbounded rn) step sd input globals seq started strategy offset items processed failed m =
      sequential_loop (unbounded rn) step sd input globals seq started strategy offset' (drop offset' all)
        processed' failed' (m'\<lparr>m_requested := None\<rparr>)"
  using assms
proof (induction items arbitrary: offset processed failed m)
  case Nil
  then show ?case by (simp add: ret_def)
next
  case (Cons ki items)
  obtain key item where ki: "ki = (key, item)" by (cases ki)
  let ?call = "outcome_of strategy (data_of (invoke rn sd (item_name (fs_name step) key)
         (item_input step input item) (item_globals step globals item)))"
  obtain res m1 where call: "?call m = (res, m1)" by fastforce
  have same: "m_requested m1 = None"
    using unrequested.staysD [OF unrequested.stays_outcome_of [OF unrequested.stays_data_of [OF unrequested.stays_invoke]] call]
      Cons.prems(2) by simp
  show ?case
  proof (cases res)
    case (Inl e1)
    with Cons.prems(1,3) call same show ?thesis by (simp add: ki bind_eff_def)
  next
    case (Inr outcome)
    obtain processed1 fresh where app: "append_iteration_results rn (fs_name step) strategy [(key, outcome)] processed = (processed1, fresh)"
      by fastforce
    let ?st = "iteration_state step started processed1 (Suc offset) (failed + fresh)"
    note split = Cons.prems(5) [symmetric]
    have head: "take 1 (drop offset all) = [ki]" by (simp add: split)
    have "length all - offset = Suc (length items)" using arg_cong [OF split, of length] by simp
    then have len: "Suc offset \<le> length all" by simp
    have tail: "drop (Suc offset) all = items"
      using arg_cong [OF split, of tl] by (simp add: drop_Suc tl_drop)
    have prog: "loop_progress all processed1 (Suc offset) (failed + fresh)"
      using loop_progress_append [OF Cons.prems(4) _ app, of 1] head len by (simp add: ki)
    have rest: "bind_eff (checkpoint_during_loop rn (fs_name step) seq ?st) (\<lambda>_.
        sequential_loop rn step sd input globals seq started strategy (Suc offset) items processed1 (failed + fresh)) m1
        = (Inl e, m')"
      using Cons.prems(1) call Inr app by (simp add: ki bind_eff_def)
    have free: "sequential_loop (unbounded rn) step sd input globals seq started strategy offset (ki # items) processed failed m
        = sequential_loop (unbounded rn) step sd input globals seq started strategy (Suc offset) items processed1 (failed + fresh) m1"
      using call Inr app
      by (simp add: ki bind_eff_def invoke_unbounded entries_unbounded checkpoint_unbounded ret_def)
    show ?thesis
    proof (cases "checkpoint_during_loop rn (fs_name step) seq ?st m1")
      case (Pair r m2)
      show ?thesis
      proof (cases r)
        case (Inl e2)
        with rest Pair have e: "e = e2" "m' = m2" by (auto simp: bind_eff_def)
        with checkpoint_during_loop_cases(2) [OF Pair [unfolded Inl]] same Cons.prems(3)
        have req: "e = raise_kind FlowContinuation"
          "m' = m1\<lparr>m_requested := Some (build_checkpoint m1 (fs_name step) seq (Some ?st))\<rparr>"
          by auto
        have "ck = build_checkpoint m' (fs_name step) seq (Some ?st)"
          using req(2) Cons.prems(3) by (simp add: build_checkpoint_def)
        moreover have "m'\<lparr>m_requested := None\<rparr> = m1" using req(2) same by simp
        ultimately show ?thesis unfolding free using req(1) prog tail by (intro exI conjI) auto
      next
        case (Inr u)
        with checkpoint_during_loop_cases(1) Pair have "m2 = m1" by blast
        with rest Pair Inr
        have "sequential_loop rn step sd input globals seq started strategy (Suc offset) items processed1 (failed + fresh) m1
          = (Inl e, m')"
          by (simp add: bind_eff_def)
        from Cons.IH [OF this same Cons.prems(3) prog tail [symmetric]] show ?thesis unfolding free .
      qed
    qed
  qed
qed

text \<open>The same for the attempts of an until loop.\<close>

lemma until_requests:
  assumes "until_loop rn step sd cond input globals seq started attempts remaining attempt result m = (Inl e, m')"
    and "m_requested m = None" "m_requested m' = Some ck" "attempts + 1 = remaining + attempt" "1 \<le> attempt"
  shows "\<exists>done last.
    ck = build_checkpoint m' (fs_name step) seq (Some (UntilLoop \<lparr>uc_step_name = fs_name step,
      uc_started_at_epoch = started, uc_attempts_completed = done, uc_last_result = last\<rparr>)) \<and>
    e = raise_kind FlowContinuation \<and> 1 \<le> done \<and> done \<le> attempts \<and>
    until_loop (unbounded rn) step sd cond input globals seq started attempts remaining attempt result m =
      until_loop (unbounded rn) step sd cond input globals seq started attempts (attempts - done) (Suc done) last
        (m'\<lparr>m_requested := None\<rparr>)"
  using assms
proof (induction remaining arbitrary: attempt result m)
  case 0
  then show ?case by (simp add: ret_def)
next
  case (Suc remaining)
  obtain r1 m1 where call: "invoke rn sd (until_name (fs_name step) attempt) input globals m = (r1, m1)" by fastforce
  have same1: "m_requested m1 = None"
    using unrequested.staysD [OF unrequested.stays_invoke call] Suc.prems(2) by simp
  show ?case
  proof (cases r1)
    case (Inl e1)
    with Suc.prems(1,3) call same1 show ?thesis by (simp add: bind_eff_def)
  next
    case (Inr dc)
    obtain data c where dc: "dc = (data, c)" by (cases dc)
    obtain r2 m2 where cond: "flow_condition rn cond data m1 = (r2, m2)" by fastforce
    have same2: "m_requested m2 = None"
      using unrequested.staysD [OF unrequested.stays_flow_condition cond] same1 by simp
    show ?thesis
    proof (cases "r2 = Inr False")
      case False
      with Suc.prems(1,3) call Inr dc cond same2 show ?thesis
        by (cases r2) (auto simp: bind_eff_def ret_def split: if_splits)
    next
      case True
      obtain r3 m3 where sleep: "sleep_between rn step attempt attempts m2 = (r3, m3)" by fastforce
      have same3: "m_requested m3 = None"
        using unrequested.staysD [OF unrequested.stays_sleep_between sleep] same2 by simp
      show ?thesis
      proof (cases r3)
        case (Inl e3)
        with Suc.prems(1,3) call Inr dc cond True sleep same3 show ?thesis by (auto simp: bind_eff_def)
      next
        case (Inr u)
        let ?st = "UntilLoop \<lparr>uc_step_name = fs_name step, uc_started_at_epoch = started,
          uc_attempts_completed = attempt, uc_last_result = data\<rparr>"
        have rest: "bind_eff (checkpoint_during_loop rn (fs_name step) seq ?st) (\<lambda>_.
            until_loop rn step sd cond input globals seq started attempts remaining (Suc attempt) data) m3 = (Inl e, m')"
          using Suc.prems(1) call \<open>r1 = Inr dc\<close> dc cond True sleep Inr by (simp add: bind_eff_def)
        have free: "until_loop (unbounded rn) step sd cond input globals seq started attempts (Suc remaining) attempt result m
            = until_loop (unbounded rn) step sd cond input globals seq started attempts remaining (Suc attempt) data m3"
          using call \<open>r1 = Inr dc\<close> dc cond True sleep Inr
          by (simp add: bind_eff_def invoke_unbounded flow_condition_unbounded sleep_unbounded checkpoint_unbounded ret_def)
        obtain r4 m4 where ck: "checkpoint_during_loop rn (fs_name step) seq ?st m3 = (r4, m4)" by fastforce
        show ?thesis
        proof (cases r4)
          case (Inl e4)
          with rest ck have "e = e4" "m' = m4" by (auto simp: bind_eff_def)
          with checkpoint_during_loop_cases(2) [OF ck [unfolded Inl]] same3 Suc.prems(3)
          have req: "e = raise_kind FlowContinuation"
            "m' = m3\<lparr>m_requested := Some (build_checkpoint m3 (fs_name step) seq (Some ?st))\<rparr>"
            by auto
          have "ck = build_checkpoint m' (fs_name step) seq (Some ?st)"
            using req(2) Suc.prems(3) by (simp add: build_checkpoint_def)
          moreover have "m'\<lparr>m_requested := None\<rparr> = m3" using req(2) same3 by simp
          moreover have "attempts - attempt = remaining" using Suc.prems(4) by simp
          ultimately show ?thesis unfolding free using req(1) Suc.prems(4,5)
            by (intro exI [of _ attempt] exI [of _ data]) simp
        next
          case (Inr u')
          with checkpoint_during_loop_cases(1) ck have "m4 = m3" by blast
          with rest ck Inr
          have "until_loop rn step sd cond input globals seq started attempts remaining (Suc attempt) data m3 = (Inl e, m')"
            by (simp add: bind_eff_def)
          from Suc.IH [OF this same3 Suc.prems(3)] Suc.prems(4,5) show ?thesis unfolding free by simp
        qed
      qed
    qed
  qed
qed

text \<open>A parallel iteration asks for a fresh history between two chunks.\<close>

lemma run_chunk_keys:
  assumes "run_chunk rn slots strategy task chunk m = (Inr outcomes, m')"
  shows "map fst outcomes = map fst chunk"
proof -
  obtain ended where "outcomes = map (\<lambda>i. (fst (chunk ! i), take_outcome ended i)) [0..<length chunk]"
    using assms by (auto simp: run_chunk_def bind_eff_eq_Inr ret_def)
  then show ?thesis by (intro nth_equalityI) auto
qed

lemma parallel_requests:
  assumes "parallel_loop rn step slots c task seq started strategy offset items processed failed m = (Inl e, m')"
    and calls: "\<And>x. unrequested.stays (task x)"
    and "m_requested m = None" "m_requested m' = Some ck"
    and "loop_progress all processed offset failed" "items = drop offset all"
  shows "\<exists>processed' offset' failed'.
    ck = build_checkpoint m' (fs_name step) seq (Some (iteration_state step started processed' offset' failed')) \<and>
    e = raise_kind FlowContinuation \<and> loop_progress all processed' offset' failed'"
  using assms(1,3-)
proof (induction "length items" arbitrary: offset items processed failed m rule: less_induct)
  case less
  show ?case
  proof (cases items)
    case Nil
    with less.prems(1) show ?thesis by (simp add: ret_def)
  next
    case (Cons x xs)
    let ?c = "max 1 c"
    let ?chunk = "take ?c items"
    let ?n = "length ?chunk"
    obtain r1 m1 where ch: "run_chunk rn slots strategy task ?chunk m = (r1, m1)" by fastforce
    have same: "m_requested m1 = None"
      using unrequested.staysD [OF unrequested.stays_run_chunk [OF calls] ch] less.prems(2) by simp
    show ?thesis
    proof (cases r1)
      case (Inl e1)
      with less.prems(1,3) ch same Cons show ?thesis by (simp add: bind_eff_def)
    next
      case (Inr outcomes)
      obtain processed1 fresh where app: "append_iteration_results rn (fs_name step) strategy outcomes processed = (processed1, fresh)"
        by fastforce
      let ?st = "iteration_state step started processed1 (offset + ?n) (failed + fresh)"
      have n: "?n \<le> length all - offset" "?chunk = take ?n (drop offset all)"
        using less.prems(5) by (auto simp: min_def)
      have "map fst outcomes = map fst (take ?n (drop offset all))"
        using run_chunk_keys [OF ch [unfolded Inr]] n(2) by metis
      note prog = loop_progress_append [OF less.prems(4) this app n(1)]
      have tail: "drop ?c items = drop (offset + ?n) all"
        using less.prems(5) by (cases "length items \<le> ?c") (auto simp: min_def add.commute)
      have rest: "bind_eff (checkpoint_during_loop rn (fs_name step) seq ?st) (\<lambda>_.
          parallel_loop rn step slots c task seq started strategy (offset + ?n) (drop ?c items) processed1 (failed + fresh)) m1
          = (Inl e, m')"
        using less.prems(1) unfolding Cons parallel_loop.simps bind_eff_Inr [of "run_chunk rn slots strategy task (take ?c (x # xs))", OF ch [unfolded Cons Inr]] app prod.case .
      obtain r2 m2 where ck: "checkpoint_during_loop rn (fs_name step) seq ?st m1 = (r2, m2)" by fastforce
      show ?thesis
      proof (cases r2)
        case (Inl e2)
        with rest ck have "e = e2" "m' = m2" by (auto simp: bind_eff_def)
        with checkpoint_during_loop_cases(2) [OF ck [unfolded Inl]] same less.prems(3)
        have req: "e = raise_kind FlowContinuation"
          "m' = m1\<lparr>m_requested := Some (build_checkpoint m1 (fs_name step) seq (Some ?st))\<rparr>"
          by auto
        then have "ck = build_checkpoint m' (fs_name step) seq (Some ?st)"
          using less.prems(3) by (simp add: build_checkpoint_def)
        with req(1) prog show ?thesis by (intro exI conjI) auto
      next
        case (Inr u)
        with checkpoint_during_loop_cases(1) ck have "m2 = m1" by blast
        with rest ck Inr
        have "parallel_loop rn step slots c task seq started strategy (offset + ?n) (drop ?c items) processed1 (failed + fresh) m1
          = (Inl e, m')"
          by (simp add: bind_eff_def)
        then show ?thesis
          by (intro less.hyps [OF _ _ same less.prems(3) prog tail]) (auto simp: Cons)
      qed
    qed
  qed
qed

lemma stays_item_unrequested: "unrequested.stays (run_item rn step sd input globals ki)"
  by (rule unrequested.stays_run_item)

section \<open>A whole iteration\<close>

text \<open>The part of an iteration that checks its items, and the part that runs them.\<close>

definition iteration_loop ::
    "'w runner \<Rightarrow> flow_step \<Rightarrow> step_definition \<Rightarrow> json \<Rightarrow> json dict \<Rightarrow> nat \<Rightarrow> rat \<Rightarrow>
     (iteration_key \<times> json) list \<Rightarrow> iteration_result list \<Rightarrow> nat \<Rightarrow> nat \<Rightarrow> ('w, iteration_result list \<times> nat) eff" where
  "iteration_loop rn step sd input globals seq started items processed next_offset failed =
     (case fs_max_concurrency step of
        Some slots \<Rightarrow>
          if fs_parallel step
          then parallel_loop rn step slots (chunk_size rn (length items)) (run_item rn step sd input globals)
                 seq started (fail_strategy step) next_offset (drop next_offset items) processed failed
          else sequential_loop rn step sd input globals seq started (fail_strategy step) next_offset
                 (drop next_offset items) processed failed
      | None \<Rightarrow> sequential_loop rn step sd input globals seq started (fail_strategy step) next_offset
                 (drop next_offset items) processed failed)"

definition iteration_admitted ::
    "'w runner \<Rightarrow> flow_step \<Rightarrow> reference_path \<Rightarrow> step_definition \<Rightarrow> json \<Rightarrow> 'w mach \<Rightarrow>
     exn + (iteration_key \<times> json) list \<times> bool" where
  "iteration_admitted rn step ref sd input m =
     (if sd_cache sd \<noteq> None then Inl (flow_error UNSAFE_LOOP_CACHE)
      else if fs_parallel step \<and> fs_max_concurrency step = None then Inl (flow_error INVARIANT_VIOLATION)
      else bind_result (case fs_max_concurrency step of
           Some n \<Rightarrow> if fs_parallel step
             then enforce_limit n (nat (rl_parallelism (rn_limits rn))) PARALLELISM
                    (''steps.'' @ fs_name step @ ''.max_concurrency'')
             else Inr ()
         | None \<Rightarrow> Inr ()) (\<lambda>_.
      bind_result (resolve_iteration_items rn ref input m) (\<lambda>(items, is_dict).
      bind_result (enforce_limit (length items) (nat (rl_fanout_items (rn_limits rn))) FANOUT_ITEMS
         (''steps.'' @ fs_name step @ ''.for_each'')) (\<lambda>_. Inr (items, is_dict)))))"

lemma run_iteration_unfold:
  "run_iteration rn step ref sd input globals seq started continuation m =
     (let processed = (case continuation of Some c \<Rightarrow> ic_results c | None \<Rightarrow> []);
          failed = (case continuation of Some c \<Rightarrow> ic_failed c | None \<Rightarrow> 0);
          next_offset = (case continuation of Some c \<Rightarrow> ic_next_offset c | None \<Rightarrow> 0)
      in case iteration_admitted rn step ref sd input m of
           Inl e \<Rightarrow> (Inl e, m)
         | Inr (items, is_dict) \<Rightarrow>
             if \<not> continuation_fits processed next_offset items then (Inl (flow_error INVARIANT_VIOLATION), m)
             else bind_eff (iteration_loop rn step sd input globals seq started items processed next_offset failed)
               (\<lambda>(processed', failed'). ret (iteration_value is_dict processed', length items, failed')) m)"
proof (cases "sd_cache sd \<noteq> None \<or> (fs_parallel step \<and> fs_max_concurrency step = None)")
  case True
  then show ?thesis
    by (auto simp: run_iteration_def iteration_admitted_def reject_loop_cache_def bind_eff_def ret_def throw_def Let_def)
next
  case False
  let ?slots = "case fs_max_concurrency step of
      Some n \<Rightarrow> if fs_parallel step
        then enforce_limit n (nat (rl_parallelism (rn_limits rn))) PARALLELISM
               (''steps.'' @ fs_name step @ ''.max_concurrency'')
        else Inr ()
    | None \<Rightarrow> Inr ()"
  have cache: "bind_eff (reject_loop_cache sd) f m = f () m" for f :: "unit \<Rightarrow> ('a, json \<times> nat \<times> nat) eff"
    using False by (simp add: reject_loop_cache_def bind_eff_def ret_def)
  have guard: "(if fs_parallel step \<and> fs_max_concurrency step = None then x else y) = y" for x y :: "('a, json \<times> nat \<times> nat) eff"
    using False by auto
  note unfolded = run_iteration_def cache guard bind_eff_lift bind_eff_pure iteration_admitted_def iteration_loop_def Let_def
  show ?thesis
  proof (cases ?slots)
    case (Inl e)
    with False show ?thesis unfolding unfolded by auto
  next
    case (Inr u)
    show ?thesis
    proof (cases "resolve_iteration_items rn ref input m")
      case (Inl e)
      with False Inr show ?thesis unfolding unfolded by auto
    next
      case (Inr r)
      obtain items is_dict where r: "r = (items, is_dict)" by (cases r)
      show ?thesis
      proof (cases "enforce_limit (length items) (nat (rl_fanout_items (rn_limits rn))) FANOUT_ITEMS
         (''steps.'' @ fs_name step @ ''.for_each'')")
        case (Inl e)
        with False Inr \<open>?slots = Inr u\<close> r show ?thesis unfolding unfolded by auto
      next
        case (Inr u')
        have adm: "iteration_admitted rn step ref sd input m = Inr (items, is_dict)"
          unfolding iteration_admitted_def \<open>?slots = Inr u\<close> \<open>resolve_iteration_items rn ref input m = Inr r\<close> r
            Inr bind_result_Inr prod.case
          using False by auto
        show ?thesis
          unfolding adm unfolding run_iteration_def cache guard bind_eff_lift bind_eff_pure \<open>?slots = Inr u\<close>
            \<open>resolve_iteration_items rn ref input m = Inr r\<close> r Inr sum.case prod.case iteration_loop_def Let_def
          by (simp add: throw_def)
      qed
    qed
  qed
qed

lemma iteration_requests:
  assumes run: "run_iteration rn step ref sd input globals seq started continuation m = (Inl e, m')"
    and req: "m_requested m = None" "m_requested m' = Some ck"
    and cont: "\<And>c. continuation = Some c \<Longrightarrow> ic_failed c \<le> ic_next_offset c"
  obtains c items is_dict where
    "ck = build_checkpoint m' (fs_name step) seq (Some (IterationLoop c))" "e = raise_kind FlowContinuation"
    "ic_step_name c = fs_name step" "ic_started_at_epoch c = started"
    "iteration_admitted rn step ref sd input m = Inr (items, is_dict)"
    "loop_progress items (ic_results c) (ic_next_offset c) (ic_failed c)"
    "\<not> fs_parallel step \<Longrightarrow>
       run_iteration (unbounded rn) step ref sd input globals seq started continuation m =
       run_iteration (unbounded rn) step ref sd input globals seq started (Some c) (m'\<lparr>m_requested := None\<rparr>)"
proof -
  let ?processed = "case continuation of Some c \<Rightarrow> ic_results c | None \<Rightarrow> []"
  let ?failed = "case continuation of Some c \<Rightarrow> ic_failed c | None \<Rightarrow> 0"
  let ?offset = "case continuation of Some c \<Rightarrow> ic_next_offset c | None \<Rightarrow> 0"
  obtain items is_dict where adm: "iteration_admitted rn step ref sd input m = Inr (items, is_dict)"
    using run req by (cases "iteration_admitted rn step ref sd input m") (auto simp: run_iteration_unfold Let_def)
  have fits: "continuation_fits ?processed ?offset items"
    using run req adm by (auto simp: run_iteration_unfold Let_def split: if_splits)
  have prog: "loop_progress items ?processed ?offset ?failed"
    using fits cont by (auto simp: loop_progress_def split: option.split)
  have loop: "iteration_loop rn step sd input globals seq started items ?processed ?offset ?failed m = (Inl e, m')"
    using run adm fits by (auto simp: run_iteration_unfold Let_def bind_eff_def ret_def split: sum.splits prod.splits)
  have "same_run m m'" by (rule frame.staysD [OF frame.stays_run_iteration run])
  note same = same_run_fields [OF this]
  have adm': "iteration_admitted (unbounded rn) step ref sd input x = iteration_admitted rn step ref sd input x" for x
    unfolding iteration_admitted_def resolve_iteration_items_def unbounded_fields ..
  have adm2: "iteration_admitted rn step ref sd input (m'\<lparr>m_requested := None\<rparr>) = iteration_admitted rn step ref sd input m"
    by (simp add: iteration_admitted_def resolve_iteration_items_def same)
  show ?thesis
  proof (cases "fs_parallel step")
    case True
    then obtain slots where slots: "fs_max_concurrency step = Some slots"
      using adm by (auto simp: iteration_admitted_def split: if_splits)
    have "parallel_loop rn step slots (chunk_size rn (length items)) (run_item rn step sd input globals)
        seq started (fail_strategy step) ?offset (drop ?offset items) ?processed ?failed m = (Inl e, m')"
      using loop slots True by (simp add: iteration_loop_def)
    from parallel_requests [OF this stays_item_unrequested req prog refl] obtain processed' offset' failed' where
      "ck = build_checkpoint m' (fs_name step) seq (Some (iteration_state step started processed' offset' failed'))"
      "e = raise_kind FlowContinuation" "loop_progress items processed' offset' failed'"
      by blast
    with adm True show ?thesis
      by (intro that [of "\<lparr>ic_step_name = fs_name step, ic_started_at_epoch = started, ic_next_offset = offset',
          ic_results = processed', ic_failed = failed'\<rparr>" items is_dict]) (auto simp: iteration_state_def)
  next
    case False
    then have seq_loop: "iteration_loop r step sd input globals seq started items p k f
        = sequential_loop r step sd input globals seq started (fail_strategy step) k (drop k items) p f" for r :: "'a runner" and p k f
      by (simp add: iteration_loop_def split: option.split)
    obtain processed' offset' failed' where out:
      "ck = build_checkpoint m' (fs_name step) seq (Some (iteration_state step started processed' offset' failed'))"
      "e = raise_kind FlowContinuation" "loop_progress items processed' offset' failed'"
      "iteration_loop (unbounded rn) step sd input globals seq started items ?processed ?offset ?failed m =
       iteration_loop (unbounded rn) step sd input globals seq started items processed' offset' failed' (m'\<lparr>m_requested := None\<rparr>)"
      using sequential_requests [OF _ req prog refl, of rn step sd input globals seq started "fail_strategy step" e] loop
      unfolding seq_loop by blast
    let ?c = "\<lparr>ic_step_name = fs_name step, ic_started_at_epoch = started, ic_next_offset = offset',
          ic_results = processed', ic_failed = failed'\<rparr>"
    have "run_iteration (unbounded rn) step ref sd input globals seq started continuation m =
       run_iteration (unbounded rn) step ref sd input globals seq started (Some ?c) (m'\<lparr>m_requested := None\<rparr>)"
      using out(3,4) fits
      by (simp add: run_iteration_unfold Let_def adm' adm2 adm loop_progress_def bind_eff_def)
    with out adm show ?thesis
      by (intro that [of ?c items is_dict]) (auto simp: iteration_state_def)
  qed
qed

section \<open>A whole until loop\<close>

lemma until_run_requests:
  assumes run: "run_until rn step sd input globals seq started continuation m = (Inl e, m')"
    and req: "m_requested m = None" "m_requested m' = Some ck"
  obtains c attempts where
    "ck = build_checkpoint m' (fs_name step) seq (Some (UntilLoop c))" "e = raise_kind FlowContinuation"
    "uc_step_name c = fs_name step" "uc_started_at_epoch c = started"
    "fs_max_iterations step = Some attempts" "1 \<le> uc_attempts_completed c" "uc_attempts_completed c \<le> attempts"
    "run_until (unbounded rn) step sd input globals seq started continuation m =
     run_until (unbounded rn) step sd input globals seq started (Some c) (m'\<lparr>m_requested := None\<rparr>)"
proof -
  let ?completed = "case continuation of Some c \<Rightarrow> uc_attempts_completed c | None \<Rightarrow> 0"
  let ?result = "case continuation of Some c \<Rightarrow> uc_last_result c | None \<Rightarrow> JNull"
  have cache: "sd_cache sd = None"
    using run req by (auto simp: run_until_def reject_loop_cache_def bind_eff_def throw_def split: if_splits)
  then obtain cond attempts where step: "fs_until step = Some cond" "fs_max_iterations step = Some attempts"
    using run req
    by (auto simp: run_until_def reject_loop_cache_def bind_eff_def ret_def throw_def split: option.splits)
  have limit: "attempts \<le> nat (rl_loop_attempts (rn_limits rn))"
  proof (rule ccontr)
    assume "\<not> ?thesis"
    with run req cache step show False
      by (auto simp: run_until_def reject_loop_cache_def bind_eff_def ret_def lift_result_def enforce_limit_def)
  qed
  have unfolded: "run_until r step sd input globals seq started cont x =
      (let completed = (case cont of Some c \<Rightarrow> uc_attempts_completed c | None \<Rightarrow> 0);
           result = (case cont of Some c \<Rightarrow> uc_last_result c | None \<Rightarrow> JNull)
       in if attempts < completed then (Inl (flow_error INVARIANT_VIOLATION), x)
          else until_loop r step sd cond input globals seq started attempts (attempts - completed) (Suc completed) result x)"
    if "rn_limits r = rn_limits rn" for r :: "'a runner" and cont x
    using cache step limit that
    by (simp add: run_until_def reject_loop_cache_def bind_eff_def ret_def lift_result_def enforce_limit_def throw_def Let_def)
  have le: "?completed \<le> attempts"
    using run req by (auto simp: unfolded Let_def split: if_splits)
  have loop: "until_loop rn step sd cond input globals seq started attempts (attempts - ?completed) (Suc ?completed) ?result m
      = (Inl e, m')"
    using run le by (simp add: unfolded Let_def)
  from until_requests [OF loop req] le obtain done_n last_v where out:
    "ck = build_checkpoint m' (fs_name step) seq (Some (UntilLoop \<lparr>uc_step_name = fs_name step,
      uc_started_at_epoch = started, uc_attempts_completed = done_n, uc_last_result = last_v\<rparr>))"
    "e = raise_kind FlowContinuation" "1 \<le> done_n" "done_n \<le> attempts"
    "until_loop (unbounded rn) step sd cond input globals seq started attempts (attempts - ?completed) (Suc ?completed) ?result m =
      until_loop (unbounded rn) step sd cond input globals seq started attempts (attempts - done_n) (Suc done_n) last_v
        (m'\<lparr>m_requested := None\<rparr>)"
    by auto
  let ?c = "\<lparr>uc_step_name = fs_name step, uc_started_at_epoch = started, uc_attempts_completed = done_n,
      uc_last_result = last_v\<rparr>"
  have "run_until (unbounded rn) step sd input globals seq started continuation m =
     run_until (unbounded rn) step sd input globals seq started (Some ?c) (m'\<lparr>m_requested := None\<rparr>)"
    using le out(4,5) by (simp add: unfolded Let_def)
  with out step show ?thesis by (intro that [of ?c attempts]) auto
qed

end
