(* ===== verification/JF_Start.thy ===== *)
theory JF_Start
  imports JF_Continue
begin

text \<open>
  The start of a run: the parameters of a prepared run hold every root the analysis takes for given,
  and no placeholder. With them, what the analysis promises of the flow holds for runs from the start.
\<close>

lemma list_all2_keys: "list_all2 (\<lambda>x y. fst y = g x) xs ys \<Longrightarrow> map fst ys = map g xs"
  by (induction rule: list_all2_induct) auto

lemma normalize_object_keys:
  assumes "normalize_json_object md mi path (of_json (JObj kvs)) = Inr kvs'"
  shows "map fst kvs' = map fst kvs"
proof -
  obtain j where j: "normalize_json_value md mi path 0 (of_json (JObj kvs)) = Inr j"
    "(case j of JObj kvs \<Rightarrow> Inr kvs | _ \<Rightarrow> Inl (DataNormalizationError path ExpectedObject)) = Inr kvs'"
    using assms by (auto simp: normalize_json_object_def bind_result_def split: sum.splits)
  then have "list_all2 (\<lambda>kv kv'. \<exists>x. normalize_json_value md mi (path_key path (fst kv)) (Suc 0) (of_json (snd kv)) = Inr x \<and>
      kv' = (fst kv, x)) kvs kvs'"
    by (auto simp: result_simps map_result_map map_result_eq_Inr)
  then have "list_all2 (\<lambda>kv kv'. fst kv' = fst kv) kvs kvs'"
    by (rule list.rel_mono_strong) auto
  then show ?thesis by (rule list_all2_keys)
qed

lemma interpolate_object_keys:
  assumes "interpolate_params R params (JObj kvs) = Inr v"
  shows "\<exists>kvs'. v = JObj kvs' \<and> map fst kvs' = map fst kvs"
proof -
  obtain kvs' where v: "v = JObj kvs'"
    "list_all2 (\<lambda>kv kv'. \<exists>x. interpolate_params R params (snd kv) = Inr x \<and> kv' = (fst kv, x)) kvs kvs'"
    using assms by (auto simp: map_result_eq_Inr)
  from v(2) have "list_all2 (\<lambda>kv kv'. fst kv' = fst kv) kvs kvs'"
    by (rule list.rel_mono_strong) auto
  with v(1) list_all2_keys show ?thesis by blast
qed

lemma build_params_keys:
  assumes "build_params rn request_id globals = Inr params"
  shows "fst ` set params = insert ''request_id'' (fst ` set globals \<union> fst ` set (wc_params (rn_config rn)))"
    "find_unresolved_placeholders (JObj params) = Inr []"
proof -
  let ?raw = "dict_set ''request_id'' (JStr request_id)
            (dict_update (map (\<lambda>kv. (fst kv, JStr (snd kv))) (wc_params (rn_config rn))) globals)"
  obtain v where v: "interpolate rn (JObj ?raw) ?raw = Inr v" "normalize_object rn ''workflow.params'' (of_json v) = Inr params"
    and u: "find_unresolved_placeholders (JObj params) = Inr []"
    using assms by (auto simp: build_params_def Let_def bind_result_def split: sum.splits if_splits)
  show "find_unresolved_placeholders (JObj params) = Inr []" by (rule u)
  obtain kvs where kvs: "v = JObj kvs" "map fst kvs = map fst ?raw"
    using interpolate_object_keys [of _ ?raw ?raw v] v(1) by (auto simp: interpolate_def)
  then have "map fst params = map fst ?raw"
    using v(2) normalize_object_keys [of _ _ _ kvs params]
    by (auto simp: normalize_object_def data_result_def split: sum.splits)
  then have "fst ` set params = fst ` set ?raw" by (metis list.set_map)
  then show "fst ` set params = insert ''request_id'' (fst ` set globals \<union> fst ` set (wc_params (rn_config rn)))"
    by (auto simp: dict_simps image_image)
qed

lemma contract_checkD: "contract_check rn schema payload direction m = (Inr u, m') \<Longrightarrow> \<exists>w. m' = m\<lparr>m_world := w\<rparr>"
  by (cases schema) (auto simp: contract_check_def ret_def perform_def split: prod.splits intro: exI [of _ "m_world m"])

lemma prepare_runD:
  assumes "prepare_run rn request_id tg m = (Inr u, m')"
  shows "workflow_roots (rn_config rn) \<subseteq> scope m'" "m_outputs m' = m_outputs m" "m_failures m' = m_failures m"
    "m_timings m' = m_timings m" "m_transitions m' = m_transitions m" "m_requested m' = m_requested m"
    "m_invocations m' = m_invocations m" "m_episode m' = m_episode m"
    "\<exists>globals. normalize_object rn ''trigger.globals'' tg = Inr globals \<and>
       build_params rn request_id globals = Inr (m_params m')"
proof -
  obtain globals m1 params where g: "normalize_object rn ''trigger.globals'' tg = Inr globals"
    "build_params rn request_id globals = Inr params"
    and m1: "contract_check rn (wc_input_schema (rn_config rn)) (JObj globals) ''workflow input''
      (m\<lparr>m_phase := PhWorkflowInput\<rparr>) = (Inr (), m1)"
    and m': "m' = m1\<lparr>m_phase := PhParameters, m_params := params\<rparr>"
    using assms
    by (auto simp: prepare_run_def bind_eff_eq_Inr set_phase_def modify_def lift_result_def)
  obtain w where "m1 = m\<lparr>m_phase := PhWorkflowInput, m_world := w\<rparr>"
    using contract_checkD [OF m1] by auto
  with m' have m': "\<exists>w p. m' = m\<lparr>m_world := w, m_phase := p, m_params := params\<rparr>" by auto
  from m' show "m_outputs m' = m_outputs m" "m_failures m' = m_failures m"
    "m_timings m' = m_timings m" "m_transitions m' = m_transitions m" "m_requested m' = m_requested m"
    "m_invocations m' = m_invocations m" "m_episode m' = m_episode m"
    by auto
  show "\<exists>globals. normalize_object rn ''trigger.globals'' tg = Inr globals \<and>
       build_params rn request_id globals = Inr (m_params m')"
    using g m' by auto
  have "workflow_roots (rn_config rn) \<subseteq> fst ` set params"
    using build_params_keys(1) [OF g(2)] by (auto simp: workflow_roots_def REQUEST_ID_ROOT_def)
  with m' show "workflow_roots (rn_config rn) \<subseteq> scope m'" by (auto simp: scope_names_def)
qed

lemma fresh_prepared:
  assumes "prepare_run rn request_id' tg (fresh_state rn request_id w) = (Inr u, m)"
  shows "workflow_roots (rn_config rn) \<subseteq> scope m" "m_failures m = []" "history_ok 0 m" "m_requested m = None"
    "m_invocations m = 0" "m_episode m = None" "m_outputs m = []"
  using prepare_runD [OF assms] by (simp_all add: fresh_state_def history_ok_def)

text \<open>A run whose flow has no cycle, failure edges included, ends.\<close>

lemma execute_ends:
  assumes "valid_flow (rn_config rn)" "find_cycle (step_names (wc_flow (rn_config rn))) (build_edges (rn_config rn)) = None"
    and "length (wc_flow (rn_config rn)) + 2 \<le> fuel"
  shows "execute rn fuel tg ck m \<noteq> None"
  by (auto simp: execute_def flow_loop_within [OF assms] simp del: not_None_eq split: option.split sum.split prod.split list.split)

lemma run_ends:
  assumes "valid_flow (rn_config rn)" "find_cycle (step_names (wc_flow (rn_config rn))) (build_edges (rn_config rn)) = None"
    and "length (wc_flow (rn_config rn)) + 2 \<le> fuel"
  shows "run rn fuel request_id tg ck w \<noteq> None"
  using execute_ends [OF assms, of tg ck "start_state rn request_id ck w"]
  by (auto simp: run_def simp del: not_None_eq split: option.split sum.split prod.split)

end
