(* ===== verification/JF_Loops.thy ===== *)
theory JF_Loops
  imports JF_Continue
begin

text \<open>
  What a loop gives when it ends: the results of an iteration, in the order of its items whatever the
  order in which parallel tasks end; the failures each strategy lets through; the attempts of an until
  loop; and the invocations they count.
\<close>

section \<open>Invocations\<close>

lemma invoke_limited:
  assumes "nat (rl_total_invocations (rn_limits rn)) \<le> m_invocations m"
  shows "invoke rn sd name input globals m =
    (Inl (raise_kind (LimitExceededError TOTAL_INVOCATIONS ''workflow.step_invocations'' (Suc (m_invocations m))
       (nat (rl_total_invocations (rn_limits rn))))), m\<lparr>m_invocations := Suc (m_invocations m)\<rparr>)"
  using assms
  by (simp add: invoke_def count_invocation_def invocation_limit_error_def enforce_limit_def eff_basic)

lemma invoke_counts:
  assumes "invoke rn sd name input globals m = (r, m')"
  shows "m_invocations m' = Suc (m_invocations m)"
proof -
  let ?m = "m\<lparr>m_invocations := Suc (m_invocations m)\<rparr>"
  show ?thesis
  proof (cases "invocation_limit_error rn (Suc (m_invocations m))")
    case (Inl e)
    with assms have "m' = ?m" by (auto simp: invoke_def count_invocation_def eff_basic)
    then show ?thesis by simp
  next
    case (Inr u)
    with assms have "invoke_target rn sd name input globals ?m = (r, m')"
      by (simp add: invoke_def count_invocation_def eff_basic)
    from uncounted.staysD [OF uncounted.stays_invoke_target this] show ?thesis by simp
  qed
qed

section \<open>Until loops\<close>

text \<open>The attempts made, and why the loop stopped.\<close>

lemma until_attempts:
  assumes "until_loop rn step sd cond input globals seq started attempts remaining attempt result m = (Inr (v, n, satisfied), m')"
    and "attempts + 1 = remaining + attempt" "1 \<le> attempt"
  shows "n \<le> attempts \<and> (\<not> satisfied \<longrightarrow> n = attempts) \<and> attempt \<le> n + 1 \<and>
    m_invocations m' = m_invocations m + (n + 1 - attempt) \<and>
    (satisfied \<longrightarrow> (\<exists>m1. flow_condition rn cond v m1 = (Inr True, m') \<and> attempt \<le> n))"
  using assms
proof (induction remaining arbitrary: attempt result m)
  case 0
  then show ?case by (auto simp: ret_def)
next
  case (Suc remaining)
  obtain data c m1 where call: "invoke rn sd (until_name (fs_name step) attempt) input globals m = (Inr (data, c), m1)"
    using Suc.prems(1) by (auto simp: bind_eff_eq_Inr)
  have inv1: "m_invocations m1 = Suc (m_invocations m)" by (rule invoke_counts [OF call])
  obtain b m2 where cond: "flow_condition rn cond data m1 = (Inr b, m2)"
    using Suc.prems(1) call by (auto simp: bind_eff_def split: sum.splits prod.splits)
  have inv2: "m_invocations m2 = m_invocations m1"
    by (rule uncounted.staysD [OF uncounted.stays_flow_condition cond])
  show ?case
  proof (cases b)
    case True
    with Suc.prems call cond inv1 inv2 show ?thesis by (auto simp: bind_eff_def ret_def)
  next
    case False
    with Suc.prems(1) call cond obtain m3 m4 where
      sleep: "sleep_between rn step attempt attempts m2 = (Inr (), m3)" and
      ck: "checkpoint_during_loop rn (fs_name step) seq (UntilLoop \<lparr>uc_step_name = fs_name step,
          uc_started_at_epoch = started, uc_attempts_completed = attempt, uc_last_result = data\<rparr>) m3 = (Inr (), m4)" and
      rest: "until_loop rn step sd cond input globals seq started attempts remaining (Suc attempt) data m4 = (Inr (v, n, satisfied), m')"
      by (auto simp: bind_eff_eq_Inr)
    have "m_invocations m4 = m_invocations m2"
      using uncounted.staysD [OF uncounted.stays_sleep_between sleep] checkpoint_during_loop_cases(1) [OF ck] by simp
    with Suc.IH [OF rest] Suc.prems(2,3) inv1 inv2 show ?thesis by auto
  qed
qed

lemma run_until_attempts:
  assumes "run_until rn step sd input globals seq started None m = (Inr (v, n, satisfied), m')"
  shows "\<exists>attempts. fs_max_iterations step = Some attempts \<and> n \<le> attempts \<and> (\<not> satisfied \<longrightarrow> n = attempts) \<and>
    m_invocations m' = m_invocations m + n \<and>
    (satisfied \<longrightarrow> (\<exists>cond m1. fs_until step = Some cond \<and> flow_condition rn cond v m1 = (Inr True, m')))"
proof -
  obtain cond attempts where step: "fs_until step = Some cond" "fs_max_iterations step = Some attempts"
    and loop: "until_loop rn step sd cond input globals seq started attempts attempts 1 JNull m = (Inr (v, n, satisfied), m')"
    using assms
    by (auto simp: run_until_def reject_loop_cache_def lift_result_def bind_eff_eq_Inr ret_def throw_def
        split: option.splits if_splits)
  with until_attempts [OF loop] show ?thesis by auto
qed

section \<open>Tasks\<close>

text \<open>No task is lost, and none that stops the iteration has ended.\<close>

lemma start_tasks_members:
  "start_tasks rn slots pending running ended n = (p, r, e, n') \<Longrightarrow>
   set p \<union> set r \<union> fst ` set e = set pending \<union> set running \<union> fst ` set ended"
proof (induction rn slots pending running ended n arbitrary: p r e n' rule: start_tasks.induct)
  case (2 rn slots i pending running ended invocations)
  show ?case
  proof (cases "slots \<le> length running")
    case False
    then show ?thesis
      using 2 by (cases "invocation_limit_error rn (Suc invocations)") auto
  qed (use 2 in auto)
qed auto

definition harmless :: "iteration_fail_strategy \<Rightarrow> (nat \<times> (exn + json)) list \<Rightarrow> bool" where
  "harmless strategy ended \<longleftrightarrow> (\<forall>i e. (i, Inl e) \<in> set ended \<longrightarrow> \<not> stops_iteration strategy e)"

lemma stopping_error_None: "stopping_error strategy ended = None \<Longrightarrow> harmless strategy ended"
  by (force simp: stopping_error_def harmless_def filter_empty_conv split: list.splits sum.splits prod.splits
      dest: filter_eq_ConsD)

lemma start_waitingD:
  assumes "start_waiting rn slots strategy pending running ended m = (Inr (p, r, e), m')"
  shows "set p \<union> set r \<union> fst ` set e = set pending \<union> set running \<union> fst ` set ended \<and> harmless strategy e"
proof -
  obtain n where st: "start_tasks rn slots pending running ended (m_invocations m) = (p, r, e, n)"
    and no: "stopping_error strategy e = None"
    using assms by (auto simp: start_waiting_def split: prod.splits option.splits)
  from start_tasks_members [OF st] stopping_error_None [OF no] show ?thesis by blast
qed

text \<open>With a positive limit a task runs as long as one waits.\<close>

lemma start_tasks_busy:
  "start_tasks rn slots pending running ended n = (p, r, e, n') \<Longrightarrow> 0 < slots \<Longrightarrow> p = [] \<or> r \<noteq> []"
proof (induction rn slots pending running ended n arbitrary: p r e n' rule: start_tasks.induct)
  case (2 rn slots i pending running ended invocations)
  show ?case
  proof (cases "slots \<le> length running")
    case False
    then show ?thesis
      using 2 by (cases "invocation_limit_error rn (Suc invocations)") auto
  qed (use 2 in auto)
qed auto

lemma start_waiting_busy:
  "start_waiting rn slots strategy pending running ended m = (Inr (p, r, e), m') \<Longrightarrow> 0 < slots \<Longrightarrow> p = [] \<or> r \<noteq> []"
  by (auto simp: start_waiting_def split: prod.splits option.splits dest!: start_tasks_busy)

lemma gather_members:
  "gather_loop rn slots strategy task pending running ended m = (Inr ended', m') \<Longrightarrow>
   harmless strategy ended \<Longrightarrow> pending = [] \<or> running \<noteq> [] \<Longrightarrow> 0 < slots \<Longrightarrow>
   set pending \<union> set running \<union> fst ` set ended \<subseteq> fst ` set ended' \<and> harmless strategy ended'"
proof (induction "length pending + length running" arbitrary: pending running ended m rule: less_induct)
  case less
  show ?case
  proof (cases running)
    case Nil
    with less.prems show ?thesis by simp
  next
    case (Cons r rs)
    obtain k w where kw: "x_next_done (rn_executor rn) (r # rs) (m_world m) = (k, w)" by fastforce
    let ?i = "(r # rs) ! (k mod length (r # rs))"
    obtain out m1 where out: "task ?i (m\<lparr>m_world := w\<rparr>) = (out, m1)" by fastforce
    obtain res m2 where st: "start_waiting rn slots strategy pending (remove1 ?i (r # rs)) (ended @ [(?i, out)]) m1 = (res, m2)"
      by fastforce
    have mem: "?i \<in> set (r # rs)" by (intro nth_mem) simp
    from less.prems(1) Cons kw out st obtain t where t: "res = Inr t" by (cases res) simp_all
    obtain p' r' e' where p': "t = (p', r', e')" by (cases t)
    from less.prems(1) Cons kw out st t p'
    have rest: "gather_loop rn slots strategy task p' r' e' m2 = (Inr ended', m')" by simp
    note D = start_waitingD [OF st [unfolded t p']]
    have len: "length p' + length r' < length pending + length running"
    proof -
      obtain n where "start_tasks rn slots pending (remove1 ?i (r # rs)) (ended @ [(?i, out)]) (m_invocations m1) = (p', r', e', n)"
        using st t p' by (auto simp: start_waiting_def split: prod.splits option.splits)
      moreover have "length (remove1 ?i (r # rs)) = length rs"
        using length_remove1 [of ?i "r # rs"] mem by (metis diff_Suc_1 length_Cons)
      ultimately show ?thesis using start_tasks_length Cons by fastforce
    qed
    have busy: "p' = [] \<or> r' \<noteq> []"
      using start_waiting_busy [OF st [unfolded t p'] less.prems(4)] .
    have "set running \<subseteq> insert ?i (set (remove1 ?i (r # rs)))"
      using Cons by (metis insert_iff notin_set_remove1 set_remove1_subset subsetI in_set_remove1)
    with less.hyps [OF len rest D [THEN conjunct2] busy less.prems(4)] D show ?thesis by auto
  qed
qed

section \<open>Results\<close>

text \<open>The outcomes of a whole iteration: one per item, in their order, none of which stops it.\<close>

definition outcomes_of ::
    "iteration_fail_strategy \<Rightarrow> (iteration_key \<times> json) list \<Rightarrow> (iteration_key \<times> (exn + json)) list \<Rightarrow> bool" where
  "outcomes_of strategy items outcomes \<longleftrightarrow> map fst outcomes = map fst items \<and>
     list_all (\<lambda>ko. case snd ko of Inl e \<Rightarrow> \<not> stops_iteration strategy e | Inr _ \<Rightarrow> True) outcomes"

lemma outcomes_of_append:
  "outcomes_of strategy xs os \<Longrightarrow> outcomes_of strategy ys ps \<Longrightarrow> outcomes_of strategy (xs @ ys) (os @ ps)"
  by (simp add: outcomes_of_def)

lemma append_results_append:
  "append_iteration_results rn name strategy (os @ ps) processed =
    (fst (append_iteration_results rn name strategy ps (fst (append_iteration_results rn name strategy os processed))),
     snd (append_iteration_results rn name strategy os processed) +
     snd (append_iteration_results rn name strategy ps processed))"
  by (simp add: append_iteration_results_def)

lemma append_results_fresh:
  "snd (append_iteration_results rn name strategy os p) = snd (append_iteration_results rn name strategy os q)"
  by (simp add: append_iteration_results_def)

lemma run_chunk_outcomes:
  assumes "run_chunk rn slots strategy task chunk m = (Inr outcomes, m')" "0 < slots"
  shows "outcomes_of strategy chunk outcomes"
proof -
  from assms(1) obtain p r e m1 ended where
    st: "start_waiting rn slots strategy [0..<length chunk] [] [] m = (Inr (p, r, e), m1)" and
    ga: "gather_loop rn slots strategy (\<lambda>i. task (chunk ! i)) p r e m1 = (Inr ended, m')" and
    out: "outcomes = map (\<lambda>i. (fst (chunk ! i), take_outcome ended i)) [0..<length chunk]"
    by (auto simp: run_chunk_def bind_eff_eq_Inr ret_def)
  note D = start_waitingD [OF st]
  note G = gather_members [OF ga D [THEN conjunct2] start_waiting_busy [OF st assms(2)] assms(2)]
  have "case take_outcome ended i of Inl x \<Rightarrow> \<not> stops_iteration strategy x | Inr _ \<Rightarrow> True"
    if "i < length chunk" for i
  proof -
    have "i \<in> fst ` set ended" using that D G by auto
    then obtain y where y: "map_of ended i = Some y" by (metis domIff dom_map_of_conv_image_fst not_None_eq)
    then have "(i, y) \<in> set ended" by (rule map_of_SomeD)
    with y G show ?thesis by (auto simp: take_outcome_def harmless_def split: sum.split)
  qed
  then show ?thesis
    by (auto simp: outcomes_of_def out list_all_iff intro: nth_equalityI)
qed

lemma parallel_results:
  assumes "parallel_loop rn step slots c task seq started strategy offset items processed failed m = (Inr (processed', failed'), m')"
    and "0 < slots"
  shows "\<exists>outcomes fresh. outcomes_of strategy items outcomes \<and> failed' = failed + fresh \<and>
    append_iteration_results rn (fs_name step) strategy outcomes processed = (processed', fresh)"
  using assms(1)
proof (induction "length items" arbitrary: offset items processed failed m rule: less_induct)
  case less
  show ?case
  proof (cases items)
    case Nil
    with less.prems show ?thesis
      by (auto simp: ret_def outcomes_of_def append_iteration_results_def intro!: exI [of _ "[]"])
  next
    case (Cons x xs)
    let ?c = "max 1 c"
    let ?off = "offset + length (take ?c (x # xs))"
    let ?rest = "\<lambda>outcomes. case append_iteration_results rn (fs_name step) strategy outcomes processed of
        (processed', fresh) \<Rightarrow>
          bind_eff (checkpoint_during_loop rn (fs_name step) seq
            (iteration_state step started processed' ?off (failed + fresh))) (\<lambda>_.
            parallel_loop rn step slots c task seq started strategy ?off (drop ?c (x # xs)) processed' (failed + fresh))"
    obtain outcomes m1 where
      ch: "run_chunk rn slots strategy task (take ?c (x # xs)) m = (Inr outcomes, m1)" and
      k: "?rest outcomes m1 = (Inr (processed', failed'), m')"
      using less.prems unfolding Cons parallel_loop.simps bind_eff_eq_Inr by blast
    obtain processed1 fresh1 where
      app: "append_iteration_results rn (fs_name step) strategy outcomes processed = (processed1, fresh1)"
      by fastforce
    obtain m2 where
      rest: "parallel_loop rn step slots c task seq started strategy ?off (drop ?c items) processed1 (failed + fresh1) m2
        = (Inr (processed', failed'), m')"
      using k unfolding app prod.case bind_eff_eq_Inr Cons by blast
    have "length (drop ?c items) < length items" by (simp add: Cons)
    from less.hyps [OF this rest] obtain more_out fresh2 where
      more_out: "outcomes_of strategy (drop ?c items) more_out" "failed' = failed + fresh1 + fresh2"
      "append_iteration_results rn (fs_name step) strategy more_out processed1 = (processed', fresh2)"
      by blast
    have "outcomes_of strategy items (outcomes @ more_out)"
      using outcomes_of_append [OF run_chunk_outcomes [OF ch assms(2)] more_out(1)] by (simp add: Cons)
    moreover have "append_iteration_results rn (fs_name step) strategy (outcomes @ more_out) processed
        = (processed', fresh1 + fresh2)"
      using app more_out(3) append_results_fresh [of rn "fs_name step" strategy more_out processed processed1]
      by (simp add: append_results_append)
    ultimately show ?thesis using more_out(2) by (metis add.assoc)
  qed
qed

lemma outcome_ofD:
  "outcome_of strategy c m = (Inr outcome, m') \<Longrightarrow>
   (case outcome of Inl e \<Rightarrow> \<not> stops_iteration strategy e | Inr _ \<Rightarrow> True)"
  by (auto simp: outcome_of_def split: prod.splits sum.splits if_splits)

lemma sequential_results:
  assumes "sequential_loop rn step sd input globals seq started strategy offset items processed failed m = (Inr (processed', failed'), m')"
  shows "\<exists>outcomes fresh. outcomes_of strategy items outcomes \<and> failed' = failed + fresh \<and>
    append_iteration_results rn (fs_name step) strategy outcomes processed = (processed', fresh)"
  using assms
proof (induction items arbitrary: offset processed failed m)
  case Nil
  then show ?case
    by (auto simp: ret_def outcomes_of_def append_iteration_results_def intro!: exI [of _ "[]"])
next
  case (Cons ki items)
  obtain key item where ki: "ki = (key, item)" by (cases ki)
  let ?rest = "\<lambda>outcome. case append_iteration_results rn (fs_name step) strategy [(key, outcome)] processed of
       (processed', fresh) \<Rightarrow>
         bind_eff (checkpoint_during_loop rn (fs_name step) seq
             (iteration_state step started processed' (Suc offset) (failed + fresh))) (\<lambda>_.
           sequential_loop rn step sd input globals seq started strategy (Suc offset) items processed'
             (failed + fresh))"
  obtain outcome m1 where
    call: "outcome_of strategy (data_of (invoke rn sd (item_name (fs_name step) key)
         (item_input step input item) (item_globals step globals item))) m = (Inr outcome, m1)" and
    k: "?rest outcome m1 = (Inr (processed', failed'), m')"
    using Cons.prems unfolding ki sequential_loop.simps bind_eff_eq_Inr by blast
  obtain processed1 fresh1 where
    app: "append_iteration_results rn (fs_name step) strategy [(key, outcome)] processed = (processed1, fresh1)"
    by fastforce
  obtain m2 where
    rest: "sequential_loop rn step sd input globals seq started strategy (Suc offset) items processed1 (failed + fresh1) m2
      = (Inr (processed', failed'), m')"
    using k unfolding app prod.case bind_eff_eq_Inr by blast
  from Cons.IH [OF rest] obtain more_out fresh2 where
    more_out: "outcomes_of strategy items more_out" "failed' = failed + fresh1 + fresh2"
    "append_iteration_results rn (fs_name step) strategy more_out processed1 = (processed', fresh2)"
    by blast
  have "outcomes_of strategy (ki # items) ((key, outcome) # more_out)"
    using more_out(1) outcome_ofD [OF call] by (simp add: outcomes_of_def ki)
  moreover have "append_iteration_results rn (fs_name step) strategy ((key, outcome) # more_out) processed
      = (processed', fresh1 + fresh2)"
    using app more_out(3) append_results_append [of rn "fs_name step" strategy "[(key, outcome)]" more_out processed]
      append_results_fresh [of rn "fs_name step" strategy more_out processed processed1]
    by simp
  ultimately show ?case using more_out(2) by (metis add.assoc)
qed

text \<open>The result of an iteration from its start.\<close>

lemma iteration_results:
  assumes run: "run_iteration rn step ref sd input globals seq started None m = (Inr (v, count, failed), m')"
    and slots: "fs_parallel step \<Longrightarrow> \<exists>n \<ge> 1. fs_max_concurrency step = Some n"
  shows "\<exists>items is_dict outcomes. iteration_admitted rn step ref sd input m = Inr (items, is_dict) \<and>
    outcomes_of (fail_strategy step) items outcomes \<and> count = length items \<and>
    failed = length (filter (\<lambda>ko. \<not> is_ok (snd ko)) outcomes) \<and>
    v = iteration_value is_dict (map (iteration_entry rn (fs_name step) (fail_strategy step)) outcomes)"
proof -
  obtain items is_dict where adm: "iteration_admitted rn step ref sd input m = Inr (items, is_dict)"
    using run by (cases "iteration_admitted rn step ref sd input m") (auto simp: run_iteration_unfold Let_def)
  then obtain processed' where loop: "iteration_loop rn step sd input globals seq started items [] 0 0 m = (Inr (processed', failed), m')"
    and v: "v = iteration_value is_dict processed'" "count = length items"
    using run by (auto simp: run_iteration_unfold Let_def continuation_fits_def bind_eff_eq_Inr ret_def)
  have "\<exists>outcomes fresh. outcomes_of (fail_strategy step) items outcomes \<and> failed = 0 + fresh \<and>
    append_iteration_results rn (fs_name step) (fail_strategy step) outcomes [] = (processed', fresh)"
  proof (cases "fs_parallel step")
    case True
    then obtain n where "fs_max_concurrency step = Some n" "0 < n" using slots by fastforce
    with True loop show ?thesis
      by (intro parallel_results [where offset = 0 and failed = 0]) (auto simp: iteration_loop_def)
  next
    case False
    with loop show ?thesis
      by (intro sequential_results [where offset = 0 and failed = 0])
         (auto simp: iteration_loop_def split: option.splits)
  qed
  with adm v show ?thesis by (auto simp: append_iteration_results_def)
qed

text \<open>The strategies.\<close>

lemma stop_no_failure:
  "outcomes_of STOP items outcomes \<Longrightarrow> filter (\<lambda>ko. \<not> is_ok (snd ko)) outcomes = []"
  by (auto simp: outcomes_of_def filter_empty_conv list_all_iff stops_iteration_def is_ok_def split: sum.splits)

lemma collect_all_included:
  assumes "strategy \<noteq> SKIP" "outcomes_of strategy items outcomes" "r \<in> set (map (iteration_entry rn name strategy) outcomes)"
  shows "\<exists>k v. r = Included k v"
proof -
  obtain k out where r: "(k, out) \<in> set outcomes" "r = iteration_entry rn name strategy (k, out)"
    using assms(3) by auto
  with assms(1,2) show ?thesis
    by (cases out; cases strategy) (auto simp: outcomes_of_def list_all_iff stops_iteration_def)
qed

end
