(* ===== verification/JF_Examples.thy ===== *)
theory JF_Examples
  imports JF_Start JF_Loops
begin

text \<open>
  Concrete workflows, an executor and an environment, on which the properties are applied: a flow with
  a result branch and a handler, one with an iteration, one with a wait, and the flows that show what
  the analysis does not see.
\<close>

section \<open>An environment and an executor\<close>

text \<open>The world counts the calls of the executor.\<close>

definition sample_env :: environment where
  "sample_env = \<lparr>en_parse = (\<lambda>s.
       if s = ''input.ok'' then Some (Attribute (Name ''input'') ''ok'') else None),
     en_repr = (\<lambda>_. ''?''), en_render = (\<lambda>_. ''boom''), en_bytes = (\<lambda>_. Some 10),
     en_iso = (\<lambda>_. ''2026-01-01T00:00:00+00:00''), en_fromiso = (\<lambda>_. None), en_dump_checkpoint = (\<lambda>_. JNull)\<rparr>"

definition activity_error :: exn where
  "activity_error = raise_kind (PyError ''RuntimeError'')"

text \<open>The actions \<open>ok\<close>, \<open>wait\<close> and \<open>boom\<close> of a service; the history is full after \<open>budget\<close> calls.\<close>

definition sample_executor :: "nat \<Rightarrow> nat executor" where
  "sample_executor budget = \<lparr>
     x_run_step = (\<lambda>inv w. (if si_action inv = ''boom'' then Inl activity_error
        else Inr (PDict [(KStr ''ok'', PBool (si_action inv = ''ok''))], None), Suc w)),
     x_run_evaluator = (\<lambda>_ _ _ _ w. (Inr True, w)),
     x_wait_for_event = (\<lambda>_ _ w. (Inr None, w)),
     x_sleep = (\<lambda>_ w. (Inr (), w)),
     x_validate_contract = (\<lambda>_ _ _ _ w. (Inr (), w)),
     x_run_subworkflow = (\<lambda>_ _ _ w. (Inr (PDict []), Suc w)),
     x_archive = (\<lambda>_ _ _ _ _ w. (Inr (), w)),
     x_observe_history = (\<lambda>w. \<lparr>ho_events = 0, ho_bytes = 0, ho_server_suggested = budget \<le> w\<rparr>),
     x_now = (\<lambda>w. of_nat w),
     x_next_done = (\<lambda>_ w. (0, w))\<rparr>"

definition service_step :: "string \<Rightarrow> step_definition" where
  "service_step action = \<lparr>sd_target = ServiceOperationTarget ''svc'' action, sd_params = [],
     sd_required_resources = [], sd_cache = None, sd_input_schema = None, sd_output_schema = None\<rparr>"

definition sample_config :: "flow_step list \<Rightarrow> workflow_config" where
  "sample_config flow = \<lparr>wc_workflow = ''demo'', wc_on_complete = None, wc_on_error = None, wc_params = [],
     wc_input_schema = None, wc_output_schema = None, wc_result = None,
     wc_steps = [(''ok'', service_step ''ok''), (''boom'', service_step ''boom'')], wc_flow = flow\<rparr>"

definition sample_limits :: runtime_limits where
  "sample_limits = \<lparr>
     rl_trigger_payload_bytes = 50, rl_workflow_output_bytes = 50, rl_activity_input_bytes = 50,
     rl_activity_output_bytes = 50, rl_failure_record_bytes = 50, rl_audit_record_bytes = 50,
     rl_cache_entry_bytes = 50, rl_fanout_items = 10, rl_fanout_chunk_items = 2, rl_parallelism = 4,
     rl_loop_attempts = 10, rl_total_invocations = 20, rl_queued_messages = 50, rl_signal_payload_bytes = 50,
     rl_queued_message_bytes = 50, rl_collection_items = 50, rl_workflow_state_bytes = 50,
     rl_continuation_input_bytes = 50, rl_history_events = 50, rl_history_bytes = 50\<rparr>"

definition sample_runner :: "flow_step list \<Rightarrow> bool \<Rightarrow> nat \<Rightarrow> nat runner" where
  "sample_runner flow fresh budget = \<lparr>rn_config = sample_config flow, rn_services = [(''svc'', [])],
     rn_limits = sample_limits, rn_bounded = fresh, rn_timezone_aware = True,
     rn_identity = no_identity, rn_executor = sample_executor budget, rn_env = sample_env\<rparr>"

definition op_of :: "string \<Rightarrow> string \<Rightarrow> flow_step" where
  "op_of name op = (plain_step name)\<lparr>fs_op := Some op\<rparr>"

definition end_of :: "string \<Rightarrow> flow_step" where
  "end_of name = (plain_step name)\<lparr>fs_terminal := True\<rparr>"

definition parsed :: "string \<Rightarrow> reference_path" where
  "parsed s = (case parse_reference (RefText s) of Inr r \<Rightarrow> r | Inl _ \<Rightarrow> \<lparr>rp_value = s, rp_components = []\<rparr>)"

section \<open>Flows\<close>

text \<open>A result branch, and a step that fails and is handled.\<close>

definition branch_flow :: "flow_step list" where
  "branch_flow = [
     (op_of ''fetch'' ''ok'')\<lparr>fs_output := Some ''page'', fs_on_result := Some [
        \<lparr>ob_when = Some (WhenExpression ''input.ok''), ob_default = None, ob_then = Some ''send''\<rparr>,
        \<lparr>ob_when = None, ob_default = Some ''done'', ob_then = None\<rparr>]\<rparr>,
     (op_of ''send'' ''boom'')\<lparr>fs_then := Some ''done'', fs_on_failure := Some ''rescue''\<rparr>,
     (op_of ''rescue'' ''ok'')\<lparr>fs_then := Some ''done''\<rparr>,
     end_of ''done'']"

text \<open>An iteration over the result of a step, an until loop, and a wait.\<close>

definition loop_flow :: "string option \<Rightarrow> flow_step list" where
  "loop_flow handler = [
     (op_of ''fetch'' ''ok'')\<lparr>fs_then := Some ''each''\<rparr>,
     (op_of ''each'' ''ok'')\<lparr>fs_for_each := Some (parsed ''fetch''), fs_then := Some ''poll'', fs_on_failure := handler\<rparr>,
     (op_of ''poll'' ''ok'')\<lparr>fs_until := Some ''input.ok'', fs_max_iterations := Some 3, fs_then := Some ''hold''\<rparr>,
     (plain_step ''hold'')\<lparr>fs_wait_for := Some \<lparr>wf_signal = ''go'', wf_timeout_sec = Some 60,
        wf_timeout_until = None, wf_on_timeout = Some ''done''\<rparr>, fs_then := Some ''done''\<rparr>,
     end_of ''done'']"

text \<open>A handler that sleeps and goes back to the step that failed.\<close>

definition retry_flow :: "flow_step list" where
  "retry_flow = [
     (op_of ''send'' ''boom'')\<lparr>fs_then := Some ''done'', fs_on_failure := Some ''pause''\<rparr>,
     (plain_step ''pause'')\<lparr>fs_sleep_sec := Some 1, fs_then := Some ''send''\<rparr>,
     end_of ''done'']"

text \<open>A step that fails after a handler has gone back to the normal flow.\<close>

definition second_flow :: "flow_step list" where
  "second_flow = [
     (op_of ''fetch'' ''boom'')\<lparr>fs_output := Some ''page'', fs_then := Some ''send'', fs_on_failure := Some ''skip''\<rparr>,
     (op_of ''skip'' ''ok'')\<lparr>fs_then := Some ''send''\<rparr>,
     (op_of ''send'' ''boom'')\<lparr>fs_then := Some ''done'', fs_on_failure := Some ''report''\<rparr>,
     (op_of ''report'' ''ok'')\<lparr>fs_input := InputRef (parsed ''page''), fs_then := Some ''done''\<rparr>,
     end_of ''done'']"

text \<open>A last branch with both \<open>default\<close> and \<open>then\<close>.\<close>

definition both_flow :: "flow_step list" where
  "both_flow = [
     (op_of ''fetch'' ''ok'')\<lparr>fs_on_result := Some [
        \<lparr>ob_when = None, ob_default = Some ''fetch'', ob_then = Some ''done''\<rparr>]\<rparr>,
     end_of ''done'']"

section \<open>Their validity\<close>

lemma sample_names:
  "is_name ''fetch''" "is_name ''send''" "is_name ''rescue''" "is_name ''done''" "is_name ''page''" "is_name ''ok''"
  "is_name ''boom''" "is_name ''each''" "is_name ''poll''" "is_name ''hold''" "is_name ''pause''" "is_name ''skip''"
  "is_name ''report''"
  by code_simp+

lemmas sample_defs = sample_config_def branch_flow_def loop_flow_def retry_flow_def second_flow_def both_flow_def
  op_of_def end_of_def plain_step_def service_step_def sample_runner_def

lemmas valid_defs = valid_flow_def valid_workflow_def valid_step_def flow_step_fields_def validate_flow_step_def
  validate_branch_def validate_branches_def default_positions_def plain_flow_def plain_branch_def name_field_def
  text_bounds_def within_bounds_def branches_def step_kinds_def is_pause_def terminal_conflicts_def
  MAX_DESCRIPTION_LENGTH_def MAX_CONCURRENCY_def MAX_ITERATIONS_def MAX_TIMEOUT_SECONDS_def sample_names

lemma sample_runner_config [simp]: "rn_config (sample_runner flow fresh budget) = sample_config flow"
  by (simp add: sample_runner_def)

lemma valid_branch_flow: "valid_flow (sample_config branch_flow)"
  by (simp add: sample_defs valid_defs)

lemma valid_loop_flow: "valid_flow (sample_config (loop_flow None))"
  by (simp add: sample_defs valid_defs)

lemma valid_retry_flow: "valid_flow (sample_config retry_flow)"
  by (simp add: sample_defs valid_defs)

lemma valid_second_flow: "valid_flow (sample_config second_flow)"
  by (simp add: sample_defs valid_defs)

lemma valid_both_flow: "valid_workflow (sample_config both_flow)"
  by (simp add: sample_defs valid_defs)

section \<open>The flow that never ends\<close>

abbreviation retry_runner :: "nat runner" where
  "retry_runner \<equiv> sample_runner retry_flow False 0"

abbreviation retry_step :: flow_step where
  "retry_step \<equiv> (op_of ''send'' ''boom'')\<lparr>fs_then := Some ''done'', fs_on_failure := Some ''pause''\<rparr>"

abbreviation pause_step :: flow_step where
  "pause_step \<equiv> (plain_step ''pause'')\<lparr>fs_sleep_sec := Some 1, fs_then := Some ''send''\<rparr>"

lemma retry_lookup:
  "lookup_step retry_runner ''send'' = Some retry_step" "lookup_step retry_runner ''pause'' = Some pause_step"
  by code_simp+

lemma retry_region: "handler_region retry_runner ''pause'' = [''pause'']"
  by code_simp

lemma retry_globals: "step_globals retry_runner retry_step (service_step ''boom'') params = Inr []"
proof -
  have "service_params retry_runner (service_step ''boom'') = Inr []" "fs_params retry_step = []"
    "sd_params (service_step ''boom'') = []"
    by (simp_all add: sample_defs service_params_def)
  moreover have "normalize_object retry_runner path (PDict []) = Inr []" for path
    by (simp add: normalize_object_def normalize_json_object_def data_result_def within_depth_def collection_limit_def
        guard_result_def)
  ultimately show ?thesis by (simp add: step_globals_def interpolate_def dict_update_def)
qed

lemma retry_fields:
  "\<not> fs_terminal retry_step" "fs_sleep_sec retry_step = None" "fs_wait_for retry_step = None"
  "fs_op retry_step = Some ''boom''" "fs_input retry_step = NoInput" "fs_condition retry_step = None"
  "fs_for_each retry_step = None" "fs_until retry_step = None" "fs_name retry_step = ''send''"
  "step_handler retry_runner retry_step = Some ''pause''"
  "map_of (wc_steps (sample_config retry_flow)) ''boom'' = Some (service_step ''boom'')"
  "rn_bounded retry_runner = False"
  by (simp_all add: sample_defs step_handler_def)

lemma retry_call:
  obtains e m1 where "invoke retry_runner (service_step ''boom'') name input globals m = (Inl e, m1)"
    "\<not> is_flow_error e" "\<not> is_cancellation e"
proof (cases "invocation_limit_error retry_runner (Suc (m_invocations m))")
  case (Inl e)
  then have "e = raise_kind (LimitExceededError TOTAL_INVOCATIONS ''workflow.step_invocations''
      (Suc (m_invocations m)) (nat (rl_total_invocations (rn_limits retry_runner))))"
    by (auto simp: invocation_limit_error_def enforce_limit_def split: if_splits)
  then have "\<not> is_flow_error e" "\<not> is_cancellation e"
    by (auto simp: is_flow_error_def is_cancellation_def raise_kind_def cancelled_within_chain MAX_CAUSE_DEPTH_def)
  with Inl that show ?thesis by (auto simp: invoke_def count_invocation_def eff_basic)
next
  case (Inr u)
  have "\<not> is_flow_error activity_error" "\<not> is_cancellation activity_error" by code_simp+
  moreover have "\<exists>m1. invoke retry_runner (service_step ''boom'') name input globals m = (Inl activity_error, m1)"
    using Inr by (simp add: invoke_def count_invocation_def eff_basic invoke_target_def invoke_service_def
        service_step_def cache_directive_for_def sample_runner_def sample_executor_def)
  ultimately show ?thesis using that by blast
qed

lemma retry_operation:
  obtains e m1 where "run_operation retry_runner retry_step (service_step ''boom'') input globals seq started None m = (Inl e, m1)"
    "\<not> is_flow_error e" "\<not> is_cancellation e" "same_run m m1"
proof -
  obtain e m1 where call: "invoke retry_runner (service_step ''boom'') (fs_name retry_step) input globals m = (Inl e, m1)"
    "\<not> is_flow_error e" "\<not> is_cancellation e"
    using retry_call by blast
  moreover have "run_operation retry_runner retry_step (service_step ''boom'') input globals seq started None m = (Inl e, m1)"
    using call(1) by (simp add: run_operation_def retry_fields bind_eff_def)
  moreover have "same_run m m1" by (rule frame.staysD [OF frame.stays_invoke call(1)])
  ultimately show ?thesis using that by blast
qed

lemma finish_unbounded: "rn_bounded rn = False \<Longrightarrow> finish_step rn n seq m = (Inr (Next n (Suc seq)), m)"
  by (simp add: finish_step_def checkpoint_after_step_def bind_eff_def ret_def split: option.split)


lemma retry_send:
  assumes "m_episode m = None \<or> (\<exists>ep. m_episode m = Some ep \<and> fep_steps ep = [''pause''])"
  shows "\<exists>m'. execute_step retry_runner ''send'' seq None m = (Inr (Next (Some ''pause'') (Suc seq)), m') \<and>
    (\<exists>ep. m_episode m' = Some ep \<and> fep_steps ep = [''pause''])"
proof -
  let ?m = "(begin_step ''send'' seq m)\<lparr>m_step_started := Some (x_now (rn_executor retry_runner) (m_world m))\<rparr>"
  have ep: "m_episode ?m = None" using assms by (auto simp: begin_step_def split: option.splits)
  obtain e m1 where op: "run_operation retry_runner retry_step (service_step ''boom'') JNull [] seq
      (x_now (rn_executor retry_runner) (m_world m)) None ?m = (Inl e, m1)" "\<not> is_flow_error e" "\<not> is_cancellation e" "same_run ?m m1"
    by (rule retry_operation)
  note same = same_run_fields [OF op(4)]
  have inp: "step_input retry_runner retry_step ?m = (Inr (JNull, True), ?m)"
    by (simp add: step_input_def retry_fields resolve_input_def as_flow_resolution_def)
  have "execute_step retry_runner ''send'' seq None m =
      operation_failed retry_runner retry_step seq (x_now (rn_executor retry_runner) (m_world m)) e m1"
    using inp op(1)
    by (simp add: execute_step_def op_step_def retry_lookup retry_fields bind_eff_def modify_def now_def gets_def
       retry_globals operation_step_def)
  then show ?thesis using op(2,3) same ep
    by (simp add: operation_failed_def retry_fields bind_eff_def gets_def modify_def Let_def finish_unbounded retry_region)
qed

lemma retry_pause:
  assumes "\<exists>ep. m_episode m = Some ep \<and> fep_steps ep = [''pause'']"
  shows "\<exists>m'. execute_step retry_runner ''pause'' seq None m = (Inr (Next (Some ''send'') (Suc seq)), m') \<and>
    (\<exists>ep. m_episode m' = Some ep \<and> fep_steps ep = [''pause''])"
  using assms
proof -
  obtain ep where ep: "m_episode m = Some ep" "fep_steps ep = [''pause'']" using assms by blast
  have "\<not> fs_terminal pause_step" "fs_sleep_sec pause_step = Some 1" "fs_then pause_step = Some ''send''"
    "x_sleep (rn_executor retry_runner) n w = (Inr (), w)" for n w
    by (simp_all add: plain_step_def sample_runner_def sample_executor_def)
  with ep show ?thesis
    by (simp add: execute_step_def retry_lookup sleep_step_def bind_eff_def modify_def perform_def
        set_timing_def finish_unbounded retry_fields begin_step_def)
qed

lemma retry_forever:
  assumes "m_episode m = None"
  shows "flow_loop retry_runner fuel (Some ''send'') seq None m = None"
proof -
  define calm where "calm = (\<lambda>m :: nat mach.
    m_episode m = None \<or> (\<exists>ep. m_episode m = Some ep \<and> fep_steps ep = [''pause'']))"
  have "flow_loop retry_runner fuel (Some ''send'') seq None m = None \<and>
    ((\<exists>ep. m_episode m = Some ep) \<longrightarrow> flow_loop retry_runner fuel (Some ''pause'') seq None m = None)"
    if "calm m" for m seq
    using that
  proof (induction fuel arbitrary: m seq)
    case (Suc fuel)
    then obtain m1 where "execute_step retry_runner ''send'' seq None m = (Inr (Next (Some ''pause'') (Suc seq)), m1)"
      "calm m1" "\<exists>ep. m_episode m1 = Some ep"
      using retry_send [of m seq] by (auto simp: calm_def)
    moreover have "\<exists>m2. execute_step retry_runner ''pause'' seq None m = (Inr (Next (Some ''send'') (Suc seq)), m2) \<and> calm m2"
      if "\<exists>ep. m_episode m = Some ep"
      using retry_pause [of m seq] that Suc.prems by (auto simp: calm_def)
    ultimately show ?case using Suc.IH by auto
  qed simp
  from this [of m seq] assms show ?thesis by (simp add: calm_def)
qed

lemma retry_run_forever: "run retry_runner fuel ''r'' (PDict []) None 0 = None"
proof -
  have "is_ok (fst (prepare_run retry_runner ''r'' (PDict []) (fresh_state retry_runner ''r'' 0)))" by code_simp
  then obtain u m where prep: "prepare_run retry_runner ''r'' (PDict []) (fresh_state retry_runner ''r'' 0) = (Inr u, m)"
    by (cases "prepare_run retry_runner ''r'' (PDict []) (fresh_state retry_runner ''r'' 0)";
        cases "fst (prepare_run retry_runner ''r'' (PDict []) (fresh_state retry_runner ''r'' 0))") auto
  have "wc_flow (sample_config retry_flow) = retry_step # tl retry_flow" by (simp add: sample_defs)
  moreover have "ci_request_id (m_correlation (fresh_state retry_runner ''r'' 0)) = Some ''r''" by code_simp
  ultimately show ?thesis
    using prep retry_forever [OF fresh_prepared(6) [OF prep]]
    by (simp add: run_def execute_def start_state_def retry_fields)
qed

section \<open>A prepared run, and a run after one step\<close>

definition loop_runner :: "nat runner" where
  "loop_runner = sample_runner (loop_flow None) True 2"

definition loop_start :: "nat mach" where
  "loop_start = snd (prepare_run loop_runner ''r'' (PDict []) (fresh_state loop_runner ''r'' 0))"

definition loop_each :: "nat mach" where
  "loop_each = snd (execute_step loop_runner ''fetch'' 0 None loop_start)"

lemma loop_runner_config: "rn_config loop_runner = sample_config (loop_flow None)"
  by (simp add: loop_runner_def)

lemma loop_prepared: "prepare_run loop_runner ''r'' (PDict []) (fresh_state loop_runner ''r'' 0) = (Inr (), loop_start)"
  unfolding loop_start_def by (rule prod_eqI, code_simp) simp

lemma loop_entry: "entry_name (sample_config (loop_flow None)) = ''fetch''"
  by code_simp

lemma loop_fetched: "execute_step loop_runner ''fetch'' 0 None loop_start = (Inr (Next (Some ''each'') 1), loop_each)"
  unfolding loop_each_def by (rule prod_eqI, code_simp) simp

lemma loop_next: "flow_next loop_runner (Some ''fetch'', 0, None, loop_start) (Some ''each'', 1, None, loop_each)"
  by (rule flow_next.step) (simp_all add: loop_fetched)

lemma loop_facts:
  "m_failures loop_each = []" "m_requested loop_each = None" "same_correlation loop_runner ''r'' loop_each"
  unfolding same_correlation_def by code_simp+

text \<open>The iteration, and the until loop with a result that is never satisfying, ask for a fresh history.\<close>

definition each_step :: flow_step where
  "each_step = the (lookup_step loop_runner ''each'')"

definition poll_step :: flow_step where
  "poll_step = the (lookup_step loop_runner ''poll'')"

definition each_run :: "(exn + json \<times> nat \<times> nat) \<times> nat mach" where
  "each_run = run_iteration loop_runner each_step (parsed ''fetch'') (service_step ''ok'') JNull [] 1 0 None loop_each"

definition poll_run :: "(exn + json \<times> nat \<times> bool) \<times> nat mach" where
  "poll_run = run_until loop_runner poll_step (service_step ''wait'') JNull [] 1 0 None loop_each"

definition fetch_end :: "(exn + unit) \<times> nat mach" where
  "fetch_end = checkpoint_after_step (sample_runner (loop_flow None) True 1) (Some ''each'') 1 loop_each"

lemma asks_for_history:
  "each_run = (Inl (raise_kind FlowContinuation), snd each_run)"
  "m_requested (snd each_run) = Some (the (m_requested (snd each_run)))"
  "poll_run = (Inl (raise_kind FlowContinuation), snd poll_run)"
  "m_requested (snd poll_run) = Some (the (m_requested (snd poll_run)))"
  "fetch_end = (Inl (raise_kind FlowContinuation), snd fetch_end)"
  "m_requested (snd fetch_end) = Some (the (m_requested (snd fetch_end)))"
proof -
  show "each_run = (Inl (raise_kind FlowContinuation), snd each_run)"
    by (rule prod_eqI, code_simp) simp
  show "poll_run = (Inl (raise_kind FlowContinuation), snd poll_run)"
    by (rule prod_eqI, code_simp) simp
  show "fetch_end = (Inl (raise_kind FlowContinuation), snd fetch_end)"
    by (rule prod_eqI, code_simp) simp
  have "\<not> Option.is_none (m_requested (snd each_run))" by code_simp
  then show "m_requested (snd each_run) = Some (the (m_requested (snd each_run)))"
    by (cases "m_requested (snd each_run)") simp_all
  have "\<not> Option.is_none (m_requested (snd poll_run))" by code_simp
  then show "m_requested (snd poll_run) = Some (the (m_requested (snd poll_run)))"
    by (cases "m_requested (snd poll_run)") simp_all
  have "\<not> Option.is_none (m_requested (snd fetch_end))" by code_simp
  then show "m_requested (snd fetch_end) = Some (the (m_requested (snd fetch_end)))"
    by (cases "m_requested (snd fetch_end)") simp_all
qed

text \<open>The same loops without checkpoints, the iteration with two parallel tasks and the until loop with one attempt.\<close>

definition parallel_step :: flow_step where
  "parallel_step = each_step\<lparr>fs_parallel := True, fs_max_concurrency := Some 2\<rparr>"

definition parallel_run :: "(exn + json \<times> nat \<times> nat) \<times> nat mach" where
  "parallel_run = run_iteration (unbounded loop_runner) parallel_step (parsed ''fetch'') (service_step ''ok'') JNull [] 1 0
     None loop_each"

definition poll_end :: "(exn + json \<times> nat \<times> bool) \<times> nat mach" where
  "poll_end = run_until (unbounded loop_runner) (poll_step\<lparr>fs_max_iterations := Some 1\<rparr>) (service_step ''wait'') JNull [] 1 0 None loop_each"

lemma loops_end:
  "parallel_run = (Inr (JObj [(''ok'', JObj [(''ok'', JBool True)])], 1, 0), snd parallel_run)"
  "poll_end = (Inr (JObj [(''ok'', JBool False)], 1, False), snd poll_end)"
proof -
  have "fst parallel_run = Inr (JObj [(''ok'', JObj [(''ok'', JBool True)])], 1, 0)" by code_simp
  then show "parallel_run = (Inr (JObj [(''ok'', JObj [(''ok'', JBool True)])], 1, 0), snd parallel_run)"
    by (simp add: prod_eq_iff)
  have "fst poll_end = Inr (JObj [(''ok'', JBool False)], 1, False)" by code_simp
  then show "poll_end = (Inr (JObj [(''ok'', JBool False)], 1, False), snd poll_end)"
    by (simp add: prod_eq_iff)
qed

end
