(* ===== verification/JF_Contracts.thy ===== *)
theory JF_Contracts
  imports JF_Loops
begin

text \<open>
  What the components promise the runner and the authors of workflows, each as one theorem with an
  instance: the JSON boundary, references and placeholders, conditions, the analysis, the audit copy,
  the failure record, and the loops.
\<close>

section \<open>Numbers and their texts\<close>

lemma digit_of_code: "is_digit c \<Longrightarrow> ''0123456789'' ! (char_code c - 48) = c"
proof -
  assume d: "is_digit c"
  then have "char_code (''0123456789'' ! (char_code c - 48)) = char_code c"
    by (subst digit_char) (auto simp: is_digit_def)
  then show ?thesis by (simp add: char_code_def)
qed

lemma nat_of_digits_snoc: "nat_of_digits (xs @ [c]) = 10 * nat_of_digits xs + (char_code c - 48)"
  by (simp add: nat_of_digits_def)

lemma show_nat_of_digits:
  "is_decimal s \<Longrightarrow> \<not> (1 < length s \<and> hd s = CHR ''0'') \<Longrightarrow>
   show_nat (nat_of_digits s) = s \<and> (hd s \<noteq> CHR ''0'' \<longrightarrow> 0 < nat_of_digits s)"
proof (induction s rule: rev_induct)
  case Nil
  then show ?case by (simp add: is_decimal_def)
next
  case (snoc c xs)
  let ?d = "char_code c - 48"
  have c: "is_digit c" "?d < 10" using snoc.prems(1) by (auto simp: is_decimal_def is_digit_def)
  show ?case
  proof (cases "xs = []")
    case True
    have "0 < ?d" if "c \<noteq> CHR ''0''"
    proof (rule ccontr)
      assume "\<not> 0 < ?d"
      then have "?d = 0" by simp
      with digit_of_code [OF c(1)] that show False by simp
    qed
    moreover have "show_nat ?d = [c]" using c digit_of_code [OF c(1)] by (subst show_nat.simps) simp
    ultimately show ?thesis using True by (simp add: nat_of_digits_def)
  next
    case False
    have xs: "is_decimal xs" "hd xs \<noteq> CHR ''0''"
      using snoc.prems False by (cases xs; auto simp: is_decimal_def)+
    then have IH: "show_nat (nat_of_digits xs) = xs" "0 < nat_of_digits xs" using snoc.IH by auto
    then have "show_nat (nat_of_digits (xs @ [c])) = show_nat (nat_of_digits xs) @ [''0123456789'' ! ?d]"
      using c(2) by (subst show_nat.simps) (simp add: nat_of_digits_snoc)
    with IH digit_of_code [OF c(1)] show ?thesis by (simp add: nat_of_digits_snoc)
  qed
qed

lemma show_parsed_component: "parse_component i p = Inr t \<Longrightarrow> show_token t = p"
  by (auto simp: parse_component_def show_int_def show_nat_of_digits split: if_splits)

lemma reference_text:
  assumes "parse_reference (RefText s) = Inr r"
  shows "str_join ''.'' (map show_token (rp_components r)) = s"
proof -
  have "list_all2 (\<lambda>ip t. show_token t = snd ip) (enumerate 0 (str_split (CHR ''.'') s)) (rp_components r)"
    using parse_reference_components [OF assms] by (auto elim!: list.rel_mono_strong dest: show_parsed_component)
  then have "map show_token (rp_components r) = map snd (enumerate 0 (str_split (CHR ''.'') s))"
    by (induction rule: list_all2_induct) auto
  then show ?thesis using str_join_split [of "CHR ''.''" s] by simp
qed

section \<open>The analysis\<close>

text \<open>
  C33. On a flow without a cycle, the symbols the analysis reports for a step reachable from the entry are
  exactly those that every path from the entry makes available, no fewer and no more.
\<close>

theorem availability_is_exact:
  assumes "acyclic (edge_rel (execution_edges w))" "wc_flow w \<noteq> []" "n \<in> normal_reachable w"
  shows "\<exists>A. map_of (normal_available w) n = Some A \<and>
    A = \<Inter>{S. path_makes (execution_edges w) [(entry_name w, workflow_roots w)] n S}"
  using assms by (simp add: normal_available_exact meet_paths_def)

definition tiny_step :: "string \<Rightarrow> string option \<Rightarrow> flow_step" where
  "tiny_step name nxt = (plain_step name)\<lparr>fs_op := Some ''op'', fs_then := nxt\<rparr>"

definition tiny_workflow :: "flow_step list \<Rightarrow> workflow_config" where
  "tiny_workflow flow = \<lparr>wc_workflow = ''demo'', wc_on_complete = None, wc_on_error = None, wc_params = [],
     wc_input_schema = None, wc_output_schema = None, wc_result = None, wc_steps = [], wc_flow = flow\<rparr>"

definition tiny :: workflow_config where
  "tiny = tiny_workflow [tiny_step ''a'' (Some ''b''), tiny_step ''b'' (Some ''c''),
     (plain_step ''c'')\<lparr>fs_terminal := True\<rparr>]"

lemma tiny_acyclic: "acyclic (edge_rel (execution_edges tiny))"
proof -
  have "find_cycle (step_names (wc_flow tiny)) (execution_edges tiny) = None" by code_simp
  then show ?thesis
    using find_cycle_None [of "execution_edges tiny" "step_names (wc_flow tiny)"] execution_edges_ends by blast
qed

lemma availability_is_exact_witness:
  "\<exists>A. map_of (normal_available tiny) ''b'' = Some A \<and>
    A = \<Inter>{S. path_makes (execution_edges tiny) [(entry_name tiny, workflow_roots tiny)] ''b'' S}"
proof (rule availability_is_exact [OF tiny_acyclic])
  show "wc_flow tiny \<noteq> []" by (simp add: tiny_def tiny_workflow_def)
  show "''b'' \<in> normal_reachable tiny" by code_simp
qed

text \<open>
  The search for a cycle reports one exactly when the edges have one, and what it reports is a cycle:
  a sequence of steps, each with an edge to the next, that comes back to its first.
\<close>

theorem cycles_are_found:
  assumes "\<forall>e \<in> set edges. fe_source e \<in> set names"
  shows "case find_cycle names edges of
      None \<Rightarrow> acyclic (edge_rel edges)
    | Some c \<Rightarrow> \<not> acyclic (edge_rel edges) \<and> is_cycle edges c"
proof (cases "find_cycle names edges")
  case None
  then show ?thesis using find_cycle_None [OF assms] by simp
next
  case (Some c)
  then have "is_cycle edges c" by (simp add: find_cycle_def find_cycle_from_Some)
  with Some show ?thesis using is_cycle_trancl [of edges c] by (auto simp: acyclic_def)
qed

lemma cycles_are_found_witness:
  "case find_cycle (step_names (wc_flow tiny)) (execution_edges tiny) of
      None \<Rightarrow> acyclic (edge_rel (execution_edges tiny))
    | Some c \<Rightarrow> \<not> acyclic (edge_rel (execution_edges tiny)) \<and> is_cycle (execution_edges tiny) c"
  by (rule cycles_are_found) (use execution_edges_ends in blast)

text \<open>The worklist gives the steps that the edges lead to, the entries included.\<close>

theorem reachable_is_closure: "reachable edges entries = (edge_rel edges)\<^sup>* `` set entries"
  by (rule reachable_rtrancl)

section \<open>Conditions\<close>




text \<open>
  The references reported for a checked condition have exactly the data roots that its text names.
\<close>

theorem condition_roots_reported:
  assumes "check_node e = Inr ()"
  shows "cr_root ` set (visit_references optional e) = {n \<in> set (expr_names e). is_data_root n}"
  using visit_references_roots [OF assms] by (simp add: expr_roots_def')

lemma condition_roots_reported_witness:
  "cr_root ` set (visit_references False (Compare (Attribute (Name ''input'') ''n'') [(OpLt, Name ''size'')]))
    = {n \<in> set (expr_names (Compare (Attribute (Name ''input'') ''n'') [(OpLt, Name ''size'')])). is_data_root n}"
  by (rule condition_roots_reported) code_simp

section \<open>References and placeholders\<close>

text \<open>
  C35. The components of a parsed reference, written and joined by dots, are its text; the first is an
  identifier, and there are at most 33.
\<close>

theorem reference_round_trip:
  assumes "parse_reference (RefText s) = Inr r"
  shows "str_join ''.'' (map show_token (rp_components r)) = s \<and> rp_value r = s \<and>
    rp_components r \<noteq> [] \<and> length (rp_components r) \<le> MAX_REFERENCE_COMPONENTS \<and>
    reference_root r = Inr (ref_root r) \<and> is_identifier (ref_root r)"
  using reference_text [OF assms] parse_reference_value [OF assms] parse_reference_components [OF assms]
    parse_reference_root [OF assms] parse_reference_head [OF assms]
  by auto

lemma reference_round_trip_witness:
  "str_join ''.'' (map show_token (rp_components (projr (parse_reference (RefText ''fetch.items.12''))))) = ''fetch.items.12'' \<and>
    rp_value (projr (parse_reference (RefText ''fetch.items.12''))) = ''fetch.items.12'' \<and>
    rp_components (projr (parse_reference (RefText ''fetch.items.12''))) \<noteq> [] \<and>
    length (rp_components (projr (parse_reference (RefText ''fetch.items.12'')))) \<le> MAX_REFERENCE_COMPONENTS \<and>
    reference_root (projr (parse_reference (RefText ''fetch.items.12'')))
      = Inr (ref_root (projr (parse_reference (RefText ''fetch.items.12'')))) \<and>
    is_identifier (ref_root (projr (parse_reference (RefText ''fetch.items.12''))))"
proof (rule reference_round_trip)
  have "is_ok (parse_reference (RefText ''fetch.items.12''))" by code_simp
  then show "parse_reference (RefText ''fetch.items.12'') = Inr (projr (parse_reference (RefText ''fetch.items.12'')))"
    by (cases "parse_reference (RefText ''fetch.items.12'')") simp_all
qed

text \<open>
  The placeholders the parser reports are the ones that stand in the text: in their order, without
  overlap, each an identifier between \<open>${\<close> and \<open>}\<close>, and no other opening bracket anywhere.
\<close>

theorem placeholders_located:
  assumes "parse_placeholders s = Inr ps"
  shows "placeholders_ok s 0 ps"
  by (rule parse_placeholders_ok [OF assms])

lemma placeholders_located_witness:
  "placeholders_ok ''to ${a}/${b}'' 0 (projr (parse_placeholders ''to ${a}/${b}''))"
proof (rule placeholders_located)
  have "is_ok (parse_placeholders ''to ${a}/${b}'')" by code_simp
  then show "parse_placeholders ''to ${a}/${b}'' = Inr (projr (parse_placeholders ''to ${a}/${b}''))"
    by (cases "parse_placeholders ''to ${a}/${b}''") simp_all
qed

text \<open>
  A value whose placeholders are well formed is interpolated without an error exactly when every
  placeholder in it names a parameter.
\<close>

theorem interpolation_succeeds:
  assumes "placeholder_names j = Inr ns"
  shows "is_ok (interpolate_params R params j) \<longleftrightarrow> set ns \<subseteq> fst ` set params"
  by (rule interpolate_params_ok [OF assms])

lemma interpolation_succeeds_witness:
  "is_ok (interpolate_params (\<lambda>_. []) [(''a'', JInt 1)] (JList [JStr ''x${a}'', JStr ''${b}'']))
    \<longleftrightarrow> set [''a'', ''b''] \<subseteq> fst ` set [(''a'', JInt 1)]"
  by (rule interpolation_succeeds) code_simp

text \<open>
  A reference resolves to the value its path leads to, from the step outputs first and from the
  parameters otherwise, when the scope fits the limits of JSON data; and it fails otherwise.
\<close>

theorem reference_resolves:
  assumes "parsed_reference r" "scope_fits outputs params"
  shows "resolve_reference (RefParsed r) outputs params = Inr v \<longleftrightarrow> reference_value outputs params r = Some v"
  by (rule resolve_reference_value [OF assms])

lemma reference_resolves_witness:
  "resolve_reference (RefParsed \<lparr>rp_value = ''a.b'', rp_components = [TKey ''a'', TKey ''b'']\<rparr>)
      [(''a'', JObj [(''b'', JInt 1)])] [(''a'', JNull)] = Inr (JInt 1)
    \<longleftrightarrow> reference_value [(''a'', JObj [(''b'', JInt 1)])] [(''a'', JNull)]
      \<lparr>rp_value = ''a.b'', rp_components = [TKey ''a'', TKey ''b'']\<rparr> = Some (JInt 1)"
proof (rule reference_resolves)
  show "parsed_reference \<lparr>rp_value = ''a.b'', rp_components = [TKey ''a'', TKey ''b'']\<rparr>" by code_simp
  show "scope_fits [(''a'', JObj [(''b'', JInt 1)])] [(''a'', JNull)]"
    by (simp add: scope_fits_def DEFAULT_COLLECTION_ITEMS_def MAX_JSON_DEPTH_def)
qed

text \<open>
  Normalizing a Python value gives JSON data within the depth and item limits, and normalizing that
  again gives it back.
\<close>

theorem normalization_projects:
  assumes "normalize_json_value depth items path 0 v = Inr j"
  shows "json_fits depth items j \<and> normalize_json_value depth items path' 0 (of_json j) = Inr j"
  using normalize_fits [OF assms] normalize_of_json [of 0 depth items j] by simp

lemma normalization_projects_witness:
  "json_fits 2 3 (projr (normalize_json_value 2 3 ''v'' 0 (PDict [(KStr ''a'', PTuple [PInt 1])]))) \<and>
    normalize_json_value 2 3 ''w'' 0 (of_json (projr (normalize_json_value 2 3 ''v'' 0 (PDict [(KStr ''a'', PTuple [PInt 1])]))))
    = Inr (projr (normalize_json_value 2 3 ''v'' 0 (PDict [(KStr ''a'', PTuple [PInt 1])])))"
proof (rule normalization_projects)
  let ?r = "normalize_json_value 2 3 ''v'' 0 (PDict [(KStr ''a'', PTuple [PInt 1])])"
  have "is_ok ?r" by code_simp
  then show "?r = Inr (projr ?r)" by (cases ?r) simp_all
qed

section \<open>Audit\<close>

text \<open>
  A metadata-only copy of an audit record does not depend on the payloads: two records that agree
  once their parameters, results, inputs, outputs, globals and messages are removed have the same copy.
\<close>

theorem metadata_independent:
  assumes "strip_payloads r = strip_payloads r'"
  shows "metadata_only r = metadata_only r'"
  using metadata_only_strip [of r] metadata_only_strip [of r'] assms by simp

lemma metadata_independent_witness:
  "metadata_only [(''status'', JStr ''completed''), (''params'', JObj [(''token'', JStr ''secret'')]),
      (''steps'', JObj [(''a'', JObj [(''seq'', JInt 0), (''output'', JStr ''secret'')])])] =
   metadata_only [(''status'', JStr ''completed''), (''params'', JObj []),
      (''steps'', JObj [(''a'', JObj [(''seq'', JInt 0), (''output'', JNull)])])]"
  by (rule metadata_independent) code_simp

text \<open>
  A redaction pointer replaces the values at exactly the positions its tokens match, by their key,
  their index or the wildcard; every other position of the same depth keeps its value.
\<close>

theorem redaction_exact:
  assumes "length path = length tokens"
  shows "json_at (redact_at tokens v) path =
    (if list_all2 token_matches tokens path then map_option (\<lambda>_. REDACTED_VALUE) (json_at v path)
     else json_at v path)"
  using redact_hits [of tokens path v] redact_misses [of tokens path v] assms by simp

lemma redaction_exact_witness:
  "json_at (redact_at [''steps'', ''*'', ''output''] (JObj [(''steps'', JObj [(''a'', JObj [(''output'', JInt 1)])])]))
      [TKey ''steps'', TKey ''a'', TKey ''output''] =
    (if list_all2 token_matches [''steps'', ''*'', ''output''] [TKey ''steps'', TKey ''a'', TKey ''output'']
     then map_option (\<lambda>_. REDACTED_VALUE) (json_at (JObj [(''steps'', JObj [(''a'', JObj [(''output'', JInt 1)])])])
       [TKey ''steps'', TKey ''a'', TKey ''output''])
     else json_at (JObj [(''steps'', JObj [(''a'', JObj [(''output'', JInt 1)])])])
       [TKey ''steps'', TKey ''a'', TKey ''output''])"
  by (rule redaction_exact) simp

text \<open>
  An archived copy says how it was captured, and a full copy is made only when its payloads are
  within the approved size.
\<close>

theorem capture_is_bounded:
  assumes "capture_audit_record n_bytes r capture = Inr c"
  shows "map_of c ''capture_mode'' = Some (JStr (capture_mode capture)) \<and>
    (\<forall>limit. capture = ApprovedFull limit \<longrightarrow>
       (\<exists>n \<le> limit. n_bytes (JList (collect_payloads (JObj r))) = Some n))"
  using capture_stamped [OF assms] capture_within_limit [of n_bytes r _ c] assms by auto

lemma capture_is_bounded_witness:
  "map_of (projr (capture_audit_record (\<lambda>_. Some 7) [(''status'', JStr ''completed'')] (ApprovedFull 8))) ''capture_mode''
      = Some (JStr (capture_mode (ApprovedFull 8))) \<and>
    (\<exists>n \<le> 8. (\<lambda>_. Some (7::nat)) (JList (collect_payloads (JObj [(''status'', JStr ''completed'')]))) = Some n)"
proof -
  let ?r = "capture_audit_record (\<lambda>_. Some 7) [(''status'', JStr ''completed'')] (ApprovedFull 8)"
  have "is_ok ?r" by code_simp
  then have "?r = Inr (projr ?r)" by (cases ?r) simp_all
  then show ?thesis using capture_is_bounded [of "\<lambda>_. Some 7" "[(''status'', JStr ''completed'')]" "ApprovedFull 8"] by blast
qed





section \<open>Models\<close>

text \<open>
  A declaration in the legacy form becomes one with a target and none of the legacy fields, and a
  declaration already normalized stays as it is.
\<close>

theorem legacy_target_normalized:
  assumes "normalize_legacy_target d = Inr d'"
  shows "dict_has d' ''target'' \<and> \<not> list_ex (dict_has d') legacy_keys \<and> normalize_legacy_target d' = Inr d'"
  using normalize_legacy_target_result [OF assms] normalize_legacy_target_idem [OF assms] by simp

lemma legacy_target_normalized_witness:
  "dict_has (projr (normalize_legacy_target [(''workflow'', PStr ''child'')])) ''target'' \<and>
    \<not> list_ex (dict_has (projr (normalize_legacy_target [(''workflow'', PStr ''child'')]))) legacy_keys \<and>
    normalize_legacy_target (projr (normalize_legacy_target [(''workflow'', PStr ''child'')]))
      = Inr (projr (normalize_legacy_target [(''workflow'', PStr ''child'')]))"
proof (rule legacy_target_normalized)
  have "is_ok (normalize_legacy_target [(''workflow'', PStr ''child'')])" by code_simp
  then show "normalize_legacy_target [(''workflow'', PStr ''child'')]
      = Inr (projr (normalize_legacy_target [(''workflow'', PStr ''child'')]))"
    by (cases "normalize_legacy_target [(''workflow'', PStr ''child'')]") simp_all
qed

end
