(* ===== verification/JF_Scope.thy ===== *)
theory JF_Scope
  imports JF_Grammar
begin

text \<open>
  Runtime scopes (\<open>scope.py\<close>) and the identities derived from them (\<open>sdk/message_contract.py\<close>): a scope
  is a tenant, an application and an environment; identities are hashes of JSON arrays of texts, most of
  them with a prefix that names their scope. The hash, the hexadecimal SHA-256 digest of the UTF-8 form of
  a text, is the parameter \<open>sha\<close>; the JSON form of an array of texts is written out, and shown to be
  readable, so that two identities agree only when the hash collides.
\<close>

section \<open>JSON texts\<close>

abbreviation quote_char :: char where "quote_char \<equiv> CHR 0x22"
abbreviation escape_char :: char where "escape_char \<equiv> CHR 0x5C"

text \<open>\<open>json.dumps\<close> of a text with \<open>ensure_ascii=False\<close>.\<close>

definition json_char :: "char \<Rightarrow> string" where
  "json_char c =
     (if c = quote_char \<or> c = escape_char then [escape_char, c]
      else if c = CHR 0x08 then [escape_char, CHR ''b'']
      else if c = CHR 0x09 then [escape_char, CHR ''t'']
      else if c = CHR 0x0A then [escape_char, CHR ''n'']
      else if c = CHR 0x0C then [escape_char, CHR ''f'']
      else if c = CHR 0x0D then [escape_char, CHR ''r'']
      else if char_code c < 32
        then [escape_char, CHR ''u'', CHR ''0'', CHR ''0'', if char_code c < 16 then CHR ''0'' else CHR ''1'',
              ''0123456789abcdef'' ! (char_code c mod 16)]
      else [c])"

definition json_quote :: "string \<Rightarrow> string" where
  "json_quote s = quote_char # concat (map json_char s) @ [quote_char]"

definition json_texts :: "string list \<Rightarrow> string" where
  "json_texts parts = CHR ''['' # str_join '','' (map json_quote parts) @ '']''"

text \<open>The character that an encoded text begins with, and the rest of the text.\<close>

definition hex_value :: "char \<Rightarrow> nat" where
  "hex_value c = (if is_digit c then char_code c - 48 else char_code c - 87)"

definition json_head :: "string \<Rightarrow> char \<times> string" where
  "json_head s = (case s of
       c # rest \<Rightarrow>
         if c \<noteq> escape_char then (c, rest)
         else (case rest of
             d # rest' \<Rightarrow>
               if d = CHR ''b'' then (CHR 0x08, rest')
               else if d = CHR ''t'' then (CHR 0x09, rest')
               else if d = CHR ''n'' then (CHR 0x0A, rest')
               else if d = CHR ''f'' then (CHR 0x0C, rest')
               else if d = CHR ''r'' then (CHR 0x0D, rest')
               else if d = CHR ''u''
                 then (char_of ((if rest' ! 2 = CHR ''1'' then 16 else 0) +
                    hex_value (rest' ! 3)),
                    drop 4 rest')
               else (d, rest')
           | [] \<Rightarrow> (c, []))
     | [] \<Rightarrow> (quote_char, []))"

lemma char_eq_code: "c = d \<longleftrightarrow> char_code c = char_code d"
  by (simp add: char_code_def)

lemma char_of_code: "char_of (char_code c) = c"
  by (simp add: char_code_def)

lemma hex_value_digit: "n < 16 \<Longrightarrow> hex_value (''0123456789abcdef'' ! n) = n"
proof -
  assume "n < 16"
  then have "n \<in> {0, 1, 2, 3, 4, 5, 6, 7, 8, 9, 10, 11, 12, 13, 14, 15}" by (auto simp: numeral_eq_Suc less_Suc_eq)
  then show ?thesis by (auto simp: hex_value_def is_digit_def char_code_def)
qed

lemma control_code: "char_code c < 32 \<Longrightarrow> (if char_code c < 16 then 0 else 16) + char_code c mod 16 = char_code c"
  by (auto simp: mod_if)

lemma json_head_char: "json_head (json_char c @ rest) = (c, rest)"
proof (cases "char_code c < 32 \<and> c \<notin> {CHR 0x08, CHR 0x09, CHR 0x0A, CHR 0x0C, CHR 0x0D}")
  case True
  then have "c \<noteq> quote_char" "c \<noteq> escape_char" by (auto simp: char_code_def)
  moreover have "char_of ((if char_code c < 16 then 0 else 16) + char_code c mod 16) = c"
    using True control_code [of c] by (simp add: char_of_code)
  ultimately show ?thesis
    using True by (cases "char_code c < 16") (simp_all add: json_char_def json_head_def hex_value_digit char_of_code)
next
  case False
  then show ?thesis by (auto simp: json_char_def json_head_def)
qed

lemma json_char_start: "json_char c = x # xs \<Longrightarrow> x \<noteq> quote_char"
  by (auto simp: json_char_def split: if_splits)

lemma json_char_nonempty: "json_char c \<noteq> []"
  by (simp add: json_char_def)

lemma json_body_inject:
  "concat (map json_char s) @ quote_char # r = concat (map json_char t) @ quote_char # r' \<Longrightarrow> s = t \<and> r = r'"
proof (induction s arbitrary: t)
  case Nil
  then show ?case
    using json_char_nonempty [of "hd t"] json_char_start [of "hd t"]
    by (cases t; cases "json_char (hd t)") auto
next
  case (Cons c s)
  show ?case
  proof (cases t)
    case Nil
    with Cons.prems show ?thesis
      using json_char_nonempty [of c] json_char_start [of c] by (cases "json_char c") auto
  next
    case (Cons d t')
    with Cons.prems have "json_char c @ concat (map json_char s) @ quote_char # r
        = json_char d @ concat (map json_char t') @ quote_char # r'" by simp
    from arg_cong [OF this, of json_head] have "c = d"
      "concat (map json_char s) @ quote_char # r = concat (map json_char t') @ quote_char # r'"
      by (simp_all add: json_head_char)
    with Cons.IH Cons show ?thesis by blast
  qed
qed

lemma json_quote_inject: "json_quote s @ r = json_quote t @ r' \<Longrightarrow> s = t \<and> r = r'"
  using json_body_inject [of s r t r'] by (simp add: json_quote_def)

lemma json_join_inject:
  "str_join '','' (map json_quote xs) @ '']'' = str_join '','' (map json_quote ys) @ '']'' \<Longrightarrow> xs = ys"
proof (induction xs arbitrary: ys)
  case Nil
  then show ?case
    by (cases ys rule: list.exhaust; cases "tl ys") (auto simp: json_quote_def)
next
  case (Cons x xs)
  from Cons.prems obtain y ys' where ys: "ys = y # ys'"
    by (cases ys; cases xs) (auto simp: json_quote_def)
  show ?case
  proof (cases xs)
    case Nil
    with Cons.prems ys have "json_quote x @ '']'' = json_quote y @ (if ys' = [] then '']'' else '','' @ str_join '','' (map json_quote ys') @ '']'')"
      by (cases ys') auto
    from json_quote_inject [OF this] show ?thesis using Nil ys by (auto split: if_splits)
  next
    case (Cons x2 xs')
    with Cons.prems ys have "json_quote x @ '','' @ str_join '','' (map json_quote xs) @ '']''
        = json_quote y @ (if ys' = [] then '']'' else '','' @ str_join '','' (map json_quote ys') @ '']'')"
      by (cases ys') auto
    from json_quote_inject [OF this] have "x = y" "ys' \<noteq> []"
      "str_join '','' (map json_quote xs) @ '']'' = str_join '','' (map json_quote ys') @ '']''"
      by (auto split: if_splits)
    with Cons.IH ys show ?thesis by blast
  qed
qed

lemma json_texts_inject: "json_texts xs = json_texts ys \<longleftrightarrow> xs = ys"
  using json_join_inject by (auto simp: json_texts_def)

section \<open>Scopes\<close>

definition MAX_SCOPE_COMPONENT_LENGTH :: nat where "MAX_SCOPE_COMPONENT_LENGTH = 64"
definition SCOPE_DIGEST_LENGTH :: nat where "SCOPE_DIGEST_LENGTH = 64"
definition MAX_SCOPED_IDENTITY_KIND_LENGTH :: nat where "MAX_SCOPED_IDENTITY_KIND_LENGTH = 32"
definition SCOPED_IDENTITY_VERSION :: string where "SCOPED_IDENTITY_VERSION = ''jf1''"

definition is_alnum :: "char \<Rightarrow> bool" where
  "is_alnum c \<longleftrightarrow> is_alpha c \<or> is_digit c"

text \<open>\<open>SCOPE_COMPONENT_PATTERN\<close> with the length bounds of \<open>_ScopeIdentity\<close>.\<close>

definition is_scope_component :: "string \<Rightarrow> bool" where
  "is_scope_component s \<longleftrightarrow> s \<noteq> [] \<and> length s \<le> MAX_SCOPE_COMPONENT_LENGTH \<and> is_alnum (hd s) \<and>
     list_all (\<lambda>c. is_alnum c \<or> c \<in> set ''._-'') (tl s)"

record runtime_scope =
  rs_tenant :: string
  rs_application :: string
  rs_environment :: string

datatype scope_error =
    InvalidScopeComponent | InvalidScopeDigest | InvalidIdentityKind | NoScopeGrant | BindingMismatch

text \<open>\<open>RuntimeScope.create\<close>.\<close>

definition create_scope :: "string \<Rightarrow> string \<Rightarrow> string \<Rightarrow> scope_error + runtime_scope" where
  "create_scope tenant application env =
     (if list_all is_scope_component [tenant, application, env]
      then Inr \<lparr>rs_tenant = tenant, rs_application = application, rs_environment = env\<rparr>
      else Inl InvalidScopeComponent)"

definition scope_payload :: "runtime_scope \<Rightarrow> string" where
  "scope_payload sc = json_texts [rs_tenant sc, rs_application sc, rs_environment sc]"

definition scope_digest_of :: "(string \<Rightarrow> string) \<Rightarrow> runtime_scope \<Rightarrow> string" where
  "scope_digest_of sha sc = sha (scope_payload sc)"

definition LOCAL_RUNTIME_SCOPE :: runtime_scope where
  "LOCAL_RUNTIME_SCOPE =
     \<lparr>rs_tenant = ''local'', rs_application = ''justflow'', rs_environment = ''development''\<rparr>"

datatype unscoped_mode = REJECT | LOCAL_ONLY

text \<open>\<open>ScopeCompatibilityPolicy.owns\<close>.\<close>

definition owns_scope :: "(string \<Rightarrow> string) \<Rightarrow> unscoped_mode \<Rightarrow> string option \<Rightarrow> runtime_scope \<Rightarrow> bool" where
  "owns_scope sha mode observed sc \<longleftrightarrow>
     observed = Some (scope_digest_of sha sc) \<or>
     observed = None \<and> mode = LOCAL_ONLY \<and> sc = LOCAL_RUNTIME_SCOPE"

datatype binding_kind = BindApi | BindWebhook | BindBroker | BindSchedule | BindCloudEvent | BindHost

record scope_binding =
  sb_kind :: binding_kind
  sb_scope :: runtime_scope
  sb_binding_id :: string

definition require_scope_grant :: "runtime_scope set \<Rightarrow> runtime_scope \<Rightarrow> scope_error + runtime_scope" where
  "require_scope_grant granted required = (if required \<in> granted then Inr required else Inl NoScopeGrant)"

definition require_bound_scope :: "scope_binding \<Rightarrow> binding_kind \<Rightarrow> runtime_scope \<Rightarrow> scope_error + runtime_scope" where
  "require_bound_scope b expected required =
     (if sb_kind b \<noteq> expected \<or> sb_scope b \<noteq> required then Inl BindingMismatch else Inr required)"

section \<open>Identities\<close>

definition is_lower_hex :: "char \<Rightarrow> bool" where
  "is_lower_hex c \<longleftrightarrow> is_digit c \<or> 97 \<le> char_code c \<and> char_code c \<le> 102"

definition is_digest :: "string \<Rightarrow> bool" where
  "is_digest s \<longleftrightarrow> length s = SCOPE_DIGEST_LENGTH \<and> list_all is_lower_hex s"

definition validate_scope_digest :: "string \<Rightarrow> scope_error + string" where
  "validate_scope_digest s = (if is_digest s then Inr s else Inl InvalidScopeDigest)"

definition is_identity_kind :: "string \<Rightarrow> bool" where
  "is_identity_kind k \<longleftrightarrow> k \<noteq> [] \<and> length k \<le> MAX_SCOPED_IDENTITY_KIND_LENGTH \<and>
     97 \<le> char_code (hd k) \<and> char_code (hd k) \<le> 122 \<and>
     list_all (\<lambda>c. 97 \<le> char_code c \<and> char_code c \<le> 122 \<or> is_digit c \<or> c \<in> set ''_-'') (tl k)"

definition identity_prefix :: "string \<Rightarrow> string \<Rightarrow> string" where
  "identity_prefix kind digest = SCOPED_IDENTITY_VERSION @ ''.'' @ kind @ ''.'' @ digest @ ''.''"

definition scoped_identity_prefix ::
    "(string \<Rightarrow> string) \<Rightarrow> string \<Rightarrow> runtime_scope \<Rightarrow> scope_error + string" where
  "scoped_identity_prefix sha kind sc =
     bind_result (guard_result (is_identity_kind kind) InvalidIdentityKind) (\<lambda>_.
       Inr (identity_prefix kind (scope_digest_of sha sc)))"

definition scoped_identity_from_digest ::
    "(string \<Rightarrow> string) \<Rightarrow> string \<Rightarrow> string \<Rightarrow> string list \<Rightarrow> scope_error + string" where
  "scoped_identity_from_digest sha kind digest parts =
     bind_result (guard_result (is_identity_kind kind) InvalidIdentityKind) (\<lambda>_.
     bind_result (validate_scope_digest digest) (\<lambda>d.
       Inr (identity_prefix kind d @ sha (json_texts parts))))"

definition scoped_identity ::
    "(string \<Rightarrow> string) \<Rightarrow> string \<Rightarrow> runtime_scope \<Rightarrow> string list \<Rightarrow> scope_error + string" where
  "scoped_identity sha kind sc parts = scoped_identity_from_digest sha kind (scope_digest_of sha sc) parts"

definition safe_identity_digest :: "(string \<Rightarrow> string) \<Rightarrow> string \<Rightarrow> string \<Rightarrow> scope_error + string" where
  "safe_identity_digest sha kind v =
     bind_result (guard_result (is_identity_kind kind) InvalidIdentityKind) (\<lambda>_. Inr (sha (json_texts [kind, v])))"

definition identity_belongs_to_scope ::
    "(string \<Rightarrow> string) \<Rightarrow> string \<Rightarrow> string \<Rightarrow> runtime_scope \<Rightarrow> scope_error + bool" where
  "identity_belongs_to_scope sha v kind sc =
     bind_result (scoped_identity_prefix sha kind sc) (\<lambda>prefix. Inr (take (length prefix) v = prefix))"

text \<open>The identities of messages (\<open>sdk/message_contract.py\<close>).\<close>

definition stable_identity :: "(string \<Rightarrow> string) \<Rightarrow> string list \<Rightarrow> string" where
  "stable_identity sha parts = sha (json_texts parts)"

definition make_workflow_id ::
    "(string \<Rightarrow> string) \<Rightarrow> string \<Rightarrow> string \<Rightarrow> runtime_scope option \<Rightarrow> scope_error + string" where
  "make_workflow_id sha workflow request_id sc = (case sc of
       None \<Rightarrow> Inr (stable_identity sha [''workflow'', workflow, request_id])
     | Some s \<Rightarrow> scoped_identity sha ''workflow'' s [workflow, request_id])"

definition make_trigger_message_id ::
    "(string \<Rightarrow> string) \<Rightarrow> string \<Rightarrow> string \<Rightarrow> string \<Rightarrow> runtime_scope option \<Rightarrow> scope_error + string" where
  "make_trigger_message_id sha workflow definition_digest request_id sc = (case sc of
       None \<Rightarrow> Inr (stable_identity sha [''trigger'', workflow, definition_digest, request_id])
     | Some s \<Rightarrow> scoped_identity sha ''trigger'' s [workflow, definition_digest, request_id])"

definition make_step_invocation_id :: "(string \<Rightarrow> string) \<Rightarrow> string \<Rightarrow> string \<Rightarrow> string \<Rightarrow> string" where
  "make_step_invocation_id sha workflow_id run_id step = stable_identity sha [''step'', workflow_id, run_id, step]"

definition make_step_request_message_id :: "(string \<Rightarrow> string) \<Rightarrow> string \<Rightarrow> string" where
  "make_step_request_message_id sha invocation_id = stable_identity sha [''step_request'', invocation_id]"

definition make_signal_key :: "string \<Rightarrow> string \<Rightarrow> string \<Rightarrow> string" where
  "make_signal_key request_id step action = request_id @ '':'' @ step @ '':'' @ action"

section \<open>Scopes do not mix\<close>

lemma scope_payload_inject: "scope_payload a = scope_payload b \<longleftrightarrow> a = b"
  by (cases a; cases b) (simp add: scope_payload_def json_texts_inject)

lemma kind_has_no_dot: "is_identity_kind k \<Longrightarrow> CHR ''.'' \<notin> set k"
  by (cases k) (auto simp: is_identity_kind_def list_all_iff is_digit_def char_code_def)

lemma prefix_until_dot:
  "CHR ''.'' \<notin> set a \<Longrightarrow> CHR ''.'' \<notin> set b \<Longrightarrow> a @ CHR ''.'' # r = b @ CHR ''.'' # r' \<Longrightarrow> a = b \<and> r = r'"
  by (induction a arbitrary: b) (case_tac b; auto)+

lemma identity_prefix_inject:
  assumes "is_identity_kind k" "is_identity_kind k'" "length d = length d'"
    and "identity_prefix k d @ r = identity_prefix k' d' @ r'"
  shows "k = k' \<and> d = d' \<and> r = r'"
  using assms(3,4) prefix_until_dot [OF kind_has_no_dot [OF assms(1)] kind_has_no_dot [OF assms(2)],
      of "d @ ''.'' @ r" "d' @ ''.'' @ r'"]
  by (simp add: identity_prefix_def)

lemma take_prefix_append: "take (length p) (q @ s) = p \<longleftrightarrow> (\<exists>r. q @ s = p @ r)"
  by (metis append_eq_conv_conj append_take_drop_id)

lemma identity_of_scope:
  assumes "scoped_identity sha kind a parts = Inr v" "length (scope_digest_of sha b) = SCOPE_DIGEST_LENGTH"
  shows "identity_belongs_to_scope sha v kind b = Inr (scope_digest_of sha a = scope_digest_of sha b)"
proof -
  have v: "v = identity_prefix kind (scope_digest_of sha a) @ sha (json_texts parts)"
    and k: "is_identity_kind kind" "is_digest (scope_digest_of sha a)"
    using assms(1) by (auto simp: scoped_identity_def scoped_identity_from_digest_def validate_scope_digest_def
        bind_result_eq_Inr split: if_splits)
  have "take (length (identity_prefix kind (scope_digest_of sha b))) v = identity_prefix kind (scope_digest_of sha b)
      \<longleftrightarrow> scope_digest_of sha a = scope_digest_of sha b"
    unfolding v take_prefix_append
    using identity_prefix_inject [OF k(1) k(1), of "scope_digest_of sha a" "scope_digest_of sha b"] k(2) assms(2)
    by (auto simp: is_digest_def)
  then show ?thesis using k(1) by (simp add: identity_belongs_to_scope_def scoped_identity_prefix_def guard_result_def)
qed

lemma scoped_identity_inject:
  assumes "scoped_identity sha k a ps = Inr v" "scoped_identity sha k' b qs = Inr v"
  shows "k = k' \<and> scope_digest_of sha a = scope_digest_of sha b \<and> sha (json_texts ps) = sha (json_texts qs)"
proof -
  have "identity_prefix k (scope_digest_of sha a) @ sha (json_texts ps) =
      identity_prefix k' (scope_digest_of sha b) @ sha (json_texts qs)"
    and "is_identity_kind k" "is_identity_kind k'"
    and "length (scope_digest_of sha a) = length (scope_digest_of sha b)"
    using assms by (auto simp: scoped_identity_def scoped_identity_from_digest_def validate_scope_digest_def is_digest_def
        bind_result_eq_Inr split: if_splits)
  from identity_prefix_inject [OF this(2-4) this(1)] show ?thesis .
qed

end
