(* ===== verification/JF_Delivery.thy ===== *)
theory JF_Delivery
  imports JF_Scope JF_Errors
begin

text \<open>
  Bounded duplicate tracking (\<open>engine/deduplication.py\<close>) and reconnect backoff
  (\<open>engine/consumer_backoff.py\<close>): the store of the response relay as a state with one function per
  method, its invariant, and what a claim, a completion and a release promise; the delays of the backoff.
\<close>

section \<open>The store\<close>

datatype duplicate_state = InFlight | Completed | CapacityExhausted

text \<open>
  \<open>complete\<close> and \<open>release\<close> compare claims with \<open>is\<close>, so a claim carries the identity of its object.
\<close>

record delivery_claim =
  dc_message_id :: string
  dc_object :: nat

record dedup_store =
  ds_capacity :: nat
  ds_retention :: rat
  ds_entries :: "(string \<times> rat) list"
  ds_pending :: "(string \<times> delivery_claim) list"
  ds_objects :: nat

datatype store_error = CapacityNotPositive | RetentionNotPositive

text \<open>\<open>retention_seconds\<close>: a finite positive number, not a boolean.\<close>

fun retention_of :: "pyval \<Rightarrow> rat option" where
  "retention_of (PInt i) = (if 0 < i then Some (of_int i) else None)"
| "retention_of (PFloat (Fin q)) = (if 0 < q then Some q else None)"
| "retention_of _ = None"

definition new_store :: "int \<Rightarrow> pyval \<Rightarrow> store_error + dedup_store" where
  "new_store capacity retention =
     (if capacity < 1 then Inl CapacityNotPositive
      else (case retention_of retention of
          None \<Rightarrow> Inl RetentionNotPositive
        | Some r \<Rightarrow> Inr \<lparr>ds_capacity = nat capacity, ds_retention = r, ds_entries = [], ds_pending = [],
            ds_objects = 0\<rparr>))"

text \<open>\<open>_expire\<close>.\<close>

definition expire :: "rat \<Rightarrow> dedup_store \<Rightarrow> dedup_store" where
  "expire t st = st\<lparr>ds_entries := filter (\<lambda>me. \<not> snd me \<le> t) (ds_entries st)\<rparr>"

text \<open>
  The loop that drops the oldest entry until there is room. The entries do not run out before there is,
  as fewer messages are pending than the capacity.
\<close>

fun evict :: "nat \<Rightarrow> nat \<Rightarrow> (string \<times> rat) list \<Rightarrow> (string \<times> rat) list" where
  "evict capacity pending [] = []"
| "evict capacity pending (e # es) =
     (if capacity \<le> length (e # es) + pending then evict capacity pending es else e # es)"

definition claim_delivery :: "rat \<Rightarrow> string \<Rightarrow> dedup_store \<Rightarrow> (duplicate_state + delivery_claim) \<times> dedup_store" where
  "claim_delivery t message st0 =
     (let st = expire t st0
      in if dict_has (ds_entries st) message then (Inl Completed, st)
         else if dict_has (ds_pending st) message then (Inl InFlight, st)
         else if ds_capacity st \<le> length (ds_pending st) then (Inl CapacityExhausted, st)
         else (let c = \<lparr>dc_message_id = message, dc_object = ds_objects st\<rparr>
               in (Inr c, st\<lparr>
                    ds_entries := evict (ds_capacity st) (length (ds_pending st)) (ds_entries st),
                    ds_pending := dict_set message c (ds_pending st),
                    ds_objects := Suc (ds_objects st)\<rparr>)))"

definition dict_delete :: "'k \<Rightarrow> ('k \<times> 'v) list \<Rightarrow> ('k \<times> 'v) list" where
  "dict_delete k d = filter (\<lambda>kv. fst kv \<noteq> k) d"

definition complete_delivery :: "rat \<Rightarrow> delivery_claim \<Rightarrow> dedup_store \<Rightarrow> dedup_store" where
  "complete_delivery t c st =
     (if map_of (ds_pending st) (dc_message_id c) = Some c
      then st\<lparr>ds_pending := dict_delete (dc_message_id c) (ds_pending st),
              ds_entries := dict_set (dc_message_id c) (t + ds_retention st) (ds_entries st)\<rparr>
      else st)"

definition release_delivery :: "delivery_claim \<Rightarrow> dedup_store \<Rightarrow> dedup_store" where
  "release_delivery c st =
     (if map_of (ds_pending st) (dc_message_id c) = Some c
      then st\<lparr>ds_pending := dict_delete (dc_message_id c) (ds_pending st)\<rparr> else st)"

definition clear_deliveries :: "dedup_store \<Rightarrow> dedup_store" where
  "clear_deliveries st = st\<lparr>ds_entries := [], ds_pending := []\<rparr>"

section \<open>The invariant\<close>

text \<open>
  The tracked messages are bounded by the capacity, no message is tracked twice, and a pending claim is
  filed under its message and was made by this store.
\<close>

definition store_ok :: "dedup_store \<Rightarrow> bool" where
  "store_ok st \<longleftrightarrow> 0 < ds_retention st \<and> length (ds_entries st) + length (ds_pending st) \<le> ds_capacity st \<and>
     distinct (map fst (ds_entries st) @ map fst (ds_pending st)) \<and>
     (\<forall>m c. (m, c) \<in> set (ds_pending st) \<longrightarrow> dc_message_id c = m \<and> dc_object c < ds_objects st)"

lemma dict_delete_keys: "map fst (dict_delete k d) = filter (\<lambda>x. x \<noteq> k) (map fst d)"
  by (simp add: dict_delete_def filter_map o_def)

lemma dict_delete_set: "set (dict_delete k d) = {kv \<in> set d. fst kv \<noteq> k}"
  by (auto simp: dict_delete_def)

lemma dict_delete_get: "map_of (dict_delete k d) k' = (if k' = k then None else map_of d k')"
  by (induction d) (auto simp: dict_delete_def)

lemma dict_set_new: "k \<notin> fst ` set d \<Longrightarrow> dict_set k v d = d @ [(k, v)]"
  by (induction d) auto

lemma evict_suffix: "\<exists>old. es = old @ evict capacity pending es"
proof (induction es)
  case (Cons e es)
  then show ?case by (metis append_Cons append_Nil evict.simps(2))
qed simp

lemma evict_room: "pending < capacity \<Longrightarrow> length (evict capacity pending es) + pending < capacity"
  by (induction es) auto

lemma evict_only_full:
  "length es + pending < capacity \<Longrightarrow> evict capacity pending es = es"
  by (cases es) auto

lemma evict_keeps: "capacity \<le> length es + pending \<Longrightarrow> pending < capacity \<Longrightarrow>
   length (evict capacity pending es) + pending = capacity - 1"
proof (induction es)
  case (Cons e es)
  then show ?case
    by (cases "capacity \<le> length es + pending") (auto simp: evict_only_full)
qed simp

lemma store_okD:
  assumes "store_ok st"
  shows "0 < ds_retention st" "length (ds_entries st) + length (ds_pending st) \<le> ds_capacity st"
    "distinct (map fst (ds_entries st))" "distinct (map fst (ds_pending st))"
    "fst ` set (ds_entries st) \<inter> fst ` set (ds_pending st) = {}"
    "(m, c) \<in> set (ds_pending st) \<Longrightarrow> dc_message_id c = m \<and> dc_object c < ds_objects st"
  using assms by (auto simp: store_ok_def)

lemma store_okI:
  assumes "0 < ds_retention st" "length (ds_entries st) + length (ds_pending st) \<le> ds_capacity st"
    "distinct (map fst (ds_entries st))" "distinct (map fst (ds_pending st))"
    "fst ` set (ds_entries st) \<inter> fst ` set (ds_pending st) = {}"
    "\<And>m c. (m, c) \<in> set (ds_pending st) \<Longrightarrow> dc_message_id c = m \<and> dc_object c < ds_objects st"
  shows "store_ok st"
  using assms by (simp add: store_ok_def)

lemma expire_ok: "store_ok st \<Longrightarrow> store_ok (expire t st)"
proof (rule store_okI)
  assume ok: "store_ok st"
  note d = store_okD [OF ok]
  show "length (ds_entries (expire t st)) + length (ds_pending (expire t st)) \<le> ds_capacity (expire t st)"
    using d(2) by (auto simp: expire_def intro: order_trans [OF add_right_mono [OF length_filter_le]])
  show "fst ` set (ds_entries (expire t st)) \<inter> fst ` set (ds_pending (expire t st)) = {}"
    using d(5) by (auto simp: expire_def)
qed (use store_okD [of st] in \<open>auto simp: expire_def distinct_map_filter\<close>)

lemma claim_ok:
  assumes "store_ok st0" "claim_delivery t message st0 = (r, st')"
  shows "store_ok st'"
proof -
  let ?st = "expire t st0"
  have ok: "store_ok ?st" by (rule expire_ok [OF assms(1)])
  show ?thesis
  proof (cases r)
    case (Inl d)
    then show ?thesis using assms(2) ok by (auto simp: claim_delivery_def Let_def split: if_splits)
  next
    case (Inr c)
    let ?es = "evict (ds_capacity ?st) (length (ds_pending ?st)) (ds_entries ?st)"
    have new: "message \<notin> fst ` set (ds_entries ?st)" "message \<notin> fst ` set (ds_pending ?st)"
        "length (ds_pending ?st) < ds_capacity ?st"
      and c: "c = \<lparr>dc_message_id = message, dc_object = ds_objects ?st\<rparr>"
      and st': "st' = ?st\<lparr>ds_entries := ?es, ds_pending := ds_pending ?st @ [(message, c)], ds_objects := Suc (ds_objects ?st)\<rparr>"
      using assms(2) Inr by (auto simp: claim_delivery_def Let_def dict_has_iff dict_set_new split: if_splits)
    obtain old where old: "ds_entries ?st = old @ ?es" using evict_suffix by blast
    have "distinct (map fst ?es @ map fst (ds_pending ?st))"
      using ok old unfolding store_ok_def by (metis append_assoc distinct_append map_append)
    moreover have "fst ` set ?es \<subseteq> fst ` set (ds_entries ?st)" using old by (metis Un_upper2 image_mono set_append)
    ultimately show ?thesis
      using ok new evict_room [OF new(3), of "ds_entries ?st"] by (auto simp: store_ok_def st' c less_Suc_eq)
  qed
qed

lemma delete_ok:
  assumes "store_ok st"
  shows "store_ok (st\<lparr>ds_pending := dict_delete m (ds_pending st)\<rparr>)"
proof (rule store_okI)
  note d = store_okD [OF assms]
  show "length (ds_entries (st\<lparr>ds_pending := dict_delete m (ds_pending st)\<rparr>)) +
      length (ds_pending (st\<lparr>ds_pending := dict_delete m (ds_pending st)\<rparr>)) \<le>
      ds_capacity (st\<lparr>ds_pending := dict_delete m (ds_pending st)\<rparr>)"
    using d(2) by (auto simp: dict_delete_def intro: order_trans [OF add_left_mono [OF length_filter_le]])
  show "fst ` set (ds_entries (st\<lparr>ds_pending := dict_delete m (ds_pending st)\<rparr>)) \<inter>
      fst ` set (ds_pending (st\<lparr>ds_pending := dict_delete m (ds_pending st)\<rparr>)) = {}"
    using d(5) by (auto simp: dict_delete_set)
qed (use store_okD [OF assms] in \<open>auto simp: dict_delete_keys dict_delete_set\<close>)

lemma complete_ok:
  assumes "store_ok st"
  shows "store_ok (complete_delivery t c st)"
proof (cases "map_of (ds_pending st) (dc_message_id c) = Some c")
  case True
  let ?m = "dc_message_id c"
  let ?st = "st\<lparr>ds_pending := dict_delete ?m (ds_pending st)\<rparr>"
  have mem: "(?m, c) \<in> set (ds_pending st)" using True by (rule map_of_SomeD)
  then have new: "?m \<notin> fst ` set (ds_entries st)" using store_okD(5) [OF assms] by force
  have fewer: "length (dict_delete ?m (ds_pending st)) < length (ds_pending st)"
    using mem unfolding dict_delete_def by (intro length_filter_less) auto
  have c: "complete_delivery t c st = ?st\<lparr>ds_entries := ds_entries st @ [(?m, t + ds_retention st)]\<rparr>"
    using True by (simp add: complete_delivery_def dict_set_new [OF new])
  have d: "store_ok ?st" by (rule delete_ok [OF assms])
  show ?thesis unfolding c
  proof (rule store_okI, goal_cases)
    case 2
    show ?case using store_okD(2) [OF assms] fewer by simp
  next
    case 5
    show ?case using store_okD(5) [OF d] by (auto simp: dict_delete_set)
  qed (use store_okD [OF d] new in auto)
qed (use assms in \<open>simp add: complete_delivery_def\<close>)

lemma release_ok: "store_ok st \<Longrightarrow> store_ok (release_delivery c st)"
  by (simp add: release_delivery_def delete_ok)

lemma clear_ok: "store_ok st \<Longrightarrow> store_ok (clear_deliveries st)"
  by (simp add: store_ok_def clear_deliveries_def)

lemma new_store_ok: "new_store capacity retention = Inr st \<Longrightarrow> store_ok st"
  by (cases retention rule: retention_of.cases)
     (auto simp: new_store_def store_ok_def split: if_splits option.splits)

section \<open>What the operations promise\<close>

text \<open>The claim that holds a message, and the messages known to be delivered.\<close>

definition held_claim :: "dedup_store \<Rightarrow> string \<Rightarrow> delivery_claim option" where
  "held_claim st m = map_of (ds_pending st) m"

definition delivered :: "dedup_store \<Rightarrow> string set" where
  "delivered st = fst ` set (ds_entries st)"

lemma expire_fields [simp]:
  "ds_pending (expire t st) = ds_pending st" "ds_capacity (expire t st) = ds_capacity st"
  "ds_objects (expire t st) = ds_objects st" "ds_retention (expire t st) = ds_retention st"
  by (simp_all add: expire_def)

lemma has_live: "dict_has (ds_entries (expire t st)) m \<longleftrightarrow> (\<exists>e. (m, e) \<in> set (ds_entries st) \<and> t < e)"
  by (force simp: dict_has_iff expire_def)

lemma has_held: "dict_has (ds_pending st) m \<longleftrightarrow> held_claim st m \<noteq> None"
  by (simp add: dict_has_iff held_claim_def map_of_eq_None_iff)

lemma claim_outcome:
  "fst (claim_delivery t m st) =
     (if \<exists>e. (m, e) \<in> set (ds_entries st) \<and> t < e then Inl Completed
      else if held_claim st m \<noteq> None then Inl InFlight
      else if ds_capacity st \<le> length (ds_pending st) then Inl CapacityExhausted
      else Inr \<lparr>dc_message_id = m, dc_object = ds_objects st\<rparr>)"
  by (simp add: claim_delivery_def Let_def has_live has_held)

lemma claim_keeps_held:
  "claim_delivery t m st = (Inl d, st') \<Longrightarrow> held_claim st' = held_claim st \<and> delivered st' \<subseteq> delivered st"
  by (auto simp: claim_delivery_def Let_def held_claim_def [abs_def] delivered_def expire_def split: if_splits)

lemma claim_completed: "claim_delivery t m st = (Inl Completed, st') \<Longrightarrow> m \<in> delivered st"
  using claim_outcome [of t m st] by (force simp: delivered_def split: if_splits)

lemma claim_new:
  assumes "claim_delivery t m st = (Inr c, st')"
  shows "held_claim st m = None" "held_claim st' = (held_claim st)(m \<mapsto> c)" "delivered st' \<subseteq> delivered st"
    "dc_message_id c = m" "dc_object c = ds_objects st"
proof -
  have c: "held_claim st m = None" "c = \<lparr>dc_message_id = m, dc_object = ds_objects st\<rparr>"
    using claim_outcome [of t m st] assms by (auto split: if_splits)
  have st': "ds_pending st' = dict_set m c (ds_pending st)"
      "ds_entries st' = evict (ds_capacity st) (length (ds_pending st)) (ds_entries (expire t st))"
    using assms by (auto simp: claim_delivery_def Let_def expire_def split: if_splits)
  show "held_claim st m = None" "dc_message_id c = m" "dc_object c = ds_objects st" using c by simp_all
  show "held_claim st' = (held_claim st)(m \<mapsto> c)"
    by (rule ext) (simp add: held_claim_def st' dict_get_set)
  obtain old where "ds_entries (expire t st) = old @ ds_entries st'"
    using evict_suffix [of "ds_entries (expire t st)"] st'(2) by metis
  then have "set (ds_entries st') \<subseteq> set (ds_entries st)" by (auto simp: expire_def dest!: arg_cong [of _ _ set])
  then show "delivered st' \<subseteq> delivered st" by (auto simp: delivered_def)
qed

lemma complete_held:
  assumes "held_claim st m = Some c" "dc_message_id c = m"
  shows "held_claim (complete_delivery t c st) = (held_claim st)(m := None)"
    "delivered (complete_delivery t c st) = insert m (delivered st)"
  using assms by (auto simp: complete_delivery_def held_claim_def [abs_def] delivered_def dict_delete_get keys_dict_set)

lemma release_held:
  assumes "held_claim st m = Some c" "dc_message_id c = m"
  shows "held_claim (release_delivery c st) = (held_claim st)(m := None)"
    "delivered (release_delivery c st) = delivered st"
  using assms by (auto simp: release_delivery_def held_claim_def [abs_def] delivered_def dict_delete_get)

lemma release_not_held:
  assumes "held_claim st (dc_message_id c) \<noteq> Some c"
  shows "release_delivery c st = st" "complete_delivery t c st = st"
  using assms by (simp_all add: release_delivery_def complete_delivery_def held_claim_def)

lemma claim_state:
  assumes "claim_delivery t m st = (Inr c, st')"
  shows "length (ds_pending st) < ds_capacity st" "ds_capacity st' = ds_capacity st"
    "ds_entries st' = evict (ds_capacity st) (length (ds_pending st)) (ds_entries (expire t st))"
    "ds_pending st' = ds_pending st @ [(m, c)]"
proof -
  have new: "m \<notin> fst ` set (ds_pending st)"
    using claim_new(1) [OF assms] by (simp add: held_claim_def map_of_eq_None_iff)
  have cond: "\<not> dict_has (ds_entries (expire t st)) m" "\<not> dict_has (ds_pending st) m"
      "\<not> ds_capacity st \<le> length (ds_pending st)"
    using claim_outcome [of t m st] assms unfolding has_live has_held by (auto split: if_splits)
  then have st': "st' = (expire t st)\<lparr>
      ds_entries := evict (ds_capacity st) (length (ds_pending st)) (ds_entries (expire t st)),
      ds_pending := dict_set m c (ds_pending st), ds_objects := Suc (ds_objects st)\<rparr>"
    using assms by (simp add: claim_delivery_def Let_def) blast
  show "length (ds_pending st) < ds_capacity st" using cond by simp
  show "ds_capacity st' = ds_capacity st"
    "ds_entries st' = evict (ds_capacity st) (length (ds_pending st)) (ds_entries (expire t st))"
    "ds_pending st' = ds_pending st @ [(m, c)]"
    by (simp_all add: st' dict_set_new [OF new])
qed

text \<open>A claim forgets a delivered message before it expires only to make room, oldest first.\<close>

lemma claim_evicts_oldest:
  assumes "claim_delivery t m st = (Inr c, st')"
  shows "\<exists>old. filter (\<lambda>me. t < snd me) (ds_entries st) = old @ ds_entries st' \<and>
    (old \<noteq> [] \<longrightarrow> length (ds_entries st') + length (ds_pending st') = ds_capacity st')"
proof -
  let ?live = "filter (\<lambda>me. t < snd me) (ds_entries st)"
  have live: "?live = ds_entries (expire t st)" by (simp add: expire_def not_le)
  note st' = claim_state [OF assms, folded live]
  obtain old where old: "?live = old @ ds_entries st'" using evict_suffix [of ?live] st'(3) by metis
  have "old \<noteq> [] \<longrightarrow> ds_capacity st \<le> length ?live + length (ds_pending st)"
  proof
    assume "old \<noteq> []"
    then have "ds_entries st' \<noteq> ?live" using old by auto
    then show "ds_capacity st \<le> length ?live + length (ds_pending st)"
      using evict_only_full [of ?live] st'(3) by (metis not_le)
  qed
  then have "old \<noteq> [] \<longrightarrow> length (ds_entries st') + length (ds_pending st) = ds_capacity st - 1"
    using evict_keeps [of "ds_capacity st" ?live "length (ds_pending st)"] st'(1,3) by simp
  then show ?thesis
    using st'(1,2,4) by (intro exI [of _ old] conjI old) (auto simp: old [symmetric])
qed

section \<open>Backoff\<close>

record reconnect_policy =
  rp_initial :: rat
  rp_max :: rat
  rp_multiplier :: rat
  rp_jitter :: rat

definition MAX_CONSUMER_RECONNECT_SECONDS :: rat where "MAX_CONSUMER_RECONNECT_SECONDS = 300"
definition MAX_CONSUMER_RECONNECT_MULTIPLIER :: rat where "MAX_CONSUMER_RECONNECT_MULTIPLIER = 10"

text \<open>The bounds of \<open>ConsumerReconnectSettings\<close>.\<close>

definition valid_policy :: "reconnect_policy \<Rightarrow> bool" where
  "valid_policy p \<longleftrightarrow>
     0 < rp_initial p \<and> rp_initial p \<le> MAX_CONSUMER_RECONNECT_SECONDS \<and>
     0 < rp_max p \<and> rp_max p \<le> MAX_CONSUMER_RECONNECT_SECONDS \<and>
     1 < rp_multiplier p \<and> rp_multiplier p \<le> MAX_CONSUMER_RECONNECT_MULTIPLIER \<and>
     0 \<le> rp_jitter p \<and> rp_jitter p \<le> 1 \<and>
     rp_initial p \<le> rp_max p"

record backoff =
  bo_policy :: reconnect_policy
  bo_next :: rat
  bo_failures :: nat

definition new_backoff :: "reconnect_policy \<Rightarrow> backoff" where
  "new_backoff p = \<lparr>bo_policy = p, bo_next = rp_initial p, bo_failures = 0\<rparr>"

definition next_delay :: "rat \<Rightarrow> backoff \<Rightarrow> (unit + rat) \<times> backoff" where
  "next_delay jitter b =
     (let p = bo_policy b;
          sample = (if rp_jitter p \<noteq> 0 then jitter else 1 / 2)
      in if \<not> (0 \<le> sample \<and> sample \<le> 1) then (Inl (), b)
         else (Inr (min (bo_next b * (1 + rp_jitter p * (2 * sample - 1))) (rp_max p)),
               b\<lparr>bo_next := min (bo_next b * rp_multiplier p) (rp_max p), bo_failures := Suc (bo_failures b)\<rparr>))"

definition reset_backoff :: "backoff \<Rightarrow> backoff" where
  "reset_backoff b = b\<lparr>bo_next := rp_initial (bo_policy b), bo_failures := 0\<rparr>"

text \<open>After \<open>k\<close> failures the base delay has grown \<open>k\<close> times, up to the maximum.\<close>

definition backoff_ok :: "backoff \<Rightarrow> bool" where
  "backoff_ok b \<longleftrightarrow> valid_policy (bo_policy b) \<and>
     bo_next b = min (rp_initial (bo_policy b) * rp_multiplier (bo_policy b) ^ bo_failures b) (rp_max (bo_policy b))"

lemma min_mult_min: "(1::rat) \<le> k \<Longrightarrow> 0 < m \<Longrightarrow> min (min a m * k) m = min (a * k) m"
proof -
  assume k: "1 \<le> k" and m: "0 < m"
  show ?thesis
  proof (cases "a \<le> m")
    case False
    then have "m \<le> m * k" "m * k \<le> a * k" using k m by (auto intro: mult_right_mono)
    with False show ?thesis by simp
  qed simp
qed

lemma new_backoff_ok: "valid_policy p \<Longrightarrow> backoff_ok (new_backoff p)"
  by (simp add: backoff_ok_def new_backoff_def valid_policy_def)

lemma reset_backoff_ok: "backoff_ok b \<Longrightarrow> backoff_ok (reset_backoff b)"
  by (simp add: backoff_ok_def reset_backoff_def valid_policy_def)

lemma next_delay_ok: "backoff_ok b \<Longrightarrow> backoff_ok (snd (next_delay jitter b))"
  using min_mult_min [of "rp_multiplier (bo_policy b)" "rp_max (bo_policy b)"
      "rp_initial (bo_policy b) * rp_multiplier (bo_policy b) ^ bo_failures b"]
  by (auto simp: backoff_ok_def next_delay_def Let_def valid_policy_def mult_ac)

lemma backoff_positive: "backoff_ok b \<Longrightarrow> 0 < bo_next b \<and> bo_next b \<le> rp_max (bo_policy b)"
  by (auto simp: backoff_ok_def valid_policy_def)

lemma next_delay_bounds:
  assumes "backoff_ok b" "next_delay jitter b = (Inr d, b')"
  shows "0 \<le> d" "d \<le> rp_max (bo_policy b)" "d \<le> bo_next b * (1 + rp_jitter (bo_policy b))"
    "bo_next b * (1 - rp_jitter (bo_policy b)) \<le> d \<or> d = rp_max (bo_policy b)"
proof -
  let ?p = "bo_policy b"
  define s where "s = (if rp_jitter ?p \<noteq> 0 then jitter else 1 / 2)"
  have s: "0 \<le> s" "s \<le> 1" and d: "d = min (bo_next b * (1 + rp_jitter ?p * (2 * s - 1))) (rp_max ?p)"
    using assms(2) by (auto simp: next_delay_def Let_def s_def split: if_splits)
  have p: "0 \<le> rp_jitter ?p" "rp_jitter ?p \<le> 1" "0 < bo_next b" "0 < rp_max ?p"
    using assms(1) backoff_positive [OF assms(1)] by (auto simp: backoff_ok_def valid_policy_def)
  have "rp_jitter ?p * (2 * s - 1) \<le> rp_jitter ?p * 1" "rp_jitter ?p * (- 1) \<le> rp_jitter ?p * (2 * s - 1)"
    using s p by (intro mult_left_mono; simp)+
  then have f: "1 - rp_jitter ?p \<le> 1 + rp_jitter ?p * (2 * s - 1)" "1 + rp_jitter ?p * (2 * s - 1) \<le> 1 + rp_jitter ?p"
    by simp_all
  have m: "bo_next b * (1 - rp_jitter ?p) \<le> bo_next b * (1 + rp_jitter ?p * (2 * s - 1))"
    "bo_next b * (1 + rp_jitter ?p * (2 * s - 1)) \<le> bo_next b * (1 + rp_jitter ?p)"
    "0 \<le> bo_next b * (1 - rp_jitter ?p)"
    using f p by (auto intro: mult_left_mono)
  show "0 \<le> d" "d \<le> rp_max ?p" "d \<le> bo_next b * (1 + rp_jitter ?p)"
    "bo_next b * (1 - rp_jitter ?p) \<le> d \<or> d = rp_max ?p"
    using m p unfolding d by (auto simp: min_def not_le intro: order_trans less_imp_le)
qed

end
