(* ===== verification/JF_Relay.thy ===== *)
theory JF_Relay
  imports JF_Delivery
begin

text \<open>
  The response relay (\<open>engine/response_relay.py\<close>) and the envelopes it reads
  (\<open>sdk/message_contract.py\<close>): which deliveries it admits, the signal it sends and the outcome it settles
  with, and the relay as a step relation over deliveries that interleave at every \<open>await\<close>. What the relay
  needs of its duplicate store is the locale \<open>delivery_store\<close>, interpreted on the store of \<open>JF_Delivery\<close>.
\<close>

section \<open>Envelopes\<close>

definition MAX_MESSAGE_IDENTIFIER :: nat where "MAX_MESSAGE_IDENTIFIER = 256"
definition MAX_MESSAGE_ACTION :: nat where "MAX_MESSAGE_ACTION = 512"
definition DEFINITION_DIGEST_LENGTH :: nat where "DEFINITION_DIGEST_LENGTH = 64"

record common_envelope =
  ec_message_id :: string
  ec_workflow_name :: string
  ec_definition_digest :: string
  ec_workflow_id :: string
  ec_correlation_id :: string
  ec_causation_id :: "string option"
  ec_trace_id :: "string option"
  ec_scope_digest :: "string option"

datatype response_body = StepSuccessBody json | StepErrorBody string string bool

record step_identity =
  si_run_id :: string
  si_invocation_id :: string
  si_step :: string
  si_step_action :: string

datatype async_envelope =
    TriggerEnvelope common_envelope string "json dict"
  | StepRequestEnvelope common_envelope step_identity json "json dict" string
  | StepResponseEnvelope common_envelope step_identity string response_body
  | EventEnvelope common_envelope string string json

fun envelope_common :: "async_envelope \<Rightarrow> common_envelope" where
  "envelope_common (TriggerEnvelope c _ _) = c"
| "envelope_common (StepRequestEnvelope c _ _ _ _) = c"
| "envelope_common (StepResponseEnvelope c _ _ _) = c"
| "envelope_common (EventEnvelope c _ _ _) = c"

definition in_bounds :: "nat \<Rightarrow> string \<Rightarrow> bool" where
  "in_bounds n s \<longleftrightarrow> s \<noteq> [] \<and> length s \<le> n"

definition valid_common :: "common_envelope \<Rightarrow> bool" where
  "valid_common c \<longleftrightarrow>
     list_all (in_bounds MAX_MESSAGE_IDENTIFIER)
       ([ec_message_id c, ec_workflow_name c, ec_workflow_id c, ec_correlation_id c] @
        list_of_option (ec_causation_id c) @ list_of_option (ec_trace_id c)) \<and>
     length (ec_definition_digest c) = DEFINITION_DIGEST_LENGTH \<and> pred_option is_digest (ec_scope_digest c)"

definition valid_step_identity :: "step_identity \<Rightarrow> bool" where
  "valid_step_identity s \<longleftrightarrow>
     list_all (in_bounds MAX_MESSAGE_IDENTIFIER) [si_run_id s, si_invocation_id s, si_step s] \<and>
     in_bounds MAX_MESSAGE_ACTION (si_step_action s)"

text \<open>\<open>validate_workflow_identity\<close>, \<open>validate_step_identity\<close> and \<open>validate_reply_identity\<close>.\<close>

definition validate_workflow_identity ::
    "(string \<Rightarrow> string) \<Rightarrow> common_envelope \<Rightarrow> string \<Rightarrow> bool" where
  "validate_workflow_identity sha c request_id \<longleftrightarrow>
     (case ec_scope_digest c of
        None \<Rightarrow> ec_workflow_id c = stable_identity sha [''workflow'', ec_workflow_name c, request_id]
      | Some d \<Rightarrow> scoped_identity_from_digest sha ''workflow'' d [ec_workflow_name c, request_id] = Inr (ec_workflow_id c))"

definition invocation_matches :: "(string \<Rightarrow> string) \<Rightarrow> common_envelope \<Rightarrow> step_identity \<Rightarrow> bool" where
  "invocation_matches sha c s \<longleftrightarrow>
     si_invocation_id s = make_step_invocation_id sha (ec_workflow_id c) (si_run_id s) (si_step s)"

definition validate_step_identity :: "(string \<Rightarrow> string) \<Rightarrow> common_envelope \<Rightarrow> step_identity \<Rightarrow> bool" where
  "validate_step_identity sha c s \<longleftrightarrow> invocation_matches sha c s \<and>
     ec_message_id c = make_step_request_message_id sha (si_invocation_id s)"

definition validate_reply_identity :: "(string \<Rightarrow> string) \<Rightarrow> common_envelope \<Rightarrow> step_identity \<Rightarrow> string \<Rightarrow> bool" where
  "validate_reply_identity sha c s in_reply_to \<longleftrightarrow> invocation_matches sha c s \<and>
     in_reply_to = make_step_request_message_id sha (si_invocation_id s) \<and> ec_causation_id c = Some in_reply_to"

fun valid_body :: "response_body \<Rightarrow> bool" where
  "valid_body (StepSuccessBody _) = True"
| "valid_body (StepErrorBody code message _) =
     (in_bounds MAX_MESSAGE_IDENTIFIER code \<and> in_bounds MAX_MESSAGE_ACTION message)"

fun valid_envelope :: "(string \<Rightarrow> string) \<Rightarrow> async_envelope \<Rightarrow> bool" where
  "valid_envelope sha (TriggerEnvelope c request_id _) =
     (valid_common c \<and> in_bounds MAX_MESSAGE_IDENTIFIER request_id \<and> validate_workflow_identity sha c request_id)"
| "valid_envelope sha (StepRequestEnvelope c s _ _ reply) =
     (valid_common c \<and> valid_step_identity s \<and> in_bounds MAX_MESSAGE_IDENTIFIER reply \<and> validate_step_identity sha c s)"
| "valid_envelope sha (StepResponseEnvelope c s in_reply_to body) =
     (valid_common c \<and> valid_step_identity s \<and> in_bounds MAX_MESSAGE_IDENTIFIER in_reply_to \<and> valid_body body \<and>
      validate_reply_identity sha c s in_reply_to)"
| "valid_envelope sha (EventEnvelope c run_id name _) =
     (valid_common c \<and> in_bounds MAX_MESSAGE_IDENTIFIER run_id \<and> in_bounds MAX_MESSAGE_IDENTIFIER name)"

section \<open>Admission\<close>

text \<open>\<open>enforce_utf8_bytes\<close>: a character above the ASCII range takes two bytes.\<close>

definition utf8_length :: "string \<Rightarrow> nat" where
  "utf8_length s = sum_list (map (\<lambda>c. if char_code c < 128 then 1 else 2) s)"

definition enforce_utf8_bytes :: "string \<Rightarrow> string \<Rightarrow> nat \<Rightarrow> exn + unit" where
  "enforce_utf8_bytes v boundary limit = enforce_limit (utf8_length v) limit PAYLOAD_BYTES boundary"

datatype processing_outcome = Ack | Retry string | DeadLetter string

text \<open>
  The test of the scope. \<open>owns_scope\<close> accepts every envelope with the digest of the scope, so the
  workflow identity is compared with the scope in no case.
\<close>

definition relay_scope_ok :: "(string \<Rightarrow> string) \<Rightarrow> runtime_scope \<Rightarrow> common_envelope \<Rightarrow> bool" where
  "relay_scope_ok sha sc c \<longleftrightarrow>
     owns_scope sha LOCAL_ONLY (ec_scope_digest c) sc \<or>
     ec_scope_digest c = Some (scope_digest_of sha sc) \<and>
     identity_belongs_to_scope sha (ec_workflow_id c) ''workflow'' sc = Inr True"

text \<open>
  \<open>parse\<close> is \<open>json.loads\<close> and the field coercion of pydantic: the envelope that a text denotes, if any.
  \<open>None\<close> is a malformed delivery.
\<close>

definition admit_delivery ::
    "(string \<Rightarrow> string) \<Rightarrow> (string \<Rightarrow> async_envelope option) \<Rightarrow> runtime_scope \<Rightarrow> nat \<Rightarrow> string \<Rightarrow> async_envelope option" where
  "admit_delivery sha parse sc limit body =
     (if \<not> is_ok (enforce_utf8_bytes body ''messaging.response.body'' limit) then None
      else (case parse body of
          None \<Rightarrow> None
        | Some env \<Rightarrow>
            if \<not> valid_envelope sha env then None
            else (case env of
                StepResponseEnvelope c _ _ _ \<Rightarrow> if relay_scope_ok sha sc c then Some env else None
              | EventEnvelope c _ _ _ \<Rightarrow> if relay_scope_ok sha sc c then Some env else None
              | _ \<Rightarrow> None)))"

section \<open>Delivery\<close>

datatype relay_signal =
    StepResponseSignal string string string "json option" "(string \<times> string \<times> bool) option"
  | WorkflowEventSignal string json

text \<open>The signal of an envelope; a step response with an error has no output and one with an output no error.\<close>

fun signal_of :: "async_envelope \<Rightarrow> relay_signal option" where
  "signal_of (StepResponseEnvelope c s _ (StepSuccessBody out)) =
     Some (StepResponseSignal (si_invocation_id s) (si_step s) (si_step_action s) (Some out) None)"
| "signal_of (StepResponseEnvelope c s _ (StepErrorBody code message retryable)) =
     Some (StepResponseSignal (si_invocation_id s) (si_step s) (si_step_action s) None (Some (code, message, retryable)))"
| "signal_of (EventEnvelope c run_id name data) = Some (WorkflowEventSignal name data)"
| "signal_of _ = None"

text \<open>What Temporal answers to the signal.\<close>

datatype signal_reply = SignalAccepted | RpcNotFound | RpcFailed | ClientError

fun deliver_outcome :: "signal_reply \<Rightarrow> processing_outcome" where
  "deliver_outcome SignalAccepted = Ack"
| "deliver_outcome RpcNotFound = DeadLetter ''workflow execution not found''"
| "deliver_outcome RpcFailed = Retry ''Temporal signal failed''"
| "deliver_outcome ClientError = Retry ''Temporal signal failed''"

section \<open>The relay\<close>

text \<open>
  A delivery of an admitted message is waiting for its claim, holds one while its signal is under way,
  has an answer whose claim is to be completed and released, or is settled; a cancelled one ends without
  an outcome. \<open>rl_sent\<close> are the messages whose signal was accepted.
\<close>

datatype 'c phase =
    Arrived
  | Holding 'c
  | Answered 'c processing_outcome
  | Recorded 'c
  | Settled processing_outcome
  | Cancelled

record ('s, 'c) relay =
  rl_now :: rat
  rl_store :: 's
  rl_phase :: "nat \<Rightarrow> 'c phase"
  rl_sent :: "string list"

definition start_relay :: "'s \<Rightarrow> ('s, 'c) relay" where
  "start_relay st = \<lparr>rl_now = 0, rl_store = st, rl_phase = (\<lambda>_. Arrived), rl_sent = []\<rparr>"

definition set_phase_of :: "nat \<Rightarrow> 'c phase \<Rightarrow> ('s, 'c) relay \<Rightarrow> ('s, 'c) relay" where
  "set_phase_of n p r = r\<lparr>rl_phase := (rl_phase r)(n := p)\<rparr>"

text \<open>The claim that a delivery has to give back.\<close>

fun claim_in :: "'c phase \<Rightarrow> 'c option" where
  "claim_in (Holding c) = Some c"
| "claim_in (Answered c _) = Some c"
| "claim_in (Recorded c) = Some c"
| "claim_in _ = None"

fun claim_of_holder :: "'c phase \<Rightarrow> 'c option" where
  "claim_of_holder (Holding c) = Some c"
| "claim_of_holder (Answered c _) = Some c"
| "claim_of_holder _ = None"

text \<open>The phases in or after which a message has been acknowledged as delivered.\<close>

fun acknowledged :: "'c phase \<Rightarrow> bool" where
  "acknowledged (Answered _ p) = (p = Ack)"
| "acknowledged (Recorded _) = True"
| "acknowledged (Settled p) = (p = Ack)"
| "acknowledged _ = False"

text \<open>How a claim settles a delivery at once, or lets it go on.\<close>

fun claimed_phase :: "duplicate_state + 'c \<Rightarrow> 'c phase" where
  "claimed_phase (Inl Completed) = Settled Ack"
| "claimed_phase (Inl _) = Settled (Retry ''response delivery is in flight or capacity is exhausted'')"
| "claimed_phase (Inr c) = Holding c"

text \<open>
  The steps of the deliveries, \<open>message n\<close> the message of the \<open>n\<close>-th: each store operation is atomic, as
  it runs under the lock of the store; time passes between the steps; and cancellation can strike while
  the signal is under way or before the store is told, with the claim released all the same.
\<close>

inductive relay_step ::
    "(rat \<Rightarrow> string \<Rightarrow> 's \<Rightarrow> (duplicate_state + 'c) \<times> 's) \<Rightarrow> (rat \<Rightarrow> 'c \<Rightarrow> 's \<Rightarrow> 's) \<Rightarrow> ('c \<Rightarrow> 's \<Rightarrow> 's) \<Rightarrow>
     (nat \<Rightarrow> string) \<Rightarrow> ('s, 'c) relay \<Rightarrow> ('s, 'c) relay \<Rightarrow> bool"
  for claim finish release message where
  claim: "rl_phase r n = Arrived \<Longrightarrow> claim (rl_now r) (message n) (rl_store r) = (result, st) \<Longrightarrow>
    relay_step claim finish release message r (set_phase_of n (claimed_phase result) (r\<lparr>rl_store := st\<rparr>))"
| answer: "rl_phase r n = Holding c \<Longrightarrow>
    relay_step claim finish release message r (set_phase_of n (Answered c (deliver_outcome reply))
      (if reply = SignalAccepted then r\<lparr>rl_sent := rl_sent r @ [message n]\<rparr> else r))"
| note_done: "rl_phase r n = Answered c Ack \<Longrightarrow>
    relay_step claim finish release message r
      (set_phase_of n (Recorded c) (r\<lparr>rl_store := finish (rl_now r) c (rl_store r)\<rparr>))"
| settle_recorded: "rl_phase r n = Recorded c \<Longrightarrow>
    relay_step claim finish release message r
      (set_phase_of n (Settled Ack) (r\<lparr>rl_store := release c (rl_store r)\<rparr>))"
| settle_other: "rl_phase r n = Answered c p \<Longrightarrow> p \<noteq> Ack \<Longrightarrow>
    relay_step claim finish release message r
      (set_phase_of n (Settled p) (r\<lparr>rl_store := release c (rl_store r)\<rparr>))"
| cancel: "claim_in (rl_phase r n) = Some c \<Longrightarrow>
    relay_step claim finish release message r
      (set_phase_of n Cancelled (r\<lparr>rl_store := release c (rl_store r)\<rparr>))"
| wait: "rl_now r \<le> t \<Longrightarrow> relay_step claim finish release message r (r\<lparr>rl_now := t\<rparr>)"

inductive_cases relay_stepE: "relay_step claim finish release message r r'"

section \<open>The interface of the store\<close>

text \<open>
  What the relay relies on: a store knows which claim holds a message, which claims it has issued and
  which messages are delivered; claiming, completing and releasing change no other message, and a claim
  that does not hold its message changes nothing.
\<close>

locale delivery_store =
  fixes claim :: "rat \<Rightarrow> string \<Rightarrow> 's \<Rightarrow> (duplicate_state + 'c) \<times> 's"
    and finish :: "rat \<Rightarrow> 'c \<Rightarrow> 's \<Rightarrow> 's"
    and release :: "'c \<Rightarrow> 's \<Rightarrow> 's"
    and held :: "'s \<Rightarrow> string \<Rightarrow> 'c option"
    and known :: "'s \<Rightarrow> string set"
    and issued :: "'s \<Rightarrow> 'c set"
    and message_of :: "'c \<Rightarrow> string"
  assumes refused: "claim t m st = (Inl d, st') \<Longrightarrow> held st' = held st \<and> known st' \<subseteq> known st \<and> issued st' = issued st"
    and known_completed: "claim t m st = (Inl Completed, st') \<Longrightarrow> m \<in> known st"
    and granted: "claim t m st = (Inr c, st') \<Longrightarrow> message_of c = m \<and> c \<notin> issued st \<and> insert c (issued st) \<subseteq> issued st' \<and>
      held st m = None \<and> held st' = (held st)(m \<mapsto> c) \<and> known st' \<subseteq> known st"
    and finished: "held st (message_of c) = Some c \<Longrightarrow> issued (finish t c st) = issued st \<and>
      held (finish t c st) = (held st)(message_of c := None) \<and> known (finish t c st) = insert (message_of c) (known st)"
    and released: "held st (message_of c) = Some c \<Longrightarrow> issued (release c st) = issued st \<and>
      held (release c st) = (held st)(message_of c := None) \<and> known (release c st) = known st"
    and absent: "held st (message_of c) \<noteq> Some c \<Longrightarrow> release c st = st"
begin

definition claims_ok :: "(nat \<Rightarrow> string) \<Rightarrow> (nat \<Rightarrow> 'c phase) \<Rightarrow> 's \<Rightarrow> bool" where
  "claims_ok message phase st \<longleftrightarrow>
     (\<forall>n c. claim_in (phase n) = Some c \<longrightarrow> message_of c = message n \<and> c \<in> issued st) \<and>
     (\<forall>n n' c. claim_in (phase n) = Some c \<and> claim_in (phase n') = Some c \<longrightarrow> n = n') \<and>
     (\<forall>n c. claim_of_holder (phase n) = Some c \<longrightarrow> held st (message n) = Some c) \<and>
     (\<forall>n c. phase n = Recorded c \<longrightarrow> held st (message n) \<noteq> Some c)"

definition acks_ok :: "(nat \<Rightarrow> string) \<Rightarrow> ('s, 'c) relay \<Rightarrow> bool" where
  "acks_ok message r \<longleftrightarrow> known (rl_store r) \<subseteq> set (rl_sent r) \<and>
     (\<forall>n. acknowledged (rl_phase r n) \<longrightarrow> message n \<in> set (rl_sent r))"

lemma claims_start: "claims_ok message (\<lambda>_. Arrived) st"
  by (simp add: claims_ok_def)

lemma claims_okD:
  assumes "claims_ok message phase st"
  shows "claim_in (phase n) = Some c \<Longrightarrow> message_of c = message n"
    "claim_in (phase n) = Some c \<Longrightarrow> c \<in> issued st"
    "claim_in (phase n) = Some c \<Longrightarrow> claim_in (phase n') = Some c \<Longrightarrow> n = n'"
    "claim_of_holder (phase n) = Some c \<Longrightarrow> held st (message n) = Some c"
    "phase n = Recorded c \<Longrightarrow> held st (message n) \<noteq> Some c"
  using assms unfolding claims_ok_def by blast+

lemma claims_okI:
  assumes "\<And>n c. claim_in (phase n) = Some c \<Longrightarrow> message_of c = message n"
    and "\<And>n c. claim_in (phase n) = Some c \<Longrightarrow> c \<in> issued st"
    and "\<And>n n' c. claim_in (phase n) = Some c \<Longrightarrow> claim_in (phase n') = Some c \<Longrightarrow> n = n'"
    and "\<And>n c. claim_of_holder (phase n) = Some c \<Longrightarrow> held st (message n) = Some c"
    and "\<And>n c. phase n = Recorded c \<Longrightarrow> held st (message n) \<noteq> Some c"
  shows "claims_ok message phase st"
  unfolding claims_ok_def using assms by blast

lemma holder_claim: "claim_of_holder p = Some c \<Longrightarrow> claim_in p = Some c"
  by (cases p) auto

lemma claims_refused:
  assumes "claims_ok message phase st" "held st' = held st" "issued st' = issued st" "claim_in p = None"
  shows "claims_ok message (phase(n := p)) st'"
proof -
  have p: "claim_of_holder p = None" "\<And>c. p \<noteq> Recorded c" using assms(4) by (cases p; simp)+
  note d = claims_okD [OF assms(1)]
  show ?thesis
    by (rule claims_okI) (use p assms(2-4) d in \<open>auto split: if_splits\<close>)
qed

lemma claims_granted:
  assumes ok: "claims_ok message phase st" and "claim t (message n) st = (Inr c, st')" "phase n = Arrived"
  shows "claims_ok message (phase(n := Holding c)) st'"
proof -
  note g = granted [OF assms(2)]
  note d = claims_okD [OF ok]
  have other: "message n' \<noteq> message n" if "claim_of_holder (phase n') = Some c'" for n' c'
    using d(4) [OF that] g by auto
  have fresh: "claim_in (phase n') \<noteq> Some c" for n' using d(2) g by blast
  show ?thesis
  proof (rule claims_okI)
    fix n' c' assume "(phase(n := Holding c)) n' = Recorded c'"
    then have r: "phase n' = Recorded c'" "n' \<noteq> n" by (auto split: if_splits)
    with fresh [of n'] have "c' \<noteq> c" by auto
    with r d(5) [OF r(1)] g show "held st' (message n') \<noteq> Some c'" by auto
  qed (use g d other fresh in \<open>auto split: if_splits\<close>)
qed

lemma claims_move:
  assumes ok: "claims_ok message phase st" and "claim_of_holder (phase n) = Some c" "claim_of_holder p = Some c"
  shows "claims_ok message (phase(n := p)) st"
proof -
  have "claim_in p = Some c" "claim_in (phase n) = Some c" "\<And>c. p \<noteq> Recorded c"
    using assms(2,3) by (auto simp: holder_claim)
  with assms(2,3) claims_okD [OF ok] show ?thesis
    by (intro claims_okI) (auto split: if_splits)
qed

lemma claims_freed:
  assumes ok: "claims_ok message phase st" and n: "claim_in (phase n) = Some c"
    and st': "issued st' = issued st" "held st' = (held st)(message n := None)"
    and p: "claim_of_holder p = None" "claim_in p = None \<or> p = Recorded c"
    and own: "claim_of_holder (phase n) = Some c"
  shows "claims_ok message (phase(n := p)) st'"
proof -
  note d = claims_okD [OF ok]
  have other: "message n' \<noteq> message n" if "claim_of_holder (phase n') = Some c'" "n' \<noteq> n" for n' c'
    using d(3) [OF n] d(4) [OF own] d(4) [OF that(1)] holder_claim [OF that(1)] that(2) by auto
  show ?thesis
  proof (rule claims_okI)
    fix k k' c' assume k: "claim_in ((phase(n := p)) k) = Some c'" "claim_in ((phase(n := p)) k') = Some c'"
    then have "claim_in (phase k) = Some c'" "claim_in (phase k') = Some c'"
      using p(2) n by (auto split: if_splits)
    then show "k = k'" by (rule d(3))
  qed (use p d n st' other in \<open>auto split: if_splits\<close>)
qed

lemma claims_let_go:
  assumes ok: "claims_ok message phase st" and n: "claim_in (phase n) = Some c" and p: "claim_in p = None"
  shows "claims_ok message (phase(n := p)) (release c st) \<and> known (release c st) = known st"
proof (cases "claim_of_holder (phase n) = Some c")
  case True
  have m: "message_of c = message n" "held st (message_of c) = Some c"
    using claims_okD(1) [OF ok n] claims_okD(4) [OF ok True] by auto
  have "claim_of_holder p = None" using p by (cases p) auto
  then show ?thesis using claims_freed [OF ok n _ _ _ _ True] released [OF m(2)] m(1) p by simp
next
  case False
  with n have "phase n = Recorded c" by (cases "phase n") auto
  then have "release c st = st" using absent claims_okD(1) [OF ok n] claims_okD(5) [OF ok] by simp
  with ok p show ?thesis by (simp add: claims_refused)
qed

lemma step_ok:
  assumes step: "relay_step claim finish release message r r'"
    and ok: "claims_ok message (rl_phase r) (rl_store r)" and acks: "acks_ok message r"
  shows "claims_ok message (rl_phase r') (rl_store r') \<and> acks_ok message r'"
  using step
proof cases
  case (claim n result st)
  show ?thesis
  proof (cases result)
    case (Inl d)
    then have c: "claim_in (claimed_phase result) = None" "acknowledged (claimed_phase result) \<Longrightarrow> d = Completed"
      by (cases d; simp)+
    have s: "held st = held (rl_store r)" "known st \<subseteq> known (rl_store r)" "issued st = issued (rl_store r)"
      using refused claim(3) Inl by auto
    have "acknowledged (claimed_phase result) \<Longrightarrow> message n \<in> set (rl_sent r)"
      using c(2) known_completed claim(3) Inl acks by (auto simp: acks_ok_def)
    with claims_refused [OF ok s(1,3) c(1)] s(2) acks show ?thesis
      by (auto simp: claim(1) set_phase_of_def acks_ok_def)
  next
    case (Inr c)
    then have "rl_phase r' = (rl_phase r)(n := Holding c)" "rl_store r' = st" "rl_sent r' = rl_sent r"
      by (simp_all add: claim(1) set_phase_of_def)
    with claims_granted [OF ok claim(3) [unfolded Inr] claim(2)] granted [OF claim(3) [unfolded Inr]] acks
    show ?thesis by (auto simp: acks_ok_def)
  qed
next
  case (answer n c reply)
  have "claims_ok message ((rl_phase r)(n := Answered c (deliver_outcome reply))) (rl_store r)"
    by (rule claims_move [OF ok]) (simp_all add: answer(2))
  moreover have "deliver_outcome reply = Ack \<Longrightarrow> reply = SignalAccepted" by (cases reply) auto
  ultimately show ?thesis using acks by (auto simp: answer(1) set_phase_of_def acks_ok_def)
next
  case (note_done n c)
  have own: "claim_of_holder (rl_phase r n) = Some c" by (simp add: note_done(2))
  then have m: "message_of c = message n" "held (rl_store r) (message_of c) = Some c"
    using claims_okD(1) [OF ok holder_claim [OF own]] claims_okD(4) [OF ok own] by auto
  note f = finished [OF m(2), of "rl_now r"]
  have "claims_ok message ((rl_phase r)(n := Recorded c)) (finish (rl_now r) c (rl_store r))"
    by (rule claims_freed [OF ok holder_claim [OF own] _ _ _ _ own]) (use f m(1) in simp_all)
  moreover have "message n \<in> set (rl_sent r)"
    using acks note_done(2) unfolding acks_ok_def by (metis acknowledged.simps(1))
  ultimately show ?thesis using acks f m(1) by (auto simp: note_done(1) set_phase_of_def acks_ok_def)
next
  case (settle_recorded n c)
  have "claim_in (rl_phase r n) = Some c" by (simp add: settle_recorded(2))
  note g = claims_let_go [OF ok this, of "Settled Ack"]
  moreover have "message n \<in> set (rl_sent r)"
    using acks settle_recorded(2) unfolding acks_ok_def by (metis acknowledged.simps(2))
  ultimately show ?thesis using acks by (auto simp: settle_recorded(1) set_phase_of_def acks_ok_def)
next
  case (settle_other n c p)
  have "claim_in (rl_phase r n) = Some c" by (simp add: settle_other(2))
  note g = claims_let_go [OF ok this, of "Settled p"]
  then show ?thesis using acks settle_other(3) by (auto simp: settle_other(1) set_phase_of_def acks_ok_def)
next
  case (cancel n c)
  note g = claims_let_go [OF ok cancel(2), of Cancelled]
  then show ?thesis using acks by (auto simp: cancel(1) set_phase_of_def acks_ok_def)
next
  case (wait t)
  then show ?thesis using ok acks by (simp add: acks_ok_def)
qed

lemma reachable_ok:
  assumes "(relay_step claim finish release message)\<^sup>*\<^sup>* (start_relay st) r" "known st = {}"
  shows "claims_ok message (rl_phase r) (rl_store r) \<and> acks_ok message r"
  using assms(1)
proof (induction rule: rtranclp_induct)
  case base
  then show ?case by (simp add: start_relay_def claims_start acks_ok_def assms(2))
next
  case (step r r')
  then show ?case using step_ok by blast
qed

lemma one_holder:
  assumes "(relay_step claim finish release message)\<^sup>*\<^sup>* (start_relay st) r" "known st = {}"
    and "claim_of_holder (rl_phase r n) = Some c" "claim_of_holder (rl_phase r n') = Some c'" "message n = message n'"
  shows "n = n'"
proof -
  note ok = reachable_ok [OF assms(1,2), THEN conjunct1]
  have "c = c'" using claims_okD(4) [OF ok assms(3)] claims_okD(4) [OF ok assms(4)] assms(5) by simp
  then show ?thesis
    using claims_okD(3) [OF ok holder_claim [OF assms(3)]] holder_claim [OF assms(4)] by simp
qed

lemma acknowledged_sent:
  assumes "(relay_step claim finish release message)\<^sup>*\<^sup>* (start_relay st) r" "known st = {}" "rl_phase r n = Settled Ack"
  shows "message n \<in> set (rl_sent r)"
  using reachable_ok [OF assms(1,2)] assms(3) unfolding acks_ok_def by (metis acknowledged.simps(3))

end

section \<open>The duplicate store is one\<close>

definition issued_claims :: "dedup_store \<Rightarrow> delivery_claim set" where
  "issued_claims st = {c. dc_object c < ds_objects st}"

lemma claim_refused_issued: "claim_delivery t m st = (Inl d, st') \<Longrightarrow> issued_claims st' = issued_claims st"
  by (auto simp: claim_delivery_def Let_def issued_claims_def split: if_splits)

lemma claim_granted_issued:
  assumes "claim_delivery t m st = (Inr c, st')"
  shows "c \<notin> issued_claims st" "insert c (issued_claims st) \<subseteq> issued_claims st'"
proof -
  have "dc_object c = ds_objects st" using claim_new(5) [OF assms] .
  moreover have "ds_objects st' = Suc (ds_objects st)"
    using assms by (auto simp: claim_delivery_def Let_def split: if_splits)
  ultimately show "c \<notin> issued_claims st" "insert c (issued_claims st) \<subseteq> issued_claims st'"
    by (auto simp: issued_claims_def)
qed

lemma complete_release_issued:
  "issued_claims (complete_delivery t c st) = issued_claims st" "issued_claims (release_delivery c st) = issued_claims st"
  by (simp_all add: complete_delivery_def release_delivery_def issued_claims_def)

interpretation dedup: delivery_store claim_delivery complete_delivery release_delivery held_claim delivered
  issued_claims dc_message_id
proof unfold_locales
  show "claim_delivery t m st = (Inl d, st') \<Longrightarrow>
      held_claim st' = held_claim st \<and> delivered st' \<subseteq> delivered st \<and> issued_claims st' = issued_claims st" for t m st d st'
    using claim_keeps_held claim_refused_issued by blast
  show "claim_delivery t m st = (Inl Completed, st') \<Longrightarrow> m \<in> delivered st" for t m st st'
    by (rule claim_completed)
  show "claim_delivery t m st = (Inr c, st') \<Longrightarrow> dc_message_id c = m \<and> c \<notin> issued_claims st \<and>
      insert c (issued_claims st) \<subseteq> issued_claims st' \<and> held_claim st m = None \<and>
      held_claim st' = (held_claim st)(m \<mapsto> c) \<and> delivered st' \<subseteq> delivered st" for t m st c st'
    using claim_new [of t m st c st'] claim_granted_issued [of t m st c st'] by blast
qed (simp_all add: complete_held release_held release_not_held complete_release_issued)

lemma new_store_empty: "new_store capacity retention = Inr st \<Longrightarrow> delivered st = {}"
  by (auto simp: new_store_def delivered_def split: if_splits option.splits)

section \<open>Admission\<close>

lemma relay_scope_ok_iff: "relay_scope_ok sha sc c \<longleftrightarrow> owns_scope sha LOCAL_ONLY (ec_scope_digest c) sc"
  by (auto simp: relay_scope_ok_def owns_scope_def)

lemma signal_of_response: "\<exists>y. signal_of (StepResponseEnvelope c s i b) = Some y"
  by (cases b) simp_all

lemma admitted_scope:
  assumes "admit_delivery sha parse sc limit body = Some env"
  shows "parse body = Some env" "valid_envelope sha env" "utf8_length body \<le> limit"
    "owns_scope sha LOCAL_ONLY (ec_scope_digest (envelope_common env)) sc" "signal_of env \<noteq> None"
  using assms
  by (auto simp: admit_delivery_def enforce_utf8_bytes_def enforce_limit_def relay_scope_ok_iff
      signal_of_response split: if_splits option.splits async_envelope.splits)

section \<open>What the components promise\<close>

text \<open>A sequence of operations on a store.\<close>

datatype store_op = ClaimOp rat string | CompleteOp rat delivery_claim | ReleaseOp delivery_claim | ClearOp

fun apply_op :: "store_op \<Rightarrow> dedup_store \<Rightarrow> dedup_store" where
  "apply_op (ClaimOp t m) st = snd (claim_delivery t m st)"
| "apply_op (CompleteOp t c) st = complete_delivery t c st"
| "apply_op (ReleaseOp c) st = release_delivery c st"
| "apply_op ClearOp st = clear_deliveries st"

lemma capacity_kept:
  "ds_capacity (complete_delivery t c st) = ds_capacity st" "ds_capacity (release_delivery c st) = ds_capacity st"
  "ds_capacity (clear_deliveries st) = ds_capacity st" "ds_capacity (snd (claim_delivery t m st)) = ds_capacity st"
  by (simp_all add: complete_delivery_def release_delivery_def clear_deliveries_def claim_delivery_def Let_def)

lemma apply_op_ok: "store_ok st \<Longrightarrow> store_ok (apply_op x st) \<and> ds_capacity (apply_op x st) = ds_capacity st"
proof (cases x)
  case (ClaimOp t m)
  assume ok: "store_ok st"
  have "store_ok (snd (claim_delivery t m st))" by (rule claim_ok [OF ok]) (rule prod.collapse [symmetric])
  then show ?thesis by (simp add: ClaimOp capacity_kept)
qed (simp_all add: complete_ok release_ok clear_ok capacity_kept)

text \<open>
  Whatever operations are made on a new store, it tracks no more messages than its capacity, none of
  them twice, neither among the delivered nor among the pending, and every pending claim is its own.
\<close>

theorem store_is_bounded:
  assumes "new_store capacity retention = Inr st"
  shows "store_ok (fold apply_op ops st) \<and> ds_capacity (fold apply_op ops st) = nat capacity"
proof -
  have "store_ok (fold apply_op ops st') \<and> ds_capacity (fold apply_op ops st') = ds_capacity st'" if "store_ok st'" for st'
    using that by (induction ops arbitrary: st') (auto simp: apply_op_ok)
  moreover have "ds_capacity st = nat capacity" using assms by (auto simp: new_store_def split: if_splits option.splits)
  ultimately show ?thesis using new_store_ok [OF assms] by simp
qed

definition small_store :: dedup_store where
  "small_store = \<lparr>ds_capacity = 2, ds_retention = 10, ds_entries = [], ds_pending = [], ds_objects = 0\<rparr>"

lemma small_store: "new_store 2 (PInt 10) = Inr small_store"
  by (simp add: new_store_def small_store_def)

lemma store_is_bounded_witness:
  "store_ok (fold apply_op [ClaimOp 0 ''a'', ClaimOp 0 ''b'', ClaimOp 0 ''c''] small_store) \<and>
   ds_capacity (fold apply_op [ClaimOp 0 ''a'', ClaimOp 0 ''b'', ClaimOp 0 ''c''] small_store) = nat 2"
  by (rule store_is_bounded [OF small_store])

text \<open>
  C38. While the relay is not stopped, no two deliveries of the same message have a signal under way at
  once, however they interleave; and a delivery is acknowledged only when the signal of its message was
  accepted, by itself or by an earlier delivery.
\<close>

theorem relay_delivers_once:
  assumes "(relay_step claim_delivery complete_delivery release_delivery message)\<^sup>*\<^sup>* (start_relay st) r"
    and "delivered st = {}"
  shows "(claim_of_holder (rl_phase r n) \<noteq> None \<and> claim_of_holder (rl_phase r n') \<noteq> None \<and> message n = message n'
      \<longrightarrow> n = n') \<and>
    (rl_phase r n = Settled Ack \<longrightarrow> message n \<in> set (rl_sent r))"
  using dedup.one_holder [OF assms] dedup.acknowledged_sent [OF assms] by blast

definition demo_relay :: "(dedup_store, delivery_claim) relay" where
  "demo_relay = set_phase_of 0 (claimed_phase (fst (claim_delivery 0 ''a'' small_store)))
     ((start_relay small_store)\<lparr>rl_store := snd (claim_delivery 0 ''a'' small_store)\<rparr>)"

lemma relay_delivers_once_witness:
  "\<exists>c. claim_of_holder (rl_phase demo_relay 0) = Some c \<and> claim_of_holder (rl_phase demo_relay 1) = None"
proof -
  have "relay_step claim_delivery complete_delivery release_delivery (\<lambda>_. ''a'') (start_relay small_store) demo_relay"
    unfolding demo_relay_def by (rule relay_step.claim) (simp_all add: start_relay_def)
  then have "(relay_step claim_delivery complete_delivery release_delivery (\<lambda>_. ''a''))\<^sup>*\<^sup>* (start_relay small_store) demo_relay"
    by (rule r_into_rtranclp)
  moreover have "delivered small_store = {}" by (simp add: delivered_def small_store_def)
  ultimately have "claim_of_holder (rl_phase demo_relay 0) \<noteq> None \<and> claim_of_holder (rl_phase demo_relay 1) \<noteq> None \<longrightarrow> (0::nat) = 1"
    using relay_delivers_once by blast
  moreover have "claim_of_holder (rl_phase demo_relay 0) \<noteq> None"
    by (simp add: demo_relay_def claim_outcome small_store_def held_claim_def set_phase_of_def)
  ultimately show ?thesis by auto
qed

text \<open>
  What a claim answers: delivered, exactly when the message was completed and has neither expired nor
  been forgotten; in flight, when another delivery holds it; and otherwise a claim, unless as many
  messages as the capacity are in flight. A delivered message is forgotten early only to make room, the
  oldest first.
\<close>

theorem claim_answers:
  "fst (claim_delivery t m st) =
     (if \<exists>e. (m, e) \<in> set (ds_entries st) \<and> t < e then Inl Completed
      else if held_claim st m \<noteq> None then Inl InFlight
      else if ds_capacity st \<le> length (ds_pending st) then Inl CapacityExhausted
      else Inr \<lparr>dc_message_id = m, dc_object = ds_objects st\<rparr>) \<and>
   (\<forall>c st'. claim_delivery t m st = (Inr c, st') \<longrightarrow>
      (\<exists>old. filter (\<lambda>me. t < snd me) (ds_entries st) = old @ ds_entries st' \<and>
        (old = [] \<or> length (ds_entries st') + length (ds_pending st') = ds_capacity st')))"
  using claim_outcome [of t m st] claim_evicts_oldest [of t m st] by blast

lemma claim_answers_witness:
  "fst (claim_delivery 5 ''a'' (small_store\<lparr>ds_entries := [(''a'', 10)]\<rparr>)) = Inl Completed \<and>
   (\<exists>old. filter (\<lambda>me. 5 < snd me) (ds_entries small_store) = old @ ds_entries (snd (claim_delivery 5 ''a'' small_store)))"
proof
  show "fst (claim_delivery 5 ''a'' (small_store\<lparr>ds_entries := [(''a'', 10)]\<rparr>)) = Inl Completed"
    by (subst claim_answers [THEN conjunct1]) (simp add: small_store_def)
  have "claim_delivery 5 ''a'' small_store = (Inr \<lparr>dc_message_id = ''a'', dc_object = 0\<rparr>, snd (claim_delivery 5 ''a'' small_store))"
    by (rule prod_eqI) (simp_all add: claim_outcome small_store_def held_claim_def)
  then show "\<exists>old. filter (\<lambda>me. 5 < snd me) (ds_entries small_store) = old @ ds_entries (snd (claim_delivery 5 ''a'' small_store))"
    using claim_answers [of 5 "''a''" small_store, THEN conjunct2] by blast
qed

text \<open>
  The backoff keeps its base delay at the initial delay multiplied once per failure, up to the
  maximum; every delay is between zero and the maximum and within the jitter around the base delay.
\<close>

theorem backoff_is_bounded:
  assumes "backoff_ok b" "next_delay jitter b = (Inr d, b')"
  shows "backoff_ok b' \<and> bo_failures b' = Suc (bo_failures b) \<and> 0 \<le> d \<and> d \<le> rp_max (bo_policy b) \<and>
    d \<le> bo_next b * (1 + rp_jitter (bo_policy b)) \<and>
    (bo_next b * (1 - rp_jitter (bo_policy b)) \<le> d \<or> d = rp_max (bo_policy b))"
proof -
  have "bo_failures b' = Suc (bo_failures b)" "b' = snd (next_delay jitter b)"
    using assms(2) by (auto simp: next_delay_def Let_def split: if_splits)
  with next_delay_bounds [OF assms] next_delay_ok [OF assms(1), of jitter] show ?thesis by simp
qed

definition demo_backoff :: backoff where
  "demo_backoff = new_backoff \<lparr>rp_initial = 1, rp_max = 3, rp_multiplier = 2, rp_jitter = 0\<rparr>"

lemma backoff_is_bounded_witness:
  "\<exists>d b'. next_delay 0 demo_backoff = (Inr d, b') \<and> backoff_ok b' \<and> 0 \<le> d \<and> d \<le> 3"
proof -
  have "next_delay 0 demo_backoff = (Inr 1, demo_backoff\<lparr>bo_next := 2, bo_failures := 1\<rparr>)"
    by (simp add: next_delay_def demo_backoff_def new_backoff_def Let_def)
  moreover have "backoff_ok demo_backoff" unfolding demo_backoff_def by (rule new_backoff_ok)
    (simp add: valid_policy_def MAX_CONSUMER_RECONNECT_SECONDS_def MAX_CONSUMER_RECONNECT_MULTIPLIER_def)
  moreover have "bo_policy demo_backoff = \<lparr>rp_initial = 1, rp_max = 3, rp_multiplier = 2, rp_jitter = 0\<rparr>"
    by (simp add: demo_backoff_def new_backoff_def)
  ultimately show ?thesis
    using backoff_is_bounded [of demo_backoff 0 1 "demo_backoff\<lparr>bo_next := 2, bo_failures := 1\<rparr>"] by auto
qed

text \<open>
  An identity made in a scope belongs to exactly the scopes with the same digest; and two workflow
  identities agree only when the scopes' digests agree and the hashes of the workflow and request agree,
  of which the texts hashed differ unless workflow and request are the same.
\<close>

theorem identities_tell_scopes:
  assumes "make_workflow_id sha w r (Some a) = Inr v" "length (scope_digest_of sha b) = SCOPE_DIGEST_LENGTH"
  shows "identity_belongs_to_scope sha v ''workflow'' b = Inr (sha (scope_payload a) = sha (scope_payload b)) \<and>
    (scope_payload a = scope_payload b \<longleftrightarrow> a = b) \<and>
    (make_workflow_id sha w' r' (Some b) = Inr v \<longrightarrow>
       sha (scope_payload a) = sha (scope_payload b) \<and> sha (json_texts [w, r]) = sha (json_texts [w', r'])) \<and>
    (json_texts [w, r] = json_texts [w', r'] \<longleftrightarrow> w = w' \<and> r = r')"
proof -
  have v: "scoped_identity sha ''workflow'' a [w, r] = Inr v" using assms(1) by (simp add: make_workflow_id_def)
  show ?thesis
    using identity_of_scope [OF v assms(2)] scoped_identity_inject [OF v, of "''workflow''" b "[w', r']"]
    by (auto simp: make_workflow_id_def scope_digest_of_def scope_payload_inject json_texts_inject)
qed

definition demo_sha :: "string \<Rightarrow> string" where
  "demo_sha s = replicate 63 (CHR ''0'') @ (if s = scope_payload LOCAL_RUNTIME_SCOPE then ''1'' else ''2'')"

definition other_scope :: runtime_scope where
  "other_scope = \<lparr>rs_tenant = ''acme'', rs_application = ''justflow'', rs_environment = ''prod''\<rparr>"

lemma demo_sha_digest: "is_digest (demo_sha s)"
  by (auto simp: is_digest_def demo_sha_def SCOPE_DIGEST_LENGTH_def is_lower_hex_def is_digit_def char_code_def
      list_all_iff)

lemma demo_workflow_id:
  "make_workflow_id demo_sha ''w'' ''r'' (Some sc) =
    Inr (identity_prefix ''workflow'' (scope_digest_of demo_sha sc) @ demo_sha (json_texts [''w'', ''r'']))"
  using demo_sha_digest
  by (simp add: make_workflow_id_def scoped_identity_def scoped_identity_from_digest_def validate_scope_digest_def
      scope_digest_of_def is_identity_kind_def MAX_SCOPED_IDENTITY_KIND_LENGTH_def char_code_def guard_result_def)

lemma demo_digest_length: "length (scope_digest_of demo_sha sc) = SCOPE_DIGEST_LENGTH"
  using demo_sha_digest by (simp add: scope_digest_of_def is_digest_def)

lemma demo_scopes_differ: "demo_sha (scope_payload LOCAL_RUNTIME_SCOPE) \<noteq> demo_sha (scope_payload other_scope)"
proof -
  have "scope_payload other_scope \<noteq> scope_payload LOCAL_RUNTIME_SCOPE"
    by (simp add: scope_payload_inject other_scope_def LOCAL_RUNTIME_SCOPE_def)
  then show ?thesis by (simp add: demo_sha_def)
qed

lemma identities_tell_scopes_witness:
  "identity_belongs_to_scope demo_sha
     (identity_prefix ''workflow'' (scope_digest_of demo_sha LOCAL_RUNTIME_SCOPE) @ demo_sha (json_texts [''w'', ''r'']))
     ''workflow'' other_scope = Inr False"
  using identities_tell_scopes [OF demo_workflow_id demo_digest_length, of LOCAL_RUNTIME_SCOPE other_scope] demo_scopes_differ
  by simp

text \<open>
  C39. The relay admits only well-formed envelopes within the size limit that carry the digest of its scope
  (or none, for the local scope); but it signals the workflow that the envelope names, also one whose
  identity belongs to another scope, as the comparison of the workflow with the scope has no effect.
\<close>

theorem relay_admits_foreign_workflow:
  "(admit_delivery sha parse sc limit body = Some env \<longrightarrow>
      parse body = Some env \<and> valid_envelope sha env \<and> utf8_length body \<le> limit \<and>
      owns_scope sha LOCAL_ONLY (ec_scope_digest (envelope_common env)) sc) \<and>
   (parse body = Some (EventEnvelope c run_id name data) \<and> valid_envelope sha (EventEnvelope c run_id name data) \<and>
      utf8_length body \<le> limit \<and> ec_scope_digest c = Some (scope_digest_of sha sc) \<longrightarrow>
      admit_delivery sha parse sc limit body = Some (EventEnvelope c run_id name data))"
proof -
  have "admit_delivery sha parse sc limit body = Some (EventEnvelope c run_id name data)"
    if "parse body = Some (EventEnvelope c run_id name data)" "valid_envelope sha (EventEnvelope c run_id name data)"
      "utf8_length body \<le> limit" "ec_scope_digest c = Some (scope_digest_of sha sc)"
    using that by (simp add: admit_delivery_def enforce_utf8_bytes_def enforce_limit_def relay_scope_ok_iff owns_scope_def)
  then show ?thesis using admitted_scope [of sha parse sc limit body env] by blast
qed

definition foreign_common :: common_envelope where
  "foreign_common = \<lparr>ec_message_id = ''m'', ec_workflow_name = ''w'', ec_definition_digest = replicate 64 (CHR ''0''),
     ec_workflow_id = identity_prefix ''workflow'' (scope_digest_of demo_sha LOCAL_RUNTIME_SCOPE) @ demo_sha (json_texts [''w'', ''r'']),
     ec_correlation_id = ''r'', ec_causation_id = None, ec_trace_id = None,
     ec_scope_digest = Some (scope_digest_of demo_sha other_scope)\<rparr>"

lemma relay_admits_foreign_workflow_witness:
  "admit_delivery demo_sha (\<lambda>_. Some (EventEnvelope foreign_common ''run'' ''go'' JNull)) other_scope 100 ''{}''
     = Some (EventEnvelope foreign_common ''run'' ''go'' JNull) \<and>
   identity_belongs_to_scope demo_sha (ec_workflow_id foreign_common) ''workflow'' other_scope = Inr False"
proof
  have "in_bounds MAX_MESSAGE_IDENTIFIER (ec_workflow_id foreign_common)"
    using demo_sha_digest [of "scope_payload LOCAL_RUNTIME_SCOPE"] demo_sha_digest [of "json_texts [''w'', ''r'']"]
    by (simp add: in_bounds_def MAX_MESSAGE_IDENTIFIER_def foreign_common_def identity_prefix_def scope_digest_of_def
        SCOPED_IDENTITY_VERSION_def is_digest_def SCOPE_DIGEST_LENGTH_def)
  then have "valid_envelope demo_sha (EventEnvelope foreign_common ''run'' ''go'' JNull)"
    using demo_sha_digest
    by (simp add: valid_common_def foreign_common_def in_bounds_def MAX_MESSAGE_IDENTIFIER_def
        DEFINITION_DIGEST_LENGTH_def scope_digest_of_def)
  moreover have "utf8_length ''{}'' \<le> 100" by (simp add: utf8_length_def)
  ultimately show "admit_delivery demo_sha (\<lambda>_. Some (EventEnvelope foreign_common ''run'' ''go'' JNull)) other_scope 100 ''{}''
     = Some (EventEnvelope foreign_common ''run'' ''go'' JNull)"
    using relay_admits_foreign_workflow [of demo_sha "\<lambda>_. Some (EventEnvelope foreign_common ''run'' ''go'' JNull)"
        other_scope 100 "''{}''" "EventEnvelope foreign_common ''run'' ''go'' JNull" foreign_common "''run''" "''go''" JNull]
    by (simp add: foreign_common_def)
  show "identity_belongs_to_scope demo_sha (ec_workflow_id foreign_common) ''workflow'' other_scope = Inr False"
    using identity_of_scope [of demo_sha "''workflow''" LOCAL_RUNTIME_SCOPE "[''w'', ''r'']" _ other_scope]
      demo_workflow_id [of LOCAL_RUNTIME_SCOPE] demo_digest_length demo_scopes_differ
    by (simp add: make_workflow_id_def foreign_common_def scope_digest_of_def)
qed

end
