(* ===== verification/JF_Starter.thy ===== *)
theory JF_Starter
  imports JF_Scope JF_Models JF_Errors
begin

text \<open>
  Starting workflows (\<open>runtime/starter.py\<close>): the provenance of an execution (\<open>provenance.py\<close>), the target of
  a start with the memo it leaves on the execution (\<open>definitions/routing.py\<close>), the declared triggers
  (\<open>config/triggers.py\<close>) and their match with the source of a request, and the start itself, with every
  answer that Temporal can give. Temporal, the resolver of targets and the check of a payload against a
  JSON schema are parameters.
\<close>

section \<open>JSON texts of values\<close>

text \<open>
  \<open>json.dumps\<close> with \<open>ensure_ascii=False\<close>, \<open>separators=(",", ":")\<close> and \<open>sort_keys=True\<close>; the text of a float is
  a parameter.
\<close>

fun json_dump :: "(rat \<Rightarrow> string) \<Rightarrow> json \<Rightarrow> string" where
  "json_dump sf JNull = ''null''"
| "json_dump sf (JBool b) = (if b then ''true'' else ''false'')"
| "json_dump sf (JInt i) = show_int i"
| "json_dump sf (JFloat q) = sf q"
| "json_dump sf (JStr s) = json_quote s"
| "json_dump sf (JList xs) = CHR ''['' # str_join '','' (map (json_dump sf) xs) @ '']''"
| "json_dump sf (JObj kvs) = CHR ''{'' #
     str_join '','' (map (\<lambda>kv. json_quote (fst kv) @ '':'' @ json_dump sf (snd kv)) (sort_key fst kvs)) @ ''}''"

section \<open>Provenance\<close>

definition ARTIFACT_DIGEST_HEX_LENGTH :: nat where "ARTIFACT_DIGEST_HEX_LENGTH = 64"
definition LOCAL_ARTIFACT_DIGEST :: string where "LOCAL_ARTIFACT_DIGEST = ''local-development''"
definition MAX_PROVENANCE_IDENTITY_LENGTH :: nat where "MAX_PROVENANCE_IDENTITY_LENGTH = 256"

definition bounded_text :: "nat \<Rightarrow> string \<Rightarrow> bool" where
  "bounded_text n s \<longleftrightarrow> s \<noteq> [] \<and> length s \<le> n"

text \<open>\<open>SHA256_HEX_PATTERN\<close> and \<open>ARTIFACT_DIGEST_PATTERN\<close>.\<close>

definition is_sha256_hex :: "string \<Rightarrow> bool" where
  "is_sha256_hex s \<longleftrightarrow> length s = ARTIFACT_DIGEST_HEX_LENGTH \<and> list_all is_lower_hex s"

definition is_artifact_digest :: "string \<Rightarrow> bool" where
  "is_artifact_digest s \<longleftrightarrow> take 7 s = ''sha256:'' \<and> is_sha256_hex (drop 7 s)"

record worker_artifact =
  wa_deployment_name :: string
  wa_build_id :: string
  wa_artifact_digest :: string
  wa_package_version :: string
  wa_source_revision :: "string option"

definition valid_artifact :: "worker_artifact \<Rightarrow> bool" where
  "valid_artifact a \<longleftrightarrow>
     list_all (bounded_text MAX_PROVENANCE_IDENTITY_LENGTH)
       ([wa_deployment_name a, wa_build_id a, wa_artifact_digest a, wa_package_version a] @
        list_of_option (wa_source_revision a)) \<and>
     (wa_artifact_digest a = LOCAL_ARTIFACT_DIGEST \<or> is_artifact_digest (wa_artifact_digest a))"

record execution_configuration =
  xc_revision :: string
  xc_tenant_revision :: "string option"
  xc_catalog_revision :: "string option"
  xc_component_digest :: "string option"
  xc_resolution_digest :: string

definition valid_configuration :: "execution_configuration \<Rightarrow> bool" where
  "valid_configuration c \<longleftrightarrow>
     list_all is_sha256_hex ([xc_revision c] @ list_of_option (xc_tenant_revision c) @
       list_of_option (xc_catalog_revision c)) \<and>
     list_all is_artifact_digest ([xc_resolution_digest c] @ list_of_option (xc_component_digest c)) \<and>
     ((xc_tenant_revision c = None) = (xc_catalog_revision c = None)) \<and>
     ((xc_tenant_revision c = None) = (xc_component_digest c = None))"

section \<open>Targets and their memo\<close>

text \<open>Of a manifest, what a start reads of it.\<close>

record start_manifest =
  mf_logical_name :: string
  mf_abi :: string
  mf_definition_digest :: string
  mf_input_schema :: "json option"

record worker_deployment =
  wd_artifact :: worker_artifact
  wd_abis :: "string list"

definition supports :: "worker_deployment \<Rightarrow> start_manifest \<Rightarrow> bool" where
  "supports d m \<longleftrightarrow> mf_abi m \<in> set (wd_abis d)"

record start_target =
  tg_manifest :: start_manifest
  tg_deployment :: worker_deployment
  tg_environment_digest :: string
  tg_scope_digest :: "string option"
  tg_configuration :: "execution_configuration option"

definition valid_target :: "start_target \<Rightarrow> bool" where
  "valid_target t \<longleftrightarrow> is_sha256_hex (tg_environment_digest t) \<and> pred_option is_digest (tg_scope_digest t)"

definition memo_option :: "string \<Rightarrow> string option \<Rightarrow> json dict" where
  "memo_option k v = (case v of None \<Rightarrow> [] | Some s \<Rightarrow> [(k, JStr s)])"

text \<open>\<open>execution_identity_memo\<close>, for the arguments of \<open>execution_memo\<close>.\<close>

definition execution_memo :: "start_target \<Rightarrow> json dict" where
  "execution_memo t =
     (let m = tg_manifest t; a = wd_artifact (tg_deployment t)
      in [(''justflow.logical_workflow'', JStr (mf_logical_name m)),
          (''justflow.definition_digest'', JStr (mf_definition_digest m)),
          (''justflow.worker_deployment'', JStr (wa_deployment_name a)),
          (''justflow.worker_build_id'', JStr (wa_build_id a)),
          (''justflow.worker_artifact_digest'', JStr (wa_artifact_digest a)),
          (''justflow.worker_package_version'', JStr (wa_package_version a)),
          (''justflow.environment_snapshot_digest'', JStr (tg_environment_digest t))] @
         (case tg_configuration t of
            None \<Rightarrow> []
          | Some c \<Rightarrow>
              [(''justflow.configuration_revision'', JStr (xc_revision c)),
               (''justflow.configuration_resolution_digest'', JStr (xc_resolution_digest c))] @
              memo_option ''justflow.tenant_configuration_revision'' (xc_tenant_revision c) @
              memo_option ''justflow.component_catalog_revision'' (xc_catalog_revision c) @
              memo_option ''justflow.component_identity_digest'' (xc_component_digest c)) @
         memo_option ''justflow.worker_source_revision'' (wa_source_revision a))"

section \<open>Requests, triggers and results\<close>

datatype trigger_source_identity =
    BrokerSource string string
  | ControlApiSource string
  | WebhookSource string string
  | HostSource string string
  | ScheduleSource string string
  | CloudEventSource string string

datatype trigger_kind =
    TriggerApi | TriggerSchedule | TriggerWebhook | TriggerEvent | TriggerBroker | TriggerHost

text \<open>
  A declaration: its workflow, whether it is paused, and the binding of its kind. The spec of a schedule
  is not read by a start.
\<close>

datatype trigger_declaration =
    ApiTrigger string bool
  | ScheduleTrigger string bool
  | WebhookTrigger string bool string
  | EventTrigger string bool string
  | BrokerTrigger string bool string
  | HostTrigger string bool string

fun trigger_workflow :: "trigger_declaration \<Rightarrow> string" where
  "trigger_workflow (ApiTrigger w _) = w"
| "trigger_workflow (ScheduleTrigger w _) = w"
| "trigger_workflow (WebhookTrigger w _ _) = w"
| "trigger_workflow (EventTrigger w _ _) = w"
| "trigger_workflow (BrokerTrigger w _ _) = w"
| "trigger_workflow (HostTrigger w _ _) = w"

fun trigger_paused :: "trigger_declaration \<Rightarrow> bool" where
  "trigger_paused (ApiTrigger _ p) = p"
| "trigger_paused (ScheduleTrigger _ p) = p"
| "trigger_paused (WebhookTrigger _ p _) = p"
| "trigger_paused (EventTrigger _ p _) = p"
| "trigger_paused (BrokerTrigger _ p _) = p"
| "trigger_paused (HostTrigger _ p _) = p"

fun kind_of_trigger :: "trigger_declaration \<Rightarrow> trigger_kind" where
  "kind_of_trigger (ApiTrigger _ _) = TriggerApi"
| "kind_of_trigger (ScheduleTrigger _ _) = TriggerSchedule"
| "kind_of_trigger (WebhookTrigger _ _ _) = TriggerWebhook"
| "kind_of_trigger (EventTrigger _ _ _) = TriggerEvent"
| "kind_of_trigger (BrokerTrigger _ _ _) = TriggerBroker"
| "kind_of_trigger (HostTrigger _ _ _) = TriggerHost"

fun source_binding :: "trigger_declaration \<Rightarrow> string option" where
  "source_binding (WebhookTrigger _ _ b) = Some b"
| "source_binding (EventTrigger _ _ b) = Some b"
| "source_binding (BrokerTrigger _ _ b) = Some b"
| "source_binding (HostTrigger _ _ b) = Some b"
| "source_binding _ = None"

text \<open>\<open>TriggersConfig.validate_api_uniqueness\<close>.\<close>

definition valid_triggers :: "trigger_declaration dict \<Rightarrow> bool" where
  "valid_triggers ts \<longleftrightarrow>
     distinct (map (\<lambda>t. trigger_workflow (snd t)) (filter (\<lambda>t. kind_of_trigger (snd t) = TriggerApi) ts)) \<and>
     distinct (map (\<lambda>t. (trigger_workflow (snd t), kind_of_trigger (snd t), source_binding (snd t)))
       (filter (\<lambda>t. source_binding (snd t) \<noteq> None) ts))"

definition triggers_for_workflow :: "trigger_declaration dict \<Rightarrow> string \<Rightarrow> trigger_declaration dict" where
  "triggers_for_workflow ts w = filter (\<lambda>t. trigger_workflow (snd t) = w) ts"

record start_request =
  rq_workflow :: string
  rq_business_id :: string
  rq_input :: pyval
  rq_source :: trigger_source_identity
  rq_definition_digest :: "string option"
  rq_correlation_id :: "string option"

text \<open>\<open>default_correlation_identity\<close>.\<close>

definition default_correlation_identity :: "start_request \<Rightarrow> start_request" where
  "default_correlation_identity rq =
     (if rq_correlation_id rq = None then rq\<lparr>rq_correlation_id := Some (rq_business_id rq)\<rparr> else rq)"

datatype start_status = RunStarted | RunDuplicate

record start_result =
  sw_workflow_id :: string
  sw_run_id :: string
  sw_workflow :: string
  sw_definition_digest :: string
  sw_artifact :: worker_artifact
  sw_environment_digest :: string
  sw_configuration :: "execution_configuration option"
  sw_trigger :: string
  sw_source_digest :: string
  sw_scope_digest :: string
  sw_status :: start_status

definition START_IDENTIFIER_LENGTH :: nat where "START_IDENTIFIER_LENGTH = 256"

definition valid_result :: "start_result \<Rightarrow> bool" where
  "valid_result r \<longleftrightarrow>
     list_all (bounded_text START_IDENTIFIER_LENGTH) [sw_workflow_id r, sw_run_id r] \<and>
     list_all is_name [sw_workflow r, sw_trigger r] \<and>
     list_all is_sha256_hex [sw_definition_digest r, sw_environment_digest r, sw_source_digest r, sw_scope_digest r] \<and>
     valid_artifact (sw_artifact r) \<and> pred_option valid_configuration (sw_configuration r)"

datatype start_error_code =
    InvalidRequest | UnknownWorkflow | DefinitionUnavailable | IncompatibleWorker | InputRejected
  | ConfigurationError | TriggerPaused | TriggerUnavailable | TemporalUnavailable

datatype start_certainty = AuthoritativeRejection | AmbiguousStart

text \<open>
  \<open>StartFailure\<close> is a \<open>WorkflowStartError\<close> with its code, whether it is retryable and the certainty that
  nothing was started; \<open>StartBroke\<close> is any other exception.
\<close>

datatype start_exn = StartFailure start_error_code bool start_certainty | StartBroke

text \<open>A failure whose certainty is not given is an authoritative rejection.\<close>

abbreviation start_error :: "start_error_code \<Rightarrow> start_exn" where
  "start_error code \<equiv> StartFailure code False AuthoritativeRejection"

section \<open>The source of a request and its trigger\<close>

fun source_binding_id :: "trigger_source_identity \<Rightarrow> string option" where
  "source_binding_id (BrokerSource b _) = Some b"
| "source_binding_id (WebhookSource p _) = Some p"
| "source_binding_id (HostSource a _) = Some a"
| "source_binding_id (ScheduleSource s _) = Some s"
| "source_binding_id (CloudEventSource m _) = Some m"
| "source_binding_id (ControlApiSource _) = None"

fun scope_binding_kind :: "trigger_source_identity \<Rightarrow> binding_kind" where
  "scope_binding_kind (BrokerSource _ _) = BindBroker"
| "scope_binding_kind (ControlApiSource _) = BindApi"
| "scope_binding_kind (WebhookSource _ _) = BindWebhook"
| "scope_binding_kind (ScheduleSource _ _) = BindSchedule"
| "scope_binding_kind (CloudEventSource _ _) = BindCloudEvent"
| "scope_binding_kind (HostSource _ _) = BindHost"

fun source_provider :: "trigger_source_identity \<Rightarrow> string option" where
  "source_provider (BrokerSource b _) = Some b"
| "source_provider (WebhookSource p _) = Some p"
| "source_provider (HostSource a _) = Some a"
| "source_provider (CloudEventSource m _) = Some m"
| "source_provider _ = None"

text \<open>\<open>source.source.value\<close>, and \<open>model_dump\<close> of a source.\<close>

fun source_name :: "trigger_source_identity \<Rightarrow> string" where
  "source_name (BrokerSource _ _) = ''broker''"
| "source_name (ControlApiSource _) = ''control_api''"
| "source_name (WebhookSource _ _) = ''webhook''"
| "source_name (HostSource _ _) = ''host''"
| "source_name (ScheduleSource _ _) = ''schedule''"
| "source_name (CloudEventSource _ _) = ''cloud_event''"

fun source_fields :: "trigger_source_identity \<Rightarrow> json dict" where
  "source_fields (BrokerSource b m) = [(''broker'', JStr b), (''message_id'', JStr m)]"
| "source_fields (ControlApiSource r) = [(''request_id'', JStr r)]"
| "source_fields (WebhookSource p e) = [(''provider'', JStr p), (''event_id'', JStr e)]"
| "source_fields (HostSource a e) = [(''adapter'', JStr a), (''event_id'', JStr e)]"
| "source_fields (ScheduleSource s i) = [(''schedule'', JStr s), (''occurrence_id'', JStr i)]"
| "source_fields (CloudEventSource m e) = [(''mapping'', JStr m), (''event_id'', JStr e)]"

definition source_identity_digest ::
    "(string \<Rightarrow> string) \<Rightarrow> (rat \<Rightarrow> string) \<Rightarrow> trigger_source_identity \<Rightarrow> runtime_scope \<Rightarrow> string" where
  "source_identity_digest sha sf src sc =
     sha (json_dump sf (JObj [(''scope_digest'', JStr (scope_digest_of sha sc)),
       (''source'', JObj ((''source'', JStr (source_name src)) # source_fields src))]))"

definition validate_source_binding :: "trigger_source_identity \<Rightarrow> scope_binding \<Rightarrow> start_exn + unit" where
  "validate_source_binding src b = (case source_binding_id src of
       None \<Rightarrow> Inr ()
     | Some expected \<Rightarrow> guard_result (sb_binding_id b = expected) (start_error InvalidRequest))"

fun trigger_matches_source :: "string \<Rightarrow> trigger_declaration \<Rightarrow> trigger_source_identity \<Rightarrow> bool" where
  "trigger_matches_source name (ApiTrigger _ _) (ControlApiSource _) = True"
| "trigger_matches_source name (ScheduleTrigger _ _) (ScheduleSource s _) = (s = name)"
| "trigger_matches_source name (WebhookTrigger _ _ p) (WebhookSource p' _) = (p' = p)"
| "trigger_matches_source name (EventTrigger _ _ m) (CloudEventSource m' _) = (m' = m)"
| "trigger_matches_source name (BrokerTrigger _ _ b) (BrokerSource b' _) = (b' = b)"
| "trigger_matches_source name (HostTrigger _ _ a) (HostSource a' _) = (a' = a)"
| "trigger_matches_source _ _ _ = False"

text \<open>The loop over the declarations in the order of their names.\<close>

fun first_match :: "trigger_source_identity \<Rightarrow> trigger_declaration dict \<Rightarrow> start_exn + (string \<times> trigger_kind)" where
  "first_match src [] = Inl (start_error TriggerUnavailable)"
| "first_match src ((name, d) # ts) =
     (if \<not> trigger_matches_source name d src then first_match src ts
      else if trigger_paused d then Inl (start_error TriggerPaused)
      else Inr (name, kind_of_trigger d))"

definition match_trigger ::
    "trigger_declaration dict \<Rightarrow> trigger_source_identity \<Rightarrow> scope_binding \<Rightarrow> start_exn + (string \<times> trigger_kind)" where
  "match_trigger ts src b =
     bind_result (validate_source_binding src b) (\<lambda>_. first_match src (sort_key fst ts))"

section \<open>Targets\<close>

record start_registration =
  sg_target :: start_target
  sg_triggers :: "trigger_declaration dict"

text \<open>\<open>ScopedWorkflowTargetResolver\<close>: the registrations of each scope, by the digest of the scope.\<close>

type_synonym target_index = "(string \<times> (runtime_scope \<times> start_registration dict)) list"

datatype resolver_error = DuplicateScope | TargetKeyMismatch | ForeignTarget

definition register_targets ::
    "(string \<Rightarrow> string) \<Rightarrow> runtime_scope \<Rightarrow> start_target dict \<Rightarrow> trigger_declaration dict \<Rightarrow>
     resolver_error + start_registration dict" where
  "register_targets sha sc targets ts = map_result (\<lambda>nt.
     if fst nt \<noteq> mf_logical_name (tg_manifest (snd nt)) then Inl TargetKeyMismatch
     else if \<not> owns_scope sha LOCAL_ONLY (tg_scope_digest (snd nt)) sc then Inl ForeignTarget
     else Inr (fst nt, \<lparr>sg_target = snd nt, sg_triggers = triggers_for_workflow ts (fst nt)\<rparr>)) targets"

fun index_targets ::
    "(string \<Rightarrow> string) \<Rightarrow> (runtime_scope \<times> start_target dict \<times> trigger_declaration dict) list \<Rightarrow> target_index \<Rightarrow>
     resolver_error + target_index" where
  "index_targets sha [] index = Inr index"
| "index_targets sha ((sc, targets, ts) # rest) index =
     (if dict_has index (scope_digest_of sha sc) then Inl DuplicateScope
      else bind_result (register_targets sha sc targets ts) (\<lambda>regs.
        index_targets sha rest (dict_set (scope_digest_of sha sc) (sc, regs) index)))"

definition resolve_target :: "(string \<Rightarrow> string) \<Rightarrow> target_index \<Rightarrow> runtime_scope \<Rightarrow> string \<Rightarrow> start_registration option" where
  "resolve_target sha index sc w = (case dict_get index (scope_digest_of sha sc) of
       None \<Rightarrow> None
     | Some (sc', regs) \<Rightarrow> if sc' \<noteq> sc then None else dict_get regs w)"

text \<open>What the schema of a contract answers to a payload.\<close>

datatype contract_answer = ContractHolds | ContractViolated | ContractUnavailable

text \<open>
  A starter: its resolver, the limits it reads, the length of the strict JSON form, the contract check, the
  hash, the texts of floats, the attempts of a pinned start, and the task queue.
\<close>

record starter =
  ws_resolve :: "runtime_scope \<Rightarrow> string \<Rightarrow> start_registration option"
  ws_collection_items :: nat
  ws_trigger_bytes :: nat
  ws_bytes :: "json \<Rightarrow> nat option"
  ws_contract :: "json \<Rightarrow> json \<Rightarrow> contract_answer"
  ws_sha :: "string \<Rightarrow> string"
  ws_float_text :: "rat \<Rightarrow> string"
  ws_pinned_attempts :: nat
  ws_task_queue :: string

definition resolve_registration :: "starter \<Rightarrow> runtime_scope \<Rightarrow> start_request \<Rightarrow> start_exn + start_registration" where
  "resolve_registration ws sc rq = (case ws_resolve ws sc (rq_workflow rq) of
       None \<Rightarrow> Inl (start_error UnknownWorkflow)
     | Some reg \<Rightarrow>
         if rq_definition_digest rq \<noteq> None \<and>
            rq_definition_digest rq \<noteq> Some (mf_definition_digest (tg_manifest (sg_target reg)))
         then Inl (start_error DefinitionUnavailable) else Inr reg)"

definition resolve_active_target :: "starter \<Rightarrow> runtime_scope \<Rightarrow> string \<Rightarrow> start_exn + start_target" where
  "resolve_active_target ws sc w = (case ws_resolve ws sc w of
       None \<Rightarrow> Inl (start_error UnknownWorkflow)
     | Some reg \<Rightarrow>
         if \<not> supports (tg_deployment (sg_target reg)) (tg_manifest (sg_target reg))
         then Inl (start_error IncompatibleWorker) else Inr (sg_target reg))"

definition validate_resolved_target ::
    "(string \<Rightarrow> string) \<Rightarrow> runtime_scope \<Rightarrow> start_request \<Rightarrow> start_target \<Rightarrow> start_exn + unit" where
  "validate_resolved_target sha sc rq t =
     (let m = tg_manifest t
      in if rq_workflow rq \<noteq> mf_logical_name m then Inl (start_error DefinitionUnavailable)
         else if \<not> supports (tg_deployment t) m then Inl (start_error IncompatibleWorker)
         else if \<not> owns_scope sha LOCAL_ONLY (tg_scope_digest t) sc then Inl (start_error DefinitionUnavailable)
         else if rq_definition_digest rq \<noteq> None \<and> rq_definition_digest rq \<noteq> Some (mf_definition_digest m)
           then Inl (start_error DefinitionUnavailable)
         else Inr ())"

definition validate_start_input :: "starter \<Rightarrow> pyval \<Rightarrow> start_target \<Rightarrow> start_exn + json dict" where
  "validate_start_input ws v t =
     (case normalize_json_object MAX_JSON_DEPTH (ws_collection_items ws) ''start.input'' v of
        Inl _ \<Rightarrow> Inl (start_error InvalidRequest)
      | Inr d \<Rightarrow>
          if \<not> is_ok (enforce_payload_bytes (ws_bytes ws (JObj d)) ''start.input'' (ws_trigger_bytes ws))
          then Inl (start_error InvalidRequest)
          else (case mf_input_schema (tg_manifest t) of
              None \<Rightarrow> Inr d
            | Some schema \<Rightarrow>
                (case ws_contract ws schema (JObj d) of
                   ContractHolds \<Rightarrow> Inr d
                 | ContractViolated \<Rightarrow> Inl (start_error InputRejected)
                 | ContractUnavailable \<Rightarrow> Inl (start_error ConfigurationError))))"

definition bound_scope :: "trigger_source_identity \<Rightarrow> scope_binding \<Rightarrow> start_exn + runtime_scope" where
  "bound_scope src b = (case require_bound_scope b (scope_binding_kind src) (sb_scope b) of
       Inl _ \<Rightarrow> Inl (start_error InvalidRequest) | Inr sc \<Rightarrow> Inr sc)"

text \<open>\<open>prepare\<close>: the target, the trigger and the normalized input of a request.\<close>

definition prepare_start ::
    "starter \<Rightarrow> start_request \<Rightarrow> scope_binding \<Rightarrow> start_exn + (start_target \<times> (string \<times> trigger_kind) \<times> json dict)" where
  "prepare_start ws rq b =
     bind_result (bound_scope (rq_source rq) b) (\<lambda>sc.
     bind_result (resolve_registration ws sc rq) (\<lambda>reg.
     bind_result (match_trigger (sg_triggers reg) (rq_source rq) b) (\<lambda>trigger.
     bind_result (validate_resolved_target (ws_sha ws) sc rq (sg_target reg)) (\<lambda>_.
     bind_result (validate_start_input ws (rq_input rq) (sg_target reg)) (\<lambda>d.
       Inr (sg_target reg, trigger, d))))))"

section \<open>Temporal\<close>

datatype rpc_status =
    RpcOk | RpcCancelled | RpcUnknown | RpcInvalidArgument | RpcDeadlineExceeded | RpcNotFoundStatus
  | RpcAlreadyExists | RpcPermissionDenied | RpcResourceExhausted | RpcFailedPrecondition | RpcAborted
  | RpcOutOfRange | RpcUnimplemented | RpcInternal | RpcUnavailable | RpcDataLoss | RpcUnauthenticated

definition AUTHORITATIVE_START_REJECTION_STATUSES :: "rpc_status set" where
  "AUTHORITATIVE_START_REJECTION_STATUSES =
     {RpcInvalidArgument, RpcNotFoundStatus, RpcPermissionDenied, RpcResourceExhausted, RpcFailedPrecondition,
      RpcAborted, RpcOutOfRange, RpcUnimplemented, RpcUnauthenticated}"

text \<open>
  The answers to a start: a run, with its identity if the handle has one; the name taken, by a run that may
  be named; an RPC error with its message; or another exception.
\<close>

datatype start_reply =
    StartedRun "string option"
  | AlreadyStartedRun "string option"
  | StartRpcError rpc_status string
  | StartOtherError

text \<open>The answers to a description: the memo of the execution and its run, or an error.\<close>

datatype describe_reply = Described "json dict" string | DescribeRpcError rpc_status | DescribeOtherError

definition pinned_version_message :: "worker_deployment \<Rightarrow> string \<Rightarrow> string" where
  "pinned_version_message d q =
     ''Pinned version '' @ [CHR 0x27] @ wa_deployment_name (wd_artifact d) @ '':'' @ wa_build_id (wd_artifact d) @
     [CHR 0x27] @ '' is not present in task queue '' @ [CHR 0x27] @ q @ [CHR 0x27] @ '' of type '' @ [CHR 0x27] @
     ''Workflow'' @ [CHR 0x27]"

definition missing_pinned_version :: "worker_deployment \<Rightarrow> string \<Rightarrow> start_reply \<Rightarrow> bool" where
  "missing_pinned_version d q r \<longleftrightarrow> r = StartRpcError RpcFailedPrecondition (pinned_version_message d q)"

text \<open>
  \<open>retry_pinned_workflow_start\<close>: \<open>replies k\<close> answers the \<open>k\<close>-th attempt, \<open>left\<close> attempts are left; none at
  all is a \<open>ValueError\<close>.
\<close>

fun retry_pinned :: "(start_reply \<Rightarrow> bool) \<Rightarrow> (nat \<Rightarrow> start_reply) \<Rightarrow> nat \<Rightarrow> nat \<Rightarrow> start_reply" where
  "retry_pinned missing replies k 0 = StartOtherError"
| "retry_pinned missing replies k (Suc left) =
     (if missing (replies k) \<and> left \<noteq> 0 then retry_pinned missing replies (Suc k) left else replies k)"

section \<open>The result of an existing run\<close>

definition memo_text :: "json dict \<Rightarrow> string \<Rightarrow> string option" where
  "memo_text memo k = (case dict_get memo k of Some (JStr v) \<Rightarrow> if v = [] then None else Some v | _ \<Rightarrow> None)"

definition required_memo_text :: "json dict \<Rightarrow> string \<Rightarrow> unit + string" where
  "required_memo_text memo k = (case memo_text memo k of None \<Rightarrow> Inl () | Some v \<Rightarrow> Inr v)"

definition memo_artifact :: "json dict \<Rightarrow> unit + worker_artifact" where
  "memo_artifact memo =
     bind_result (required_memo_text memo ''justflow.worker_deployment'') (\<lambda>name.
     bind_result (required_memo_text memo ''justflow.worker_build_id'') (\<lambda>build.
     bind_result (required_memo_text memo ''justflow.worker_artifact_digest'') (\<lambda>digest.
     bind_result (required_memo_text memo ''justflow.worker_package_version'') (\<lambda>package.
       (let a = \<lparr>wa_deployment_name = name, wa_build_id = build, wa_artifact_digest = digest,
            wa_package_version = package, wa_source_revision = memo_text memo ''justflow.worker_source_revision''\<rparr>
        in if valid_artifact a then Inr a else Inl ())))))"

definition memo_configuration :: "json dict \<Rightarrow> unit + execution_configuration option" where
  "memo_configuration memo =
     (case (memo_text memo ''justflow.configuration_revision'',
            memo_text memo ''justflow.configuration_resolution_digest'') of
        (None, None) \<Rightarrow> Inr None
      | (Some revision, Some resolution) \<Rightarrow>
          (let c = \<lparr>xc_revision = revision,
               xc_tenant_revision = memo_text memo ''justflow.tenant_configuration_revision'',
               xc_catalog_revision = memo_text memo ''justflow.component_catalog_revision'',
               xc_component_digest = memo_text memo ''justflow.component_identity_digest'',
               xc_resolution_digest = resolution\<rparr>
           in if valid_configuration c then Inr (Some c) else Inl ())
      | _ \<Rightarrow> Inl ())"

definition result_from_memo :: "json dict \<Rightarrow> string \<Rightarrow> string \<Rightarrow> unit + start_result" where
  "result_from_memo memo workflow_id run_id =
     bind_result (required_memo_text memo ''justflow.logical_workflow'') (\<lambda>workflow.
     bind_result (required_memo_text memo ''justflow.definition_digest'') (\<lambda>definition_digest.
     bind_result (required_memo_text memo ''justflow.scope_digest'') (\<lambda>scope_digest.
     bind_result (required_memo_text memo ''justflow.trigger_name'') (\<lambda>trigger.
     bind_result (required_memo_text memo ''justflow.source_identity_digest'') (\<lambda>source_digest.
     bind_result (memo_artifact memo) (\<lambda>artifact.
     bind_result (memo_configuration memo) (\<lambda>configuration.
     bind_result (required_memo_text memo ''justflow.environment_snapshot_digest'') (\<lambda>environment_digest.
       (let r = \<lparr>sw_workflow_id = workflow_id, sw_run_id = run_id, sw_workflow = workflow,
            sw_definition_digest = definition_digest, sw_artifact = artifact,
            sw_environment_digest = environment_digest, sw_configuration = configuration,
            sw_trigger = trigger, sw_source_digest = source_digest, sw_scope_digest = scope_digest,
            sw_status = RunDuplicate\<rparr>
        in if valid_result r then Inr r else Inl ())))))))))"

abbreviation ambiguous_start :: start_exn where
  "ambiguous_start \<equiv> StartFailure TemporalUnavailable True AmbiguousStart"

text \<open>\<open>_lookup_existing_result\<close>, \<open>_existing_result\<close> and \<open>_resolve_run_id\<close>, given the answer of Temporal.\<close>

definition lookup_existing ::
    "(string \<Rightarrow> string) \<Rightarrow> describe_reply \<Rightarrow> string \<Rightarrow> runtime_scope \<Rightarrow> start_exn + start_result option" where
  "lookup_existing sha reply workflow_id sc = (case reply of
       DescribeRpcError status \<Rightarrow> if status = RpcNotFoundStatus then Inr None else Inl ambiguous_start
     | DescribeOtherError \<Rightarrow> Inl ambiguous_start
     | Described memo run_id \<Rightarrow>
         (case result_from_memo memo workflow_id run_id of
            Inl _ \<Rightarrow> Inl ambiguous_start
          | Inr r \<Rightarrow>
              if sw_scope_digest r \<noteq> scope_digest_of sha sc then Inl (start_error DefinitionUnavailable)
              else Inr (Some r)))"

definition existing_result ::
    "(string \<Rightarrow> string) \<Rightarrow> describe_reply \<Rightarrow> string \<Rightarrow> runtime_scope \<Rightarrow> start_exn + start_result" where
  "existing_result sha reply workflow_id sc =
     bind_result (lookup_existing sha reply workflow_id sc) (\<lambda>r.
       case r of None \<Rightarrow> Inl ambiguous_start | Some x \<Rightarrow> Inr x)"

definition resolve_run_id :: "string option \<Rightarrow> describe_reply \<Rightarrow> start_exn + string" where
  "resolve_run_id run_id reply = (case run_id of
       Some r \<Rightarrow> Inr r
     | None \<Rightarrow>
         (case reply of
            Described _ r \<Rightarrow> Inr r
          | _ \<Rightarrow> Inl (StartFailure TemporalUnavailable True AuthoritativeRejection)))"

section \<open>The start\<close>

definition start_memo :: "starter \<Rightarrow> start_request \<Rightarrow> runtime_scope \<Rightarrow> start_target \<Rightarrow> string \<Rightarrow> json dict" where
  "start_memo ws rq sc t trigger =
     dict_update (execution_memo t)
       ([(''justflow.trigger_source'', JStr (source_name (rq_source rq))),
         (''justflow.trigger_name'', JStr trigger),
         (''justflow.source_identity_digest'', JStr (source_identity_digest (ws_sha ws) (ws_float_text ws) (rq_source rq) sc)),
         (''justflow.correlation_identity_digest'',
            JStr (ws_sha ws (case rq_correlation_id rq of Some c \<Rightarrow> c | None \<Rightarrow> rq_business_id rq))),
         (''justflow.scope_digest'', JStr (scope_digest_of (ws_sha ws) sc))] @
        memo_option ''justflow.source_provider'' (source_provider (rq_source rq)))"

definition new_result :: "starter \<Rightarrow> start_request \<Rightarrow> runtime_scope \<Rightarrow> start_target \<Rightarrow> string \<Rightarrow> string \<Rightarrow> string \<Rightarrow> start_result" where
  "new_result ws rq sc t trigger workflow_id run_id =
     \<lparr>sw_workflow_id = workflow_id, sw_run_id = run_id, sw_workflow = mf_logical_name (tg_manifest t),
      sw_definition_digest = mf_definition_digest (tg_manifest t), sw_artifact = wd_artifact (tg_deployment t),
      sw_environment_digest = tg_environment_digest t, sw_configuration = tg_configuration t,
      sw_trigger = trigger,
      sw_source_digest = source_identity_digest (ws_sha ws) (ws_float_text ws) (rq_source rq) sc,
      sw_scope_digest = scope_digest_of (ws_sha ws) sc, sw_status = RunStarted\<rparr>"

text \<open>Temporal as a start meets it: the answers to its attempts, and to its description of the execution.\<close>

record temporal_view =
  tv_start :: "nat \<Rightarrow> start_reply"
  tv_describe :: "string \<Rightarrow> string option \<Rightarrow> describe_reply"

text \<open>
  What \<open>_start\<close> makes of the answer, with the identity \<open>workflow_id\<close> of the execution; the result of a run
  is checked by pydantic.
\<close>

definition start_outcome ::
    "starter \<Rightarrow> start_request \<Rightarrow> runtime_scope \<Rightarrow> start_target \<Rightarrow> string \<Rightarrow> string \<Rightarrow> temporal_view \<Rightarrow>
     start_exn + start_result" where
  "start_outcome ws rq sc t trigger workflow_id tv =
     (case retry_pinned (missing_pinned_version (tg_deployment t) (ws_task_queue ws)) (tv_start tv) 0
         (ws_pinned_attempts ws) of
        StartedRun run_id \<Rightarrow>
          bind_result (resolve_run_id run_id (tv_describe tv workflow_id None)) (\<lambda>run.
            (let r = new_result ws rq sc t trigger workflow_id run
             in if valid_result r then Inr r else Inl StartBroke))
      | AlreadyStartedRun run_id \<Rightarrow> existing_result (ws_sha ws) (tv_describe tv workflow_id run_id) workflow_id sc
      | StartRpcError status _ \<Rightarrow> Inl (StartFailure TemporalUnavailable True
          (if status \<in> AUTHORITATIVE_START_REJECTION_STATUSES then AuthoritativeRejection else AmbiguousStart))
      | StartOtherError \<Rightarrow> Inl ambiguous_start)"

text \<open>
  \<open>_start\<close>: \<open>given\<close> is the target and the trigger of a start that is already resolved. The scope digest is
  one of SHA-256, so the identity of the execution can be made.
\<close>

definition run_start ::
    "starter \<Rightarrow> start_request \<Rightarrow> scope_binding \<Rightarrow> (start_target \<times> string) option \<Rightarrow> temporal_view \<Rightarrow>
     start_exn + start_result" where
  "run_start ws rq b given tv =
     bind_result (bound_scope (rq_source rq) b) (\<lambda>sc.
     bind_result (case given of
         Some tt \<Rightarrow> Inr tt
       | None \<Rightarrow> bind_result (resolve_registration ws sc rq) (\<lambda>reg.
           map_sum id (\<lambda>m. (sg_target reg, fst m)) (match_trigger (sg_triggers reg) (rq_source rq) b))) (\<lambda>tt.
     bind_result (validate_source_binding (rq_source rq) b) (\<lambda>_.
     bind_result (validate_resolved_target (ws_sha ws) sc rq (fst tt)) (\<lambda>_.
     bind_result (validate_start_input ws (rq_input rq) (fst tt)) (\<lambda>_.
     (case make_workflow_id (ws_sha ws) (rq_workflow rq) (rq_business_id rq) (Some sc) of
        Inl _ \<Rightarrow> Inl StartBroke
      | Inr workflow_id \<Rightarrow> start_outcome ws rq sc (fst tt) (snd tt) workflow_id tv))))))"

definition start_workflow :: "starter \<Rightarrow> start_request \<Rightarrow> scope_binding \<Rightarrow> temporal_view \<Rightarrow> start_exn + start_result" where
  "start_workflow ws rq b tv = run_start ws rq b None tv"

definition start_resolved ::
    "starter \<Rightarrow> start_request \<Rightarrow> start_target \<Rightarrow> string \<Rightarrow> scope_binding \<Rightarrow> temporal_view \<Rightarrow> start_exn + start_result" where
  "start_resolved ws rq t trigger b tv =
     (if rq_definition_digest rq = None then Inl (start_error DefinitionUnavailable)
      else if \<not> (case rq_source rq of ScheduleSource s _ \<Rightarrow> s = trigger | _ \<Rightarrow> False)
        then Inl (start_error InvalidRequest)
      else run_start ws rq b (Some (t, trigger)) tv)"

definition start_accepted_api ::
    "starter \<Rightarrow> start_request \<Rightarrow> start_target \<Rightarrow> string \<Rightarrow> scope_binding \<Rightarrow> temporal_view \<Rightarrow> start_exn + start_result" where
  "start_accepted_api ws rq t trigger b tv =
     (if rq_definition_digest rq = None then Inl (start_error DefinitionUnavailable)
      else if \<not> (case rq_source rq of ControlApiSource _ \<Rightarrow> True | _ \<Rightarrow> False) then Inl (start_error InvalidRequest)
      else run_start ws rq b (Some (t, trigger)) tv)"

definition find_existing ::
    "starter \<Rightarrow> string \<Rightarrow> string \<Rightarrow> runtime_scope \<Rightarrow> temporal_view \<Rightarrow> start_exn + start_result option" where
  "find_existing ws w request_id sc tv =
     (case make_workflow_id (ws_sha ws) w request_id (Some sc) of
        Inl _ \<Rightarrow> Inl StartBroke
      | Inr workflow_id \<Rightarrow> lookup_existing (ws_sha ws) (tv_describe tv workflow_id None) workflow_id sc)"

section \<open>The memo tells the start\<close>

lemma text_of_memo_option: "map_of (memo_option k v) k' = (if k' = k then map_option JStr v else None)"
  by (auto simp: memo_option_def split: option.split)

lemma memo_text_JStr: "dict_get memo k = Some (JStr v) \<Longrightarrow> v \<noteq> [] \<Longrightarrow> memo_text memo k = Some v"
  by (simp add: memo_text_def)

lemma memo_text_option:
  "dict_get memo k = map_option JStr v \<Longrightarrow> v \<noteq> Some [] \<Longrightarrow> memo_text memo k = v"
  by (cases v) (auto simp: memo_text_def)

lemma required_memo_text_JStr: "dict_get memo k = Some (JStr v) \<Longrightarrow> v \<noteq> [] \<Longrightarrow> required_memo_text memo k = Inr v"
  by (simp add: required_memo_text_def memo_text_JStr)

lemma dict_get_update_append:
  "dict_get (dict_update d (xs @ memo_option k0 v)) k =
     (if k = k0 \<and> v \<noteq> None then map_option JStr v else dict_get (dict_update d xs) k)"
  by (cases v) (auto simp: memo_option_def dict_get_update map_add_def split: option.splits)

text \<open>What the start adds to the memo of its target.\<close>

lemma start_memo_get:
  "dict_get (start_memo ws rq sc t trigger) k =
     (if k = ''justflow.source_provider'' \<and> source_provider (rq_source rq) \<noteq> None
      then map_option JStr (source_provider (rq_source rq))
      else if k = ''justflow.scope_digest'' then Some (JStr (scope_digest_of (ws_sha ws) sc))
      else if k = ''justflow.correlation_identity_digest'' then
        Some (JStr (ws_sha ws (case rq_correlation_id rq of Some c \<Rightarrow> c | None \<Rightarrow> rq_business_id rq)))
      else if k = ''justflow.source_identity_digest'' then
        Some (JStr (source_identity_digest (ws_sha ws) (ws_float_text ws) (rq_source rq) sc))
      else if k = ''justflow.trigger_name'' then Some (JStr trigger)
      else if k = ''justflow.trigger_source'' then Some (JStr (source_name (rq_source rq)))
      else dict_get (execution_memo t) k)"
  unfolding start_memo_def dict_get_update_append by (auto simp: dict_get_update)

lemma execution_memo_get:
  fixes t
  defines "m \<equiv> tg_manifest t" and "a \<equiv> wd_artifact (tg_deployment t)"
  shows "dict_get (execution_memo t) ''justflow.logical_workflow'' = Some (JStr (mf_logical_name m))"
    "dict_get (execution_memo t) ''justflow.definition_digest'' = Some (JStr (mf_definition_digest m))"
    "dict_get (execution_memo t) ''justflow.worker_deployment'' = Some (JStr (wa_deployment_name a))"
    "dict_get (execution_memo t) ''justflow.worker_build_id'' = Some (JStr (wa_build_id a))"
    "dict_get (execution_memo t) ''justflow.worker_artifact_digest'' = Some (JStr (wa_artifact_digest a))"
    "dict_get (execution_memo t) ''justflow.worker_package_version'' = Some (JStr (wa_package_version a))"
    "dict_get (execution_memo t) ''justflow.environment_snapshot_digest'' = Some (JStr (tg_environment_digest t))"
    "dict_get (execution_memo t) ''justflow.worker_source_revision'' = map_option JStr (wa_source_revision a)"
    "dict_get (execution_memo t) ''justflow.configuration_revision'' =
      map_option (\<lambda>c. JStr (xc_revision c)) (tg_configuration t)"
    "dict_get (execution_memo t) ''justflow.configuration_resolution_digest'' =
      map_option (\<lambda>c. JStr (xc_resolution_digest c)) (tg_configuration t)"
    "tg_configuration t = Some c \<Longrightarrow>
      dict_get (execution_memo t) ''justflow.tenant_configuration_revision'' = map_option JStr (xc_tenant_revision c)"
    "tg_configuration t = Some c \<Longrightarrow>
      dict_get (execution_memo t) ''justflow.component_catalog_revision'' = map_option JStr (xc_catalog_revision c)"
    "tg_configuration t = Some c \<Longrightarrow>
      dict_get (execution_memo t) ''justflow.component_identity_digest'' = map_option JStr (xc_component_digest c)"
  by (auto simp: execution_memo_def Let_def m_def a_def text_of_memo_option map_add_def split: option.splits)

lemma digest_nonempty: "\<not> is_sha256_hex []" "\<not> is_artifact_digest []"
  by (auto simp: is_sha256_hex_def is_artifact_digest_def ARTIFACT_DIGEST_HEX_LENGTH_def)

lemma valid_artifact_texts:
  assumes "valid_artifact a"
  shows "wa_deployment_name a \<noteq> []" "wa_build_id a \<noteq> []" "wa_artifact_digest a \<noteq> []" "wa_package_version a \<noteq> []"
    "wa_source_revision a \<noteq> Some []"
  using assms by (auto simp: valid_artifact_def bounded_text_def split: option.splits)

lemma valid_configuration_texts:
  assumes "valid_configuration c"
  shows "xc_revision c \<noteq> []" "xc_resolution_digest c \<noteq> []" "xc_tenant_revision c \<noteq> Some []"
    "xc_catalog_revision c \<noteq> Some []" "xc_component_digest c \<noteq> Some []"
  using assms by (auto simp: valid_configuration_def digest_nonempty split: option.splits)

lemma valid_result_texts:
  assumes "valid_result r"
  shows "sw_workflow r \<noteq> []" "sw_trigger r \<noteq> []" "sw_definition_digest r \<noteq> []" "sw_environment_digest r \<noteq> []"
    "sw_source_digest r \<noteq> []" "sw_scope_digest r \<noteq> []"
  using assms is_name_nonempty by (auto simp: valid_result_def digest_nonempty)

lemma artifact_eta:
  fixes a :: worker_artifact
  shows "\<lparr>wa_deployment_name = wa_deployment_name a, wa_build_id = wa_build_id a,
    wa_artifact_digest = wa_artifact_digest a, wa_package_version = wa_package_version a,
    wa_source_revision = wa_source_revision a\<rparr> = a"
  by simp

lemma configuration_eta:
  fixes c :: execution_configuration
  shows "\<lparr>xc_revision = xc_revision c, xc_tenant_revision = xc_tenant_revision c,
    xc_catalog_revision = xc_catalog_revision c, xc_component_digest = xc_component_digest c,
    xc_resolution_digest = xc_resolution_digest c\<rparr> = c"
  by simp

lemma memo_artifact_start:
  assumes "valid_artifact (wd_artifact (tg_deployment t))"
  shows "memo_artifact (start_memo ws rq sc t trigger) = Inr (wd_artifact (tg_deployment t))"
  using valid_artifact_texts [OF assms] assms
  by (simp add: memo_artifact_def Let_def artifact_eta required_memo_text_JStr start_memo_get execution_memo_get
      memo_text_option [of _ _ "wa_source_revision (wd_artifact (tg_deployment t))"])

lemma memo_configuration_start:
  assumes "pred_option valid_configuration (tg_configuration t)"
  shows "memo_configuration (start_memo ws rq sc t trigger) = Inr (tg_configuration t)"
proof (cases "tg_configuration t")
  case None
  then show ?thesis by (simp add: memo_configuration_def memo_text_def start_memo_get execution_memo_get)
next
  case (Some c)
  then have c: "valid_configuration c" using assms by simp
  note texts = valid_configuration_texts [OF c]
  show ?thesis
    using texts c Some
    by (simp add: memo_configuration_def Let_def configuration_eta memo_text_JStr start_memo_get execution_memo_get
        memo_text_option [of _ _ "xc_tenant_revision c"] memo_text_option [of _ _ "xc_catalog_revision c"]
        memo_text_option [of _ _ "xc_component_digest c"])
qed

lemma result_from_start_memo:
  assumes "valid_result (new_result ws rq sc t trigger workflow_id run_id)"
  shows "result_from_memo (start_memo ws rq sc t trigger) workflow_id run_id =
    Inr ((new_result ws rq sc t trigger workflow_id run_id)\<lparr>sw_status := RunDuplicate\<rparr>)"
proof -
  have "valid_artifact (wd_artifact (tg_deployment t))" "pred_option valid_configuration (tg_configuration t)"
    using assms by (auto simp: valid_result_def new_result_def)
  note parts = memo_artifact_start [OF this(1)] memo_configuration_start [OF this(2)]
  have valid: "valid_result ((new_result ws rq sc t trigger workflow_id run_id)\<lparr>sw_status := RunDuplicate\<rparr>)"
    using assms by (simp add: valid_result_def)
  show ?thesis
    using valid_result_texts [OF assms] valid
    by (simp add: result_from_memo_def Let_def parts required_memo_text_JStr start_memo_get execution_memo_get new_result_def)
qed

section \<open>Triggers\<close>

text \<open>What can be matched by a source: the kind of the declaration and its binding.\<close>

fun source_match :: "trigger_source_identity \<Rightarrow> trigger_kind \<times> string option" where
  "source_match (BrokerSource b _) = (TriggerBroker, Some b)"
| "source_match (ControlApiSource _) = (TriggerApi, None)"
| "source_match (WebhookSource p _) = (TriggerWebhook, Some p)"
| "source_match (HostSource a _) = (TriggerHost, Some a)"
| "source_match (ScheduleSource s _) = (TriggerSchedule, None)"
| "source_match (CloudEventSource m _) = (TriggerEvent, Some m)"

lemma trigger_matches_iff:
  "trigger_matches_source name d src \<longleftrightarrow> source_match src = (kind_of_trigger d, source_binding d) \<and>
     (kind_of_trigger d = TriggerSchedule \<longrightarrow> (\<exists>i. src = ScheduleSource name i))"
  by (cases d; cases src) auto

lemma one_trigger_matches:
  assumes "valid_triggers ts" "(n, d) \<in> set ts" "(n', d') \<in> set ts" "trigger_workflow d = trigger_workflow d'"
    "trigger_matches_source n d src" "trigger_matches_source n' d' src"
  shows "n = n'"
proof -
  have same: "kind_of_trigger d = kind_of_trigger d'" "source_binding d = source_binding d'"
    using assms(5,6) by (auto simp: trigger_matches_iff)
  consider "kind_of_trigger d = TriggerApi" | "kind_of_trigger d = TriggerSchedule" | "source_binding d \<noteq> None"
    by (cases d) auto
  then show ?thesis
  proof cases
    case 1
    then have "inj_on (\<lambda>t. trigger_workflow (snd t)) (set (filter (\<lambda>t. kind_of_trigger (snd t) = TriggerApi) ts))"
      using assms(1) by (simp add: valid_triggers_def distinct_map)
    from inj_onD [OF this, of "(n, d)" "(n', d')"] show ?thesis using assms(2-4) 1 same by simp
  next
    case 2
    then show ?thesis using assms(5,6) same by (auto simp: trigger_matches_iff)
  next
    case 3
    then have "inj_on (\<lambda>t. (trigger_workflow (snd t), kind_of_trigger (snd t), source_binding (snd t)))
        (set (filter (\<lambda>t. source_binding (snd t) \<noteq> None) ts))"
      using assms(1) by (simp add: valid_triggers_def distinct_map)
    from inj_onD [OF this, of "(n, d)" "(n', d')"] show ?thesis using assms(2-4) 3 same by simp
  qed
qed

lemma first_match_found:
  "first_match src ts = Inr (name, kind) \<Longrightarrow>
     \<exists>d. (name, d) \<in> set ts \<and> trigger_matches_source name d src \<and> \<not> trigger_paused d \<and> kind = kind_of_trigger d"
  by (induction src ts rule: first_match.induct) (auto split: if_splits)

lemma match_trigger_found:
  assumes "match_trigger ts src b = Inr (name, kind)"
  shows "\<exists>d. (name, d) \<in> set ts \<and> trigger_matches_source name d src \<and> \<not> trigger_paused d \<and> kind = kind_of_trigger d"
  using assms first_match_found [of src "sort_key fst ts" name kind]
  by (auto simp: match_trigger_def bind_result_eq_Inr)

section \<open>What a start promises\<close>

lemma lookup_existing_scope:
  "lookup_existing sha reply workflow_id sc = Inr (Some r) \<Longrightarrow>
     sw_scope_digest r = scope_digest_of sha sc \<and> sw_workflow_id r = workflow_id \<and> sw_status r = RunDuplicate"
  by (auto simp: lookup_existing_def result_from_memo_def bind_result_eq_Inr Let_def
      split: describe_reply.splits sum.splits if_splits)

lemma start_outcome_scope:
  "start_outcome ws rq sc t trigger workflow_id tv = Inr r \<Longrightarrow>
     sw_scope_digest r = scope_digest_of (ws_sha ws) sc \<and> sw_workflow_id r = workflow_id"
  by (auto simp: start_outcome_def existing_result_def new_result_def bind_result_eq_Inr Let_def
      split: start_reply.splits if_splits option.splits dest: lookup_existing_scope)

lemma start_outcome_new:
  assumes "retry_pinned (missing_pinned_version (tg_deployment t) (ws_task_queue ws)) (tv_start tv) 0
      (ws_pinned_attempts ws) = StartedRun run_id"
    and "start_outcome ws rq sc t trigger workflow_id tv = Inl (StartFailure code retry certainty)"
  shows "run_id = None \<and> certainty = AuthoritativeRejection \<and>
    (\<forall>memo run. tv_describe tv workflow_id None \<noteq> Described memo run)"
  using assms by (auto simp: start_outcome_def resolve_run_id_def Let_def bind_result_eq_Inl
      split: option.splits describe_reply.splits if_splits)

lemma retry_pinned_reply: "0 < left \<Longrightarrow> \<exists>k' \<ge> k. retry_pinned missing replies k left = replies k'"
proof (induction left arbitrary: k)
  case (Suc left)
  show ?case
  proof (cases "missing (replies k) \<and> left \<noteq> 0")
    case True
    then obtain k' where "Suc k \<le> k'" "retry_pinned missing replies (Suc k) left = replies k'"
      using Suc.IH [of "Suc k"] by auto
    then show ?thesis using True by (intro exI [of _ k']) simp
  qed auto
qed simp

end
