(* ===== verification/JF_Scheduled.thy ===== *)
theory JF_Scheduled
  imports JF_Starter
begin

text \<open>
  The records of one-off scheduled starts and their transitions (\<open>runtime/scheduled_starts.py\<close>): a record is
  pending, dispatching, started, canceled or failed over a common base; creating, rescheduling, canceling,
  claiming, completing and failing give the next record or an error, and every record made is validated.
  A timestamp is a number of microseconds since the epoch in UTC. The digest of a list of JSON values is
  the parameter \<open>dg\<close>, instantiated by \<open>request_digest\<close>.
\<close>

section \<open>Records\<close>

definition SCHEDULED_START_DIGEST_LENGTH :: nat where "SCHEDULED_START_DIGEST_LENGTH = 64"
definition SCHEDULED_START_IDENTIFIER_LENGTH :: nat where "SCHEDULED_START_IDENTIFIER_LENGTH = 256"

definition is_start_digest :: "string \<Rightarrow> bool" where
  "is_start_digest s \<longleftrightarrow> length s = SCHEDULED_START_DIGEST_LENGTH \<and> list_all is_lower_hex s"

definition whole_second :: "int \<Rightarrow> bool" where
  "whole_second t \<longleftrightarrow> t mod 1000000 = 0"

datatype workload_class = Interactive | Standard | Batch

datatype scheduled_start_state = SCHEDULED | DISPATCHING | STARTED | CANCELED | FAILED

datatype mutation_kind = MutCreate | MutReschedule | MutCancel | MutDispatch | MutStart | MutFail

datatype scheduled_failure_code =
    TARGET_UNAVAILABLE | CONTRACT_DRIFT | INCOMPATIBLE_WORKER | DISPATCH_EXHAUSTED

fun failure_code_text :: "scheduled_failure_code \<Rightarrow> string" where
  "failure_code_text TARGET_UNAVAILABLE = ''target_unavailable''"
| "failure_code_text CONTRACT_DRIFT = ''contract_drift''"
| "failure_code_text INCOMPATIBLE_WORKER = ''incompatible_worker''"
| "failure_code_text DISPATCH_EXHAUSTED = ''dispatch_exhausted''"

datatype scheduled_error_code =
    ScheduleInvalidRequest | ScheduleTriggerUnavailable | ScheduleTriggerPaused | ScheduleInputRejected
  | ScheduleNotFound | ScheduleConflict | ScheduleQuotaExceeded | ScheduleQuotaUnavailable
  | SchedulePriorityUnsupported | ScheduleTemporalUnavailable

text \<open>A \<open>ScheduledStartError\<close>, with whether it is retryable, or a record that pydantic does not accept.\<close>

datatype scheduled_error = ScheduleError scheduled_error_code bool | RecordInvalid

abbreviation schedule_conflict :: scheduled_error where
  "schedule_conflict \<equiv> ScheduleError ScheduleConflict False"

record scheduled_base =
  sc_id :: string
  sc_scope_digest :: string
  sc_workflow :: string
  sc_input :: "json dict"
  sc_request_id :: string
  sc_start_at :: int
  sc_workload :: workload_class
  sc_trigger :: string
  sc_create_digest :: string
  sc_version :: int
  sc_accepted_at :: int
  sc_updated_at :: int
  sc_mutation :: mutation_kind
  sc_mutation_digest :: string
  sc_timeout_seconds :: int
  sc_attempts :: int

text \<open>The field bounds of \<open>ScheduledStartRecordBase\<close> and \<open>validate_timestamps\<close>.\<close>

definition valid_base :: "scheduled_base \<Rightarrow> bool" where
  "valid_base b \<longleftrightarrow>
     bounded_text (SCHEDULED_START_IDENTIFIER_LENGTH * 2) (sc_id b) \<and>
     list_all is_start_digest [sc_scope_digest b, sc_create_digest b, sc_mutation_digest b] \<and>
     list_all is_name [sc_workflow b, sc_trigger b] \<and>
     bounded_text SCHEDULED_START_IDENTIFIER_LENGTH (sc_request_id b) \<and>
     1 \<le> sc_version b \<and> 1 \<le> sc_timeout_seconds b \<and> 1 \<le> sc_attempts b \<and>
     list_all whole_second [sc_start_at b, sc_accepted_at b, sc_updated_at b] \<and>
     sc_accepted_at b \<le> sc_updated_at b"

record scheduled_run =
  sr_workflow_id :: string
  sr_run_id :: string
  sr_definition_digest :: string
  sr_artifact :: worker_artifact
  sr_environment_digest :: string
  sr_configuration :: "execution_configuration option"

definition valid_run :: "scheduled_run \<Rightarrow> bool" where
  "valid_run r \<longleftrightarrow>
     list_all (bounded_text SCHEDULED_START_IDENTIFIER_LENGTH) [sr_workflow_id r, sr_run_id r] \<and>
     list_all is_sha256_hex [sr_definition_digest r, sr_environment_digest r] \<and>
     valid_artifact (sr_artifact r) \<and> pred_option valid_configuration (sr_configuration r)"

definition run_of_result :: "start_result \<Rightarrow> scheduled_run" where
  "run_of_result r =
     \<lparr>sr_workflow_id = sw_workflow_id r, sr_run_id = sw_run_id r, sr_definition_digest = sw_definition_digest r,
      sr_artifact = sw_artifact r, sr_environment_digest = sw_environment_digest r,
      sr_configuration = sw_configuration r\<rparr>"

text \<open>
  The five records; the numbers are, in this order, the claimed version, the time the dispatch started and
  the time of completion, as far as a record has them.
\<close>

datatype scheduled_record =
    PendingRecord scheduled_base
  | DispatchingRecord scheduled_base int int
  | StartedRecord scheduled_base int int int scheduled_run
  | CanceledRecord scheduled_base int
  | FailedRecord scheduled_base int int int scheduled_failure_code

fun base_of :: "scheduled_record \<Rightarrow> scheduled_base" where
  "base_of (PendingRecord b) = b"
| "base_of (DispatchingRecord b _ _) = b"
| "base_of (StartedRecord b _ _ _ _) = b"
| "base_of (CanceledRecord b _) = b"
| "base_of (FailedRecord b _ _ _ _) = b"

fun state_of :: "scheduled_record \<Rightarrow> scheduled_start_state" where
  "state_of (PendingRecord _) = SCHEDULED"
| "state_of (DispatchingRecord _ _ _) = DISPATCHING"
| "state_of (StartedRecord _ _ _ _ _) = STARTED"
| "state_of (CanceledRecord _ _) = CANCELED"
| "state_of (FailedRecord _ _ _ _ _) = FAILED"

definition version_of :: "scheduled_record \<Rightarrow> int" where
  "version_of r = sc_version (base_of r)"

fun valid_record :: "scheduled_record \<Rightarrow> bool" where
  "valid_record (PendingRecord b) = valid_base b"
| "valid_record (DispatchingRecord b v _) = (valid_base b \<and> 1 \<le> v)"
| "valid_record (StartedRecord b v _ _ r) = (valid_base b \<and> 1 \<le> v \<and> valid_run r)"
| "valid_record (CanceledRecord b _) = valid_base b"
| "valid_record (FailedRecord b v _ _ _) = (valid_base b \<and> 1 \<le> v)"

text \<open>\<open>model_validate\<close> of a record.\<close>

definition validated :: "scheduled_record \<Rightarrow> scheduled_error + scheduled_record" where
  "validated r = (if valid_record r then Inr r else Inl RecordInvalid)"

text \<open>\<open>Started\<close>, \<open>Canceled\<close> and \<open>Failed\<close> records are terminal.\<close>

definition is_terminal :: "scheduled_record \<Rightarrow> bool" where
  "is_terminal r \<longleftrightarrow> state_of r \<in> {STARTED, CANCELED, FAILED}"

section \<open>Digests and identities\<close>

definition request_digest :: "(string \<Rightarrow> string) \<Rightarrow> (rat \<Rightarrow> string) \<Rightarrow> json list \<Rightarrow> string" where
  "request_digest sha sf parts = sha (json_dump sf (JList parts))"

definition make_scheduled_start_id ::
    "(string \<Rightarrow> string) \<Rightarrow> runtime_scope \<Rightarrow> string \<Rightarrow> string \<Rightarrow> scope_error + string" where
  "make_scheduled_start_id sha sc workflow request_id =
     scoped_identity_from_digest sha ''scheduled-start'' (scope_digest_of sha sc) [workflow, request_id]"

definition make_schedule_id :: "(string \<Rightarrow> string) \<Rightarrow> runtime_scope \<Rightarrow> string \<Rightarrow> scope_error + string" where
  "make_schedule_id sha sc start_id =
     scoped_identity_from_digest sha ''scheduled-start-schedule'' (scope_digest_of sha sc) [start_id]"

definition make_arbiter_id :: "(string \<Rightarrow> string) \<Rightarrow> runtime_scope \<Rightarrow> string \<Rightarrow> int \<Rightarrow> scope_error + string" where
  "make_arbiter_id sha sc start_id version =
     scoped_identity_from_digest sha ''scheduled-start-arbiter'' (scope_digest_of sha sc) [start_id, show_int version]"

definition make_due_id :: "(string \<Rightarrow> string) \<Rightarrow> runtime_scope \<Rightarrow> string \<Rightarrow> int \<Rightarrow> scope_error + string" where
  "make_due_id sha sc start_id version =
     scoped_identity_from_digest sha ''scheduled-start-due'' (scope_digest_of sha sc) [start_id, show_int version]"

section \<open>Transitions\<close>

text \<open>The requests of clients; the times of a request are whole seconds.\<close>

record create_request =
  cr_workflow :: string
  cr_request_id :: string
  cr_start_at :: int
  cr_workload :: workload_class

definition create_scheduled_start_record ::
    "create_request \<Rightarrow> string \<Rightarrow> string \<Rightarrow> string \<Rightarrow> string \<Rightarrow> int \<Rightarrow> json dict \<Rightarrow> int \<Rightarrow> int \<Rightarrow>
     scheduled_error + scheduled_record" where
  "create_scheduled_start_record rq start_id scope_digest trigger digest accepted_at input timeout attempts =
     validated (PendingRecord
       \<lparr>sc_id = start_id, sc_scope_digest = scope_digest, sc_workflow = cr_workflow rq, sc_input = input,
        sc_request_id = cr_request_id rq, sc_start_at = cr_start_at rq, sc_workload = cr_workload rq,
        sc_trigger = trigger, sc_create_digest = digest, sc_version = 1, sc_accepted_at = accepted_at,
        sc_updated_at = accepted_at, sc_mutation = MutCreate, sc_mutation_digest = digest,
        sc_timeout_seconds = timeout, sc_attempts = attempts\<rparr>)"

text \<open>
  The flag tells that the record already is the outcome of this very request. \<open>start_at\<close> and
  \<open>expected\<close> are the fields of the request.
\<close>

definition reschedule_scheduled_start ::
    "scheduled_record \<Rightarrow> int \<Rightarrow> int \<Rightarrow> string \<Rightarrow> int \<Rightarrow> scheduled_error + (scheduled_record \<times> bool)" where
  "reschedule_scheduled_start r start_at expected digest updated_at =
     (case r of
        PendingRecord b \<Rightarrow>
          if sc_version b = expected + 1 \<and> sc_mutation b = MutReschedule \<and> sc_mutation_digest b = digest
          then Inr (r, True)
          else if sc_version b \<noteq> expected then Inl schedule_conflict
          else map_sum id (\<lambda>r'. (r', False)) (validated (PendingRecord (b\<lparr>sc_start_at := start_at,
            sc_version := sc_version b + 1, sc_updated_at := updated_at, sc_mutation := MutReschedule,
            sc_mutation_digest := digest\<rparr>)))
      | _ \<Rightarrow> Inl schedule_conflict)"

definition cancel_scheduled_start ::
    "scheduled_record \<Rightarrow> int \<Rightarrow> string \<Rightarrow> int \<Rightarrow> scheduled_error + (scheduled_record \<times> bool)" where
  "cancel_scheduled_start r expected digest updated_at =
     (case r of
        CanceledRecord b _ \<Rightarrow>
          if sc_version b = expected \<and> sc_mutation b = MutCancel \<and> sc_mutation_digest b = digest
          then Inr (r, True) else Inl schedule_conflict
      | PendingRecord b \<Rightarrow>
          if sc_version b \<noteq> expected then Inl schedule_conflict
          else map_sum id (\<lambda>r'. (r', False)) (validated (CanceledRecord (b\<lparr>sc_updated_at := updated_at,
            sc_mutation := MutCancel, sc_mutation_digest := digest\<rparr>) updated_at))
      | _ \<Rightarrow> Inl schedule_conflict)"

definition claim_scheduled_start ::
    "(json list \<Rightarrow> string) \<Rightarrow> scheduled_record \<Rightarrow> int \<Rightarrow> int \<Rightarrow> scheduled_error + scheduled_record option" where
  "claim_scheduled_start dg r expected claimed_at =
     (case r of
        DispatchingRecord b v _ \<Rightarrow> if v = expected then Inr (Some r) else Inr None
      | PendingRecord b \<Rightarrow>
          if sc_version b \<noteq> expected then Inr None
          else map_sum id Some (validated (DispatchingRecord (b\<lparr>sc_updated_at := claimed_at,
            sc_mutation := MutDispatch,
            sc_mutation_digest := dg [JStr ''dispatch'', JStr (sc_id b), JInt expected]\<rparr>) expected claimed_at))
      | _ \<Rightarrow> Inr None)"

text \<open>Of a dispatching record with base \<open>b\<close>, claimed version \<open>v\<close> and start \<open>t\<close> of the dispatch.\<close>

definition complete_scheduled_start ::
    "(json list \<Rightarrow> string) \<Rightarrow> scheduled_base \<Rightarrow> int \<Rightarrow> int \<Rightarrow> scheduled_run \<Rightarrow> int \<Rightarrow> scheduled_error + scheduled_record" where
  "complete_scheduled_start dg b v t run completed_at =
     validated (StartedRecord (b\<lparr>sc_updated_at := completed_at, sc_mutation := MutStart,
       sc_mutation_digest := dg [JStr ''start'', JStr (sc_id b), JInt v, JStr (sr_workflow_id run), JStr (sr_run_id run)]\<rparr>)
       v t completed_at run)"

definition fail_scheduled_start ::
    "(json list \<Rightarrow> string) \<Rightarrow> scheduled_base \<Rightarrow> int \<Rightarrow> int \<Rightarrow> scheduled_failure_code \<Rightarrow> int \<Rightarrow> scheduled_error + scheduled_record" where
  "fail_scheduled_start dg b v t code completed_at =
     validated (FailedRecord (b\<lparr>sc_updated_at := completed_at, sc_mutation := MutFail,
       sc_mutation_digest := dg [JStr ''fail'', JStr (sc_id b), JInt v, JStr (failure_code_text code)]\<rparr>)
       v t completed_at code)"

text \<open>\<open>describe_scheduled_start\<close>.\<close>

record scheduled_description =
  sd_id :: string
  sd_workflow :: string
  sd_trigger :: string
  sd_start_at :: int
  sd_workload :: workload_class
  sd_state :: scheduled_start_state
  sd_version :: int
  sd_accepted_at :: int
  sd_updated_at :: int
  sd_dispatch_started_at :: "int option"
  sd_completed_at :: "int option"
  sd_failure_code :: "scheduled_failure_code option"
  sd_run :: "scheduled_run option"

fun dispatch_started_at :: "scheduled_record \<Rightarrow> int option" where
  "dispatch_started_at (DispatchingRecord _ _ t) = Some t"
| "dispatch_started_at (StartedRecord _ _ t _ _) = Some t"
| "dispatch_started_at (FailedRecord _ _ t _ _) = Some t"
| "dispatch_started_at _ = None"

fun completed_at :: "scheduled_record \<Rightarrow> int option" where
  "completed_at (StartedRecord _ _ _ t _) = Some t"
| "completed_at (CanceledRecord _ t) = Some t"
| "completed_at (FailedRecord _ _ _ t _) = Some t"
| "completed_at _ = None"

definition describe_scheduled_start :: "scheduled_record \<Rightarrow> scheduled_description" where
  "describe_scheduled_start r =
     (let b = base_of r
      in \<lparr>sd_id = sc_id b, sd_workflow = sc_workflow b, sd_trigger = sc_trigger b, sd_start_at = sc_start_at b,
          sd_workload = sc_workload b, sd_state = state_of r, sd_version = sc_version b,
          sd_accepted_at = sc_accepted_at b, sd_updated_at = sc_updated_at b,
          sd_dispatch_started_at = dispatch_started_at r, sd_completed_at = completed_at r,
          sd_failure_code = (case r of FailedRecord _ _ _ _ c \<Rightarrow> Some c | _ \<Rightarrow> None),
          sd_run = (case r of StartedRecord _ _ _ _ run \<Rightarrow> Some run | _ \<Rightarrow> None)\<rparr>)"

section \<open>What a transition keeps\<close>

text \<open>The fields that identify a scheduled start, which no transition changes.\<close>

definition same_start :: "scheduled_base \<Rightarrow> scheduled_base \<Rightarrow> bool" where
  "same_start b b' \<longleftrightarrow>
     (sc_id b', sc_scope_digest b', sc_workflow b', sc_input b', sc_request_id b', sc_workload b', sc_trigger b',
      sc_create_digest b', sc_accepted_at b', sc_timeout_seconds b', sc_attempts b') =
     (sc_id b, sc_scope_digest b, sc_workflow b, sc_input b, sc_request_id b, sc_workload b, sc_trigger b,
      sc_create_digest b, sc_accepted_at b, sc_timeout_seconds b, sc_attempts b)"

lemma same_start_refl [simp]: "same_start b b"
  by (simp add: same_start_def)

lemma same_start_trans: "same_start a b \<Longrightarrow> same_start b c \<Longrightarrow> same_start a c"
  by (simp add: same_start_def)

lemma validated_eq_Inr [simp]: "validated r = Inr r' \<longleftrightarrow> valid_record r \<and> r' = r"
  by (auto simp: validated_def)

lemma validated_eq_Inl [simp]: "validated r = Inl e \<longleftrightarrow> \<not> valid_record r \<and> e = RecordInvalid"
  by (auto simp: validated_def)

lemma map_sum_eq_Inr' [simp]: "map_sum id f x = Inr y \<longleftrightarrow> (\<exists>z. x = Inr z \<and> y = f z)"
  by (cases x) auto

lemma valid_record_base: "valid_record r \<Longrightarrow> valid_base (base_of r)"
  by (cases r) auto

lemma rescheduled:
  assumes "reschedule_scheduled_start (PendingRecord b) start_at (sc_version b) digest t = Inr (r, dup)"
  shows "\<not> dup \<and> (\<exists>b'. r = PendingRecord b' \<and> same_start b b' \<and> sc_version b' = sc_version b + 1 \<and>
    sc_start_at b' = start_at \<and> sc_mutation_digest b' = digest \<and> sc_mutation b' = MutReschedule \<and> valid_base b')"
  using assms by (auto simp: reschedule_scheduled_start_def same_start_def)

lemma canceled:
  assumes "cancel_scheduled_start (PendingRecord b) (sc_version b) digest t = Inr (r, dup)"
  shows "\<not> dup \<and> (\<exists>b'. r = CanceledRecord b' t \<and> same_start b b' \<and> sc_version b' = sc_version b \<and>
    sc_mutation_digest b' = digest \<and> sc_mutation b' = MutCancel \<and> valid_base b')"
  using assms by (auto simp: cancel_scheduled_start_def same_start_def)

lemma claimed:
  assumes "claim_scheduled_start dg (PendingRecord b) (sc_version b) t = Inr x"
  shows "\<exists>b'. x = Some (DispatchingRecord b' (sc_version b) t) \<and> same_start b b' \<and> sc_version b' = sc_version b \<and>
    sc_start_at b' = sc_start_at b \<and> valid_base b'"
  using assms by (auto simp: claim_scheduled_start_def same_start_def)

lemma completed:
  assumes "complete_scheduled_start dg b v t run c = Inr r"
  shows "\<exists>b'. r = StartedRecord b' v t c run \<and> same_start b b' \<and> sc_version b' = sc_version b \<and> valid_record r"
  using assms by (auto simp: complete_scheduled_start_def same_start_def)

lemma failed_start:
  assumes "fail_scheduled_start dg b v t code c = Inr r"
  shows "\<exists>b'. r = FailedRecord b' v t c code \<and> same_start b b' \<and> sc_version b' = sc_version b \<and> valid_record r"
  using assms by (auto simp: fail_scheduled_start_def same_start_def)

text \<open>A transition that would date a record before its acceptance is refused.\<close>

lemma claim_before_acceptance:
  "t < sc_accepted_at b \<Longrightarrow> claim_scheduled_start dg (PendingRecord b) (sc_version b) t = Inl RecordInvalid"
  by (simp add: claim_scheduled_start_def validated_def valid_base_def)

lemma cancel_before_acceptance:
  "t < sc_accepted_at b \<Longrightarrow> cancel_scheduled_start (PendingRecord b) (sc_version b) digest t = Inl RecordInvalid"
  by (simp add: cancel_scheduled_start_def validated_def valid_base_def)

end
