(* ===== verification/JF_Arbiter.thy ===== *)
theory JF_Arbiter
  imports JF_Scheduled
begin

text \<open>
  Scheduled starts in time (\<open>runtime/scheduled_start_service.py\<close>, \<open>runtime/scheduled_start_dispatch.py\<close>):
  commands compete for a version of a record through its arbiter, a Temporal workflow whose identity is
  made of the start and the version; the arbiter prepares, dispatches and commits. The steps of requests,
  due workflows and arbiters interleave as a step relation over the record, its arbiters and the run of
  the workflow.
\<close>

section \<open>Commands\<close>

datatype command_kind = KindDue | KindCancel | KindReschedule

text \<open>\<open>RescheduleCommand expected start_at digest\<close>.\<close>

datatype arbiter_command =
    DueCommand int
  | CancelCommand int string
  | RescheduleCommand int int string

fun kind_of_command :: "arbiter_command \<Rightarrow> command_kind" where
  "kind_of_command (DueCommand _) = KindDue"
| "kind_of_command (CancelCommand _ _) = KindCancel"
| "kind_of_command (RescheduleCommand _ _ _) = KindReschedule"

fun digest_of_command :: "arbiter_command \<Rightarrow> string option" where
  "digest_of_command (DueCommand _) = None"
| "digest_of_command (CancelCommand _ d) = Some d"
| "digest_of_command (RescheduleCommand _ _ d) = Some d"

text \<open>The input of an arbiter: a pending record and a command for its version.\<close>

fun valid_initial :: "scheduled_base \<Rightarrow> arbiter_command \<Rightarrow> bool" where
  "valid_initial b (DueCommand nominal) = (nominal = sc_start_at b)"
| "valid_initial b (CancelCommand expected digest) = (expected = sc_version b \<and> is_start_digest digest)"
| "valid_initial b (RescheduleCommand expected start_at digest) = (expected = sc_version b \<and> is_start_digest digest)"

record terminal_input =
  tm_projection :: scheduled_record
  tm_consumed :: int
  tm_winner :: command_kind
  tm_digest :: "string option"

text \<open>\<open>validate_projection_version\<close>.\<close>

definition projection_kinds :: "command_kind \<Rightarrow> scheduled_start_state set" where
  "projection_kinds k = (case k of
       KindDue \<Rightarrow> {STARTED, FAILED} | KindCancel \<Rightarrow> {CANCELED, STARTED} | KindReschedule \<Rightarrow> {SCHEDULED, STARTED})"

definition valid_terminal :: "terminal_input \<Rightarrow> bool" where
  "valid_terminal tm \<longleftrightarrow>
     state_of (tm_projection tm) \<in> projection_kinds (tm_winner tm) \<and>
     version_of (tm_projection tm) =
       (if tm_winner tm = KindReschedule \<and> state_of (tm_projection tm) = SCHEDULED
        then tm_consumed tm + 1 else tm_consumed tm) \<and>
     (tm_winner tm = KindDue) = (tm_digest tm = None)"

definition terminal_of ::
    "scheduled_record \<Rightarrow> int \<Rightarrow> command_kind \<Rightarrow> string option \<Rightarrow> scheduled_error + terminal_input" where
  "terminal_of projection consumed winner digest =
     (let tm = \<lparr>tm_projection = projection, tm_consumed = consumed, tm_winner = winner, tm_digest = digest\<rparr>
      in if valid_terminal tm then Inr tm else Inl RecordInvalid)"

section \<open>Preparation\<close>

datatype preparation =
    PreparedDue scheduled_base int int start_target
  | PreparedProjection terminal_input
  | PreparedStale scheduled_description

text \<open>An error of the activity: of the schedule, or of the lookup of an existing run.\<close>

datatype prepare_error = PrepareSchedule scheduled_error | PrepareStart start_exn

definition schedule_result :: "scheduled_error + 'a \<Rightarrow> prepare_error + 'a" where
  "schedule_result r = map_sum PrepareSchedule id r"

fun dispatch_failure_code :: "start_error_code \<Rightarrow> scheduled_failure_code" where
  "dispatch_failure_code InputRejected = CONTRACT_DRIFT"
| "dispatch_failure_code IncompatibleWorker = INCOMPATIBLE_WORKER"
| "dispatch_failure_code _ = TARGET_UNAVAILABLE"

text \<open>The target of a due start and the validation of its input.\<close>

definition resolve_due_target :: "starter \<Rightarrow> runtime_scope \<Rightarrow> scheduled_base \<Rightarrow> start_exn + start_target" where
  "resolve_due_target ws sc b =
     bind_result (resolve_active_target ws sc (sc_workflow b)) (\<lambda>t.
     bind_result (guard_result (owns_scope (ws_sha ws) LOCAL_ONLY (tg_scope_digest t) sc) (start_error DefinitionUnavailable)) (\<lambda>_.
     bind_result (validate_start_input ws (of_json (JObj (sc_input b))) t) (\<lambda>_. Inr t)))"

text \<open>
  \<open>prepare_arbiter\<close>: \<open>described\<close> is the answer of \<open>_describe_record\<close>, \<open>existing\<close> that of
  \<open>find_existing\<close>; \<open>t1\<close> and \<open>t2\<close> are the readings of the clock, in this order.
\<close>

definition prepare_existing ::
    "(json list \<Rightarrow> string) \<Rightarrow> scheduled_record \<Rightarrow> arbiter_command \<Rightarrow> start_result \<Rightarrow> int \<Rightarrow> int \<Rightarrow>
     scheduled_error + preparation" where
  "prepare_existing dg current cmd run t1 t2 =
     bind_result (claim_scheduled_start dg current (version_of current) t1) (\<lambda>c.
       (case c of
          Some (DispatchingRecord b v t) \<Rightarrow>
            bind_result (complete_scheduled_start dg b v t (run_of_result run) t2) (\<lambda>started.
            bind_result (terminal_of started (version_of current) (kind_of_command cmd) (digest_of_command cmd)) (\<lambda>tm.
              Inr (PreparedProjection tm)))
        | _ \<Rightarrow> Inr (PreparedStale (describe_scheduled_start current))))"

definition prepare_due ::
    "starter \<Rightarrow> (json list \<Rightarrow> string) \<Rightarrow> runtime_scope \<Rightarrow> scheduled_record \<Rightarrow> int \<Rightarrow> int \<Rightarrow> prepare_error + preparation" where
  "prepare_due ws dg sc current t1 t2 =
     bind_result (schedule_result (claim_scheduled_start dg current (version_of current) t1)) (\<lambda>c.
       (case c of
          Some (DispatchingRecord b v t) \<Rightarrow>
            (case resolve_due_target ws sc b of
               Inr target \<Rightarrow> Inr (PreparedDue b v t target)
             | Inl (StartFailure code _ _) \<Rightarrow> schedule_result
                 (bind_result (fail_scheduled_start dg b v t (dispatch_failure_code code) t2) (\<lambda>failed.
                  bind_result (terminal_of failed v KindDue None) (\<lambda>tm. Inr (PreparedProjection tm))))
             | Inl e \<Rightarrow> Inl (PrepareStart e))
        | _ \<Rightarrow> Inr (PreparedStale (describe_scheduled_start current))))"

definition prepare_mutation ::
    "scheduled_record \<Rightarrow> arbiter_command \<Rightarrow> int \<Rightarrow> scheduled_error + preparation" where
  "prepare_mutation current cmd t1 =
     (case cmd of
        CancelCommand expected digest \<Rightarrow>
          bind_result (cancel_scheduled_start current expected digest t1) (\<lambda>r.
          bind_result (terminal_of (fst r) expected KindCancel (Some digest)) (\<lambda>tm. Inr (PreparedProjection tm)))
      | RescheduleCommand expected start_at digest \<Rightarrow>
          bind_result (reschedule_scheduled_start current start_at expected digest t1) (\<lambda>r.
          bind_result (terminal_of (fst r) expected KindReschedule (Some digest)) (\<lambda>tm. Inr (PreparedProjection tm)))
      | DueCommand _ \<Rightarrow> Inl RecordInvalid)"

definition prepare_arbiter ::
    "starter \<Rightarrow> (json list \<Rightarrow> string) \<Rightarrow> runtime_scope \<Rightarrow> scheduled_base \<Rightarrow> arbiter_command \<Rightarrow>
     scheduled_error + scheduled_record \<Rightarrow> start_exn + start_result option \<Rightarrow> int \<Rightarrow> int \<Rightarrow> prepare_error + preparation" where
  "prepare_arbiter ws dg sc b cmd described existing t1 t2 =
     (if sc_scope_digest b \<noteq> scope_digest_of (ws_sha ws) sc then Inl (PrepareSchedule schedule_conflict)
      else bind_result (schedule_result described) (\<lambda>current.
        if current \<noteq> PendingRecord b then Inr (PreparedStale (describe_scheduled_start current))
        else (case existing of
            Inl e \<Rightarrow> Inl (PrepareStart e)
          | Inr (Some run) \<Rightarrow> schedule_result (prepare_existing dg current cmd run t1 t2)
          | Inr None \<Rightarrow>
              (case cmd of
                 DueCommand _ \<Rightarrow> prepare_due ws dg sc current t1 t2
               | _ \<Rightarrow> schedule_result (prepare_mutation current cmd t1)))))"

text \<open>
  The errors that end the arbiter: an invalid record, or an error of the schedule that is not retryable. On
  any other error Temporal runs the activity again.
\<close>

fun permanent_error :: "prepare_error \<Rightarrow> bool" where
  "permanent_error (PrepareSchedule RecordInvalid) = True"
| "permanent_error (PrepareSchedule (ScheduleError _ retryable)) = (\<not> retryable)"
| "permanent_error (PrepareStart _) = False"

section \<open>Dispatch\<close>

datatype attempt_result = AttemptAccepted scheduled_run | AttemptRejected | AttemptAmbiguous

text \<open>
  \<open>attempt_dispatch\<close>: an accepted start and a duplicate of one are told apart by the source only in the
  value of \<open>outcome\<close>, which nothing reads.
\<close>

definition attempt_request :: "scheduled_base \<Rightarrow> start_target \<Rightarrow> start_request" where
  "attempt_request b t =
     default_correlation_identity
       \<lparr>rq_workflow = sc_workflow b, rq_business_id = sc_request_id b, rq_input = of_json (JObj (sc_input b)),
        rq_source = ControlApiSource (sc_request_id b),
        rq_definition_digest = Some (mf_definition_digest (tg_manifest t)), rq_correlation_id = None\<rparr>"

definition attempt_dispatch ::
    "starter \<Rightarrow> runtime_scope \<Rightarrow> scheduled_base \<Rightarrow> start_target \<Rightarrow> temporal_view \<Rightarrow> prepare_error + attempt_result" where
  "attempt_dispatch ws sc b t tv =
     (if sc_scope_digest b \<noteq> scope_digest_of (ws_sha ws) sc then Inl (PrepareSchedule schedule_conflict)
      else (case start_accepted_api ws (attempt_request b t) t (sc_trigger b)
            \<lparr>sb_kind = BindApi, sb_scope = sc, sb_binding_id = sc_create_digest b\<rparr> tv of
          Inr r \<Rightarrow> Inr (AttemptAccepted (run_of_result r))
        | Inl (StartFailure _ _ AuthoritativeRejection) \<Rightarrow> Inr AttemptRejected
        | Inl (StartFailure _ _ AmbiguousStart) \<Rightarrow> Inr AttemptAmbiguous
        | Inl StartBroke \<Rightarrow> Inl (PrepareStart StartBroke)))"

text \<open>The workflow takes an attempt that failed as an ambiguous one.\<close>

definition attempt_outcome :: "prepare_error + attempt_result \<Rightarrow> attempt_result" where
  "attempt_outcome r = (case r of Inl _ \<Rightarrow> AttemptAmbiguous | Inr a \<Rightarrow> a)"

record dispatch_progress =
  pg_saw_ambiguous :: bool
  pg_rejections :: nat
  pg_left :: nat

definition new_round :: "scheduled_base \<Rightarrow> bool \<Rightarrow> nat \<Rightarrow> dispatch_progress" where
  "new_round b saw rejections = \<lparr>pg_saw_ambiguous = saw, pg_rejections = rejections, pg_left = nat (sc_attempts b)\<rparr>"

text \<open>After the last attempt of a round the workflow continues as a new one with what it has counted.\<close>

definition next_attempt :: "scheduled_base \<Rightarrow> bool \<Rightarrow> nat \<Rightarrow> nat \<Rightarrow> dispatch_progress" where
  "next_attempt b saw rejections left =
     (if left \<le> 1 then new_round b saw rejections
      else \<lparr>pg_saw_ambiguous = saw, pg_rejections = rejections, pg_left = left - 1\<rparr>)"

text \<open>One attempt of \<open>_dispatch\<close> with its outcome, at the time \<open>now\<close>: the decision, or how it goes on.\<close>

definition dispatch_attempt ::
    "(json list \<Rightarrow> string) \<Rightarrow> scheduled_base \<Rightarrow> int \<Rightarrow> int \<Rightarrow> int \<Rightarrow> dispatch_progress \<Rightarrow> attempt_result \<Rightarrow>
     scheduled_error + (terminal_input + dispatch_progress)" where
  "dispatch_attempt dg b v t now pg a =
     (case a of
        AttemptAccepted run \<Rightarrow>
          bind_result (complete_scheduled_start dg b v t run now) (\<lambda>started.
          bind_result (terminal_of started v KindDue None) (\<lambda>tm. Inr (Inl tm)))
      | AttemptAmbiguous \<Rightarrow> Inr (Inr (next_attempt b True (pg_rejections pg) (pg_left pg)))
      | AttemptRejected \<Rightarrow>
          if \<not> pg_saw_ambiguous pg \<and> sc_attempts b \<le> int (Suc (pg_rejections pg))
          then bind_result (fail_scheduled_start dg b v t DISPATCH_EXHAUSTED now) (\<lambda>failed.
               bind_result (terminal_of failed v KindDue None) (\<lambda>tm. Inr (Inl tm)))
          else Inr (Inr (next_attempt b (pg_saw_ambiguous pg) (Suc (pg_rejections pg)) (pg_left pg))))"

section \<open>Commit\<close>

text \<open>The update of \<open>commit_arbiter\<close>: nothing, or the record the schedule gets.\<close>

definition commit_update :: "terminal_input \<Rightarrow> scheduled_record \<Rightarrow> scheduled_error + scheduled_record option" where
  "commit_update tm current =
     (let p = tm_projection tm
      in if tm_winner tm = KindReschedule \<and> state_of p = SCHEDULED
         then Inr (if version_of p \<le> version_of current then None else Some p)
         else if current = p then Inr None
         else if \<not> (state_of current = SCHEDULED \<and> version_of current = tm_consumed tm) then Inl schedule_conflict
         else Inr (Some p))"

text \<open>What the service answers when the schedule is missing.\<close>

definition schedule_missing :: scheduled_error where
  "schedule_missing = ScheduleError ScheduleNotFound False"

definition commit_arbiter ::
    "(string \<Rightarrow> string) \<Rightarrow> runtime_scope \<Rightarrow> terminal_input \<Rightarrow> scheduled_record option \<Rightarrow>
     scheduled_error + scheduled_record option" where
  "commit_arbiter sha sc tm current =
     (if sc_scope_digest (base_of (tm_projection tm)) \<noteq> scope_digest_of sha sc then Inl schedule_conflict
      else (case current of None \<Rightarrow> Inl schedule_missing | Some r \<Rightarrow> commit_update tm r))"

section \<open>Arbiters\<close>

text \<open>
  The workflow of a version: what it was started with, and how far it is. It has returned in
  \<open>ArbApplied\<close> and \<open>ArbStale\<close>. In \<open>ArbBroken\<close> an activity has failed for good: on the \<open>RuntimeError\<close> that
  follows, Temporal tries the workflow task again and again, so the workflow is still running. \<open>ArbClosed\<close>
  is one that an operator has closed, which no step of the program does.
\<close>

datatype arbiter_phase =
    ArbInitial
  | ArbResolved scheduled_base int int start_target dispatch_progress
  | ArbTerminal terminal_input
  | ArbApplied terminal_input
  | ArbStale scheduled_description
  | ArbBroken
  | ArbClosed

record arbiter =
  ar_base :: scheduled_base
  ar_command :: arbiter_command
  ar_phase :: arbiter_phase

definition after_prepare :: "prepare_error + preparation \<Rightarrow> arbiter_phase option" where
  "after_prepare r = (case r of
       Inr (PreparedDue b v t target) \<Rightarrow> Some (ArbResolved b v t target (new_round b False 0))
     | Inr (PreparedProjection tm) \<Rightarrow> Some (ArbTerminal tm)
     | Inr (PreparedStale d) \<Rightarrow> Some (ArbStale d)
     | Inl e \<Rightarrow> if permanent_error e then Some ArbBroken else None)"

text \<open>The result that a caller can wait for; it gets none while the arbiter runs, nor from a closed one.\<close>

datatype arbiter_result = AppliedResult terminal_input | StaleResult scheduled_description

fun result_of_phase :: "arbiter_phase \<Rightarrow> arbiter_result option" where
  "result_of_phase (ArbApplied tm) = Some (AppliedResult tm)"
| "result_of_phase (ArbStale d) = Some (StaleResult d)"
| "result_of_phase _ = None"

section \<open>Requests\<close>

datatype mutation_status = MutAccepted | MutDuplicate | MutRescheduled | MutCanceled | MutInProgress

text \<open>
  A request is answered, or its arbiter is to be started with a record and a command.
\<close>

datatype mutation_answer =
    MutationResult mutation_status scheduled_description
  | LaunchArbiter scheduled_base arbiter_command

record scheduled_settings =
  st_clock_skew :: int
  st_max_horizon :: int
  st_max_input_bytes :: nat
  st_max_pending :: nat
  st_timeout :: int
  st_attempts :: int

definition validate_due_time :: "scheduled_settings \<Rightarrow> int \<Rightarrow> int \<Rightarrow> scheduled_error + unit" where
  "validate_due_time st start_at now =
     guard_result (\<not> (start_at < now - st_clock_skew st * 1000000 \<or> now + st_max_horizon st * 1000000 < start_at))
       (ScheduleError ScheduleInvalidRequest False)"

definition require_pending_version :: "scheduled_record \<Rightarrow> int \<Rightarrow> scheduled_error + scheduled_base" where
  "require_pending_version r expected = (case r of
       PendingRecord b \<Rightarrow> if sc_version b = expected then Inr b else Inl schedule_conflict
     | _ \<Rightarrow> Inl schedule_conflict)"

text \<open>
  \<open>_recover_mutation\<close>: \<open>a\<close> is the arbiter of the expected version, \<open>res\<close> what waiting for it gave.
\<close>

definition recover_mutation ::
    "scheduled_record \<Rightarrow> command_kind \<Rightarrow> string \<Rightarrow> arbiter option \<Rightarrow> arbiter_result option \<Rightarrow>
     scheduled_error + mutation_answer option" where
  "recover_mutation r kind digest a res = (case a of
       None \<Rightarrow> Inr None
     | Some arb \<Rightarrow>
         if kind_of_command (ar_command arb) \<noteq> kind \<or> digest_of_command (ar_command arb) \<noteq> Some digest
         then Inl schedule_conflict
         else (case res of
             None \<Rightarrow> Inr (Some (MutationResult MutInProgress (describe_scheduled_start r)))
           | Some (StaleResult _) \<Rightarrow> Inl schedule_conflict
           | Some (AppliedResult tm) \<Rightarrow>
               if state_of (tm_projection tm) = STARTED then Inl schedule_conflict
               else Inr (Some (MutationResult MutDuplicate (describe_scheduled_start (tm_projection tm))))))"

definition reschedule_request ::
    "scheduled_settings \<Rightarrow> int \<Rightarrow> scheduled_record \<Rightarrow> int \<Rightarrow> int \<Rightarrow> string \<Rightarrow> arbiter option \<Rightarrow> arbiter_result option \<Rightarrow>
     scheduled_error + mutation_answer" where
  "reschedule_request st now r expected start_at digest a res =
     (if (case r of PendingRecord b \<Rightarrow> sc_version b = expected + 1 \<and> sc_mutation b = MutReschedule \<and>
           sc_mutation_digest b = digest | _ \<Rightarrow> False)
      then Inr (MutationResult MutDuplicate (describe_scheduled_start r))
      else bind_result (recover_mutation r KindReschedule digest a res) (\<lambda>recovered.
        (case recovered of
           Some answer \<Rightarrow> Inr answer
         | None \<Rightarrow>
             bind_result (validate_due_time st start_at now) (\<lambda>_.
             bind_result (require_pending_version r expected) (\<lambda>b.
               Inr (LaunchArbiter b (RescheduleCommand expected start_at digest)))))))"

definition cancel_request ::
    "scheduled_record \<Rightarrow> int \<Rightarrow> string \<Rightarrow> arbiter option \<Rightarrow> arbiter_result option \<Rightarrow> scheduled_error + mutation_answer" where
  "cancel_request r expected digest a res =
     (if (case r of CanceledRecord b _ \<Rightarrow> sc_version b = expected \<and> sc_mutation_digest b = digest | _ \<Rightarrow> False)
      then Inr (MutationResult MutDuplicate (describe_scheduled_start r))
      else bind_result (recover_mutation r KindCancel digest a res) (\<lambda>recovered.
        (case recovered of
           Some answer \<Rightarrow> Inr answer
         | None \<Rightarrow> bind_result (require_pending_version r expected) (\<lambda>b.
             Inr (LaunchArbiter b (CancelCommand expected digest))))))"

text \<open>
  \<open>_run_mutation\<close>: \<open>other\<close> is the arbiter that already had the version when this request tried to start
  its own, \<open>res\<close> what waiting gave.
\<close>

definition run_mutation ::
    "scheduled_base \<Rightarrow> arbiter_command \<Rightarrow> mutation_status \<Rightarrow> arbiter option \<Rightarrow> arbiter_result option \<Rightarrow>
     scheduled_error + mutation_answer" where
  "run_mutation b cmd accepted other res =
     (if other \<noteq> None \<and> (kind_of_command (ar_command (the other)) \<noteq> kind_of_command cmd \<or>
         digest_of_command (ar_command (the other)) \<noteq> digest_of_command cmd)
      then Inl schedule_conflict
      else (case res of
          None \<Rightarrow> Inr (MutationResult MutInProgress (describe_scheduled_start (PendingRecord b)))
        | Some (StaleResult _) \<Rightarrow> Inl schedule_conflict
        | Some (AppliedResult tm) \<Rightarrow>
            if state_of (tm_projection tm) = STARTED \<and> tm_winner tm \<noteq> KindDue then Inl schedule_conflict
            else Inr (MutationResult (if other \<noteq> None then MutDuplicate else accepted)
              (describe_scheduled_start (tm_projection tm)))))"

text \<open>\<open>claim_due\<close>, for the record \<open>b\<close> of the action that fired; \<open>DueLaunch\<close> starts the arbiter.\<close>

datatype due_answer = DueLaunch | DueClaimedDuplicate | DueSkipped scheduled_description

definition claim_due :: "scheduled_record \<Rightarrow> scheduled_base \<Rightarrow> arbiter option \<Rightarrow> due_answer" where
  "claim_due current b a =
     (if current \<noteq> PendingRecord b then DueSkipped (describe_scheduled_start current)
      else (case a of
          None \<Rightarrow> DueLaunch
        | Some arb \<Rightarrow>
            if kind_of_command (ar_command arb) = KindDue then DueClaimedDuplicate
            else DueSkipped (describe_scheduled_start current)))"

text \<open>
  \<open>_authoritative_description\<close> of a pending record: \<open>started\<close> is when its arbiter was started.
\<close>

definition authoritative_description ::
    "(json list \<Rightarrow> string) \<Rightarrow> scheduled_base \<Rightarrow> arbiter option \<Rightarrow> int \<Rightarrow> scheduled_error + scheduled_description" where
  "authoritative_description dg b a started = (case a of
       None \<Rightarrow> Inr (describe_scheduled_start (PendingRecord b))
     | Some arb \<Rightarrow>
         (case ar_phase arb of
            ArbApplied tm \<Rightarrow> Inr (describe_scheduled_start (tm_projection tm))
          | ArbStale d \<Rightarrow> Inr d
          | ArbClosed \<Rightarrow> Inl schedule_conflict
          | _ \<Rightarrow>
              if kind_of_command (ar_command arb) \<noteq> KindDue then Inr (describe_scheduled_start (PendingRecord b))
              else bind_result (claim_scheduled_start dg (PendingRecord b) (sc_version b)
                    (max (sc_updated_at b) (started - started mod 1000000))) (\<lambda>c.
                  case c of None \<Rightarrow> Inl RecordInvalid | Some r \<Rightarrow> Inr (describe_scheduled_start r))))"

definition describe_request ::
    "(json list \<Rightarrow> string) \<Rightarrow> scheduled_record \<Rightarrow> arbiter option \<Rightarrow> int \<Rightarrow> scheduled_error + scheduled_description" where
  "describe_request dg r a started = (case r of
       PendingRecord b \<Rightarrow> authoritative_description dg b a started
     | _ \<Rightarrow> Inr (describe_scheduled_start r))"

section \<open>Creation\<close>

text \<open>\<open>_start_error\<close>.\<close>

fun scheduled_start_error :: "start_exn \<Rightarrow> scheduled_error" where
  "scheduled_start_error (StartFailure code retryable _) = ScheduleError
     (case code of
        InvalidRequest \<Rightarrow> ScheduleInvalidRequest
      | InputRejected \<Rightarrow> ScheduleInputRejected
      | TriggerPaused \<Rightarrow> ScheduleTriggerPaused
      | TemporalUnavailable \<Rightarrow> ScheduleTemporalUnavailable
      | _ \<Rightarrow> ScheduleTriggerUnavailable) retryable"
| "scheduled_start_error StartBroke = RecordInvalid"

text \<open>
  The request that is prepared to validate the input: its source is the API, its definition the active one.
\<close>

definition create_start_request :: "create_request \<Rightarrow> pyval \<Rightarrow> start_request" where
  "create_start_request rq input =
     default_correlation_identity
       \<lparr>rq_workflow = cr_workflow rq, rq_business_id = cr_request_id rq, rq_input = input,
        rq_source = ControlApiSource (cr_request_id rq), rq_definition_digest = None, rq_correlation_id = None\<rparr>"

text \<open>
  \<open>create\<close> up to the record: \<open>existing\<close> is the record under the identity of the start, \<open>allowed\<close> tells
  whether the workload class is granted.
\<close>

datatype create_answer = CreateKnown scheduled_description | CreateRecord scheduled_record

definition create_request_record ::
    "starter \<Rightarrow> scheduled_settings \<Rightarrow> bool \<Rightarrow> int \<Rightarrow> create_request \<Rightarrow> pyval \<Rightarrow> string \<Rightarrow> string \<Rightarrow> scope_binding \<Rightarrow>
     scheduled_record option \<Rightarrow> scheduled_error + create_answer" where
  "create_request_record ws st allowed now rq input start_id digest b existing =
     (if sb_kind b \<noteq> BindApi then Inl (ScheduleError ScheduleInvalidRequest False)
      else (case existing of
          Some r \<Rightarrow>
            if sc_create_digest (base_of r) \<noteq> digest then Inl schedule_conflict
            else Inr (CreateKnown (describe_scheduled_start r))
        | None \<Rightarrow>
            bind_result (validate_due_time st (cr_start_at rq) now) (\<lambda>_.
            bind_result (guard_result allowed (ScheduleError ScheduleInvalidRequest False)) (\<lambda>_.
            bind_result (map_sum scheduled_start_error id (prepare_start ws (create_start_request rq input) b)) (\<lambda>prepared.
              (case prepared of (target, (trigger, kind), d) \<Rightarrow>
                if kind \<noteq> TriggerApi then Inl (ScheduleError ScheduleTriggerUnavailable False)
                else if \<not> is_ok (enforce_payload_bytes (ws_bytes ws (JObj d)) ''scheduled_start.input'' (st_max_input_bytes st))
                then Inl (ScheduleError ScheduleInvalidRequest False)
                else map_sum id CreateRecord (create_scheduled_start_record rq start_id
                  (scope_digest_of (ws_sha ws) (sb_scope b)) trigger digest now d (st_timeout st) (st_attempts st))))))))"

text \<open>The local quota controller.\<close>

definition local_quota :: "runtime_scope \<Rightarrow> nat \<Rightarrow> nat \<Rightarrow> scheduled_error + unit" where
  "local_quota sc limit pending =
     (if sc \<noteq> LOCAL_RUNTIME_SCOPE then Inl (ScheduleError ScheduleQuotaUnavailable False)
      else if limit \<le> pending then Inl (ScheduleError ScheduleQuotaExceeded False) else Inr ())"

text \<open>
  The creation of the schedule: Temporal may already have one under the identity. \<open>None\<close> as a record
  is a new schedule.
\<close>

definition create_schedule :: "string \<Rightarrow> scheduled_record \<Rightarrow> scheduled_record option \<Rightarrow> scheduled_error + (mutation_status \<times> scheduled_record)" where
  "create_schedule digest new present = (case present of
       None \<Rightarrow> Inr (MutAccepted, new)
     | Some r \<Rightarrow> if sc_create_digest (base_of r) \<noteq> digest then Inl schedule_conflict else Inr (MutDuplicate, r))"

end
