(* ===== verification/JF_Contention.thy ===== *)
theory JF_Contention
  imports JF_Arbiter
begin

text \<open>
  A scheduled start under concurrent requests, due workflows and arbiters, as a step relation. A command
  reads the record and starts the arbiter of its version later, when others may have done so; an arbiter
  runs activities that Temporal may run again; other triggers may start the workflow of the same request.
  Every clock reading is free. The invariant ties each arbiter to the record, and the lemmas on its
  preservation carry the properties.
\<close>

section \<open>The state and its steps\<close>

text \<open>
  \<open>ey_seen\<close> are the pending records that a request or a due workflow has read, \<open>ey_run\<close> the run of the
  workflow with its memo, \<open>ey_attempts\<close> the versions whose arbiters have attempted a start.
\<close>

record entity =
  ey_record :: "scheduled_record option"
  ey_arbiters :: "int \<Rightarrow> arbiter option"
  ey_seen :: "scheduled_base set"
  ey_run :: "(string \<times> json dict) option"
  ey_attempts :: "int list"

text \<open>
  What Temporal says is true: it starts a run only if there was none and says so of its own only, it
  describes the run there is, and it keeps the run.
\<close>

definition truthful :: "(string \<times> json dict) option \<Rightarrow> (string \<times> json dict) option \<Rightarrow> temporal_view \<Rightarrow> bool" where
  "truthful before after tv \<longleftrightarrow>
     (before \<noteq> None \<longrightarrow> after = before) \<and>
     (\<forall>k x. tv_start tv k = StartedRun x \<longrightarrow> before = None \<and>
        (\<exists>run memo. after = Some (run, memo) \<and> (x = None \<or> x = Some run))) \<and>
     (\<forall>w x memo run. tv_describe tv w x = Described memo run \<longrightarrow> after = Some (run, memo))"

definition described_record :: "scheduled_record option \<Rightarrow> scheduled_error + scheduled_record" where
  "described_record r = (case r of None \<Rightarrow> Inl schedule_missing | Some x \<Rightarrow> Inr x)"

definition set_phase_at :: "int \<Rightarrow> arbiter \<Rightarrow> arbiter_phase \<Rightarrow> entity \<Rightarrow> entity" where
  "set_phase_at v a p s = s\<lparr>ey_arbiters := (ey_arbiters s)(v \<mapsto> a\<lparr>ar_phase := p\<rparr>)\<rparr>"

inductive entity_step ::
    "starter \<Rightarrow> (json list \<Rightarrow> string) \<Rightarrow> runtime_scope \<Rightarrow> entity \<Rightarrow> entity \<Rightarrow> bool" for ws dg sc where
  read_record: "ey_record s = Some (PendingRecord b) \<Longrightarrow>
    entity_step ws dg sc s (s\<lparr>ey_seen := insert b (ey_seen s)\<rparr>)"
| launch: "b \<in> ey_seen s \<Longrightarrow> valid_initial b cmd \<Longrightarrow> ey_arbiters s (sc_version b) = None \<Longrightarrow>
    entity_step ws dg sc s (s\<lparr>ey_arbiters := (ey_arbiters s)(sc_version b \<mapsto>
      \<lparr>ar_base = b, ar_command = cmd, ar_phase = ArbInitial\<rparr>)\<rparr>)"
| other_start: "ey_run s = None \<Longrightarrow> entity_step ws dg sc s (s\<lparr>ey_run := Some x\<rparr>)"
| prepare: "ey_arbiters s v = Some a \<Longrightarrow> ar_phase a = ArbInitial \<Longrightarrow> truthful (ey_run s) (ey_run s) tv \<Longrightarrow>
    after_prepare (prepare_arbiter ws dg sc (ar_base a) (ar_command a) (described_record (ey_record s))
      (find_existing ws (sc_workflow (ar_base a)) (sc_request_id (ar_base a)) sc tv) t1 t2) = Some p \<Longrightarrow>
    entity_step ws dg sc s (set_phase_at v a p s)"
| attempt: "ey_arbiters s v = Some a \<Longrightarrow> ar_phase a = ArbResolved b v' t target pg \<Longrightarrow>
    truthful (ey_run s) after tv \<Longrightarrow>
    outcome \<in> {AttemptAmbiguous, attempt_outcome (attempt_dispatch ws sc b target tv)} \<Longrightarrow>
    dispatch_attempt dg b v' t now pg outcome = Inr next_phase \<Longrightarrow>
    entity_step ws dg sc s ((set_phase_at v a
      (case next_phase of Inl tm \<Rightarrow> ArbTerminal tm | Inr pg' \<Rightarrow> ArbResolved b v' t target pg') s)
      \<lparr>ey_run := after, ey_attempts := ey_attempts s @ [v]\<rparr>)"
| commit: "ey_arbiters s v = Some a \<Longrightarrow> ar_phase a \<in> {ArbTerminal tm, ArbApplied tm} \<Longrightarrow>
    commit_arbiter (ws_sha ws) sc tm (ey_record s) = Inr update \<Longrightarrow> p \<in> {ar_phase a, ArbApplied tm} \<Longrightarrow>
    entity_step ws dg sc s ((set_phase_at v a p s)
      \<lparr>ey_record := (case update of None \<Rightarrow> ey_record s | Some r \<Rightarrow> Some r)\<rparr>)"
| commit_fails: "ey_arbiters s v = Some a \<Longrightarrow> ar_phase a = ArbTerminal tm \<Longrightarrow>
    commit_arbiter (ws_sha ws) sc tm (ey_record s) = Inl e \<Longrightarrow> permanent_error (PrepareSchedule e) \<Longrightarrow>
    entity_step ws dg sc s (set_phase_at v a ArbBroken s)"

inductive_cases entity_stepE: "entity_step ws dg sc s s'"

text \<open>A start that has just been created.\<close>

definition new_entity :: "scheduled_base \<Rightarrow> (string \<times> json dict) option \<Rightarrow> entity" where
  "new_entity b run =
     \<lparr>ey_record = Some (PendingRecord b), ey_arbiters = (\<lambda>_. None), ey_seen = {}, ey_run = run, ey_attempts = []\<rparr>"

section \<open>The invariant\<close>

text \<open>How the projection of an arbiter fits its command and its version.\<close>

definition terminal_fits :: "(string \<times> json dict) option \<Rightarrow> arbiter \<Rightarrow> terminal_input \<Rightarrow> bool" where
  "terminal_fits run a tm \<longleftrightarrow>
     tm_consumed tm = sc_version (ar_base a) \<and> same_start (ar_base a) (base_of (tm_projection tm)) \<and>
     valid_record (tm_projection tm) \<and>
     (case tm_projection tm of
        PendingRecord b \<Rightarrow> sc_version b = sc_version (ar_base a) + 1 \<and> tm_winner tm = KindReschedule \<and>
          (\<exists>t d. ar_command a = RescheduleCommand (sc_version (ar_base a)) t d \<and> sc_start_at b = t \<and> sc_mutation_digest b = d)
      | DispatchingRecord _ _ _ \<Rightarrow> False
      | StartedRecord b _ _ _ r \<Rightarrow> sc_version b = sc_version (ar_base a) \<and> (\<exists>memo. run = Some (sr_run_id r, memo))
      | CanceledRecord b _ \<Rightarrow> sc_version b = sc_version (ar_base a) \<and>
          (\<exists>d. ar_command a = CancelCommand (sc_version (ar_base a)) d \<and> sc_mutation_digest b = d)
      | FailedRecord b _ _ _ _ \<Rightarrow> sc_version b = sc_version (ar_base a) \<and> kind_of_command (ar_command a) = KindDue)"

text \<open>The projection is the record, or a pending record that was replaced since.\<close>

definition committed :: "scheduled_record \<Rightarrow> terminal_input \<Rightarrow> bool" where
  "committed r tm \<longleftrightarrow>
     (if state_of (tm_projection tm) = SCHEDULED then version_of (tm_projection tm) \<le> version_of r
      else r = tm_projection tm)"

definition arbiter_ok ::
    "runtime_scope \<Rightarrow> (string \<Rightarrow> string) \<Rightarrow> (string \<times> json dict) option \<Rightarrow> scheduled_record \<Rightarrow> arbiter \<Rightarrow> bool" where
  "arbiter_ok sc sha run r a \<longleftrightarrow>
     valid_initial (ar_base a) (ar_command a) \<and> sc_scope_digest (ar_base a) = scope_digest_of sha sc \<and>
     (case ar_phase a of
        ArbInitial \<Rightarrow> r = PendingRecord (ar_base a)
      | ArbResolved b v t target pg \<Rightarrow> r = PendingRecord (ar_base a) \<and> kind_of_command (ar_command a) = KindDue \<and>
          v = sc_version (ar_base a) \<and> sc_version b = v \<and> same_start (ar_base a) b
      | ArbTerminal tm \<Rightarrow> terminal_fits run a tm \<and> (r = PendingRecord (ar_base a) \<or> committed r tm)
      | ArbApplied tm \<Rightarrow> terminal_fits run a tm \<and> committed r tm
      | ArbStale d \<Rightarrow> False
      | ArbClosed \<Rightarrow> False
      | ArbBroken \<Rightarrow> r = PendingRecord (ar_base a))"

definition attempted_ok :: "entity \<Rightarrow> bool" where
  "attempted_ok s \<longleftrightarrow> (\<forall>v \<in> set (ey_attempts s). \<exists>a. ey_arbiters s v = Some a \<and> kind_of_command (ar_command a) = KindDue \<and>
     ar_phase a \<noteq> ArbInitial)"

definition entity_ok :: "starter \<Rightarrow> runtime_scope \<Rightarrow> entity \<Rightarrow> bool" where
  "entity_ok ws sc s \<longleftrightarrow> (\<exists>r. ey_record s = Some r \<and> valid_record r \<and> state_of r \<noteq> DISPATCHING \<and>
     sc_scope_digest (base_of r) = scope_digest_of (ws_sha ws) sc \<and>
     (\<forall>v a. ey_arbiters s v = Some a \<longrightarrow> sc_version (ar_base a) = v \<and> arbiter_ok sc (ws_sha ws) (ey_run s) r a) \<and>
     (state_of r \<noteq> SCHEDULED \<longrightarrow> (\<exists>a. ey_arbiters s (version_of r) = Some a)) \<and>
     (\<forall>b \<in> ey_seen s. r = PendingRecord b \<or> ey_arbiters s (sc_version b) \<noteq> None)) \<and>
     attempted_ok s"

lemma entity_okE:
  assumes "entity_ok ws sc s"
  obtains r where "ey_record s = Some r" "valid_record r" "state_of r \<noteq> DISPATCHING"
    "sc_scope_digest (base_of r) = scope_digest_of (ws_sha ws) sc"
    "\<And>v a. ey_arbiters s v = Some a \<Longrightarrow> sc_version (ar_base a) = v \<and> arbiter_ok sc (ws_sha ws) (ey_run s) r a"
    "state_of r \<noteq> SCHEDULED \<Longrightarrow> \<exists>a. ey_arbiters s (version_of r) = Some a"
    "\<And>b. b \<in> ey_seen s \<Longrightarrow> r = PendingRecord b \<or> ey_arbiters s (sc_version b) \<noteq> None"
    "attempted_ok s"
  using assms unfolding entity_ok_def by blast

lemma new_entity_ok:
  assumes "valid_base b" "sc_scope_digest b = scope_digest_of (ws_sha ws) sc"
  shows "entity_ok ws sc (new_entity b run)"
  using assms by (simp add: entity_ok_def new_entity_def attempted_ok_def)

section \<open>What the parts of a step do\<close>

lemma lookup_existing_run:
  assumes "truthful before after tv" "lookup_existing sha (tv_describe tv w x) w sc = Inr (Some r)"
  shows "\<exists>memo. after = Some (sw_run_id r, memo)"
proof -
  obtain memo run where "tv_describe tv w x = Described memo run" "sw_run_id r = run"
    using assms(2) by (auto simp: lookup_existing_def result_from_memo_def bind_result_eq_Inr Let_def
        split: describe_reply.splits sum.splits if_splits)
  then show ?thesis using assms(1) unfolding truthful_def by blast
qed

lemma find_existing_run:
  assumes "truthful before after tv" "find_existing ws w request_id sc tv = Inr (Some r)"
  shows "\<exists>memo. after = Some (sw_run_id r, memo)"
  using assms lookup_existing_run by (auto simp: find_existing_def split: sum.splits)

lemma start_outcome_run:
  assumes "truthful before after tv" "start_outcome ws rq sc t trigger w tv = Inr r"
  shows "\<exists>memo. after = Some (sw_run_id r, memo)"
proof -
  let ?reply = "retry_pinned (missing_pinned_version (tg_deployment t) (ws_task_queue ws)) (tv_start tv) 0 (ws_pinned_attempts ws)"
  consider x where "?reply = StartedRun x" | x where "?reply = AlreadyStartedRun x"
    using assms(2) by (auto simp: start_outcome_def split: start_reply.splits)
  then show ?thesis
  proof cases
    case (1 x)
    then have "0 < ws_pinned_attempts ws" by (cases "ws_pinned_attempts ws") auto
    with 1 obtain k where k: "tv_start tv k = StartedRun x" using retry_pinned_reply by metis
    then obtain run memo where after: "after = Some (run, memo)" "x = None \<or> x = Some run"
      using assms(1) unfolding truthful_def by blast
    from 1 assms(2) have "resolve_run_id x (tv_describe tv w None) = Inr (sw_run_id r)"
      by (auto simp: start_outcome_def new_result_def bind_result_eq_Inr Let_def split: if_splits)
    then show ?thesis
      using after assms(1) by (auto simp: resolve_run_id_def truthful_def split: option.splits describe_reply.splits)
  next
    case (2 x)
    with assms show ?thesis
      by (auto simp: start_outcome_def existing_result_def bind_result_eq_Inr split: option.splits dest: lookup_existing_run)
  qed
qed

lemma run_start_run:
  assumes "truthful before after tv" "run_start ws rq b (Some given) tv = Inr r"
  shows "\<exists>memo. after = Some (sw_run_id r, memo)"
proof -
  obtain sc workflow_id where "start_outcome ws rq sc (fst given) (snd given) workflow_id tv = Inr r"
    using assms(2) by (cases "make_workflow_id (ws_sha ws) (rq_workflow rq) (rq_business_id rq) (Some (sb_scope b))")
      (auto simp: run_start_def bind_result_eq_Inr bound_scope_def require_bound_scope_def split: if_splits sum.split_asm)
  with assms(1) show ?thesis by (rule start_outcome_run)
qed

lemma attempt_dispatch_run:
  assumes "truthful before after tv" "attempt_outcome (attempt_dispatch ws sc b t tv) = AttemptAccepted run"
  shows "\<exists>memo. after = Some (sr_run_id run, memo)"
  using assms
  by (auto simp: attempt_outcome_def attempt_dispatch_def start_accepted_api_def run_of_result_def
      split: sum.splits start_exn.splits start_certainty.splits if_splits dest!: run_start_run)

lemma terminal_of_eq_Inr [simp]:
  "terminal_of p v k d = Inr tm \<longleftrightarrow>
     tm = \<lparr>tm_projection = p, tm_consumed = v, tm_winner = k, tm_digest = d\<rparr> \<and> valid_terminal tm"
  by (auto simp: terminal_of_def Let_def)

lemma schedule_result_simps [simp]:
  "schedule_result (Inr x) = Inr x" "schedule_result (Inl e) = Inl (PrepareSchedule e)"
  by (simp_all add: schedule_result_def)

lemma schedule_result_eq_Inr [simp]: "schedule_result r = Inr x \<longleftrightarrow> r = Inr x"
  by (cases r) (auto simp: schedule_result_def)

lemma schedule_result_eq_Inl [simp]: "schedule_result r = Inl e \<longleftrightarrow> (\<exists>e'. r = Inl e' \<and> e = PrepareSchedule e')"
  by (cases r) (auto simp: schedule_result_def)

lemma prepare_existing_fits:
  assumes "prepare_existing dg (PendingRecord (ar_base a)) (ar_command a) x t1 t2 = Inr p" "run = Some (sw_run_id x, memo)"
  shows "\<exists>tm. p = PreparedProjection tm \<and> terminal_fits run a tm"
proof -
  let ?b = "ar_base a"
  obtain c where c: "claim_scheduled_start dg (PendingRecord ?b) (sc_version ?b) t1 = Inr c"
    using assms(1) by (auto simp: prepare_existing_def bind_result_eq_Inr version_of_def)
  from claimed [OF c] obtain b' where b': "c = Some (DispatchingRecord b' (sc_version ?b) t1)"
    "same_start ?b b'" "sc_version b' = sc_version ?b" by blast
  obtain r where r: "complete_scheduled_start dg b' (sc_version ?b) t1 (run_of_result x) t2 = Inr r"
    and tm: "p = PreparedProjection \<lparr>tm_projection = r, tm_consumed = sc_version ?b,
      tm_winner = kind_of_command (ar_command a), tm_digest = digest_of_command (ar_command a)\<rparr>"
    using assms(1) c b'(1) by (auto simp: prepare_existing_def bind_result_eq_Inr version_of_def)
  from completed [OF r] obtain b'' where b'': "r = StartedRecord b'' (sc_version ?b) t1 t2 (run_of_result x)"
      "same_start b' b''" "sc_version b'' = sc_version b'" "valid_record r" by blast
  show ?thesis
    using b'(2,3) b'' assms(2) same_start_trans [OF b'(2) b''(2)] by (simp add: tm terminal_fits_def run_of_result_def)
qed

lemma prepare_due_fits:
  assumes "prepare_due ws dg sc (PendingRecord (ar_base a)) t1 t2 = Inr p" "kind_of_command (ar_command a) = KindDue"
  shows "(\<exists>tm. p = PreparedProjection tm \<and> terminal_fits run a tm) \<or>
    (\<exists>b t target. p = PreparedDue b (sc_version (ar_base a)) t target \<and> sc_version b = sc_version (ar_base a) \<and>
      same_start (ar_base a) b)"
proof -
  let ?b = "ar_base a"
  obtain c where c: "claim_scheduled_start dg (PendingRecord ?b) (sc_version ?b) t1 = Inr c"
    using assms(1) by (auto simp: prepare_due_def bind_result_eq_Inr version_of_def)
  from claimed [OF c] obtain b' where b': "c = Some (DispatchingRecord b' (sc_version ?b) t1)"
    "same_start ?b b'" "sc_version b' = sc_version ?b" by blast
  show ?thesis
  proof (cases "resolve_due_target ws sc b'")
    case (Inr target)
    then show ?thesis using assms(1) c b' by (auto simp: prepare_due_def version_of_def)
  next
    case (Inl e)
    then obtain code r where r: "fail_scheduled_start dg b' (sc_version ?b) t1 code t2 = Inr r"
      and tm: "p = PreparedProjection \<lparr>tm_projection = r, tm_consumed = sc_version ?b, tm_winner = KindDue, tm_digest = None\<rparr>"
      using assms(1) c b'(1)
      by (auto simp: prepare_due_def bind_result_eq_Inr version_of_def split: start_exn.splits)
    from failed_start [OF r] obtain b'' where b'': "r = FailedRecord b'' (sc_version ?b) t1 t2 code"
      "same_start b' b''" "sc_version b'' = sc_version b'" "valid_record r" by blast
    show ?thesis
      using b'(2,3) b'' assms(2) same_start_trans [OF b'(2) b''(2)] by (simp add: tm terminal_fits_def)
  qed
qed

lemma prepare_mutation_fits:
  assumes "prepare_mutation (PendingRecord (ar_base a)) (ar_command a) t1 = Inr p" "valid_initial (ar_base a) (ar_command a)"
  shows "\<exists>tm. p = PreparedProjection tm \<and> terminal_fits run a tm"
proof (cases "ar_command a")
  case (CancelCommand expected digest)
  then have e: "expected = sc_version (ar_base a)" using assms(2) by simp
  obtain r dup where r: "cancel_scheduled_start (PendingRecord (ar_base a)) (sc_version (ar_base a)) digest t1 = Inr (r, dup)"
    and tm: "p = PreparedProjection \<lparr>tm_projection = r, tm_consumed = sc_version (ar_base a), tm_winner = KindCancel,
      tm_digest = Some digest\<rparr>"
    using assms(1) by (auto simp: prepare_mutation_def CancelCommand e bind_result_eq_Inr)
  from canceled [OF r] show ?thesis by (auto simp: tm terminal_fits_def CancelCommand e)
next
  case (RescheduleCommand expected start_at digest)
  then have e: "expected = sc_version (ar_base a)" using assms(2) by simp
  obtain r dup where r: "reschedule_scheduled_start (PendingRecord (ar_base a)) start_at (sc_version (ar_base a)) digest t1
      = Inr (r, dup)"
    and tm: "p = PreparedProjection \<lparr>tm_projection = r, tm_consumed = sc_version (ar_base a), tm_winner = KindReschedule,
      tm_digest = Some digest\<rparr>"
    using assms(1) by (auto simp: prepare_mutation_def RescheduleCommand e bind_result_eq_Inr)
  from rescheduled [OF r] show ?thesis by (auto simp: tm terminal_fits_def RescheduleCommand e)
qed (use assms in \<open>simp add: prepare_mutation_def\<close>)

text \<open>An arbiter that prepares finds its record in place, so it is never stale.\<close>

lemma prepared_ok:
  assumes ok: "arbiter_ok sc (ws_sha ws) run (PendingRecord (ar_base a)) a"
    and tv: "truthful run run tv"
    and p: "after_prepare (prepare_arbiter ws dg sc (ar_base a) (ar_command a) (Inr (PendingRecord (ar_base a)))
      (find_existing ws (sc_workflow (ar_base a)) (sc_request_id (ar_base a)) sc tv) t1 t2) = Some p"
  shows "arbiter_ok sc (ws_sha ws) run (PendingRecord (ar_base a)) (a\<lparr>ar_phase := p\<rparr>)"
proof -
  let ?fe = "find_existing ws (sc_workflow (ar_base a)) (sc_request_id (ar_base a)) sc tv"
  let ?p = "prepare_arbiter ws dg sc (ar_base a) (ar_command a) (Inr (PendingRecord (ar_base a))) ?fe t1 t2"
  have valid: "valid_initial (ar_base a) (ar_command a)" "sc_scope_digest (ar_base a) = scope_digest_of (ws_sha ws) sc"
    using ok by (auto simp: arbiter_ok_def)
  have cong: "terminal_fits run (a\<lparr>ar_phase := q\<rparr>) tm = terminal_fits run a tm" for q tm
    by (simp add: terminal_fits_def cong: scheduled_record.case_cong)
  show ?thesis
  proof (cases ?p)
    case (Inl e)
    then show ?thesis using p valid by (auto simp: after_prepare_def arbiter_ok_def split: if_splits)
  next
    case (Inr pr)
    have "(\<exists>tm. pr = PreparedProjection tm \<and> terminal_fits run a tm) \<or>
      (kind_of_command (ar_command a) = KindDue \<and> (\<exists>b t target. pr = PreparedDue b (sc_version (ar_base a)) t target \<and>
        sc_version b = sc_version (ar_base a) \<and> same_start (ar_base a) b))"
    proof (cases "\<exists>x. ?fe = Inr (Some x)")
      case True
      then obtain x where x: "?fe = Inr (Some x)" by blast
      then obtain memo where "run = Some (sw_run_id x, memo)" using find_existing_run [OF tv] by blast
      moreover have "prepare_existing dg (PendingRecord (ar_base a)) (ar_command a) x t1 t2 = Inr pr"
        using Inr valid(2) x by (simp add: prepare_arbiter_def)
      ultimately show ?thesis using prepare_existing_fits by blast
    next
      case False
      then have "?fe = Inr None" using Inr valid(2)
        by (cases ?fe) (auto simp: prepare_arbiter_def)
      then have "if kind_of_command (ar_command a) = KindDue
        then prepare_due ws dg sc (PendingRecord (ar_base a)) t1 t2 = Inr pr
        else prepare_mutation (PendingRecord (ar_base a)) (ar_command a) t1 = Inr pr"
        using Inr valid(2) by (cases "ar_command a") (auto simp: prepare_arbiter_def)
      then show ?thesis
        using prepare_due_fits [of ws dg sc a t1 t2 pr run] prepare_mutation_fits [of a t1 pr run] valid(1)
        by (auto split: if_splits)
    qed
    then show ?thesis
      using p Inr valid cong by (auto simp: after_prepare_def arbiter_ok_def)
  qed
qed

lemma next_attempt_left: "dispatch_attempt dg b v t now pg a = Inr (Inr pg') \<Longrightarrow> a \<noteq> AttemptAccepted run"
  by (auto simp: dispatch_attempt_def bind_result_eq_Inr)

lemma dispatch_fits:
  assumes "dispatch_attempt dg b v t now pg outcome = Inr (Inl tm)"
    and "v = sc_version (ar_base a)" "sc_version b = v" "same_start (ar_base a) b" "kind_of_command (ar_command a) = KindDue"
    and "\<And>run. outcome = AttemptAccepted run \<Longrightarrow> \<exists>memo. after = Some (sr_run_id run, memo)"
  shows "terminal_fits after a tm"
proof (cases outcome)
  case (AttemptAccepted run)
  then obtain r where r: "complete_scheduled_start dg b v t run now = Inr r" and
    tm: "tm = \<lparr>tm_projection = r, tm_consumed = v, tm_winner = KindDue, tm_digest = None\<rparr>"
    using assms(1) by (auto simp: dispatch_attempt_def bind_result_eq_Inr)
  from completed [OF r] assms(2-4) assms(6) [OF AttemptAccepted] show ?thesis
    by (auto simp: tm terminal_fits_def dest: same_start_trans)
next
  case AttemptRejected
  then obtain r where r: "fail_scheduled_start dg b v t DISPATCH_EXHAUSTED now = Inr r" and
    tm: "tm = \<lparr>tm_projection = r, tm_consumed = v, tm_winner = KindDue, tm_digest = None\<rparr>"
    using assms(1) by (auto simp: dispatch_attempt_def bind_result_eq_Inr split: if_splits)
  from failed_start [OF r] assms(2-5) show ?thesis by (auto simp: tm terminal_fits_def dest: same_start_trans)
qed (use assms(1) in \<open>auto simp: dispatch_attempt_def\<close>)

section \<open>The invariant is kept\<close>

definition keeps_run :: "(string \<times> json dict) option \<Rightarrow> (string \<times> json dict) option \<Rightarrow> bool" where
  "keeps_run before after \<longleftrightarrow> before = None \<or> after = before"

lemma terminal_fits_run: "keeps_run before after \<Longrightarrow> terminal_fits before a tm \<Longrightarrow> terminal_fits after a tm"
  by (auto simp: terminal_fits_def keeps_run_def split: scheduled_record.splits)

lemma arbiter_ok_run: "keeps_run before after \<Longrightarrow> arbiter_ok sc sha before r a \<Longrightarrow> arbiter_ok sc sha after r a"
  by (auto simp: arbiter_ok_def terminal_fits_run split: arbiter_phase.splits)

lemma terminal_fits_phase: "terminal_fits run (a\<lparr>ar_phase := p\<rparr>) tm = terminal_fits run a tm"
  by (simp add: terminal_fits_def cong: scheduled_record.case_cong)

lemma scheduled_pending: "state_of r = SCHEDULED \<longleftrightarrow> (\<exists>b. r = PendingRecord b)"
  by (cases r) auto

text \<open>The commit of an arbiter never conflicts; it writes the projection unless that is committed.\<close>

lemma commit_fits:
  assumes ok: "arbiter_ok sc sha run r a" and phase: "ar_phase a \<in> {ArbTerminal tm, ArbApplied tm}"
  shows "(commit_arbiter sha sc tm (Some r) = Inr None \<and> committed r tm) \<or>
    (r = PendingRecord (ar_base a) \<and> commit_arbiter sha sc tm (Some r) = Inr (Some (tm_projection tm)))"
proof -
  have fits: "terminal_fits run a tm" and r: "r = PendingRecord (ar_base a) \<or> committed r tm"
    using ok phase by (auto simp: arbiter_ok_def)
  have scope: "sc_scope_digest (base_of (tm_projection tm)) = scope_digest_of sha sc"
    using ok fits by (auto simp: arbiter_ok_def terminal_fits_def same_start_def)
  show ?thesis
  proof (cases "state_of (tm_projection tm) = SCHEDULED")
    case True
    then have "tm_winner tm = KindReschedule" using fits by (auto simp: terminal_fits_def scheduled_pending)
    then show ?thesis
      using True r scope by (auto simp: commit_arbiter_def commit_update_def Let_def committed_def)
  next
    case False
    then have "tm_consumed tm = sc_version (ar_base a)" "committed r tm \<longleftrightarrow> r = tm_projection tm"
      using fits by (auto simp: terminal_fits_def committed_def)
    then show ?thesis
      using False r scope by (auto simp: commit_arbiter_def commit_update_def Let_def version_of_def)
  qed
qed

text \<open>A commit does not disturb the arbiters of other versions.\<close>

lemma commit_other:
  assumes "arbiter_ok sc sha run (PendingRecord b) a" "sc_version (ar_base a) \<noteq> sc_version b" "sc_version b \<le> version_of p"
  shows "arbiter_ok sc sha run p a"
proof -
  have "PendingRecord b \<noteq> PendingRecord (ar_base a)" using assms(2) by auto
  then show ?thesis
    using assms(1,3) by (auto simp: arbiter_ok_def committed_def version_of_def scheduled_pending
        split: arbiter_phase.splits if_splits; metis)
qed

lemma projection_fits:
  assumes "terminal_fits run a tm"
  shows "valid_record (tm_projection tm)" "state_of (tm_projection tm) \<noteq> DISPATCHING"
    "sc_version (ar_base a) \<le> version_of (tm_projection tm)"
    "state_of (tm_projection tm) \<noteq> SCHEDULED \<Longrightarrow> version_of (tm_projection tm) = sc_version (ar_base a)"
    "state_of (tm_projection tm) = SCHEDULED \<Longrightarrow> version_of (tm_projection tm) = sc_version (ar_base a) + 1"
    "sc_scope_digest (base_of (tm_projection tm)) = sc_scope_digest (ar_base a)"
  using assms by (auto simp: terminal_fits_def version_of_def same_start_def split: scheduled_record.splits)

lemma entity_okI:
  assumes "ey_record s = Some r" "valid_record r" "state_of r \<noteq> DISPATCHING"
    "sc_scope_digest (base_of r) = scope_digest_of (ws_sha ws) sc"
    "\<And>v a. ey_arbiters s v = Some a \<Longrightarrow> sc_version (ar_base a) = v \<and> arbiter_ok sc (ws_sha ws) (ey_run s) r a"
    "state_of r \<noteq> SCHEDULED \<Longrightarrow> \<exists>a. ey_arbiters s (version_of r) = Some a"
    "\<And>b. b \<in> ey_seen s \<Longrightarrow> r = PendingRecord b \<or> ey_arbiters s (sc_version b) \<noteq> None"
    "attempted_ok s"
  shows "entity_ok ws sc s"
  using assms unfolding entity_ok_def by blast

lemma attempted_okD:
  "attempted_ok s \<Longrightarrow> v \<in> set (ey_attempts s) \<Longrightarrow> ey_arbiters s v = Some a \<Longrightarrow>
     kind_of_command (ar_command a) = KindDue \<and> ar_phase a \<noteq> ArbInitial"
  unfolding attempted_ok_def by fastforce

lemma attempted_set_phase:
  assumes "attempted_ok s" "ey_arbiters s v = Some a" "p \<noteq> ArbInitial"
    "set (ey_attempts s') \<subseteq> insert v (set (ey_attempts s))" "v \<in> set (ey_attempts s') \<Longrightarrow> kind_of_command (ar_command a) = KindDue"
    "ey_arbiters s' = ey_arbiters (set_phase_at v a p s)"
  shows "attempted_ok s'"
  unfolding attempted_ok_def
proof
  fix v'
  assume v': "v' \<in> set (ey_attempts s')"
  show "\<exists>a. ey_arbiters s' v' = Some a \<and> kind_of_command (ar_command a) = KindDue \<and> ar_phase a \<noteq> ArbInitial"
  proof (cases "v' = v")
    case True
    then show ?thesis using assms(3,5,6) v' by (simp add: set_phase_at_def)
  next
    case False
    then have "v' \<in> set (ey_attempts s)" using v' assms(4) by auto
    then show ?thesis using False assms(1,6) by (auto simp: attempted_ok_def set_phase_at_def)
  qed
qed

text \<open>An arbiter changes its phase while the record stays.\<close>

lemma set_phase_ok:
  assumes ok: "entity_ok ws sc s" and a: "ey_arbiters s v = Some a" and r: "ey_record s = Some r"
    and phase: "arbiter_ok sc (ws_sha ws) after r (a\<lparr>ar_phase := p\<rparr>)" "p \<noteq> ArbInitial"
    and run: "keeps_run (ey_run s) after"
    and attempts: "set (ey_attempts s') \<subseteq> insert v (set (ey_attempts s))"
      "v \<in> set (ey_attempts s') \<Longrightarrow> kind_of_command (ar_command a) = KindDue"
    and s': "ey_record s' = ey_record s" "ey_arbiters s' = ey_arbiters (set_phase_at v a p s)" "ey_seen s' = ey_seen s"
      "ey_run s' = after"
  shows "entity_ok ws sc s'"
proof -
  from ok r obtain
    parts: "valid_record r" "state_of r \<noteq> DISPATCHING" "sc_scope_digest (base_of r) = scope_digest_of (ws_sha ws) sc"
      "\<And>v a. ey_arbiters s v = Some a \<Longrightarrow> sc_version (ar_base a) = v \<and> arbiter_ok sc (ws_sha ws) (ey_run s) r a"
      "state_of r \<noteq> SCHEDULED \<Longrightarrow> \<exists>a. ey_arbiters s (version_of r) = Some a"
      "\<And>b. b \<in> ey_seen s \<Longrightarrow> r = PendingRecord b \<or> ey_arbiters s (sc_version b) \<noteq> None" "attempted_ok s"
    by (elim entity_okE) auto
  show ?thesis
  proof (rule entity_okI)
    show "ey_record s' = Some r" by (simp add: r s')
    show "sc_version (ar_base x) = w \<and> arbiter_ok sc (ws_sha ws) (ey_run s') r x" if "ey_arbiters s' w = Some x" for w x
      using that parts(4) [of w] parts(4) [OF a] phase arbiter_ok_run [OF run]
      by (auto simp: s' set_phase_at_def split: if_splits)
    show "\<exists>x. ey_arbiters s' (version_of r) = Some x" if "state_of r \<noteq> SCHEDULED"
      using parts(5) [OF that] by (auto simp: s' set_phase_at_def)
    show "r = PendingRecord b \<or> ey_arbiters s' (sc_version b) \<noteq> None" if "b \<in> ey_seen s'" for b
      using parts(6) [of b] that by (auto simp: s' set_phase_at_def)
    show "attempted_ok s'" by (rule attempted_set_phase [OF parts(7) a phase(2) attempts s'(2)])
  qed (fact parts)+
qed

lemma entity_okD:
  assumes "entity_ok ws sc s" "ey_record s = Some r"
  shows "valid_record r" "state_of r \<noteq> DISPATCHING" "sc_scope_digest (base_of r) = scope_digest_of (ws_sha ws) sc"
    "ey_arbiters s v = Some a \<Longrightarrow> sc_version (ar_base a) = v"
    "ey_arbiters s v = Some a \<Longrightarrow> arbiter_ok sc (ws_sha ws) (ey_run s) r a"
    "state_of r \<noteq> SCHEDULED \<Longrightarrow> \<exists>a. ey_arbiters s (version_of r) = Some a"
    "b \<in> ey_seen s \<Longrightarrow> r = PendingRecord b \<or> ey_arbiters s (sc_version b) \<noteq> None" "attempted_ok s"
  using assms by (auto elim!: entity_okE)

text \<open>The commit of an arbiter in a state that is in order: nothing changes, or its projection becomes the record.\<close>

lemma commit_ok:
  assumes ok: "entity_ok ws sc s" and a: "ey_arbiters s v = Some a" and r: "ey_record s = Some r"
    and phase: "ar_phase a \<in> {ArbTerminal tm, ArbApplied tm}" and p: "p \<in> {ar_phase a, ArbApplied tm}"
    and update: "commit_arbiter (ws_sha ws) sc tm (Some r) = Inr update"
    and s': "ey_record s' = (case update of None \<Rightarrow> ey_record s | Some x \<Rightarrow> Some x)"
      "ey_arbiters s' = ey_arbiters (set_phase_at v a p s)" "ey_seen s' = ey_seen s" "ey_run s' = ey_run s"
      "ey_attempts s' = ey_attempts s"
  shows "entity_ok ws sc s'"
proof -
  note parts = entity_okD [OF ok r]
  have fits: "terminal_fits (ey_run s) a tm" and valid: "valid_initial (ar_base a) (ar_command a)"
      "sc_scope_digest (ar_base a) = scope_digest_of (ws_sha ws) sc"
    using parts(5) [OF a] phase by (auto simp: arbiter_ok_def)
  have p0: "p \<noteq> ArbInitial" "p = ArbTerminal tm \<or> p = ArbApplied tm" using phase p by auto
  from commit_fits [OF parts(5) [OF a] phase] update
  consider "update = None" "committed r tm" | "r = PendingRecord (ar_base a)" "update = Some (tm_projection tm)" by auto
  then show ?thesis
  proof cases
    case 1
    show ?thesis
    proof (rule set_phase_ok [OF ok a r _ p0(1)])
      show "arbiter_ok sc (ws_sha ws) (ey_run s) r (a\<lparr>ar_phase := p\<rparr>)"
        using p0(2) fits valid 1 by (auto simp: arbiter_ok_def terminal_fits_phase)
      show "v \<in> set (ey_attempts s') \<Longrightarrow> kind_of_command (ar_command a) = KindDue"
        using attempted_okD [OF parts(8) _ a] s'(5) by simp
    qed (use s' 1 in \<open>auto simp: keeps_run_def\<close>)
  next
    case 2
    let ?r' = "tm_projection tm"
    note pr = projection_fits [OF fits]
    have v: "sc_version (ar_base a) = v" by (rule parts(4) [OF a])
    show ?thesis
    proof (rule entity_okI)
      show "ey_record s' = Some ?r'" using s'(1) 2 by simp
      show "valid_record ?r'" "state_of ?r' \<noteq> DISPATCHING" by (fact pr)+
      show "sc_scope_digest (base_of ?r') = scope_digest_of (ws_sha ws) sc" using pr(6) valid(2) by simp
      show "sc_version (ar_base x) = w \<and> arbiter_ok sc (ws_sha ws) (ey_run s') ?r' x" if "ey_arbiters s' w = Some x" for w x
      proof (cases "w = v")
        case True
        then have "x = a\<lparr>ar_phase := p\<rparr>" using that s'(2) by (simp add: set_phase_at_def)
        then show ?thesis
          using True v p0(2) fits valid by (auto simp: s'(4) arbiter_ok_def terminal_fits_phase committed_def)
      next
        case False
        then have x: "ey_arbiters s w = Some x" using that s'(2) by (simp add: set_phase_at_def)
        have "sc_version (ar_base x) \<noteq> sc_version (ar_base a)" using parts(4) [OF x] v False by simp
        from commit_other [OF parts(5) [OF x, unfolded 2(1)] this pr(3)] parts(4) [OF x] show ?thesis by (simp add: s'(4))
      qed
      show "\<exists>x. ey_arbiters s' (version_of ?r') = Some x" if "state_of ?r' \<noteq> SCHEDULED"
        using pr(4) [OF that] v by (simp add: s'(2) set_phase_at_def)
      show "?r' = PendingRecord b \<or> ey_arbiters s' (sc_version b) \<noteq> None" if "b \<in> ey_seen s'" for b
        using parts(7) [of b] that 2(1) v by (auto simp: s'(2,3) set_phase_at_def)
      show "attempted_ok s'"
        by (rule attempted_set_phase [OF parts(8) a p0(1) _ _ s'(2)])
          (use attempted_okD [OF parts(8) _ a] s'(5) in auto)
    qed
  qed
qed

lemma entity_step_ok:
  assumes "entity_step ws dg sc s s'" "entity_ok ws sc s"
  shows "entity_ok ws sc s'"
proof -
  obtain r where r: "ey_record s = Some r" using assms(2) by (auto elim: entity_okE)
  note parts = entity_okD [OF assms(2) r]
  from assms(1) show ?thesis
  proof cases
    case (read_record b)
    show ?thesis
    proof (rule entity_okI [of _ r])
      show "r = PendingRecord b' \<or> ey_arbiters s' (sc_version b') \<noteq> None" if "b' \<in> ey_seen s'" for b'
        using that read_record parts(7) [of b'] r by auto
    qed (use read_record parts r in \<open>auto simp: attempted_ok_def\<close>)
  next
    case (launch b cmd)
    then have b: "r = PendingRecord b" using parts(7) [of b] by auto
    have new: "arbiter_ok sc (ws_sha ws) (ey_run s) r \<lparr>ar_base = b, ar_command = cmd, ar_phase = ArbInitial\<rparr>"
      using launch(3) parts(3) by (simp add: arbiter_ok_def b)
    show ?thesis
    proof (rule entity_okI [of _ r])
      show "attempted_ok s'"
        using parts(8) launch(1,4) unfolding attempted_ok_def by (auto dest!: bspec)
    qed (use launch(1) new parts r in \<open>auto split: if_splits\<close>)
  next
    case (other_start x)
    have "keeps_run (ey_run s) (Some x)" using other_start(2) by (simp add: keeps_run_def)
    note arbs = arbiter_ok_run [OF this]
    show ?thesis
      unfolding other_start(1)
      by (rule entity_okI [of _ r]) (use parts r arbs in \<open>auto simp: attempted_ok_def\<close>)
  next
    case (prepare v a tv t1 t2 p)
    have b: "r = PendingRecord (ar_base a)" using parts(5) [OF prepare(2)] prepare(3) by (simp add: arbiter_ok_def)
    have p: "after_prepare (prepare_arbiter ws dg sc (ar_base a) (ar_command a) (Inr (PendingRecord (ar_base a)))
        (find_existing ws (sc_workflow (ar_base a)) (sc_request_id (ar_base a)) sc tv) t1 t2) = Some p"
      using prepare(5) r b by (simp add: described_record_def)
    have ok: "arbiter_ok sc (ws_sha ws) (ey_run s) r (a\<lparr>ar_phase := p\<rparr>)"
      using prepared_ok [OF _ prepare(4) p] parts(5) [OF prepare(2)] b by simp
    have "p \<noteq> ArbInitial" using p by (auto simp: after_prepare_def split: sum.splits preparation.splits if_splits)
    then show ?thesis
      using attempted_okD [OF parts(8) _ prepare(2)] prepare(1)
      by (intro set_phase_ok [OF assms(2) prepare(2) r ok]) (auto simp: keeps_run_def set_phase_at_def)
  next
    case (attempt v a b v' t target pg after tv outcome now next_phase)
    let ?p = "case next_phase of Inl tm \<Rightarrow> ArbTerminal tm | Inr pg' \<Rightarrow> ArbResolved b v' t target pg'"
    have resolved: "r = PendingRecord (ar_base a)" "kind_of_command (ar_command a) = KindDue" "v' = sc_version (ar_base a)"
        "sc_version b = v'" "same_start (ar_base a) b" "valid_initial (ar_base a) (ar_command a)"
        "sc_scope_digest (ar_base a) = scope_digest_of (ws_sha ws) sc"
      using parts(5) [OF attempt(2)] attempt(3) by (auto simp: arbiter_ok_def)
    have run: "\<exists>memo. after = Some (sr_run_id run, memo)" if "outcome = AttemptAccepted run" for run
      using attempt_dispatch_run [OF attempt(4), of ws sc b target run] attempt(5) that by auto
    have ok: "arbiter_ok sc (ws_sha ws) after r (a\<lparr>ar_phase := ?p\<rparr>)"
    proof (cases next_phase)
      case (Inl tm)
      have "terminal_fits after a tm"
        using dispatch_fits [OF attempt(6) [unfolded Inl] resolved(3,4,5,2) run] by blast
      then show ?thesis using resolved by (simp add: Inl arbiter_ok_def terminal_fits_phase)
    next
      case (Inr pg')
      then show ?thesis using resolved by (simp add: arbiter_ok_def)
    qed
    have "keeps_run (ey_run s) after" using attempt(4) unfolding truthful_def keeps_run_def by blast
    moreover have "?p \<noteq> ArbInitial" by (cases next_phase) auto
    ultimately show ?thesis
      using resolved(2) attempt(1)
      by (intro set_phase_ok [OF assms(2) attempt(2) r ok]) (auto simp: set_phase_at_def)
  next
    case (commit v a tm update p)
    then show ?thesis
      by (intro commit_ok [OF assms(2) commit(2) r commit(3) commit(5) commit(4) [unfolded r]])
        (auto simp: set_phase_at_def)
  next
    case (commit_fails v a tm e)
    then show ?thesis using commit_fits [OF parts(5) [OF commit_fails(2)], of tm] r by auto
  qed
qed

lemma reachable_entity_ok:
  assumes "(entity_step ws dg sc)\<^sup>*\<^sup>* s s'" "entity_ok ws sc s"
  shows "entity_ok ws sc s'"
  using assms by (induction rule: rtranclp_induct) (auto intro: entity_step_ok)

text \<open>The record after a step: the same, or what an arbiter of its version has decided.\<close>

lemma step_record:
  assumes "entity_step ws dg sc s s'" "entity_ok ws sc s" "ey_record s = Some r"
  obtains "ey_record s' = Some r"
  | a tm where "r = PendingRecord (ar_base a)" "ey_arbiters s (sc_version (ar_base a)) = Some a"
      "ar_phase a \<in> {ArbTerminal tm, ArbApplied tm}" "terminal_fits (ey_run s) a tm" "ey_record s' = Some (tm_projection tm)"
  using assms(1)
proof cases
  case (commit v a tm update p)
  note parts = entity_okD [OF assms(2,3)]
  have v: "sc_version (ar_base a) = v" by (rule parts(4) [OF commit(2)])
  have fits: "terminal_fits (ey_run s) a tm" using parts(5) [OF commit(2)] commit(3) by (auto simp: arbiter_ok_def)
  from commit_fits [OF parts(5) [OF commit(2)] commit(3)] commit(4) assms(3)
  consider "update = None" | "r = PendingRecord (ar_base a)" "update = Some (tm_projection tm)" by auto
  then show ?thesis
    using commit(1,2,3) v fits that assms(3) by cases (auto simp: set_phase_at_def)
qed (use assms(3) that in \<open>auto simp: set_phase_at_def\<close>)

end
