(* ===== verification/JF_Schedules.thy ===== *)
theory JF_Schedules
  imports JF_Contention
begin

text \<open>
  What the protocol of scheduled starts promises, over every interleaving of the steps of
  \<open>JF_Contention\<close>, what its dispatch decides, and where it fails: an arbiter with an early clock, a start
  that is accepted and taken for rejected, and a start created again after its clean-up.
\<close>

section \<open>Runs of the protocol\<close>

lemma step_changes:
  assumes "entity_step ws dg sc s s'" "entity_ok ws sc s" "ey_record s = Some r"
  shows "\<exists>r'. ey_record s' = Some r' \<and> same_start (base_of r) (base_of r') \<and> version_of r \<le> version_of r' \<and>
    (is_terminal r \<longrightarrow> r' = r) \<and> (version_of r' = version_of r \<longrightarrow> r' = r \<or> is_terminal r')"
  using assms
proof (rule step_record)
  fix a tm
  assume a: "r = PendingRecord (ar_base a)" "terminal_fits (ey_run s) a tm" "ey_record s' = Some (tm_projection tm)"
  note p = projection_fits [OF a(2)]
  have "same_start (ar_base a) (base_of (tm_projection tm))" using a(2) by (simp add: terminal_fits_def)
  moreover have "is_terminal (tm_projection tm)" if "version_of (tm_projection tm) = sc_version (ar_base a)"
    using p(2,5) that by (cases "tm_projection tm") (auto simp: is_terminal_def)
  ultimately show ?thesis
    using a p(3) by (intro exI [of _ "tm_projection tm"]) (auto simp: is_terminal_def version_of_def)
qed auto

lemma run_changes:
  assumes "(entity_step ws dg sc)\<^sup>*\<^sup>* s s'" "entity_ok ws sc s" "ey_record s = Some r"
  shows "\<exists>r'. ey_record s' = Some r' \<and> same_start (base_of r) (base_of r') \<and> version_of r \<le> version_of r' \<and>
    (is_terminal r \<longrightarrow> r' = r) \<and> (version_of r' = version_of r \<longrightarrow> r' = r \<or> is_terminal r')"
  using assms(1)
proof (induction rule: rtranclp_induct)
  case base
  then show ?case using assms(3) by simp
next
  case (step y z)
  then obtain ry where y: "ey_record y = Some ry" "same_start (base_of r) (base_of ry)" "version_of r \<le> version_of ry"
      "is_terminal r \<longrightarrow> ry = r" "version_of ry = version_of r \<longrightarrow> ry = r \<or> is_terminal ry" by blast
  from step_changes [OF step(2) reachable_entity_ok [OF step(1) assms(2)] y(1)]
  obtain rz where z: "ey_record z = Some rz" "same_start (base_of ry) (base_of rz)" "version_of ry \<le> version_of rz"
      "is_terminal ry \<longrightarrow> rz = ry" "version_of rz = version_of ry \<longrightarrow> rz = ry \<or> is_terminal rz" by blast
  have "same_start (base_of r) (base_of rz)" by (rule same_start_trans [OF y(2) z(2)])
  moreover have "version_of r \<le> version_of rz" using y(3) z(3) by simp
  moreover have "is_terminal r \<longrightarrow> rz = r" using y(4) z(4) by blast
  moreover have "version_of rz = version_of r \<longrightarrow> rz = r \<or> is_terminal rz"
  proof
    assume same: "version_of rz = version_of r"
    then have "version_of ry = version_of r" "version_of rz = version_of ry" using y(3) z(3) by simp_all
    then show "rz = r \<or> is_terminal rz" using y(5) z(4,5) by blast
  qed
  ultimately show ?case using z(1) by blast
qed

text \<open>The command that decided a record is in the arbiter of its version.\<close>

lemma decided_by:
  assumes "entity_ok ws sc s" "ey_record s = Some r" "state_of r \<noteq> SCHEDULED"
  shows "\<exists>a tm. ey_arbiters s (version_of r) = Some a \<and> terminal_fits (ey_run s) a tm \<and> tm_projection tm = r"
proof -
  note parts = entity_okD [OF assms(1,2)]
  obtain a where a: "ey_arbiters s (version_of r) = Some a" using parts(6) [OF assms(3)] by blast
  have "\<not> (\<exists>b. r = PendingRecord b)" using assms(3) by (simp add: scheduled_pending)
  then obtain tm where tm: "terminal_fits (ey_run s) a tm" "committed r tm"
    using parts(5) [OF a] by (auto simp: arbiter_ok_def split: arbiter_phase.splits)
  have "sc_version (ar_base a) = version_of r" by (rule parts(4) [OF a])
  then have "state_of (tm_projection tm) \<noteq> SCHEDULED" using projection_fits(5) [OF tm(1)] tm(2)
    by (auto simp: committed_def)
  with a tm show ?thesis by (auto simp: committed_def)
qed

lemma attempts_by_due:
  assumes "entity_ok ws sc s" "ey_record s = Some r" "v \<in> set (ey_attempts s)"
  shows "state_of r \<in> {SCHEDULED, STARTED, FAILED} \<and> v = version_of r"
proof -
  note parts = entity_okD [OF assms(1,2)]
  obtain a where a: "ey_arbiters s v = Some a" "kind_of_command (ar_command a) = KindDue" "ar_phase a \<noteq> ArbInitial"
    using parts(8) assms(3) unfolding attempted_ok_def by blast
  have v: "sc_version (ar_base a) = v" by (rule parts(4) [OF a(1)])
  have "state_of (tm_projection tm) \<in> {STARTED, FAILED}" if "terminal_fits (ey_run s) a tm" for tm
    using that a(2) by (auto simp: terminal_fits_def split: scheduled_record.splits)
  moreover have "version_of (tm_projection tm) = v" if "terminal_fits (ey_run s) a tm" "state_of (tm_projection tm) \<noteq> SCHEDULED" for tm
    using projection_fits(4) [OF that] v by simp
  ultimately show ?thesis
    using parts(5) [OF a(1)] a(3) v
    by (fastforce simp: arbiter_ok_def committed_def version_of_def split: arbiter_phase.splits if_splits)
qed

section \<open>Dispatch as a whole\<close>

text \<open>The attempts of an arbiter over its rounds, with the time at which each has its outcome.\<close>

fun dispatch_all ::
    "(json list \<Rightarrow> string) \<Rightarrow> scheduled_base \<Rightarrow> int \<Rightarrow> int \<Rightarrow> dispatch_progress \<Rightarrow> (int \<times> attempt_result) list \<Rightarrow>
     scheduled_error + (terminal_input + dispatch_progress)" where
  "dispatch_all dg b v t pg [] = Inr (Inr pg)"
| "dispatch_all dg b v t pg ((now, a) # rest) =
     bind_result (dispatch_attempt dg b v t now pg a) (\<lambda>next_phase.
       (case next_phase of Inl tm \<Rightarrow> Inr (Inl tm) | Inr pg' \<Rightarrow> dispatch_all dg b v t pg' rest))"

fun dispatch_state :: "scheduled_error + (terminal_input + dispatch_progress) \<Rightarrow> scheduled_start_state option" where
  "dispatch_state (Inr (Inl tm)) = Some (state_of (tm_projection tm))"
| "dispatch_state _ = None"

lemma next_attempt_fields [simp]:
  "pg_saw_ambiguous (next_attempt b saw n left) = saw" "pg_rejections (next_attempt b saw n left) = n"
  by (simp_all add: next_attempt_def new_round_def)

lemma dispatch_attempt_cases:
  assumes "is_ok (dispatch_attempt dg b v t now pg a)"
  shows "case a of
      AttemptAccepted run \<Rightarrow> \<exists>tm. dispatch_attempt dg b v t now pg a = Inr (Inl tm) \<and> state_of (tm_projection tm) = STARTED
    | AttemptAmbiguous \<Rightarrow> \<exists>pg'. dispatch_attempt dg b v t now pg a = Inr (Inr pg') \<and> pg_saw_ambiguous pg' \<and>
        pg_rejections pg' = pg_rejections pg
    | AttemptRejected \<Rightarrow>
        if \<not> pg_saw_ambiguous pg \<and> nat (sc_attempts b) \<le> Suc (pg_rejections pg)
        then \<exists>tm. dispatch_attempt dg b v t now pg a = Inr (Inl tm) \<and> state_of (tm_projection tm) = FAILED
        else \<exists>pg'. dispatch_attempt dg b v t now pg a = Inr (Inr pg') \<and> pg_saw_ambiguous pg' = pg_saw_ambiguous pg \<and>
          pg_rejections pg' = Suc (pg_rejections pg)"
proof (cases a)
  case (AttemptAccepted run)
  then obtain r where "complete_scheduled_start dg b v t run now = Inr r"
      "valid_terminal \<lparr>tm_projection = r, tm_consumed = v, tm_winner = KindDue, tm_digest = None\<rparr>"
    using assms by (auto simp: dispatch_attempt_def is_ok_iff bind_result_eq_Inr)
  then show ?thesis
    using completed [of dg b v t run now r] AttemptAccepted
    by (auto simp: dispatch_attempt_def terminal_of_def Let_def)
next
  case AttemptRejected
  have eq: "sc_attempts b \<le> int (Suc (pg_rejections pg)) \<longleftrightarrow> nat (sc_attempts b) \<le> Suc (pg_rejections pg)" by linarith
  show ?thesis
  proof (cases "\<not> pg_saw_ambiguous pg \<and> nat (sc_attempts b) \<le> Suc (pg_rejections pg)")
    case True
    then obtain r where "fail_scheduled_start dg b v t DISPATCH_EXHAUSTED now = Inr r"
        "valid_terminal \<lparr>tm_projection = r, tm_consumed = v, tm_winner = KindDue, tm_digest = None\<rparr>"
      using assms AttemptRejected eq by (auto simp: dispatch_attempt_def is_ok_iff bind_result_eq_Inr)
    then show ?thesis
      using failed_start [of dg b v t DISPATCH_EXHAUSTED now r] AttemptRejected True eq
      by (auto simp: dispatch_attempt_def terminal_of_def Let_def)
  next
    case False
    then show ?thesis using AttemptRejected eq by (auto simp: dispatch_attempt_def)
  qed
qed (simp add: dispatch_attempt_def)

lemma dispatch_all_state:
  assumes "\<forall>now a pg. (now, a) \<in> set outs \<longrightarrow> is_ok (dispatch_attempt dg b v t now pg a)"
    and "pg_saw_ambiguous pg \<or> pg_rejections pg < nat (sc_attempts b)"
  shows "dispatch_state (dispatch_all dg b v t pg outs) =
    (let n = nat (sc_attempts b) - pg_rejections pg
     in if \<not> pg_saw_ambiguous pg \<and> n \<le> length outs \<and> (\<forall>k < n. snd (outs ! k) = AttemptRejected) then Some FAILED
        else if \<exists>out \<in> set outs. \<exists>run. snd out = AttemptAccepted run then Some STARTED else None)"
  using assms
proof (induction outs arbitrary: pg)
  case Nil
  then show ?case by (auto simp: Let_def)
next
  case (Cons out outs)
  obtain now a where out: "out = (now, a)" by (cases out)
  let ?n = "nat (sc_attempts b) - pg_rejections pg"
  have ok: "is_ok (dispatch_attempt dg b v t now pg a)" using Cons.prems(1) out by auto
  have ih: "pg_saw_ambiguous pg' \<or> pg_rejections pg' < nat (sc_attempts b) \<Longrightarrow>
      dispatch_state (dispatch_all dg b v t pg' outs) =
      (let n = nat (sc_attempts b) - pg_rejections pg'
       in if \<not> pg_saw_ambiguous pg' \<and> n \<le> length outs \<and> (\<forall>k < n. snd (outs ! k) = AttemptRejected) then Some FAILED
          else if \<exists>out \<in> set outs. \<exists>run. snd out = AttemptAccepted run then Some STARTED else None)" for pg'
    using Cons.IH [of pg'] Cons.prems(1) by auto
  have first: "(\<forall>k < ?n. snd ((out # outs) ! k) = AttemptRejected) \<longleftrightarrow>
      a = AttemptRejected \<and> (\<forall>k < ?n - 1. snd (outs ! k) = AttemptRejected)" if "0 < ?n"
    using that out by (cases ?n) (auto simp: nth_Cons split: nat.splits)
  show ?case
  proof (cases a)
    case (AttemptAccepted run)
    then obtain tm where "dispatch_attempt dg b v t now pg a = Inr (Inl tm)" "state_of (tm_projection tm) = STARTED"
      using dispatch_attempt_cases [OF ok] by auto
    then show ?thesis using AttemptAccepted Cons.prems(2) first out by (auto simp: Let_def)
  next
    case AttemptAmbiguous
    then obtain pg' where "dispatch_attempt dg b v t now pg a = Inr (Inr pg')" "pg_saw_ambiguous pg'"
      using dispatch_attempt_cases [OF ok] by auto
    then show ?thesis using AttemptAmbiguous Cons.prems(2) first out ih [of pg'] by (auto simp: Let_def)
  next
    case AttemptRejected
    show ?thesis
    proof (cases "\<not> pg_saw_ambiguous pg \<and> nat (sc_attempts b) \<le> Suc (pg_rejections pg)")
      case True
      then obtain tm where "dispatch_attempt dg b v t now pg a = Inr (Inl tm)" "state_of (tm_projection tm) = FAILED"
        using dispatch_attempt_cases [OF ok] AttemptRejected by auto
      moreover have "?n = 1" using True Cons.prems(2) by auto
      ultimately show ?thesis using AttemptRejected True out by (auto simp: Let_def)
    next
      case False
      then obtain pg' where pg': "dispatch_attempt dg b v t now pg a = Inr (Inr pg')"
          "pg_saw_ambiguous pg' = pg_saw_ambiguous pg" "pg_rejections pg' = Suc (pg_rejections pg)"
        using dispatch_attempt_cases [OF ok] AttemptRejected by auto
      have "pg_saw_ambiguous pg' \<or> pg_rejections pg' < nat (sc_attempts b)" using False pg' by auto
      from ih [OF this] show ?thesis using AttemptRejected False pg' first out Cons.prems(2) by (auto simp: Let_def)
    qed
  qed
qed

lemma dispatch_attempt_ok:
  assumes "valid_base b" "sc_version b = v" "whole_second now" "sc_accepted_at b \<le> now" "\<forall>x. is_start_digest (dg x)"
    and "\<And>run. a = AttemptAccepted run \<Longrightarrow> valid_run run"
  shows "is_ok (dispatch_attempt dg b v t now pg a)"
proof -
  have base: "valid_base (b\<lparr>sc_updated_at := now, sc_mutation := m, sc_mutation_digest := dg x\<rparr>)" for m x
    using assms(1,3,4,5) by (simp add: valid_base_def)
  have "1 \<le> v" using assms(1,2) by (simp add: valid_base_def)
  then show ?thesis
    using base assms(2,6)
    by (auto simp: dispatch_attempt_def complete_scheduled_start_def fail_scheduled_start_def validated_def terminal_of_def
        valid_terminal_def projection_kinds_def version_of_def Let_def split: attempt_result.split)
qed

section \<open>A broken arbiter\<close>

text \<open>An arbiter whose preparation has failed for good keeps the record as it is, and no start is attempted.\<close>

lemma broken_step:
  assumes "entity_step ws dg sc s s'" "entity_ok ws sc s" "ey_arbiters s v = Some a" "ar_phase a = ArbBroken"
  shows "ey_arbiters s' v = Some a \<and> ey_attempts s' = ey_attempts s"
proof -
  obtain r where r: "ey_record s = Some r" using assms(2) by (auto elim: entity_okE)
  note parts = entity_okD [OF assms(2) r]
  have a: "r = PendingRecord (ar_base a)" "sc_version (ar_base a) = v"
    using parts(4,5) [OF assms(3)] assms(4) by (auto simp: arbiter_ok_def)
  show ?thesis
    using assms(1)
  proof cases
    case (attempt w x)
    then have "r = PendingRecord (ar_base x)" "sc_version (ar_base x) = w"
      using parts(4,5) [OF attempt(2)] by (auto simp: arbiter_ok_def)
    then show ?thesis using a attempt(2,3) assms(3,4) by simp
  qed (use assms(3,4) in \<open>auto simp: set_phase_at_def\<close>)
qed

lemma broken_stays:
  assumes "(entity_step ws dg sc)\<^sup>*\<^sup>* s s'" "entity_ok ws sc s" "ey_arbiters s v = Some a" "ar_phase a = ArbBroken"
  shows "ey_arbiters s' v = Some a \<and> ey_attempts s' = ey_attempts s \<and> ey_record s' = Some (PendingRecord (ar_base a))"
proof -
  have ok: "entity_ok ws sc s'" by (rule reachable_entity_ok [OF assms(1,2)])
  have "ey_arbiters s' v = Some a \<and> ey_attempts s' = ey_attempts s"
    using assms(1)
  proof (induction rule: rtranclp_induct)
    case (step y z)
    then show ?case
      using broken_step [OF step(2) reachable_entity_ok [OF step(1) assms(2)] _ assms(4)] by auto
  qed (use assms(3) in simp)
  moreover obtain r where r: "ey_record s' = Some r" using ok by (auto elim: entity_okE)
  ultimately show ?thesis using entity_okD(5) [OF ok r, of v a] assms(4) by (simp add: arbiter_ok_def)
qed

lemma early_clock_breaks:
  assumes "t1 < sc_accepted_at b" "sc_scope_digest b = scope_digest_of (ws_sha ws) sc" "valid_initial b cmd"
  shows "after_prepare (prepare_arbiter ws dg sc b cmd (Inr (PendingRecord b)) (Inr None) t1 t2) = Some ArbBroken"
proof -
  have "reschedule_scheduled_start (PendingRecord b) start_at (sc_version b) digest t1 = Inl RecordInvalid" for start_at digest
    using assms(1) by (simp add: reschedule_scheduled_start_def validated_def valid_base_def)
  then show ?thesis
    using assms claim_before_acceptance [OF assms(1)] cancel_before_acceptance [OF assms(1)]
    by (cases cmd) (simp_all add: prepare_arbiter_def prepare_due_def prepare_mutation_def after_prepare_def version_of_def)
qed

text \<open>Temporal still runs such an arbiter, so a due start is described as dispatching.\<close>

lemma broken_described:
  assumes "ar_phase a = ArbBroken" "kind_of_command (ar_command a) = KindDue" "valid_base b" "\<forall>x. is_start_digest (dg x)"
  shows "\<exists>d. authoritative_description dg b (Some a) started = Inr d \<and> sd_state d = DISPATCHING"
proof -
  let ?t = "max (sc_updated_at b) (started - started mod 1000000)"
  have "whole_second (started - started mod 1000000)" by (simp add: whole_second_def mod_diff_eq mod_diff_right_eq)
  then have "whole_second ?t" "sc_accepted_at b \<le> ?t" using assms(3) by (auto simp: valid_base_def max_def)
  then have "valid_base (b\<lparr>sc_updated_at := ?t, sc_mutation := MutDispatch,
      sc_mutation_digest := dg [JStr ''dispatch'', JStr (sc_id b), JInt (sc_version b)]\<rparr>)" "1 \<le> sc_version b"
    using assms(3,4) by (simp_all add: valid_base_def)
  then show ?thesis
    using assms(1,2) by (simp add: authoritative_description_def claim_scheduled_start_def validated_def
        describe_scheduled_start_def Let_def)
qed

end
