(* ===== verification/JF_Outcomes.thy ===== *)
theory JF_Outcomes
  imports JF_Schedules
begin

text \<open>
  The properties of scheduled starts, over every interleaving of the steps of \<open>JF_Contention\<close>, with a
  start that is created, canceled and dispatched as the concrete case.
\<close>

section \<open>An example\<close>

definition demo_digest :: string where
  "demo_digest = replicate 64 (CHR ''0'')"

definition demo_starter :: starter where
  "demo_starter = \<lparr>ws_resolve = (\<lambda>_ _. None), ws_collection_items = 10, ws_trigger_bytes = 1000,
     ws_bytes = (\<lambda>_. Some 1), ws_contract = (\<lambda>_ _. ContractHolds), ws_sha = (\<lambda>_. demo_digest),
     ws_float_text = (\<lambda>_. ''0''), ws_pinned_attempts = 1, ws_task_queue = ''q''\<rparr>"

abbreviation demo_dg :: "json list \<Rightarrow> string" where
  "demo_dg \<equiv> \<lambda>_. demo_digest"

definition demo_base :: scheduled_base where
  "demo_base = \<lparr>sc_id = ''start-1'', sc_scope_digest = demo_digest, sc_workflow = ''order'', sc_input = [],
     sc_request_id = ''r-1'', sc_start_at = 5000000, sc_workload = Standard, sc_trigger = ''api'',
     sc_create_digest = demo_digest, sc_version = 1, sc_accepted_at = 2000000, sc_updated_at = 2000000,
     sc_mutation = MutCreate, sc_mutation_digest = demo_digest, sc_timeout_seconds = 30, sc_attempts = 2\<rparr>"

definition demo_artifact :: worker_artifact where
  "demo_artifact = \<lparr>wa_deployment_name = ''d'', wa_build_id = ''b'', wa_artifact_digest = LOCAL_ARTIFACT_DIGEST,
     wa_package_version = ''1'', wa_source_revision = None\<rparr>"

definition demo_run :: scheduled_run where
  "demo_run = \<lparr>sr_workflow_id = ''w'', sr_run_id = ''run'', sr_definition_digest = demo_digest,
     sr_artifact = demo_artifact, sr_environment_digest = demo_digest, sr_configuration = None\<rparr>"

lemma demo_digest_ok: "is_start_digest demo_digest" "is_sha256_hex demo_digest" "is_digest demo_digest"
  by code_simp+

lemma demo_base_ok: "valid_base demo_base" "sc_scope_digest demo_base = scope_digest_of (ws_sha demo_starter) sc"
  by (code_simp, simp add: demo_base_def scope_digest_of_def demo_starter_def)

lemma demo_run_ok: "valid_run demo_run"
  by (code_simp, simp)

text \<open>The times and phases of an arbiter of the example.\<close>

definition demo_tv :: "describe_reply \<Rightarrow> temporal_view" where
  "demo_tv d = \<lparr>tv_start = (\<lambda>_. StartOtherError), tv_describe = (\<lambda>_ _. d)\<rparr>"

lemma demo_find:
  "find_existing demo_starter ''order'' ''r-1'' LOCAL_RUNTIME_SCOPE (demo_tv (DescribeRpcError RpcNotFoundStatus)) = Inr None"
  by code_simp


text \<open>The start is canceled: the arbiter of its only version prepares the record and commits it.\<close>

definition demo_canceled_base :: scheduled_base where
  "demo_canceled_base = demo_base\<lparr>sc_updated_at := 3000000, sc_mutation := MutCancel, sc_mutation_digest := demo_digest\<rparr>"

definition demo_cancel :: terminal_input where
  "demo_cancel = \<lparr>tm_projection = CanceledRecord demo_canceled_base 3000000, tm_consumed = 1, tm_winner = KindCancel,
     tm_digest = Some demo_digest\<rparr>"

definition demo_command :: arbiter_command where
  "demo_command = CancelCommand 1 demo_digest"

definition launched :: "scheduled_base \<Rightarrow> arbiter_command \<Rightarrow> (string \<times> json dict) option \<Rightarrow> entity" where
  "launched b cmd run = \<lparr>ey_record = Some (PendingRecord b),
     ey_arbiters = [sc_version b \<mapsto> \<lparr>ar_base = b, ar_command = cmd, ar_phase = ArbInitial\<rparr>],
     ey_seen = {b}, ey_run = run, ey_attempts = []\<rparr>"

abbreviation demo_launched :: "arbiter_command \<Rightarrow> (string \<times> json dict) option \<Rightarrow> entity" where
  "demo_launched \<equiv> launched demo_base"

definition demo_canceled :: entity where
  "demo_canceled = \<lparr>ey_record = Some (CanceledRecord demo_canceled_base 3000000),
     ey_arbiters = [1 \<mapsto> \<lparr>ar_base = demo_base, ar_command = demo_command, ar_phase = ArbApplied demo_cancel\<rparr>],
     ey_seen = {demo_base}, ey_run = None, ey_attempts = []\<rparr>"

abbreviation demo_steps :: "entity \<Rightarrow> entity \<Rightarrow> bool" where
  "demo_steps \<equiv> (entity_step demo_starter demo_dg LOCAL_RUNTIME_SCOPE)\<^sup>*\<^sup>*"

lemma launch_new:
  assumes "valid_initial b cmd"
  shows "(entity_step ws dg sc)\<^sup>*\<^sup>* (new_entity b run) (launched b cmd run)"
proof -
  let ?s = "(new_entity b run)\<lparr>ey_seen := {b}\<rparr>"
  have "entity_step ws dg sc (new_entity b run) ?s"
    using entity_step.read_record [of "new_entity b run" b] by (simp add: new_entity_def)
  moreover have "entity_step ws dg sc ?s (launched b cmd run)"
    using entity_step.launch [of b ?s cmd ws dg sc] assms by (simp add: new_entity_def launched_def)
  ultimately show ?thesis by (meson converse_rtranclp_into_rtranclp rtranclp.rtrancl_refl)
qed

lemmas demo_launch = launch_new [of demo_base _ demo_starter demo_dg LOCAL_RUNTIME_SCOPE]

lemma demo_not_found: "truthful run run (demo_tv (DescribeRpcError RpcNotFoundStatus))"
  by (simp add: truthful_def demo_tv_def)

lemma demo_base_fields [simp]:
  "sc_version demo_base = 1" "sc_workflow demo_base = ''order''" "sc_request_id demo_base = ''r-1''"
  "sc_accepted_at demo_base = 2000000" "sc_start_at demo_base = 5000000" "sc_attempts demo_base = 2"
  by (simp_all add: demo_base_def)

lemma demo_prepare_cancel:
  "after_prepare (prepare_arbiter demo_starter demo_dg LOCAL_RUNTIME_SCOPE demo_base demo_command
     (Inr (PendingRecord demo_base)) (Inr None) 3000000 3000000) = Some (ArbTerminal demo_cancel)"
proof -
  have "valid_base demo_canceled_base" by code_simp
  then show ?thesis
    using demo_base_ok(2) [of LOCAL_RUNTIME_SCOPE]
    by (simp add: prepare_arbiter_def prepare_mutation_def demo_command_def cancel_scheduled_start_def
        demo_canceled_base_def [symmetric] validated_def terminal_of_def after_prepare_def demo_cancel_def
        valid_terminal_def projection_kinds_def version_of_def Let_def)
      (simp add: demo_canceled_base_def)
qed

lemma demo_commit_cancel:
  "commit_arbiter (ws_sha demo_starter) LOCAL_RUNTIME_SCOPE demo_cancel (Some (PendingRecord demo_base)) =
     Inr (Some (CanceledRecord demo_canceled_base 3000000))"
  using demo_base_ok(2) [of LOCAL_RUNTIME_SCOPE]
  by (simp add: commit_arbiter_def demo_cancel_def commit_update_def demo_canceled_base_def version_of_def Let_def)

lemma demo_cancels: "demo_steps (new_entity demo_base None) demo_canceled"
proof -
  let ?s = "demo_launched demo_command None" and ?a = "\<lparr>ar_base = demo_base, ar_command = demo_command, ar_phase = ArbInitial\<rparr>"
  let ?t = "set_phase_at 1 ?a (ArbTerminal demo_cancel) ?s" and ?b = "?a\<lparr>ar_phase := ArbTerminal demo_cancel\<rparr>"
  have valid: "valid_initial demo_base demo_command" by (simp add: demo_command_def demo_digest_ok)
  have "entity_step demo_starter demo_dg LOCAL_RUNTIME_SCOPE ?s ?t"
    by (rule entity_step.prepare [where tv = "demo_tv (DescribeRpcError RpcNotFoundStatus)" and ?t1.0 = 3000000 and ?t2.0 = 3000000])
      (simp_all add: launched_def demo_not_found described_record_def demo_find demo_prepare_cancel)
  moreover have "entity_step demo_starter demo_dg LOCAL_RUNTIME_SCOPE ?t demo_canceled"
    using entity_step.commit [of ?t 1 ?b demo_cancel demo_starter LOCAL_RUNTIME_SCOPE
        "Some (CanceledRecord demo_canceled_base 3000000)" "ArbApplied demo_cancel" demo_dg] demo_commit_cancel
    by (simp add: launched_def set_phase_at_def demo_canceled_def)
  ultimately show ?thesis using demo_launch [OF valid, of None] by (meson rtranclp.rtrancl_into_rtrancl)
qed


text \<open>The start meets a run of its workflow: the arbiter of the due command completes it with that run.\<close>

definition demo_memo :: "json dict" where
  "demo_memo = [(''justflow.logical_workflow'', JStr ''order''), (''justflow.definition_digest'', JStr demo_digest),
     (''justflow.scope_digest'', JStr demo_digest), (''justflow.trigger_name'', JStr ''api''),
     (''justflow.source_identity_digest'', JStr demo_digest), (''justflow.worker_deployment'', JStr ''d''),
     (''justflow.worker_build_id'', JStr ''b''), (''justflow.worker_artifact_digest'', JStr LOCAL_ARTIFACT_DIGEST),
     (''justflow.worker_package_version'', JStr ''1''), (''justflow.environment_snapshot_digest'', JStr demo_digest)]"

definition demo_result :: start_result where
  "demo_result = \<lparr>sw_workflow_id = identity_prefix ''workflow'' demo_digest @ demo_digest, sw_run_id = ''run'',
     sw_workflow = ''order'', sw_definition_digest = demo_digest, sw_artifact = demo_artifact,
     sw_environment_digest = demo_digest, sw_configuration = None, sw_trigger = ''api'', sw_source_digest = demo_digest,
     sw_scope_digest = demo_digest, sw_status = RunDuplicate\<rparr>"

definition demo_started_base :: scheduled_base where
  "demo_started_base = demo_base\<lparr>sc_updated_at := 6000000, sc_mutation := MutStart, sc_mutation_digest := demo_digest\<rparr>"

definition demo_started :: scheduled_record where
  "demo_started = StartedRecord demo_started_base 1 5000000 6000000 (run_of_result demo_result)"

definition demo_completion :: terminal_input where
  "demo_completion = \<lparr>tm_projection = demo_started, tm_consumed = 1, tm_winner = KindDue, tm_digest = None\<rparr>"

definition demo_done :: entity where
  "demo_done = \<lparr>ey_record = Some demo_started,
     ey_arbiters = [1 \<mapsto> \<lparr>ar_base = demo_base, ar_command = DueCommand 5000000, ar_phase = ArbApplied demo_completion\<rparr>],
     ey_seen = {demo_base}, ey_run = Some (''run'', demo_memo), ey_attempts = []\<rparr>"

lemma demo_found:
  "find_existing demo_starter ''order'' ''r-1'' LOCAL_RUNTIME_SCOPE (demo_tv (Described demo_memo ''run'')) = Inr (Some demo_result)"
  by (code_simp, simp add: scope_digest_of_def)

lemma demo_described: "truthful (Some (''run'', demo_memo)) (Some (''run'', demo_memo)) (demo_tv (Described demo_memo ''run''))"
  by (simp add: truthful_def demo_tv_def)

lemma demo_valid_run: "valid_run (run_of_result demo_result)"
  by (code_simp, simp)

lemma demo_prepare_due:
  "after_prepare (prepare_arbiter demo_starter demo_dg LOCAL_RUNTIME_SCOPE demo_base (DueCommand 5000000)
     (Inr (PendingRecord demo_base)) (Inr (Some demo_result)) 5000000 6000000) = Some (ArbTerminal demo_completion)"
proof -
  let ?c = "demo_base\<lparr>sc_updated_at := 5000000, sc_mutation := MutDispatch, sc_mutation_digest := demo_digest\<rparr>"
  have valid: "valid_base ?c" "valid_base demo_started_base" by code_simp+
  have claim: "claim_scheduled_start demo_dg (PendingRecord demo_base) 1 5000000 = Inr (Some (DispatchingRecord ?c 1 5000000))"
    using valid(1) by (simp add: claim_scheduled_start_def)
  have base: "?c\<lparr>sc_updated_at := 6000000, sc_mutation := MutStart, sc_mutation_digest := demo_digest\<rparr> = demo_started_base"
    by (simp add: demo_started_base_def)
  then have complete: "complete_scheduled_start demo_dg ?c 1 5000000 (run_of_result demo_result) 6000000 = Inr demo_started"
    using valid(2) demo_valid_run by (simp add: complete_scheduled_start_def demo_started_def)
  have "valid_terminal demo_completion"
    by (simp add: demo_completion_def demo_started_def demo_started_base_def valid_terminal_def projection_kinds_def version_of_def)
  then show ?thesis
    using demo_base_ok(2) [of LOCAL_RUNTIME_SCOPE] claim complete
    by (simp add: prepare_arbiter_def prepare_existing_def version_of_def terminal_of_def after_prepare_def
        demo_completion_def [symmetric] Let_def)
qed

lemma demo_starts: "demo_steps (new_entity demo_base (Some (''run'', demo_memo))) demo_done"
proof -
  let ?run = "Some (''run'', demo_memo)"
  let ?s = "demo_launched (DueCommand 5000000) ?run"
  let ?a = "\<lparr>ar_base = demo_base, ar_command = DueCommand 5000000, ar_phase = ArbInitial\<rparr>"
  let ?t = "set_phase_at 1 ?a (ArbTerminal demo_completion) ?s" and ?b = "?a\<lparr>ar_phase := ArbTerminal demo_completion\<rparr>"
  have valid: "valid_initial demo_base (DueCommand 5000000)" by simp
  have commit: "commit_arbiter (ws_sha demo_starter) LOCAL_RUNTIME_SCOPE demo_completion (Some (PendingRecord demo_base)) =
      Inr (Some demo_started)"
    using demo_base_ok(2) [of LOCAL_RUNTIME_SCOPE]
    by (simp add: commit_arbiter_def demo_completion_def commit_update_def demo_started_def demo_started_base_def version_of_def Let_def)
  have "entity_step demo_starter demo_dg LOCAL_RUNTIME_SCOPE ?s ?t"
    by (rule entity_step.prepare [where tv = "demo_tv (Described demo_memo ''run'')" and ?t1.0 = 5000000 and ?t2.0 = 6000000])
      (simp_all add: launched_def demo_described described_record_def demo_found demo_prepare_due)
  moreover have "entity_step demo_starter demo_dg LOCAL_RUNTIME_SCOPE ?t demo_done"
    using entity_step.commit [of ?t 1 ?b demo_completion demo_starter LOCAL_RUNTIME_SCOPE
        "Some demo_started" "ArbApplied demo_completion" demo_dg] commit
    by (simp add: launched_def set_phase_at_def demo_done_def)
  ultimately show ?thesis using demo_launch [OF valid, of ?run] by (meson rtranclp.rtrancl_into_rtrancl)
qed

section \<open>What a scheduled start promises\<close>

text \<open>
  C15. A scheduled start keeps its identity under every interleaving of requests, due workflows, arbiters and
  other starts: its record stays the same start, its version never falls, a record that is started, canceled
  or failed never changes again, and a record of the same version has changed at most once, to such a one.
\<close>

theorem decided_starts_stay:
  assumes "(entity_step ws dg sc)\<^sup>*\<^sup>* (new_entity b run) s" "(entity_step ws dg sc)\<^sup>*\<^sup>* s s'"
    and "valid_base b" "sc_scope_digest b = scope_digest_of (ws_sha ws) sc"
  shows "\<exists>r r'. ey_record s = Some r \<and> ey_record s' = Some r' \<and> same_start b (base_of r) \<and>
    same_start b (base_of r') \<and> version_of r \<le> version_of r' \<and> (is_terminal r \<longrightarrow> r' = r) \<and>
    (version_of r' = version_of r \<longrightarrow> r' = r \<or> is_terminal r')"
proof -
  have ok: "entity_ok ws sc (new_entity b run)" by (rule new_entity_ok [OF assms(3,4)])
  have "ey_record (new_entity b run) = Some (PendingRecord b)" by (simp add: new_entity_def)
  from run_changes [OF assms(1) ok this] obtain r where r: "ey_record s = Some r" "same_start b (base_of r)" by auto
  from run_changes [OF assms(2) reachable_entity_ok [OF assms(1) ok] r(1)] show ?thesis
    using r same_start_trans by blast
qed

theorem decided_starts_stay_witness:
  "\<exists>r. ey_record demo_canceled = Some r \<and> same_start demo_base (base_of r) \<and> is_terminal r"
  using decided_starts_stay [OF demo_cancels rtranclp.rtrancl_refl demo_base_ok]
  by (auto simp: demo_canceled_def is_terminal_def)

text \<open>
  C16. A cancellation that is on record is final and was decided before any attempt to start the workflow: no
  start has been attempted and none will be, and the arbiter of that version ran the cancel command whose
  digest the record bears.
\<close>

theorem canceled_never_dispatched:
  assumes "(entity_step ws dg sc)\<^sup>*\<^sup>* (new_entity b run) s" "ey_record s = Some (CanceledRecord c t)"
    and "(entity_step ws dg sc)\<^sup>*\<^sup>* s s'" "valid_base b" "sc_scope_digest b = scope_digest_of (ws_sha ws) sc"
  shows "ey_attempts s' = [] \<and> ey_record s' = Some (CanceledRecord c t) \<and>
    (\<exists>a. ey_arbiters s' (sc_version c) = Some a \<and> ar_command a = CancelCommand (sc_version c) (sc_mutation_digest c))"
proof -
  have ok: "entity_ok ws sc s" by (rule reachable_entity_ok [OF assms(1) new_entity_ok [OF assms(4,5)]])
  have ok': "entity_ok ws sc s'" by (rule reachable_entity_ok [OF assms(3) ok])
  have s': "ey_record s' = Some (CanceledRecord c t)"
    using run_changes [OF assms(3) ok assms(2)] by (auto simp: is_terminal_def)
  have "ey_attempts s' = []" using attempts_by_due [OF ok' s'] by (cases "ey_attempts s'") auto
  moreover obtain a tm where "ey_arbiters s' (sc_version c) = Some a" "terminal_fits (ey_run s') a tm"
      "tm_projection tm = CanceledRecord c t"
    using decided_by [OF ok' s'] by (auto simp: version_of_def)
  ultimately show ?thesis using s' by (auto simp: terminal_fits_def)
qed

theorem canceled_never_dispatched_witness:
  "ey_attempts demo_canceled = [] \<and> (\<exists>a. ey_arbiters demo_canceled 1 = Some a \<and> ar_command a = CancelCommand 1 demo_digest)"
  using canceled_never_dispatched [OF demo_cancels _ rtranclp.rtrancl_refl demo_base_ok, of demo_canceled_base 3000000]
  by (auto simp: demo_canceled_def demo_canceled_base_def demo_base_def)

text \<open>
  C17. A record that is started names the run of its workflow that Temporal has, whoever started it.
\<close>

theorem started_has_run:
  assumes "(entity_step ws dg sc)\<^sup>*\<^sup>* (new_entity b run) s" "ey_record s = Some (StartedRecord c v t e x)"
    and "valid_base b" "sc_scope_digest b = scope_digest_of (ws_sha ws) sc"
  shows "\<exists>memo. ey_run s = Some (sr_run_id x, memo)"
proof -
  have ok: "entity_ok ws sc s" by (rule reachable_entity_ok [OF assms(1) new_entity_ok [OF assms(3,4)]])
  obtain a tm where "terminal_fits (ey_run s) a tm" "tm_projection tm = StartedRecord c v t e x"
    using decided_by [OF ok assms(2)] by auto
  then show ?thesis by (auto simp: terminal_fits_def)
qed

theorem started_has_run_witness: "\<exists>memo. ey_run demo_done = Some (''run'', memo)"
  using started_has_run [OF demo_starts _ demo_base_ok, of demo_started_base 1 5000000 6000000 "run_of_result demo_result"]
  by (simp add: demo_done_def demo_started_def run_of_result_def demo_result_def)

text \<open>
  No arbiter finds its work undone by another: none is stale, and to commit the decision of an arbiter
  never conflicts; it writes the decision, or finds it written.
\<close>

theorem commits_never_conflict:
  assumes "(entity_step ws dg sc)\<^sup>*\<^sup>* (new_entity b run) s" "ey_arbiters s v = Some a" "ey_record s = Some r"
    and "valid_base b" "sc_scope_digest b = scope_digest_of (ws_sha ws) sc"
  shows "case ar_phase a of
      ArbTerminal tm \<Rightarrow> commit_arbiter (ws_sha ws) sc tm (Some r) = Inr (if committed r tm then None else Some (tm_projection tm))
    | ArbApplied tm \<Rightarrow> commit_arbiter (ws_sha ws) sc tm (Some r) = Inr None
    | ArbStale d \<Rightarrow> False
    | _ \<Rightarrow> r = PendingRecord (ar_base a)"
proof -
  have "entity_ok ws sc s" by (rule reachable_entity_ok [OF assms(1) new_entity_ok [OF assms(4,5)]])
  from entity_okD(5) [OF this assms(3,2)] have ok: "arbiter_ok sc (ws_sha ws) (ey_run s) r a" .
  have no: "\<not> committed (PendingRecord (ar_base a)) tm" if "terminal_fits (ey_run s) a tm" for tm
    using projection_fits(5) [OF that] by (cases "tm_projection tm") (auto simp: committed_def version_of_def)
  show ?thesis
    using ok commit_fits [OF ok] no by (fastforce simp: arbiter_ok_def split: arbiter_phase.splits)
qed

theorem commits_never_conflict_witness:
  "commit_arbiter (ws_sha demo_starter) LOCAL_RUNTIME_SCOPE demo_cancel (Some (CanceledRecord demo_canceled_base 3000000)) = Inr None"
  using commits_never_conflict [OF demo_cancels _ _ demo_base_ok, of 1
      "\<lparr>ar_base = demo_base, ar_command = demo_command, ar_phase = ArbApplied demo_cancel\<rparr>"]
  by (simp add: demo_canceled_def)

text \<open>
  C5. The attempts of a due start, over all the rounds of its arbiter: if the first \<open>dispatch_attempts\<close> of
  them are all rejected with authority the start has failed; otherwise it is started by the first attempt
  that is accepted; and as long as neither is the case it goes on, for ever if an ambiguous attempt has come
  first and none is accepted.
\<close>

theorem dispatch_decides:
  assumes "valid_base b" "\<forall>x. is_start_digest (dg x)"
    and "\<forall>(now, a) \<in> set outs. whole_second now \<and> sc_accepted_at b \<le> now \<and> (\<forall>run. a = AttemptAccepted run \<longrightarrow> valid_run run)"
  shows "dispatch_state (dispatch_all dg b (sc_version b) t (new_round b False 0) outs) =
    (let n = nat (sc_attempts b)
     in if n \<le> length outs \<and> (\<forall>k < n. snd (outs ! k) = AttemptRejected) then Some FAILED
        else if \<exists>out \<in> set outs. \<exists>run. snd out = AttemptAccepted run then Some STARTED else None)"
proof -
  have "is_ok (dispatch_attempt dg b (sc_version b) t now pg a)" if "(now, a) \<in> set outs" for now a pg
    using assms(3) that by (intro dispatch_attempt_ok [OF assms(1) refl _ _ assms(2)]) fastforce+
  moreover have "0 < nat (sc_attempts b)" using assms(1) by (simp add: valid_base_def)
  ultimately show ?thesis
    using dispatch_all_state [of outs dg b "sc_version b" t "new_round b False 0"]
    by (simp add: new_round_def)
qed

theorem dispatch_decides_witness:
  "dispatch_state (dispatch_all demo_dg demo_base 1 5000000 (new_round demo_base False 0)
     [(6000000, AttemptRejected), (7000000, AttemptRejected)]) = Some FAILED \<and>
   dispatch_state (dispatch_all demo_dg demo_base 1 5000000 (new_round demo_base False 0)
     [(6000000, AttemptRejected), (7000000, AttemptAmbiguous), (8000000, AttemptRejected), (9000000, AttemptRejected)]) = None"
  using dispatch_decides [OF demo_base_ok(1), of demo_dg "[(6000000, AttemptRejected), (7000000, AttemptRejected)]" 5000000]
    dispatch_decides [OF demo_base_ok(1), of demo_dg
      "[(6000000, AttemptRejected), (7000000, AttemptAmbiguous), (8000000, AttemptRejected), (9000000, AttemptRejected)]" 5000000]
    demo_digest_ok(1)
  by (simp add: whole_second_def numeral_2_eq_2 All_less_Suc)



lemma start_outcome_started:
  assumes "start_outcome ws rq sc t trigger workflow_id tv = Inr r" "sw_status r = RunStarted"
  shows "\<exists>run. r = new_result ws rq sc t trigger workflow_id run \<and> valid_result r"
  using assms lookup_existing_scope [of "ws_sha ws" _ workflow_id sc r]
  by (fastforce simp: start_outcome_def existing_result_def bind_result_eq_Inr Let_def
      split: start_reply.splits if_splits option.splits)

text \<open>
  To start a workflow again under the same request reports the start there was: from the memo with which
  the first start was made, the second one reads the same run, definition, artifact, environment,
  configuration, trigger and source, as a duplicate.
\<close>

theorem duplicate_reports_original:
  assumes "start_outcome ws rq sc t trigger workflow_id tv = Inr r" "sw_status r = RunStarted"
  shows "existing_result (ws_sha ws) (Described (start_memo ws rq sc t trigger) (sw_run_id r)) workflow_id sc =
    Inr (r\<lparr>sw_status := RunDuplicate\<rparr>)"
proof -
  obtain run where r: "r = new_result ws rq sc t trigger workflow_id run" "valid_result r"
    using start_outcome_started [OF assms] by blast
  from result_from_start_memo [of ws rq sc t trigger workflow_id run] r
  show ?thesis by (simp add: existing_result_def lookup_existing_def new_result_def)
qed

definition demo_target :: start_target where
  "demo_target = \<lparr>tg_manifest = \<lparr>mf_logical_name = ''order'', mf_abi = ''1'', mf_definition_digest = demo_digest,
       mf_input_schema = None\<rparr>,
     tg_deployment = \<lparr>wd_artifact = demo_artifact, wd_abis = [''1'']\<rparr>, tg_environment_digest = demo_digest,
     tg_scope_digest = Some demo_digest, tg_configuration = None\<rparr>"

definition demo_request :: start_request where
  "demo_request = \<lparr>rq_workflow = ''order'', rq_business_id = ''r-1'', rq_input = PDict [],
     rq_source = ControlApiSource ''r-1'', rq_definition_digest = None, rq_correlation_id = Some ''r-1''\<rparr>"

definition demo_binding :: scope_binding where
  "demo_binding = \<lparr>sb_kind = BindApi, sb_scope = LOCAL_RUNTIME_SCOPE, sb_binding_id = ''key''\<rparr>"

definition demo_new :: temporal_view where
  "demo_new = (demo_tv DescribeOtherError)\<lparr>tv_start := (\<lambda>_. StartedRun (Some ''run''))\<rparr>"

definition demo_api_starter :: starter where
  "demo_api_starter = demo_starter\<lparr>ws_resolve := (\<lambda>_ _. Some \<lparr>sg_target = demo_target,
     sg_triggers = [(''api'', ApiTrigger ''order'' False)]\<rparr>)\<rparr>"

lemma demo_api_start:
  "start_workflow demo_api_starter demo_request demo_binding demo_new =
     Inr (new_result demo_api_starter demo_request LOCAL_RUNTIME_SCOPE demo_target ''api''
       (identity_prefix ''workflow'' demo_digest @ demo_digest) ''run'')"
  by (code_simp, simp add: scope_digest_of_def)

theorem duplicate_reports_original_witness:
  "\<exists>r. start_outcome demo_api_starter demo_request LOCAL_RUNTIME_SCOPE demo_target ''api'' ''w'' demo_new = Inr r \<and>
    existing_result (ws_sha demo_api_starter) (Described (start_memo demo_api_starter demo_request LOCAL_RUNTIME_SCOPE
      demo_target ''api'') ''run'') ''w'' LOCAL_RUNTIME_SCOPE = Inr (r\<lparr>sw_status := RunDuplicate\<rparr>)"
proof -
  let ?r = "new_result demo_api_starter demo_request LOCAL_RUNTIME_SCOPE demo_target ''api'' ''w'' ''run''"
  have "start_outcome demo_api_starter demo_request LOCAL_RUNTIME_SCOPE demo_target ''api'' ''w'' demo_new = Inr ?r"
    by (code_simp, simp add: scope_digest_of_def)
  from duplicate_reports_original [OF this] this show ?thesis by (auto simp: new_result_def)
qed

text \<open>
  C19. A workflow is started only as its triggers allow: the start was made with a declared trigger of the
  workflow that is not paused, is of the kind of the source and bound to it, and the only one of its workflow
  that is; for a binding of the caller to the source and to the scope of the run; on a target of that scope
  whose worker supports the definition, the one that was asked for.
\<close>

theorem start_is_authorized:
  assumes "start_workflow ws rq b tv = Inr r" "sw_status r = RunStarted"
    and "ws_resolve ws (sb_scope b) (rq_workflow rq) = Some reg" "valid_triggers (sg_triggers reg)"
    and "\<forall>(n, d) \<in> set (sg_triggers reg). trigger_workflow d = rq_workflow rq"
  shows "(\<exists>d. (sw_trigger r, d) \<in> set (sg_triggers reg) \<and> trigger_matches_source (sw_trigger r) d (rq_source rq) \<and>
        \<not> trigger_paused d) \<and>
      (\<forall>(n, d) \<in> set (sg_triggers reg). trigger_matches_source n d (rq_source rq) \<longrightarrow> n = sw_trigger r) \<and>
      sb_kind b = scope_binding_kind (rq_source rq) \<and>
      source_binding_id (rq_source rq) \<in> {None, Some (sb_binding_id b)} \<and>
      owns_scope (ws_sha ws) LOCAL_ONLY (tg_scope_digest (sg_target reg)) (sb_scope b) \<and>
      supports (tg_deployment (sg_target reg)) (tg_manifest (sg_target reg)) \<and>
      sw_workflow r = rq_workflow rq \<and> sw_scope_digest r = scope_digest_of (ws_sha ws) (sb_scope b) \<and>
      rq_definition_digest rq \<in> {None, Some (sw_definition_digest r)}"
proof -
  obtain workflow_id name kind where parts: "sb_kind b = scope_binding_kind (rq_source rq)"
      "match_trigger (sg_triggers reg) (rq_source rq) b = Inr (name, kind)"
      "validate_source_binding (rq_source rq) b = Inr ()"
      "validate_resolved_target (ws_sha ws) (sb_scope b) rq (sg_target reg) = Inr ()"
      "start_outcome ws rq (sb_scope b) (sg_target reg) name workflow_id tv = Inr r"
    using assms(1,3)
    by (cases "make_workflow_id (ws_sha ws) (rq_workflow rq) (rq_business_id rq) (Some (sb_scope b))")
      (auto simp: start_workflow_def run_start_def bound_scope_def require_bound_scope_def resolve_registration_def
        bind_result_eq_Inr split: if_splits)
  have target: "rq_workflow rq = mf_logical_name (tg_manifest (sg_target reg))"
      "supports (tg_deployment (sg_target reg)) (tg_manifest (sg_target reg))"
      "owns_scope (ws_sha ws) LOCAL_ONLY (tg_scope_digest (sg_target reg)) (sb_scope b)"
      "rq_definition_digest rq \<in> {None, Some (mf_definition_digest (tg_manifest (sg_target reg)))}"
    using parts(4) by (auto simp: validate_resolved_target_def Let_def split: if_splits)
  obtain run where r: "r = new_result ws rq (sb_scope b) (sg_target reg) name workflow_id run"
    using start_outcome_started [OF parts(5) assms(2)] by blast
  obtain d where d: "(name, d) \<in> set (sg_triggers reg)" "trigger_matches_source name d (rq_source rq)" "\<not> trigger_paused d"
    using match_trigger_found [OF parts(2)] by blast
  have only: "n = name" if "(n, d') \<in> set (sg_triggers reg)" "trigger_matches_source n d' (rq_source rq)" for n d'
  proof -
    have "trigger_workflow d' = rq_workflow rq" "trigger_workflow d = rq_workflow rq"
      using assms(5) that(1) d(1) by auto
    then show ?thesis using one_trigger_matches [OF assms(4) that(1) d(1) _ that(2) d(2)] by simp
  qed
  have sw: "sw_trigger r = name" "sw_workflow r = mf_logical_name (tg_manifest (sg_target reg))"
      "sw_scope_digest r = scope_digest_of (ws_sha ws) (sb_scope b)"
      "sw_definition_digest r = mf_definition_digest (tg_manifest (sg_target reg))"
    by (simp_all add: r new_result_def)
  have binding: "source_binding_id (rq_source rq) \<in> {None, Some (sb_binding_id b)}"
    using parts(3) by (auto simp: validate_source_binding_def split: option.splits)
  have all: "\<forall>(n, d) \<in> set (sg_triggers reg). trigger_matches_source n d (rq_source rq) \<longrightarrow> n = name" using only by blast
  show ?thesis
    unfolding sw by (intro conjI exI [of _ d] all) (fact d parts(1) binding target target(1) [symmetric] refl)+
qed

theorem start_is_authorized_witness:
  "sw_trigger (new_result demo_api_starter demo_request LOCAL_RUNTIME_SCOPE demo_target ''api'' ''w'' ''run'') = ''api'' \<and>
   supports (tg_deployment demo_target) (tg_manifest demo_target) \<and>
   owns_scope (ws_sha demo_api_starter) LOCAL_ONLY (tg_scope_digest demo_target) LOCAL_RUNTIME_SCOPE"
proof -
  let ?reg = "\<lparr>sg_target = demo_target, sg_triggers = [(''api'', ApiTrigger ''order'' False)]\<rparr>"
  have "ws_resolve demo_api_starter (sb_scope demo_binding) (rq_workflow demo_request) = Some ?reg"
    by (simp add: demo_api_starter_def)
  from start_is_authorized [OF demo_api_start _ this] show ?thesis
    by (simp add: new_result_def demo_request_def demo_binding_def valid_triggers_def)
qed

section \<open>A start that is accepted and taken for rejected\<close>

text \<open>
  The client of Temporal gives a handle without the run, so the starter asks for a description; when that
  fails, the error counts as an authoritative rejection although Temporal has accepted the start.
\<close>

definition demo_single :: scheduled_base where
  "demo_single = demo_base\<lparr>sc_attempts := 1\<rparr>"

definition demo_claimed :: scheduled_base where
  "demo_claimed = demo_single\<lparr>sc_updated_at := 5000000, sc_mutation := MutDispatch\<rparr>"

definition demo_failed :: scheduled_record where
  "demo_failed = FailedRecord (demo_claimed\<lparr>sc_updated_at := 6000000, sc_mutation := MutFail\<rparr>) 1 5000000 6000000
     DISPATCH_EXHAUSTED"

definition demo_failure :: terminal_input where
  "demo_failure = \<lparr>tm_projection = demo_failed, tm_consumed = 1, tm_winner = KindDue, tm_digest = None\<rparr>"

definition demo_unnamed :: temporal_view where
  "demo_unnamed = (demo_tv DescribeOtherError)\<lparr>tv_start := (\<lambda>_. StartedRun None)\<rparr>"

lemma demo_attempt_rejected:
  "attempt_outcome (attempt_dispatch demo_api_starter LOCAL_RUNTIME_SCOPE demo_claimed demo_target demo_unnamed) = AttemptRejected"
  by code_simp

abbreviation api_step :: "entity \<Rightarrow> entity \<Rightarrow> bool" where
  "api_step \<equiv> entity_step demo_api_starter demo_dg LOCAL_RUNTIME_SCOPE"

definition demo_lost :: entity where
  "demo_lost = \<lparr>ey_record = Some demo_failed,
     ey_arbiters = [1 \<mapsto> \<lparr>ar_base = demo_single, ar_command = DueCommand 5000000, ar_phase = ArbApplied demo_failure\<rparr>],
     ey_seen = {demo_single}, ey_run = Some (''run'', []), ey_attempts = [1]\<rparr>"

lemma demo_single_valid: "valid_base demo_single" "valid_base demo_claimed" "valid_record demo_failed"
  by code_simp+

lemma demo_single_fields [simp]:
  "sc_version demo_single = 1" "sc_workflow demo_single = ''order''" "sc_request_id demo_single = ''r-1''"
  "sc_scope_digest demo_single = demo_digest" "sc_start_at demo_single = 5000000"
  by (simp_all add: demo_single_def demo_base_def)

lemma demo_claims:
  "claim_scheduled_start demo_dg (PendingRecord demo_single) 1 5000000 = Inr (Some (DispatchingRecord demo_claimed 1 5000000))"
proof -
  have "demo_single\<lparr>sc_updated_at := 5000000, sc_mutation := MutDispatch, sc_mutation_digest := demo_digest\<rparr> = demo_claimed"
    by (simp add: demo_claimed_def demo_single_def demo_base_def)
  then show ?thesis using demo_single_valid(2) by (simp add: claim_scheduled_start_def)
qed

lemma demo_resolves: "resolve_due_target demo_api_starter LOCAL_RUNTIME_SCOPE demo_claimed = Inr demo_target"
  by code_simp

lemma demo_fails:
  "dispatch_attempt demo_dg demo_claimed 1 5000000 6000000 (new_round demo_claimed False 0) AttemptRejected = Inr (Inl demo_failure)"
proof -
  have "demo_claimed\<lparr>sc_updated_at := 6000000, sc_mutation := MutFail, sc_mutation_digest := demo_digest\<rparr> =
      demo_claimed\<lparr>sc_updated_at := 6000000, sc_mutation := MutFail\<rparr>" "sc_attempts demo_claimed = 1"
    by (simp_all add: demo_claimed_def demo_single_def demo_base_def)
  then have "fail_scheduled_start demo_dg demo_claimed 1 5000000 DISPATCH_EXHAUSTED 6000000 = Inr demo_failed"
    using demo_single_valid(3) by (simp add: fail_scheduled_start_def demo_failed_def)
  moreover have "valid_terminal demo_failure"
    by (simp add: demo_failure_def demo_failed_def demo_claimed_def valid_terminal_def projection_kinds_def version_of_def)
  ultimately show ?thesis
    using \<open>sc_attempts demo_claimed = 1\<close>
    by (simp add: dispatch_attempt_def new_round_def terminal_of_def demo_failure_def Let_def)
qed

text \<open>
  A start whose record has failed may have its workflow running: Temporal accepts the only attempt, the
  starter does not learn the run, and the start fails as if it had been rejected.
\<close>

theorem failed_start_runs:
  "api_step\<^sup>*\<^sup>* (new_entity demo_single None) demo_lost \<and>
   (\<exists>r. ey_record demo_lost = Some r \<and> state_of r = FAILED) \<and> ey_run demo_lost = Some (''run'', []) \<and>
   truthful None (ey_run demo_lost) demo_unnamed"
proof -
  let ?s = "launched demo_single (DueCommand 5000000) None"
  let ?a = "\<lparr>ar_base = demo_single, ar_command = DueCommand 5000000, ar_phase = ArbInitial\<rparr>"
  let ?resolved = "ArbResolved demo_claimed 1 5000000 demo_target (new_round demo_claimed False 0)"
  let ?t = "set_phase_at 1 ?a ?resolved ?s"
  let ?u = "(set_phase_at 1 (?a\<lparr>ar_phase := ?resolved\<rparr>) (ArbTerminal demo_failure) ?t)
    \<lparr>ey_run := Some (''run'', []), ey_attempts := [1]\<rparr>"
  have new: "api_step\<^sup>*\<^sup>* (new_entity demo_single None) ?s" by (rule launch_new) simp
  have tv: "truthful None (Some (''run'', [])) demo_unnamed" by (simp add: truthful_def demo_unnamed_def demo_tv_def)
  have scope: "scope_digest_of (ws_sha demo_api_starter) LOCAL_RUNTIME_SCOPE = demo_digest"
    by (simp add: scope_digest_of_def demo_api_starter_def demo_starter_def)
  have find: "find_existing demo_api_starter ''order'' ''r-1'' LOCAL_RUNTIME_SCOPE (demo_tv (DescribeRpcError RpcNotFoundStatus)) = Inr None"
    by code_simp
  have "api_step ?s ?t"
    by (rule entity_step.prepare [where tv = "demo_tv (DescribeRpcError RpcNotFoundStatus)" and ?t1.0 = 5000000 and ?t2.0 = 6000000])
      (simp_all add: launched_def demo_not_found described_record_def find prepare_arbiter_def scope prepare_due_def
        demo_claims demo_resolves version_of_def after_prepare_def)
  moreover have "api_step ?t ?u"
    using entity_step.attempt [of ?t 1 "?a\<lparr>ar_phase := ?resolved\<rparr>" demo_claimed 1 5000000 demo_target
        "new_round demo_claimed False 0" "Some (''run'', [])" demo_unnamed AttemptRejected demo_api_starter
        LOCAL_RUNTIME_SCOPE demo_dg 6000000 "Inl demo_failure"] tv demo_attempt_rejected demo_fails
    by (simp add: launched_def set_phase_at_def)
  moreover have "api_step ?u demo_lost"
    using entity_step.commit [of ?u 1 "?a\<lparr>ar_phase := ArbTerminal demo_failure\<rparr>" demo_failure demo_api_starter
        LOCAL_RUNTIME_SCOPE "Some demo_failed" "ArbApplied demo_failure" demo_dg] scope
    by (simp add: launched_def set_phase_at_def demo_lost_def commit_arbiter_def commit_update_def demo_failure_def
        demo_failed_def demo_claimed_def version_of_def Let_def)
  ultimately have "api_step\<^sup>*\<^sup>* (new_entity demo_single None) demo_lost"
    using new by (meson rtranclp.rtrancl_into_rtrancl)
  then show ?thesis using tv by (simp add: demo_lost_def demo_failed_def)
qed

end
