(* ===== verification/JF_Activation.thy ===== *)
theory JF_Activation
  imports JF_Starter
begin

text \<open>
  The control records of configurations (\<open>configuration/activation.py\<close>, \<open>configuration/activation_store.py\<close>,
  \<open>configuration/lifecycle.py\<close>): publications, discards and activations with their validators, the plan of an
  activation, and the transitions that make the next version of a record. Times are microseconds since the
  epoch, JSON texts and digests are made as in \<open>JF_Starter\<close>.
\<close>

section \<open>Digests\<close>

definition provenance_digest :: "(string \<Rightarrow> string) \<Rightarrow> (rat \<Rightarrow> string) \<Rightarrow> json \<Rightarrow> string" where
  "provenance_digest sha sf v = ''sha256:'' @ sha (json_dump sf v)"

definition CONTROL_IDENTITY_LENGTH :: nat where "CONTROL_IDENTITY_LENGTH = 64"
definition MAX_CONTROL_IDENTITY_INPUT_LENGTH :: nat where "MAX_CONTROL_IDENTITY_INPUT_LENGTH = 256"
definition MAX_ACTIVATION_CHANGES :: nat where "MAX_ACTIVATION_CHANGES = 1000"
definition MAX_ACTIVATION_HISTORY :: nat where "MAX_ACTIVATION_HISTORY = 100"
definition MAX_EXTERNAL_VERSION_LENGTH :: nat where "MAX_EXTERNAL_VERSION_LENGTH = 256"
definition MAX_ACTIVATION_RECORD_BYTES :: nat where "MAX_ACTIVATION_RECORD_BYTES = 350000"

text \<open>\<open>Digest\<close>, and the digests of revisions; \<open>ProvenanceDigest\<close> is \<open>is_artifact_digest\<close>.\<close>

definition is_control_digest :: "string \<Rightarrow> bool" where
  "is_control_digest s \<longleftrightarrow> length s = CONTROL_IDENTITY_LENGTH \<and> list_all is_lower_hex s"

datatype activation_outcome =
    DefinitionsUnavailable | WorkerUnavailable | SchedulesUnavailable | RoutingUnavailable
  | ConfigurationConflicted | StalePlan | InternalError

text \<open>
  \<open>InvalidActivation\<close> is a \<open>ValueError\<close>, raised by an operation or by pydantic; then the errors of the store,
  those of the controller with their code and whether they are retryable, and those of the catalogue of
  definitions and of the configuration store.
\<close>

datatype activation_error =
    InvalidActivation
  | ActivationConflict | ActivationNotFound | ActivationUnavailable | ActivationIntegrity | ActivationLimit
  | ControllerError activation_outcome bool
  | CatalogConflict | CatalogFailure | ConfigurationConflict | ConfigurationFailure

section \<open>Publications and discards\<close>

datatype publication_state = PubPending | PubApplied | PubFailed

datatype publication_error = PubInvalid | PubConflict | PubCatalogUnavailable | PubStoreUnavailable

record publication =
  pb_id :: string
  pb_scope :: string
  pb_key :: string
  pb_request :: string
  pb_actor :: string
  pb_correlation :: string
  pb_policy :: string
  pb_parent :: "string option"
  pb_expected :: "string option"
  pb_source :: "string option"
  pb_published :: "string option"
  pb_state :: publication_state
  pb_error :: "publication_error option"
  pb_version :: int
  pb_created :: int
  pb_updated :: int

text \<open>The field bounds of \<open>PublicationRecord\<close> and \<open>validate_outcome\<close>.\<close>

definition valid_publication :: "publication \<Rightarrow> bool" where
  "valid_publication p \<longleftrightarrow>
     list_all is_control_digest ([pb_id p, pb_scope p, pb_key p, pb_actor p, pb_correlation p] @
       concat (map list_of_option [pb_parent p, pb_expected p, pb_source p, pb_published p])) \<and>
     list_all is_artifact_digest [pb_request p, pb_policy p] \<and> 1 \<le> pb_version p \<and>
     (case pb_state p of
        PubApplied \<Rightarrow> pb_source p \<noteq> None \<and> pb_published p \<noteq> None \<and> pb_error p = None
      | PubFailed \<Rightarrow> pb_error p \<noteq> None
      | PubPending \<Rightarrow> pb_source p = None \<and> pb_published p = None \<and> pb_error p = None) \<and>
     pb_created p \<le> pb_updated p"

definition validate_publication :: "publication \<Rightarrow> activation_error + publication" where
  "validate_publication p = (if valid_publication p then Inr p else Inl InvalidActivation)"

definition complete_publication :: "publication \<Rightarrow> string \<Rightarrow> string \<Rightarrow> int \<Rightarrow> activation_error + publication" where
  "complete_publication p source published t = validate_publication
     (p\<lparr>pb_source := Some source, pb_published := Some published, pb_state := PubApplied, pb_error := None,
       pb_version := pb_version p + 1, pb_updated := t\<rparr>)"

definition fail_publication :: "publication \<Rightarrow> publication_error \<Rightarrow> int \<Rightarrow> activation_error + publication" where
  "fail_publication p code t = validate_publication
     (p\<lparr>pb_state := PubFailed, pb_error := Some code, pb_version := pb_version p + 1, pb_updated := t\<rparr>)"

datatype discard_state = DiscardPending | DiscardApplied | DiscardFailed

text \<open>The only code of a failed discard is a conflict.\<close>

datatype discard_error = DiscardConflict

record discard =
  dc_id :: string
  dc_scope :: string
  dc_key :: string
  dc_request :: string
  dc_actor :: string
  dc_correlation :: string
  dc_expected_draft :: int
  dc_expected_active :: string
  dc_document :: string
  dc_result_draft :: "int option"
  dc_published :: "bool option"
  dc_state :: discard_state
  dc_error :: "discard_error option"
  dc_version :: int
  dc_created :: int
  dc_updated :: int

definition valid_discard :: "discard \<Rightarrow> bool" where
  "valid_discard d \<longleftrightarrow>
     list_all is_control_digest [dc_id d, dc_scope d, dc_key d, dc_actor d, dc_correlation d, dc_expected_active d] \<and>
     list_all is_artifact_digest [dc_request d, dc_document d] \<and>
     1 \<le> dc_expected_draft d \<and> pred_option (\<lambda>v. 1 \<le> v) (dc_result_draft d) \<and> 1 \<le> dc_version d \<and>
     (case dc_state d of
        DiscardApplied \<Rightarrow> dc_result_draft d \<noteq> None \<and> dc_error d = None
      | DiscardFailed \<Rightarrow> dc_error d \<noteq> None \<and> dc_result_draft d = None \<and> dc_published d = None
      | DiscardPending \<Rightarrow> dc_result_draft d = None \<and> dc_error d = None \<and> dc_published d = None) \<and>
     dc_created d \<le> dc_updated d"

definition validate_discard :: "discard \<Rightarrow> activation_error + discard" where
  "validate_discard d = (if valid_discard d then Inr d else Inl InvalidActivation)"

definition complete_discard :: "discard \<Rightarrow> int \<Rightarrow> bool option \<Rightarrow> int \<Rightarrow> activation_error + discard" where
  "complete_discard d draft published t = validate_discard
     (d\<lparr>dc_result_draft := Some draft, dc_published := published, dc_state := DiscardApplied, dc_error := None,
       dc_version := dc_version d + 1, dc_updated := t\<rparr>)"

definition fail_discard :: "discard \<Rightarrow> discard_error \<Rightarrow> int \<Rightarrow> activation_error + discard" where
  "fail_discard d code t = validate_discard
     (d\<lparr>dc_result_draft := None, dc_published := None, dc_state := DiscardFailed, dc_error := Some code,
       dc_version := dc_version d + 1, dc_updated := t\<rparr>)"

section \<open>Plans\<close>

datatype change_kind =
    WorkflowChange | ServiceChange | ResourceChange | PolicyChange | ScheduleChange | ArtifactChange | Deletion

datatype subject_kind =
    WorkflowSubject | ServiceSubject | ResourceSubject | PolicySubject | ScheduleSubject | ArtifactSubject

datatype change_operation = CreateOperation | UpdateOperation | DeleteOperation

fun change_kind_text :: "change_kind \<Rightarrow> string" where
  "change_kind_text WorkflowChange = ''workflow''"
| "change_kind_text ServiceChange = ''service''"
| "change_kind_text ResourceChange = ''resource''"
| "change_kind_text PolicyChange = ''policy''"
| "change_kind_text ScheduleChange = ''schedule''"
| "change_kind_text ArtifactChange = ''artifact''"
| "change_kind_text Deletion = ''deletion''"

fun subject_kind_text :: "subject_kind \<Rightarrow> string" where
  "subject_kind_text WorkflowSubject = ''workflow''"
| "subject_kind_text ServiceSubject = ''service''"
| "subject_kind_text ResourceSubject = ''resource''"
| "subject_kind_text PolicySubject = ''policy''"
| "subject_kind_text ScheduleSubject = ''schedule''"
| "subject_kind_text ArtifactSubject = ''artifact''"

fun change_operation_text :: "change_operation \<Rightarrow> string" where
  "change_operation_text CreateOperation = ''create''"
| "change_operation_text UpdateOperation = ''update''"
| "change_operation_text DeleteOperation = ''delete''"

record activation_change =
  ch_kind :: change_kind
  ch_subject :: subject_kind
  ch_operation :: change_operation
  ch_digest :: string

datatype activation_risk =
    OpenExecutionRetention | ReplayCompatibility | ComponentPolicyChange | ExternalRoutingChange

text \<open>Each action is taken or not: roll out, publish, switch, reconcile.\<close>

record activation_plan =
  pl_digest :: string
  pl_scope :: string
  pl_source :: "string option"
  pl_target :: string
  pl_expected :: "string option"
  pl_pointer_version :: "int option"
  pl_alias_version :: "string option"
  pl_policy :: string
  pl_worker_observation :: string
  pl_schedule_observation :: string
  pl_artifact :: worker_artifact
  pl_task_queue :: string
  pl_registration :: string
  pl_definitions :: "string list"
  pl_changes :: "activation_change list"
  pl_risks :: "activation_risk list"
  pl_rollout :: bool
  pl_publish :: bool
  pl_switch :: bool
  pl_reconcile :: bool

definition valid_plan :: "activation_plan \<Rightarrow> bool" where
  "valid_plan p \<longleftrightarrow>
     list_all is_artifact_digest [pl_digest p, pl_policy p, pl_worker_observation p, pl_schedule_observation p,
       pl_task_queue p, pl_registration p] \<and>
     list_all is_control_digest ([pl_scope p, pl_target p] @ list_of_option (pl_source p) @
       list_of_option (pl_expected p) @ pl_definitions p @ map ch_digest (pl_changes p)) \<and>
     pred_option (\<lambda>v. 1 \<le> v) (pl_pointer_version p) \<and>
     pred_option (bounded_text MAX_EXTERNAL_VERSION_LENGTH) (pl_alias_version p) \<and> valid_artifact (pl_artifact p) \<and>
     length (pl_definitions p) \<le> MAX_ACTIVATION_CHANGES \<and> length (pl_changes p) \<le> MAX_ACTIVATION_CHANGES \<and>
     length (pl_risks p) \<le> 4"

record activation_observations =
  ob_pointer_version :: "int option"
  ob_alias_version :: "string option"
  ob_policy :: string
  ob_worker :: string
  ob_schedule :: string
  ob_registered :: "string list"

text \<open>Of a resolved bundle, what a plan compares, each value in its JSON form, and the tenant revision.\<close>

record configuration_bundle =
  cb_workflows :: "json dict"
  cb_services :: "json dict"
  cb_resources :: "json dict"
  cb_triggers :: "json dict"
  cb_tenant_revision :: "string option"

definition empty_bundle :: configuration_bundle where
  "empty_bundle = \<lparr>cb_workflows = [], cb_services = [], cb_resources = [], cb_triggers = [], cb_tenant_revision = None\<rparr>"

definition identity_text :: "(string \<Rightarrow> string) \<Rightarrow> string \<Rightarrow> string \<Rightarrow> string" where
  "identity_text sha kind v = (case safe_identity_digest sha kind v of Inr d \<Rightarrow> d | Inl _ \<Rightarrow> [])"

definition singleton_change ::
    "(string \<Rightarrow> string) \<Rightarrow> string \<Rightarrow> change_kind \<Rightarrow> subject_kind \<Rightarrow> change_operation \<Rightarrow> string \<Rightarrow> activation_change" where
  "singleton_change sha scope kind subject operation identity =
     \<lparr>ch_kind = kind, ch_subject = subject, ch_operation = operation,
      ch_digest = identity_text sha ''activation-change'' (scope @ '':'' @ subject_kind_text subject @ '':'' @ identity)\<rparr>"

text \<open>The names of both sides without repetition, in order.\<close>

definition mapping_change ::
    "(string \<Rightarrow> string) \<Rightarrow> (rat \<Rightarrow> string) \<Rightarrow> string \<Rightarrow> change_kind \<Rightarrow> subject_kind \<Rightarrow> json dict \<Rightarrow> json dict \<Rightarrow> string \<Rightarrow>
     activation_change option" where
  "mapping_change sha sf scope kind subject target active name =
     (case (dict_get target name, dict_get active name) of
        (None, _) \<Rightarrow> Some (singleton_change sha scope Deletion subject DeleteOperation name)
      | (Some _, None) \<Rightarrow> Some (singleton_change sha scope kind subject CreateOperation name)
      | (Some t, Some a) \<Rightarrow>
          if json_dump sf t \<noteq> json_dump sf a then Some (singleton_change sha scope kind subject UpdateOperation name)
          else None)"

definition mapping_changes ::
    "(string \<Rightarrow> string) \<Rightarrow> (rat \<Rightarrow> string) \<Rightarrow> string \<Rightarrow> change_kind \<Rightarrow> subject_kind \<Rightarrow> json dict \<Rightarrow> json dict \<Rightarrow>
     activation_change list" where
  "mapping_changes sha sf scope kind subject target active =
     List.map_filter (mapping_change sha sf scope kind subject target active)
       (sort (remdups (dict_keys target @ dict_keys active)))"

definition artifact_json :: "worker_artifact \<Rightarrow> json" where
  "artifact_json a = JObj
     [(''deployment_name'', JStr (wa_deployment_name a)), (''build_id'', JStr (wa_build_id a)),
      (''artifact_digest'', JStr (wa_artifact_digest a)), (''package_version'', JStr (wa_package_version a)),
      (''source_revision'', (case wa_source_revision a of None \<Rightarrow> JNull | Some s \<Rightarrow> JStr s))]"

definition configuration_changes ::
    "(string \<Rightarrow> string) \<Rightarrow> (rat \<Rightarrow> string) \<Rightarrow> string \<Rightarrow> configuration_bundle \<Rightarrow> configuration_bundle option \<Rightarrow>
     worker_artifact \<Rightarrow> worker_artifact option \<Rightarrow> string \<Rightarrow> string option \<Rightarrow> activation_change list" where
  "configuration_changes sha sf scope target active artifact active_artifact policy active_policy =
     (let old = (case active of None \<Rightarrow> empty_bundle | Some b \<Rightarrow> b)
      in sort_key (\<lambda>c. [change_kind_text (ch_kind c), subject_kind_text (ch_subject c),
             change_operation_text (ch_operation c), ch_digest c])
           (mapping_changes sha sf scope WorkflowChange WorkflowSubject (cb_workflows target) (cb_workflows old) @
            mapping_changes sha sf scope ServiceChange ServiceSubject (cb_services target) (cb_services old) @
            mapping_changes sha sf scope ResourceChange ResourceSubject (cb_resources target) (cb_resources old) @
            mapping_changes sha sf scope ScheduleChange ScheduleSubject (cb_triggers target) (cb_triggers old) @
            (if active_policy \<noteq> Some policy
             then [singleton_change sha scope PolicyChange PolicySubject
               (if active_policy = None then CreateOperation else UpdateOperation) policy] else []) @
            (if active_artifact \<noteq> Some artifact
             then [singleton_change sha scope ArtifactChange ArtifactSubject
               (if active_artifact = None then CreateOperation else UpdateOperation)
               (provenance_digest sha sf (artifact_json artifact))] else [])))"

definition worker_change :: "activation_change \<Rightarrow> bool" where
  "worker_change c \<longleftrightarrow> ch_kind c \<in> {WorkflowChange, ServiceChange, ResourceChange, PolicyChange, ArtifactChange} \<or>
     ch_kind c = Deletion \<and> ch_subject c \<noteq> ScheduleSubject"

fun risk_text :: "activation_risk \<Rightarrow> string" where
  "risk_text OpenExecutionRetention = ''open_execution_retention''"
| "risk_text ReplayCompatibility = ''replay_compatibility''"
| "risk_text ComponentPolicyChange = ''component_policy_change''"
| "risk_text ExternalRoutingChange = ''external_routing_change''"

definition option_json :: "string option \<Rightarrow> json" where
  "option_json v = (case v of None \<Rightarrow> JNull | Some s \<Rightarrow> JStr s)"

definition change_json :: "activation_change \<Rightarrow> json" where
  "change_json c = JObj
     [(''kind'', JStr (change_kind_text (ch_kind c))), (''subject_kind'', JStr (subject_kind_text (ch_subject c))),
      (''operation'', JStr (change_operation_text (ch_operation c))), (''subject_digest'', JStr (ch_digest c))]"

text \<open>What the digest of a plan covers: every other field of it.\<close>

definition plan_json :: "activation_plan \<Rightarrow> json" where
  "plan_json p = JObj
     [(''scope_digest'', JStr (pl_scope p)), (''source_revision_id'', option_json (pl_source p)),
      (''target_revision_id'', JStr (pl_target p)), (''expected_active_revision_id'', option_json (pl_expected p)),
      (''expected_active_pointer_version'', (case pl_pointer_version p of None \<Rightarrow> JNull | Some v \<Rightarrow> JInt v)),
      (''expected_catalog_alias_version'', option_json (pl_alias_version p)),
      (''policy_digest'', JStr (pl_policy p)), (''worker_observation_digest'', JStr (pl_worker_observation p)),
      (''schedule_observation_digest'', JStr (pl_schedule_observation p)),
      (''target_artifact'', artifact_json (pl_artifact p)),
      (''target_task_queue_identity_digest'', JStr (pl_task_queue p)),
      (''target_worker_registration_digest'', JStr (pl_registration p)),
      (''target_definition_digests'', JList (map JStr (pl_definitions p))),
      (''changes'', JList (map change_json (pl_changes p))),
      (''compatibility_risks'', JList (map (\<lambda>r. JStr (risk_text r)) (pl_risks p))),
      (''worker_action'', JStr (if pl_rollout p then ''rollout'' else ''none'')),
      (''definition_action'', JStr (if pl_publish p then ''publish'' else ''none'')),
      (''routing_action'', JStr (if pl_switch p then ''switch'' else ''none'')),
      (''schedule_action'', JStr (if pl_reconcile p then ''reconcile'' else ''none''))]"

text \<open>\<open>plan_configuration_activation\<close>; \<open>definitions\<close> are the digests of the definitions of the target.\<close>

definition plan_risks :: "activation_change list \<Rightarrow> bool \<Rightarrow> bool \<Rightarrow> activation_risk list" where
  "plan_risks changes rollout switch =
     (if \<exists>c \<in> set changes. ch_kind c = Deletion \<and> ch_subject c = WorkflowSubject then [OpenExecutionRetention] else []) @
     (if rollout then [ReplayCompatibility] else []) @
     (if \<exists>c \<in> set changes. ch_kind c = PolicyChange then [ComponentPolicyChange] else []) @
     (if switch then [ExternalRoutingChange] else [])"

definition plan_configuration_activation ::
    "(string \<Rightarrow> string) \<Rightarrow> (rat \<Rightarrow> string) \<Rightarrow> string \<Rightarrow> string \<Rightarrow> configuration_bundle \<Rightarrow> worker_artifact \<Rightarrow> string \<Rightarrow> string \<Rightarrow>
     string list \<Rightarrow> activation_observations \<Rightarrow> string option \<Rightarrow> configuration_bundle option \<Rightarrow> worker_artifact option \<Rightarrow>
     string option \<Rightarrow> activation_error + activation_plan" where
  "plan_configuration_activation sha sf scope target_revision target artifact task_queue registration definitions ob
       active_revision active active_artifact active_policy =
     (let changes = configuration_changes sha sf scope target active artifact active_artifact (ob_policy ob) active_policy;
          digests = sort (remdups definitions);
          registered = set digests \<subseteq> set (ob_registered ob);
          rollout = (list_ex worker_change changes \<or> \<not> registered);
          switch = (active_revision \<noteq> Some target_revision);
          p = \<lparr>pl_digest = [], pl_scope = scope, pl_source = cb_tenant_revision target, pl_target = target_revision,
            pl_expected = active_revision, pl_pointer_version = ob_pointer_version ob, pl_alias_version = ob_alias_version ob,
            pl_policy = ob_policy ob, pl_worker_observation = ob_worker ob, pl_schedule_observation = ob_schedule ob,
            pl_artifact = artifact, pl_task_queue = task_queue, pl_registration = registration, pl_definitions = digests,
            pl_changes = changes, pl_risks = plan_risks changes rollout switch, pl_rollout = rollout,
            pl_publish = (\<not> registered \<or> (\<exists>c \<in> set changes. ch_subject c = WorkflowSubject)),
            pl_switch = switch, pl_reconcile = (\<exists>c \<in> set changes. ch_subject c = ScheduleSubject)\<rparr>;
          plan = p\<lparr>pl_digest := provenance_digest sha sf (plan_json p)\<rparr>
      in if MAX_ACTIVATION_CHANGES < length changes \<or> \<not> valid_plan plan then Inl InvalidActivation else Inr plan)"

section \<open>Activations\<close>

datatype activation_state =
    ActPending | ActRunning | ActWaiting | ActApplied | ActFailed | ActSuperseded | ActRolledBack

datatype checkpoint_kind =
    DefinitionsStored | WorkerRollout | WorkerReady | SchedulesReconciled | CatalogSwitched | WorkersRouted
  | PointerAdvanced | IndexReplaced

datatype external_outcome = Confirmed | Idempotent

record activation_transition =
  tn_sequence :: nat
  tn_from :: activation_state
  tn_to :: activation_state
  tn_at :: int
  tn_outcome :: "activation_outcome option"

record activation_checkpoint =
  cp_sequence :: nat
  cp_kind :: checkpoint_kind
  cp_outcome :: external_outcome
  cp_at :: int
  cp_digest :: string

record worker_readiness =
  wr_revision :: string
  wr_artifact :: worker_artifact
  wr_definitions :: "string list"
  wr_task_queue :: string
  wr_registration :: string
  wr_registered :: int

record activation =
  ac_id :: string
  ac_scope :: string
  ac_key :: string
  ac_request :: string
  ac_actor :: string
  ac_correlation :: string
  ac_plan :: activation_plan
  ac_state :: activation_state
  ac_version :: int
  ac_transitions :: "activation_transition list"
  ac_checkpoints :: "activation_checkpoint list"
  ac_lease_owner :: "string option"
  ac_lease_expires :: "int option"
  ac_readiness :: "worker_readiness option"
  ac_rollback_of :: "string option"
  ac_outcome :: "activation_outcome option"
  ac_created :: int
  ac_updated :: int

text \<open>The history of transitions: numbered from 1, each from the state in which the one before it ended.\<close>

definition valid_history :: "activation_state \<Rightarrow> activation_transition list \<Rightarrow> bool" where
  "valid_history state ts \<longleftrightarrow>
     (if ts = [] then state = ActPending else tn_to (last ts) = state) \<and>
     map tn_sequence ts = [1..<Suc (length ts)] \<and>
     (\<forall>i < length ts. 0 < i \<longrightarrow> tn_to (ts ! (i - 1)) = tn_from (ts ! i)) \<and>
     length ts \<le> MAX_ACTIVATION_HISTORY"

definition valid_checkpoints :: "activation_checkpoint list \<Rightarrow> bool" where
  "valid_checkpoints cs \<longleftrightarrow>
     distinct (map cp_kind cs) \<and> map cp_sequence cs = [1..<Suc (length cs)] \<and>
     list_all (\<lambda>c. is_artifact_digest (cp_digest c)) cs"

definition valid_readiness :: "worker_readiness \<Rightarrow> bool" where
  "valid_readiness r \<longleftrightarrow>
     list_all is_control_digest (wr_revision r # wr_definitions r) \<and> valid_artifact (wr_artifact r) \<and>
     list_all is_artifact_digest [wr_task_queue r, wr_registration r] \<and>
     length (wr_definitions r) \<le> MAX_ACTIVATION_CHANGES"

text \<open>The field bounds of \<open>ActivationRecord\<close> and \<open>validate_state\<close>.\<close>

definition valid_activation :: "activation \<Rightarrow> bool" where
  "valid_activation a \<longleftrightarrow>
     list_all is_control_digest ([ac_id a, ac_scope a, ac_key a, ac_actor a, ac_correlation a] @
       list_of_option (ac_lease_owner a) @ list_of_option (ac_rollback_of a)) \<and>
     is_artifact_digest (ac_request a) \<and> valid_plan (ac_plan a) \<and> 1 \<le> ac_version a \<and>
     pred_option valid_readiness (ac_readiness a) \<and>
     pl_scope (ac_plan a) = ac_scope a \<and>
     (ac_lease_owner a = None) = (ac_lease_expires a = None) \<and>
     ac_created a \<le> ac_updated a \<and>
     valid_history (ac_state a) (ac_transitions a) \<and> valid_checkpoints (ac_checkpoints a) \<and>
     (ac_outcome a \<noteq> None) = (ac_state a \<in> {ActFailed, ActSuperseded})"

definition validate_activation :: "activation \<Rightarrow> activation_error + activation" where
  "validate_activation a = (if valid_activation a then Inr a else Inl InvalidActivation)"

fun allowed_transitions :: "activation_state \<Rightarrow> activation_state set" where
  "allowed_transitions ActPending = {ActRunning, ActSuperseded}"
| "allowed_transitions ActRunning = {ActWaiting, ActApplied, ActFailed, ActSuperseded, ActRolledBack}"
| "allowed_transitions ActWaiting = {ActRunning, ActFailed, ActSuperseded}"
| "allowed_transitions ActFailed = {ActRunning, ActSuperseded}"
| "allowed_transitions ActApplied = {ActRolledBack}"
| "allowed_transitions ActSuperseded = {}"
| "allowed_transitions ActRolledBack = {}"

definition transition_activation ::
    "activation \<Rightarrow> activation_state \<Rightarrow> int \<Rightarrow> activation_outcome option \<Rightarrow> bool \<Rightarrow> activation_error + activation" where
  "transition_activation a to t outcome release =
     (if to \<notin> allowed_transitions (ac_state a) then Inl InvalidActivation
      else if MAX_ACTIVATION_HISTORY \<le> length (ac_transitions a) then Inl InvalidActivation
      else if (to \<in> {ActFailed, ActSuperseded}) \<noteq> (outcome \<noteq> None) then Inl InvalidActivation
      else validate_activation (a\<lparr>ac_state := to, ac_version := ac_version a + 1,
        ac_transitions := ac_transitions a @ [\<lparr>tn_sequence = length (ac_transitions a) + 1, tn_from = ac_state a,
          tn_to = to, tn_at = t, tn_outcome = outcome\<rparr>],
        ac_lease_owner := (if release then None else ac_lease_owner a),
        ac_lease_expires := (if release then None else ac_lease_expires a),
        ac_outcome := outcome, ac_updated := t\<rparr>))"

definition has_checkpoint :: "activation \<Rightarrow> checkpoint_kind \<Rightarrow> bool" where
  "has_checkpoint a k \<longleftrightarrow> k \<in> cp_kind ` set (ac_checkpoints a)"

definition record_checkpoint ::
    "activation \<Rightarrow> checkpoint_kind \<Rightarrow> external_outcome \<Rightarrow> string \<Rightarrow> int \<Rightarrow> activation_error + activation" where
  "record_checkpoint a kind outcome digest t =
     (case find (\<lambda>c. cp_kind c = kind) (ac_checkpoints a) of
        Some c \<Rightarrow> if cp_outcome c = outcome \<and> cp_digest c = digest then Inr a else Inl InvalidActivation
      | None \<Rightarrow> validate_activation (a\<lparr>ac_checkpoints := ac_checkpoints a @ [\<lparr>cp_sequence = length (ac_checkpoints a) + 1,
          cp_kind = kind, cp_outcome = outcome, cp_at = t, cp_digest = digest\<rparr>],
          ac_version := ac_version a + 1, ac_updated := t\<rparr>))"

definition acquire_lease :: "activation \<Rightarrow> string \<Rightarrow> int \<Rightarrow> int \<Rightarrow> activation_error + activation" where
  "acquire_lease a owner t expires =
     (if expires \<le> t then Inl InvalidActivation
      else if ac_lease_owner a \<noteq> None \<and> ac_lease_owner a \<noteq> Some owner \<and>
         (case ac_lease_expires a of Some e \<Rightarrow> t < e | None \<Rightarrow> False)
      then Inl InvalidActivation
      else validate_activation (a\<lparr>ac_lease_owner := Some owner, ac_lease_expires := Some expires,
        ac_version := ac_version a + 1, ac_updated := t\<rparr>))"

definition release_lease :: "activation \<Rightarrow> string \<Rightarrow> int \<Rightarrow> activation_error + activation" where
  "release_lease a owner t =
     (if ac_lease_owner a \<noteq> Some owner then Inl InvalidActivation
      else validate_activation (a\<lparr>ac_lease_owner := None, ac_lease_expires := None, ac_version := ac_version a + 1,
        ac_updated := t\<rparr>))"

definition register_readiness :: "activation \<Rightarrow> worker_readiness \<Rightarrow> int \<Rightarrow> activation_error + activation" where
  "register_readiness a r t =
     (if wr_revision r \<noteq> pl_target (ac_plan a) \<or> wr_artifact r \<noteq> pl_artifact (ac_plan a) \<or>
         wr_registration r \<noteq> pl_registration (ac_plan a) \<or>
         sort (wr_definitions r) \<noteq> sort (pl_definitions (ac_plan a))
      then Inl InvalidActivation
      else if ac_readiness a \<noteq> None
      then (if ac_readiness a \<noteq> Some r then Inl InvalidActivation else Inr a)
      else validate_activation (a\<lparr>ac_readiness := Some r, ac_version := ac_version a + 1, ac_updated := t\<rparr>))"

section \<open>Identities of requests\<close>

definition control_identity :: "(string \<Rightarrow> string) \<Rightarrow> string \<Rightarrow> string \<Rightarrow> string \<Rightarrow> activation_error + string" where
  "control_identity sha kind scope_prefix v =
     (if v = [] \<or> MAX_CONTROL_IDENTITY_INPUT_LENGTH < length v then Inl InvalidActivation
      else Inr (identity_text sha kind (scope_prefix @ v)))"

definition publication_identity :: "(string \<Rightarrow> string) \<Rightarrow> string \<Rightarrow> string \<Rightarrow> activation_error + string" where
  "publication_identity sha scope key = control_identity sha ''publication'' (scope @ '':'') key"

definition activation_identity :: "(string \<Rightarrow> string) \<Rightarrow> string \<Rightarrow> string \<Rightarrow> activation_error + string" where
  "activation_identity sha scope key = control_identity sha ''activation'' (scope @ '':'') key"

definition control_identity_digest :: "(string \<Rightarrow> string) \<Rightarrow> string \<Rightarrow> string \<Rightarrow> activation_error + string" where
  "control_identity_digest sha kind v = control_identity sha kind [] v"

definition discard_identity :: "(string \<Rightarrow> string) \<Rightarrow> string \<Rightarrow> string \<Rightarrow> string" where
  "discard_identity sha scope key = identity_text sha ''configuration-discard'' (scope @ '':'' @ key)"

definition activation_request_digest :: "(string \<Rightarrow> string) \<Rightarrow> (rat \<Rightarrow> string) \<Rightarrow> activation_plan \<Rightarrow> string" where
  "activation_request_digest sha sf p = provenance_digest sha sf (JObj
     [(''plan_digest'', JStr (pl_digest p)), (''scope_digest'', JStr (pl_scope p)), (''target_revision_id'', JStr (pl_target p))])"

section \<open>What the transitions keep\<close>

lemma validate_eq_Inr [simp]:
  "validate_publication p = Inr p' \<longleftrightarrow> valid_publication p \<and> p' = p"
  "validate_discard d = Inr d' \<longleftrightarrow> valid_discard d \<and> d' = d"
  "validate_activation a = Inr a' \<longleftrightarrow> valid_activation a \<and> a' = a"
  by (auto simp: validate_publication_def validate_discard_def validate_activation_def)

text \<open>The identity of an activation and its plan.\<close>

definition same_activation :: "activation \<Rightarrow> activation \<Rightarrow> bool" where
  "same_activation a b \<longleftrightarrow>
     (ac_id b, ac_scope b, ac_key b, ac_request b, ac_actor b, ac_correlation b, ac_plan b, ac_rollback_of b, ac_created b) =
     (ac_id a, ac_scope a, ac_key a, ac_request a, ac_actor a, ac_correlation a, ac_plan a, ac_rollback_of a, ac_created a)"

lemma same_activation_refl [simp]: "same_activation a a"
  by (simp add: same_activation_def)

lemma same_activation_trans: "same_activation a b \<Longrightarrow> same_activation b c \<Longrightarrow> same_activation a c"
  by (simp add: same_activation_def)

lemma same_activation_fields:
  "same_activation a b \<Longrightarrow> ac_plan b = ac_plan a \<and> ac_id b = ac_id a \<and> ac_scope b = ac_scope a"
  by (simp add: same_activation_def)

text \<open>Every step of the history is one that is allowed, the first from \<open>ActPending\<close>.\<close>

definition allowed_history :: "activation_transition list \<Rightarrow> bool" where
  "allowed_history ts \<longleftrightarrow> list_all (\<lambda>t. tn_to t \<in> allowed_transitions (tn_from t)) ts \<and>
     (ts \<noteq> [] \<longrightarrow> tn_from (hd ts) = ActPending)"

definition activation_ok :: "activation \<Rightarrow> bool" where
  "activation_ok a \<longleftrightarrow> valid_activation a \<and> allowed_history (ac_transitions a)"

text \<open>
  What an operation makes of an activation: the next version of the same one, in which checkpoints and
  transitions are only added, and the readiness stays once it is there.
\<close>

definition next_activation :: "activation \<Rightarrow> activation \<Rightarrow> bool" where
  "next_activation a b \<longleftrightarrow>
     same_activation a b \<and> activation_ok b \<and> ac_version b = ac_version a + 1 \<and>
     (\<exists>ts. ac_transitions b = ac_transitions a @ ts) \<and> (\<exists>cs. ac_checkpoints b = ac_checkpoints a @ cs) \<and>
     (ac_readiness a \<noteq> None \<longrightarrow> ac_readiness b = ac_readiness a)"

lemma transition_next:
  assumes "transition_activation a to t outcome release = Inr b" "activation_ok a"
  shows "next_activation a b \<and> ac_state b = to \<and> ac_checkpoints b = ac_checkpoints a \<and> to \<in> allowed_transitions (ac_state a)"
proof -
  let ?t = "\<lparr>tn_sequence = length (ac_transitions a) + 1, tn_from = ac_state a, tn_to = to, tn_at = t, tn_outcome = outcome\<rparr>"
  have b: "to \<in> allowed_transitions (ac_state a)" "valid_activation b" "ac_transitions b = ac_transitions a @ [?t]"
      "ac_state b = to" "ac_checkpoints b = ac_checkpoints a" "ac_readiness b = ac_readiness a"
      "ac_version b = ac_version a + 1" "same_activation a b"
    using assms(1) by (auto simp: transition_activation_def same_activation_def split: if_splits)
  have "ac_transitions a = [] \<Longrightarrow> ac_state a = ActPending"
    using assms(2) by (simp add: activation_ok_def valid_activation_def valid_history_def)
  then have "allowed_history (ac_transitions b)"
    using assms(2) b(1) by (auto simp: allowed_history_def activation_ok_def b(3) hd_append)
  then show ?thesis using b by (simp add: next_activation_def activation_ok_def)
qed

lemma checkpoint_next:
  assumes "record_checkpoint a kind outcome digest t = Inr b" "activation_ok a"
  shows "(b = a \<or> next_activation a b) \<and> ac_state b = ac_state a \<and> has_checkpoint b kind \<and>
    (\<forall>k. has_checkpoint b k \<longleftrightarrow> has_checkpoint a k \<or> k = kind)"
proof (cases "find (\<lambda>c. cp_kind c = kind) (ac_checkpoints a)")
  case None
  then show ?thesis
    using assms by (auto simp: record_checkpoint_def next_activation_def activation_ok_def same_activation_def has_checkpoint_def)
next
  case (Some c)
  then have "cp_kind c = kind" "c \<in> set (ac_checkpoints a)" by (auto simp: find_Some_iff)
  then have "has_checkpoint a kind" by (auto simp: has_checkpoint_def)
  then show ?thesis using assms(1) Some by (auto simp: record_checkpoint_def split: if_splits)
qed

lemma acquire_next:
  assumes "acquire_lease a owner t expires = Inr b" "activation_ok a"
  shows "next_activation a b \<and> ac_state b = ac_state a \<and> ac_checkpoints b = ac_checkpoints a \<and>
    ac_lease_owner b = Some owner \<and> ac_lease_expires b = Some expires"
  using assms by (auto simp: acquire_lease_def next_activation_def activation_ok_def same_activation_def split: if_splits)

lemma release_next:
  assumes "release_lease a owner t = Inr b" "activation_ok a"
  shows "next_activation a b \<and> ac_state b = ac_state a \<and> ac_checkpoints b = ac_checkpoints a"
  using assms by (auto simp: release_lease_def next_activation_def activation_ok_def same_activation_def split: if_splits)

lemma readiness_next:
  assumes "register_readiness a r t = Inr b" "activation_ok a"
  shows "(b = a \<or> next_activation a b) \<and> ac_state b = ac_state a \<and> ac_checkpoints b = ac_checkpoints a \<and> ac_readiness b = Some r"
  using assms
  by (auto simp: register_readiness_def next_activation_def activation_ok_def same_activation_def split: if_splits)

text \<open>A history that is full admits no further transition.\<close>

lemma full_history: "MAX_ACTIVATION_HISTORY \<le> length (ac_transitions a) \<Longrightarrow> transition_activation a to t outcome release = Inl InvalidActivation"
  by (simp add: transition_activation_def)

section \<open>What a plan says\<close>

lemma mapping_changes_members:
  "c \<in> set (mapping_changes sha sf scope kind subject target active) \<longleftrightarrow>
     (\<exists>name \<in> set (dict_keys target) \<union> set (dict_keys active). mapping_change sha sf scope kind subject target active name = Some c)"
  by (force simp: mapping_changes_def map_filter_def image_iff)

text \<open>A name has a change iff its values differ, or only one side has it.\<close>

lemma mapping_change_None:
  assumes "name \<in> set (dict_keys target) \<union> set (dict_keys active)"
  shows "mapping_change sha sf scope kind subject target active name = None \<longleftrightarrow>
    (\<exists>t a. dict_get target name = Some t \<and> dict_get active name = Some a \<and> json_dump sf t = json_dump sf a)"
  by (auto simp: mapping_change_def split: option.splits)

lemma mapping_changes_empty:
  "mapping_changes sha sf scope kind subject target active = [] \<longleftrightarrow>
     (\<forall>name. map_option (json_dump sf) (dict_get target name) = map_option (json_dump sf) (dict_get active name))"
  (is "?l \<longleftrightarrow> ?r")
proof
  assume l: ?l
  show ?r
  proof
    fix name
    show "map_option (json_dump sf) (dict_get target name) = map_option (json_dump sf) (dict_get active name)"
    proof (cases "name \<in> set (dict_keys target) \<union> set (dict_keys active)")
      case True
      have "mapping_change sha sf scope kind subject target active name = None"
      proof (rule ccontr)
        assume "mapping_change sha sf scope kind subject target active name \<noteq> None"
        then have "\<exists>c. c \<in> set (mapping_changes sha sf scope kind subject target active)"
          using True unfolding mapping_changes_members by blast
        then show False using l by simp
      qed
      then show ?thesis using mapping_change_None [OF True] by force
    next
      case False
      then have "dict_get target name = None" "dict_get active name = None"
        by (auto simp: dict_keys_def map_of_eq_None_iff)
      then show ?thesis by simp
    qed
  qed
next
  assume r: ?r
  have "mapping_change sha sf scope kind subject target active name = None"
    if "name \<in> set (dict_keys target) \<union> set (dict_keys active)" for name
  proof -
    have "dict_get target name \<noteq> None \<or> dict_get active name \<noteq> None"
      using that by (auto simp: dict_keys_def map_of_eq_None_iff)
    then show ?thesis
      using r [rule_format, of name] by (auto simp: mapping_change_None [OF that] map_option_case split: option.splits)
  qed
  then have "c \<notin> set (mapping_changes sha sf scope kind subject target active)" for c
    unfolding mapping_changes_members by auto
  then show ?l by (metis list.set_intros(1) neq_Nil_conv)
qed

end
