(* ===== verification/JF_Control_Store.thy ===== *)
theory JF_Control_Store
  imports JF_Activation
begin

text \<open>
  The conditional store of publications, discards and activations (\<open>configuration/activation_sqlite.py\<close>): a
  record is created once under its identity and replaced only by its next version, on the condition that
  the version before it is still the stored one. The locale states what a client of such a store relies on;
  it holds for each of the three tables. The length of the JSON form of a record is a parameter.
\<close>

section \<open>Tables\<close>

text \<open>A table by scope digest and identity; the column of the version is that of the record.\<close>

type_synonym 'r rows = "((string \<times> string) \<times> 'r) list"

definition create_row ::
    "('r \<Rightarrow> string \<times> string) \<Rightarrow> ('r \<Rightarrow> string \<times> string) \<Rightarrow> ('r \<Rightarrow> nat) \<Rightarrow> string \<Rightarrow> 'r \<Rightarrow> 'r rows \<Rightarrow>
     activation_error + ('r \<times> 'r rows)" where
  "create_row key request bytes scope r rows =
     (if fst (key r) \<noteq> scope then Inl ActivationIntegrity
      else if MAX_ACTIVATION_RECORD_BYTES < bytes r then Inl ActivationLimit
      else (case dict_get rows (key r) of
          Some x \<Rightarrow> if request x \<noteq> request r then Inl ActivationConflict else Inr (x, rows)
        | None \<Rightarrow> Inr (r, dict_set (key r) r rows)))"

definition read_row :: "('r \<Rightarrow> string \<times> string) \<Rightarrow> string \<Rightarrow> string \<Rightarrow> 'r rows \<Rightarrow> activation_error + 'r" where
  "read_row key scope i rows = (case dict_get rows (scope, i) of
       None \<Rightarrow> Inl ActivationNotFound
     | Some r \<Rightarrow> if key r \<noteq> (scope, i) then Inl ActivationIntegrity else Inr r)"

definition update_row ::
    "('r \<Rightarrow> string \<times> string) \<Rightarrow> ('r \<Rightarrow> int) \<Rightarrow> ('r \<Rightarrow> nat) \<Rightarrow> string \<Rightarrow> 'r \<Rightarrow> int \<Rightarrow> 'r rows \<Rightarrow>
     activation_error + ('r \<times> 'r rows)" where
  "update_row key version bytes scope r expected rows =
     (if fst (key r) \<noteq> scope then Inl ActivationIntegrity
      else if version r \<noteq> expected + 1 then Inl ActivationIntegrity
      else if MAX_ACTIVATION_RECORD_BYTES < bytes r then Inl ActivationLimit
      else (case dict_get rows (key r) of
          Some x \<Rightarrow> if version x \<noteq> expected then Inl ActivationConflict else Inr (r, dict_set (key r) r rows)
        | None \<Rightarrow> Inl ActivationConflict))"

section \<open>The three tables\<close>

definition publication_key :: "publication \<Rightarrow> string \<times> string" where "publication_key p = (pb_scope p, pb_id p)"
definition publication_request :: "publication \<Rightarrow> string \<times> string" where "publication_request p = (pb_request p, pb_key p)"
definition discard_key :: "discard \<Rightarrow> string \<times> string" where "discard_key d = (dc_scope d, dc_id d)"
definition discard_request :: "discard \<Rightarrow> string \<times> string" where "discard_request d = (dc_request d, dc_key d)"
definition activation_key :: "activation \<Rightarrow> string \<times> string" where "activation_key a = (ac_scope a, ac_id a)"
definition activation_request :: "activation \<Rightarrow> string \<times> string" where "activation_request a = (ac_request a, ac_key a)"

definition create_publication ::
    "(publication \<Rightarrow> nat) \<Rightarrow> string \<Rightarrow> publication \<Rightarrow> publication rows \<Rightarrow> activation_error + (publication \<times> publication rows)" where
  "create_publication bytes scope = create_row publication_key publication_request bytes scope"

definition read_publication :: "string \<Rightarrow> string \<Rightarrow> publication rows \<Rightarrow> activation_error + publication" where
  "read_publication = read_row publication_key"

definition update_publication ::
    "(publication \<Rightarrow> nat) \<Rightarrow> string \<Rightarrow> publication \<Rightarrow> int \<Rightarrow> publication rows \<Rightarrow>
     activation_error + (publication \<times> publication rows)" where
  "update_publication bytes scope = update_row publication_key pb_version bytes scope"

definition create_discard ::
    "(discard \<Rightarrow> nat) \<Rightarrow> string \<Rightarrow> discard \<Rightarrow> discard rows \<Rightarrow> activation_error + (discard \<times> discard rows)" where
  "create_discard bytes scope = create_row discard_key discard_request bytes scope"

definition read_discard :: "string \<Rightarrow> string \<Rightarrow> discard rows \<Rightarrow> activation_error + discard" where
  "read_discard = read_row discard_key"

definition update_discard ::
    "(discard \<Rightarrow> nat) \<Rightarrow> string \<Rightarrow> discard \<Rightarrow> int \<Rightarrow> discard rows \<Rightarrow> activation_error + (discard \<times> discard rows)" where
  "update_discard bytes scope = update_row discard_key dc_version bytes scope"

definition create_activation ::
    "(activation \<Rightarrow> nat) \<Rightarrow> string \<Rightarrow> activation \<Rightarrow> activation rows \<Rightarrow> activation_error + (activation \<times> activation rows)" where
  "create_activation bytes scope = create_row activation_key activation_request bytes scope"

definition read_activation :: "string \<Rightarrow> string \<Rightarrow> activation rows \<Rightarrow> activation_error + activation" where
  "read_activation = read_row activation_key"

definition update_activation ::
    "(activation \<Rightarrow> nat) \<Rightarrow> string \<Rightarrow> activation \<Rightarrow> int \<Rightarrow> activation rows \<Rightarrow>
     activation_error + (activation \<times> activation rows)" where
  "update_activation bytes scope = update_row activation_key ac_version bytes scope"

text \<open>\<open>list_activations\<close>: the newest first, from a position on, with the position of the next page.\<close>

definition MAX_ACTIVATION_PAGE_SIZE :: nat where "MAX_ACTIVATION_PAGE_SIZE = 100"

definition before_position :: "(int \<times> string) option \<Rightarrow> activation \<Rightarrow> bool" where
  "before_position position a = (case position of
       None \<Rightarrow> True
     | Some (t, i) \<Rightarrow> ac_created a < t \<or> (ac_created a = t \<and> ac_id a < i))"

definition ordered_activations :: "string \<Rightarrow> activation rows \<Rightarrow> activation list" where
  "ordered_activations scope rows =
     rev (sort_key ac_created (sort_key ac_id (filter (\<lambda>a. ac_scope a = scope) (map snd rows))))"

definition list_activations ::
    "string \<Rightarrow> nat \<Rightarrow> (int \<times> string) option \<Rightarrow> activation rows \<Rightarrow>
     activation_error + (activation list \<times> (int \<times> string) option)" where
  "list_activations scope limit position rows =
     (if \<not> (1 \<le> limit \<and> limit \<le> MAX_ACTIVATION_PAGE_SIZE) then Inl ActivationLimit
      else let found = take (limit + 1) (filter (before_position position) (ordered_activations scope rows));
               selected = take limit found
           in Inr (selected,
             if limit < length found then Some (ac_created (last selected), ac_id (last selected)) else None))"

section \<open>What a client relies on\<close>

text \<open>
  \<open>look\<close> is what is stored under a key. A record is stored when it is new, and replaced by its next version
  only.
\<close>

locale conditional_store =
  fixes key :: "'r \<Rightarrow> 'k" and version :: "'r \<Rightarrow> int"
    and create :: "'r \<Rightarrow> 's \<Rightarrow> activation_error + ('r \<times> 's)"
    and update :: "'r \<Rightarrow> int \<Rightarrow> 's \<Rightarrow> activation_error + ('r \<times> 's)"
    and look :: "'s \<Rightarrow> 'k \<Rightarrow> 'r option"
  assumes create_known: "create r s = Inr (x, s') \<Longrightarrow> look s (key r) = Some y \<Longrightarrow> x = y \<and> s' = s"
    and create_new: "create r s = Inr (x, s') \<Longrightarrow> look s (key r) = None \<Longrightarrow> x = r \<and> look s' = (look s)(key r \<mapsto> r)"
    and update_conditional: "update r expected s = Inr (x, s') \<Longrightarrow>
      x = r \<and> look s' = (look s)(key r \<mapsto> r) \<and> version r = expected + 1 \<and>
      (\<exists>y. look s (key r) = Some y \<and> version y = expected)"
begin

text \<open>A sequence of operations, those that fail included.\<close>

inductive store_step :: "'s \<Rightarrow> 's \<Rightarrow> bool" where
  created: "create r s = Inr (x, s') \<Longrightarrow> store_step s s'"
| updated: "update r expected s = Inr (x, s') \<Longrightarrow> store_step s s'"

lemma step_look:
  assumes "store_step s s'" "look s k = Some x"
  shows "look s' k = Some x \<or> (\<exists>y. look s' k = Some y \<and> version y = version x + 1)"
  using assms(1)
proof cases
  case (created r y)
  then show ?thesis
    using create_known [OF created] create_new [OF created] assms(2) by (cases "look s (key r)") auto
next
  case (updated r expected y)
  then show ?thesis using update_conditional [OF updated] assms(2) by auto
qed

lemma versions_rise:
  assumes "store_step\<^sup>*\<^sup>* s s'" "look s k = Some x"
  shows "\<exists>y. look s' k = Some y \<and> version x \<le> version y \<and> (version y = version x \<longrightarrow> y = x)"
  using assms(1)
proof (induction rule: rtranclp_induct)
  case (step u v)
  then obtain y where y: "look u k = Some y" "version x \<le> version y" "version y = version x \<longrightarrow> y = x" by blast
  from step_look [OF step(2) y(1)] show ?case
  proof
    assume "look v k = Some y"
    then show ?thesis using y by blast
  next
    assume "\<exists>z. look v k = Some z \<and> version z = version y + 1"
    then show ?thesis using y(2) by auto
  qed
qed (use assms(2) in simp)

text \<open>Of two updates on the condition of the same version only one succeeds.\<close>

lemma one_update_wins:
  assumes "update r expected s = Inr (x, s1)" "store_step\<^sup>*\<^sup>* s1 s2" "key r' = key r"
  shows "update r' expected s2 \<noteq> Inr (y, s3)"
proof
  assume second: "update r' expected s2 = Inr (y, s3)"
  from update_conditional [OF assms(1)] have "look s1 (key r) = Some r" "version r = expected + 1" by auto
  with versions_rise [OF assms(2)] obtain z where "look s2 (key r) = Some z" "expected + 1 \<le> version z" by force
  with update_conditional [OF second] assms(3) show False by auto
qed

end

text \<open>The tables are such stores.\<close>

lemma rows_conditional_store:
  "conditional_store key version (create_row key request bytes scope) (update_row key version bytes scope)
    (\<lambda>rows. dict_get rows)"
  by unfold_locales (auto simp: create_row_def update_row_def update_conv split: if_splits option.splits)

interpretation publications: conditional_store publication_key pb_version "create_publication bytes scope"
  "update_publication bytes scope" "\<lambda>rows. dict_get rows" for bytes scope
  unfolding create_publication_def update_publication_def by (rule rows_conditional_store)

interpretation discards: conditional_store discard_key dc_version "create_discard bytes scope"
  "update_discard bytes scope" "\<lambda>rows. dict_get rows" for bytes scope
  unfolding create_discard_def update_discard_def by (rule rows_conditional_store)

interpretation activations: conditional_store activation_key ac_version "create_activation bytes scope"
  "update_activation bytes scope" "\<lambda>rows. dict_get rows" for bytes scope
  unfolding create_activation_def update_activation_def by (rule rows_conditional_store)

end
