(* ===== verification/JF_Controller.thy ===== *)
theory JF_Controller
  imports JF_Control_Store
begin

text \<open>
  The controller of activations (\<open>runtime/configuration_activation.py\<close>): the index of prepared workflow
  targets, and \<open>resume\<close>, which takes an activation through its external operations, each followed by a
  checkpoint. Every method is a function of the record, the answers of the bindings and the time; what it
  does next is a \<open>stage_result\<close>. The bindings of workers and schedules, the catalogue of definitions and the
  preparation of a revision are parameters.
\<close>

section \<open>The index of the runtime\<close>

record index_snapshot =
  ix_revision :: string
  ix_policy :: string
  ix_artifact :: worker_artifact
  ix_targets :: "start_target dict"
  ix_triggers :: "trigger_declaration dict"

record runtime_index =
  ri_max_scopes :: nat
  ri_max_targets :: nat
  ri_entries :: "(runtime_scope \<times> index_snapshot) dict"

definition index_replace ::
    "(string \<Rightarrow> string) \<Rightarrow> runtime_scope \<Rightarrow> index_snapshot \<Rightarrow> runtime_index \<Rightarrow> activation_error + runtime_index" where
  "index_replace sha sc snap ix =
     (if \<not> is_artifact_digest (ix_policy snap) then Inl InvalidActivation
      else if ri_max_targets ix < length (ix_targets snap) then Inl ActivationLimit
      else if \<not> list_all (\<lambda>nt. fst nt = mf_logical_name (tg_manifest (snd nt)) \<and>
          tg_scope_digest (snd nt) = Some (scope_digest_of sha sc) \<and>
          wd_artifact (tg_deployment (snd nt)) = ix_artifact snap) (ix_targets snap) then Inl ActivationIntegrity
      else if \<not> valid_triggers (ix_triggers snap) then Inl InvalidActivation
      else if \<not> list_all (\<lambda>nd. dict_has (ix_targets snap) (trigger_workflow (snd nd))) (ix_triggers snap)
      then Inl ActivationIntegrity
      else if \<not> dict_has (ri_entries ix) (scope_digest_of sha sc) \<and> ri_max_scopes ix \<le> length (ri_entries ix)
      then Inl ActivationLimit
      else Inr (ix\<lparr>ri_entries := dict_set (scope_digest_of sha sc) (sc, snap) (ri_entries ix)\<rparr>))"

definition index_snapshot_of :: "(string \<Rightarrow> string) \<Rightarrow> runtime_index \<Rightarrow> runtime_scope \<Rightarrow> index_snapshot option" where
  "index_snapshot_of sha ix sc = (case dict_get (ri_entries ix) (scope_digest_of sha sc) of
       None \<Rightarrow> None
     | Some (sc', snap) \<Rightarrow> if sc' \<noteq> sc then None else Some snap)"

text \<open>\<open>resolve\<close>: what a starter asks the index.\<close>

definition index_resolve :: "(string \<Rightarrow> string) \<Rightarrow> runtime_index \<Rightarrow> runtime_scope \<Rightarrow> string \<Rightarrow> start_registration option" where
  "index_resolve sha ix sc w = (case index_snapshot_of sha ix sc of
       None \<Rightarrow> None
     | Some snap \<Rightarrow>
         (case dict_get (ix_targets snap) w of
            None \<Rightarrow> None
          | Some t \<Rightarrow> Some \<lparr>sg_target = t, sg_triggers = triggers_for_workflow (ix_triggers snap) w\<rparr>))"

section \<open>Controllers\<close>

text \<open>
  A controller: the digest of its identity, the length of its leases, whether it has bindings for workers
  and schedules, and the hash and float texts of digests.
\<close>

record controller =
  ct_digest :: string
  ct_lease :: int
  ct_workers :: bool
  ct_schedules :: bool
  ct_sha :: "string \<Rightarrow> string"
  ct_float_text :: "rat \<Rightarrow> string"

text \<open>A prepared revision, and the deployment of workers it goes with; manifests are given by their digests.\<close>

record prepared_activation =
  pa_revision :: string
  pa_policy :: string
  pa_artifact :: worker_artifact
  pa_task_queue :: string
  pa_manifests :: "string dict"
  pa_targets :: "start_target dict"
  pa_triggers :: "trigger_declaration dict"

record prepared_deployment =
  pd_registration :: string
  pd_definitions :: "string list"

definition definition_digests :: "prepared_activation \<Rightarrow> string list" where
  "definition_digests p = sort (remdups (map snd (pa_manifests p)))"

text \<open>The stages of \<open>resume\<close>, in its order.\<close>

datatype stage =
    AcquireStage | StartStage | WaitingStage | RestartStage | PrepareStage | DefinitionsStage | RolloutStage
  | ReadinessStage | ReadyStage | SchedulesStage | CatalogStage | RoutingStage | PointerStage | IndexStage | FinishStage

text \<open>
  What a stage comes to: it goes on, it writes a record and goes on, it writes a record and returns (or
  just returns), or it raises an error.
\<close>

datatype stage_result =
    Go stage
  | Save activation stage
  | SaveReturn activation
  | Return
  | Raise activation_error

definition save_or_raise :: "stage \<Rightarrow> activation_error + activation \<Rightarrow> stage_result" where
  "save_or_raise next_stage r = (case r of Inl e \<Rightarrow> Raise e | Inr u \<Rightarrow> Save u next_stage)"

text \<open>\<open>_checkpoint\<close> and \<open>_register_readiness\<close>: a record that stays is not written.\<close>

definition save_changed :: "stage \<Rightarrow> activation \<Rightarrow> activation_error + activation \<Rightarrow> stage_result" where
  "save_changed next_stage a r = (case r of Inl e \<Rightarrow> Raise e | Inr u \<Rightarrow> if u = a then Go next_stage else Save u next_stage)"

definition checkpoint_stage ::
    "stage \<Rightarrow> activation \<Rightarrow> checkpoint_kind \<Rightarrow> external_outcome \<times> string \<Rightarrow> int \<Rightarrow> stage_result" where
  "checkpoint_stage next_stage a kind confirmation t =
     save_changed next_stage a (record_checkpoint a kind (fst confirmation) (snd confirmation) t)"

section \<open>The methods\<close>

definition acquire :: "controller \<Rightarrow> activation \<Rightarrow> int \<Rightarrow> stage_result" where
  "acquire ct a t = (case acquire_lease a (ct_digest ct) t (t + ct_lease ct) of
       Inl _ \<Rightarrow> Raise ActivationConflict | Inr u \<Rightarrow> Save u StartStage)"

definition release :: "controller \<Rightarrow> activation \<Rightarrow> int \<Rightarrow> stage_result" where
  "release ct a t =
     (if ac_lease_owner a = None then Return
      else (case release_lease a (ct_digest ct) t of Inl e \<Rightarrow> Raise e | Inr u \<Rightarrow> SaveReturn u))"

definition start_or_resume :: "activation \<Rightarrow> int \<Rightarrow> stage_result" where
  "start_or_resume a t =
     (if ac_state a \<in> {ActPending, ActFailed} then save_or_raise WaitingStage (transition_activation a ActRunning t None False)
      else Go WaitingStage)"

text \<open>\<open>_waiting\<close>.\<close>

definition wait_for_workers :: "controller \<Rightarrow> activation \<Rightarrow> int \<Rightarrow> stage_result" where
  "wait_for_workers ct a t =
     (if ac_state a = ActWaiting then release ct a t
      else (case transition_activation a ActWaiting t None True of Inl e \<Rightarrow> Raise e | Inr u \<Rightarrow> SaveReturn u))"

text \<open>The reply of a binding: an error of the controller passes, any other gets the code of the operation.\<close>

datatype 'a binding_reply = Replied 'a | Refused activation_outcome bool | Broke

definition binding_result :: "activation_outcome \<Rightarrow> 'a binding_reply \<Rightarrow> activation_error + 'a" where
  "binding_result code reply = (case reply of
       Replied x \<Rightarrow> Inr x | Refused c retryable \<Rightarrow> Inl (ControllerError c retryable) | Broke \<Rightarrow> Inl (ControllerError code True))"

text \<open>\<open>_prepare_record\<close>: what is prepared now must be what was planned.\<close>

definition prepare_record ::
    "activation \<Rightarrow> activation_error + (prepared_activation \<times> prepared_deployment) \<Rightarrow>
     activation_error + (prepared_activation \<times> prepared_deployment)" where
  "prepare_record a prepared = bind_result prepared (\<lambda>(p, d).
     if pa_policy p \<noteq> pl_policy (ac_plan a) \<or> pa_artifact p \<noteq> pl_artifact (ac_plan a) \<or>
        pa_task_queue p \<noteq> pl_task_queue (ac_plan a) \<or> pd_registration d \<noteq> pl_registration (ac_plan a) \<or>
        pd_definitions d \<noteq> pl_definitions (ac_plan a)
     then Inl (ControllerError StalePlan False) else Inr (p, d))"

text \<open>\<open>_read_worker_readiness\<close>; \<open>prepared\<close> is what the preparation gives, if it has to be made.\<close>

definition read_readiness ::
    "controller \<Rightarrow> activation \<Rightarrow> activation_error + (prepared_activation \<times> prepared_deployment) \<Rightarrow>
     worker_readiness option binding_reply \<Rightarrow> activation_error + worker_readiness option" where
  "read_readiness ct a prepared reply =
     (if ac_readiness a \<noteq> None then Inr (ac_readiness a)
      else if \<not> ct_workers ct then Inr None
      else bind_result prepared (\<lambda>_. binding_result WorkerUnavailable reply))"

text \<open>A waiting activation goes on once its workers are ready.\<close>

definition leave_waiting ::
    "controller \<Rightarrow> activation \<Rightarrow> activation_error + (prepared_activation \<times> prepared_deployment) \<Rightarrow>
     worker_readiness option binding_reply \<Rightarrow> int \<Rightarrow> stage_result" where
  "leave_waiting ct a prepared reply t =
     (if ac_state a \<noteq> ActWaiting then Go PrepareStage
      else if ac_readiness a \<noteq> None then Go RestartStage
      else (case read_readiness ct a (prepare_record a prepared) reply of
          Inl e \<Rightarrow> Raise e
        | Inr None \<Rightarrow> release ct a t
        | Inr (Some r) \<Rightarrow> save_changed RestartStage a (register_readiness a r t)))"

definition restart :: "activation \<Rightarrow> int \<Rightarrow> stage_result" where
  "restart a t = save_or_raise PrepareStage (transition_activation a ActRunning t None False)"

definition store_definition_objects ::
    "controller \<Rightarrow> activation \<Rightarrow> prepared_deployment \<Rightarrow> activation_error + unit \<Rightarrow> int \<Rightarrow> stage_result" where
  "store_definition_objects ct a d answer t =
     (if has_checkpoint a DefinitionsStored then Go RolloutStage
      else (case answer of
          Inl e \<Rightarrow> Raise e
        | Inr _ \<Rightarrow> checkpoint_stage RolloutStage a DefinitionsStored (Confirmed,
            provenance_digest (ct_sha ct) (ct_float_text ct) (JObj [(''definitions'', JList (map JStr (pd_definitions d))),
              (''registrations'', JStr (pd_registration d))])) t))"

definition readiness_json :: "worker_readiness \<Rightarrow> string \<Rightarrow> json" where
  "readiness_json r registered_at = JObj
     [(''configuration_revision_id'', JStr (wr_revision r)), (''artifact'', artifact_json (wr_artifact r)),
      (''definition_digests'', JList (map JStr (wr_definitions r))),
      (''task_queue_identity_digest'', JStr (wr_task_queue r)),
      (''deployment_registration_digest'', JStr (wr_registration r)), (''registered_at'', JStr registered_at)]"

text \<open>
  \<open>_ensure_worker_ready\<close> in three stages: the roll-out, the registration of readiness, and its checkpoint. The
  text of a time is a parameter of the digest.
\<close>

definition roll_out_workers ::
    "controller \<Rightarrow> activation \<Rightarrow> (external_outcome \<times> string) binding_reply \<Rightarrow> int \<Rightarrow> stage_result" where
  "roll_out_workers ct a reply t =
     (if \<not> pl_rollout (ac_plan a)
      then (if has_checkpoint a WorkerReady then Go SchedulesStage
            else checkpoint_stage SchedulesStage a WorkerReady (Idempotent, pl_worker_observation (ac_plan a)) t)
      else if ac_readiness a = None \<and> \<not> has_checkpoint a WorkerRollout
      then (if \<not> ct_workers ct then wait_for_workers ct a t
            else (case binding_result WorkerUnavailable reply of
                Inl e \<Rightarrow> Raise e
              | Inr confirmation \<Rightarrow> checkpoint_stage ReadinessStage a WorkerRollout confirmation t))
      else Go ReadinessStage)"

definition await_readiness ::
    "controller \<Rightarrow> activation \<Rightarrow> prepared_activation \<times> prepared_deployment \<Rightarrow> worker_readiness option binding_reply \<Rightarrow> int \<Rightarrow>
     stage_result" where
  "await_readiness ct a prepared reply t =
     (if ac_readiness a \<noteq> None then Go ReadyStage
      else (case read_readiness ct a (Inr prepared) reply of
          Inl e \<Rightarrow> Raise e
        | Inr None \<Rightarrow> wait_for_workers ct a t
        | Inr (Some r) \<Rightarrow> save_changed ReadyStage a (register_readiness a r t)))"

definition confirm_readiness ::
    "controller \<Rightarrow> activation \<Rightarrow> prepared_activation \<Rightarrow> (int \<Rightarrow> string) \<Rightarrow> int \<Rightarrow> stage_result" where
  "confirm_readiness ct a p time_text t = (case ac_readiness a of
       None \<Rightarrow> Raise ActivationIntegrity
     | Some r \<Rightarrow>
         if wr_task_queue r \<noteq> pa_task_queue p then Raise (ControllerError WorkerUnavailable False)
         else if has_checkpoint a WorkerReady then Go SchedulesStage
         else checkpoint_stage SchedulesStage a WorkerReady (Confirmed,
           provenance_digest (ct_sha ct) (ct_float_text ct) (readiness_json r (time_text (wr_registered r)))) t)"

definition reconcile_schedules ::
    "controller \<Rightarrow> activation \<Rightarrow> (external_outcome \<times> string) binding_reply \<Rightarrow> int \<Rightarrow> stage_result" where
  "reconcile_schedules ct a reply t =
     (if \<not> pl_reconcile (ac_plan a) \<or> has_checkpoint a SchedulesReconciled then Go CatalogStage
      else if \<not> ct_schedules ct then Raise (ControllerError SchedulesUnavailable True)
      else (case binding_result SchedulesUnavailable reply of
          Inl e \<Rightarrow> Raise e
        | Inr confirmation \<Rightarrow> checkpoint_stage CatalogStage a SchedulesReconciled confirmation t))"

text \<open>
  What a controller shares with others besides the store: the pointer to the active revision with its
  version, the aliases of the catalogue with theirs, and the index. \<open>cw_moves\<close> records the pointers that
  this activation has set.
\<close>

record control_world =
  cw_pointer :: "(string \<times> int) option"
  cw_aliases :: "string dict"
  cw_alias_version :: "string option"
  cw_index :: runtime_index
  cw_moves :: "(string \<times> int) list"

definition catalog_json :: "string dict \<Rightarrow> string option \<Rightarrow> json" where
  "catalog_json aliases version =
     JObj [(''aliases'', JObj (map (map_prod id JStr) aliases)), (''version'', option_json version)]"

text \<open>\<open>replaced\<close> is what the catalogue answers to new aliases: their version, or an error.\<close>

definition switch_catalog ::
    "controller \<Rightarrow> activation \<Rightarrow> prepared_activation \<Rightarrow> activation_error + unit \<Rightarrow> activation_error + string \<Rightarrow> int \<Rightarrow>
     control_world \<Rightarrow> stage_result \<times> control_world" where
  "switch_catalog ct a p inspected replaced t w =
     (if \<not> pl_publish (ac_plan a) \<or> has_checkpoint a CatalogSwitched then (Go RoutingStage, w)
      else (case inspected of
          Inl e \<Rightarrow> (Raise e, w)
        | Inr _ \<Rightarrow>
            if set (cw_aliases w) = set (pa_manifests p)
            then (checkpoint_stage RoutingStage a CatalogSwitched (Idempotent,
              provenance_digest (ct_sha ct) (ct_float_text ct) (catalog_json (pa_manifests p) (cw_alias_version w))) t, w)
            else if cw_alias_version w \<noteq> pl_alias_version (ac_plan a) then (Raise CatalogConflict, w)
            else (case replaced of
                Inl e \<Rightarrow> (Raise e, w)
              | Inr v \<Rightarrow> (checkpoint_stage RoutingStage a CatalogSwitched (Confirmed,
                  provenance_digest (ct_sha ct) (ct_float_text ct) (catalog_json (pa_manifests p) (Some v))) t,
                  w\<lparr>cw_aliases := pa_manifests p, cw_alias_version := Some v\<rparr>))))"

definition switch_routing ::
    "controller \<Rightarrow> activation \<Rightarrow> (external_outcome \<times> string) binding_reply \<Rightarrow> (int \<Rightarrow> string) \<Rightarrow> int \<Rightarrow> stage_result" where
  "switch_routing ct a reply time_text t =
     (if \<not> pl_switch (ac_plan a) \<or> has_checkpoint a WorkersRouted then Go PointerStage
      else if \<not> ct_workers ct
      then checkpoint_stage PointerStage a WorkersRouted (Idempotent,
        (case ac_readiness a of
           None \<Rightarrow> pl_worker_observation (ac_plan a)
         | Some r \<Rightarrow> provenance_digest (ct_sha ct) (ct_float_text ct) (readiness_json r (time_text (wr_registered r))))) t
      else (case binding_result RoutingUnavailable reply of
          Inl e \<Rightarrow> Raise e
        | Inr confirmation \<Rightarrow> checkpoint_stage PointerStage a WorkersRouted confirmation t))"

definition pointer_json :: "string \<Rightarrow> string \<times> int \<Rightarrow> json" where
  "pointer_json scope p =
     JObj [(''scope_digest'', JStr scope), (''revision_id'', JStr (fst p)), (''version'', JInt (snd p))]"

text \<open>\<open>compare_and_swap_active\<close> of the store of configurations.\<close>

definition compare_and_swap_active ::
    "(string \<times> int) option \<Rightarrow> string \<Rightarrow> string option \<Rightarrow> int option \<Rightarrow> activation_error + (string \<times> int)" where
  "compare_and_swap_active current revision expected expected_version =
     (if map_option fst current \<noteq> expected \<or> (expected_version \<noteq> None \<and> map_option snd current \<noteq> expected_version)
      then Inl ConfigurationConflict
      else Inr (revision, (case current of None \<Rightarrow> 1 | Some (_, v) \<Rightarrow> v + 1)))"

text \<open>
  \<open>seen\<close> is the pointer that is read first; others may move it before it is swapped.
\<close>

definition advance_active_pointer ::
    "controller \<Rightarrow> activation \<Rightarrow> (string \<times> int) option \<Rightarrow> int \<Rightarrow> control_world \<Rightarrow> stage_result \<times> control_world" where
  "advance_active_pointer ct a seen t w =
     (if has_checkpoint a PointerAdvanced then (Go IndexStage, w)
      else let plan = ac_plan a;
               next_version = (case pl_pointer_version plan of None \<Rightarrow> 1 | Some v \<Rightarrow> v + 1);
               digest = (\<lambda>p. provenance_digest (ct_sha ct) (ct_float_text ct) (pointer_json (ac_scope a) p))
           in if seen = Some (pl_target plan, next_version)
              then (checkpoint_stage IndexStage a PointerAdvanced (Idempotent, digest (pl_target plan, next_version)) t, w)
              else (case compare_and_swap_active (cw_pointer w) (pl_target plan) (pl_expected plan) (pl_pointer_version plan) of
                  Inl e \<Rightarrow> (Raise e, w)
                | Inr p \<Rightarrow> (checkpoint_stage IndexStage a PointerAdvanced (Confirmed, digest p) t,
                    w\<lparr>cw_pointer := Some p, cw_moves := cw_moves w @ [p]\<rparr>)))"

definition replace_runtime_index ::
    "controller \<Rightarrow> runtime_scope \<Rightarrow> activation \<Rightarrow> prepared_activation \<Rightarrow> int \<Rightarrow> control_world \<Rightarrow> stage_result \<times> control_world" where
  "replace_runtime_index ct sc a p t w =
     (if has_checkpoint a IndexReplaced then (Go FinishStage, w)
      else (case index_replace (ct_sha ct) sc \<lparr>ix_revision = pa_revision p, ix_policy = pa_policy p,
            ix_artifact = pa_artifact p, ix_targets = pa_targets p, ix_triggers = pa_triggers p\<rparr> (cw_index w) of
          Inl e \<Rightarrow> (Raise e, w)
        | Inr ix \<Rightarrow> (checkpoint_stage FinishStage a IndexReplaced (Confirmed,
            provenance_digest (ct_sha ct) (ct_float_text ct) (JObj
              [(''definitions'', JList (map JStr (definition_digests p))), (''revision_id'', JStr (pa_revision p)),
               (''scope_digest'', JStr (scope_digest_of (ct_sha ct) sc))])) t, w\<lparr>cw_index := ix\<rparr>)))"

definition finish_activation :: "activation \<Rightarrow> int \<Rightarrow> stage_result" where
  "finish_activation a t = (case transition_activation a ActApplied t None True of
       Inl e \<Rightarrow> Raise e | Inr u \<Rightarrow> SaveReturn u)"

section \<open>Errors\<close>

text \<open>
  The \<open>except\<close> clauses of \<open>resume\<close>: the state and the code that the activation ends in, and whether an error
  is raised after; \<open>None\<close> is an error that none of them catches.
\<close>

fun resume_handler :: "activation_error \<Rightarrow> (activation_state \<times> activation_outcome \<times> bool) option" where
  "resume_handler ConfigurationConflict = Some (ActSuperseded, ConfigurationConflicted, False)"
| "resume_handler CatalogConflict = Some (ActSuperseded, StalePlan, False)"
| "resume_handler (ControllerError code _) = Some (ActFailed, code, True)"
| "resume_handler CatalogFailure = Some (ActFailed, DefinitionsUnavailable, True)"
| "resume_handler ConfigurationFailure = Some (ActFailed, InternalError, True)"
| "resume_handler _ = None"

definition settled :: "activation \<Rightarrow> bool" where
  "settled a \<longleftrightarrow> ac_state a \<in> {ActApplied, ActSuperseded, ActRolledBack}"

text \<open>\<open>_terminal\<close>, of the record as it is read then; \<open>None\<close> writes nothing.\<close>

definition terminate_activation ::
    "activation \<Rightarrow> activation_state \<Rightarrow> activation_outcome \<Rightarrow> int \<Rightarrow> activation_error + activation option" where
  "terminate_activation current state outcome t =
     (if settled current then Inr None
      else map_sum id Some (transition_activation current state t (Some outcome) True))"

section \<open>Planning and requesting\<close>

text \<open>Observations of the workers, by the binding or from the index.\<close>

record worker_observation =
  wo_digest :: string
  wo_registered :: "string list"
  wo_artifact :: "worker_artifact option"

definition observe_workers ::
    "controller \<Rightarrow> runtime_scope \<Rightarrow> worker_observation binding_reply \<Rightarrow> runtime_index \<Rightarrow> activation_error + worker_observation" where
  "observe_workers ct sc reply ix =
     (if ct_workers ct then binding_result WorkerUnavailable reply
      else let snap = index_snapshot_of (ct_sha ct) ix sc;
               definitions = (case snap of None \<Rightarrow> [] | Some x \<Rightarrow>
                 remdups (map (\<lambda>nt. mf_definition_digest (tg_manifest (snd nt))) (ix_targets x)))
           in Inr \<lparr>wo_digest = provenance_digest (ct_sha ct) (ct_float_text ct) (JObj
                [(''artifact'', (case snap of None \<Rightarrow> JNull | Some x \<Rightarrow> artifact_json (ix_artifact x))),
                 (''definitions'', JList (map JStr (sort definitions))),
                 (''scope_digest'', JStr (scope_digest_of (ct_sha ct) sc))]),
                wo_registered = definitions, wo_artifact = map_option ix_artifact snap\<rparr>)"

definition observe_schedules :: "controller \<Rightarrow> runtime_scope \<Rightarrow> string binding_reply \<Rightarrow> activation_error + string" where
  "observe_schedules ct sc reply =
     (if \<not> ct_schedules ct
      then Inr (provenance_digest (ct_sha ct) (ct_float_text ct) (JObj
        [(''binding'', JStr ''unavailable''), (''scope_digest'', JStr (scope_digest_of (ct_sha ct) sc))]))
      else bind_result (binding_result SchedulesUnavailable reply) (\<lambda>d.
        if is_artifact_digest d then Inr d else Inl (ControllerError SchedulesUnavailable True)))"

text \<open>
  \<open>plan\<close>: \<open>prepared\<close> is the target and its deployment with its bundle, \<open>active\<close> the bundle of the active
  revision, \<open>definitions\<close> the digests of all definitions of the deployment.
\<close>

definition plan_activation ::
    "controller \<Rightarrow> runtime_scope \<Rightarrow> string \<Rightarrow> activation_error + (prepared_activation \<times> prepared_deployment) \<Rightarrow> configuration_bundle \<Rightarrow>
     configuration_bundle option \<Rightarrow> string list \<Rightarrow> worker_observation binding_reply \<Rightarrow> string binding_reply \<Rightarrow> control_world \<Rightarrow>
     activation_error + activation_plan" where
  "plan_activation ct sc revision prepared bundle active definitions worker_reply schedule_reply w =
     bind_result prepared (\<lambda>(p, d).
     bind_result (observe_workers ct sc worker_reply (cw_index w)) (\<lambda>workers.
     bind_result (observe_schedules ct sc schedule_reply) (\<lambda>schedules.
       (let indexed = (case (index_snapshot_of (ct_sha ct) (cw_index w) sc, cw_pointer w) of
              (Some x, Some (r, _)) \<Rightarrow> if ix_revision x = r then Some x else None
            | _ \<Rightarrow> None)
        in plan_configuration_activation (ct_sha ct) (ct_float_text ct) (scope_digest_of (ct_sha ct) sc) revision bundle
             (pa_artifact p) (pa_task_queue p) (pd_registration d) definitions
             \<lparr>ob_pointer_version = map_option snd (cw_pointer w), ob_alias_version = cw_alias_version w,
              ob_policy = pa_policy p, ob_worker = wo_digest workers, ob_schedule = schedules,
              ob_registered = wo_registered workers\<rparr>
             (map_option fst (cw_pointer w)) active
             (case indexed of Some x \<Rightarrow> Some (ix_artifact x) | None \<Rightarrow> wo_artifact workers)
             (map_option ix_policy indexed)))))"

record activate_request =
  aq_revision :: string
  aq_plan_digest :: string
  aq_key :: string
  aq_actor :: string
  aq_correlation :: string
  aq_rollback_of :: "string option"

text \<open>\<open>activate\<close> up to \<open>resume\<close>: the record that is resumed, and the table.\<close>

definition new_activation ::
    "controller \<Rightarrow> runtime_scope \<Rightarrow> activate_request \<Rightarrow> activation_plan \<Rightarrow> int \<Rightarrow> activation_error + activation" where
  "new_activation ct sc rq plan now =
     (let scope = scope_digest_of (ct_sha ct) sc in
      bind_result (activation_identity (ct_sha ct) scope (aq_key rq)) (\<lambda>i.
      bind_result (control_identity_digest (ct_sha ct) ''activation-key'' (aq_key rq)) (\<lambda>key.
      bind_result (control_identity_digest (ct_sha ct) ''activation-actor'' (aq_actor rq)) (\<lambda>actor.
      bind_result (control_identity_digest (ct_sha ct) ''activation-correlation'' (aq_correlation rq)) (\<lambda>correlation.
        validate_activation
          \<lparr>ac_id = i, ac_scope = scope, ac_key = key,
           ac_request = provenance_digest (ct_sha ct) (ct_float_text ct) (JObj
             [(''activation'', JStr (activation_request_digest (ct_sha ct) (ct_float_text ct) plan)),
              (''rollback_of_activation_id'', option_json (aq_rollback_of rq))]),
           ac_actor = actor, ac_correlation = correlation, ac_plan = plan, ac_state = ActPending, ac_version = 1,
           ac_transitions = [], ac_checkpoints = [], ac_lease_owner = None, ac_lease_expires = None, ac_readiness = None,
           ac_rollback_of = aq_rollback_of rq, ac_outcome = None, ac_created = now, ac_updated = now\<rparr>)))))"

definition activate ::
    "controller \<Rightarrow> runtime_scope \<Rightarrow> (activation \<Rightarrow> nat) \<Rightarrow> activate_request \<Rightarrow> activation_error + activation_plan \<Rightarrow> int \<Rightarrow>
     activation rows \<Rightarrow> activation_error + (activation \<times> activation rows)" where
  "activate ct sc bytes rq planned now rows =
     (let scope = scope_digest_of (ct_sha ct) sc in
      bind_result (activation_identity (ct_sha ct) scope (aq_key rq)) (\<lambda>i.
      bind_result (control_identity_digest (ct_sha ct) ''activation-actor'' (aq_actor rq)) (\<lambda>actor.
        (case read_activation scope i rows of
           Inr a \<Rightarrow>
             if pl_digest (ac_plan a) \<noteq> aq_plan_digest rq \<or> pl_target (ac_plan a) \<noteq> aq_revision rq \<or>
                ac_rollback_of a \<noteq> aq_rollback_of rq \<or> ac_actor a \<noteq> actor
             then Inl ActivationConflict else Inr (a, rows)
         | Inl e \<Rightarrow>
             if e \<noteq> ActivationNotFound then Inl e
             else bind_result planned (\<lambda>plan.
               if pl_digest plan \<noteq> aq_plan_digest rq then Inl (ControllerError StalePlan False)
               else bind_result (new_activation ct sc rq plan now) (\<lambda>pending.
                 bind_result (create_activation bytes scope pending rows) (\<lambda>(a, rows').
                   if ac_request a \<noteq> ac_request pending then Inl ActivationConflict else Inr (a, rows'))))))))"

text \<open>\<open>rollback\<close> before and after the activation of the revision that was active before.\<close>

definition rollback_target :: "activation \<Rightarrow> activation_error + string" where
  "rollback_target original =
     (if ac_state original \<notin> {ActApplied, ActRolledBack} then Inl ActivationConflict
      else (case pl_expected (ac_plan original) of
          None \<Rightarrow> Inl (ControllerError ConfigurationConflicted False) | Some r \<Rightarrow> Inr r))"

definition mark_rolled_back :: "activation \<Rightarrow> activation \<Rightarrow> int \<Rightarrow> activation_error + activation option" where
  "mark_rolled_back original rollback t =
     (if ac_state rollback = ActApplied \<and> ac_state original = ActApplied
      then map_sum id Some (transition_activation original ActRolledBack t None False) else Inr None)"

section \<open>A stage of \<open>resume\<close>\<close>

text \<open>What a stage is answered: the time, and the replies it may need.\<close>

record stage_answers =
  an_now :: int
  an_prepared :: "activation_error + (prepared_activation \<times> prepared_deployment)"
  an_readiness :: "worker_readiness option binding_reply"
  an_confirmation :: "(external_outcome \<times> string) binding_reply"
  an_stored :: "activation_error + unit"
  an_replaced :: "activation_error + string"
  an_seen :: "(string \<times> int) option"
  an_text :: "int \<Rightarrow> string"

definition prepared_stage ::
    "controller \<Rightarrow> runtime_scope \<Rightarrow> stage \<Rightarrow> activation \<Rightarrow> prepared_activation \<Rightarrow> prepared_deployment \<Rightarrow> stage_answers \<Rightarrow>
     control_world \<Rightarrow> stage_result \<times> control_world" where
  "prepared_stage ct sc st a p d an w = (case st of
       DefinitionsStage \<Rightarrow> (store_definition_objects ct a d (an_stored an) (an_now an), w)
     | RolloutStage \<Rightarrow> (roll_out_workers ct a (an_confirmation an) (an_now an), w)
     | ReadinessStage \<Rightarrow> (await_readiness ct a (p, d) (an_readiness an) (an_now an), w)
     | ReadyStage \<Rightarrow> (confirm_readiness ct a p (an_text an) (an_now an), w)
     | SchedulesStage \<Rightarrow> (reconcile_schedules ct a (an_confirmation an) (an_now an), w)
     | CatalogStage \<Rightarrow> switch_catalog ct a p (an_stored an) (an_replaced an) (an_now an) w
     | RoutingStage \<Rightarrow> (switch_routing ct a (an_confirmation an) (an_text an) (an_now an), w)
     | PointerStage \<Rightarrow> advance_active_pointer ct a (an_seen an) (an_now an) w
     | IndexStage \<Rightarrow> replace_runtime_index ct sc a p (an_now an) w
     | FinishStage \<Rightarrow> (finish_activation a (an_now an), w)
     | _ \<Rightarrow> (Return, w))"

text \<open>A stage with the record that is known, what has been prepared so far, and the world.\<close>

definition run_stage ::
    "controller \<Rightarrow> runtime_scope \<Rightarrow> stage \<Rightarrow> activation \<Rightarrow> (prepared_activation \<times> prepared_deployment) option \<Rightarrow> stage_answers \<Rightarrow>
     control_world \<Rightarrow> stage_result \<times> (prepared_activation \<times> prepared_deployment) option \<times> control_world" where
  "run_stage ct sc st a prepared an w = (case st of
       AcquireStage \<Rightarrow> (acquire ct a (an_now an), prepared, w)
     | StartStage \<Rightarrow> (start_or_resume a (an_now an), prepared, w)
     | WaitingStage \<Rightarrow> (leave_waiting ct a (an_prepared an) (an_readiness an) (an_now an), prepared, w)
     | RestartStage \<Rightarrow> (restart a (an_now an), prepared, w)
     | PrepareStage \<Rightarrow>
         (case prepare_record a (an_prepared an) of
            Inl e \<Rightarrow> (Raise e, prepared, w) | Inr pd \<Rightarrow> (Go DefinitionsStage, Some pd, w))
     | _ \<Rightarrow>
         (case prepared of
            None \<Rightarrow> (Return, None, w)
          | Some (p, d) \<Rightarrow> (case prepared_stage ct sc st a p d an w of (r, w') \<Rightarrow> (r, prepared, w'))))"

end
