(* ===== verification/JF_Activations.thy ===== *)
theory JF_Activations
  imports JF_Controller
begin

text \<open>
  An activation under several controllers, which resume it, crash, lose their lease and race with each other
  and with other activations: the step relation over the store, the world and the processes, the
  invariant of its runs, and what follows for an activation that is applied.
\<close>

section \<open>The state and its steps\<close>

text \<open>
  A process resumes the activation with the record it knows: it is in a stage, it has a record to write
  over that record, or an error has been raised. \<open>cl_history\<close> are the pointers to active revisions so far,
  whoever has set them.
\<close>

datatype process =
    Running stage activation "(prepared_activation \<times> prepared_deployment) option"
  | Saving activation activation "stage option" "(prepared_activation \<times> prepared_deployment) option"
  | Failing activation_error

record control =
  cl_rows :: "activation rows"
  cl_world :: control_world
  cl_procs :: "nat \<Rightarrow> process option"
  cl_history :: "(string \<times> int) list"

fun after_stage ::
    "activation \<Rightarrow> (prepared_activation \<times> prepared_deployment) option \<Rightarrow> stage_result \<Rightarrow> process option" where
  "after_stage a prep (Go st) = Some (Running st a prep)"
| "after_stage a prep (Save u st) = Some (Saving u a (Some st) prep)"
| "after_stage a prep (SaveReturn u) = Some (Saving u a None prep)"
| "after_stage a prep Return = None"
| "after_stage a prep (Raise e) = Some (Failing e)"

definition set_process :: "nat \<Rightarrow> process option \<Rightarrow> control \<Rightarrow> control" where
  "set_process n p s = s\<lparr>cl_procs := (cl_procs s)(n := p)\<rparr>"

text \<open>
  The pointer that a process has read is one of the history, or none. Other activations move the pointer,
  change the aliases and the index, and have their own records; a process can end anywhere.
\<close>

inductive control_step ::
    "(nat \<Rightarrow> controller) \<Rightarrow> runtime_scope \<Rightarrow> (activation \<Rightarrow> nat) \<Rightarrow> string \<Rightarrow> string \<Rightarrow> control \<Rightarrow> control \<Rightarrow> bool"
    for cts sc bytes scope i where
  resume_begins: "read_activation scope i (cl_rows s) = Inr a \<Longrightarrow> \<not> settled a \<Longrightarrow> cl_procs s n = None \<Longrightarrow>
    control_step cts sc bytes scope i s (set_process n (Some (Running AcquireStage a None)) s)"
| stage_runs: "cl_procs s n = Some (Running st a prep) \<Longrightarrow>
    an_seen an = None \<or> an_seen an \<in> Some ` set (cl_history s) \<Longrightarrow>
    run_stage (cts n) sc st a prep an (cl_world s) = (result, prep', w) \<Longrightarrow>
    control_step cts sc bytes scope i s ((set_process n (after_stage a prep' result) s)
      \<lparr>cl_world := w, cl_history := cl_history s @
        (if cw_pointer w = cw_pointer (cl_world s) then [] else list_of_option (cw_pointer w))\<rparr>)"
| record_saved: "cl_procs s n = Some (Saving u a next_stage prep) \<Longrightarrow>
    update_activation bytes scope u (ac_version a) (cl_rows s) = Inr (x, rows) \<Longrightarrow>
    control_step cts sc bytes scope i s
      ((set_process n (map_option (\<lambda>st. Running st u prep) next_stage) s)\<lparr>cl_rows := rows\<rparr>)"
| save_fails: "cl_procs s n = Some (Saving u a next_stage prep) \<Longrightarrow>
    update_activation bytes scope u (ac_version a) (cl_rows s) = Inl e \<Longrightarrow>
    control_step cts sc bytes scope i s (set_process n (Some (Failing e)) s)"
| failure_recorded: "cl_procs s n = Some (Failing e) \<Longrightarrow> resume_handler e = Some (state, outcome, raised) \<Longrightarrow>
    read_activation scope i (cl_rows s) = Inr a \<Longrightarrow> terminate_activation a state outcome t = Inr (Some u) \<Longrightarrow>
    update_activation bytes scope u (ac_version a) (cl_rows s) = Inr (x, rows) \<Longrightarrow>
    control_step cts sc bytes scope i s ((set_process n None s)\<lparr>cl_rows := rows\<rparr>)"
| process_ends: "control_step cts sc bytes scope i s (set_process n None s)"
| readiness_registered: "read_activation scope i (cl_rows s) = Inr a \<Longrightarrow> register_readiness a r t = Inr u \<Longrightarrow>
    update_activation bytes scope u (ac_version a) (cl_rows s) = Inr (x, rows) \<Longrightarrow>
    control_step cts sc bytes scope i s (s\<lparr>cl_rows := rows\<rparr>)"
| rolled_back: "read_activation scope i (cl_rows s) = Inr a \<Longrightarrow> mark_rolled_back a rollback t = Inr (Some u) \<Longrightarrow>
    update_activation bytes scope u (ac_version a) (cl_rows s) = Inr (x, rows) \<Longrightarrow>
    control_step cts sc bytes scope i s (s\<lparr>cl_rows := rows\<rparr>)"
| pointer_moved: "compare_and_swap_active (cw_pointer (cl_world s)) revision expected expected_version = Inr p \<Longrightarrow>
    control_step cts sc bytes scope i s
      (s\<lparr>cl_world := (cl_world s)\<lparr>cw_pointer := Some p\<rparr>, cl_history := cl_history s @ [p]\<rparr>)"
| world_changes: "cw_pointer w = cw_pointer (cl_world s) \<Longrightarrow> cw_moves w = cw_moves (cl_world s) \<Longrightarrow>
    control_step cts sc bytes scope i s (s\<lparr>cl_world := w\<rparr>)"
| others_stored: "dict_get rows (scope, i) = dict_get (cl_rows s) (scope, i) \<Longrightarrow>
    control_step cts sc bytes scope i s (s\<lparr>cl_rows := rows\<rparr>)"

text \<open>An activation that has just been created, with the pointer as it was.\<close>

definition new_control :: "activation rows \<Rightarrow> control_world \<Rightarrow> control" where
  "new_control rows w = \<lparr>cl_rows = rows, cl_world = w\<lparr>cw_moves := []\<rparr>, cl_procs = (\<lambda>_. None),
     cl_history = list_of_option (cw_pointer w)\<rparr>"

section \<open>What a stage needs\<close>

text \<open>The checkpoints that have been made when a stage is reached, for the actions of a plan.\<close>

fun stage_rank :: "stage \<Rightarrow> nat" where
  "stage_rank FinishStage = 6"
| "stage_rank IndexStage = 5"
| "stage_rank PointerStage = 4"
| "stage_rank RoutingStage = 3"
| "stage_rank CatalogStage = 2"
| "stage_rank SchedulesStage = 1"
| "stage_rank _ = 0"

function stage_needs :: "activation_plan \<Rightarrow> stage \<Rightarrow> checkpoint_kind set" where
  "stage_needs p FinishStage = insert IndexReplaced (stage_needs p IndexStage)"
| "stage_needs p IndexStage = insert PointerAdvanced (stage_needs p PointerStage)"
| "stage_needs p PointerStage = (if pl_switch p then {WorkersRouted} else {}) \<union> stage_needs p RoutingStage"
| "stage_needs p RoutingStage = (if pl_publish p then {CatalogSwitched} else {}) \<union> stage_needs p CatalogStage"
| "stage_needs p CatalogStage = (if pl_reconcile p then {SchedulesReconciled} else {}) \<union> stage_needs p SchedulesStage"
| "stage_needs p SchedulesStage = {DefinitionsStored, WorkerReady}"
| "stage_needs p ReadyStage = {DefinitionsStored}"
| "stage_needs p ReadinessStage = {DefinitionsStored}"
| "stage_needs p RolloutStage = {DefinitionsStored}"
| "stage_needs p DefinitionsStage = {}"
| "stage_needs p PrepareStage = {}"
| "stage_needs p RestartStage = {}"
| "stage_needs p WaitingStage = {}"
| "stage_needs p StartStage = {}"
| "stage_needs p AcquireStage = {}"
  by pat_completeness auto
termination by (relation "measure (\<lambda>(p, st). stage_rank st)") auto

fun checkpoint_stage_of :: "checkpoint_kind \<Rightarrow> stage" where
  "checkpoint_stage_of DefinitionsStored = DefinitionsStage"
| "checkpoint_stage_of WorkerRollout = RolloutStage"
| "checkpoint_stage_of WorkerReady = ReadyStage"
| "checkpoint_stage_of SchedulesReconciled = SchedulesStage"
| "checkpoint_stage_of CatalogSwitched = CatalogStage"
| "checkpoint_stage_of WorkersRouted = RoutingStage"
| "checkpoint_stage_of PointerAdvanced = PointerStage"
| "checkpoint_stage_of IndexReplaced = IndexStage"

definition checkpoint_kinds :: "activation \<Rightarrow> checkpoint_kind set" where
  "checkpoint_kinds a = cp_kind ` set (ac_checkpoints a)"

lemma has_checkpoint_kinds: "has_checkpoint a k \<longleftrightarrow> k \<in> checkpoint_kinds a"
  by (simp add: has_checkpoint_def checkpoint_kinds_def)

text \<open>The readiness of the workers of a plan: registered for its target, and for its task queue once confirmed.\<close>

definition readiness_fits :: "activation_plan \<Rightarrow> worker_readiness \<Rightarrow> bool" where
  "readiness_fits p r \<longleftrightarrow> wr_revision r = pl_target p \<and> wr_artifact r = pl_artifact p \<and>
     wr_registration r = pl_registration p \<and> sort (wr_definitions r) = sort (pl_definitions p)"

definition workers_ready :: "activation \<Rightarrow> bool" where
  "workers_ready a \<longleftrightarrow> (\<exists>r. ac_readiness a = Some r \<and> readiness_fits (ac_plan a) r \<and> wr_task_queue r = pl_task_queue (ac_plan a))"

definition next_pointer :: "activation_plan \<Rightarrow> string \<times> int" where
  "next_pointer p = (pl_target p, case pl_pointer_version p of None \<Rightarrow> 1 | Some v \<Rightarrow> v + 1)"

text \<open>
  A record in order: every checkpoint was made after those it needs, the workers were ready if a roll-out
  was planned, the pointer was moved, and an applied activation has everything.
\<close>

definition record_ok :: "(string \<times> int) list \<Rightarrow> activation \<Rightarrow> bool" where
  "record_ok history a \<longleftrightarrow>
     activation_ok a \<and>
     (\<forall>k \<in> checkpoint_kinds a. stage_needs (ac_plan a) (checkpoint_stage_of k) \<subseteq> checkpoint_kinds a) \<and>
     pred_option (readiness_fits (ac_plan a)) (ac_readiness a) \<and>
     (WorkerReady \<in> checkpoint_kinds a \<and> pl_rollout (ac_plan a) \<longrightarrow> workers_ready a) \<and>
     (PointerAdvanced \<in> checkpoint_kinds a \<longrightarrow> next_pointer (ac_plan a) \<in> set history) \<and>
     (ac_state a \<in> {ActApplied, ActRolledBack} \<longrightarrow> stage_needs (ac_plan a) FinishStage \<subseteq> checkpoint_kinds a)"

text \<open>A record that a process writes over another.\<close>

definition record_follows :: "(string \<times> int) list \<Rightarrow> activation \<Rightarrow> activation \<Rightarrow> bool" where
  "record_follows history a u \<longleftrightarrow> next_activation a u \<and> record_ok history u"

definition stage_ready :: "stage \<Rightarrow> activation \<Rightarrow> bool" where
  "stage_ready st a \<longleftrightarrow> stage_needs (ac_plan a) st \<subseteq> checkpoint_kinds a"

fun result_ok :: "(string \<times> int) list \<Rightarrow> activation \<Rightarrow> stage_result \<Rightarrow> bool" where
  "result_ok history a (Go st) = stage_ready st a"
| "result_ok history a (Save u st) = (record_follows history a u \<and> stage_ready st u)"
| "result_ok history a (SaveReturn u) = record_follows history a u"
| "result_ok history a Return = True"
| "result_ok history a (Raise e) = True"

section \<open>What the operations make of a record in order\<close>

lemma next_plan: "next_activation a u \<Longrightarrow> ac_plan u = ac_plan a"
  by (simp add: next_activation_def same_activation_def)

lemma transition_follows:
  assumes "transition_activation a to t outcome rel = Inr u" "record_ok h a"
    and "to \<in> {ActApplied, ActRolledBack} \<Longrightarrow> stage_needs (ac_plan a) FinishStage \<subseteq> checkpoint_kinds a"
  shows "record_follows h a u" "checkpoint_kinds u = checkpoint_kinds a" "ac_state u = to" "ac_plan u = ac_plan a"
proof -
  have ok: "activation_ok a" using assms(2) by (simp add: record_ok_def)
  note n = transition_next [OF assms(1) ok]
  then have same: "ac_plan u = ac_plan a" "ac_checkpoints u = ac_checkpoints a" by (auto simp: next_plan)
  have readiness: "ac_readiness u = ac_readiness a" using assms(1) by (auto simp: transition_activation_def split: if_splits)
  show kinds: "checkpoint_kinds u = checkpoint_kinds a" by (simp add: checkpoint_kinds_def same)
  show "ac_state u = to" "ac_plan u = ac_plan a" using n same by auto
  show "record_follows h a u"
    using n assms(2,3) same kinds readiness
    by (auto simp: record_follows_def record_ok_def workers_ready_def next_activation_def)
qed

lemma checkpoint_follows:
  assumes "record_checkpoint a k outcome digest t = Inr u" "record_ok h a"
    and "stage_needs (ac_plan a) (checkpoint_stage_of k) \<subseteq> checkpoint_kinds a"
    and "k = WorkerReady \<Longrightarrow> pl_rollout (ac_plan a) \<Longrightarrow> workers_ready a"
    and "k = PointerAdvanced \<Longrightarrow> next_pointer (ac_plan a) \<in> set h"
  shows "(u = a \<or> record_follows h a u) \<and> checkpoint_kinds u = insert k (checkpoint_kinds a)"
proof -
  have ok: "activation_ok a" using assms(2) by (simp add: record_ok_def)
  note n = checkpoint_next [OF assms(1) ok]
  have kinds: "checkpoint_kinds u = insert k (checkpoint_kinds a)" using n unfolding has_checkpoint_kinds by blast
  show ?thesis
  proof (cases "u = a")
    case False
    then have next_u: "next_activation a u" using n by simp
    have plan: "ac_plan u = ac_plan a" by (rule next_plan [OF next_u])
    have readiness: "ac_readiness u = ac_readiness a"
      using assms(1) by (auto simp: record_checkpoint_def split: option.splits if_splits)
    have "record_ok h u"
      unfolding record_ok_def
    proof (intro conjI impI)
      show "activation_ok u" using next_u by (simp add: next_activation_def)
      show "\<forall>k \<in> checkpoint_kinds u. stage_needs (ac_plan u) (checkpoint_stage_of k) \<subseteq> checkpoint_kinds u"
        using assms(2,3) by (auto simp: kinds plan record_ok_def)
      show "workers_ready u" if "WorkerReady \<in> checkpoint_kinds u \<and> pl_rollout (ac_plan u)"
        using that assms(2,4) by (auto simp: kinds plan record_ok_def workers_ready_def readiness)
      show "next_pointer (ac_plan u) \<in> set h" if "PointerAdvanced \<in> checkpoint_kinds u"
        using that assms(2,5) by (auto simp: kinds plan record_ok_def)
      show "stage_needs (ac_plan u) FinishStage \<subseteq> checkpoint_kinds u" if "ac_state u \<in> {ActApplied, ActRolledBack}"
        using that n assms(2) by (auto simp: kinds plan record_ok_def)
    qed (use assms(2) in \<open>simp add: plan readiness record_ok_def\<close>)
    then show ?thesis using next_u kinds by (simp add: record_follows_def)
  qed (use kinds in simp)
qed

lemma acquire_follows:
  assumes "acquire_lease a owner t expires = Inr u" "record_ok h a"
  shows "record_follows h a u \<and> checkpoint_kinds u = checkpoint_kinds a \<and> ac_state u = ac_state a"
proof -
  have ok: "activation_ok a" using assms(2) by (simp add: record_ok_def)
  note n = acquire_next [OF assms(1) ok]
  then have "ac_plan u = ac_plan a" "checkpoint_kinds u = checkpoint_kinds a" by (auto simp: next_plan checkpoint_kinds_def)
  moreover have "ac_readiness u = ac_readiness a" using assms(1) by (auto simp: acquire_lease_def split: if_splits)
  ultimately show ?thesis
    using n assms(2) by (auto simp: record_follows_def record_ok_def workers_ready_def next_activation_def)
qed

lemma release_follows:
  assumes "release_lease a owner t = Inr u" "record_ok h a"
  shows "record_follows h a u"
proof -
  have ok: "activation_ok a" using assms(2) by (simp add: record_ok_def)
  note n = release_next [OF assms(1) ok]
  then have "ac_plan u = ac_plan a" "checkpoint_kinds u = checkpoint_kinds a" by (auto simp: next_plan checkpoint_kinds_def)
  moreover have "ac_readiness u = ac_readiness a" using assms(1) by (auto simp: release_lease_def split: if_splits)
  ultimately show ?thesis
    using n assms(2) by (auto simp: record_follows_def record_ok_def workers_ready_def next_activation_def)
qed

lemma readiness_follows:
  assumes "register_readiness a r t = Inr u" "record_ok h a"
  shows "(u = a \<or> record_follows h a u) \<and> checkpoint_kinds u = checkpoint_kinds a"
proof -
  have ok: "activation_ok a" using assms(2) by (simp add: record_ok_def)
  note n = readiness_next [OF assms(1) ok]
  have kinds: "checkpoint_kinds u = checkpoint_kinds a" using n by (simp add: checkpoint_kinds_def)
  have fits: "readiness_fits (ac_plan a) r"
    using assms(1) by (auto simp: register_readiness_def readiness_fits_def split: if_splits)
  show ?thesis
  proof (cases "u = a")
    case False
    then have next_u: "next_activation a u" using n by simp
    have plan: "ac_plan u = ac_plan a" by (rule next_plan [OF next_u])
    have readiness: "ac_readiness u = Some r" and state: "ac_state u = ac_state a" using n by auto
    have "record_ok h u"
      unfolding record_ok_def kinds plan state
    proof (intro conjI impI)
      show "activation_ok u" using next_u by (simp add: next_activation_def)
      show "pred_option (readiness_fits (ac_plan a)) (ac_readiness u)" using fits by (simp add: readiness)
      show "workers_ready u" if "WorkerReady \<in> checkpoint_kinds a \<and> pl_rollout (ac_plan a)"
      proof -
        have "workers_ready a" using that assms(2) by (simp add: record_ok_def)
        then obtain r' where r': "ac_readiness a = Some r'" "readiness_fits (ac_plan a) r'"
            "wr_task_queue r' = pl_task_queue (ac_plan a)"
          unfolding workers_ready_def by blast
        then have "ac_readiness u = Some r'" using next_u by (simp add: next_activation_def)
        then show ?thesis using r' by (simp add: workers_ready_def plan)
      qed
    qed (use assms(2) in \<open>auto simp: record_ok_def\<close>)
    then show ?thesis using next_u kinds by (simp add: record_follows_def)
  qed (use kinds in simp)
qed

section \<open>Every stage keeps its promises\<close>

lemma follows_plan: "record_follows h a u \<Longrightarrow> ac_plan u = ac_plan a"
  by (simp add: record_follows_def next_plan)

lemma record_ok_more: "record_ok h a \<Longrightarrow> record_ok (h @ h') a"
  by (auto simp: record_ok_def)

text \<open>The stage that follows a checkpoint needs that checkpoint and no other.\<close>

fun stage_after :: "checkpoint_kind \<Rightarrow> stage" where
  "stage_after DefinitionsStored = RolloutStage"
| "stage_after WorkerRollout = ReadinessStage"
| "stage_after WorkerReady = SchedulesStage"
| "stage_after SchedulesReconciled = CatalogStage"
| "stage_after CatalogSwitched = RoutingStage"
| "stage_after WorkersRouted = PointerStage"
| "stage_after PointerAdvanced = IndexStage"
| "stage_after IndexReplaced = FinishStage"

lemma needs_after: "stage_needs p (stage_after k) \<subseteq> insert k (stage_needs p (checkpoint_stage_of k))"
  by (cases k) auto

lemma skip_stage_ok:
  "stage_ready (checkpoint_stage_of k) a \<Longrightarrow> has_checkpoint a k \<Longrightarrow> result_ok h a (Go (stage_after k))"
  using needs_after [of "ac_plan a" k] by (auto simp: stage_ready_def has_checkpoint_kinds)

lemma checkpoint_stage_ok:
  assumes "record_ok h a" "stage_ready (checkpoint_stage_of k) a" "st = stage_after k"
    and "k = WorkerReady \<Longrightarrow> pl_rollout (ac_plan a) \<Longrightarrow> workers_ready a"
    and "k = PointerAdvanced \<Longrightarrow> next_pointer (ac_plan a) \<in> set h"
  shows "result_ok h a (checkpoint_stage st a k confirmation t)"
proof (cases "record_checkpoint a k (fst confirmation) (snd confirmation) t")
  case (Inl e)
  then show ?thesis by (simp add: checkpoint_stage_def save_changed_def)
next
  case (Inr u)
  note f = checkpoint_follows [OF Inr assms(1) assms(2) [unfolded stage_ready_def] assms(4,5)]
  then have "ac_plan u = ac_plan a" by (auto simp: follows_plan)
  then have "stage_ready st u"
    using f assms(2,3) needs_after [of "ac_plan a" k] unfolding stage_ready_def by auto
  then show ?thesis using f Inr by (auto simp: checkpoint_stage_def save_changed_def)
qed

lemma save_transition_ok:
  assumes "record_ok h a" "to \<notin> {ActApplied, ActRolledBack}" "stage_ready st a"
  shows "result_ok h a (save_or_raise st (transition_activation a to t outcome rel))"
proof (cases "transition_activation a to t outcome rel")
  case (Inr u)
  from transition_follows [OF Inr assms(1)] assms(2,3) Inr show ?thesis
    by (auto simp: save_or_raise_def stage_ready_def)
qed (simp add: save_or_raise_def)

lemma release_stage_ok:
  assumes "record_ok h a"
  shows "result_ok h a (release ct a t)"
  using release_follows [OF _ assms] by (auto simp: release_def split: sum.split)

lemma wait_ok:
  assumes "record_ok h a"
  shows "result_ok h a (wait_for_workers ct a t)"
proof (cases "transition_activation a ActWaiting t None True")
  case (Inr u)
  then show ?thesis
    using release_stage_ok [OF assms, of ct t] transition_follows(1) [OF Inr assms] by (simp add: wait_for_workers_def)
qed (use release_stage_ok [OF assms, of ct t] in \<open>simp add: wait_for_workers_def\<close>)

lemma finish_ok:
  assumes "record_ok h a" "stage_ready FinishStage a"
  shows "result_ok h a (finish_activation a t)"
proof (cases "transition_activation a ActApplied t None True")
  case (Inr u)
  then show ?thesis
    using transition_follows(1) [OF Inr assms(1) assms(2) [unfolded stage_ready_def]] by (simp add: finish_activation_def)
qed (simp add: finish_activation_def)

lemma readiness_stage_ok:
  assumes "record_ok h a" "stage_ready st a"
  shows "result_ok h a (save_changed st a (register_readiness a r t))"
proof (cases "register_readiness a r t")
  case (Inr u)
  note f = readiness_follows [OF Inr assms(1)]
  then have "ac_plan u = ac_plan a" by (auto simp: follows_plan)
  then show ?thesis using f assms(2) Inr by (auto simp: save_changed_def stage_ready_def)
qed (simp add: save_changed_def)

lemma acquire_ok: "record_ok h a \<Longrightarrow> result_ok h a (acquire ct a t)"
  using acquire_follows [of a _ t] by (auto simp: acquire_def stage_ready_def split: sum.split)

lemma start_ok: "record_ok h a \<Longrightarrow> result_ok h a (start_or_resume a t)"
  by (auto simp: start_or_resume_def stage_ready_def intro!: save_transition_ok)

lemma restart_ok: "record_ok h a \<Longrightarrow> result_ok h a (restart a t)"
  by (auto simp: restart_def stage_ready_def intro!: save_transition_ok)

lemma leave_ok: "record_ok h a \<Longrightarrow> result_ok h a (leave_waiting ct a prepared reply t)"
  by (auto simp: leave_waiting_def stage_ready_def intro!: readiness_stage_ok release_stage_ok split: sum.split option.split)

text \<open>A stage that is skipped needs no more than the stage after it, where the plan does not ask for it.\<close>

lemma unplanned_stage_ok:
  "stage_ready SchedulesStage a \<Longrightarrow> \<not> pl_reconcile (ac_plan a) \<Longrightarrow> stage_ready CatalogStage a"
  "stage_ready CatalogStage a \<Longrightarrow> \<not> pl_publish (ac_plan a) \<Longrightarrow> stage_ready RoutingStage a"
  "stage_ready RoutingStage a \<Longrightarrow> \<not> pl_switch (ac_plan a) \<Longrightarrow> stage_ready PointerStage a"
  "stage_ready RolloutStage a \<Longrightarrow> stage_ready ReadinessStage a" "stage_ready ReadinessStage a \<Longrightarrow> stage_ready ReadyStage a"
  "stage_ready RolloutStage a \<Longrightarrow> stage_ready ReadyStage a" "stage_ready DefinitionsStage a"
  by (simp_all add: stage_ready_def)

lemma definitions_ok:
  assumes "record_ok h a"
  shows "result_ok h a (store_definition_objects ct a d answer t)"
  using checkpoint_stage_ok [OF assms, of DefinitionsStored] skip_stage_ok [of DefinitionsStored a h] unplanned_stage_ok(7) [of a]
  by (simp add: store_definition_objects_def split: sum.split)

lemma rollout_ok:
  assumes "record_ok h a" "stage_ready RolloutStage a"
  shows "result_ok h a (roll_out_workers ct a reply t)"
  using checkpoint_stage_ok [OF assms(1), of WorkerReady] skip_stage_ok [of WorkerReady a h] wait_ok [OF assms(1)]
    checkpoint_stage_ok [OF assms(1), of WorkerRollout] unplanned_stage_ok(4,6) [OF assms(2)] assms(2)
  by (cases "pl_rollout (ac_plan a)"; simp add: roll_out_workers_def split: sum.split)

lemma readiness_ok:
  assumes "record_ok h a" "stage_ready ReadinessStage a"
  shows "result_ok h a (await_readiness ct a prepared reply t)"
  using wait_ok [OF assms(1)] readiness_stage_ok [OF assms(1) unplanned_stage_ok(5) [OF assms(2)]]
    unplanned_stage_ok(5) [OF assms(2)]
  by (simp add: await_readiness_def split: sum.split option.split)

lemma confirm_ok:
  assumes "record_ok h a" "stage_ready ReadyStage a" "pa_task_queue p = pl_task_queue (ac_plan a)"
  shows "result_ok h a (confirm_readiness ct a p text t)"
proof (cases "ac_readiness a")
  case (Some r)
  then have fits: "readiness_fits (ac_plan a) r" using assms(1) by (simp add: record_ok_def)
  show ?thesis
  proof (cases "wr_task_queue r = pa_task_queue p")
    case True
    then have "workers_ready a" using fits Some assms(3) by (simp add: workers_ready_def)
    then show ?thesis
      using checkpoint_stage_ok [OF assms(1), of WorkerReady] skip_stage_ok [of WorkerReady a h] assms(2) Some True
      by (simp add: confirm_readiness_def)
  qed (use Some in \<open>simp add: confirm_readiness_def\<close>)
qed (simp add: confirm_readiness_def)

lemma schedules_ok:
  assumes "record_ok h a" "stage_ready SchedulesStage a"
  shows "result_ok h a (reconcile_schedules ct a reply t)"
  using checkpoint_stage_ok [OF assms(1), of SchedulesReconciled] skip_stage_ok [of SchedulesReconciled a h]
    unplanned_stage_ok(1) [OF assms(2)] assms(2)
  by (auto simp: reconcile_schedules_def split: sum.split)

lemma catalog_ok:
  assumes "record_ok h a" "stage_ready CatalogStage a"
  shows "result_ok h a (fst (switch_catalog ct a p inspected replaced t w))"
  using checkpoint_stage_ok [OF assms(1), of CatalogSwitched] skip_stage_ok [of CatalogSwitched a h]
    unplanned_stage_ok(2) [OF assms(2)] assms(2)
  by (auto simp: switch_catalog_def split: sum.split)

lemma routing_ok:
  assumes "record_ok h a" "stage_ready RoutingStage a"
  shows "result_ok h a (switch_routing ct a reply text t)"
  using checkpoint_stage_ok [OF assms(1), of WorkersRouted] skip_stage_ok [of WorkersRouted a h]
    unplanned_stage_ok(3) [OF assms(2)] assms(2)
  by (auto simp: switch_routing_def split: sum.split)

lemma index_ok:
  assumes "record_ok h a" "stage_ready IndexStage a"
  shows "result_ok h a (fst (replace_runtime_index ct sc a p t w))"
  using checkpoint_stage_ok [OF assms(1), of IndexReplaced] skip_stage_ok [of IndexReplaced a h] assms(2)
  by (auto simp: replace_runtime_index_def split: sum.split)

text \<open>
  A plan expects a version of the pointer just when it expects a revision; then a pointer that is set by
  compare and swap is the one the plan announces.
\<close>

definition plan_consistent :: "activation_plan \<Rightarrow> bool" where
  "plan_consistent p \<longleftrightarrow> (pl_expected p = None) = (pl_pointer_version p = None)"

lemma swapped_pointer:
  assumes "compare_and_swap_active current (pl_target p) (pl_expected p) (pl_pointer_version p) = Inr q" "plan_consistent p"
  shows "q = next_pointer p" "map_option snd current = pl_pointer_version p"
  using assms
  by (cases current; auto simp: compare_and_swap_active_def plan_consistent_def next_pointer_def split: if_splits option.splits)+

lemma swapped_version:
  "compare_and_swap_active current revision expected version = Inr q \<Longrightarrow>
     case current of None \<Rightarrow> snd q = 1 | Some c \<Rightarrow> snd q = snd c + 1"
  by (auto simp: compare_and_swap_active_def split: if_splits option.splits prod.splits)

definition world_moves :: "activation_plan \<Rightarrow> control_world \<Rightarrow> control_world \<Rightarrow> bool" where
  "world_moves p w w' \<longleftrightarrow>
     compare_and_swap_active (cw_pointer w) (pl_target p) (pl_expected p) (pl_pointer_version p) = Inr (next_pointer p) \<and>
     cw_pointer w' = Some (next_pointer p) \<and> cw_moves w' = cw_moves w @ [next_pointer p]"

definition world_stays :: "control_world \<Rightarrow> control_world \<Rightarrow> bool" where
  "world_stays w w' \<longleftrightarrow> cw_pointer w' = cw_pointer w \<and> cw_moves w' = cw_moves w"

lemma pointer_ok:
  assumes "record_ok h a" "stage_ready PointerStage a" "plan_consistent (ac_plan a)" "seen = None \<or> seen \<in> Some ` set h"
    and "advance_active_pointer ct a seen t w = (result, w')"
  shows "world_stays w w' \<and> result_ok h a result \<or>
    world_moves (ac_plan a) w w' \<and> result_ok (h @ [next_pointer (ac_plan a)]) a result"
proof (cases "has_checkpoint a PointerAdvanced")
  case True
  then show ?thesis
    using skip_stage_ok [of PointerAdvanced a h] assms(2,5) by (auto simp: advance_active_pointer_def world_stays_def)
next
  case False
  note unfolded = assms(5) [unfolded advance_active_pointer_def Let_def, folded next_pointer_def]
  show ?thesis
  proof (cases "seen = Some (next_pointer (ac_plan a))")
    case True
    then have "next_pointer (ac_plan a) \<in> set h" using assms(4) by auto
    then show ?thesis
      using unfolded False True checkpoint_stage_ok [OF assms(1), of PointerAdvanced] assms(2) by (auto simp: world_stays_def)
  next
    case unseen: False
    show ?thesis
    proof (cases "compare_and_swap_active (cw_pointer w) (pl_target (ac_plan a)) (pl_expected (ac_plan a))
        (pl_pointer_version (ac_plan a))")
      case (Inl e)
      then show ?thesis using unfolded False unseen by (auto simp: world_stays_def)
    next
      case (Inr q)
      have q: "q = next_pointer (ac_plan a)" by (rule swapped_pointer [OF Inr assms(3)])
      have "result_ok (h @ [q]) a (checkpoint_stage IndexStage a PointerAdvanced c t)" for c
        by (rule checkpoint_stage_ok [OF record_ok_more [OF assms(1)]]) (use assms(2) in \<open>auto simp: q\<close>)
      then show ?thesis using unfolded False unseen Inr by (auto simp: world_moves_def q)
    qed
  qed
qed

section \<open>A stage\<close>

definition prep_ok :: "activation_plan \<Rightarrow> (prepared_activation \<times> prepared_deployment) option \<Rightarrow> bool" where
  "prep_ok plan prep \<longleftrightarrow> pred_option (\<lambda>(p, d). pa_policy p = pl_policy plan \<and> pa_artifact p = pl_artifact plan \<and>
     pa_task_queue p = pl_task_queue plan \<and> pd_registration d = pl_registration plan \<and>
     pd_definitions d = pl_definitions plan) prep"

lemma prepare_record_ok: "prepare_record a prepared = Inr pd \<Longrightarrow> prep_ok (ac_plan a) (Some pd)"
  by (cases prepared) (auto simp: prepare_record_def prep_ok_def split: if_splits)

lemma switch_catalog_stays: "world_stays w (snd (switch_catalog ct a p inspected replaced t w))"
  by (auto simp: switch_catalog_def world_stays_def split: sum.split)

lemma replace_index_stays: "world_stays w (snd (replace_runtime_index ct sc a p t w))"
  by (auto simp: replace_runtime_index_def world_stays_def split: sum.split)

lemma world_stays_refl [simp]: "world_stays w w"
  by (simp add: world_stays_def)

lemma prepared_stage_ok:
  assumes "record_ok h a" "stage_ready st a" "plan_consistent (ac_plan a)" "an_seen an = None \<or> an_seen an \<in> Some ` set h"
    and "prep_ok (ac_plan a) (Some (p, d))" "prepared_stage ct sc st a p d an w = (result, w')"
  shows "world_stays w w' \<and> result_ok h a result \<or>
    world_moves (ac_plan a) w w' \<and> result_ok (h @ [next_pointer (ac_plan a)]) a result"
proof (cases "st = PointerStage")
  case True
  then have "advance_active_pointer ct a (an_seen an) (an_now an) w = (result, w')"
    using assms(6) by (simp add: prepared_stage_def)
  from pointer_ok [OF assms(1) _ assms(3,4) this] show ?thesis using assms(2) True by simp
next
  case False
  let ?stage = "prepared_stage ct sc st a p d an w"
  have "world_stays w (snd ?stage)"
    using False by (cases st) (simp_all add: prepared_stage_def switch_catalog_stays replace_index_stays)
  moreover have "result_ok h a (fst ?stage)"
    using False assms(1,2,5) definitions_ok rollout_ok readiness_ok confirm_ok schedules_ok catalog_ok routing_ok index_ok finish_ok
    by (cases st) (simp_all add: prepared_stage_def prep_ok_def)
  ultimately show ?thesis using assms(6) by simp
qed

lemma run_stage_ok:
  assumes "record_ok h a" "stage_ready st a" "plan_consistent (ac_plan a)" "an_seen an = None \<or> an_seen an \<in> Some ` set h"
    and "prep_ok (ac_plan a) prep" "run_stage ct sc st a prep an w = (result, prep', w')"
  shows "prep_ok (ac_plan a) prep'"
    and "world_stays w w' \<and> result_ok h a result \<or>
      world_moves (ac_plan a) w w' \<and> result_ok (h @ [next_pointer (ac_plan a)]) a result"
proof -
  let ?ok = "prep_ok (ac_plan a) prep' \<and> (world_stays w w' \<and> result_ok h a result \<or>
      world_moves (ac_plan a) w w' \<and> result_ok (h @ [next_pointer (ac_plan a)]) a result)"
  consider (unprepared) "st \<in> {AcquireStage, StartStage, WaitingStage, RestartStage}" | (prepare) "st = PrepareStage"
    | (later) "st \<notin> {AcquireStage, StartStage, WaitingStage, RestartStage, PrepareStage}" by blast
  then have ?ok
  proof cases
    case unprepared
    then show ?thesis
      using assms(5,6) acquire_ok [OF assms(1)] start_ok [OF assms(1)] leave_ok [OF assms(1)] restart_ok [OF assms(1)]
      by (auto simp: run_stage_def)
  next
    case prepare
    then show ?thesis
      using assms(5,6) prepare_record_ok [of a "an_prepared an"]
      by (auto simp: run_stage_def stage_ready_def split: sum.split_asm)
  next
    case later
    show ?thesis
    proof (cases prep)
      case None
      then show ?thesis using later assms(5,6) by (cases st) (auto simp: run_stage_def)
    next
      case (Some pd)
      obtain p d where pd: "pd = (p, d)" by (cases pd)
      obtain r w'' where r: "prepared_stage ct sc st a p d an w = (r, w'')" by (cases "prepared_stage ct sc st a p d an w")
      have "result = r" "w' = w''" "prep' = prep"
        using later assms(6) Some pd r by (cases st; simp add: run_stage_def)+
      then show ?thesis
        using prepared_stage_ok [OF assms(1-4) _ r] assms(5) Some pd by simp
    qed
  qed
  then show "prep_ok (ac_plan a) prep'" "world_stays w w' \<and> result_ok h a result \<or>
      world_moves (ac_plan a) w w' \<and> result_ok (h @ [next_pointer (ac_plan a)]) a result" by blast+
qed

end
