(* ===== verification/JF_Activated.thy ===== *)
theory JF_Activated
  imports JF_Activations "HOL-Library.Sublist"
begin

text \<open>
  The invariant of the runs of an activation, by rule induction over the steps of its controllers, and what
  it gives: an applied activation has done everything its plan asks for, and moved the pointer once at most.
\<close>

section \<open>The invariant\<close>

text \<open>A record that a process knows, against the one that is stored.\<close>

definition known_record :: "(string \<times> int) list \<Rightarrow> activation \<Rightarrow> activation \<Rightarrow> bool" where
  "known_record h x a \<longleftrightarrow> record_ok h a \<and> same_activation a x \<and> ac_version a \<le> ac_version x \<and>
     (ac_version a = ac_version x \<longrightarrow> a = x)"

fun process_ok :: "(string \<times> int) list \<Rightarrow> activation \<Rightarrow> process \<Rightarrow> bool" where
  "process_ok h x (Running st a prep) = (known_record h x a \<and> stage_ready st a \<and> prep_ok (ac_plan a) prep)"
| "process_ok h x (Saving u a next_stage prep) =
     (known_record h x a \<and> record_follows h a u \<and> pred_option (\<lambda>st. stage_ready st u) next_stage \<and> prep_ok (ac_plan a) prep)"
| "process_ok h x (Failing e) = True"

text \<open>The pointer is the last of its history, in which the versions rise.\<close>

definition pointer_history :: "(string \<times> int) list \<Rightarrow> (string \<times> int) option \<Rightarrow> bool" where
  "pointer_history h p \<longleftrightarrow> p = (if h = [] then None else Some (last h)) \<and> sorted_wrt (<) (map snd h)"

definition moves_ok :: "activation_plan \<Rightarrow> (string \<times> int) list \<Rightarrow> control_world \<Rightarrow> bool" where
  "moves_ok p h w \<longleftrightarrow> cw_moves w = [] \<or> cw_moves w = [next_pointer p] \<and> next_pointer p \<in> set h"

definition control_ok :: "string \<Rightarrow> string \<Rightarrow> activation_plan \<Rightarrow> control \<Rightarrow> bool" where
  "control_ok scope i p s \<longleftrightarrow>
     (\<exists>x. dict_get (cl_rows s) (scope, i) = Some x \<and> activation_key x = (scope, i) \<and> ac_plan x = p \<and>
        record_ok (cl_history s) x \<and> (\<forall>n q. cl_procs s n = Some q \<longrightarrow> process_ok (cl_history s) x q)) \<and>
     pointer_history (cl_history s) (cw_pointer (cl_world s)) \<and> moves_ok p (cl_history s) (cl_world s)"

section \<open>How it is kept\<close>

lemma known_more: "known_record h x a \<Longrightarrow> known_record (h @ h') x a"
  by (auto simp: known_record_def record_ok_more)

lemma follows_more: "record_follows h a u \<Longrightarrow> record_follows (h @ h') a u"
  by (auto simp: record_follows_def record_ok_more)

lemma process_more: "process_ok h x p \<Longrightarrow> process_ok (h @ h') x p"
  by (cases p) (auto simp: known_more follows_more)

lemma known_self: "record_ok h x \<Longrightarrow> known_record h x x"
  by (simp add: known_record_def)

text \<open>What a process knows stays below a record that follows the stored one.\<close>

lemma known_next: "known_record h x a \<Longrightarrow> next_activation x u \<Longrightarrow> known_record h u a"
  by (auto simp: known_record_def next_activation_def elim: same_activation_trans)

lemma process_next: "process_ok h x p \<Longrightarrow> next_activation x u \<Longrightarrow> process_ok h u p"
  by (cases p) (auto simp: known_next)

lemma same_key: "same_activation a b \<Longrightarrow> activation_key b = activation_key a"
  by (simp add: same_activation_def activation_key_def)

lemma history_new_last:
  assumes "pointer_history h (cw_pointer w)" "case cw_pointer w of None \<Rightarrow> snd q = 1 | Some c \<Rightarrow> snd q = snd c + 1"
  shows "pointer_history (h @ [q]) (Some q)" "cw_pointer w \<noteq> Some q"
proof -
  have "snd r < snd q" if "r \<in> set h" for r
  proof -
    have "h \<noteq> []" using that by auto
    then have last: "cw_pointer w = Some (last h)" and sorted: "sorted_wrt (<) (map snd h)"
      using assms(1) by (auto simp: pointer_history_def)
    obtain h' where h': "h = h' @ [last h]" using \<open>h \<noteq> []\<close> append_butlast_last_id by metis
    have "snd r \<le> snd (last h)" using sorted that by (subst (asm) (1 2) h') (auto simp: sorted_wrt_append)
    then show ?thesis using assms(2) last by simp
  qed
  then show "pointer_history (h @ [q]) (Some q)" using assms(1) by (auto simp: pointer_history_def sorted_wrt_append)
  show "cw_pointer w \<noteq> Some q" using assms(2) by auto
qed

text \<open>Once the announced pointer is in the history it cannot be set again.\<close>

lemma moved_once:
  assumes "moves_ok p h w" "pointer_history h (cw_pointer w)" "world_moves p w w'" "plan_consistent p"
  shows "moves_ok p (h @ [next_pointer p]) w'"
proof -
  have swap: "compare_and_swap_active (cw_pointer w) (pl_target p) (pl_expected p) (pl_pointer_version p) = Inr (next_pointer p)"
    using assms(3) by (simp add: world_moves_def)
  have version: "map_option snd (cw_pointer w) = pl_pointer_version p" by (rule swapped_pointer(2) [OF swap assms(4)])
  have "cw_moves w = []"
  proof (rule ccontr)
    assume "cw_moves w \<noteq> []"
    then have in_h: "next_pointer p \<in> set h" using assms(1) by (auto simp: moves_ok_def)
    then have "h \<noteq> []" by auto
    then have last: "cw_pointer w = Some (last h)" and sorted: "sorted_wrt (<) (map snd h)"
      using assms(2) by (auto simp: pointer_history_def)
    obtain h' where h': "h = h' @ [last h]" using \<open>h \<noteq> []\<close> append_butlast_last_id by metis
    have "snd (next_pointer p) \<le> snd (last h)"
      using sorted in_h by (subst (asm) (1 2) h') (auto simp: sorted_wrt_append)
    moreover have "snd (next_pointer p) = snd (last h) + 1"
      using version last by (auto simp: next_pointer_def split: option.splits)
    ultimately show False by simp
  qed
  then show ?thesis using assms(3) by (simp add: moves_ok_def world_moves_def)
qed

text \<open>A record that is written over the stored one.\<close>

lemma stored_next:
  assumes "control_ok scope i p s" "dict_get (cl_rows s) (scope, i) = Some x" "next_activation x u" "record_ok (cl_history s) u"
    and "update_activation bytes sc u expected (cl_rows s) = Inr (y, rows)"
    and "\<And>m q. procs m = Some q \<Longrightarrow> cl_procs s m = Some q \<or> process_ok (cl_history s) u q"
  shows "control_ok scope i p (s\<lparr>cl_rows := rows, cl_procs := procs\<rparr>)"
proof -
  have x: "activation_key x = (scope, i)" "ac_plan x = p"
      "\<And>n q. cl_procs s n = Some q \<Longrightarrow> process_ok (cl_history s) x q"
    using assms(1,2) by (auto simp: control_ok_def)
  have same: "same_activation x u" using assms(3) by (simp add: next_activation_def)
  have key: "activation_key u = (scope, i)" "ac_plan u = p"
    using same_key [OF same] next_plan [OF assms(3)] x by simp_all
  have rows: "dict_get rows (scope, i) = Some u"
    using activations.update_conditional [OF assms(5)] by (simp add: key)
  have "process_ok (cl_history s) u q" if "procs n = Some q" for n q
    using assms(6) [OF that] process_next [OF x(3) assms(3)] by blast
  then show ?thesis using assms(1,4) rows key by (auto simp: control_ok_def)
qed

lemma read_stored:
  assumes "control_ok scope i p s" "read_activation scope i (cl_rows s) = Inr a"
  shows "dict_get (cl_rows s) (scope, i) = Some a" "record_ok (cl_history s) a" "ac_plan a = p"
  using assms by (auto simp: control_ok_def read_activation_def read_row_def split: option.split_asm if_splits)

text \<open>A process is replaced, and nothing else.\<close>

lemma process_set:
  assumes "control_ok scope i p s" "dict_get (cl_rows s) (scope, i) = Some x" "pred_option (process_ok (cl_history s) x) q"
  shows "control_ok scope i p (set_process n q s)"
  using assms by (auto simp: control_ok_def set_process_def)

text \<open>The history grows by the pointer that is set.\<close>

lemma history_grows:
  assumes "control_ok scope i p s" "pointer_history (cl_history s @ h) (cw_pointer w)" "moves_ok p (cl_history s @ h) w"
  shows "control_ok scope i p (s\<lparr>cl_world := w, cl_history := cl_history s @ h\<rparr>)"
  using assms by (auto simp: control_ok_def intro: record_ok_more process_more)

lemma stays_history:
  assumes "control_ok scope i p s" "world_stays (cl_world s) w"
  shows "pointer_history (cl_history s) (cw_pointer w)" "moves_ok p (cl_history s) w"
  using assms by (auto simp: control_ok_def world_stays_def moves_ok_def)

lemma moves_more: "moves_ok p h w \<Longrightarrow> cw_moves w' = cw_moves w \<Longrightarrow> moves_ok p (h @ h') w'"
  by (auto simp: moves_ok_def)

text \<open>A stage leaves a process with a result in order.\<close>

lemma after_stage_ok:
  assumes "known_record h x a" "result_ok h a result" "prep_ok (ac_plan a) prep"
  shows "pred_option (process_ok h x) (after_stage a prep result)"
  using assms by (cases result) (auto simp: record_follows_def next_plan)

lemma stage_step_ok:
  assumes "control_ok scope i p s" "plan_consistent p" "cl_procs s n = Some (Running st a prep)"
    and "an_seen an = None \<or> an_seen an \<in> Some ` set (cl_history s)"
    and "run_stage ct sc st a prep an (cl_world s) = (result, prep', w)"
  shows "control_ok scope i p ((set_process n (after_stage a prep' result) s)
      \<lparr>cl_world := w, cl_history := cl_history s @
        (if cw_pointer w = cw_pointer (cl_world s) then [] else list_of_option (cw_pointer w))\<rparr>)" (is "control_ok _ _ _ ?s'")
proof -
  obtain x where x: "dict_get (cl_rows s) (scope, i) = Some x" "ac_plan x = p"
      "\<forall>n q. cl_procs s n = Some q \<longrightarrow> process_ok (cl_history s) x q"
    using assms(1) by (auto simp: control_ok_def)
  have "process_ok (cl_history s) x (Running st a prep)" using x(3) assms(3) by blast
  then have known: "known_record (cl_history s) x a" and a: "record_ok (cl_history s) a" "stage_ready st a" "prep_ok (ac_plan a) prep"
    and plan: "ac_plan a = p" using x(2)
    by (auto simp: known_record_def same_activation_def)
  have consistent: "plan_consistent (ac_plan a)" using assms(2) plan by simp
  note stage = run_stage_ok [OF a(1,2) consistent assms(4) a(3) assms(5)]
  from stage(2) show ?thesis
  proof
    assume stays: "world_stays (cl_world s) w \<and> result_ok (cl_history s) a result"
    have "control_ok scope i p (set_process n (after_stage a prep' result) s)"
      by (rule process_set [OF assms(1) x(1) after_stage_ok [OF known _ stage(1)]]) (use stays in simp)
    from history_grows [OF this, of "[]" w] stays stays_history [OF assms(1)] show ?thesis
      by (simp add: set_process_def world_stays_def)
  next
    let ?q = "next_pointer (ac_plan a)"
    assume moves: "world_moves (ac_plan a) (cl_world s) w \<and> result_ok (cl_history s @ [?q]) a result"
    then have swap: "compare_and_swap_active (cw_pointer (cl_world s)) (pl_target p) (pl_expected p) (pl_pointer_version p) =
        Inr ?q" and pointer: "cw_pointer w = Some ?q"
      by (simp_all add: world_moves_def plan)
    have history: "pointer_history (cl_history s) (cw_pointer (cl_world s))" and old: "moves_ok p (cl_history s) (cl_world s)"
      using assms(1) by (simp_all add: control_ok_def)
    note new = history_new_last [OF history swapped_version [OF swap]]
    have "control_ok scope i p (s\<lparr>cl_world := w, cl_history := cl_history s @ [?q]\<rparr>)"
      by (rule history_grows [OF assms(1)])
        (use new pointer moved_once [OF old history _ assms(2)] moves plan in simp_all)
    from process_set [OF this, of x "after_stage a prep' result" n]
      after_stage_ok [OF known_more [OF known] _ stage(1), of "[?q]" result] moves x(1)
    have "control_ok scope i p (set_process n (after_stage a prep' result) (s\<lparr>cl_world := w, cl_history := cl_history s @ [?q]\<rparr>))"
      by simp
    then show ?thesis using new(2) pointer by (cases s) (simp add: set_process_def)
  qed
qed

lemma update_expected:
  "update_activation bytes sc u expected rows = Inr (y, rows') \<Longrightarrow>
     \<exists>x. dict_get rows (activation_key u) = Some x \<and> ac_version x = expected"
  using activations.update_conditional by blast

lemma save_step_ok:
  assumes "control_ok scope i p s" "cl_procs s n = Some (Saving u a next_stage prep)"
    and "update_activation bytes scope u (ac_version a) (cl_rows s) = Inr (y, rows)"
  shows "control_ok scope i p ((set_process n (map_option (\<lambda>st. Running st u prep) next_stage) s)\<lparr>cl_rows := rows\<rparr>)"
proof -
  obtain x where x: "dict_get (cl_rows s) (scope, i) = Some x" "activation_key x = (scope, i)"
      "\<forall>n q. cl_procs s n = Some q \<longrightarrow> process_ok (cl_history s) x q"
    using assms(1) by (auto simp: control_ok_def)
  have "process_ok (cl_history s) x (Saving u a next_stage prep)" using x(3) assms(2) by blast
  then have known: "known_record (cl_history s) x a" and follows: "record_follows (cl_history s) a u"
    and stage: "pred_option (\<lambda>st. stage_ready st u) next_stage" and prep: "prep_ok (ac_plan a) prep" by simp_all
  have "activation_key u = activation_key x"
    using same_key [of a u] same_key [of a x] follows known
    by (simp add: record_follows_def next_activation_def known_record_def)
  then have "ac_version x = ac_version a" using update_expected [OF assms(3)] x(1,2) by auto
  then have "a = x" using known by (simp add: known_record_def)
  have next_u: "next_activation x u" "record_ok (cl_history s) u" using follows \<open>a = x\<close> by (simp_all add: record_follows_def)
  have "process_ok (cl_history s) u (Running st u prep)" if "next_stage = Some st" for st
    using that stage prep known_self [OF next_u(2)] next_plan [OF next_u(1)] \<open>a = x\<close> by simp
  then have "control_ok scope i p (s\<lparr>cl_rows := rows, cl_procs := (cl_procs s)(n := map_option (\<lambda>st. Running st u prep) next_stage)\<rparr>)"
    by (intro stored_next [OF assms(1) x(1) next_u assms(3)]) (auto split: if_splits)
  then show ?thesis by (cases s) (simp add: set_process_def)
qed

text \<open>A record that is written over the one that has just been read.\<close>

lemma write_step_ok:
  assumes "control_ok scope i p s" "read_activation scope i (cl_rows s) = Inr a"
    and "u = a \<or> record_follows (cl_history s) a u" "update_activation bytes scope u (ac_version a) (cl_rows s) = Inr (y, rows)"
    and "\<And>m q. procs m = Some q \<Longrightarrow> cl_procs s m = Some q"
  shows "control_ok scope i p (s\<lparr>cl_rows := rows, cl_procs := procs\<rparr>)"
proof -
  note a = read_stored [OF assms(1,2)]
  have "ac_version u = ac_version a + 1" using activations.update_conditional [OF assms(4)] by simp
  then have "u \<noteq> a" by auto
  then have "next_activation a u" "record_ok (cl_history s) u" using assms(3) by (auto simp: record_follows_def)
  from stored_next [OF assms(1) a(1) this assms(4)] assms(5) show ?thesis by blast
qed

text \<open>A failed activation is not applied; one that is rolled back was applied.\<close>

lemma terminate_follows:
  assumes "terminate_activation a state outcome t = Inr (Some u)" "resume_handler e = Some (state, outcome, raised)" "record_ok h a"
  shows "record_follows h a u"
proof -
  have "transition_activation a state t (Some outcome) True = Inr u"
    using assms(1) by (auto simp: terminate_activation_def split: if_splits)
  moreover have "state \<notin> {ActApplied, ActRolledBack}" using assms(2) by (cases e) auto
  ultimately show ?thesis using transition_follows(1) [OF _ assms(3)] by blast
qed

lemma rolled_back_follows:
  assumes "mark_rolled_back a rollback t = Inr (Some u)" "record_ok h a"
  shows "record_follows h a u"
proof -
  have "transition_activation a ActRolledBack t None False = Inr u" "ac_state a = ActApplied"
    using assms(1) by (auto simp: mark_rolled_back_def split: if_splits)
  then show ?thesis using transition_follows(1) [OF _ assms(2)] assms(2) by (simp add: record_ok_def)
qed

lemma control_step_ok:
  assumes "control_step cts sc bytes scope i s s'" "control_ok scope i p s" "plan_consistent p"
  shows "control_ok scope i p s'"
  using assms(1)
proof cases
  case (resume_begins a n)
  note a = read_stored [OF assms(2) resume_begins(2)]
  show ?thesis
    unfolding resume_begins(1)
    by (rule process_set [OF assms(2) a(1)]) (simp add: known_self a(2) stage_ready_def prep_ok_def)
next
  case (stage_runs n st a prep an result prep' w)
  then show ?thesis using stage_step_ok [OF assms(2,3)] by simp
next
  case (record_saved n u a next_stage prep x rows)
  then show ?thesis using save_step_ok [OF assms(2)] by simp
next
  case (save_fails n u a next_stage prep e)
  obtain x where "dict_get (cl_rows s) (scope, i) = Some x" using assms(2) by (auto simp: control_ok_def)
  from process_set [OF assms(2) this, of "Some (Failing e)" n] show ?thesis using save_fails(1) by simp
next
  case (failure_recorded n e state outcome raised a t u x rows)
  have "record_follows (cl_history s) a u"
    by (rule terminate_follows [OF failure_recorded(5,3) read_stored(2) [OF assms(2) failure_recorded(4)]])
  then have "control_ok scope i p (s\<lparr>cl_rows := rows, cl_procs := (cl_procs s)(n := None)\<rparr>)"
    by (intro write_step_ok [OF assms(2) failure_recorded(4) _ failure_recorded(6)]) (auto split: if_splits)
  then show ?thesis unfolding failure_recorded(1) by (cases s) (simp add: set_process_def)
next
  case (process_ends n)
  obtain x where "dict_get (cl_rows s) (scope, i) = Some x" using assms(2) by (auto simp: control_ok_def)
  from process_set [OF assms(2) this, of None n] show ?thesis using process_ends by simp
next
  case (readiness_registered a r t u x rows)
  have "u = a \<or> record_follows (cl_history s) a u"
    using readiness_follows [OF readiness_registered(3) read_stored(2) [OF assms(2) readiness_registered(2)]] by simp
  from write_step_ok [OF assms(2) readiness_registered(2) this readiness_registered(4), of "cl_procs s"]
  show ?thesis unfolding readiness_registered(1) by simp
next
  case (rolled_back a rollback t u x rows)
  have "record_follows (cl_history s) a u"
    by (rule rolled_back_follows [OF rolled_back(3) read_stored(2) [OF assms(2) rolled_back(2)]])
  from write_step_ok [OF assms(2) rolled_back(2) disjI2 [OF this] rolled_back(4), of "cl_procs s"]
  show ?thesis unfolding rolled_back(1) by simp
next
  case (pointer_moved revision expected version q)
  have "pointer_history (cl_history s) (cw_pointer (cl_world s))" using assms(2) by (simp add: control_ok_def)
  note new = history_new_last [OF this swapped_version [OF pointer_moved(2)]]
  have "moves_ok p (cl_history s) (cl_world s)" using assms(2) by (simp add: control_ok_def)
  then show ?thesis
    unfolding pointer_moved(1) using new(1) by (intro history_grows [OF assms(2)]) (auto intro: moves_more)
next
  case (world_changes w)
  then show ?thesis
    using history_grows [OF assms(2), of "[]" w] stays_history [OF assms(2), of w] by (simp add: world_stays_def)
next
  case (others_stored rows)
  then show ?thesis using assms(2) by (auto simp: control_ok_def)
qed

lemma control_steps_ok:
  assumes "(control_step cts sc bytes scope i)\<^sup>*\<^sup>* s s'" "control_ok scope i p s" "plan_consistent p"
  shows "control_ok scope i p s'"
  using assms(1,2) by (induction rule: rtranclp_induct) (auto intro: control_step_ok [OF _ _ assms(3)])

section \<open>Runs from a new activation\<close>

lemma observed_plan:
  assumes "plan_activation ct sc revision prepared bundle active definitions wr sr w = Inr p"
  shows "plan_consistent p \<and> pl_target p = revision"
  using assms
  by (cases "cw_pointer w")
    (auto simp: plan_activation_def plan_consistent_def plan_configuration_activation_def Let_def bind_result_eq_Inr
      split: prod.splits if_splits)

lemma created_activation:
  assumes "new_activation ct sc rq plan now = Inr a"
  shows "activation_ok a \<and> ac_plan a = plan \<and> ac_state a = ActPending \<and> ac_checkpoints a = [] \<and> ac_readiness a = None"
  using assms
  by (auto simp: new_activation_def Let_def activation_ok_def allowed_history_def bind_result_eq_Inr)

lemma new_record_ok:
  assumes "activation_ok a" "ac_state a = ActPending" "ac_checkpoints a = []" "ac_readiness a = None"
  shows "record_ok h a"
  using assms by (simp add: record_ok_def checkpoint_kinds_def)

lemma new_control_ok:
  assumes "dict_get rows (scope, i) = Some a" "activation_key a = (scope, i)" "record_ok (list_of_option (cw_pointer w)) a"
  shows "control_ok scope i (ac_plan a) (new_control rows w)"
  using assms by (cases "cw_pointer w") (auto simp: new_control_def control_ok_def pointer_history_def moves_ok_def)

text \<open>An activation that is new is stored under its identity.\<close>

lemma activated_new:
  assumes "activate ct sc bytes rq planned now rows = Inr (a, rows')"
    and "read_activation (ac_scope a) (ac_id a) rows = Inl ActivationNotFound"
  shows "dict_get rows' (ac_scope a, ac_id a) = Some a \<and> (\<exists>plan. planned = Inr plan \<and> new_activation ct sc rq plan now = Inr a)"
proof -
  let ?scope = "scope_digest_of (ct_sha ct) sc"
  obtain i where i: "activation_identity (ct_sha ct) ?scope (aq_key rq) = Inr i"
    using assms(1) by (auto simp: activate_def Let_def bind_result_eq_Inr)
  have missing: "read_activation ?scope i rows = Inl ActivationNotFound"
  proof (cases "read_activation ?scope i rows")
    case (Inr b)
    then have "activation_key b = (?scope, i)" by (auto simp: read_activation_def read_row_def split: option.split_asm if_splits)
    moreover have "a = b" using assms(1) i Inr by (auto simp: activate_def Let_def bind_result_eq_Inr split: if_splits)
    ultimately show ?thesis using assms(2) Inr by (auto simp: activation_key_def)
  qed (use assms(1) i in \<open>auto simp: activate_def Let_def bind_result_eq_Inr split: if_splits\<close>)
  then obtain plan b where b: "planned = Inr plan" "new_activation ct sc rq plan now = Inr b"
      "create_activation bytes ?scope b rows = Inr (a, rows')"
    using assms(1) i by (auto simp: activate_def Let_def bind_result_eq_Inr split: if_splits)
  have key: "activation_key b = (?scope, i)"
    using b(2) i by (auto simp: new_activation_def Let_def bind_result_eq_Inr activation_key_def)
  have "dict_get rows (?scope, i) = None"
    using missing by (auto simp: read_activation_def read_row_def split: option.split_asm if_splits)
  then have "a = b" "dict_get rows' (?scope, i) = Some b"
    using activations.create_new [OF b(3)] key by auto
  then show ?thesis using b(1,2) key by (auto simp: activation_key_def)
qed

lemma activated_control_ok:
  assumes "activate ct sc bytes rq (plan_activation ct sc (aq_revision rq) prepared bundle active definitions wr sr w0) now rows =
      Inr (a, rows')"
    and "read_activation (ac_scope a) (ac_id a) rows = Inl ActivationNotFound"
    and "(control_step cts sc bytes (ac_scope a) (ac_id a))\<^sup>*\<^sup>* (new_control rows' w) s"
  shows "control_ok (ac_scope a) (ac_id a) (ac_plan a) s" "pl_target (ac_plan a) = aq_revision rq" "plan_consistent (ac_plan a)"
proof -
  obtain plan where plan: "plan_activation ct sc (aq_revision rq) prepared bundle active definitions wr sr w0 = Inr plan"
      "new_activation ct sc rq plan now = Inr a" "dict_get rows' (ac_scope a, ac_id a) = Some a"
    using activated_new [OF assms(1,2)] by blast
  note a = created_activation [OF plan(2)]
  show consistent: "plan_consistent (ac_plan a)" and "pl_target (ac_plan a) = aq_revision rq"
    using observed_plan [OF plan(1)] a by simp_all
  have "record_ok h a" for h using a by (intro new_record_ok) simp_all
  then have "control_ok (ac_scope a) (ac_id a) (ac_plan a) (new_control rows' w)"
    using plan(3) by (intro new_control_ok) (simp_all add: activation_key_def)
  from control_steps_ok [OF assms(3) this consistent] show "control_ok (ac_scope a) (ac_id a) (ac_plan a) s" .
qed

section \<open>What the record of a run becomes\<close>

text \<open>A later version: nothing of its history is lost.\<close>

definition later_activation :: "activation \<Rightarrow> activation \<Rightarrow> bool" where
  "later_activation a b \<longleftrightarrow> same_activation a b \<and> ac_version a \<le> ac_version b \<and> (ac_version b = ac_version a \<longrightarrow> b = a) \<and>
     prefix (ac_transitions a) (ac_transitions b) \<and> prefix (ac_checkpoints a) (ac_checkpoints b) \<and>
     (ac_readiness a \<noteq> None \<longrightarrow> ac_readiness b = ac_readiness a)"

lemma later_refl [simp]: "later_activation a a"
  by (simp add: later_activation_def)

lemma later_next: "later_activation a b \<Longrightarrow> next_activation b c \<Longrightarrow> later_activation a c"
  by (auto simp: later_activation_def next_activation_def elim: same_activation_trans intro: prefix_order.trans)

text \<open>A step leaves the stored record or replaces it by its next version.\<close>

lemma stored_over:
  assumes "update_activation bytes scope u expected (cl_rows s) = Inr (y, rows)" "next_activation x u" "activation_key x = (scope, i)"
  shows "dict_get rows (scope, i) = Some u"
proof -
  have "same_activation x u" using assms(2) by (simp add: next_activation_def)
  then have "activation_key u = (scope, i)" using same_key assms(3) by metis
  then show ?thesis using activations.update_conditional [OF assms(1)] by simp
qed

lemma control_step_record:
  assumes "control_step cts sc bytes scope i s s'" "control_ok scope i p s" "dict_get (cl_rows s) (scope, i) = Some x"
  shows "dict_get (cl_rows s') (scope, i) = Some x \<or>
    (\<exists>y. dict_get (cl_rows s') (scope, i) = Some y \<and> next_activation x y \<and>
      (ac_state y = ac_state x \<or> length (ac_transitions x) < MAX_ACTIVATION_HISTORY))"
proof -
  have key: "activation_key x = (scope, i)" and x: "record_ok (cl_history s) x" "activation_ok x"
    and procs: "\<forall>n q. cl_procs s n = Some q \<longrightarrow> process_ok (cl_history s) x q"
    using assms(2,3) by (auto simp: control_ok_def record_ok_def)
  have over: ?thesis
    if "record_follows (cl_history s) x u" "update_activation bytes scope u expected (cl_rows s) = Inr (y, rows)"
      "cl_rows s' = rows" for u expected y rows
  proof -
    have next_u: "next_activation x u" using that(1) by (simp add: record_follows_def)
    moreover have "ac_state u = ac_state x \<or> length (ac_transitions x) < MAX_ACTIVATION_HISTORY"
    proof (cases "ac_transitions u = ac_transitions x")
      case True
      then have "ac_state u = ac_state x"
        using next_u x(2) by (cases "ac_transitions x = []")
          (auto simp: next_activation_def activation_ok_def valid_activation_def valid_history_def)
      then show ?thesis ..
    next
      case False
      then have "length (ac_transitions x) < length (ac_transitions u)" using next_u by (auto simp: next_activation_def)
      moreover have "length (ac_transitions u) \<le> MAX_ACTIVATION_HISTORY"
        using next_u by (simp add: next_activation_def activation_ok_def valid_activation_def valid_history_def)
      ultimately show ?thesis by simp
    qed
    ultimately show ?thesis using stored_over [OF that(2) next_u key] that(3) by blast
  qed
  have read: "a = x" if "read_activation scope i (cl_rows s) = Inr a" for a
    using read_stored(1) [OF assms(2) that] assms(3) by simp
  show ?thesis
    using assms(1)
  proof cases
    case (record_saved n u a next_stage prep y rows)
    have ok: "process_ok (cl_history s) x (Saving u a next_stage prep)" using procs record_saved(2) by blast
    then have "activation_key u = activation_key x"
      using same_key [of a u] same_key [of a x] by (simp add: record_follows_def next_activation_def known_record_def)
    then have "ac_version x = ac_version a" using update_expected [OF record_saved(3)] assms(3) key by auto
    then have "record_follows (cl_history s) x u" using ok by (auto simp: known_record_def)
    from over [OF this record_saved(3)] show ?thesis unfolding record_saved(1) by simp
  next
    case (failure_recorded n e state outcome raised a t u y rows)
    have "record_follows (cl_history s) x u"
      using terminate_follows [OF failure_recorded(5,3)] x(1) read [OF failure_recorded(4)] by blast
    from over [OF this failure_recorded(6)] show ?thesis unfolding failure_recorded(1) by simp
  next
    case (readiness_registered a r t u y rows)
    have a: "a = x" by (rule read [OF readiness_registered(2)])
    have "ac_version u = ac_version a + 1" using activations.update_conditional [OF readiness_registered(4)] by simp
    then have "u \<noteq> x" using a by auto
    then have "record_follows (cl_history s) x u" using readiness_follows [OF readiness_registered(3)] x(1) a by blast
    from over [OF this readiness_registered(4)] show ?thesis unfolding readiness_registered(1) by simp
  next
    case (rolled_back a rollback t u y rows)
    have "record_follows (cl_history s) x u"
      using rolled_back_follows [OF rolled_back(3)] x(1) read [OF rolled_back(2)] by blast
    from over [OF this rolled_back(4)] show ?thesis unfolding rolled_back(1) by simp
  next
    case (others_stored rows)
    then show ?thesis using assms(3) by simp
  qed (use assms(3) in \<open>simp_all add: set_process_def\<close>)
qed

lemma steps_later:
  assumes "(control_step cts sc bytes scope i)\<^sup>*\<^sup>* s s'" "control_ok scope i p s" "plan_consistent p"
    and "dict_get (cl_rows s) (scope, i) = Some x"
  shows "\<exists>y. dict_get (cl_rows s') (scope, i) = Some y \<and> later_activation x y"
  using assms(1)
proof (induction rule: rtranclp_induct)
  case (step u v)
  then obtain y where y: "dict_get (cl_rows u) (scope, i) = Some y" "later_activation x y" by blast
  from control_step_record [OF step(2) control_steps_ok [OF step(1) assms(2,3)] y(1)] y(2) show ?case
    by (auto intro: later_next)
qed (use assms(4) in simp)

text \<open>A full history stays, and so does the state.\<close>

lemma steps_full:
  assumes "(control_step cts sc bytes scope i)\<^sup>*\<^sup>* s s'" "control_ok scope i p s" "plan_consistent p"
    and "dict_get (cl_rows s) (scope, i) = Some x" "MAX_ACTIVATION_HISTORY \<le> length (ac_transitions x)"
  shows "\<exists>y. dict_get (cl_rows s') (scope, i) = Some y \<and> ac_state y = ac_state x \<and>
    MAX_ACTIVATION_HISTORY \<le> length (ac_transitions y)"
  using assms(1)
proof (induction rule: rtranclp_induct)
  case (step u v)
  then obtain y where y: "dict_get (cl_rows u) (scope, i) = Some y" "ac_state y = ac_state x"
      "MAX_ACTIVATION_HISTORY \<le> length (ac_transitions y)" by blast
  from control_step_record [OF step(2) control_steps_ok [OF step(1) assms(2,3)] y(1)] y(2,3) show ?case
    by (auto simp: next_activation_def)
qed (use assms(4,5) in simp)

text \<open>A process that knows an older version cannot write.\<close>

lemma stale_process:
  assumes "control_ok scope i p s" "cl_procs s n = Some (Saving u a next_stage prep)"
    and "dict_get (cl_rows s) (scope, i) = Some x" "ac_version a \<noteq> ac_version x"
  shows "update_activation bytes scope u (ac_version a) (cl_rows s) \<noteq> Inr (y, rows)"
proof
  assume update: "update_activation bytes scope u (ac_version a) (cl_rows s) = Inr (y, rows)"
  have key: "activation_key x = (scope, i)" and "\<forall>n q. cl_procs s n = Some q \<longrightarrow> process_ok (cl_history s) x q"
    using assms(1,3) by (auto simp: control_ok_def)
  then have "process_ok (cl_history s) x (Saving u a next_stage prep)" using assms(2) by blast
  then have "activation_key u = activation_key x"
    using same_key [of a u] same_key [of a x] by (simp add: record_follows_def next_activation_def known_record_def)
  then show False using update_expected [OF update] assms(3,4) key by auto
qed

end
