(* ===== verification/JF_Applied.thy ===== *)
theory JF_Applied
  imports JF_Activated
begin

text \<open>
  What holds of an activation under several controllers: the properties of its runs, and a run of a
  concrete activation that shows them at work.
\<close>

section \<open>Runs that can be computed\<close>

text \<open>A turn of a process, with the answers it gets: one step of \<open>control_step\<close>, or nothing.\<close>

definition take_turn ::
    "(nat \<Rightarrow> controller) \<Rightarrow> runtime_scope \<Rightarrow> (activation \<Rightarrow> nat) \<Rightarrow> string \<Rightarrow> string \<Rightarrow> control \<Rightarrow> nat \<times> stage_answers \<Rightarrow> control" where
  "take_turn cts sc bytes scope i s turn = (case turn of (n, an) \<Rightarrow> (case cl_procs s n of
       None \<Rightarrow>
         (case read_activation scope i (cl_rows s) of
            Inr a \<Rightarrow> if settled a then s else set_process n (Some (Running AcquireStage a None)) s | Inl _ \<Rightarrow> s)
     | Some (Running st a prep) \<Rightarrow>
         if an_seen an = None \<or> the (an_seen an) \<in> set (cl_history s)
         then (case run_stage (cts n) sc st a prep an (cl_world s) of (result, prep', w) \<Rightarrow>
           (set_process n (after_stage a prep' result) s)\<lparr>cl_world := w, cl_history := cl_history s @
             (if cw_pointer w = cw_pointer (cl_world s) then [] else list_of_option (cw_pointer w))\<rparr>)
         else s
     | Some (Saving u a next_stage prep) \<Rightarrow>
         (case update_activation bytes scope u (ac_version a) (cl_rows s) of
            Inr (x, rows) \<Rightarrow> (set_process n (map_option (\<lambda>st. Running st u prep) next_stage) s)\<lparr>cl_rows := rows\<rparr>
          | Inl e \<Rightarrow> set_process n (Some (Failing e)) s)
     | Some (Failing e) \<Rightarrow>
         (case (resume_handler e, read_activation scope i (cl_rows s)) of
            (Some (state, outcome, raised), Inr a) \<Rightarrow>
              (case terminate_activation a state outcome (an_now an) of
                 Inr (Some u) \<Rightarrow>
                   (case update_activation bytes scope u (ac_version a) (cl_rows s) of
                      Inr (x, rows) \<Rightarrow> (set_process n None s)\<lparr>cl_rows := rows\<rparr> | Inl _ \<Rightarrow> s)
               | _ \<Rightarrow> s)
          | _ \<Rightarrow> s)))"

lemma take_turn_step:
  "take_turn cts sc bytes scope i s turn = s \<or> control_step cts sc bytes scope i s (take_turn cts sc bytes scope i s turn)"
proof -
  obtain n an where turn: "turn = (n, an)" by (cases turn)
  have seen: "an_seen an = None \<or> the (an_seen an) \<in> set (cl_history s) \<Longrightarrow>
      an_seen an = None \<or> an_seen an \<in> Some ` set (cl_history s)" by (cases "an_seen an") auto
  show ?thesis
  proof (cases "cl_procs s n")
    case None
    then show ?thesis
      by (auto simp: take_turn_def turn split: sum.split intro: control_step.resume_begins)
  next
    case (Some p)
    show ?thesis
    proof (cases p)
      case (Running st a prep)
      then show ?thesis
        using Some control_step.stage_runs [OF _ seen]
        by (auto simp: take_turn_def turn split: prod.split)
    next
      case (Saving u a next_stage prep)
      then show ?thesis
        using Some
        by (auto simp: take_turn_def turn split: sum.split intro: control_step.record_saved control_step.save_fails)
    next
      case (Failing e)
      then show ?thesis
        using Some
        by (auto simp: take_turn_def turn split: sum.split option.split intro: control_step.failure_recorded)
    qed
  qed
qed

definition take_turns ::
    "(nat \<Rightarrow> controller) \<Rightarrow> runtime_scope \<Rightarrow> (activation \<Rightarrow> nat) \<Rightarrow> string \<Rightarrow> string \<Rightarrow> (nat \<times> stage_answers) list \<Rightarrow> control \<Rightarrow>
     control" where
  "take_turns cts sc bytes scope i turns s = foldl (take_turn cts sc bytes scope i) s turns"

lemma take_turns_steps: "(control_step cts sc bytes scope i)\<^sup>*\<^sup>* s (take_turns cts sc bytes scope i turns s)"
proof (induction turns arbitrary: s)
  case (Cons turn turns)
  have "(control_step cts sc bytes scope i)\<^sup>*\<^sup>* s (take_turn cts sc bytes scope i s turn)"
    using take_turn_step [of cts sc bytes scope i s turn] by auto
  from rtranclp_trans [OF this Cons] show ?case by (simp add: take_turns_def)
qed (simp add: take_turns_def)

section \<open>A concrete activation\<close>

text \<open>
  The second revision of a configuration with a changed workflow and a new schedule is activated: its
  workers are rolled out, its definitions published, its schedules reconciled and its routing switched.
\<close>

definition trial_digest :: string where "trial_digest = replicate 64 CHR ''a''"
definition trial_proof :: string where "trial_proof = ''sha256:'' @ trial_digest"
definition trial_first :: string where "trial_first = replicate 64 CHR ''1''"
definition trial_second :: string where "trial_second = replicate 64 CHR ''2''"

definition trial_artifact :: worker_artifact where
  "trial_artifact = \<lparr>wa_deployment_name = ''orders'', wa_build_id = ''b2'', wa_artifact_digest = trial_proof,
     wa_package_version = ''1'', wa_source_revision = None\<rparr>"

definition trial_scope :: runtime_scope where
  "trial_scope = \<lparr>rs_tenant = ''t'', rs_application = ''a'', rs_environment = ''e''\<rparr>"

text \<open>Two controllers with leases of thirty seconds.\<close>

definition trial_controllers :: "nat \<Rightarrow> controller" where
  "trial_controllers n = \<lparr>ct_digest = (if n = 0 then trial_first else trial_second), ct_lease = 30000000, ct_workers = True,
     ct_schedules = True, ct_sha = (\<lambda>_. trial_digest), ct_float_text = (\<lambda>_. [])\<rparr>"

definition trial_prepared :: "activation_error + (prepared_activation \<times> prepared_deployment)" where
  "trial_prepared = Inr
     (\<lparr>pa_revision = trial_second, pa_policy = trial_proof, pa_artifact = trial_artifact, pa_task_queue = trial_proof,
       pa_manifests = [(''order'', trial_digest)], pa_targets = [], pa_triggers = []\<rparr>,
      \<lparr>pd_registration = trial_proof, pd_definitions = [trial_digest]\<rparr>)"

definition trial_bundle :: configuration_bundle where
  "trial_bundle = empty_bundle\<lparr>cb_workflows := [(''order'', JObj [(''steps'', JList [])])], cb_triggers := [(''daily'', JObj [])]\<rparr>"

definition trial_active :: configuration_bundle where
  "trial_active = empty_bundle\<lparr>cb_workflows := [(''order'', JObj [])]\<rparr>"

definition trial_world :: control_world where
  "trial_world = \<lparr>cw_pointer = Some (trial_first, 3), cw_aliases = [], cw_alias_version = Some ''v1'',
     cw_index = \<lparr>ri_max_scopes = 10, ri_max_targets = 10, ri_entries = []\<rparr>, cw_moves = []\<rparr>"

definition trial_planned :: "activation_error + activation_plan" where
  "trial_planned = plan_activation (trial_controllers 0) trial_scope trial_second trial_prepared trial_bundle (Some trial_active)
     [trial_digest] (Replied \<lparr>wo_digest = trial_proof, wo_registered = [], wo_artifact = None\<rparr>) (Replied trial_proof) trial_world"

definition trial_request :: activate_request where
  "trial_request = \<lparr>aq_revision = trial_second, aq_plan_digest = trial_proof, aq_key = ''k'', aq_actor = ''operator'',
     aq_correlation = ''c'', aq_rollback_of = None\<rparr>"

definition trial_activated :: "activation_error + (activation \<times> activation rows)" where
  "trial_activated = activate (trial_controllers 0) trial_scope (\<lambda>_. 1000) trial_request trial_planned 1000 []"

text \<open>What is planned, and the record of the activation.\<close>

definition trial_change :: "change_kind \<Rightarrow> subject_kind \<Rightarrow> change_operation \<Rightarrow> activation_change" where
  "trial_change kind subject operation =
     \<lparr>ch_kind = kind, ch_subject = subject, ch_operation = operation, ch_digest = trial_digest\<rparr>"

definition trial_plan :: activation_plan where
  "trial_plan = \<lparr>pl_digest = trial_proof, pl_scope = trial_digest, pl_source = None, pl_target = trial_second,
     pl_expected = Some trial_first, pl_pointer_version = Some 3, pl_alias_version = Some ''v1'', pl_policy = trial_proof,
     pl_worker_observation = trial_proof, pl_schedule_observation = trial_proof, pl_artifact = trial_artifact,
     pl_task_queue = trial_proof, pl_registration = trial_proof, pl_definitions = [trial_digest],
     pl_changes = [trial_change ArtifactChange ArtifactSubject CreateOperation,
       trial_change PolicyChange PolicySubject CreateOperation, trial_change ScheduleChange ScheduleSubject CreateOperation,
       trial_change WorkflowChange WorkflowSubject UpdateOperation],
     pl_risks = [ReplayCompatibility, ComponentPolicyChange, ExternalRoutingChange],
     pl_rollout = True, pl_publish = True, pl_switch = True, pl_reconcile = True\<rparr>"

definition trial_activation :: activation where
  "trial_activation = \<lparr>ac_id = trial_digest, ac_scope = trial_digest, ac_key = trial_digest, ac_request = trial_proof,
     ac_actor = trial_digest, ac_correlation = trial_digest, ac_plan = trial_plan, ac_state = ActPending, ac_version = 1,
     ac_transitions = [], ac_checkpoints = [], ac_lease_owner = None, ac_lease_expires = None, ac_readiness = None,
     ac_rollback_of = None, ac_outcome = None, ac_created = 1000, ac_updated = 1000\<rparr>"

text \<open>What the bindings answer, at the given time.\<close>

definition trial_readiness :: worker_readiness where
  "trial_readiness = \<lparr>wr_revision = trial_second, wr_artifact = trial_artifact, wr_definitions = [trial_digest],
     wr_task_queue = trial_proof, wr_registration = trial_proof, wr_registered = 1500\<rparr>"

definition trial_answers :: "int \<Rightarrow> stage_answers" where
  "trial_answers t = \<lparr>an_now = t, an_prepared = trial_prepared, an_readiness = Replied (Some trial_readiness),
     an_confirmation = Replied (Confirmed, trial_proof), an_stored = Inr (), an_replaced = Inr ''v2'', an_seen = None,
     an_text = (\<lambda>_. ''now'')\<rparr>"

named_theorems trial

lemma trial_digests [trial]:
  "is_control_digest trial_digest" "is_control_digest trial_first" "is_control_digest trial_second"
  "is_artifact_digest trial_proof" "valid_artifact trial_artifact" "trial_first \<noteq> trial_second" "trial_second \<noteq> trial_first"
  by code_simp+

lemma trial_controllers [trial]:
  "ct_sha (trial_controllers n) = (\<lambda>_. trial_digest)" "ct_lease (trial_controllers n) = 30000000"
  "ct_workers (trial_controllers n)" "ct_schedules (trial_controllers n)"
  "ct_digest (trial_controllers 0) = trial_first" "ct_digest (trial_controllers 1) = trial_second"
  "ct_digest (trial_controllers (Suc 0)) = trial_second"
  by (simp_all add: trial_controllers_def)

lemma trial_hashes [trial]:
  "provenance_digest (\<lambda>_. trial_digest) sf v = trial_proof" "scope_digest_of (\<lambda>_. trial_digest) sc = trial_digest"
  by (simp_all add: provenance_digest_def trial_proof_def scope_digest_of_def)

lemma trial_identity: "is_identity_kind kind \<Longrightarrow> identity_text (\<lambda>_. trial_digest) kind v = trial_digest"
  by (simp add: identity_text_def safe_identity_digest_def guard_result_def)

lemma trial_kinds [trial]:
  "is_identity_kind ''activation''" "is_identity_kind ''activation-change''" "is_identity_kind ''activation-key''"
  "is_identity_kind ''activation-actor''" "is_identity_kind ''activation-correlation''"
  by code_simp+

lemmas trial_identities [trial] = trial_kinds [THEN trial_identity]

lemma trial_changes [trial]:
  "configuration_changes (\<lambda>_. trial_digest) sf trial_digest trial_bundle (Some trial_active) trial_artifact None trial_proof None =
     pl_changes trial_plan"
  by code_simp

lemma trial_valid [trial]: "valid_plan trial_plan"
  by (simp add: valid_plan_def trial_plan_def trial trial_change_def bounded_text_def MAX_EXTERNAL_VERSION_LENGTH_def
    MAX_ACTIVATION_CHANGES_def)

lemma trial_bundle_tenant: "cb_tenant_revision trial_bundle = None"
  by (simp add: trial_bundle_def empty_bundle_def)

lemma trial_plan_made:
  "\<lparr>pl_digest = trial_proof, pl_scope = trial_digest, pl_source = None, pl_target = trial_second,
     pl_expected = Some trial_first, pl_pointer_version = Some 3, pl_alias_version = Some ''v1'', pl_policy = trial_proof,
     pl_worker_observation = trial_proof, pl_schedule_observation = trial_proof, pl_artifact = trial_artifact,
     pl_task_queue = trial_proof, pl_registration = trial_proof, pl_definitions = [trial_digest],
     pl_changes = pl_changes trial_plan, pl_risks = plan_risks (pl_changes trial_plan) True True,
     pl_rollout = True, pl_publish = True, pl_switch = True,
     pl_reconcile = (\<exists>c \<in> set (pl_changes trial_plan). ch_subject c = ScheduleSubject)\<rparr> = trial_plan"
  "length (pl_changes trial_plan) = 4"
  by (simp_all add: trial_plan_def plan_risks_def trial_change_def)

lemma trial_planned: "trial_planned = Inr trial_plan"
  by (simp add: trial_planned_def plan_activation_def trial trial_prepared_def observe_workers_def observe_schedules_def
    binding_result_def trial_world_def index_snapshot_of_def plan_configuration_activation_def Let_def
    trial_bundle_tenant trial_plan_made MAX_ACTIVATION_CHANGES_def)

lemma trial_plan_fields [trial]:
  "pl_digest trial_plan = trial_proof" "pl_scope trial_plan = trial_digest" "pl_target trial_plan = trial_second"
  "pl_expected trial_plan = Some trial_first" "pl_pointer_version trial_plan = Some 3"
  "pl_alias_version trial_plan = Some ''v1''" "pl_policy trial_plan = trial_proof" "pl_artifact trial_plan = trial_artifact"
  "pl_task_queue trial_plan = trial_proof" "pl_registration trial_plan = trial_proof"
  "pl_definitions trial_plan = [trial_digest]" "pl_rollout trial_plan" "pl_publish trial_plan" "pl_switch trial_plan"
  "pl_reconcile trial_plan"
  by (simp_all add: trial_plan_def)

lemma trial_triggers [trial]: "valid_triggers []"
  by code_simp

lemma trial_new: "new_activation (trial_controllers 0) trial_scope trial_request trial_plan 1000 = Inr trial_activation"
  by (simp add: new_activation_def trial_request_def activation_identity_def control_identity_digest_def control_identity_def
    MAX_CONTROL_IDENTITY_INPUT_LENGTH_def trial trial_activation_def valid_activation_def valid_history_def valid_checkpoints_def
    Let_def)

lemma trial_request_fields [trial]:
  "aq_plan_digest trial_request = trial_proof" "aq_key trial_request = ''k''" "aq_actor trial_request = ''operator''"
  by (simp_all add: trial_request_def)

lemma trial_activation_key: "activation_key trial_activation = (trial_digest, trial_digest)"
  by (simp add: trial_activation_def activation_key_def)

lemma trial_activated: "trial_activated = Inr (trial_activation, [((trial_digest, trial_digest), trial_activation)])"
  by (simp add: trial_activated_def activate_def trial_planned trial_new Let_def trial activation_identity_def
    control_identity_digest_def control_identity_def MAX_CONTROL_IDENTITY_INPUT_LENGTH_def read_activation_def read_row_def
    create_activation_def create_row_def trial_activation_key MAX_ACTIVATION_RECORD_BYTES_def)

definition trial_start :: control where
  "trial_start = new_control [((trial_digest, trial_digest), trial_activation)] trial_world"

definition trial_run :: "(nat \<times> stage_answers) list \<Rightarrow> control" where
  "trial_run turns = take_turns trial_controllers trial_scope (\<lambda>_. 1000) trial_digest trial_digest turns trial_start"

lemma valid_history_steps:
  "(\<forall>i < length ts. 0 < i \<longrightarrow> P i) \<longleftrightarrow> list_all P [1..<length ts]"
  by (auto simp: list_all_iff)

lemmas turn_defs = take_turn_def read_activation_def read_row_def settled_def set_process_def activation_key_def
  run_stage_def acquire_def acquire_lease_def start_or_resume_def save_or_raise_def transition_activation_def
  valid_activation_def valid_history_def valid_history_steps valid_checkpoints_def valid_readiness_def
  update_activation_def update_row_def MAX_ACTIVATION_RECORD_BYTES_def MAX_ACTIVATION_HISTORY_def
  MAX_ACTIVATION_CHANGES_def

lemmas run_defs = trial_run_def take_turns_def trial_start_def new_control_def trial_world_def trial_activation_def
  trial_answers_def validate_activation_def leave_waiting_def prepare_record_def trial_prepared_def prepared_stage_def
  store_definition_objects_def has_checkpoint_def checkpoint_stage_def save_changed_def record_checkpoint_def
  roll_out_workers_def binding_result_def await_readiness_def read_readiness_def confirm_readiness_def
  register_readiness_def trial_readiness_def reconcile_schedules_def switch_catalog_def switch_routing_def
  advance_active_pointer_def compare_and_swap_active_def replace_runtime_index_def index_replace_def finish_activation_def

text \<open>One controller takes the activation to its end.\<close>

definition trial_turns :: "nat \<Rightarrow> int \<Rightarrow> int \<Rightarrow> (nat \<times> stage_answers) list" where
  "trial_turns n t0 t1 = map (\<lambda>t. (n, trial_answers t)) [t0..t1]"

definition trial_record :: "control \<Rightarrow> activation" where
  "trial_record s = the (dict_get (cl_rows s) (trial_digest, trial_digest))"

definition trial_final :: control where
  "trial_final = trial_run (trial_turns 0 2001 2027)"

lemma trial_final:
  "dict_get (cl_rows trial_final) (trial_digest, trial_digest) = Some (trial_record trial_final)"
  "ac_state (trial_record trial_final) = ActApplied"
  "map cp_kind (ac_checkpoints (trial_record trial_final)) =
     [DefinitionsStored, WorkerRollout, WorkerReady, SchedulesReconciled, CatalogSwitched, WorkersRouted, PointerAdvanced,
      IndexReplaced]"
  "ac_readiness (trial_record trial_final) = Some trial_readiness"
  "cw_moves (cl_world trial_final) = [(trial_second, 4)]" "ac_plan (trial_record trial_final) = trial_plan"
  by (simp_all add: trial_final_def trial_record_def run_defs turn_defs trial trial_turns_def)

lemma trial_steps: "(control_step trial_controllers trial_scope (\<lambda>_. 1000) trial_digest trial_digest)\<^sup>*\<^sup>* trial_start (trial_run turns)"
  unfolding trial_run_def by (rule take_turns_steps)

lemma trial_premises:
  "activate (trial_controllers 0) trial_scope (\<lambda>_. 1000) trial_request
     (plan_activation (trial_controllers 0) trial_scope (aq_revision trial_request) trial_prepared trial_bundle
       (Some trial_active) [trial_digest] (Replied \<lparr>wo_digest = trial_proof, wo_registered = [], wo_artifact = None\<rparr>)
       (Replied trial_proof) trial_world) 1000 [] =
     Inr (trial_activation, [((trial_digest, trial_digest), trial_activation)])"
  "ac_scope trial_activation = trial_digest" "ac_id trial_activation = trial_digest"
  "read_activation trial_digest trial_digest [] = Inl ActivationNotFound"
  using trial_activated
  by (simp_all add: trial_activated_def trial_planned_def trial_request_def trial_activation_def read_activation_def read_row_def)

section \<open>An applied activation is complete\<close>




section \<open>The pointer moves once\<close>

text \<open>
  C21. All controllers of an activation together set the pointer to the active revision once at most, and to
  the revision and version that its plan announced.
\<close>

theorem pointer_moves_once:
  assumes "activate ct sc bytes rq (plan_activation ct sc (aq_revision rq) prepared bundle active definitions wr sr w0) now rows =
      Inr (a, rows')"
    and "read_activation (ac_scope a) (ac_id a) rows = Inl ActivationNotFound"
    and "(control_step cts sc bytes (ac_scope a) (ac_id a))\<^sup>*\<^sup>* (new_control rows' w) s"
  shows "(cw_moves (cl_world s) = [] \<or> cw_moves (cl_world s) = [next_pointer (ac_plan a)]) \<and>
    set (cw_moves (cl_world s)) \<subseteq> set (cl_history s) \<and> sorted_wrt (<) (map snd (cl_history s))"
  using activated_control_ok(1) [OF assms] by (auto simp: control_ok_def moves_ok_def pointer_history_def)

lemma pointer_moves_once_witness:
  "cw_moves (cl_world trial_final) = [next_pointer (ac_plan trial_activation)] \<and> (trial_second, 4) \<in> set (cl_history trial_final)"
  using pointer_moves_once [OF trial_premises(1), unfolded trial_premises(2,3), OF trial_premises(4)
      trial_steps [unfolded trial_start_def], folded trial_start_def, of "trial_turns 0 2001 2027"]
  unfolding trial_final_def [symmetric] by (auto simp: trial_final)

section \<open>The history of an activation\<close>

text \<open>
  C22. The stored record of an activation is always valid, its history has only transitions that the code
  allows, and later versions of it add to its transitions, checkpoints and readiness without changing any.
\<close>

theorem history_only_grows:
  assumes "activate ct sc bytes rq (plan_activation ct sc (aq_revision rq) prepared bundle active definitions wr sr w0) now rows =
      Inr (a, rows')"
    and "read_activation (ac_scope a) (ac_id a) rows = Inl ActivationNotFound"
    and "(control_step cts sc bytes (ac_scope a) (ac_id a))\<^sup>*\<^sup>* (new_control rows' w) s"
    and "(control_step cts sc bytes (ac_scope a) (ac_id a))\<^sup>*\<^sup>* s s'"
  shows "\<exists>x y. read_activation (ac_scope a) (ac_id a) (cl_rows s) = Inr x \<and>
    read_activation (ac_scope a) (ac_id a) (cl_rows s') = Inr y \<and> valid_activation x \<and>
    allowed_history (ac_transitions x) \<and> later_activation x y"
proof -
  note ok = activated_control_ok(1) [OF assms(1-3)] and consistent = activated_control_ok(3) [OF assms(1-3)]
  from ok obtain x where x: "dict_get (cl_rows s) (ac_scope a, ac_id a) = Some x" "activation_key x = (ac_scope a, ac_id a)"
      "activation_ok x"
    by (auto simp: control_ok_def record_ok_def)
  from steps_later [OF assms(4) ok consistent x(1)] obtain y where y: "dict_get (cl_rows s') (ac_scope a, ac_id a) = Some y"
      "later_activation x y" by blast
  have "activation_key y = (ac_scope a, ac_id a)"
    using y(2) x(2) same_key by (auto simp: later_activation_def)
  then show ?thesis using x y by (auto simp: read_activation_def read_row_def activation_ok_def)
qed

lemma history_only_grows_witness:
  "\<exists>x. read_activation trial_digest trial_digest (cl_rows trial_final) = Inr x \<and> allowed_history (ac_transitions x)"
  using history_only_grows [OF trial_premises(1), unfolded trial_premises(2,3), OF trial_premises(4)
      trial_steps [unfolded trial_start_def], folded trial_start_def, of "trial_turns 0 2001 2027", OF rtranclp.rtrancl_refl]
  unfolding trial_final_def by blast

text \<open>
  C23. Of two controllers that write over the same version one loses: after the first has written, the
  second's write is refused, whatever happens between.
\<close>

theorem lost_race_is_refused:
  assumes "activate ct sc bytes rq (plan_activation ct sc (aq_revision rq) prepared bundle active definitions wr sr w0) now rows =
      Inr (a, rows')"
    and "read_activation (ac_scope a) (ac_id a) rows = Inl ActivationNotFound"
    and "(control_step cts sc bytes (ac_scope a) (ac_id a))\<^sup>*\<^sup>* (new_control rows' w) s"
    and "cl_procs s n = Some (Saving u b next_stage prep)"
    and "update_activation bytes (ac_scope a) u (ac_version b) (cl_rows s) = Inr (y, rows1)"
    and "(control_step cts sc bytes (ac_scope a) (ac_id a))\<^sup>*\<^sup>*
      ((set_process n (map_option (\<lambda>st. Running st u prep) next_stage) s)\<lparr>cl_rows := rows1\<rparr>) s'"
    and "cl_procs s' m = Some (Saving u' b' next_stage' prep')" "ac_version b' = ac_version b"
  shows "update_activation bytes (ac_scope a) u' (ac_version b') (cl_rows s') \<noteq> Inr (z, rows2)"
proof -
  let ?s1 = "(set_process n (map_option (\<lambda>st. Running st u prep) next_stage) s)\<lparr>cl_rows := rows1\<rparr>"
  note consistent = activated_control_ok(3) [OF assms(1-3)]
  have step: "control_step cts sc bytes (ac_scope a) (ac_id a) s ?s1" by (rule record_saved [OF assms(4,5)])
  have before: "control_ok (ac_scope a) (ac_id a) (ac_plan a) s" by (rule activated_control_ok(1) [OF assms(1-3)])
  note after = control_step_ok [OF step before consistent]
  obtain x where x: "dict_get (cl_rows s) (ac_scope a, ac_id a) = Some x" "activation_key x = (ac_scope a, ac_id a)"
      "\<forall>n q. cl_procs s n = Some q \<longrightarrow> process_ok (cl_history s) x q"
    using before by (auto simp: control_ok_def)
  have "process_ok (cl_history s) x (Saving u b next_stage prep)" using x(3) assms(4) by blast
  then have "activation_key u = (ac_scope a, ac_id a)"
    using same_key [of b u] same_key [of b x] x(2) by (simp add: record_follows_def next_activation_def known_record_def)
  then have u: "dict_get (cl_rows ?s1) (ac_scope a, ac_id a) = Some u" "ac_version u = ac_version b + 1"
    using activations.update_conditional [OF assms(5)] by auto
  from steps_later [OF assms(6) after consistent u(1)] obtain v
    where v: "dict_get (cl_rows s') (ac_scope a, ac_id a) = Some v" "ac_version u \<le> ac_version v"
    by (auto simp: later_activation_def)
  show ?thesis
    by (rule stale_process [OF control_steps_ok [OF assms(6) after consistent] assms(7) v(1)]) (use u(2) v(2) assms(8) in simp)
qed

text \<open>Both controllers have read the first version and want to take the lease.\<close>

definition trial_race :: control where
  "trial_race = trial_run (trial_turns 0 2001 2002 @ trial_turns 1 2003 2004)"

definition trial_leased :: "string \<Rightarrow> int \<Rightarrow> activation" where
  "trial_leased owner t = trial_activation\<lparr>ac_lease_owner := Some owner, ac_lease_expires := Some (t + 30000000),
     ac_version := 2, ac_updated := t\<rparr>"

lemma trial_race:
  "cl_procs trial_race 0 = Some (Saving (trial_leased trial_first 2002) trial_activation (Some StartStage) None)"
  "cl_procs trial_race 1 = Some (Saving (trial_leased trial_second 2004) trial_activation (Some StartStage) None)"
  "update_activation (\<lambda>_. 1000) trial_digest (trial_leased trial_first 2002) 1 (cl_rows trial_race) =
     Inr (trial_leased trial_first 2002, [((trial_digest, trial_digest), trial_leased trial_first 2002)])"
  by (simp_all add: trial_race_def trial_leased_def run_defs turn_defs trial trial_turns_def)

lemma lost_race_is_refused_witness:
  "\<forall>result. update_activation (\<lambda>_. 1000) trial_digest (trial_leased trial_second 2004) 1
     [((trial_digest, trial_digest), trial_leased trial_first 2002)] \<noteq> Inr result"
proof -
  have version: "ac_version trial_activation = 1" by (simp add: trial_activation_def)
  from lost_race_is_refused [OF trial_premises(1), unfolded trial_premises(2,3), OF trial_premises(4)
      trial_steps [unfolded trial_start_def], folded trial_start_def, of "trial_turns 0 2001 2002 @ trial_turns 1 2003 2004",
      folded trial_race_def, OF trial_race(1) _ rtranclp.rtrancl_refl, unfolded version, OF trial_race(3), of 1]
  have "update_activation (\<lambda>_. 1000) trial_digest (trial_leased trial_second 2004) 1
     [((trial_digest, trial_digest), trial_leased trial_first 2002)] \<noteq> Inr (z, rows2)" for z rows2
    using trial_race(2) version by (simp add: set_process_def)
  then show ?thesis by (auto simp: split_paired_all)
qed

end
