(* ===== verification/JF_Exhausted.thy ===== *)
theory JF_Exhausted
  imports JF_Applied
begin

text \<open>
  The bounds of an activation's history and of its leases: a full history admits no further state, an
  activation whose operations fail fills it in fifty attempts, and a controller that has lost its lease can
  end the attempt of the one that holds it.
\<close>

section \<open>Operations that succeed\<close>

lemma history_snoc:
  assumes "valid_history state ts" "length ts < MAX_ACTIVATION_HISTORY" "tn_sequence u = Suc (length ts)" "tn_from u = state"
    and "tn_to u = to"
  shows "valid_history to (ts @ [u])"
  unfolding valid_history_def
proof (intro conjI allI impI)
  show "map tn_sequence (ts @ [u]) = [1..<Suc (length (ts @ [u]))]" using assms(1,3) by (simp add: valid_history_def)
  fix i
  assume i: "i < length (ts @ [u])" "0 < i"
  show "tn_to ((ts @ [u]) ! (i - 1)) = tn_from ((ts @ [u]) ! i)"
  proof (cases "i = length ts")
    case True
    then have "ts \<noteq> []" using i(2) by auto
    then have "ts ! (i - 1) = last ts" using True by (simp add: last_conv_nth)
    then show ?thesis using assms(1,4) True i(2) \<open>ts \<noteq> []\<close> by (simp add: nth_append valid_history_def)
  next
    case False
    then have "i < length ts" "i - 1 < length ts" using i by auto
    then show ?thesis using assms(1) i(2) by (simp add: nth_append valid_history_def)
  qed
qed (use assms in simp_all)

lemma transition_succeeds:
  assumes "valid_activation a" "to \<in> allowed_transitions (ac_state a)" "length (ac_transitions a) < MAX_ACTIVATION_HISTORY"
    and "(to \<in> {ActFailed, ActSuperseded}) = (outcome \<noteq> None)" "ac_created a \<le> t"
  shows "\<exists>u. transition_activation a to t outcome rel = Inr u \<and> valid_activation u \<and> ac_state u = to \<and>
    ac_version u = ac_version a + 1 \<and> activation_key u = activation_key a \<and> ac_created u = ac_created a \<and> ac_plan u = ac_plan a \<and>
    length (ac_transitions u) = Suc (length (ac_transitions a)) \<and> ac_lease_owner u = (if rel then None else ac_lease_owner a)"
  using assms history_snoc [of "ac_state a" "ac_transitions a" "\<lparr>tn_sequence = length (ac_transitions a) + 1, tn_from = ac_state a,
          tn_to = to, tn_at = t, tn_outcome = outcome\<rparr>" to]
  by (auto simp: transition_activation_def valid_activation_def validate_activation_def activation_key_def)

lemma acquire_succeeds:
  assumes "valid_activation a" "ac_lease_owner a = None" "is_control_digest owner" "ac_created a \<le> t" "t < expires"
  shows "\<exists>u. acquire_lease a owner t expires = Inr u \<and> valid_activation u \<and> ac_state u = ac_state a \<and>
    ac_version u = ac_version a + 1 \<and> activation_key u = activation_key a \<and> ac_created u = ac_created a \<and> ac_plan u = ac_plan a \<and>
    ac_transitions u = ac_transitions a"
  using assms by (auto simp: acquire_lease_def valid_activation_def validate_activation_def activation_key_def)

lemma update_succeeds:
  assumes "dict_get rows (scope, i) = Some x" "activation_key u = (scope, i)" "ac_version u = ac_version x + 1"
    and "bytes u \<le> MAX_ACTIVATION_RECORD_BYTES"
  shows "update_activation bytes scope u (ac_version x) rows = Inr (u, dict_set (scope, i) u rows)"
  using assms by (simp add: update_activation_def update_row_def)

section \<open>Attempts that fail\<close>

lemma same_world [simp]: "s\<lparr>cl_procs := ps, cl_world := cl_world s, cl_history := cl_history s\<rparr> = s\<lparr>cl_procs := ps\<rparr>"
  by (cases s) simp

text \<open>A stage that writes a record, and the write.\<close>

lemma stage_saved:
  assumes "cl_procs s n = Some (Running st a prep)" "dict_get (cl_rows s) (scope, i) = Some a"
    and "an_seen an = None" "run_stage (cts n) sc st a prep an (cl_world s) = (Save u st', prep', cl_world s)"
    and "activation_key u = (scope, i)" "ac_version u = ac_version a + 1" "bytes u \<le> MAX_ACTIVATION_RECORD_BYTES"
  shows "(control_step cts sc bytes scope i)\<^sup>*\<^sup>* s
    ((set_process n (Some (Running st' u prep')) s)\<lparr>cl_rows := dict_set (scope, i) u (cl_rows s)\<rparr>)"
proof -
  have first: "control_step cts sc bytes scope i s (set_process n (Some (Saving u a (Some st') prep')) s)" (is "control_step _ _ _ _ _ _ ?s1")
    using control_step.stage_runs [where cts = cts and n = n, OF assms(1) disjI1 [OF assms(3)] assms(4)] by (simp add: set_process_def)
  have "control_step cts sc bytes scope i ?s1
      ((set_process n (Some (Running st' u prep')) ?s1)\<lparr>cl_rows := dict_set (scope, i) u (cl_rows s)\<rparr>)"
    using control_step.record_saved [of ?s1 n u a "Some st'" prep' bytes scope u "dict_set (scope, i) u (cl_rows s)"]
      update_succeeds [where bytes = bytes, OF assms(2,5,6,7)]
    by (simp add: set_process_def)
  with first show ?thesis by (simp add: set_process_def converse_rtranclp_into_rtranclp)
qed

lemma stage_goes_on:
  assumes "cl_procs s n = Some (Running st a prep)" "an_seen an = None"
    and "run_stage (cts n) sc st a prep an (cl_world s) = (result, prep', cl_world s)" "after_stage a prep' result = p"
  shows "control_step cts sc bytes scope i s (set_process n p s)"
  using control_step.stage_runs [where cts = cts and n = n, OF assms(1) disjI1 [OF assms(2)] assms(3)] assms(4) by (simp add: set_process_def)

text \<open>
  An attempt whose preparation is refused: the lease is taken, the activation started, and failed again.
  \<open>idle\<close> is an activation that waits for its next attempt, with its history of the given length.
\<close>

definition idle :: "string \<Rightarrow> string \<Rightarrow> activation_plan \<Rightarrow> int \<Rightarrow> nat \<Rightarrow> control \<Rightarrow> bool" where
  "idle scope i p created k s \<longleftrightarrow> cl_procs s 0 = None \<and>
     (\<exists>x. dict_get (cl_rows s) (scope, i) = Some x \<and> activation_key x = (scope, i) \<and> valid_activation x \<and> ac_plan x = p \<and>
        ac_state x = (if k = 0 then ActPending else ActFailed) \<and> ac_lease_owner x = None \<and> ac_created x = created \<and>
        length (ac_transitions x) = k)"

definition refused_answers :: "int \<Rightarrow> stage_answers" where
  "refused_answers t = \<lparr>an_now = t, an_prepared = Inl (ControllerError InternalError True), an_readiness = Broke,
     an_confirmation = Broke, an_stored = Inr (), an_replaced = Inr [], an_seen = None, an_text = (\<lambda>_. [])\<rparr>"

lemma attempt_fails:
  assumes "idle scope i p created k s" "k + 2 \<le> MAX_ACTIVATION_HISTORY" "is_control_digest (ct_digest (cts 0))" "0 < ct_lease (cts 0)"
    and "\<And>a. bytes a \<le> MAX_ACTIVATION_RECORD_BYTES"
  shows "\<exists>s'. (control_step cts sc bytes scope i)\<^sup>*\<^sup>* s s' \<and> idle scope i p created (k + 2) s'"
proof -
  let ?step = "control_step cts sc bytes scope i" and ?an = "refused_answers created"
  obtain x where x: "dict_get (cl_rows s) (scope, i) = Some x" "activation_key x = (scope, i)" "valid_activation x" "ac_plan x = p"
      "ac_state x \<in> {ActPending, ActFailed}" "ac_lease_owner x = None" "ac_created x = created" "length (ac_transitions x) = k"
    and free: "cl_procs s 0 = None"
    using assms(1) by (auto simp: idle_def split: if_splits)
  have an: "an_seen ?an = None" "an_now ?an = created" "an_prepared ?an = Inl (ControllerError InternalError True)"
    by (simp_all add: refused_answers_def)
  let ?s1 = "set_process 0 (Some (Running AcquireStage x None)) s"
  have read: "read_activation scope i (cl_rows s) = Inr x" using x(1,2) by (simp add: read_activation_def read_row_def)
  have "\<not> settled x" using x(5) by (auto simp: settled_def)
  then have step1: "?step s ?s1" by (intro control_step.resume_begins read free)
  obtain u where u: "acquire_lease x (ct_digest (cts 0)) created (created + ct_lease (cts 0)) = Inr u" "valid_activation u"
      "ac_state u = ac_state x" "ac_version u = ac_version x + 1" "activation_key u = (scope, i)" "ac_created u = created"
      "ac_plan u = p" "ac_transitions u = ac_transitions x"
    using acquire_succeeds [OF x(3,6) assms(3), of created "created + ct_lease (cts 0)"] x(2,4,7) assms(4) by auto
  let ?s2 = "(set_process 0 (Some (Running StartStage u None)) ?s1)\<lparr>cl_rows := dict_set (scope, i) u (cl_rows ?s1)\<rparr>"
  have step2: "?step\<^sup>*\<^sup>* ?s1 ?s2"
  proof (rule stage_saved [where an = ?an and a = x])
    show "run_stage (cts 0) sc AcquireStage x None ?an (cl_world ?s1) = (Save u StartStage, None, cl_world ?s1)"
      by (simp add: run_stage_def acquire_def an u(1))
  qed (use x(1) u(4,5) assms(5) an(1) in \<open>simp_all add: set_process_def\<close>)
  obtain v where v: "transition_activation u ActRunning created None False = Inr v" "valid_activation v" "ac_state v = ActRunning"
      "ac_version v = ac_version u + 1" "activation_key v = (scope, i)" "ac_created v = created" "ac_plan v = p"
      "length (ac_transitions v) = Suc k"
    using transition_succeeds [OF u(2), of ActRunning None created False] u(3,5,6,7,8) x(5,8) assms(2) by auto
  let ?s3 = "(set_process 0 (Some (Running WaitingStage v None)) ?s2)\<lparr>cl_rows := dict_set (scope, i) v (cl_rows ?s2)\<rparr>"
  have step3: "?step\<^sup>*\<^sup>* ?s2 ?s3"
  proof (rule stage_saved [where an = ?an and a = u])
    show "run_stage (cts 0) sc StartStage u None ?an (cl_world ?s2) = (Save v WaitingStage, None, cl_world ?s2)"
      using x(5) by (auto simp: run_stage_def start_or_resume_def save_or_raise_def an u(3) v(1))
  qed (use u(5) v(4,5) assms(5) an(1) in \<open>simp_all add: set_process_def update_conv\<close>)
  let ?s4 = "set_process 0 (Some (Running PrepareStage v None)) ?s3"
  have step4: "?step ?s3 ?s4"
    by (rule stage_goes_on [where st = WaitingStage and prep = None and a = v and an = ?an and result = "Go PrepareStage" and prep' = None])
      (use v(3) in \<open>simp_all add: an set_process_def run_stage_def leave_waiting_def\<close>)
  let ?s5 = "set_process 0 (Some (Failing (ControllerError InternalError True))) ?s4"
  have step5: "?step ?s4 ?s5"
    by (rule stage_goes_on [where st = PrepareStage and prep = None and a = v and an = ?an and result = "Raise (ControllerError InternalError True)" and prep' = None])
      (simp_all add: an set_process_def run_stage_def prepare_record_def)
  obtain w where w: "transition_activation v ActFailed created (Some InternalError) True = Inr w" "valid_activation w"
      "ac_state w = ActFailed" "ac_version w = ac_version v + 1" "activation_key w = (scope, i)" "ac_created w = created"
      "ac_plan w = p" "length (ac_transitions w) = k + 2" "ac_lease_owner w = None"
    using transition_succeeds [OF v(2), of ActFailed "Some InternalError" created True] v(3,5,6,7,8) assms(2) by auto
  let ?s6 = "(set_process 0 None ?s5)\<lparr>cl_rows := dict_set (scope, i) w (cl_rows ?s5)\<rparr>"
  have step6: "?step ?s5 ?s6"
  proof (rule control_step.failure_recorded)
    show "cl_procs ?s5 0 = Some (Failing (ControllerError InternalError True))" by (simp add: set_process_def)
    show "resume_handler (ControllerError InternalError True) = Some (ActFailed, InternalError, True)" by simp
    show "read_activation scope i (cl_rows ?s5) = Inr v" using v(5) by (simp add: set_process_def read_activation_def read_row_def update_conv)
    show "terminate_activation v ActFailed InternalError created = Inr (Some w)"
      using w(1) v(3) by (simp add: terminate_activation_def settled_def)
    show "update_activation bytes scope w (ac_version v) (cl_rows ?s5) = Inr (w, dict_set (scope, i) w (cl_rows ?s5))"
      by (rule update_succeeds) (use w(4,5) assms(5) in \<open>simp_all add: set_process_def update_conv\<close>)
  qed
  have "idle scope i p created (k + 2) ?s6" using w by (simp add: idle_def set_process_def update_conv)
  moreover have "?step\<^sup>*\<^sup>* s ?s6"
    using step1 step2 step3 step4 step5 step6 by (meson converse_rtranclp_into_rtranclp rtranclp.rtrancl_into_rtrancl rtranclp_trans)
  ultimately show ?thesis by blast
qed

lemma attempts_fail:
  assumes "idle scope i p created 0 s" "2 * k \<le> MAX_ACTIVATION_HISTORY" "is_control_digest (ct_digest (cts 0))" "0 < ct_lease (cts 0)"
    and "\<And>a. bytes a \<le> MAX_ACTIVATION_RECORD_BYTES"
  shows "\<exists>s'. (control_step cts sc bytes scope i)\<^sup>*\<^sup>* s s' \<and> idle scope i p created (2 * k) s'"
  using assms(2)
proof (induction k)
  case (Suc k)
  then obtain s1 where s1: "(control_step cts sc bytes scope i)\<^sup>*\<^sup>* s s1" "idle scope i p created (2 * k) s1" by auto
  have "2 * k + 2 \<le> MAX_ACTIVATION_HISTORY" using Suc.prems by simp
  from attempt_fails [where bytes = bytes and cts = cts and sc = sc, OF s1(2) this assms(3,4,5)] obtain s2
    where "(control_step cts sc bytes scope i)\<^sup>*\<^sup>* s1 s2" "idle scope i p created (2 * k + 2) s2" by blast
  then show ?case using s1(1) by (auto intro: rtranclp_trans)
qed (use assms(1) in auto)

section \<open>A full history\<close>

text \<open>The record of an activation stays in a state, whatever its controllers do.\<close>

definition stays_in ::
    "(nat \<Rightarrow> controller) \<Rightarrow> runtime_scope \<Rightarrow> (activation \<Rightarrow> nat) \<Rightarrow> string \<Rightarrow> string \<Rightarrow> activation_state \<Rightarrow> control \<Rightarrow> bool" where
  "stays_in cts sc bytes scope i state s \<longleftrightarrow>
     (\<forall>s'. (control_step cts sc bytes scope i)\<^sup>*\<^sup>* s s' \<longrightarrow> map_option ac_state (dict_get (cl_rows s') (scope, i)) = Some state)"

text \<open>
  C24. An activation with a hundred transitions keeps its state for ever: it can neither be applied, nor be
  failed or superseded, however often it is resumed.
\<close>

theorem full_history_is_final:
  assumes "activate ct sc bytes rq (plan_activation ct sc (aq_revision rq) prepared bundle active definitions wr sr w0) now rows =
      Inr (a, rows')"
    and "read_activation (ac_scope a) (ac_id a) rows = Inl ActivationNotFound"
    and "(control_step cts sc bytes (ac_scope a) (ac_id a))\<^sup>*\<^sup>* (new_control rows' w) s"
    and "dict_get (cl_rows s) (ac_scope a, ac_id a) = Some x" "length (ac_transitions x) = MAX_ACTIVATION_HISTORY"
  shows "stays_in cts sc bytes (ac_scope a) (ac_id a) (ac_state x) s"
  unfolding stays_in_def
proof (intro allI impI)
  fix s' assume steps: "(control_step cts sc bytes (ac_scope a) (ac_id a))\<^sup>*\<^sup>* s s'"
  from steps_full [OF steps activated_control_ok(1,3) [OF assms(1-3)] assms(4)] assms(5)
  show "map_option ac_state (dict_get (cl_rows s') (ac_scope a, ac_id a)) = Some (ac_state x)" by auto
qed

lemma trial_idle: "idle trial_digest trial_digest trial_plan 1000 0 trial_start"
  using created_activation [OF trial_new]
  by (simp add: idle_def trial_start_def new_control_def activation_ok_def trial_activation_key)
    (simp add: trial_activation_def)

text \<open>Fifty attempts that fail bring it there.\<close>

lemma full_history_is_final_witness:
  "\<exists>s. (control_step trial_controllers trial_scope (\<lambda>_. 1000) trial_digest trial_digest)\<^sup>*\<^sup>* trial_start s \<and>
     stays_in trial_controllers trial_scope (\<lambda>_. 1000) trial_digest trial_digest ActFailed s"
proof -
  from attempts_fail [OF trial_idle, of 50 trial_controllers "\<lambda>_. 1000" trial_scope]
  obtain s where s: "(control_step trial_controllers trial_scope (\<lambda>_. 1000) trial_digest trial_digest)\<^sup>*\<^sup>* trial_start s"
      "idle trial_digest trial_digest trial_plan 1000 100 s"
    by (auto simp: trial MAX_ACTIVATION_HISTORY_def MAX_ACTIVATION_RECORD_BYTES_def)
  then obtain x where x: "dict_get (cl_rows s) (trial_digest, trial_digest) = Some x" "ac_state x = ActFailed"
      "length (ac_transitions x) = MAX_ACTIVATION_HISTORY"
    by (auto simp: idle_def MAX_ACTIVATION_HISTORY_def)
  from full_history_is_final [OF trial_premises(1), unfolded trial_premises(2,3), OF trial_premises(4)
      s(1) [unfolded trial_start_def] x(1,3)] x(2) s(1)
  show ?thesis by auto
qed

section \<open>A lost lease\<close>

text \<open>
  C25. A controller whose stage has failed ends the activation as it finds it: the record that it reads then
  becomes failed or superseded, and its lease is cleared, whoever holds it and however long it still runs.
\<close>

theorem failure_ends_any_lease:
  assumes "cl_procs s n = Some (Failing e)" "resume_handler e = Some (state, outcome, raised)"
    and "read_activation scope i (cl_rows s) = Inr a" "valid_activation a" "ac_state a \<in> {ActRunning, ActWaiting}"
    and "length (ac_transitions a) < MAX_ACTIVATION_HISTORY" "ac_created a \<le> t" "\<And>u. bytes u \<le> MAX_ACTIVATION_RECORD_BYTES"
  shows "\<exists>s' u. control_step cts sc bytes scope i s s' \<and> read_activation scope i (cl_rows s') = Inr u \<and>
    ac_state u = state \<and> ac_lease_owner u = None \<and> ac_version u = ac_version a + 1"
proof -
  have state: "state \<in> {ActFailed, ActSuperseded}" using assms(2) by (cases e) auto
  then have "state \<in> allowed_transitions (ac_state a)" using assms(5) by auto
  from transition_succeeds [OF assms(4) this assms(6) _ assms(7), of "Some outcome" True] state obtain u
    where u: "transition_activation a state t (Some outcome) True = Inr u" "ac_state u = state" "ac_version u = ac_version a + 1"
      "activation_key u = activation_key a" "ac_lease_owner u = None" by auto
  have a: "dict_get (cl_rows s) (scope, i) = Some a" "activation_key a = (scope, i)"
    using assms(3) by (auto simp: read_activation_def read_row_def split: option.split_asm if_splits)
  have ended: "terminate_activation a state outcome t = Inr (Some u)"
    using u(1) assms(5) by (auto simp: terminate_activation_def settled_def)
  have key: "activation_key u = (scope, i)" using u(4) a(2) by simp
  note update = update_succeeds [where bytes = bytes, OF a(1) key u(3) assms(8)]
  have "read_activation scope i (dict_set (scope, i) u (cl_rows s)) = Inr u"
    using key by (simp add: read_activation_def read_row_def update_conv)
  then have "read_activation scope i (cl_rows ((set_process n None s)\<lparr>cl_rows := dict_set (scope, i) u (cl_rows s)\<rparr>)) = Inr u"
    by simp
  then show ?thesis
    using control_step.failure_recorded [where cts = cts and sc = sc, OF assms(1-3) ended update] u(2,3,5) by blast
qed

text \<open>
  The first controller loses its lease after thirty seconds, the second takes it and resumes the activation,
  and then the first fails in its roll-out.
\<close>

definition trial_broken :: "int \<Rightarrow> stage_answers" where
  "trial_broken t = (trial_answers t)\<lparr>an_confirmation := Broke\<rparr>"

definition trial_lost :: control where
  "trial_lost = trial_run (trial_turns 0 2001 2009 @ trial_turns 1 40000001 40000003 @ [(0, trial_broken 40000004)])"

lemma trial_lost:
  "cl_procs trial_lost 0 = Some (Failing (ControllerError WorkerUnavailable True))"
  "read_activation trial_digest trial_digest (cl_rows trial_lost) = Inr (trial_record trial_lost)"
  "valid_activation (trial_record trial_lost)" "ac_state (trial_record trial_lost) = ActRunning"
  "ac_lease_owner (trial_record trial_lost) = Some trial_second" "ac_lease_expires (trial_record trial_lost) = Some 70000002"
  "length (ac_transitions (trial_record trial_lost)) = 1" "ac_created (trial_record trial_lost) = 1000"
  by (simp_all add: trial_lost_def trial_record_def trial_broken_def run_defs turn_defs trial trial_turns_def)

lemma failure_ends_any_lease_witness:
  "\<exists>s u. (control_step trial_controllers trial_scope (\<lambda>_. 1000) trial_digest trial_digest)\<^sup>*\<^sup>* trial_start s \<and>
     ac_lease_expires (trial_record trial_lost) = Some 70000002 \<and>
     read_activation trial_digest trial_digest (cl_rows s) = Inr u \<and> ac_state u = ActFailed \<and> ac_lease_owner u = None"
proof -
  have handler: "resume_handler (ControllerError WorkerUnavailable True) = Some (ActFailed, WorkerUnavailable, True)" by simp
  have lost: "ac_state (trial_record trial_lost) \<in> {ActRunning, ActWaiting}"
      "length (ac_transitions (trial_record trial_lost)) < MAX_ACTIVATION_HISTORY"
      "ac_created (trial_record trial_lost) \<le> 40000005"
    by (simp_all add: trial_lost MAX_ACTIVATION_HISTORY_def)
  obtain s u where s: "control_step trial_controllers trial_scope (\<lambda>_. 1000) trial_digest trial_digest trial_lost s"
      "read_activation trial_digest trial_digest (cl_rows s) = Inr u" "ac_state u = ActFailed" "ac_lease_owner u = None"
    using failure_ends_any_lease [where bytes = "\<lambda>_. 1000" and cts = trial_controllers and sc = trial_scope,
        OF trial_lost(1) handler trial_lost(2,3) lost]
    by (auto simp: MAX_ACTIVATION_RECORD_BYTES_def)
  have "(control_step trial_controllers trial_scope (\<lambda>_. 1000) trial_digest trial_digest)\<^sup>*\<^sup>* trial_start trial_lost"
    unfolding trial_lost_def by (rule trial_steps)
  then show ?thesis using s trial_lost(6) by (auto intro: rtranclp.rtrancl_into_rtrancl)
qed

end
