(* ===== verification/JF_Schedule_Specs.thy ===== *)
theory JF_Schedule_Specs
  imports JF_Starter
begin

text \<open>
  Authored schedules (\<open>config/schedules.py\<close>, \<open>config/triggers.py\<close>): the cron, interval and calendar
  specifications with their validators, and the declaration of a schedule trigger. Whether a timezone is
  installed is a parameter.
\<close>

section \<open>Calendars\<close>

definition MAX_CRON_EXPRESSIONS :: nat where "MAX_CRON_EXPRESSIONS = 10"
definition MAX_CRON_EXPRESSION_LENGTH :: nat where "MAX_CRON_EXPRESSION_LENGTH = 512"
definition MAX_CRON_LIST_ITEMS :: nat where "MAX_CRON_LIST_ITEMS = 64"
definition MAX_CALENDAR_RANGES :: nat where "MAX_CALENDAR_RANGES = 10"
definition MIN_SCHEDULE_YEAR :: int where "MIN_SCHEDULE_YEAR = 2000"
definition MAX_SCHEDULE_YEAR :: int where "MAX_SCHEDULE_YEAR = 2100"
definition MAX_INTERVAL_SECONDS :: int where "MAX_INTERVAL_SECONDS = 31536000"
definition MAX_BACKFILL_WINDOW_SECONDS :: int where "MAX_BACKFILL_WINDOW_SECONDS = 31536000"
definition MAX_BACKFILL_ACTIONS :: int where "MAX_BACKFILL_ACTIONS = 10000"
definition MIN_CATCH_UP_WINDOW_SECONDS :: int where "MIN_CATCH_UP_WINDOW_SECONDS = 10"
definition MAX_CATCH_UP_WINDOW_SECONDS :: int where "MAX_CATCH_UP_WINDOW_SECONDS = 31536000"

text \<open>\<open>range(a, b, s)\<close> for a positive step.\<close>

definition py_range :: "int \<Rightarrow> int \<Rightarrow> int \<Rightarrow> int list" where
  "py_range a b s = map (\<lambda>k. a + s * int k) [0..<nat ((b - a + s - 1) div s)]"

record calendar_range =
  cr_start :: int
  cr_end :: "int option"
  cr_step :: int

definition valid_range :: "calendar_range \<Rightarrow> bool" where
  "valid_range r \<longleftrightarrow> 1 \<le> cr_step r \<and>
     (case cr_end r of Some e \<Rightarrow> cr_start r \<le> e | None \<Rightarrow> cr_step r = 1)"

definition range_end :: "calendar_range \<Rightarrow> int" where
  "range_end r = (case cr_end r of None \<Rightarrow> cr_start r | Some e \<Rightarrow> e)"

definition range_values :: "calendar_range \<Rightarrow> int list" where
  "range_values r = py_range (cr_start r) (range_end r + 1) (cr_step r)"

record calendar_spec =
  ca_second :: "calendar_range list"
  ca_minute :: "calendar_range list"
  ca_hour :: "calendar_range list"
  ca_day_of_month :: "calendar_range list"
  ca_month :: "calendar_range list"
  ca_year :: "calendar_range list"
  ca_day_of_week :: "calendar_range list"

text \<open>The loop over the ranges of a field, with the values seen so far.\<close>

fun ranges_ok :: "int \<Rightarrow> int \<Rightarrow> int list \<Rightarrow> calendar_range list \<Rightarrow> bool" where
  "ranges_ok lo hi seen [] = True"
| "ranges_ok lo hi seen (r # rs) =
     (lo \<le> cr_start r \<and> range_end r \<le> hi \<and> set seen \<inter> set (range_values r) = {} \<and>
      ranges_ok lo hi (seen @ range_values r) rs)"

definition calendar_fields :: "calendar_spec \<Rightarrow> (calendar_range list \<times> int \<times> int) list" where
  "calendar_fields c =
     [(ca_second c, 0, 59), (ca_minute c, 0, 59), (ca_hour c, 0, 23), (ca_day_of_month c, 1, 31), (ca_month c, 1, 12),
      (ca_year c, MIN_SCHEDULE_YEAR, MAX_SCHEDULE_YEAR), (ca_day_of_week c, 0, 6)]"

definition valid_calendar :: "calendar_spec \<Rightarrow> bool" where
  "valid_calendar c \<longleftrightarrow>
     list_all (\<lambda>(rs, lo, hi). length rs \<le> MAX_CALENDAR_RANGES \<and> list_all valid_range rs \<and> ranges_ok lo hi [] rs) (calendar_fields c) \<and>
     list_all (\<lambda>rs. rs \<noteq> []) [ca_second c, ca_minute c, ca_hour c, ca_day_of_month c, ca_month c, ca_day_of_week c]"

definition calendar_value_count :: "calendar_range list \<Rightarrow> int" where
  "calendar_value_count rs = sum_list (map (\<lambda>r. (range_end r - cr_start r) div cr_step r + 1) rs)"

definition maximum_daily_actions :: "calendar_spec \<Rightarrow> int" where
  "maximum_daily_actions c =
     calendar_value_count (ca_second c) * calendar_value_count (ca_minute c) * calendar_value_count (ca_hour c)"

section \<open>Cron expressions\<close>

text \<open>\<open>s.split()\<close>, and the length of a text in UTF-8.\<close>

function split_words :: "string \<Rightarrow> string list" where
  "split_words s =
     (let rest = dropWhile is_space s
      in if rest = [] then [] else takeWhile (\<lambda>c. \<not> is_space c) rest # split_words (dropWhile (\<lambda>c. \<not> is_space c) rest))"
  by pat_completeness auto
termination
proof (relation "measure length", goal_cases)
  case (2 s rest)
  then obtain c cs where rest: "rest = c # cs" "\<not> is_space c" by (metis hd_dropWhile list.collapse)
  have "length (dropWhile (\<lambda>c. \<not> is_space c) rest) \<le> length cs" using rest by (simp add: length_dropWhile_le)
  also have "length (c # cs) \<le> length s" using 2(1) rest(1) length_dropWhile_le [of is_space s] by metis
  then have "length cs < length s" by simp
  finally show ?case by simp
qed simp

definition spec_utf8_length :: "string \<Rightarrow> nat" where
  "spec_utf8_length s = sum_list (map (\<lambda>c. if char_code c < 128 then 1 else 2) s)"

text \<open>\<open>CRON_ATOM_PATTERN\<close>: a start that may be a star, an end and a step.\<close>

definition after_char :: "char \<Rightarrow> string \<Rightarrow> string option" where
  "after_char c s = (case dropWhile (\<lambda>x. x \<noteq> c) s of [] \<Rightarrow> None | _ # rest \<Rightarrow> Some rest)"

definition cron_atom :: "string \<Rightarrow> (nat option \<times> nat option \<times> nat option) option" where
  "cron_atom s =
     (let front = takeWhile (\<lambda>x. x \<noteq> CHR ''/'') s; step = after_char (CHR ''/'') s;
          start = takeWhile (\<lambda>x. x \<noteq> CHR ''-'') front; stop = after_char (CHR ''-'') front
      in if (start = ''*'' \<or> is_decimal start) \<and> pred_option is_decimal stop \<and> pred_option is_decimal step
         then Some (if start = ''*'' then None else Some (nat_of_digits start), map_option nat_of_digits stop,
           map_option nat_of_digits step)
         else None)"

definition cron_atom_ok :: "nat \<Rightarrow> nat \<Rightarrow> string \<Rightarrow> bool" where
  "cron_atom_ok lo hi s = (case cron_atom s of
       None \<Rightarrow> False
     | Some (start, stop, step) \<Rightarrow>
         (case start of
            None \<Rightarrow> stop = None
          | Some a \<Rightarrow> (let b = (case stop of None \<Rightarrow> a | Some x \<Rightarrow> x) in lo \<le> a \<and> b \<le> hi \<and> a \<le> b)) \<and>
         (case step of None \<Rightarrow> True | Some k \<Rightarrow> 1 \<le> k \<and> k \<le> hi - lo + 1))"

definition cron_field_ok :: "nat \<Rightarrow> nat \<Rightarrow> string \<Rightarrow> bool" where
  "cron_field_ok lo hi s =
     (let atoms = str_split (CHR '','') s in length atoms \<le> MAX_CRON_LIST_ITEMS \<and> list_all (cron_atom_ok lo hi) atoms)"

definition CRON_FIELD_BOUNDS :: "(nat \<times> nat) list" where
  "CRON_FIELD_BOUNDS = [(0, 59), (0, 23), (1, 31), (1, 12), (0, 6)]"

definition cron_expression_ok :: "string \<Rightarrow> bool" where
  "cron_expression_ok s =
     (let fs = split_words s
      in length fs = length CRON_FIELD_BOUNDS \<and> list_all (\<lambda>(f, lo, hi). cron_field_ok lo hi f) (zip fs CRON_FIELD_BOUNDS) \<and>
         \<not> (fs ! 2 \<noteq> ''*'' \<and> fs ! 4 \<noteq> ''*''))"

definition valid_expressions :: "string list \<Rightarrow> bool" where
  "valid_expressions es \<longleftrightarrow>
     1 \<le> length es \<and> length es \<le> MAX_CRON_EXPRESSIONS \<and> distinct es \<and>
     list_all (\<lambda>e. e \<noteq> [] \<and> spec_utf8_length e \<le> MAX_CRON_EXPRESSION_LENGTH \<and> py_strip e = e \<and>
       take 3 e \<noteq> ''TZ='' \<and> take 8 e \<noteq> ''CRON_TZ='' \<and> cron_expression_ok e) es"

section \<open>Declarations\<close>

datatype schedule_spec = CronSpec "string list" | IntervalSpec int int | CalendarSpec calendar_spec

definition valid_spec :: "schedule_spec \<Rightarrow> bool" where
  "valid_spec s = (case s of
       CronSpec es \<Rightarrow> valid_expressions es
     | IntervalSpec every offset \<Rightarrow> 1 \<le> every \<and> every \<le> MAX_INTERVAL_SECONDS \<and> 0 \<le> offset \<and>
         offset \<le> MAX_INTERVAL_SECONDS \<and> offset < every
     | CalendarSpec c \<Rightarrow> valid_calendar c)"

datatype overlap_policy = SkipOverlap | BufferOne | BufferAll | CancelOther | TerminateOther | AllowAll

fun overlap_text :: "overlap_policy \<Rightarrow> string" where
  "overlap_text SkipOverlap = ''skip''"
| "overlap_text BufferOne = ''buffer_one''"
| "overlap_text BufferAll = ''buffer_all''"
| "overlap_text CancelOther = ''cancel_other''"
| "overlap_text TerminateOther = ''terminate_other''"
| "overlap_text AllowAll = ''allow_all''"

record backfill_policy =
  bf_enabled :: bool
  bf_window :: int
  bf_actions :: int

text \<open>\<open>ScheduleTriggerDeclaration\<close>; the input as JSON data.\<close>

record schedule_declaration =
  sx_workflow :: string
  sx_paused :: bool
  sx_definition_digest :: "string option"
  sx_input :: "json dict"
  sx_spec :: schedule_spec
  sx_timezone :: string
  sx_overlap :: overlap_policy
  sx_catch_up :: int
  sx_backfill :: backfill_policy

definition valid_declaration :: "(string \<Rightarrow> bool) \<Rightarrow> schedule_declaration \<Rightarrow> bool" where
  "valid_declaration installed d \<longleftrightarrow>
     pred_option is_sha256_hex (sx_definition_digest d) \<and> valid_spec (sx_spec d) \<and>
     bounded_text 128 (sx_timezone d) \<and> installed (sx_timezone d) \<and>
     MIN_CATCH_UP_WINDOW_SECONDS \<le> sx_catch_up d \<and> sx_catch_up d \<le> MAX_CATCH_UP_WINDOW_SECONDS \<and>
     1 \<le> bf_window (sx_backfill d) \<and> bf_window (sx_backfill d) \<le> MAX_BACKFILL_WINDOW_SECONDS \<and>
     1 \<le> bf_actions (sx_backfill d) \<and> bf_actions (sx_backfill d) \<le> MAX_BACKFILL_ACTIONS \<and>
     (case sx_spec d of IntervalSpec _ _ \<Rightarrow> sx_timezone d = ''UTC'' | _ \<Rightarrow> True)"

text \<open>Its JSON form, \<open>model_dump(mode="json")\<close>.\<close>

definition range_json :: "calendar_range \<Rightarrow> json" where
  "range_json r = JObj [(''start'', JInt (cr_start r)), (''end'', (case cr_end r of None \<Rightarrow> JNull | Some e \<Rightarrow> JInt e)),
     (''step'', JInt (cr_step r))]"

definition spec_json :: "schedule_spec \<Rightarrow> json" where
  "spec_json s = (case s of
       CronSpec es \<Rightarrow> JObj [(''kind'', JStr ''cron''), (''expressions'', JList (map JStr es))]
     | IntervalSpec every offset \<Rightarrow>
         JObj [(''kind'', JStr ''interval''), (''every_seconds'', JInt every), (''offset_seconds'', JInt offset)]
     | CalendarSpec c \<Rightarrow> JObj ((''kind'', JStr ''calendar'') #
         map (\<lambda>(n, rs). (n, JList (map range_json rs)))
           [(''second'', ca_second c), (''minute'', ca_minute c), (''hour'', ca_hour c), (''day_of_month'', ca_day_of_month c),
            (''month'', ca_month c), (''year'', ca_year c), (''day_of_week'', ca_day_of_week c)]))"

definition declaration_json :: "schedule_declaration \<Rightarrow> json" where
  "declaration_json d = JObj
     [(''workflow'', JStr (sx_workflow d)), (''paused'', JBool (sx_paused d)), (''kind'', JStr ''schedule''),
      (''definition_digest'', (case sx_definition_digest d of None \<Rightarrow> JNull | Some s \<Rightarrow> JStr s)),
      (''input'', JObj (sx_input d)), (''spec'', spec_json (sx_spec d)), (''timezone'', JStr (sx_timezone d)),
      (''overlap_policy'', JStr (overlap_text (sx_overlap d))), (''catch_up_window_seconds'', JInt (sx_catch_up d)),
      (''backfill'', JObj [(''enabled'', JBool (bf_enabled (sx_backfill d))),
        (''max_window_seconds'', JInt (bf_window (sx_backfill d))), (''max_actions'', JInt (bf_actions (sx_backfill d)))])]"

section \<open>How often a calendar acts\<close>

lemma le_div_iff:
  assumes "0 < (s::int)"
  shows "m \<le> y div s \<longleftrightarrow> m * s \<le> y"
proof
  assume "m \<le> y div s"
  then have "m * s \<le> y div s * s" using assms by (simp add: mult_right_mono)
  also have "\<dots> \<le> y" using pos_mod_sign [OF assms, of y] div_mult_mod_eq [of y s] by linarith
  finally show "m * s \<le> y" .
next
  assume "m * s \<le> y"
  from zdiv_mono1 [OF this assms] show "m \<le> y div s" using assms by simp
qed

lemma py_range_members:
  assumes "1 \<le> s"
  shows "x \<in> set (py_range a b s) \<longleftrightarrow> a \<le> x \<and> x < b \<and> s dvd (x - a)"
proof -
  have k: "int k < (b - a + s - 1) div s \<longleftrightarrow> a + s * int k < b" for k
    using le_div_iff [of s "int k + 1" "b - a + s - 1"] assms by (auto simp: algebra_simps)
  have "x \<in> set (py_range a b s) \<longleftrightarrow> (\<exists>k. int k < (b - a + s - 1) div s \<and> x = a + s * int k)"
    by (auto simp: py_range_def image_iff zless_nat_eq_int_zless)
  also have "\<dots> \<longleftrightarrow> (\<exists>k. a + s * int k < b \<and> x = a + s * int k)" by (simp only: k)
  also have "\<dots> \<longleftrightarrow> a \<le> x \<and> x < b \<and> s dvd (x - a)"
  proof
    assume x: "a \<le> x \<and> x < b \<and> s dvd (x - a)"
    then obtain q where q: "x - a = s * q" by (auto simp: dvd_def)
    then have "0 \<le> q" using x assms by (metis diff_ge_0_iff_ge zero_le_mult_iff not_one_le_zero order_trans linorder_le_cases)
    then have "x = a + s * int (nat q)" using q by simp
    then show "\<exists>k. a + s * int k < b \<and> x = a + s * int k" using x by metis
  qed (use assms in auto)
  finally show ?thesis .
qed

lemma distinct_py_range: "1 \<le> s \<Longrightarrow> distinct (py_range a b s)"
  by (auto simp: py_range_def distinct_map inj_on_def)

lemma range_count:
  assumes "valid_range r"
  shows "int (length (range_values r)) = (range_end r - cr_start r) div cr_step r + 1"
proof -
  have r: "1 \<le> cr_step r" "cr_start r \<le> range_end r"
    using assms by (auto simp: valid_range_def range_end_def split: option.splits)
  then have "(range_end r + 1 - cr_start r + cr_step r - 1) div cr_step r = (range_end r - cr_start r) div cr_step r + 1"
    using div_add_self2 [of "cr_step r" "range_end r - cr_start r"] by (simp add: algebra_simps)
  moreover have "0 \<le> (range_end r - cr_start r) div cr_step r" using r by (simp add: pos_imp_zdiv_nonneg_iff)
  ultimately show ?thesis by (simp add: range_values_def py_range_def)
qed

text \<open>The values that a field of a calendar matches.\<close>

definition field_values :: "calendar_range list \<Rightarrow> int set" where
  "field_values rs = (\<Union>r \<in> set rs. set (range_values r))"

lemma ranges_count:
  assumes "ranges_ok lo hi seen rs" "list_all valid_range rs" "distinct seen"
  shows "int (card (set seen \<union> field_values rs)) = int (length seen) + calendar_value_count rs"
  using assms
proof (induction rs arbitrary: seen)
  case Nil
  then show ?case by (simp add: field_values_def calendar_value_count_def distinct_card)
next
  case (Cons r rs)
  have "distinct (range_values r)"
    using Cons.prems by (auto simp: range_values_def valid_range_def intro: distinct_py_range)
  then have "distinct (seen @ range_values r)" using Cons.prems by auto
  moreover have "ranges_ok lo hi (seen @ range_values r) rs" "list_all valid_range rs" using Cons.prems by auto
  ultimately have "int (card (set (seen @ range_values r) \<union> field_values rs)) =
      int (length (seen @ range_values r)) + calendar_value_count rs"
    by (intro Cons.IH)
  moreover have "set seen \<union> field_values (r # rs) = set (seen @ range_values r) \<union> field_values rs"
    by (auto simp: field_values_def)
  ultimately show ?case
    using range_count [of r] Cons.prems(2) by (simp add: calendar_value_count_def)
qed

lemma field_count:
  assumes "ranges_ok lo hi [] rs" "list_all valid_range rs"
  shows "int (card (field_values rs)) = calendar_value_count rs"
  using ranges_count [OF assms] by simp

text \<open>
  C31. The count by which the backfill of a calendar is bounded is exact: it is the number of times of day, to the
  second, that a valid calendar matches.
\<close>

theorem daily_actions_are_counted:
  assumes "valid_calendar c"
  shows "maximum_daily_actions c =
    int (card (field_values (ca_second c) \<times> field_values (ca_minute c) \<times> field_values (ca_hour c)))"
proof -
  have "int (card (field_values (ca_second c))) = calendar_value_count (ca_second c)"
      "int (card (field_values (ca_minute c))) = calendar_value_count (ca_minute c)"
      "int (card (field_values (ca_hour c))) = calendar_value_count (ca_hour c)"
    using assms by (auto simp: valid_calendar_def calendar_fields_def intro: field_count)
  then show ?thesis by (simp add: maximum_daily_actions_def card_cartesian_product)
qed

definition office_hours :: calendar_spec where
  "office_hours = (let every = (\<lambda>lo hi. [\<lparr>cr_start = lo, cr_end = Some hi, cr_step = 1\<rparr>])
     in \<lparr>ca_second = [\<lparr>cr_start = 0, cr_end = None, cr_step = 1\<rparr>],
          ca_minute = [\<lparr>cr_start = 0, cr_end = Some 59, cr_step = 15\<rparr>],
          ca_hour = [\<lparr>cr_start = 9, cr_end = Some 11, cr_step = 1\<rparr>, \<lparr>cr_start = 13, cr_end = Some 16, cr_step = 1\<rparr>],
          ca_day_of_month = every 1 31, ca_month = every 1 12, ca_year = [], ca_day_of_week = every 1 5\<rparr>)"

theorem daily_actions_are_counted_witness:
  "card (field_values (ca_second office_hours) \<times> field_values (ca_minute office_hours) \<times> field_values (ca_hour office_hours)) = 28"
proof -
  have "valid_calendar office_hours" by code_simp
  from daily_actions_are_counted [OF this] have "int (card (field_values (ca_second office_hours) \<times>
      field_values (ca_minute office_hours) \<times> field_values (ca_hour office_hours))) = maximum_daily_actions office_hours" by simp
  also have "\<dots> = 28" by code_simp
  finally show ?thesis by simp
qed

end
