(* ===== verification/JF_Recurring.thy ===== *)
theory JF_Recurring
  imports JF_Schedule_Specs JF_Activation
begin

text \<open>
  Recurring schedules (\<open>runtime/schedules.py\<close>): the immutable action that a declared schedule compiles to,
  the identities of schedules, and the plan that reconciles the schedules of a scope with those observed in
  Temporal.
\<close>

section \<open>Identities\<close>

definition SCHEDULE_OWNER :: string where "SCHEDULE_OWNER = ''justflow''"
definition SCHEDULE_ID_PREFIX :: string where "SCHEDULE_ID_PREFIX = ''justflow.schedule.''"
definition SCHEDULE_DISPATCH_WORKFLOW_ID_PREFIX :: string where
  "SCHEDULE_DISPATCH_WORKFLOW_ID_PREFIX = ''justflow.schedule-dispatch.''"
definition SCHEDULE_DISPATCH_WORKFLOW_TYPE :: string where
  "SCHEDULE_DISPATCH_WORKFLOW_TYPE = ''justflow.schedule-dispatch.v1''"
definition MEMO_SCHEDULE_OWNER :: string where "MEMO_SCHEDULE_OWNER = ''justflow.schedule_owner''"
definition MEMO_SCHEDULE_NAME :: string where "MEMO_SCHEDULE_NAME = ''justflow.schedule_name''"
definition MEMO_SCHEDULE_DESIRED_DIGEST :: string where "MEMO_SCHEDULE_DESIRED_DIGEST = ''justflow.schedule_desired_digest''"
definition MEMO_SCHEDULE_FORMAT_VERSION :: string where "MEMO_SCHEDULE_FORMAT_VERSION = ''justflow.schedule_format_version''"
definition MEMO_SCOPE_DIGEST :: string where "MEMO_SCOPE_DIGEST = ''justflow.scope_digest''"

definition make_recurring_schedule_id :: "(string \<Rightarrow> string) \<Rightarrow> string \<Rightarrow> runtime_scope \<Rightarrow> scope_error + string" where
  "make_recurring_schedule_id sha name sc = scoped_identity sha ''schedule'' sc [name]"

definition make_unscoped_schedule_id :: "string \<Rightarrow> string" where
  "make_unscoped_schedule_id name = SCHEDULE_ID_PREFIX @ name"

definition make_schedule_dispatch_workflow_id :: "(string \<Rightarrow> string) \<Rightarrow> string \<Rightarrow> runtime_scope \<Rightarrow> scope_error + string" where
  "make_schedule_dispatch_workflow_id sha name sc = scoped_identity sha ''schedule-dispatch'' sc [name]"

definition make_schedule_run_now_workflow_id ::
    "(string \<Rightarrow> string) \<Rightarrow> string \<Rightarrow> string \<Rightarrow> runtime_scope \<Rightarrow> scope_error + string" where
  "make_schedule_run_now_workflow_id sha name request sc = scoped_identity sha ''schedule-run-now'' sc [name, request]"

definition make_unscoped_schedule_dispatch_workflow_id :: "string \<Rightarrow> string" where
  "make_unscoped_schedule_dispatch_workflow_id name = SCHEDULE_DISPATCH_WORKFLOW_ID_PREFIX @ name"

definition make_schedule_occurrence_id ::
    "(string \<Rightarrow> string) \<Rightarrow> string \<Rightarrow> string \<Rightarrow> string option \<Rightarrow> scope_error + string" where
  "make_schedule_occurrence_id sha name dispatch_id scope =
     (let occurrence = sha (json_texts [''schedule_occurrence'', name, dispatch_id])
      in case scope of
           None \<Rightarrow> Inr occurrence
         | Some d \<Rightarrow> scoped_identity_from_digest sha ''schedule-occurrence'' d [name, occurrence])"

section \<open>What a schedule compiles to\<close>

record schedule_target =
  si_scope :: "string option"
  si_workflow :: string
  si_definition :: string
  si_artifact :: worker_artifact
  si_environment :: string
  si_configuration :: "execution_configuration option"

definition target_of :: "(string \<Rightarrow> string) \<Rightarrow> start_target \<Rightarrow> runtime_scope \<Rightarrow> schedule_target" where
  "target_of sha t sc =
     \<lparr>si_scope = Some (scope_digest_of sha sc), si_workflow = mf_logical_name (tg_manifest t),
      si_definition = mf_definition_digest (tg_manifest t), si_artifact = wd_artifact (tg_deployment t),
      si_environment = tg_environment_digest t, si_configuration = tg_configuration t\<rparr>"

definition valid_schedule_target :: "schedule_target \<Rightarrow> bool" where
  "valid_schedule_target t \<longleftrightarrow>
     pred_option is_digest (si_scope t) \<and> is_name (si_workflow t) \<and> is_sha256_hex (si_definition t) \<and>
     valid_artifact (si_artifact t) \<and> is_sha256_hex (si_environment t) \<and> pred_option valid_configuration (si_configuration t)"

text \<open>\<open>model_dump\<close> with the fields that are \<open>None\<close>, or without.\<close>

definition dump_option :: "bool \<Rightarrow> string \<Rightarrow> json option \<Rightarrow> json dict" where
  "dump_option keep k v = (case v of None \<Rightarrow> (if keep then [(k, JNull)] else []) | Some j \<Rightarrow> [(k, j)])"

definition configuration_json :: "bool \<Rightarrow> execution_configuration \<Rightarrow> json" where
  "configuration_json keep c = JObj
     ([(''configuration_revision_id'', JStr (xc_revision c))] @
      dump_option keep ''tenant_configuration_revision_id'' (map_option JStr (xc_tenant_revision c)) @
      dump_option keep ''component_catalog_revision'' (map_option JStr (xc_catalog_revision c)) @
      dump_option keep ''component_identity_digest'' (map_option JStr (xc_component_digest c)) @
      [(''resolution_digest'', JStr (xc_resolution_digest c))])"

definition schedule_artifact_json :: "bool \<Rightarrow> worker_artifact \<Rightarrow> json" where
  "schedule_artifact_json keep a = JObj
     ([(''deployment_name'', JStr (wa_deployment_name a)), (''build_id'', JStr (wa_build_id a)),
       (''artifact_digest'', JStr (wa_artifact_digest a)), (''package_version'', JStr (wa_package_version a))] @
      dump_option keep ''source_revision'' (map_option JStr (wa_source_revision a)))"

definition target_json :: "bool \<Rightarrow> schedule_target \<Rightarrow> json" where
  "target_json keep t = JObj
     (dump_option keep ''scope_digest'' (map_option JStr (si_scope t)) @
      [(''workflow_name'', JStr (si_workflow t)), (''definition_digest'', JStr (si_definition t)),
       (''artifact_identity'', schedule_artifact_json keep (si_artifact t)),
       (''environment_snapshot_digest'', JStr (si_environment t))] @
      dump_option keep ''execution_configuration'' (map_option (configuration_json keep) (si_configuration t)))"

record schedule_dispatch_plan =
  sp_name :: string
  sp_target :: schedule_target
  sp_input :: "json dict"
  sp_timeout :: int
  sp_attempts :: int

definition valid_dispatch_plan :: "schedule_dispatch_plan \<Rightarrow> bool" where
  "valid_dispatch_plan p \<longleftrightarrow> is_name (sp_name p) \<and> valid_schedule_target (sp_target p) \<and>
     1 \<le> sp_timeout p \<and> sp_timeout p \<le> 300 \<and> 1 \<le> sp_attempts p \<and> sp_attempts p \<le> 100"

definition dispatch_plan_json :: "schedule_dispatch_plan \<Rightarrow> json" where
  "dispatch_plan_json p = JObj
     [(''format_version'', JInt 1), (''schedule_name'', JStr (sp_name p)), (''target'', target_json True (sp_target p)),
      (''input'', JObj (sp_input p)), (''dispatch_timeout_seconds'', JInt (sp_timeout p)),
      (''dispatch_attempts'', JInt (sp_attempts p))]"

text \<open>The schedule of the Temporal client: spec, action, policy and state.\<close>

datatype temporal_spec =
    TemporalCron "string list" string
  | TemporalInterval int int string
  | TemporalCalendar "(string \<times> (int \<times> int \<times> int) list) list" string

record temporal_schedule =
  th_workflow :: string
  th_argument :: json
  th_workflow_id :: string
  th_task_queue :: string
  th_memo :: "json dict"
  th_spec :: temporal_spec
  th_overlap :: overlap_policy
  th_catch_up :: int
  th_paused :: bool

definition temporal_ranges :: "calendar_range list \<Rightarrow> (int \<times> int \<times> int) list" where
  "temporal_ranges rs = map (\<lambda>r. (cr_start r, range_end r, cr_step r)) rs"

definition temporal_schedule_spec :: "schedule_declaration \<Rightarrow> temporal_spec" where
  "temporal_schedule_spec d = (case sx_spec d of
       CronSpec es \<Rightarrow> TemporalCron es (sx_timezone d)
     | IntervalSpec every offset \<Rightarrow> TemporalInterval every offset (sx_timezone d)
     | CalendarSpec c \<Rightarrow> TemporalCalendar
         [(''second'', temporal_ranges (ca_second c)), (''minute'', temporal_ranges (ca_minute c)),
          (''hour'', temporal_ranges (ca_hour c)), (''day_of_month'', temporal_ranges (ca_day_of_month c)),
          (''month'', temporal_ranges (ca_month c)), (''year'', temporal_ranges (ca_year c)),
          (''day_of_week'', temporal_ranges (ca_day_of_week c))] (sx_timezone d))"

record desired_schedule =
  de_name :: string
  de_id :: string
  de_digest :: string
  de_target :: schedule_target
  de_schedule :: temporal_schedule
  de_memo :: "json dict"

datatype schedule_error = InvalidSchedule | ScheduleInput start_exn | ScheduleIdentity scope_error

definition desired_identity ::
    "starter \<Rightarrow> string \<Rightarrow> schedule_declaration \<Rightarrow> schedule_dispatch_plan \<Rightarrow> string \<Rightarrow> string \<Rightarrow> runtime_scope \<Rightarrow> json" where
  "desired_identity ws name d p task_queue dispatch_queue sc =
     (let digest = provenance_digest (ws_sha ws) (ws_float_text ws);
          queue = (\<lambda>q. JStr (digest (JObj [(''task_queue'', JStr q)])))
      in JObj
        [(''format_version'', JInt 1), (''scope_digest'', JStr (scope_digest_of (ws_sha ws) sc)),
         (''schedule_name'', JStr name), (''declaration'', declaration_json d),
         (''target'', target_json False (sp_target p)), (''task_queue_identity'', queue task_queue),
         (''dispatch_task_queue_identity'', queue dispatch_queue),
         (''dispatch_timeout_seconds'', JInt (sp_timeout p)), (''dispatch_attempts'', JInt (sp_attempts p))])"

definition compile_schedule ::
    "starter \<Rightarrow> string \<Rightarrow> schedule_declaration \<Rightarrow> start_target \<Rightarrow> string \<Rightarrow> string option \<Rightarrow> runtime_scope \<Rightarrow> int \<Rightarrow> int \<Rightarrow>
     schedule_error + desired_schedule" where
  "compile_schedule ws name d t task_queue dispatch_task_queue sc timeout attempts =
     (let queue = (case dispatch_task_queue of None \<Rightarrow> task_queue | Some q \<Rightarrow> if q = [] then task_queue else q);
          m = tg_manifest t; sha = ws_sha ws
      in if task_queue = [] \<or> sx_workflow d \<noteq> mf_logical_name m \<or>
            (sx_definition_digest d \<noteq> None \<and> sx_definition_digest d \<noteq> Some (mf_definition_digest m))
         then Inl InvalidSchedule
         else bind_result (map_sum ScheduleInput id (validate_start_input ws (of_json (JObj (sx_input d))) t)) (\<lambda>input.
           (let p = \<lparr>sp_name = name, sp_target = target_of sha t sc, sp_input = input, sp_timeout = timeout,
                     sp_attempts = attempts\<rparr>
            in if \<not> valid_dispatch_plan p then Inl InvalidSchedule
               else bind_result (map_sum ScheduleIdentity id (make_recurring_schedule_id sha name sc)) (\<lambda>schedule_id.
                 bind_result (map_sum ScheduleIdentity id (make_schedule_dispatch_workflow_id sha name sc)) (\<lambda>dispatch_id.
                   (let desired = provenance_digest sha (ws_float_text ws) (desired_identity ws name d p task_queue queue sc);
                        memo = dict_update (execution_memo t)
                          [(MEMO_SCHEDULE_OWNER, JStr SCHEDULE_OWNER), (MEMO_SCHEDULE_NAME, JStr name),
                           (MEMO_SCHEDULE_DESIRED_DIGEST, JStr desired), (MEMO_SCHEDULE_FORMAT_VERSION, JStr ''1''),
                           (MEMO_SCOPE_DIGEST, JStr (scope_digest_of sha sc))]
                    in Inr \<lparr>de_name = name, de_id = schedule_id, de_digest = desired, de_target = sp_target p,
                      de_schedule = \<lparr>th_workflow = SCHEDULE_DISPATCH_WORKFLOW_TYPE, th_argument = dispatch_plan_json p,
                        th_workflow_id = dispatch_id, th_task_queue = queue, th_memo = memo,
                        th_spec = temporal_schedule_spec d, th_overlap = sx_overlap d, th_catch_up = sx_catch_up d,
                        th_paused = sx_paused d\<rparr>,
                      de_memo = memo\<rparr>))))))"

section \<open>What is observed\<close>

record observed_schedule =
  os_id :: string
  os_owner :: "string option"
  os_name :: "string option"
  os_digest :: "string option"
  os_scope :: "string option"
  os_action_valid :: bool
  os_corrupt :: "string list"

definition managed_schedule :: "observed_schedule \<Rightarrow> bool" where
  "managed_schedule o' \<longleftrightarrow> os_owner o' = Some SCHEDULE_OWNER"

definition valid_managed_identity :: "observed_schedule \<Rightarrow> bool" where
  "valid_managed_identity o' \<longleftrightarrow>
     os_corrupt o' = [] \<and> managed_schedule o' \<and> os_name o' \<noteq> None \<and> os_digest o' \<noteq> None \<and> os_action_valid o'"

section \<open>Plans\<close>

datatype schedule_change_kind = CreateSchedule | UpdateSchedule | DeleteSchedule | ConflictSchedule

datatype unscoped_decision = RequireExplicit | MigrateUnscoped | RetainUnscoped

record schedule_change =
  hc_kind :: schedule_change_kind
  hc_id :: string
  hc_name :: "string option"

record schedule_plan =
  hp_desired :: "desired_schedule dict"
  hp_observed :: "observed_schedule dict"
  hp_changes :: "schedule_change list"
  hp_digest :: string
  hp_decision :: unscoped_decision

definition has_conflicts :: "schedule_plan \<Rightarrow> bool" where
  "has_conflicts p \<longleftrightarrow> (\<exists>c \<in> set (hp_changes p). hc_kind c = ConflictSchedule)"

definition mutation_count :: "schedule_plan \<Rightarrow> nat" where
  "mutation_count p = length (filter (\<lambda>c. hc_kind c \<noteq> ConflictSchedule) (hp_changes p))"

text \<open>The names of managed schedules without a scope, each as often as it occurs.\<close>

definition unscoped_names :: "observed_schedule dict \<Rightarrow> string list" where
  "unscoped_names observed =
     List.map_filter (\<lambda>(_, o'). if managed_schedule o' \<and> os_scope o' = None then os_name o' else None) observed"

definition ambiguous_name :: "observed_schedule dict \<Rightarrow> string \<Rightarrow> bool" where
  "ambiguous_name observed n \<longleftrightarrow> 1 < count_list (unscoped_names observed) n"

definition effective_desired ::
    "unscoped_decision \<Rightarrow> observed_schedule dict \<Rightarrow> desired_schedule dict \<Rightarrow> desired_schedule dict" where
  "effective_desired decision observed desired =
     filter (\<lambda>(_, d). \<not> (decision = RetainUnscoped \<and> de_name d \<in> set (unscoped_names observed) \<and>
       \<not> ambiguous_name observed (de_name d))) desired"

text \<open>What a desired schedule, and an observed one that is not desired, come to.\<close>

definition desired_change :: "observed_schedule dict \<Rightarrow> string \<Rightarrow> desired_schedule \<Rightarrow> schedule_change option" where
  "desired_change observed i d =
     (let change = (\<lambda>k. Some \<lparr>hc_kind = k, hc_id = i, hc_name = Some (de_name d)\<rparr>)
      in case dict_get observed i of
           None \<Rightarrow> change CreateSchedule
         | Some a \<Rightarrow>
             if os_corrupt a \<noteq> [] then change ConflictSchedule
             else if \<not> managed_schedule a then change ConflictSchedule
             else if \<not> valid_managed_identity a \<or> os_name a \<noteq> Some (de_name d) then change ConflictSchedule
             else if os_scope a \<noteq> si_scope (de_target d) then change ConflictSchedule
             else if os_digest a \<noteq> Some (de_digest d) then change UpdateSchedule
             else None)"

definition orphan_change ::
    "unscoped_decision \<Rightarrow> desired_schedule dict \<Rightarrow> observed_schedule dict \<Rightarrow> string \<Rightarrow> observed_schedule \<Rightarrow> schedule_change option" where
  "orphan_change decision desired observed i a =
     (let change = (\<lambda>k. Some \<lparr>hc_kind = k, hc_id = i, hc_name = os_name a\<rparr>);
          unambiguous = (case os_name a of None \<Rightarrow> True | Some n \<Rightarrow> \<not> ambiguous_name observed n)
      in if dict_has (effective_desired decision observed desired) i then None
         else if os_corrupt a \<noteq> [] then change ConflictSchedule
         else if \<not> managed_schedule a then None
         else if os_scope a = None
         then (if valid_managed_identity a \<and> unambiguous \<and> decision = RetainUnscoped then None
               else if valid_managed_identity a \<and> os_name a \<in> Some ` de_name ` snd ` set desired \<and> unambiguous \<and>
                 decision = MigrateUnscoped
               then change DeleteSchedule else change ConflictSchedule)
         else if \<not> valid_managed_identity a then change ConflictSchedule
         else change DeleteSchedule)"

fun schedule_change_order :: "schedule_change_kind \<Rightarrow> nat" where
  "schedule_change_order CreateSchedule = 0"
| "schedule_change_order UpdateSchedule = 1"
| "schedule_change_order ConflictSchedule = 2"
| "schedule_change_order DeleteSchedule = 3"

definition schedule_changes ::
    "unscoped_decision \<Rightarrow> desired_schedule dict \<Rightarrow> observed_schedule dict \<Rightarrow> schedule_change list" where
  "schedule_changes decision desired observed =
     sort_key (\<lambda>c. schedule_change_order (hc_kind c)) (sort_key hc_id
       (List.map_filter (\<lambda>(i, d). desired_change observed i d) (sort_key fst (effective_desired decision observed desired)) @
        List.map_filter (\<lambda>(i, a). orphan_change decision desired observed i a) (sort_key fst observed)))"

fun change_kind_name :: "schedule_change_kind \<Rightarrow> string" where
  "change_kind_name CreateSchedule = ''create''"
| "change_kind_name UpdateSchedule = ''update''"
| "change_kind_name DeleteSchedule = ''delete''"
| "change_kind_name ConflictSchedule = ''conflict''"

fun decision_name :: "unscoped_decision \<Rightarrow> string" where
  "decision_name RequireExplicit = ''require_explicit''"
| "decision_name MigrateUnscoped = ''migrate''"
| "decision_name RetainUnscoped = ''retain''"

definition schedule_plan_json ::
    "unscoped_decision \<Rightarrow> desired_schedule dict \<Rightarrow> observed_schedule dict \<Rightarrow> schedule_change list \<Rightarrow> json" where
  "schedule_plan_json decision desired observed changes = JObj
     [(''desired'', JList (map (\<lambda>(i, d). JObj
        [(''schedule_id'', JStr i), (''schedule_name'', JStr (de_name d)), (''desired_digest'', JStr (de_digest d)),
         (''scope_digest'', option_json (si_scope (de_target d)))]) (sort_key fst desired))),
      (''observed'', JList (map (\<lambda>(i, a). JObj
        [(''schedule_id'', JStr i), (''owner'', option_json (os_owner a)), (''schedule_name'', option_json (os_name a)),
         (''desired_digest'', option_json (os_digest a)), (''action_valid'', JBool (os_action_valid a)),
         (''scope_digest'', option_json (os_scope a)), (''corrupt_metadata_keys'', JList (map JStr (os_corrupt a)))])
        (sort_key fst observed))),
      (''changes'', JList (map (\<lambda>c. JObj
        [(''kind'', JStr (change_kind_name (hc_kind c))), (''schedule_id'', JStr (hc_id c)),
         (''schedule_name'', option_json (hc_name c))]) changes)),
      (''unscoped_decision'', JStr (decision_name decision))]"

definition plan_schedule_reconciliation ::
    "(string \<Rightarrow> string) \<Rightarrow> (rat \<Rightarrow> string) \<Rightarrow> desired_schedule dict \<Rightarrow> observed_schedule dict \<Rightarrow> unscoped_decision \<Rightarrow>
     schedule_error + schedule_plan" where
  "plan_schedule_reconciliation sha sf desired observed decision =
     (if \<not> (list_all (\<lambda>(i, d). i = de_id d) desired \<and> list_all (\<lambda>(i, a). i = os_id a) observed) then Inl InvalidSchedule
      else let changes = schedule_changes decision desired observed
           in Inr \<lparr>hp_desired = effective_desired decision observed desired, hp_observed = observed, hp_changes = changes,
                hp_digest = provenance_digest sha sf (schedule_plan_json decision desired observed changes),
                hp_decision = decision\<rparr>)"

end
