(* ===== verification/JF_Reconciler.thy ===== *)
theory JF_Reconciler
  imports JF_Recurring
begin

text \<open>
  The reconciler of schedules (\<open>runtime/schedule_reconciler.py\<close>) and the binding that activations use it
  through (\<open>runtime/configuration_activation.py\<close>): what it observes of Temporal, and how it applies a plan,
  call by call. Temporal's answers to a call are given with it; what Temporal keeps of a schedule that is
  created or updated is a parameter.
\<close>

section \<open>Schedules as Temporal describes them\<close>

text \<open>
  What \<open>memo_value\<close> gives for a key of the memo of a schedule (nothing, a text, another value, or an
  exception), and the entries of the memo of its action, encoded or not.
\<close>

datatype memo_reply = TextMemo string | OtherMemo string | FailedMemo string

datatype action_entry = ActionText string | ActionNone | ActionPayload "string + string option list" | ActionValue string

datatype described_action = StartAction string string "action_entry dict option" | OtherAction

record schedule_description =
  sd_id :: string
  sd_memo :: "memo_reply dict"
  sd_action :: described_action

datatype memo_string = MissingMemo | DecodedMemo string | CorruptMemo string

definition entity_memo_string :: "memo_reply dict \<Rightarrow> string \<Rightarrow> memo_string" where
  "entity_memo_string memo k = (case dict_get memo k of
       None \<Rightarrow> MissingMemo
     | Some (TextMemo s) \<Rightarrow> DecodedMemo s
     | Some (OtherMemo t) \<Rightarrow> CorruptMemo t
     | Some (FailedMemo t) \<Rightarrow> CorruptMemo t)"

definition action_memo_string :: "action_entry dict option \<Rightarrow> string \<Rightarrow> memo_string" where
  "action_memo_string memo k = (case memo of
       None \<Rightarrow> MissingMemo
     | Some entries \<Rightarrow>
         (case dict_get entries k of
            None \<Rightarrow> MissingMemo
          | Some ActionNone \<Rightarrow> MissingMemo
          | Some (ActionText s) \<Rightarrow> DecodedMemo s
          | Some (ActionValue t) \<Rightarrow> CorruptMemo t
          | Some (ActionPayload (Inl t)) \<Rightarrow> CorruptMemo t
          | Some (ActionPayload (Inr vs)) \<Rightarrow>
              (case vs of [Some s] \<Rightarrow> DecodedMemo s | _ \<Rightarrow> CorruptMemo ''DecodedValue'')))"

definition memo_string_value :: "memo_string \<Rightarrow> string option" where
  "memo_string_value r = (case r of DecodedMemo s \<Rightarrow> Some s | _ \<Rightarrow> None)"

definition is_corrupt :: "memo_string \<Rightarrow> bool" where
  "is_corrupt r = (case r of CorruptMemo _ \<Rightarrow> True | _ \<Rightarrow> False)"

definition corrupt_memo_keys :: "memo_string dict \<Rightarrow> string list" where
  "corrupt_memo_keys rs = sort (map fst (filter (\<lambda>(_, r). is_corrupt r) rs))"

definition schedule_memo :: "memo_reply dict \<Rightarrow> memo_string dict" where
  "schedule_memo memo = map (\<lambda>k. (k, entity_memo_string memo k)) [MEMO_SCHEDULE_OWNER, MEMO_SCHEDULE_NAME, MEMO_SCOPE_DIGEST]"

definition action_memo :: "action_entry dict option \<Rightarrow> memo_string dict" where
  "action_memo memo =
     map (\<lambda>k. (k, action_memo_string memo k)) [MEMO_SCHEDULE_OWNER, MEMO_SCHEDULE_NAME, MEMO_SCHEDULE_DESIRED_DIGEST]"

definition memo_of :: "memo_reply dict \<Rightarrow> string \<Rightarrow> string option" where
  "memo_of memo k = memo_string_value (entity_memo_string memo k)"

text \<open>An observation in which nothing of the action has been read.\<close>

definition bare_observation :: "string \<Rightarrow> memo_reply dict \<Rightarrow> bool \<Rightarrow> observed_schedule" where
  "bare_observation i memo action_valid =
     \<lparr>os_id = i, os_owner = memo_of memo MEMO_SCHEDULE_OWNER, os_name = memo_of memo MEMO_SCHEDULE_NAME, os_digest = None,
      os_scope = memo_of memo MEMO_SCOPE_DIGEST, os_action_valid = action_valid, os_corrupt = corrupt_memo_keys (schedule_memo memo)\<rparr>"

definition expected_action_id :: "(string \<Rightarrow> string) \<Rightarrow> string option \<Rightarrow> string \<Rightarrow> scope_error + string" where
  "expected_action_id sha scope name = (case scope of
       None \<Rightarrow> Inr (make_unscoped_schedule_dispatch_workflow_id name)
     | Some d \<Rightarrow> scoped_identity_from_digest sha ''schedule-dispatch'' d [name])"

definition observed_schedule_from_description ::
    "(string \<Rightarrow> string) \<Rightarrow> schedule_description \<Rightarrow> scope_error + observed_schedule" where
  "observed_schedule_from_description sha sd =
     (let memo = sd_memo sd; bare = bare_observation (sd_id sd) memo
      in if os_corrupt (bare True) \<noteq> [] then Inr (bare True)
         else (case os_name (bare True) of
             None \<Rightarrow> Inr (bare True)
           | Some name \<Rightarrow>
               if os_owner (bare True) \<noteq> Some SCHEDULE_OWNER then Inr (bare True)
               else (case sd_action sd of
                   OtherAction \<Rightarrow> Inr (bare False)
                 | StartAction workflow i entries \<Rightarrow>
                     bind_result (expected_action_id sha (os_scope (bare True)) name) (\<lambda>expected.
                       Inr (bare (memo_string_value (action_memo_string entries MEMO_SCHEDULE_OWNER) = Some SCHEDULE_OWNER \<and>
                             memo_string_value (action_memo_string entries MEMO_SCHEDULE_NAME) = Some name \<and>
                             workflow = SCHEDULE_DISPATCH_WORKFLOW_TYPE \<and> i = expected)
                         \<lparr>os_digest := memo_string_value (action_memo_string entries MEMO_SCHEDULE_DESIRED_DIGEST),
                          os_corrupt := corrupt_memo_keys (action_memo entries)\<rparr>)))))"

section \<open>Observation\<close>

definition SCHEDULED_START_SCHEDULE_ID_PREFIX :: string where
  "SCHEDULED_START_SCHEDULE_ID_PREFIX = ''jf1.scheduled-start-schedule.''"
definition SCHEDULED_START_MAINTENANCE_ID_PREFIX :: string where
  "SCHEDULED_START_MAINTENANCE_ID_PREFIX = ''justflow-scheduled-start-maintenance-''"

definition starts_with :: "string \<Rightarrow> string \<Rightarrow> bool" where
  "starts_with s p \<longleftrightarrow> take (length p) s = p"

datatype reconciliation_error =
    CollectionLimit | ConfirmationRequired | PlanConflict | ReconcilerUnavailable | ReconcilerBroke

text \<open>Whether an entry of the list is one of the scope.\<close>

definition listed_here :: "(string \<Rightarrow> string) \<Rightarrow> runtime_scope \<Rightarrow> string \<Rightarrow> memo_reply dict \<Rightarrow> bool" where
  "listed_here sha sc i memo \<longleftrightarrow>
     owns_scope sha LOCAL_ONLY (memo_of memo MEMO_SCOPE_DIGEST) sc \<or>
     is_corrupt (entity_memo_string memo MEMO_SCOPE_DIGEST) \<and>
       (identity_belongs_to_scope sha i ''schedule'' sc = Inr True \<or>
        sc = LOCAL_RUNTIME_SCOPE \<and> starts_with i SCHEDULE_ID_PREFIX)"

definition scanned_entry :: "string \<times> memo_reply dict \<Rightarrow> bool" where
  "scanned_entry e \<longleftrightarrow> \<not> starts_with (fst e) SCHEDULED_START_SCHEDULE_ID_PREFIX \<and>
     \<not> starts_with (fst e) SCHEDULED_START_MAINTENANCE_ID_PREFIX"

text \<open>\<open>observe_entry\<close>; a description that cannot be had is \<open>None\<close>.\<close>

definition observe_entry ::
    "(string \<Rightarrow> string) \<Rightarrow> (string \<Rightarrow> schedule_description option) \<Rightarrow> string \<times> memo_reply dict \<Rightarrow>
     reconciliation_error + observed_schedule" where
  "observe_entry sha describe e =
     (let bare = bare_observation (fst e) (snd e) True
      in if os_corrupt bare \<noteq> [] \<or> os_owner bare \<noteq> Some SCHEDULE_OWNER then Inr bare
         else (case describe (fst e) of
             None \<Rightarrow> Inl ReconcilerUnavailable
           | Some sd \<Rightarrow>
               (case observed_schedule_from_description sha sd of Inl _ \<Rightarrow> Inl ReconcilerBroke | Inr a \<Rightarrow> Inr a)))"

text \<open>\<open>observe\<close>; a list that cannot be had is \<open>None\<close>.\<close>

definition observe_schedule_list ::
    "(string \<Rightarrow> string) \<Rightarrow> runtime_scope \<Rightarrow> nat \<Rightarrow> (string \<times> memo_reply dict) list option \<Rightarrow>
     (string \<Rightarrow> schedule_description option) \<Rightarrow> reconciliation_error + observed_schedule dict" where
  "observe_schedule_list sha sc max_schedules listing describe = (case listing of
       None \<Rightarrow> Inl ReconcilerUnavailable
     | Some entries \<Rightarrow>
         let scanned = filter scanned_entry entries
         in if max_schedules < length scanned then Inl CollectionLimit
            else bind_result (map_result (observe_entry sha describe)
                (filter (\<lambda>e. listed_here sha sc (fst e) (snd e)) scanned)) (\<lambda>found.
              Inr (dict_update [] (map (\<lambda>a. (os_id a, a)) found))))"

section \<open>Applying a plan\<close>

datatype apply_status = SchedApplied | SchedAlreadyApplied | SchedFailed

datatype apply_error = OwnershipChanged | ApplyUnavailable

record apply_item =
  ai_id :: string
  ai_name :: "string option"
  ai_change :: schedule_change_kind
  ai_status :: apply_status
  ai_error :: "apply_error option"

definition same_managed_identity :: "observed_schedule \<Rightarrow> desired_schedule \<Rightarrow> bool" where
  "same_managed_identity a d \<longleftrightarrow> valid_managed_identity a \<and> os_id a = de_id d \<and> os_name a = Some (de_name d) \<and>
     os_scope a = si_scope (de_target d)"

definition matches_desired :: "observed_schedule \<Rightarrow> desired_schedule \<Rightarrow> bool" where
  "matches_desired a d \<longleftrightarrow> same_managed_identity a d \<and> os_digest a = Some (de_digest d)"

text \<open>
  How a call ends: it is answered, or it raises an error that says nothing about it, its effect having been
  made or not. \<open>kept\<close> is what Temporal keeps of a schedule, given what it had before.
\<close>

datatype call_reply = Answered | Dropped bool

type_synonym temporal = "schedule_description dict"

text \<open>A change takes one call or two: a taken identity is described, and a deletion checks first.\<close>

datatype apply_phase = FirstCall | DescribeTaken | DeleteChecked

datatype call_outcome = ChangeDone apply_status | ChangeBroke apply_error | CallAgain apply_phase

definition create_call ::
    "(schedule_description option \<Rightarrow> desired_schedule \<Rightarrow> schedule_description) \<Rightarrow> desired_schedule \<Rightarrow> call_reply \<Rightarrow> temporal \<Rightarrow>
     call_outcome \<times> temporal" where
  "create_call kept d reply w =
     (let w' = (if dict_has w (de_id d) then w else dict_set (de_id d) (kept None d) w)
      in case reply of
           Dropped made \<Rightarrow> (ChangeBroke ApplyUnavailable, if made then w' else w)
         | Answered \<Rightarrow> if dict_has w (de_id d) then (CallAgain DescribeTaken, w) else (ChangeDone SchedApplied, w'))"

definition describe_taken ::
    "(string \<Rightarrow> string) \<Rightarrow> desired_schedule \<Rightarrow> call_reply \<Rightarrow> temporal \<Rightarrow> call_outcome" where
  "describe_taken sha d reply w = (case (reply, dict_get w (de_id d)) of
       (Answered, Some sd) \<Rightarrow>
         (case observed_schedule_from_description sha sd of
            Inl _ \<Rightarrow> ChangeBroke ApplyUnavailable
          | Inr a \<Rightarrow> if matches_desired a d then ChangeDone SchedAlreadyApplied else ChangeBroke OwnershipChanged)
     | _ \<Rightarrow> ChangeBroke ApplyUnavailable)"

text \<open>\<open>updater\<close>: the new description, that there is nothing to do, or an error.\<close>

definition updater ::
    "(string \<Rightarrow> string) \<Rightarrow> (schedule_description option \<Rightarrow> desired_schedule \<Rightarrow> schedule_description) \<Rightarrow> desired_schedule \<Rightarrow>
     observed_schedule \<Rightarrow> schedule_description \<Rightarrow> apply_error + schedule_description option" where
  "updater sha kept d expected sd = (case observed_schedule_from_description sha sd of
       Inl _ \<Rightarrow> Inl ApplyUnavailable
     | Inr a \<Rightarrow>
         if \<not> same_managed_identity a d then Inl OwnershipChanged
         else if os_digest a = Some (de_digest d) then Inr None
         else if a \<noteq> expected then Inl OwnershipChanged
         else Inr (Some (kept (Some sd) d)))"

definition update_call ::
    "(string \<Rightarrow> string) \<Rightarrow> (schedule_description option \<Rightarrow> desired_schedule \<Rightarrow> schedule_description) \<Rightarrow> desired_schedule \<Rightarrow>
     observed_schedule \<Rightarrow> call_reply \<Rightarrow> temporal \<Rightarrow> call_outcome \<times> temporal" where
  "update_call sha kept d expected reply w = (case (reply, dict_get w (de_id d)) of
       (Dropped False, _) \<Rightarrow> (ChangeBroke ApplyUnavailable, w)
     | (_, None) \<Rightarrow> (ChangeBroke (if reply = Answered then OwnershipChanged else ApplyUnavailable), w)
     | (_, Some sd) \<Rightarrow>
         (case updater sha kept d expected sd of
            Inl e \<Rightarrow> (ChangeBroke e, w)
          | Inr None \<Rightarrow> (if reply = Answered then ChangeDone SchedAlreadyApplied else ChangeBroke ApplyUnavailable, w)
          | Inr (Some sd') \<Rightarrow>
              (if reply = Answered then ChangeDone SchedApplied else ChangeBroke ApplyUnavailable, dict_set (de_id d) sd' w)))"

definition check_delete ::
    "(string \<Rightarrow> string) \<Rightarrow> observed_schedule \<Rightarrow> call_reply \<Rightarrow> temporal \<Rightarrow> call_outcome" where
  "check_delete sha expected reply w = (case (reply, dict_get w (os_id expected)) of
       (Dropped _, _) \<Rightarrow> ChangeBroke ApplyUnavailable
     | (Answered, None) \<Rightarrow> ChangeDone SchedAlreadyApplied
     | (Answered, Some sd) \<Rightarrow>
         (case observed_schedule_from_description sha sd of
            Inl _ \<Rightarrow> ChangeBroke ApplyUnavailable
          | Inr a \<Rightarrow>
              if a \<noteq> expected \<or> \<not> valid_managed_identity a then ChangeBroke OwnershipChanged else CallAgain DeleteChecked))"

definition delete_call :: "observed_schedule \<Rightarrow> call_reply \<Rightarrow> temporal \<Rightarrow> call_outcome \<times> temporal" where
  "delete_call expected reply w =
     (let w' = AList.delete (os_id expected) w
      in case reply of
           Dropped made \<Rightarrow> (ChangeBroke ApplyUnavailable, if made then w' else w)
         | Answered \<Rightarrow>
             (ChangeDone (if dict_has w (os_id expected) then SchedApplied else SchedAlreadyApplied), w'))"

text \<open>
  A call of \<open>_apply_change\<close>; a change that the plan does not list would be a \<open>KeyError\<close>, which the loop takes for
  an unavailable Temporal.
\<close>

definition change_call ::
    "(string \<Rightarrow> string) \<Rightarrow> (schedule_description option \<Rightarrow> desired_schedule \<Rightarrow> schedule_description) \<Rightarrow> schedule_plan \<Rightarrow>
     schedule_change \<Rightarrow> apply_phase \<Rightarrow> call_reply \<Rightarrow> temporal \<Rightarrow> call_outcome \<times> temporal" where
  "change_call sha kept p c phase reply w = (case hc_kind c of
       CreateSchedule \<Rightarrow>
         (case dict_get (hp_desired p) (hc_id c) of
            None \<Rightarrow> (ChangeBroke ApplyUnavailable, w)
          | Some d \<Rightarrow> if phase = FirstCall then create_call kept d reply w else (describe_taken sha d reply w, w))
     | UpdateSchedule \<Rightarrow>
         (case (dict_get (hp_desired p) (hc_id c), dict_get (hp_observed p) (hc_id c)) of
            (Some d, Some a) \<Rightarrow> update_call sha kept d a reply w
          | _ \<Rightarrow> (ChangeBroke ApplyUnavailable, w))
     | DeleteSchedule \<Rightarrow>
         (case dict_get (hp_observed p) (hc_id c) of
            None \<Rightarrow> (ChangeBroke ApplyUnavailable, w)
          | Some a \<Rightarrow> if phase = FirstCall then (check_delete sha a reply w, w) else delete_call a reply w)
     | ConflictSchedule \<Rightarrow> (ChangeBroke OwnershipChanged, w))"

definition item_of :: "schedule_change \<Rightarrow> apply_status \<Rightarrow> apply_error option \<Rightarrow> apply_item" where
  "item_of c status e = \<lparr>ai_id = hc_id c, ai_name = hc_name c, ai_change = hc_kind c, ai_status = status, ai_error = e\<rparr>"

text \<open>A change without interference, with the answers to its calls.\<close>

definition apply_change ::
    "(string \<Rightarrow> string) \<Rightarrow> (schedule_description option \<Rightarrow> desired_schedule \<Rightarrow> schedule_description) \<Rightarrow> schedule_plan \<Rightarrow>
     schedule_change \<Rightarrow> call_reply \<times> call_reply \<Rightarrow> temporal \<Rightarrow> apply_item \<times> temporal" where
  "apply_change sha kept p c replies w =
     (let finish = (\<lambda>outcome. case outcome of
            ChangeDone status \<Rightarrow> item_of c status None
          | ChangeBroke e \<Rightarrow> item_of c SchedFailed (Some e)
          | CallAgain _ \<Rightarrow> item_of c SchedFailed (Some ApplyUnavailable))
      in case change_call sha kept p c FirstCall (fst replies) w of
           (CallAgain phase, w') \<Rightarrow>
             (case change_call sha kept p c phase (snd replies) w' of (outcome, w'') \<Rightarrow> (finish outcome, w''))
         | (outcome, w') \<Rightarrow> (finish outcome, w'))"

fun apply_changes ::
    "(string \<Rightarrow> string) \<Rightarrow> (schedule_description option \<Rightarrow> desired_schedule \<Rightarrow> schedule_description) \<Rightarrow> schedule_plan \<Rightarrow>
     (schedule_change \<Rightarrow> call_reply \<times> call_reply) \<Rightarrow> schedule_change list \<Rightarrow> temporal \<Rightarrow> apply_item list \<times> temporal" where
  "apply_changes sha kept p replies [] w = ([], w)"
| "apply_changes sha kept p replies (c # cs) w =
     (case apply_change sha kept p c (replies c) w of (item, w') \<Rightarrow>
      (case apply_changes sha kept p replies cs w' of (items, w'') \<Rightarrow> (item # items, w'')))"

definition validate_apply :: "schedule_plan \<Rightarrow> string \<Rightarrow> reconciliation_error + unit" where
  "validate_apply p confirmation =
     (if confirmation \<noteq> hp_digest p then Inl ConfirmationRequired
      else if has_conflicts p then Inl PlanConflict else Inr ())"

definition apply_plan ::
    "(string \<Rightarrow> string) \<Rightarrow> (schedule_description option \<Rightarrow> desired_schedule \<Rightarrow> schedule_description) \<Rightarrow> schedule_plan \<Rightarrow> string \<Rightarrow>
     (schedule_change \<Rightarrow> call_reply \<times> call_reply) \<Rightarrow> temporal \<Rightarrow> reconciliation_error + (apply_item list \<times> temporal)" where
  "apply_plan sha kept p confirmation replies w =
     bind_result (validate_apply p confirmation) (\<lambda>_. Inr (apply_changes sha kept p replies (hp_changes p) w))"

definition successful :: "apply_item list \<Rightarrow> bool" where
  "successful items \<longleftrightarrow> (\<forall>x \<in> set items. ai_status x \<noteq> SchedFailed)"

end
