(* ===== verification/JF_Reconciled.thy ===== *)
theory JF_Reconciled
  imports JF_Reconciler
begin

text \<open>
  What the reconciler of schedules promises: schedules that are not its own stay as they are while it runs
  against others, and an undisturbed reconciliation leaves nothing to reconcile.
\<close>

section \<open>Plans\<close>

text \<open>What is observed of a world at once, without failures.\<close>

definition observe_world :: "(string \<Rightarrow> string) \<Rightarrow> runtime_scope \<Rightarrow> nat \<Rightarrow> temporal \<Rightarrow> reconciliation_error + observed_schedule dict" where
  "observe_world sha sc max_schedules w =
     observe_schedule_list sha sc max_schedules (Some (map (\<lambda>(i, sd). (i, sd_memo sd)) w)) (dict_get w)"

lemma schedule_changes_members:
  "c \<in> set (schedule_changes decision desired observed) \<longleftrightarrow>
     (\<exists>(i, d) \<in> set (effective_desired decision observed desired). desired_change observed i d = Some c) \<or>
     (\<exists>(i, a) \<in> set observed. orphan_change decision desired observed i a = Some c)"
  by (force simp: schedule_changes_def map_filter_def image_iff)

lemma desired_change_id: "desired_change observed i d = Some c \<Longrightarrow> hc_id c = i \<and> hc_kind c \<noteq> DeleteSchedule"
  by (auto simp: desired_change_def Let_def split: option.split_asm if_splits)

lemma orphan_change_delete:
  assumes "orphan_change decision desired observed i a = Some c"
  shows "hc_id c = i" "hc_kind c \<in> {DeleteSchedule, ConflictSchedule}"
    and "hc_kind c = DeleteSchedule \<Longrightarrow> valid_managed_identity a \<and> (os_scope a = None \<longrightarrow> decision = MigrateUnscoped)"
  using assms by (auto simp: orphan_change_def Let_def split: if_splits)

section \<open>Observations\<close>

lemma bare_fields [simp]:
  "os_id (bare_observation i memo v) = i" "os_owner (bare_observation i memo v) = memo_of memo MEMO_SCHEDULE_OWNER"
  "os_name (bare_observation i memo v) = memo_of memo MEMO_SCHEDULE_NAME" "os_digest (bare_observation i memo v) = None"
  "os_scope (bare_observation i memo v) = memo_of memo MEMO_SCOPE_DIGEST" "os_action_valid (bare_observation i memo v) = v"
  "os_corrupt (bare_observation i memo v) = corrupt_memo_keys (schedule_memo memo)"
  by (simp_all add: bare_observation_def)

lemma observed_fields:
  assumes "observed_schedule_from_description sha sd = Inr a"
  shows "os_id a = sd_id sd" "os_owner a = memo_of (sd_memo sd) MEMO_SCHEDULE_OWNER"
    "os_name a = memo_of (sd_memo sd) MEMO_SCHEDULE_NAME" "os_scope a = memo_of (sd_memo sd) MEMO_SCOPE_DIGEST"
  using assms
  by (auto simp: observed_schedule_from_description_def Let_def bind_result_eq_Inr
      split: if_splits option.split_asm described_action.split_asm)

lemma no_corrupt_keys: "corrupt_memo_keys rs = [] \<longleftrightarrow> (\<forall>r \<in> set rs. \<not> is_corrupt (snd r))"
proof -
  have "corrupt_memo_keys rs = [] \<longleftrightarrow> map fst (filter (\<lambda>(_, r). is_corrupt r) rs) = []"
    unfolding corrupt_memo_keys_def by (metis length_0_conv length_sort)
  then show ?thesis by (auto simp: filter_empty_conv)
qed

text \<open>An entry of the list is observed as its description is.\<close>

lemma observe_entry_description:
  assumes "describe (sd_id sd) = Some sd"
  shows "observe_entry sha describe (sd_id sd, sd_memo sd) =
    (case observed_schedule_from_description sha sd of Inl _ \<Rightarrow> Inl ReconcilerBroke | Inr a \<Rightarrow> Inr a)"
  using assms by (simp add: observe_entry_def observed_schedule_from_description_def Let_def split: option.split)

text \<open>What is observed of a scope belongs to it, unless its memo cannot be read.\<close>

lemma valid_scope:
  assumes "listed_here sha sc (sd_id sd) (sd_memo sd)" "observed_schedule_from_description sha sd = Inr a"
    and "valid_managed_identity a"
  shows "os_scope a = Some (scope_digest_of sha sc) \<or> os_scope a = None \<and> sc = LOCAL_RUNTIME_SCOPE"
proof -
  have "corrupt_memo_keys (schedule_memo (sd_memo sd)) = []"
    using assms(2,3)
    by (auto simp: observed_schedule_from_description_def Let_def valid_managed_identity_def bind_result_eq_Inr
        split: if_splits option.split_asm described_action.split_asm)
  then have "\<not> is_corrupt (entity_memo_string (sd_memo sd) MEMO_SCOPE_DIGEST)"
    by (auto simp: no_corrupt_keys schedule_memo_def)
  then show ?thesis using assms(1) observed_fields(4) [OF assms(2)] by (auto simp: listed_here_def owns_scope_def)
qed

text \<open>A world whose keys are the identities of its schedules.\<close>

definition world_ok :: "temporal \<Rightarrow> bool" where
  "world_ok w \<longleftrightarrow> distinct (map fst w) \<and> (\<forall>(i, sd) \<in> set w. sd_id sd = i)"

lemma world_get: "world_ok w \<Longrightarrow> (i, sd) \<in> set w \<longleftrightarrow> dict_get w i = Some sd"
  by (auto simp: world_ok_def)

lemma world_id: "world_ok w \<Longrightarrow> dict_get w i = Some sd \<Longrightarrow> sd_id sd = i"
  by (auto simp: world_ok_def dest: map_of_SomeD)

text \<open>The entry of a world for the observer of a scope.\<close>

definition seen_here :: "(string \<Rightarrow> string) \<Rightarrow> runtime_scope \<Rightarrow> string \<Rightarrow> schedule_description \<Rightarrow> bool" where
  "seen_here sha sc i sd \<longleftrightarrow> scanned_entry (i, sd_memo sd) \<and> listed_here sha sc i (sd_memo sd)"

definition view :: "(string \<Rightarrow> string) \<Rightarrow> runtime_scope \<Rightarrow> schedule_description option \<Rightarrow> observed_schedule option" where
  "view sha sc x = (case x of
       None \<Rightarrow> None
     | Some sd \<Rightarrow> if seen_here sha sc (sd_id sd) sd
         then (case observed_schedule_from_description sha sd of Inr a \<Rightarrow> Some a | Inl _ \<Rightarrow> None) else None)"

lemma dict_update_pairs:
  assumes "distinct (map fst e)"
  shows "dict_update [] e = e"
proof -
  have "fold (\<lambda>(k, v). dict_set k v) e d = d @ e" if "distinct (map fst (d @ e))" for d
    using that
  proof (induction e arbitrary: d)
    case (Cons p e)
    obtain k v where p: "p = (k, v)" by (cases p)
    have "k \<notin> fst ` set d" using Cons.prems p by auto
    then have "dict_set k v d = d @ [(k, v)]" by (induction d) auto
    then show ?case using Cons.IH [of "d @ [(k, v)]"] Cons.prems p by simp
  qed simp
  from this [of "[]"] assms show ?thesis by (simp add: dict_update_def)
qed

lemma list_all2_member: "list_all2 P xs ys \<Longrightarrow> x \<in> set xs \<Longrightarrow> \<exists>y \<in> set ys. P x y"
  by (induction rule: list_all2_induct) auto

lemma observe_world_result:
  assumes "world_ok w" "observe_world sha sc max_schedules w = Inr obs"
  shows "list_all2 (\<lambda>(i, sd) (j, a). j = i \<and> os_id a = i \<and> observed_schedule_from_description sha sd = Inr a)
    (filter (\<lambda>(i, sd). seen_here sha sc i sd) w) obs"
proof -
  let ?L = "filter (\<lambda>(i, sd). seen_here sha sc i sd) w" and ?entry = "\<lambda>(i, sd). (i, sd_memo sd)"
  have entries: "filter (\<lambda>x. scanned_entry x \<and> listed_here sha sc (fst x) (snd x)) (map ?entry w) = map ?entry ?L"
    by (induction w) (auto simp: seen_here_def)
  from assms(2) obtain found where found: "map_result (observe_entry sha (dict_get w)) (map ?entry ?L) = Inr found"
      "obs = dict_update [] (map (\<lambda>a. (os_id a, a)) found)"
    unfolding observe_world_def observe_schedule_list_def
    by (auto simp: entries Let_def bind_result_eq_Inr split: if_splits)
  have step: "os_id a = i \<and> observed_schedule_from_description sha sd = Inr a"
    if "(i, sd) \<in> set ?L" "observe_entry sha (dict_get w) (i, sd_memo sd) = Inr a" for i sd a
  proof -
    have sd: "dict_get w i = Some sd" using that(1) by (simp add: world_get [OF assms(1)])
    have i: "i = sd_id sd" by (rule world_id [OF assms(1) sd, symmetric])
    have "observe_entry sha (dict_get w) (i, sd_memo sd) =
        (case observed_schedule_from_description sha sd of Inl _ \<Rightarrow> Inl ReconcilerBroke | Inr b \<Rightarrow> Inr b)"
      unfolding i by (rule observe_entry_description) (use sd i in simp)
    then have "observed_schedule_from_description sha sd = Inr a" using that(2) by (simp split: sum.split_asm)
    then show ?thesis using observed_fields(1) i by simp
  qed
  have "list_all2 (\<lambda>x a. observe_entry sha (dict_get w) (?entry x) = Inr a) ?L found"
    using found(1) by (simp add: map_result_map map_result_eq_Inr)
  then have all: "list_all2 (\<lambda>(i, sd) a. os_id a = i \<and> observed_schedule_from_description sha sd = Inr a) ?L found"
    by (rule list.rel_mono_strong) (use step in \<open>auto simp: case_prod_beta\<close>)
  then have ids: "map os_id found = map fst ?L"
    by (induction rule: list_all2_induct) auto
  have "distinct (map fst ?L)" using assms(1) by (simp add: world_ok_def distinct_map_filter)
  then have "obs = map (\<lambda>a. (os_id a, a)) found"
    unfolding found(2) by (intro dict_update_pairs) (simp add: comp_def ids)
  then show ?thesis
    using all by (simp add: list.rel_map case_prod_beta) (auto elim: list.rel_mono_strong)
qed

lemma observe_world_get:
  assumes "world_ok w" "observe_world sha sc max_schedules w = Inr obs"
  shows "dict_get obs i = view sha sc (dict_get w i)"
proof -
  note all = observe_world_result [OF assms]
  have "dict_get obs i = (case dict_get (filter (\<lambda>(i, sd). seen_here sha sc i sd) w) i of None \<Rightarrow> None
      | Some sd \<Rightarrow> Some (projr (observed_schedule_from_description sha sd)))"
    using all by (induction rule: list_all2_induct) auto
  moreover have "dict_get (filter (\<lambda>(i, sd). seen_here sha sc i sd) w) i =
      (case dict_get w i of None \<Rightarrow> None | Some sd \<Rightarrow> if seen_here sha sc i sd then Some sd else None)"
    using assms(1) unfolding world_ok_def
    by (induction w) (auto split: option.splits simp: map_of_eq_None_iff rev_image_eqI)
  moreover have "\<exists>a. observed_schedule_from_description sha sd = Inr a" if "dict_get w i = Some sd" "seen_here sha sc i sd" for sd
  proof -
    have "(i, sd) \<in> set (filter (\<lambda>(i, sd). seen_here sha sc i sd) w)" using that map_of_SomeD by fastforce
    from list_all2_member [OF all this] show ?thesis by auto
  qed
  ultimately show ?thesis
    using world_id [OF assms(1)] by (auto simp: view_def split: option.split sum.split)
qed

section \<open>What is made of a compiled schedule\<close>

definition desired_ok :: "(string \<Rightarrow> string) \<Rightarrow> runtime_scope \<Rightarrow> desired_schedule \<Rightarrow> bool" where
  "desired_ok sha sc d \<longleftrightarrow>
     si_scope (de_target d) = Some (scope_digest_of sha sc) \<and> make_recurring_schedule_id sha (de_name d) sc = Inr (de_id d) \<and>
     make_schedule_dispatch_workflow_id sha (de_name d) sc = Inr (th_workflow_id (de_schedule d)) \<and>
     th_workflow (de_schedule d) = SCHEDULE_DISPATCH_WORKFLOW_TYPE \<and> th_memo (de_schedule d) = de_memo d \<and>
     dict_get (de_memo d) MEMO_SCHEDULE_OWNER = Some (JStr SCHEDULE_OWNER) \<and>
     dict_get (de_memo d) MEMO_SCHEDULE_NAME = Some (JStr (de_name d)) \<and>
     dict_get (de_memo d) MEMO_SCHEDULE_DESIRED_DIGEST = Some (JStr (de_digest d)) \<and>
     dict_get (de_memo d) MEMO_SCOPE_DIGEST = Some (JStr (scope_digest_of sha sc))"

lemmas memo_keys = MEMO_SCHEDULE_OWNER_def MEMO_SCHEDULE_NAME_def MEMO_SCHEDULE_DESIRED_DIGEST_def
  MEMO_SCHEDULE_FORMAT_VERSION_def MEMO_SCOPE_DIGEST_def

lemma map_sum_id_Inr [simp]: "map_sum f id r = Inr x \<longleftrightarrow> r = Inr x"
  by (cases r) auto

lemma compiled_desired_ok:
  assumes "compile_schedule ws name decl t queue dispatch_queue sc timeout attempts = Inr d"
  shows "desired_ok (ws_sha ws) sc d" "de_name d = name"
  using assms
  by (auto simp: compile_schedule_def Let_def bind_result_eq_Inr desired_ok_def target_of_def dict_get_update memo_keys
      split: if_splits sum.split_asm)

text \<open>
  What Temporal keeps: a new schedule has the memo and the action it was created with, an updated one the new
  action and the memo it had. Texts come back as texts, those of the action as payloads.
\<close>

definition memo_text_of :: "json \<Rightarrow> string" where
  "memo_text_of j = (case j of JStr s \<Rightarrow> s | _ \<Rightarrow> [])"

definition keeps_schedules :: "(schedule_description option \<Rightarrow> desired_schedule \<Rightarrow> schedule_description) \<Rightarrow> bool" where
  "keeps_schedules kept \<longleftrightarrow> (\<forall>old d. sd_id (kept old d) = de_id d \<and>
     (\<forall>k. dict_get (sd_memo (kept old d)) k = (case old of
          None \<Rightarrow> map_option (\<lambda>j. TextMemo (memo_text_of j)) (dict_get (de_memo d) k)
        | Some sd \<Rightarrow> dict_get (sd_memo sd) k)) \<and>
     (\<exists>entries. sd_action (kept old d) = StartAction (th_workflow (de_schedule d)) (th_workflow_id (de_schedule d)) (Some entries) \<and>
        (\<forall>k. dict_get entries k =
          map_option (\<lambda>j. ActionPayload (Inr [Some (memo_text_of j)])) (dict_get (th_memo (de_schedule d)) k))))"

lemma kept_schedule:
  assumes "keeps_schedules kept"
  shows "sd_id (kept old d) = de_id d"
    and "dict_get (sd_memo (kept old d)) k = (case old of
          None \<Rightarrow> map_option (\<lambda>j. TextMemo (memo_text_of j)) (dict_get (de_memo d) k)
        | Some sd \<Rightarrow> dict_get (sd_memo sd) k)"
    and "\<exists>entries. sd_action (kept old d) = StartAction (th_workflow (de_schedule d)) (th_workflow_id (de_schedule d)) (Some entries) \<and>
        (\<forall>k. dict_get entries k =
          map_option (\<lambda>j. ActionPayload (Inr [Some (memo_text_of j)])) (dict_get (th_memo (de_schedule d)) k))"
  using assms unfolding keeps_schedules_def by blast+

text \<open>A schedule of the scope with a readable memo is observed as the desired one, once its action is.\<close>

lemma observed_kept:
  assumes "keeps_schedules kept" "desired_ok sha sc d"
    and "entity_memo_string (sd_memo (kept old d)) MEMO_SCHEDULE_OWNER = DecodedMemo SCHEDULE_OWNER"
    and "entity_memo_string (sd_memo (kept old d)) MEMO_SCHEDULE_NAME = DecodedMemo (de_name d)"
    and "entity_memo_string (sd_memo (kept old d)) MEMO_SCOPE_DIGEST = DecodedMemo (scope_digest_of sha sc)"
  shows "\<exists>a. observed_schedule_from_description sha (kept old d) = Inr a \<and> matches_desired a d"
proof -
  let ?sd = "kept old d"
  obtain entries where action: "sd_action ?sd =
      StartAction (th_workflow (de_schedule d)) (th_workflow_id (de_schedule d)) (Some entries)"
    and entry: "\<forall>k. dict_get entries k =
        map_option (\<lambda>j. ActionPayload (Inr [Some (memo_text_of j)])) (dict_get (de_memo d) k)"
    using kept_schedule(3) [OF assms(1), of old d] assms(2) unfolding desired_ok_def by auto
  have texts: "action_memo_string (Some entries) MEMO_SCHEDULE_OWNER = DecodedMemo SCHEDULE_OWNER"
      "action_memo_string (Some entries) MEMO_SCHEDULE_NAME = DecodedMemo (de_name d)"
      "action_memo_string (Some entries) MEMO_SCHEDULE_DESIRED_DIGEST = DecodedMemo (de_digest d)"
    using assms(2) entry by (simp_all add: action_memo_string_def desired_ok_def memo_text_of_def)
  have id: "scoped_identity_from_digest sha ''schedule-dispatch'' (scope_digest_of sha sc) [de_name d] =
      Inr (th_workflow_id (de_schedule d))"
    using assms(2) by (simp add: desired_ok_def make_schedule_dispatch_workflow_id_def scoped_identity_def)
  have clean: "corrupt_memo_keys (schedule_memo (sd_memo ?sd)) = []" "corrupt_memo_keys (action_memo (Some entries)) = []"
    by (simp_all add: corrupt_memo_keys_def schedule_memo_def action_memo_def assms(3-5) texts is_corrupt_def)
  have memos: "memo_of (sd_memo ?sd) MEMO_SCHEDULE_OWNER = Some SCHEDULE_OWNER"
      "memo_of (sd_memo ?sd) MEMO_SCHEDULE_NAME = Some (de_name d)"
      "memo_of (sd_memo ?sd) MEMO_SCOPE_DIGEST = Some (scope_digest_of sha sc)"
    by (simp_all add: memo_of_def assms(3-5) memo_string_value_def)
  show ?thesis
    using assms(2) clean texts id
    by (auto simp: kept_schedule(1) [OF assms(1)] observed_schedule_from_description_def Let_def memos action expected_action_id_def memo_string_value_def
        matches_desired_def same_managed_identity_def valid_managed_identity_def managed_schedule_def
        desired_ok_def)
qed

text \<open>Both ways lead there: a schedule that is created, and one of the same identity that is updated.\<close>

lemma observed_created:
  assumes "keeps_schedules kept" "desired_ok sha sc d"
  shows "\<exists>a. observed_schedule_from_description sha (kept None d) = Inr a \<and> matches_desired a d"
proof (rule observed_kept [OF assms])
  have memo: "dict_get (sd_memo (kept None d)) k = map_option (\<lambda>j. TextMemo (memo_text_of j)) (dict_get (de_memo d) k)" for k
    by (simp add: kept_schedule(2) [OF assms(1)])
  show "entity_memo_string (sd_memo (kept None d)) MEMO_SCHEDULE_OWNER = DecodedMemo SCHEDULE_OWNER"
    "entity_memo_string (sd_memo (kept None d)) MEMO_SCHEDULE_NAME = DecodedMemo (de_name d)"
    "entity_memo_string (sd_memo (kept None d)) MEMO_SCOPE_DIGEST = DecodedMemo (scope_digest_of sha sc)"
    using assms(2) by (simp_all add: entity_memo_string_def memo desired_ok_def memo_text_of_def)
qed

lemma decoded_memo: "memo_of memo k = Some s \<longleftrightarrow> entity_memo_string memo k = DecodedMemo s"
  by (auto simp: memo_of_def memo_string_value_def split: memo_string.splits)

lemma observed_updated:
  assumes "keeps_schedules kept" "desired_ok sha sc d" "observed_schedule_from_description sha sd = Inr a"
    and "same_managed_identity a d"
  shows "\<exists>b. observed_schedule_from_description sha (kept (Some sd) d) = Inr b \<and> matches_desired b d"
proof (rule observed_kept [OF assms(1,2)])
  have "entity_memo_string (sd_memo (kept (Some sd) d)) k = entity_memo_string (sd_memo sd) k" for k
    by (simp add: kept_schedule(2) [OF assms(1)] entity_memo_string_def)
  then show "entity_memo_string (sd_memo (kept (Some sd) d)) MEMO_SCHEDULE_OWNER = DecodedMemo SCHEDULE_OWNER"
    "entity_memo_string (sd_memo (kept (Some sd) d)) MEMO_SCHEDULE_NAME = DecodedMemo (de_name d)"
    "entity_memo_string (sd_memo (kept (Some sd) d)) MEMO_SCOPE_DIGEST = DecodedMemo (scope_digest_of sha sc)"
    using assms(2,4) observed_fields(2-4) [OF assms(3)]
    by (simp_all add: same_managed_identity_def valid_managed_identity_def managed_schedule_def desired_ok_def decoded_memo)
qed

section \<open>What a change leaves behind\<close>

text \<open>A schedule of a world that is as desired.\<close>

definition holds_desired :: "(string \<Rightarrow> string) \<Rightarrow> temporal \<Rightarrow> desired_schedule \<Rightarrow> bool" where
  "holds_desired sha w d \<longleftrightarrow> (\<exists>sd a. dict_get w (de_id d) = Some sd \<and>
     observed_schedule_from_description sha sd = Inr a \<and> matches_desired a d)"

definition change_done :: "(string \<Rightarrow> string) \<Rightarrow> schedule_plan \<Rightarrow> schedule_change \<Rightarrow> temporal \<Rightarrow> bool" where
  "change_done sha p c w \<longleftrightarrow> (case hc_kind c of
       ConflictSchedule \<Rightarrow> False
     | DeleteSchedule \<Rightarrow> dict_get w (hc_id c) = None
     | _ \<Rightarrow> \<exists>d. dict_get (hp_desired p) (hc_id c) = Some d \<and> holds_desired sha w d)"

text \<open>The keys of a plan are the identities of its schedules, and what is desired has been compiled.\<close>

definition plan_keys :: "(string \<Rightarrow> string) \<Rightarrow> runtime_scope \<Rightarrow> schedule_plan \<Rightarrow> bool" where
  "plan_keys sha sc p \<longleftrightarrow> (\<forall>i d. dict_get (hp_desired p) i = Some d \<longrightarrow> de_id d = i \<and> desired_ok sha sc d) \<and>
     (\<forall>i a. dict_get (hp_observed p) i = Some a \<longrightarrow> os_id a = i)"

definition world_update :: "string \<Rightarrow> temporal \<Rightarrow> temporal \<Rightarrow> bool" where
  "world_update i w w' \<longleftrightarrow> (\<forall>j. j \<noteq> i \<longrightarrow> dict_get w' j = dict_get w j) \<and> (world_ok w \<longrightarrow> world_ok w')"

lemma world_update_refl [simp]: "world_update i w w"
  by (simp add: world_update_def)

lemma world_update_set:
  assumes "sd_id sd = i"
  shows "world_update i w (dict_set i sd w)"
proof -
  have "set (dict_set i sd w) \<subseteq> insert (i, sd) (set w)" by (induction w) auto
  then show ?thesis
    using assms by (auto simp: world_update_def world_ok_def dict_get_set distinct_dict_set split: if_splits)
qed

lemma delete_members: "set (AList.delete k w) \<subseteq> set w"
  by (induction w) auto

lemma world_update_delete: "world_update i w (AList.delete i w)"
  using delete_members [of i w] by (auto simp: world_update_def world_ok_def delete_conv' intro: distinct_delete)

lemma updater_kept: "updater sha kept d expected sd = Inr (Some sd') \<Longrightarrow> sd' = kept (Some sd) d"
  by (auto simp: updater_def split: sum.split_asm if_splits)

text \<open>A call changes its own schedule only.\<close>

lemma change_call_update:
  assumes "plan_keys sha sc p" "keeps_schedules kept" "change_call sha kept p c phase reply w = (outcome, w')"
  shows "world_update (hc_id c) w w'"
proof -
  have id: "sd_id (kept old d) = hc_id c" "de_id d = hc_id c" if "dict_get (hp_desired p) (hc_id c) = Some d" for old d
    using that assms(1) kept_schedule(1) [OF assms(2)] by (simp_all add: plan_keys_def)
  have observed: "os_id a = hc_id c" if "dict_get (hp_observed p) (hc_id c) = Some a" for a
    using that assms(1) by (simp add: plan_keys_def)
  show ?thesis
    using assms(3) id observed
    by (auto simp: change_call_def create_call_def update_call_def delete_call_def Let_def
        intro!: world_update_set world_update_delete dest!: updater_kept
        split: schedule_change_kind.split_asm option.split_asm if_splits call_reply.split_asm sum.split_asm bool.split_asm)
qed

end
