(* ===== verification/JF_Settled.thy ===== *)
theory JF_Settled
  imports JF_Reconciled "HOL-Library.Multiset"
begin

text \<open>
  What an application of a plan leaves in Temporal: a change that reports success has been made, whatever the
  answers to its calls, and the plan of the next observation is empty when all of them have.
\<close>

section \<open>Changes that report success\<close>

lemma updater_result:
  assumes "updater sha kept d expected sd = Inr r" "keeps_schedules kept" "desired_ok sha sc d"
  shows "\<exists>a. observed_schedule_from_description sha (case r of None \<Rightarrow> sd | Some sd' \<Rightarrow> sd') = Inr a \<and> matches_desired a d"
proof -
  obtain b where b: "observed_schedule_from_description sha sd = Inr b" "same_managed_identity b d"
    using assms(1) by (auto simp: updater_def split: sum.split_asm if_splits)
  show ?thesis
  proof (cases r)
    case None
    then show ?thesis using assms(1) b by (auto simp: updater_def matches_desired_def split: if_splits)
  next
    case (Some sd')
    then show ?thesis using observed_updated [OF assms(2,3) b] updater_kept assms(1) by fastforce
  qed
qed

lemma change_call_done:
  assumes "plan_keys sha sc p" "keeps_schedules kept" "change_call sha kept p c phase reply w = (ChangeDone status, w')"
  shows "change_done sha p c w'"
proof -
  have wanted: "de_id d = hc_id c \<and> desired_ok sha sc d" if "dict_get (hp_desired p) (hc_id c) = Some d" for d
    using that assms(1) by (simp add: plan_keys_def)
  have observed: "os_id a = hc_id c" if "dict_get (hp_observed p) (hc_id c) = Some a" for a
    using that assms(1) by (simp add: plan_keys_def)
  show ?thesis
  proof (cases "hc_kind c")
    case CreateSchedule
    with assms(3) obtain d where d: "dict_get (hp_desired p) (hc_id c) = Some d"
      by (auto simp: change_call_def split: option.split_asm)
    with CreateSchedule assms(3) wanted [OF d] have "holds_desired sha w' d"
      using observed_created [OF assms(2), of sha sc d]
      by (auto simp: change_call_def create_call_def describe_taken_def holds_desired_def Let_def dict_get_set dict_has_def
          split: if_splits call_reply.split_asm option.split_asm sum.split_asm)
    then show ?thesis using CreateSchedule d by (simp add: change_done_def)
  next
    case UpdateSchedule
    with assms(3) obtain d a where d: "dict_get (hp_desired p) (hc_id c) = Some d" "dict_get (hp_observed p) (hc_id c) = Some a"
      "update_call sha kept d a reply w = (ChangeDone status, w')"
      by (auto simp: change_call_def split: option.split_asm)
    from d(3) have "holds_desired sha w' d"
      using updater_result [OF _ assms(2) conjunct2 [OF wanted [OF d(1)]]]
      by (fastforce simp: update_call_def holds_desired_def dict_get_set
          split: call_reply.split_asm option.split_asm sum.split_asm if_splits bool.split_asm)
    then show ?thesis using UpdateSchedule d(1) by (simp add: change_done_def)
  next
    case DeleteSchedule
    then show ?thesis
      using assms(3) observed
      by (auto simp: change_call_def check_delete_def delete_call_def change_done_def Let_def delete_conv'
          split: option.split_asm if_splits call_reply.split_asm sum.split_asm)
  next
    case ConflictSchedule
    then show ?thesis using assms(3) by (simp add: change_call_def)
  qed
qed

lemma apply_change_update:
  assumes "plan_keys sha sc p" "keeps_schedules kept" "apply_change sha kept p c replies w = (item, w')"
  shows "world_update (hc_id c) w w'" "ai_id item = hc_id c" "ai_change item = hc_kind c"
    and "ai_status item \<noteq> SchedFailed \<Longrightarrow> change_done sha p c w'"
proof -
  obtain outcome w1 where first_call: "change_call sha kept p c FirstCall (fst replies) w = (outcome, w1)" by fastforce
  note update = change_call_update [OF assms(1,2) first_call]
  have "world_update (hc_id c) w w' \<and> ai_id item = hc_id c \<and> ai_change item = hc_kind c \<and>
      (ai_status item \<noteq> SchedFailed \<longrightarrow> change_done sha p c w')"
  proof (cases "\<exists>phase. outcome = CallAgain phase")
    case True
    then obtain phase outcome' where again: "outcome = CallAgain phase"
        "change_call sha kept p c phase (snd replies) w1 = (outcome', w')"
      using assms(3) first_call by (fastforce simp: apply_change_def Let_def split: prod.split_asm)
    then have "world_update (hc_id c) w w'"
      using update change_call_update [OF assms(1,2) again(2)] by (auto simp: world_update_def)
    then show ?thesis
      using assms(3) first_call again change_call_done [OF assms(1,2), of c phase "snd replies" w1]
      by (auto simp: apply_change_def Let_def item_of_def split: call_outcome.split_asm)
  next
    case False
    then show ?thesis
      using assms(3) first_call update change_call_done [OF assms(1,2), of c FirstCall "fst replies" w]
      by (auto simp: apply_change_def Let_def item_of_def split: call_outcome.split_asm)
  qed
  then show "world_update (hc_id c) w w'" "ai_id item = hc_id c" "ai_change item = hc_kind c"
    "ai_status item \<noteq> SchedFailed \<Longrightarrow> change_done sha p c w'" by blast+
qed

section \<open>Changes in order\<close>

lemma change_done_other:
  assumes "plan_keys sha sc p" "world_update i w w'" "i \<noteq> hc_id c"
  shows "change_done sha p c w' = change_done sha p c w"
proof -
  have same: "dict_get w' (hc_id c) = dict_get w (hc_id c)" using assms(2,3) by (auto simp: world_update_def)
  have "de_id d = hc_id c" if "dict_get (hp_desired p) (hc_id c) = Some d" for d
    using that assms(1) by (simp add: plan_keys_def)
  then show ?thesis
    by (auto simp: change_done_def holds_desired_def same split: schedule_change_kind.split)
qed

lemma apply_changes_effect:
  assumes "plan_keys sha sc p" "keeps_schedules kept" "apply_changes sha kept p replies cs w = (items, w')"
  shows "map ai_id items = map hc_id cs" "map ai_change items = map hc_kind cs" "world_ok w \<Longrightarrow> world_ok w'"
    and "j \<notin> hc_id ` set cs \<Longrightarrow> dict_get w' j = dict_get w j"
    and "distinct (map hc_id cs) \<Longrightarrow> successful items \<Longrightarrow> c \<in> set cs \<Longrightarrow> change_done sha p c w'"
proof -
  have "map ai_id items = map hc_id cs \<and> map ai_change items = map hc_kind cs \<and> (world_ok w \<longrightarrow> world_ok w') \<and>
      (\<forall>j. j \<notin> hc_id ` set cs \<longrightarrow> dict_get w' j = dict_get w j) \<and>
      (distinct (map hc_id cs) \<and> successful items \<longrightarrow> (\<forall>c \<in> set cs. change_done sha p c w'))"
    using assms(3)
  proof (induction cs arbitrary: w items w')
    case (Cons c cs)
    obtain item w1 where one: "apply_change sha kept p c (replies c) w = (item, w1)" by fastforce
    obtain rest where others: "apply_changes sha kept p replies cs w1 = (rest, w')" and items: "items = item # rest"
      using Cons.prems one by (auto split: prod.split_asm)
    note effect = apply_change_update [OF assms(1,2) one] and IH = Cons.IH [OF others]
    have "change_done sha p c w'" if "distinct (map hc_id (c # cs))" "successful items"
    proof -
      have "dict_get w' (hc_id c) = dict_get w1 (hc_id c)" using IH that(1) by auto
      moreover have "change_done sha p c w1" using effect(4) that(2) items by (simp add: successful_def)
      moreover have "de_id d = hc_id c" if "dict_get (hp_desired p) (hc_id c) = Some d" for d
        using that assms(1) by (simp add: plan_keys_def)
      ultimately show ?thesis
        by (auto simp: change_done_def holds_desired_def split: schedule_change_kind.split_asm)
    qed
    then show ?case
      using effect IH items by (auto simp: world_update_def successful_def)
  qed (simp add: successful_def)
  then show "map ai_id items = map hc_id cs" "map ai_change items = map hc_kind cs" "world_ok w \<Longrightarrow> world_ok w'"
    "j \<notin> hc_id ` set cs \<Longrightarrow> dict_get w' j = dict_get w j"
    "distinct (map hc_id cs) \<Longrightarrow> successful items \<Longrightarrow> c \<in> set cs \<Longrightarrow> change_done sha p c w'" by blast+
qed

lemma map_filter_member: "c \<in> set (List.map_filter f xs) \<longleftrightarrow> (\<exists>x \<in> set xs. f x = Some c)"
  by (force simp: map_filter_def image_iff)

lemma distinct_map_filter_keys:
  assumes "distinct (map fst d)" "\<And>i x c. f (i, x) = Some c \<Longrightarrow> g c = i"
  shows "distinct (map g (List.map_filter f d))" "g ` set (List.map_filter f d) \<subseteq> fst ` set d"
proof -
  show sub: "g ` set (List.map_filter f d) \<subseteq> fst ` set d" for d
    using assms(2) by (force simp: map_filter_member)
  show "distinct (map g (List.map_filter f d))"
    using assms(1)
  proof (induction d)
    case (Cons e d)
    then show ?case
      using sub [of d] assms(2) by (cases e) (auto simp: List.map_filter_simps split: option.split)
  qed (simp add: map_filter_def)
qed

lemma orphan_undesired:
  assumes "orphan_change decision desired observed i a = Some c"
  shows "i \<notin> fst ` set (effective_desired decision observed desired)"
proof -
  have "\<not> dict_has (effective_desired decision observed desired) i"
    using assms unfolding orphan_change_def Let_def by (metis option.distinct(1))
  then show ?thesis by (simp add: dict_has_iff)
qed

lemma distinct_map_sort: "distinct (map h xs) \<Longrightarrow> distinct (map h (sort_key f xs))"
  by (simp add: distinct_map)

lemma images_apart: "X \<subseteq> E \<Longrightarrow> (\<And>c. c \<in> B \<Longrightarrow> h c \<notin> E) \<Longrightarrow> X \<inter> h ` B = {}"
  by blast

lemma distinct_changes:
  assumes "distinct (map fst desired)" "distinct (map fst observed)"
  shows "distinct (map hc_id (schedule_changes decision desired observed))"
proof -
  let ?E = "effective_desired decision observed desired"
  let ?A = "List.map_filter (\<lambda>(i, d). desired_change observed i d) (sort_key fst ?E)"
  let ?B = "List.map_filter (\<lambda>(i, a). orphan_change decision desired observed i a) (sort_key fst observed)"
  have E: "distinct (map fst ?E)" using assms(1) by (simp add: effective_desired_def distinct_map_filter)
  have A1: "distinct (map hc_id ?A)"
    by (rule distinct_map_filter_keys(1) [OF distinct_map_sort [OF E]]) (auto dest: desired_change_id)
  have "hc_id ` set ?A \<subseteq> fst ` set (sort_key fst ?E)"
    by (rule distinct_map_filter_keys(2) [OF distinct_map_sort [OF E]]) (auto dest: desired_change_id)
  then have A2: "hc_id ` set ?A \<subseteq> fst ` set ?E" by simp
  have B: "distinct (map hc_id ?B)"
    by (rule distinct_map_filter_keys(1) [OF distinct_map_sort [OF assms(2)]]) (auto dest: orphan_change_delete(1))
  have apart: "hc_id c \<notin> fst ` set ?E" if c: "c \<in> set ?B" for c
  proof -
    obtain i a where "orphan_change decision desired observed i a = Some c" using c by (auto simp: map_filter_member)
    then show ?thesis by (simp add: orphan_undesired orphan_change_delete(1) [of decision desired observed i a c])
  qed
  have "hc_id ` set ?A \<inter> hc_id ` set ?B = {}" by (rule images_apart [OF A2 apart])
  with A1 B have "distinct (map hc_id (?A @ ?B))" by (simp only: map_append distinct_append set_map)
  then show ?thesis unfolding schedule_changes_def by (intro distinct_map_sort)
qed

section \<open>After a successful application\<close>

lemma schedule_identity_scanned:
  assumes "make_recurring_schedule_id sha name sc = Inr i"
  shows "scanned_entry (i, memo)"
proof -
  obtain rest where "i = ''jf1.schedule.'' @ rest"
    using assms by (auto simp: make_recurring_schedule_id_def scoped_identity_def scoped_identity_from_digest_def bind_result_eq_Inr
        identity_prefix_def SCOPED_IDENTITY_VERSION_def)
  then show ?thesis
    by (simp add: scanned_entry_def starts_with_def SCHEDULED_START_SCHEDULE_ID_PREFIX_def
        SCHEDULED_START_MAINTENANCE_ID_PREFIX_def)
qed

text \<open>A schedule that is as desired is observed.\<close>

lemma holds_desired_view:
  assumes "world_ok w" "holds_desired sha w d" "desired_ok sha sc d"
  shows "\<exists>a. view sha sc (dict_get w (de_id d)) = Some a \<and> matches_desired a d"
proof -
  obtain sd a where sd: "dict_get w (de_id d) = Some sd" "observed_schedule_from_description sha sd = Inr a" "matches_desired a d"
    using assms(2) by (auto simp: holds_desired_def)
  have "memo_of (sd_memo sd) MEMO_SCOPE_DIGEST = Some (scope_digest_of sha sc)"
    using sd(3) assms(3) observed_fields(4) [OF sd(2)] by (simp add: matches_desired_def same_managed_identity_def desired_ok_def)
  then have "seen_here sha sc (sd_id sd) sd"
    using world_id [OF assms(1) sd(1)] schedule_identity_scanned assms(3)
    by (auto simp: seen_here_def listed_here_def owns_scope_def desired_ok_def)
  then show ?thesis using sd by (simp add: view_def)
qed

lemma no_change_matches:
  assumes "dict_get observed i = Some a" "os_id a = i" "de_id d = i"
  shows "desired_change observed i d = None \<longleftrightarrow> matches_desired a d"
  using assms by (auto simp: desired_change_def Let_def matches_desired_def same_managed_identity_def valid_managed_identity_def)

text \<open>The names of unscoped schedules, each with its multiplicity, depend on what is observed and not on its order.\<close>

definition unscoped_name :: "observed_schedule option \<Rightarrow> string option" where
  "unscoped_name x = (case x of
       None \<Rightarrow> None
     | Some a \<Rightarrow> if managed_schedule a \<and> os_scope a = None then os_name a else None)"

lemma unscoped_names_mset:
  assumes "distinct (map fst observed)" "distinct (map fst observed')"
    and "\<And>i. unscoped_name (dict_get observed i) = unscoped_name (dict_get observed' i)"
  shows "mset (unscoped_names observed) = mset (unscoped_names observed')"
proof -
  let ?f = "\<lambda>(i, a). map_option (Pair i) (unscoped_name (Some a))"
  have names: "unscoped_names obs = map snd (List.map_filter ?f obs)" for obs
    unfolding unscoped_names_def
    by (induction obs) (auto simp: List.map_filter_simps unscoped_name_def split: option.split)
  have members: "(i, n) \<in> set (List.map_filter ?f obs) \<longleftrightarrow> unscoped_name (dict_get obs i) = Some n"
    if "distinct (map fst obs)" for obs i n
  proof -
    have "(i, n) \<in> set (List.map_filter ?f obs) \<longleftrightarrow> (\<exists>a. (i, a) \<in> set obs \<and> unscoped_name (Some a) = Some n)"
      by (force simp: map_filter_member)
    also have "\<dots> \<longleftrightarrow> (\<exists>a. dict_get obs i = Some a \<and> unscoped_name (Some a) = Some n)"
      using that by (metis map_of_SomeD map_of_is_SomeI)
    also have "\<dots> \<longleftrightarrow> unscoped_name (dict_get obs i) = Some n"
      by (cases "dict_get obs i") (auto simp: unscoped_name_def)
    finally show ?thesis .
  qed
  have unique: "distinct (List.map_filter ?f obs)" if "distinct (map fst obs)" for obs
  proof -
    have "distinct (map fst (List.map_filter ?f obs))" by (rule distinct_map_filter_keys(1) [OF that]) auto
    then show ?thesis by (simp add: distinct_map)
  qed
  have "set (List.map_filter ?f observed) = set (List.map_filter ?f observed')"
    using members [OF assms(1)] members [OF assms(2)] assms(3) by auto
  then have "mset (List.map_filter ?f observed) = mset (List.map_filter ?f observed')"
    using set_eq_iff_mset_eq_distinct [OF unique [OF assms(1)] unique [OF assms(2)]] by blast
  then show ?thesis by (simp add: names)
qed

lemma same_names_decide:
  assumes "mset (unscoped_names observed) = mset (unscoped_names observed')"
  shows "effective_desired decision observed desired = effective_desired decision observed' desired"
    and "ambiguous_name observed n = ambiguous_name observed' n"
proof -
  show count: "ambiguous_name observed n = ambiguous_name observed' n" for n
    using assms by (simp add: ambiguous_name_def) (metis count_mset)
  show "effective_desired decision observed desired = effective_desired decision observed' desired"
    using mset_eq_setD [OF assms] by (simp add: effective_desired_def count)
qed

text \<open>
  What is observed afterwards: the desired schedules as they should be, of the others those that the plan leaves.
\<close>

definition settled_observation ::
    "unscoped_decision \<Rightarrow> desired_schedule dict \<Rightarrow> observed_schedule dict \<Rightarrow> observed_schedule dict \<Rightarrow> bool" where
  "settled_observation decision desired observed observed' \<longleftrightarrow>
     (\<forall>(i, d) \<in> set (effective_desired decision observed desired). \<exists>a. dict_get observed' i = Some a \<and> matches_desired a d) \<and>
     (\<forall>j a. j \<notin> fst ` set (effective_desired decision observed desired) \<longrightarrow>
        (dict_get observed' j = Some a \<longleftrightarrow>
         dict_get observed j = Some a \<and> orphan_change decision desired observed j a = None))"

lemma settled_others:
  assumes "settled_observation decision desired observed observed'"
    and "j \<notin> fst ` set (effective_desired decision observed desired)"
  shows "dict_get observed' j = Some a \<longleftrightarrow>
    dict_get observed j = Some a \<and> orphan_change decision desired observed j a = None"
  using assms unfolding settled_observation_def by blast

lemma listed_changes:
  shows "(i, d) \<in> set (effective_desired decision observed desired) \<Longrightarrow> desired_change observed i d = Some c \<Longrightarrow>
      c \<in> set (schedule_changes decision desired observed)"
    and "(i, a) \<in> set observed \<Longrightarrow> orphan_change decision desired observed i a = Some c \<Longrightarrow>
      c \<in> set (schedule_changes decision desired observed)"
  unfolding schedule_changes_members by blast+

lemma orphan_of_change:
  assumes "c \<in> set (schedule_changes decision desired observed)"
    and "hc_id c \<notin> fst ` set (effective_desired decision observed desired)"
  obtains a where "(hc_id c, a) \<in> set observed" "orphan_change decision desired observed (hc_id c) a = Some c"
proof -
  have "desired_change observed i d \<noteq> Some c" if "(i, d) \<in> set (effective_desired decision observed desired)" for i d
    using assms(2) desired_change_id [of observed i d c] imageI [OF that, of fst] by auto
  then obtain i a where "(i, a) \<in> set observed" "orphan_change decision desired observed i a = Some c"
    using assms(1) unfolding schedule_changes_members by blast
  then show thesis using orphan_change_delete(1) [of decision desired observed i a c] that by blast
qed

lemma unscoped_conflict:
  assumes "dict_get observed i = Some a" "managed_schedule a" "os_scope a = None" "si_scope (de_target d) \<noteq> None"
  shows "\<exists>c. desired_change observed i d = Some c \<and> hc_kind c = ConflictSchedule"
  using assms by (auto simp: desired_change_def Let_def)

lemma settled_effective:
  assumes settled: "settled_observation decision desired observed observed'"
    and scoped: "\<forall>(i, d) \<in> set desired. si_scope (de_target d) \<noteq> None"
    and no_conflict: "\<forall>c \<in> set (schedule_changes decision desired observed). hc_kind c \<noteq> ConflictSchedule"
    and keys: "distinct (map fst observed)" "distinct (map fst observed')"
    and retain: "decision = RetainUnscoped"
  shows "mset (unscoped_names observed) = mset (unscoped_names observed')"
proof (rule unscoped_names_mset [OF keys])
  fix i
  let ?E = "effective_desired decision observed desired"
  show "unscoped_name (dict_get observed i) = unscoped_name (dict_get observed' i)"
  proof (cases "i \<in> fst ` set ?E")
    case True
    then obtain d where d: "(i, d) \<in> set ?E" by auto
    then have scope: "si_scope (de_target d) \<noteq> None" using scoped by (auto simp: effective_desired_def)
    obtain a' where "dict_get observed' i = Some a'" "matches_desired a' d"
      using settled d by (auto simp: settled_observation_def)
    then have "unscoped_name (dict_get observed' i) = None"
      using scope by (simp add: unscoped_name_def matches_desired_def same_managed_identity_def)
    moreover have "unscoped_name (dict_get observed i) = None"
    proof (cases "dict_get observed i")
      case (Some a)
      have "desired_change observed i d = Some c \<Longrightarrow> hc_kind c \<noteq> ConflictSchedule" for c
        using no_conflict d schedule_changes_members by blast
      then have "\<not> (managed_schedule a \<and> os_scope a = None)"
        using unscoped_conflict [OF Some _ _ scope] by blast
      then show ?thesis using Some by (auto simp: unscoped_name_def)
    qed (simp add: unscoped_name_def)
    ultimately show ?thesis by simp
  next
    case outside: False
    show ?thesis
    proof (cases "dict_get observed i")
      case None
      then show ?thesis using settled outside by (cases "dict_get observed' i") (auto simp: settled_observation_def)
    next
      case (Some a)
      show ?thesis
      proof (cases "orphan_change decision desired observed i a")
        case None
        then show ?thesis using settled_others [OF settled outside, of a] Some by simp
      next
        case c: (Some c)
        have "c \<in> set (schedule_changes decision desired observed)"
          using c map_of_SomeD [OF Some] unfolding schedule_changes_members by blast
        then have "hc_kind c = DeleteSchedule" using orphan_change_delete(2) [OF c] no_conflict by blast
        then have "os_scope a \<noteq> None" using orphan_change_delete(3) [OF c] retain by auto
        moreover have "dict_get observed' i = None"
          using settled outside Some c by (cases "dict_get observed' i") (auto simp: settled_observation_def)
        ultimately show ?thesis using Some by (auto simp: unscoped_name_def)
      qed
    qed
  qed
qed

lemma settled_plan:
  assumes settled: "settled_observation decision desired observed observed'"
    and desired: "\<forall>(i, d) \<in> set desired. de_id d = i \<and> si_scope (de_target d) \<noteq> None"
    and no_conflict: "\<forall>c \<in> set (schedule_changes decision desired observed). hc_kind c \<noteq> ConflictSchedule"
    and keys: "distinct (map fst observed)" "distinct (map fst observed')" "\<forall>(i, a) \<in> set observed'. os_id a = i"
  shows "effective_desired decision observed' desired = effective_desired decision observed desired"
    and "schedule_changes decision desired observed' = []"
proof -
  let ?E = "effective_desired decision observed desired"
  have names: "mset (unscoped_names observed) = mset (unscoped_names observed')" if "decision = RetainUnscoped"
    by (rule settled_effective [OF settled _ no_conflict keys(1,2) that]) (use desired in auto)
  then have same: "decision = RetainUnscoped \<Longrightarrow> ambiguous_name observed' n = ambiguous_name observed n" for n
    using same_names_decide(2) by blast
  show E: "effective_desired decision observed' desired = ?E"
  proof (cases "decision = RetainUnscoped")
    case True
    then show ?thesis using same_names_decide(1) [OF names] by simp
  qed (simp add: effective_desired_def)
  have wanted: "desired_change observed' i d = None" if "(i, d) \<in> set ?E" for i d
  proof -
    obtain a where a: "dict_get observed' i = Some a" "matches_desired a d"
      using settled \<open>(i, d) \<in> set ?E\<close> by (auto simp: settled_observation_def)
    have "de_id d = i" using desired that by (auto simp: effective_desired_def)
    moreover have "os_id a = i" using keys(3) map_of_SomeD [OF a(1)] by auto
    ultimately show ?thesis using no_change_matches [of observed' i a d] a by simp
  qed
  have left_alone: "orphan_change decision desired observed' j a = None" if "(j, a) \<in> set observed'" for j a
  proof (cases "j \<in> fst ` set ?E")
    case True
    then have "dict_has (effective_desired decision observed' desired) j" by (simp add: E dict_has_iff)
    then show ?thesis by (simp add: orphan_change_def)
  next
    case False
    then have "orphan_change decision desired observed j a = None" "\<not> dict_has ?E j"
      using settled that keys(2) by (auto simp: settled_observation_def dict_has_iff)
    then show ?thesis
      using E same by (auto simp: orphan_change_def Let_def split: if_splits option.splits)
  qed
  have "c \<notin> set (schedule_changes decision desired observed')" for c
    unfolding schedule_changes_members E using wanted left_alone by auto
  then show "schedule_changes decision desired observed' = []" by (metis list.set_intros(1) neq_Nil_conv)
qed

section \<open>Reconciliation\<close>

text \<open>\<open>ScheduleReconciler.plan\<close>, where nothing fails on the way to Temporal.\<close>

definition reconciler_plan ::
    "(string \<Rightarrow> string) \<Rightarrow> (rat \<Rightarrow> string) \<Rightarrow> runtime_scope \<Rightarrow> nat \<Rightarrow> unscoped_decision \<Rightarrow> desired_schedule dict \<Rightarrow> temporal \<Rightarrow>
     reconciliation_error + schedule_plan" where
  "reconciler_plan sha sf sc max_schedules decision desired w =
     bind_result (observe_world sha sc max_schedules w) (\<lambda>observed.
       case plan_schedule_reconciliation sha sf desired observed decision of
         Inl _ \<Rightarrow> Inl ReconcilerBroke | Inr p \<Rightarrow> Inr p)"

lemma observation_keys:
  assumes "world_ok w" "observe_world sha sc max_schedules w = Inr obs"
  shows "distinct (map fst obs)" "\<forall>(i, a) \<in> set obs. os_id a = i"
proof -
  let ?L = "filter (\<lambda>(i, sd). seen_here sha sc i sd) w"
  note all = observe_world_result [OF assms]
  have "map fst obs = map fst ?L" using all by (induction rule: list_all2_induct) auto
  then show "distinct (map fst obs)" using assms(1) by (simp add: world_ok_def distinct_map_filter)
  show "\<forall>(i, a) \<in> set obs. os_id a = i" using all by (induction rule: list_all2_induct) auto
qed

lemma reconciler_plan_parts:
  assumes "reconciler_plan sha sf sc max_schedules decision desired w = Inr p"
  obtains obs where "observe_world sha sc max_schedules w = Inr obs" "hp_observed p = obs"
    "hp_desired p = effective_desired decision obs desired" "hp_changes p = schedule_changes decision desired obs"
    "\<forall>(i, d) \<in> set desired. de_id d = i"
proof -
  obtain obs where "observe_world sha sc max_schedules w = Inr obs"
      "plan_schedule_reconciliation sha sf desired obs decision = Inr p"
    using assms
    by (cases "observe_world sha sc max_schedules w") (auto simp: reconciler_plan_def bind_result_def split: sum.split_asm)
  then show thesis
    by (intro that [of obs]) (auto simp: plan_schedule_reconciliation_def Let_def list_all_iff split: if_splits)
qed

definition desired_for :: "(string \<Rightarrow> string) \<Rightarrow> runtime_scope \<Rightarrow> desired_schedule dict \<Rightarrow> bool" where
  "desired_for sha sc desired \<longleftrightarrow> distinct (map fst desired) \<and> (\<forall>(i, d) \<in> set desired. desired_ok sha sc d)"

lemma reconciler_plan_keys:
  assumes "reconciler_plan sha sf sc max_schedules decision desired w = Inr p" "world_ok w" "desired_for sha sc desired"
  shows "plan_keys sha sc p" "distinct (map hc_id (hp_changes p))" "distinct (map fst (hp_desired p))"
proof -
  obtain obs where p: "observe_world sha sc max_schedules w = Inr obs" "hp_observed p = obs"
      "hp_desired p = effective_desired decision obs desired" "hp_changes p = schedule_changes decision desired obs"
      "\<forall>(i, d) \<in> set desired. de_id d = i"
    by (rule reconciler_plan_parts [OF assms(1)])
  note keys = observation_keys [OF assms(2) p(1)]
  show "distinct (map fst (hp_desired p))"
    using assms(3) by (simp add: p(3) effective_desired_def desired_for_def distinct_map_filter)
  show "plan_keys sha sc p"
    using p(5) assms(3) keys(2)
    by (fastforce simp: plan_keys_def p(2,3) effective_desired_def desired_for_def dest!: map_of_SomeD)
  show "distinct (map hc_id (hp_changes p))"
    unfolding p(4) by (rule distinct_changes) (use assms(3) keys(1) in \<open>simp_all add: desired_for_def\<close>)
qed

lemma settled_world:
  assumes plan: "reconciler_plan sha sf sc max_schedules decision desired w = Inr p"
    and ok: "world_ok w" "world_ok w'" "desired_for sha sc desired"
    and others: "\<And>j. j \<notin> hc_id ` set (hp_changes p) \<Longrightarrow> dict_get w' j = dict_get w j"
    and made: "\<And>c. c \<in> set (hp_changes p) \<Longrightarrow> change_done sha p c w'"
    and obs: "observe_world sha sc max_schedules w = Inr obs" "observe_world sha sc max_schedules w' = Inr obs'"
  shows "settled_observation decision desired obs obs'"
proof -
  obtain obs1 where p1: "observe_world sha sc max_schedules w = Inr obs1" "hp_observed p = obs1"
      "hp_desired p = effective_desired decision obs1 desired" "hp_changes p = schedule_changes decision desired obs1"
      "\<forall>(i, d) \<in> set desired. de_id d = i"
    by (rule reconciler_plan_parts [OF plan])
  then have [simp]: "obs1 = obs" using obs(1) by simp
  note p = p1 [simplified]
  let ?E = "effective_desired decision obs desired"
  note keys = reconciler_plan_keys [OF plan ok(1,3)] and okeys = observation_keys [OF ok(1) obs(1)]
  have view: "dict_get obs j = view sha sc (dict_get w j)" "dict_get obs' j = view sha sc (dict_get w' j)" for j
    by (rule observe_world_get [OF ok(1) obs(1)], rule observe_world_get [OF ok(2) obs(2)])
  have same_id: "c = c'" if "c \<in> set (hp_changes p)" "c' \<in> set (hp_changes p)" "hc_id c = hc_id c'" for c c'
    using keys(2) that by (auto simp: distinct_map dest: inj_onD)
  have wanted: "\<exists>a. dict_get obs' i = Some a \<and> matches_desired a d" if d: "(i, d) \<in> set ?E" for i d
  proof -
    have id: "de_id d = i" "desired_ok sha sc d" "dict_get (hp_desired p) i = Some d"
      using d p(5) ok(3) keys(3) by (auto simp: effective_desired_def desired_for_def p(3))
    show ?thesis
    proof (cases "\<exists>c \<in> set (hp_changes p). hc_id c = i")
      case True
      then obtain c where c: "c \<in> set (hp_changes p)" "hc_id c = i" by blast
      have "i \<in> fst ` set ?E" using d by force
      then have "hc_kind c \<noteq> DeleteSchedule"
        using c desired_change_id orphan_undesired orphan_change_delete(1)
        unfolding p(4) schedule_changes_members by blast
      then have "holds_desired sha w' d"
        using made [OF c(1)] c(2) id(3) by (auto simp: change_done_def split: schedule_change_kind.split_asm)
      then show ?thesis using holds_desired_view [OF ok(2) _ id(2)] id(1) by (simp add: view(2))
    next
      case False
      then have none: "desired_change obs i d = None"
        using listed_changes(1) [OF d] desired_change_id [of obs i d] unfolding p(4) by (cases "desired_change obs i d") auto
      then obtain a where a: "dict_get obs i = Some a" by (auto simp: desired_change_def Let_def split: option.split_asm)
      then have "matches_desired a d"
        using none no_change_matches [OF a _ id(1)] okeys(2) map_of_SomeD [OF a] by auto
      moreover have "i \<notin> hc_id ` set (hp_changes p)" using False by auto
      ultimately show ?thesis using a others view [of i] by simp
    qed
  qed
  have left_alone: "dict_get obs' j = Some a \<longleftrightarrow> dict_get obs j = Some a \<and> orphan_change decision desired obs j a = None"
    if j: "j \<notin> fst ` set ?E" for j a
  proof (cases "\<exists>c \<in> set (hp_changes p). hc_id c = j")
    case True
    then obtain c where c: "c \<in> set (hp_changes p)" "hc_id c = j" by blast
    then obtain b where b: "(j, b) \<in> set obs" "orphan_change decision desired obs j b = Some c"
      using orphan_of_change [of c decision desired obs] j unfolding p(4) by auto
    then have "dict_get w' j = None"
      using made [OF c(1)] c(2) orphan_change_delete(2) [OF b(2)] by (auto simp: change_done_def)
    then have "dict_get obs' j = None" by (simp add: view(2) view_def)
    moreover have "dict_get obs j = Some b" using b(1) okeys(1) by simp
    ultimately show ?thesis using b(2) by auto
  next
    case False
    have "orphan_change decision desired obs j a = None" if "dict_get obs j = Some a"
      using False listed_changes(2) [OF map_of_SomeD [OF that]] orphan_change_delete(1) [of decision desired obs j a]
      unfolding p(4) by (cases "orphan_change decision desired obs j a") auto
    moreover have "j \<notin> hc_id ` set (hp_changes p)" using False by auto
    then have "dict_get obs' j = dict_get obs j" using others view [of j] by simp
    ultimately show ?thesis by auto
  qed
  show ?thesis unfolding settled_observation_def using wanted left_alone by blast
qed

lemma reconciliation_settles:
  assumes kept: "keeps_schedules kept"
    and ok: "world_ok w" "desired_for sha sc desired"
    and plan: "reconciler_plan sha sf sc max_schedules decision desired w = Inr p"
    and applied: "apply_plan sha kept p confirmation replies w = Inr (items, w')" "successful items"
    and again: "observe_world sha sc max_schedules w' = Inr obs'"
  shows "\<exists>p'. reconciler_plan sha sf sc max_schedules decision desired w' = Inr p' \<and> hp_changes p' = [] \<and>
    hp_desired p' = hp_desired p"
proof -
  note keys = reconciler_plan_keys [OF plan ok]
  have calls: "apply_changes sha kept p replies (hp_changes p) w = (items, w')" "\<not> has_conflicts p"
    using applied(1) by (auto simp: apply_plan_def validate_apply_def bind_result_eq_Inr split: if_splits)
  note effect = apply_changes_effect [OF keys(1) kept calls(1)]
  obtain obs where p: "observe_world sha sc max_schedules w = Inr obs" "hp_observed p = obs"
      "hp_desired p = effective_desired decision obs desired" "hp_changes p = schedule_changes decision desired obs"
      "\<forall>(i, d) \<in> set desired. de_id d = i"
    by (rule reconciler_plan_parts [OF plan])
  have settled: "settled_observation decision desired obs obs'"
    by (rule settled_world [OF plan ok(1) effect(3) [OF ok(1)] ok(2) effect(4) effect(5) [OF keys(2) applied(2)] p(1) again])
  have scoped: "\<forall>(i, d) \<in> set desired. de_id d = i \<and> si_scope (de_target d) \<noteq> None"
    using p(5) ok(2) by (auto simp: desired_for_def desired_ok_def)
  have no_conflict: "\<forall>c \<in> set (schedule_changes decision desired obs). hc_kind c \<noteq> ConflictSchedule"
    using calls(2) p(4) by (simp add: has_conflicts_def)
  note keys' = observation_keys [OF effect(3) [OF ok(1)] again]
  note left = settled_plan [OF settled scoped no_conflict observation_keys(1) [OF ok(1) p(1)] keys']
  have "list_all (\<lambda>(i, d). i = de_id d) desired" "list_all (\<lambda>(i, a). i = os_id a) obs'"
    using p(5) keys'(2) by (auto simp: list_all_iff)
  then show ?thesis
    using left p(3) by (simp add: reconciler_plan_def again bind_result_def plan_schedule_reconciliation_def Let_def)
qed

text \<open>
  C26. An undisturbed reconciliation that reports success for its changes, whatever the answers of Temporal were,
  leaves nothing to reconcile: the next plan is for the same schedules and has no changes.
\<close>

theorem reconciliation_converges:
  assumes "keeps_schedules kept" "world_ok w" "desired_for sha sc desired"
    and "reconciler_plan sha sf sc max_schedules decision desired w = Inr p"
    and "apply_plan sha kept p confirmation replies w = Inr (items, w')" "successful items"
    and "observe_world sha sc max_schedules w' = Inr obs'"
  shows "\<exists>p'. reconciler_plan sha sf sc max_schedules decision desired w' = Inr p' \<and> hp_changes p' = [] \<and>
    hp_desired p' = hp_desired p"
  by (rule reconciliation_settles [OF assms])

section \<open>Schedules of others\<close>

text \<open>The schedules that a reconciler of a scope may change: its own, and with a migration those without a scope.\<close>

definition managed_here :: "(string \<Rightarrow> string) \<Rightarrow> runtime_scope \<Rightarrow> unscoped_decision \<Rightarrow> schedule_description \<Rightarrow> bool" where
  "managed_here sha sc decision sd \<longleftrightarrow> (case observed_schedule_from_description sha sd of
       Inl _ \<Rightarrow> False
     | Inr a \<Rightarrow> valid_managed_identity a \<and>
         (os_scope a = Some (scope_digest_of sha sc) \<or> os_scope a = None \<and> sc = LOCAL_RUNTIME_SCOPE \<and> decision = MigrateUnscoped))"

lemma planned_deletion:
  assumes "reconciler_plan sha sf sc max_schedules decision desired w = Inr p" "world_ok w" "desired_for sha sc desired"
    and "c \<in> set (hp_changes p)" "hc_kind c = DeleteSchedule"
  shows "\<exists>a. dict_get (hp_observed p) (hc_id c) = Some a \<and> valid_managed_identity a \<and>
    (os_scope a = Some (scope_digest_of sha sc) \<or> os_scope a = None \<and> sc = LOCAL_RUNTIME_SCOPE \<and> decision = MigrateUnscoped)"
proof -
  obtain obs where p: "observe_world sha sc max_schedules w = Inr obs" "hp_observed p = obs"
      "hp_changes p = schedule_changes decision desired obs"
    by (rule reconciler_plan_parts [OF assms(1)])
  obtain i a where a: "(i, a) \<in> set obs" "orphan_change decision desired obs i a = Some c"
    using assms(4,5) desired_change_id unfolding p(3) schedule_changes_members by blast
  have i: "i = hc_id c" using orphan_change_delete(1) [OF a(2)] by simp
  have get: "dict_get obs i = Some a" using a(1) observation_keys(1) [OF assms(2) p(1)] by simp
  then obtain sd where sd: "seen_here sha sc (sd_id sd) sd" "observed_schedule_from_description sha sd = Inr a"
    using observe_world_get [OF assms(2) p(1), of i] by (auto simp: view_def split: option.split_asm sum.split_asm if_splits)
  then show ?thesis
    using orphan_change_delete(3) [OF a(2) assms(5)] valid_scope [OF _ sd(2)] get i p(2) by (auto simp: seen_here_def)
qed

lemma change_leaves_others:
  assumes plan: "reconciler_plan sha sf sc max_schedules decision desired w0 = Inr p" "world_ok w0" "desired_for sha sc desired"
    and "keeps_schedules kept" "c \<in> set (hp_changes p)"
    and "apply_change sha kept p c replies w = (item, w')" "dict_get w k = Some sd" "\<not> managed_here sha sc decision sd"
  shows "dict_get w' k = Some sd"
proof (cases "k = hc_id c")
  case False
  then show ?thesis
    using apply_change_update(1) [OF reconciler_plan_keys(1) [OF plan] assms(4,6)] assms(7) by (simp add: world_update_def)
next
  case True
  have wanted: "de_id d = k \<and> si_scope (de_target d) = Some (scope_digest_of sha sc)"
    if "dict_get (hp_desired p) (hc_id c) = Some d" for d
    using that reconciler_plan_keys(1) [OF plan] True by (simp add: plan_keys_def desired_ok_def)
  have foreign: "\<not> (valid_managed_identity a \<and> os_scope a = Some (scope_digest_of sha sc))"
      "\<not> (valid_managed_identity a \<and> os_scope a = None \<and> sc = LOCAL_RUNTIME_SCOPE \<and> decision = MigrateUnscoped)"
    if "observed_schedule_from_description sha sd = Inr a" for a
    using assms(8) that by (auto simp: managed_here_def)
  show ?thesis
  proof (cases "hc_kind c")
    case CreateSchedule
    then show ?thesis
      using assms(6,7) wanted True
      by (auto simp: apply_change_def change_call_def create_call_def dict_has_def Let_def
          split: option.split_asm call_outcome.split_asm prod.split_asm call_reply.split_asm if_splits)
  next
    case UpdateSchedule
    have "updater sha kept d expected sd \<noteq> Inr (Some sd')" if "dict_get (hp_desired p) (hc_id c) = Some d" for d expected sd'
      using foreign(1) wanted [OF that] by (auto simp: updater_def same_managed_identity_def split: sum.split)
    then show ?thesis
      using UpdateSchedule assms(6,7) wanted True
      by (auto simp: apply_change_def change_call_def update_call_def Let_def
          split: option.split_asm call_outcome.split_asm prod.split_asm call_reply.split_asm sum.split_asm if_splits bool.split_asm)
  next
    case DeleteSchedule
    then obtain a where a: "dict_get (hp_observed p) (hc_id c) = Some a" "valid_managed_identity a"
        "os_scope a = Some (scope_digest_of sha sc) \<or> os_scope a = None \<and> sc = LOCAL_RUNTIME_SCOPE \<and> decision = MigrateUnscoped"
      using planned_deletion [OF plan assms(5)] by blast
    have "os_id a = k" using a(1) reconciler_plan_keys(1) [OF plan] True by (simp add: plan_keys_def)
    then have "check_delete sha a reply w \<noteq> CallAgain phase" for reply phase
      using a(2,3) foreign assms(7) by (auto simp: check_delete_def split: call_reply.split sum.split)
    then show ?thesis
      using DeleteSchedule assms(6,7) a(1)
      by (auto simp: apply_change_def change_call_def Let_def split: call_outcome.split_asm)
  next
    case ConflictSchedule
    then show ?thesis using assms(6,7) by (auto simp: apply_change_def change_call_def)
  qed
qed

text \<open>
  C27. The application of a plan leaves the schedules of others as they are, whatever has happened in Temporal since
  the plan was made and whatever its answers are: a schedule that is not managed by the reconciler of the scope,
  for its owner, its scope or an unreadable memo, is there afterwards as before.
\<close>

theorem schedules_of_others_stay:
  assumes "reconciler_plan sha sf sc max_schedules decision desired w0 = Inr p" "world_ok w0" "desired_for sha sc desired"
    and "keeps_schedules kept" "apply_plan sha kept p confirmation replies w = Inr (items, w')"
    and "dict_get w k = Some sd" "\<not> managed_here sha sc decision sd"
  shows "dict_get w' k = Some sd"
proof -
  have "dict_get w' k = Some sd"
    if "set cs \<subseteq> set (hp_changes p)" "apply_changes sha kept p replies cs w = (items, w')" "dict_get w k = Some sd" for cs w items
    using that
  proof (induction cs arbitrary: w items)
    case (Cons c cs)
    obtain item w1 where one: "apply_change sha kept p c (replies c) w = (item, w1)" by fastforce
    have "dict_get w1 k = Some sd"
      by (rule change_leaves_others [OF assms(1-4) _ one Cons.prems(3) assms(7)]) (use Cons.prems(1) in simp)
    then show ?case using Cons.IH Cons.prems(1,2) one by (auto split: prod.split_asm)
  qed simp
  then show ?thesis
    using assms(5,6) by (auto simp: apply_plan_def validate_apply_def bind_result_eq_Inr split: if_splits)
qed

end
