(* ===== verification/JF_Schedule_Trial.thy ===== *)
theory JF_Schedule_Trial
  imports JF_Settled
begin

text \<open>
  A reconciliation on concrete schedules: one schedule is desired, Temporal holds its predecessor from before
  scopes and a schedule of another application. The properties of the reconciler are applied to it, and an
  application whose first call fails shows what the order of the changes does not guarantee.
\<close>

section \<open>A client that keeps what it is given\<close>

definition keep_schedule :: "schedule_description option \<Rightarrow> desired_schedule \<Rightarrow> schedule_description" where
  "keep_schedule old d =
     \<lparr>sd_id = de_id d,
      sd_memo = (case old of None \<Rightarrow> map (\<lambda>(k, j). (k, TextMemo (memo_text_of j))) (de_memo d) | Some sd \<Rightarrow> sd_memo sd),
      sd_action = StartAction (th_workflow (de_schedule d)) (th_workflow_id (de_schedule d))
        (Some (map (\<lambda>(k, j). (k, ActionPayload (Inr [Some (memo_text_of j)]))) (th_memo (de_schedule d))))\<rparr>"

lemma get_mapped: "dict_get (map (\<lambda>(k, v). (k, f v)) d) k = map_option f (dict_get d k)"
  by (induction d) auto

lemma keep_schedule_keeps: "keeps_schedules keep_schedule"
  by (auto simp: keeps_schedules_def keep_schedule_def get_mapped split: option.split)

section \<open>The schedules\<close>

definition nightly_digest :: string where "nightly_digest = replicate 64 CHR ''a''"
definition nightly_sha :: "string \<Rightarrow> string" where "nightly_sha s = nightly_digest"

definition nightly_target :: schedule_target where
  "nightly_target = \<lparr>si_scope = Some nightly_digest, si_workflow = ''report'', si_definition = nightly_digest,
     si_artifact = \<lparr>wa_deployment_name = ''reports'', wa_build_id = ''b1'', wa_artifact_digest = ''sha256:'' @ nightly_digest,
       wa_package_version = ''1'', wa_source_revision = None\<rparr>,
     si_environment = nightly_digest, si_configuration = None\<rparr>"

definition nightly_memo :: "json dict" where
  "nightly_memo = [(MEMO_SCHEDULE_OWNER, JStr SCHEDULE_OWNER), (MEMO_SCHEDULE_NAME, JStr ''nightly''),
     (MEMO_SCHEDULE_DESIRED_DIGEST, JStr nightly_digest), (MEMO_SCHEDULE_FORMAT_VERSION, JStr ''1''),
     (MEMO_SCOPE_DIGEST, JStr nightly_digest)]"

definition nightly_id :: string where "nightly_id = ''jf1.schedule.'' @ nightly_digest @ ''.'' @ nightly_digest"

definition nightly :: desired_schedule where
  "nightly = \<lparr>de_name = ''nightly'', de_id = nightly_id, de_digest = nightly_digest, de_target = nightly_target,
     de_schedule = \<lparr>th_workflow = SCHEDULE_DISPATCH_WORKFLOW_TYPE, th_argument = JObj [],
       th_workflow_id = ''jf1.schedule-dispatch.'' @ nightly_digest @ ''.'' @ nightly_digest, th_task_queue = ''reports'',
       th_memo = nightly_memo, th_spec = TemporalCron [''0 2 * * *''] ''UTC'', th_overlap = SkipOverlap, th_catch_up = 60,
       th_paused = False\<rparr>,
     de_memo = nightly_memo\<rparr>"

definition old_id :: string where "old_id = ''justflow.schedule.nightly''"

definition old_nightly :: schedule_description where
  "old_nightly = \<lparr>sd_id = old_id,
     sd_memo = [(MEMO_SCHEDULE_OWNER, TextMemo SCHEDULE_OWNER), (MEMO_SCHEDULE_NAME, TextMemo ''nightly'')],
     sd_action = StartAction SCHEDULE_DISPATCH_WORKFLOW_TYPE ''justflow.schedule-dispatch.nightly''
       (Some [(MEMO_SCHEDULE_OWNER, ActionText SCHEDULE_OWNER), (MEMO_SCHEDULE_NAME, ActionText ''nightly''),
         (MEMO_SCHEDULE_DESIRED_DIGEST, ActionText ''before'')])\<rparr>"

definition foreign_schedule :: schedule_description where
  "foreign_schedule = \<lparr>sd_id = ''backup'', sd_memo = [], sd_action = OtherAction\<rparr>"

definition nightly_world :: temporal where
  "nightly_world = [(old_id, old_nightly), (''backup'', foreign_schedule)]"

lemma nightly_digest_ok: "is_digest nightly_digest"
  by (simp add: is_digest_def nightly_digest_def SCOPE_DIGEST_LENGTH_def is_lower_hex_def is_digit_def char_code_def
      list_all_iff)

lemma nightly_identity:
  assumes "is_identity_kind kind"
  shows "scoped_identity_from_digest nightly_sha kind nightly_digest parts =
    Inr (''jf1.'' @ kind @ ''.'' @ nightly_digest @ ''.'' @ nightly_digest)"
  using assms nightly_digest_ok
  by (simp add: scoped_identity_from_digest_def validate_scope_digest_def guard_result_def identity_prefix_def
      SCOPED_IDENTITY_VERSION_def nightly_sha_def)

lemma schedule_kinds: "is_identity_kind ''schedule''" "is_identity_kind ''schedule-dispatch''"
  by (simp_all add: is_identity_kind_def MAX_SCOPED_IDENTITY_KIND_LENGTH_def char_code_def is_digit_def)

lemma nightly_desired: "desired_for nightly_sha LOCAL_RUNTIME_SCOPE [(nightly_id, nightly)]"
  by (simp add: desired_for_def desired_ok_def nightly_def nightly_target_def scope_digest_of_def nightly_sha_def
      make_recurring_schedule_id_def make_schedule_dispatch_workflow_id_def scoped_identity_def nightly_id_def nightly_memo_def memo_keys
      nightly_identity schedule_kinds)

section \<open>The plan\<close>

definition old_observed :: observed_schedule where
  "old_observed = \<lparr>os_id = old_id, os_owner = Some SCHEDULE_OWNER, os_name = Some ''nightly'', os_digest = Some ''before'',
     os_scope = None, os_action_valid = True, os_corrupt = []\<rparr>"

definition nightly_create :: schedule_change where
  "nightly_create = \<lparr>hc_kind = CreateSchedule, hc_id = nightly_id, hc_name = Some ''nightly''\<rparr>"

definition old_delete :: schedule_change where
  "old_delete = \<lparr>hc_kind = DeleteSchedule, hc_id = old_id, hc_name = Some ''nightly''\<rparr>"

lemma old_fields:
  "os_id old_observed = old_id" "os_owner old_observed = Some SCHEDULE_OWNER" "os_name old_observed = Some ''nightly''"
  "os_digest old_observed = Some ''before''" "os_scope old_observed = None" "os_action_valid old_observed"
  "os_corrupt old_observed = []" "managed_schedule old_observed" "valid_managed_identity old_observed"
  by (simp_all add: old_observed_def managed_schedule_def valid_managed_identity_def)

lemma old_observation: "observed_schedule_from_description nightly_sha old_nightly = Inr old_observed"
  by (simp add: observed_schedule_from_description_def old_nightly_def old_observed_def bare_observation_def memo_of_def
      entity_memo_string_def action_memo_string_def memo_string_value_def memo_keys schedule_memo_def action_memo_def
      corrupt_memo_keys_def is_corrupt_def expected_action_id_def make_unscoped_schedule_dispatch_workflow_id_def
      SCHEDULE_DISPATCH_WORKFLOW_ID_PREFIX_def Let_def bind_result_def)

lemma foreign_observation:
  "observed_schedule_from_description nightly_sha foreign_schedule = Inr (bare_observation ''backup'' [] True)"
  by (simp add: observed_schedule_from_description_def foreign_schedule_def bare_observation_def memo_of_def
      entity_memo_string_def memo_string_value_def schedule_memo_def corrupt_memo_keys_def is_corrupt_def SCHEDULE_OWNER_def)

lemma nightly_observed:
  "observe_world nightly_sha LOCAL_RUNTIME_SCOPE 10 nightly_world =
     Inr [(old_id, old_observed), (''backup'', bare_observation ''backup'' [] True)]"
proof -
  have scanned: "scanned_entry (old_id, m)" "scanned_entry (''backup'', m)" for m
    by (simp_all add: scanned_entry_def starts_with_def old_id_def SCHEDULED_START_SCHEDULE_ID_PREFIX_def
        SCHEDULED_START_MAINTENANCE_ID_PREFIX_def)
  have listed: "listed_here nightly_sha LOCAL_RUNTIME_SCOPE i m" if "dict_get m MEMO_SCOPE_DIGEST = None" for i m
    using that by (simp add: listed_here_def owns_scope_def memo_of_def memo_string_value_def entity_memo_string_def)
  have ids: "sd_id old_nightly = old_id" "sd_id foreign_schedule = ''backup''" "''backup'' \<noteq> old_id" "old_id \<noteq> ''backup''"
    by (simp_all add: old_nightly_def foreign_schedule_def old_id_def)
  have memo: "dict_get (sd_memo old_nightly) MEMO_SCOPE_DIGEST = None" "dict_get (sd_memo foreign_schedule) MEMO_SCOPE_DIGEST = None"
    by (simp_all add: old_nightly_def foreign_schedule_def memo_keys)
  have entries: "observe_entry nightly_sha (dict_get nightly_world) (old_id, sd_memo old_nightly) = Inr old_observed"
      "observe_entry nightly_sha (dict_get nightly_world) (''backup'', sd_memo foreign_schedule) =
        Inr (bare_observation ''backup'' [] True)"
    using observe_entry_description [of "dict_get nightly_world" old_nightly nightly_sha]
      observe_entry_description [of "dict_get nightly_world" foreign_schedule nightly_sha]
    by (simp_all add: ids nightly_world_def old_observation foreign_observation)
  show ?thesis
    using entries
    by (simp add: observe_world_def observe_schedule_list_def nightly_world_def scanned listed memo ids bind_result_def
        dict_update_def old_fields)
qed

lemma foreign_unmanaged:
  "\<not> managed_schedule (bare_observation ''backup'' [] True)" "os_corrupt (bare_observation ''backup'' [] True) = []"
  by (simp_all add: managed_schedule_def memo_of_def entity_memo_string_def memo_string_value_def schedule_memo_def
      corrupt_memo_keys_def is_corrupt_def)

lemma nightly_changes:
  "schedule_changes MigrateUnscoped [(nightly_id, nightly)]
     [(old_id, old_observed), (''backup'', bare_observation ''backup'' [] True)] = [nightly_create, old_delete]"
proof -
  let ?bare = "bare_observation ''backup'' [] True" and ?desired = "[(nightly_id, nightly)]"
  let ?obs = "[(old_id, old_observed), (''backup'', ?bare)]"
  have differ: "nightly_id \<noteq> old_id" "nightly_id \<noteq> ''backup''" "old_id \<noteq> ''backup''"
    by (simp_all add: nightly_id_def old_id_def)
  have name: "de_name nightly = ''nightly''" by (simp add: nightly_def)
  have E: "effective_desired MigrateUnscoped ?obs ?desired = ?desired" by (simp add: effective_desired_def)
  have bare: "orphan_change MigrateUnscoped ?desired ?obs ''backup'' ?bare = None"
    using foreign_unmanaged by (simp add: orphan_change_def Let_def)
  have "unscoped_names ?obs = [''nightly'']"
    using foreign_unmanaged(1)
    by (simp add: unscoped_names_def List.map_filter_simps old_fields)
  then have old: "orphan_change MigrateUnscoped ?desired ?obs old_id old_observed = Some old_delete"
    using differ by (simp add: orphan_change_def Let_def E dict_has_def ambiguous_name_def old_delete_def old_fields
        name)
  have new: "desired_change ?obs nightly_id nightly = Some nightly_create"
    using differ by (simp add: desired_change_def Let_def nightly_create_def name)
  show ?thesis
    unfolding schedule_changes_def E
    using bare old new by (simp add: List.map_filter_simps nightly_create_def old_delete_def)
qed

definition nightly_plan :: schedule_plan where
  "nightly_plan = (let observed = [(old_id, old_observed), (''backup'', bare_observation ''backup'' [] True)]; desired = [(nightly_id, nightly)];
       changes = [nightly_create, old_delete]
     in \<lparr>hp_desired = desired, hp_observed = observed, hp_changes = changes,
          hp_digest = provenance_digest nightly_sha (\<lambda>_. []) (schedule_plan_json MigrateUnscoped desired observed changes),
          hp_decision = MigrateUnscoped\<rparr>)"

lemma nightly_planned:
  "reconciler_plan nightly_sha (\<lambda>_. []) LOCAL_RUNTIME_SCOPE 10 MigrateUnscoped [(nightly_id, nightly)] nightly_world = Inr nightly_plan"
proof -
  have "de_id nightly = nightly_id" by (simp add: nightly_def)
  then show ?thesis
    by (simp add: reconciler_plan_def nightly_observed bind_result_def plan_schedule_reconciliation_def Let_def nightly_changes
        nightly_plan_def effective_desired_def old_fields)
qed

section \<open>Applications\<close>

definition nightly_after :: temporal where
  "nightly_after = [(''backup'', foreign_schedule), (nightly_id, keep_schedule None nightly)]"

lemma nightly_world_facts:
  "nightly_id \<noteq> old_id" "old_id \<noteq> nightly_id" "nightly_id \<noteq> ''backup''" "''backup'' \<noteq> nightly_id" "old_id \<noteq> ''backup''"
  "''backup'' \<noteq> old_id" "de_id nightly = nightly_id" "world_ok nightly_world"
  by (simp_all add: nightly_id_def old_id_def nightly_def world_ok_def nightly_world_def old_nightly_def foreign_schedule_def)

lemma nightly_applied:
  "apply_plan nightly_sha keep_schedule nightly_plan (hp_digest nightly_plan) (\<lambda>_. (Answered, Answered)) nightly_world =
     Inr ([item_of nightly_create SchedApplied None, item_of old_delete SchedApplied None], nightly_after)"
  "apply_plan nightly_sha keep_schedule nightly_plan (hp_digest nightly_plan)
       (\<lambda>c. if c = nightly_create then (Dropped False, Answered) else (Answered, Answered)) nightly_world =
     Inr ([item_of nightly_create SchedFailed (Some ApplyUnavailable), item_of old_delete SchedApplied None],
       [(''backup'', foreign_schedule)])"
proof -
  let ?apply = "apply_change nightly_sha keep_schedule nightly_plan"
  have p: "hp_changes nightly_plan = [nightly_create, old_delete]" "dict_get (hp_desired nightly_plan) nightly_id = Some nightly"
      "dict_get (hp_observed nightly_plan) old_id = Some old_observed"
    by (simp_all add: nightly_plan_def Let_def)
  have kinds: "hc_kind nightly_create = CreateSchedule" "hc_id nightly_create = nightly_id" "hc_kind old_delete = DeleteSchedule"
      "hc_id old_delete = old_id" "old_delete \<noteq> nightly_create"
    by (simp_all add: nightly_create_def old_delete_def)
  have valid: "validate_apply nightly_plan (hp_digest nightly_plan) = Inr ()"
    by (simp add: validate_apply_def has_conflicts_def p kinds)
  have create: "?apply nightly_create (Answered, Answered) nightly_world =
      (item_of nightly_create SchedApplied None, nightly_world @ [(nightly_id, keep_schedule None nightly)])"
    by (simp add: apply_change_def change_call_def kinds p create_call_def nightly_world_def dict_has_def nightly_world_facts)
  have broken: "?apply nightly_create (Dropped False, Answered) nightly_world =
      (item_of nightly_create SchedFailed (Some ApplyUnavailable), nightly_world)"
    by (simp add: apply_change_def change_call_def kinds p create_call_def)
  have delete: "?apply old_delete (Answered, Answered) w = (item_of old_delete SchedApplied None, AList.delete old_id w)"
    if "dict_get w old_id = Some old_nightly" for w
    using that by (simp add: apply_change_def change_call_def kinds p check_delete_def delete_call_def old_observation old_fields
        dict_has_def Let_def)
  show "apply_plan nightly_sha keep_schedule nightly_plan (hp_digest nightly_plan) (\<lambda>_. (Answered, Answered)) nightly_world =
     Inr ([item_of nightly_create SchedApplied None, item_of old_delete SchedApplied None], nightly_after)"
    using create delete [of "nightly_world @ [(nightly_id, keep_schedule None nightly)]"]
    by (simp add: apply_plan_def valid bind_result_def p nightly_world_def nightly_after_def nightly_world_facts)
  show "apply_plan nightly_sha keep_schedule nightly_plan (hp_digest nightly_plan)
       (\<lambda>c. if c = nightly_create then (Dropped False, Answered) else (Answered, Answered)) nightly_world =
     Inr ([item_of nightly_create SchedFailed (Some ApplyUnavailable), item_of old_delete SchedApplied None],
       [(''backup'', foreign_schedule)])"
    using broken delete [of nightly_world]
    by (simp add: apply_plan_def valid bind_result_def p kinds nightly_world_def nightly_world_facts)
qed

lemma nightly_after_observed: "\<exists>obs. observe_world nightly_sha LOCAL_RUNTIME_SCOPE 10 nightly_after = Inr obs"
proof -
  obtain a where a: "observed_schedule_from_description nightly_sha (keep_schedule None nightly) = Inr a"
    using observed_created [OF keep_schedule_keeps, of nightly_sha LOCAL_RUNTIME_SCOPE nightly] nightly_desired
    by (auto simp: desired_for_def)
  have ids: "sd_id foreign_schedule = ''backup''" "sd_id (keep_schedule None nightly) = nightly_id"
    by (simp_all add: foreign_schedule_def keep_schedule_def nightly_world_facts)
  have entries: "observe_entry nightly_sha (dict_get nightly_after) (nightly_id, sd_memo (keep_schedule None nightly)) = Inr a"
      "observe_entry nightly_sha (dict_get nightly_after) (''backup'', sd_memo foreign_schedule) =
        Inr (bare_observation ''backup'' [] True)"
    using observe_entry_description [of "dict_get nightly_after" "keep_schedule None nightly" nightly_sha]
      observe_entry_description [of "dict_get nightly_after" foreign_schedule nightly_sha]
    by (simp_all add: ids nightly_after_def a foreign_observation nightly_world_facts)
  show ?thesis
    using entries
    by (auto simp: observe_world_def observe_schedule_list_def nightly_after_def bind_result_def)
qed

end
