(* ===== verification/JF_Occurrences.thy ===== *)
theory JF_Occurrences
  imports JF_Schedule_Trial JF_Controller JF_Outcomes
begin

text \<open>
  Around the reconciler of schedules: the binding through which an activation reconciles and observes schedules
  (\<open>runtime/configuration_activation.py\<close>), and the dispatch of an occurrence of a schedule
  (\<open>runtime/schedule_dispatch.py\<close>), which hands it to the starter of workflows.
\<close>

section \<open>The binding of activations\<close>

text \<open>\<open>ReconcilerScheduleActivationBinding\<close>: the scopes with a reconciler, by the digest of the scope.\<close>

definition index_reconcilers :: "(string \<Rightarrow> string) \<Rightarrow> runtime_scope list \<Rightarrow> unit + runtime_scope dict" where
  "index_reconcilers sha scopes =
     (let entries = map (\<lambda>sc. (scope_digest_of sha sc, sc)) scopes
      in if distinct (map fst entries) then Inr entries else Inl ())"

definition reconciler_for :: "(string \<Rightarrow> string) \<Rightarrow> runtime_scope dict \<Rightarrow> runtime_scope \<Rightarrow> bool" where
  "reconciler_for sha index sc \<longleftrightarrow> dict_get index (scope_digest_of sha sc) = Some sc"

definition schedule_observation_digest :: "(string \<Rightarrow> string) \<Rightarrow> (rat \<Rightarrow> string) \<Rightarrow> observed_schedule dict \<Rightarrow> string" where
  "schedule_observation_digest sha sf observed = provenance_digest sha sf (JObj
     [(''schedules'', JList (map (\<lambda>a. JObj
        [(''desired_digest'', option_json (os_digest a)), (''owner'', option_json (os_owner a)),
         (''schedule_id'', JStr (os_id a)), (''schedule_name'', option_json (os_name a)),
         (''scope_digest'', option_json (os_scope a))]) (sort_key os_id (map snd observed))))])"

definition binding_observe ::
    "(string \<Rightarrow> string) \<Rightarrow> (rat \<Rightarrow> string) \<Rightarrow> runtime_scope dict \<Rightarrow> runtime_scope \<Rightarrow>
     reconciliation_error + observed_schedule dict \<Rightarrow> string binding_reply" where
  "binding_observe sha sf index sc observed =
     (if \<not> reconciler_for sha index sc then Refused SchedulesUnavailable True
      else (case observed of Inl _ \<Rightarrow> Broke | Inr obs \<Rightarrow> Replied (schedule_observation_digest sha sf obs)))"

fun apply_status_name :: "apply_status \<Rightarrow> string" where
  "apply_status_name SchedApplied = ''applied''"
| "apply_status_name SchedAlreadyApplied = ''already_applied''"
| "apply_status_name SchedFailed = ''failed''"

definition applied_confirmation ::
    "(string \<Rightarrow> string) \<Rightarrow> (rat \<Rightarrow> string) \<Rightarrow> runtime_scope \<Rightarrow> schedule_plan \<Rightarrow> apply_item list \<Rightarrow> external_outcome \<times> string" where
  "applied_confirmation sha sf sc p items =
     (if \<forall>x \<in> set items. ai_status x = SchedAlreadyApplied then Idempotent else Confirmed,
      provenance_digest sha sf (JObj
        [(''items'', JList (map (\<lambda>x. JObj [(''change'', JStr (change_kind_name (ai_change x))), (''schedule_id'', JStr (ai_id x)),
            (''status'', JStr (apply_status_name (ai_status x)))]) items)),
         (''plan_digest'', JStr (hp_digest p)), (''scope_digest'', JStr (scope_digest_of sha sc))]))"

text \<open>\<open>reconcile\<close>, with the answers of Temporal to the calls of the application; the decision is the default.\<close>

definition binding_reconcile ::
    "(string \<Rightarrow> string) \<Rightarrow> (rat \<Rightarrow> string) \<Rightarrow> (schedule_description option \<Rightarrow> desired_schedule \<Rightarrow> schedule_description) \<Rightarrow>
     runtime_scope dict \<Rightarrow> nat \<Rightarrow> runtime_scope \<Rightarrow> desired_schedule dict \<Rightarrow> (schedule_change \<Rightarrow> call_reply \<times> call_reply) \<Rightarrow> temporal \<Rightarrow>
     (external_outcome \<times> string) binding_reply \<times> temporal" where
  "binding_reconcile sha sf kept index max_schedules sc desired replies w =
     (if \<not> reconciler_for sha index sc then (Refused SchedulesUnavailable True, w)
      else (case reconciler_plan sha sf sc max_schedules RequireExplicit desired w of
          Inl _ \<Rightarrow> (Broke, w)
        | Inr p \<Rightarrow>
            (case apply_plan sha kept p (hp_digest p) replies w of
               Inl _ \<Rightarrow> (Broke, w)
             | Inr (items, w') \<Rightarrow>
                 (if successful items then Replied (applied_confirmation sha sf sc p items)
                  else Refused SchedulesUnavailable True, w'))))"

lemma binding_reconcile_replied:
  assumes "binding_reconcile sha sf kept index max_schedules sc desired replies w = (Replied r, w')"
  obtains p items where "reconciler_for sha index sc"
    "reconciler_plan sha sf sc max_schedules RequireExplicit desired w = Inr p"
    "apply_plan sha kept p (hp_digest p) replies w = Inr (items, w')" "successful items"
  using assms
  by (auto simp: binding_reconcile_def split: if_splits sum.split_asm prod.split_asm)

text \<open>
  C28. A controller that stops after it has reconciled the schedules, and before it has saved that it did, does not
  change them again when it resumes: the stage finds nothing to do and saves its checkpoint.
\<close>

theorem resumed_reconciliation_changes_nothing:
  assumes "keeps_schedules kept" "world_ok w" "desired_for sha sc desired"
    and "binding_reconcile sha sf kept index max_schedules sc desired replies w = (Replied r, w')"
    and "observe_world sha sc max_schedules w' = Inr obs"
    and "pl_reconcile (ac_plan a)" "\<not> has_checkpoint a SchedulesReconciled" "ct_schedules ct"
  shows "\<exists>d. binding_reconcile sha sf kept index max_schedules sc desired replies' w' = (Replied (Idempotent, d), w') \<and>
    reconcile_schedules ct a (fst (binding_reconcile sha sf kept index max_schedules sc desired replies' w')) t =
      checkpoint_stage CatalogStage a SchedulesReconciled (Idempotent, d) t"
proof -
  obtain p items where p: "reconciler_for sha index sc" "reconciler_plan sha sf sc max_schedules RequireExplicit desired w = Inr p"
      "apply_plan sha kept p (hp_digest p) replies w = Inr (items, w')" "successful items"
    by (rule binding_reconcile_replied [OF assms(4)])
  obtain p' where p': "reconciler_plan sha sf sc max_schedules RequireExplicit desired w' = Inr p'" "hp_changes p' = []"
    using reconciliation_settles [OF assms(1-3) p(2-4) assms(5)] by blast
  have "apply_plan sha kept p' (hp_digest p') replies' w' = Inr ([], w')"
    by (simp add: apply_plan_def validate_apply_def has_conflicts_def p'(2) bind_result_def)
  then have "binding_reconcile sha sf kept index max_schedules sc desired replies' w' =
      (Replied (Idempotent, snd (applied_confirmation sha sf sc p' [])), w')"
    using p(1) p'(1) by (simp add: binding_reconcile_def successful_def applied_confirmation_def)
  then show ?thesis using assms(6-8) by (simp add: reconcile_schedules_def binding_result_def)
qed

section \<open>The dispatch of an occurrence\<close>

text \<open>
  What the dispatch finds in the catalogue: the manifest of a definition, and the environment snapshot that its
  target names, of which it compares these fields.
\<close>

record environment_snapshot =
  es_digest :: string
  es_definition :: string
  es_artifact :: worker_artifact
  es_configuration :: "execution_configuration option"

record schedule_dispatcher =
  di_manifest :: "string \<Rightarrow> string \<Rightarrow> start_manifest option"
  di_snapshot :: "string \<Rightarrow> environment_snapshot option"
  di_scope :: runtime_scope
  di_input_bytes :: nat

datatype dispatch_error = DispatchInvalidInput | TargetUnavailable | StartRejected bool | DispatchBroke

text \<open>\<open>_resolve_target\<close>.\<close>

definition resolve_schedule_target :: "(string \<Rightarrow> string) \<Rightarrow> schedule_dispatcher \<Rightarrow> schedule_target \<Rightarrow> start_target option" where
  "resolve_schedule_target sha di t =
     (if \<not> owns_scope sha LOCAL_ONLY (si_scope t) (di_scope di) then None
      else (case (di_manifest di (si_workflow t) (si_definition t), di_snapshot di (si_environment t)) of
          (Some m, Some es) \<Rightarrow>
            if es_definition es \<noteq> mf_definition_digest m \<or> es_artifact es \<noteq> si_artifact t \<or>
               es_configuration es \<noteq> si_configuration t
            then None
            else Some \<lparr>tg_manifest = m, tg_deployment = \<lparr>wd_artifact = si_artifact t, wd_abis = [mf_abi m]\<rparr>,
              tg_environment_digest = es_digest es, tg_scope_digest = si_scope t, tg_configuration = si_configuration t\<rparr>
        | _ \<Rightarrow> None))"

text \<open>\<open>TrustedScopeBinding.create\<close>: pydantic bounds the identity of the binding, and raises beyond the bound.\<close>

definition create_binding :: "binding_kind \<Rightarrow> runtime_scope \<Rightarrow> string \<Rightarrow> scope_binding option" where
  "create_binding kind sc i =
     (if 1 \<le> length i \<and> length i \<le> MAX_SCOPE_COMPONENT_LENGTH
      then Some \<lparr>sb_kind = kind, sb_scope = sc, sb_binding_id = i\<rparr> else None)"

definition occurrence_request :: "schedule_dispatch_plan \<Rightarrow> string \<Rightarrow> start_request" where
  "occurrence_request p occurrence =
     default_correlation_identity \<lparr>rq_workflow = si_workflow (sp_target p), rq_business_id = occurrence,
       rq_input = of_json (JObj (sp_input p)), rq_source = ScheduleSource (sp_name p) occurrence,
       rq_definition_digest = Some (si_definition (sp_target p)), rq_correlation_id = None\<rparr>"

text \<open>\<open>start_scheduled_workflow\<close>; what is sent to the activity has the plan in its JSON form.\<close>

definition start_scheduled_workflow ::
    "starter \<Rightarrow> schedule_dispatcher \<Rightarrow> schedule_dispatch_plan \<Rightarrow> string \<Rightarrow> temporal_view \<Rightarrow> dispatch_error + start_result" where
  "start_scheduled_workflow ws di p occurrence tv =
     (if \<not> is_ok (enforce_payload_bytes (ws_bytes ws (JObj [(''plan'', dispatch_plan_json p), (''occurrence_id'', JStr occurrence)]))
           ''schedule.dispatch.activity_input'' (di_input_bytes di)) \<or> \<not> valid_dispatch_plan p \<or> occurrence = []
      then Inl TargetUnavailable
      else (case resolve_schedule_target (ws_sha ws) di (sp_target p) of
          None \<Rightarrow> Inl TargetUnavailable
        | Some t \<Rightarrow>
            (case create_binding BindSchedule (di_scope di) (sp_name p) of
               None \<Rightarrow> Inl DispatchBroke
             | Some b \<Rightarrow>
                 (case start_resolved ws (occurrence_request p occurrence) t (sp_name p) b tv of
                    Inl (StartFailure _ retryable _) \<Rightarrow> Inl (StartRejected retryable)
                  | Inl StartBroke \<Rightarrow> Inl DispatchBroke
                  | Inr r \<Rightarrow> Inr r))))"

text \<open>
  The retries of the activity: an attempt for each view of Temporal, as long as the failure can be retried and
  attempts are left. A rejection that is retryable is retried, and so is an exception of another kind.
\<close>

definition retried_dispatch :: "dispatch_error \<Rightarrow> bool" where
  "retried_dispatch e \<longleftrightarrow> (case e of StartRejected retryable \<Rightarrow> retryable | DispatchBroke \<Rightarrow> True | _ \<Rightarrow> False)"

fun dispatch_attempts ::
    "starter \<Rightarrow> schedule_dispatcher \<Rightarrow> schedule_dispatch_plan \<Rightarrow> string \<Rightarrow> nat \<Rightarrow> (nat \<Rightarrow> temporal_view) \<Rightarrow> nat \<Rightarrow>
     dispatch_error + start_result" where
  "dispatch_attempts ws di p occurrence 0 views k = Inl DispatchBroke"
| "dispatch_attempts ws di p occurrence (Suc left) views k =
     (case start_scheduled_workflow ws di p occurrence (views k) of
        Inr r \<Rightarrow> Inr r
      | Inl e \<Rightarrow> if retried_dispatch e \<and> left \<noteq> 0 then dispatch_attempts ws di p occurrence left views (Suc k) else Inl e)"

text \<open>The dispatch workflow, under the identity that Temporal gave it for the occurrence.\<close>

definition dispatch_occurrence ::
    "starter \<Rightarrow> schedule_dispatcher \<Rightarrow> nat \<Rightarrow> schedule_dispatch_plan \<Rightarrow> string \<Rightarrow> (nat \<Rightarrow> temporal_view) \<Rightarrow>
     dispatch_error + start_result" where
  "dispatch_occurrence ws di input_bytes p dispatch_id views =
     (if \<not> is_ok (enforce_payload_bytes (ws_bytes ws (dispatch_plan_json p)) ''schedule.dispatch.input'' input_bytes) \<or>
         \<not> valid_dispatch_plan p
      then Inl DispatchInvalidInput
      else (case make_schedule_occurrence_id (ws_sha ws) (sp_name p) dispatch_id (si_scope (sp_target p)) of
          Inl _ \<Rightarrow> Inl DispatchBroke
        | Inr occurrence \<Rightarrow> dispatch_attempts ws di p occurrence (nat (sp_attempts p)) views 0))"

lemma start_resolved_identity:
  assumes "start_resolved ws rq t trigger b tv = Inr r"
  shows "make_workflow_id (ws_sha ws) (rq_workflow rq) (rq_business_id rq) (Some (sb_scope b)) = Inr (sw_workflow_id r)"
    and "sw_scope_digest r = scope_digest_of (ws_sha ws) (sb_scope b)"
    and "sw_status r = RunStarted \<Longrightarrow> sw_definition_digest r = mf_definition_digest (tg_manifest t) \<and>
      sw_artifact r = wd_artifact (tg_deployment t) \<and> sw_environment_digest r = tg_environment_digest t \<and>
      sw_configuration r = tg_configuration t \<and> sw_trigger r = trigger"
    and "rq_definition_digest rq \<in> {None, Some (mf_definition_digest (tg_manifest t))}"
proof -
  obtain workflow_id where parts:
      "make_workflow_id (ws_sha ws) (rq_workflow rq) (rq_business_id rq) (Some (sb_scope b)) = Inr workflow_id"
      "start_outcome ws rq (sb_scope b) t trigger workflow_id tv = Inr r"
      "validate_resolved_target (ws_sha ws) (sb_scope b) rq t = Inr ()"
    using assms
    by (cases "make_workflow_id (ws_sha ws) (rq_workflow rq) (rq_business_id rq) (Some (sb_scope b))")
      (auto simp: start_resolved_def run_start_def bound_scope_def require_bound_scope_def bind_result_eq_Inr split: if_splits)
  then show "make_workflow_id (ws_sha ws) (rq_workflow rq) (rq_business_id rq) (Some (sb_scope b)) = Inr (sw_workflow_id r)"
    "sw_scope_digest r = scope_digest_of (ws_sha ws) (sb_scope b)"
    using start_outcome_scope by fastforce+
  show "sw_status r = RunStarted \<Longrightarrow> sw_definition_digest r = mf_definition_digest (tg_manifest t) \<and>
      sw_artifact r = wd_artifact (tg_deployment t) \<and> sw_environment_digest r = tg_environment_digest t \<and>
      sw_configuration r = tg_configuration t \<and> sw_trigger r = trigger"
    using start_outcome_started [OF parts(2)] by (auto simp: new_result_def)
  show "rq_definition_digest rq \<in> {None, Some (mf_definition_digest (tg_manifest t))}"
    using parts(3) by (auto simp: validate_resolved_target_def Let_def split: if_splits)
qed

lemma dispatch_attempts_started:
  assumes "dispatch_attempts ws di p occurrence attempts views k = Inr r"
  obtains j where "start_scheduled_workflow ws di p occurrence (views j) = Inr r"
  using assms by (induction attempts arbitrary: k) (auto split: sum.split_asm if_splits)

section \<open>What an occurrence runs\<close>

definition dumped :: "json option \<Rightarrow> json" where
  "dumped v = (case v of None \<Rightarrow> JNull | Some j \<Rightarrow> j)"

lemma dump_option_cons: "dump_option True k v = [(k, dumped v)]"
  by (simp add: dump_option_def dumped_def split: option.split)

lemma dumped_text_inject: "dumped (map_option JStr v) = dumped (map_option JStr v') \<longleftrightarrow> v = v'"
  by (auto simp: dumped_def split: option.split)

lemma configuration_json_inject: "configuration_json True c = configuration_json True c' \<longleftrightarrow> c = c'"
  by (cases c; cases c') (auto simp: configuration_json_def dump_option_cons dumped_text_inject)

lemma artifact_json_inject: "schedule_artifact_json True a = schedule_artifact_json True a' \<longleftrightarrow> a = a'"
  by (cases a; cases a') (auto simp: schedule_artifact_json_def dump_option_cons dumped_text_inject)

lemma dumped_configuration_inject:
  "dumped (map_option (configuration_json True) v) = dumped (map_option (configuration_json True) v') \<longleftrightarrow> v = v'"
proof -
  have an_object: "configuration_json True c \<noteq> JNull" "JNull \<noteq> configuration_json True c" for c
    by (simp_all add: configuration_json_def)
  show ?thesis by (cases v; cases v') (simp_all add: dumped_def configuration_json_inject an_object)
qed

lemma target_json_inject: "target_json True t = target_json True t' \<longleftrightarrow> t = t'"
  by (cases t; cases t')
    (auto simp: target_json_def dump_option_cons dumped_text_inject artifact_json_inject dumped_configuration_inject)

text \<open>The JSON form of a plan, which is what the schedule keeps, tells the plan.\<close>

lemma dispatch_plan_json_inject: "dispatch_plan_json p = dispatch_plan_json p' \<longleftrightarrow> p = p'"
  by (cases p; cases p') (auto simp: dispatch_plan_json_def target_json_inject)

lemma compiled_action:
  assumes "compile_schedule ws name decl t task_queue dispatch_queue sc timeout attempts = Inr d"
  shows "\<exists>p. valid_dispatch_plan p \<and> th_argument (de_schedule d) = dispatch_plan_json p \<and> sp_name p = name \<and> sp_target p = target_of (ws_sha ws) t sc \<and>
    sx_workflow decl = mf_logical_name (tg_manifest t)"
  using assms by (force simp: compile_schedule_def Let_def bind_result_eq_Inr split: if_splits)


lemma dispatch_started:
  assumes "dispatch_occurrence ws di input_bytes p dispatch_id views = Inr r"
  obtains occurrence t b tv where
    "make_schedule_occurrence_id (ws_sha ws) (sp_name p) dispatch_id (si_scope (sp_target p)) = Inr occurrence"
    "resolve_schedule_target (ws_sha ws) di (sp_target p) = Some t" "length (sp_name p) \<le> MAX_SCOPE_COMPONENT_LENGTH"
    "b = \<lparr>sb_kind = BindSchedule, sb_scope = di_scope di, sb_binding_id = sp_name p\<rparr>"
    "start_resolved ws (occurrence_request p occurrence) t (sp_name p) b tv = Inr r"
proof -
  obtain occurrence where occurrence: "make_schedule_occurrence_id (ws_sha ws) (sp_name p) dispatch_id (si_scope (sp_target p)) = Inr occurrence"
      "dispatch_attempts ws di p occurrence (nat (sp_attempts p)) views 0 = Inr r"
    using assms by (auto simp: dispatch_occurrence_def split: if_splits sum.split_asm)
  obtain j where "start_scheduled_workflow ws di p occurrence (views j) = Inr r"
    by (rule dispatch_attempts_started [OF occurrence(2)])
  then show thesis
    using occurrence(1) that
    by (auto simp: start_scheduled_workflow_def create_binding_def
        split: if_splits option.split_asm sum.split_asm start_exn.split_asm)
qed

text \<open>
  C29. A run that an occurrence of a schedule starts is of what the schedule was compiled from, in the scope it was
  compiled for, however long ago that was: of its definition, artifact and configuration, under its name as the
  trigger. Its workflow identity is a function of the schedule and of the identity that Temporal gave the dispatch
  of the occurrence, so that the retries of an occurrence are starts of the same workflow.
\<close>

theorem occurrence_runs_compiled_target:
  assumes "compile_schedule ws0 name decl t task_queue dispatch_queue sc timeout attempts = Inr d"
    and "th_argument (de_schedule d) = dispatch_plan_json p"
    and "dispatch_occurrence ws di input_bytes p dispatch_id views = Inr r"
  shows "\<exists>occurrence. make_schedule_occurrence_id (ws_sha ws) name dispatch_id (Some (scope_digest_of (ws_sha ws0) sc)) = Inr occurrence \<and>
      make_workflow_id (ws_sha ws) (mf_logical_name (tg_manifest t)) occurrence (Some (di_scope di)) = Inr (sw_workflow_id r) \<and>
      sw_scope_digest r = scope_digest_of (ws_sha ws0) sc \<and>
      (sw_status r = RunStarted \<longrightarrow> sw_definition_digest r = mf_definition_digest (tg_manifest t) \<and>
        sw_artifact r = wd_artifact (tg_deployment t) \<and> sw_configuration r = tg_configuration t \<and> sw_trigger r = name)"
proof -
  have p: "sp_name p = name" "sp_target p = target_of (ws_sha ws0) t sc"
    using compiled_action [OF assms(1)] assms(2) dispatch_plan_json_inject by auto
  obtain occurrence t' b tv where o':
      "make_schedule_occurrence_id (ws_sha ws) (sp_name p) dispatch_id (si_scope (sp_target p)) = Inr occurrence"
      "resolve_schedule_target (ws_sha ws) di (sp_target p) = Some t'"
      "b = \<lparr>sb_kind = BindSchedule, sb_scope = di_scope di, sb_binding_id = sp_name p\<rparr>"
      "start_resolved ws (occurrence_request p occurrence) t' (sp_name p) b tv = Inr r"
    using dispatch_started [OF assms(3)] by metis
  note started = start_resolved_identity [OF o'(4)]
  have rq: "rq_workflow (occurrence_request p occurrence) = mf_logical_name (tg_manifest t)"
      "rq_business_id (occurrence_request p occurrence) = occurrence"
      "rq_definition_digest (occurrence_request p occurrence) = Some (mf_definition_digest (tg_manifest t))"
    by (simp_all add: occurrence_request_def default_correlation_identity_def p target_of_def)
  have target: "wd_artifact (tg_deployment t') = wd_artifact (tg_deployment t)" "tg_configuration t' = tg_configuration t"
      "owns_scope (ws_sha ws) LOCAL_ONLY (Some (scope_digest_of (ws_sha ws0) sc)) (di_scope di)"
    using o'(2) by (auto simp: resolve_schedule_target_def p target_of_def split: if_splits option.split_asm)
  have scope: "scope_digest_of (ws_sha ws) (di_scope di) = scope_digest_of (ws_sha ws0) sc"
    using target(3) by (auto simp: owns_scope_def)
  show ?thesis
    using started o'(1,3) rq target(1,2) scope p(1)
    by (intro exI [of _ occurrence]) (auto simp: p target_of_def)
qed

text \<open>
  C32. The identity of a binding is bounded more narrowly than the name of a trigger: the occurrences of a schedule with
  a longer name never start, though it compiles and is created.
\<close>

theorem long_schedule_names_never_start:
  assumes "MAX_SCOPE_COMPONENT_LENGTH < length (sp_name p)"
  shows "\<exists>e. dispatch_occurrence ws di input_bytes p dispatch_id views = Inl e"
proof (cases "dispatch_occurrence ws di input_bytes p dispatch_id views")
  case (Inr r)
  then show ?thesis using dispatch_started assms by (metis not_le)
qed simp

end
