(* ===== verification/JF_Dispatched.thy ===== *)
theory JF_Dispatched
  imports JF_Occurrences JF_Applied
begin

text \<open>
  The properties of the dispatch of occurrences, and of the binding of activations to the reconciler, on concrete
  schedules.
\<close>

section \<open>An occurrence\<close>

definition demo_declaration :: schedule_declaration where
  "demo_declaration = \<lparr>sx_workflow = ''order'', sx_paused = False, sx_definition_digest = None, sx_input = [],
     sx_spec = CronSpec [''0 2 * * *''], sx_timezone = ''UTC'', sx_overlap = SkipOverlap, sx_catch_up = 60,
     sx_backfill = \<lparr>bf_enabled = False, bf_window = 3600, bf_actions = 10\<rparr>\<rparr>"

definition demo_compiled :: "string \<Rightarrow> schedule_error + desired_schedule" where
  "demo_compiled name = compile_schedule demo_starter name demo_declaration demo_target ''q'' None LOCAL_RUNTIME_SCOPE 30 3"

definition demo_plan :: "string \<Rightarrow> schedule_dispatch_plan" where
  "demo_plan name = \<lparr>sp_name = name, sp_target = target_of (ws_sha demo_starter) demo_target LOCAL_RUNTIME_SCOPE, sp_input = [],
     sp_timeout = 30, sp_attempts = 3\<rparr>"

definition demo_dispatcher :: schedule_dispatcher where
  "demo_dispatcher = \<lparr>di_manifest = (\<lambda>_ _. Some (tg_manifest demo_target)),
     di_snapshot = (\<lambda>_. Some \<lparr>es_digest = demo_digest, es_definition = demo_digest, es_artifact = demo_artifact,
       es_configuration = None\<rparr>),
     di_scope = LOCAL_RUNTIME_SCOPE, di_input_bytes = 1000\<rparr>"

definition long_name :: string where "long_name = replicate 65 CHR ''n''"

lemma demo_identity:
  assumes "is_identity_kind kind"
  shows "scoped_identity_from_digest (ws_sha demo_starter) kind demo_digest parts = Inr (identity_prefix kind demo_digest @ demo_digest)"
  using assms demo_digest_ok(3)
  by (simp add: scoped_identity_from_digest_def validate_scope_digest_def guard_result_def bind_result_def demo_starter_def)

lemma demo_scope_digest: "scope_digest_of (ws_sha demo_starter) sc = demo_digest"
  by (simp add: scope_digest_of_def demo_starter_def)

lemma demo_input: "validate_start_input demo_starter (of_json (JObj [])) demo_target = Inr []"
  by code_simp

lemma demo_named: "mf_logical_name (tg_manifest demo_target) = ''order''" by (simp add: demo_target_def)

lemma demo_names: "is_name ''nightly''" "is_name long_name" by code_simp+

lemma demo_artifact_ok: "valid_artifact demo_artifact"
  using demo_run_ok by (simp add: valid_run_def demo_run_def)

lemma is_name_order: "is_name ''order''" by code_simp

lemma demo_plan_ok: "is_name name \<Longrightarrow> valid_dispatch_plan (demo_plan name)"
  using demo_digest_ok
  by (simp add: valid_dispatch_plan_def demo_plan_def valid_schedule_target_def target_of_def demo_scope_digest)
    (simp add: demo_target_def demo_artifact_ok is_name_order)

lemma demo_compiles:
  assumes "is_name name"
  shows "\<exists>d. demo_compiled name = Inr d \<and> th_argument (de_schedule d) = dispatch_plan_json (demo_plan name)"
  using demo_plan_ok [OF assms]
  by (simp add: demo_compiled_def compile_schedule_def Let_def demo_declaration_def demo_input [simplified] demo_plan_def demo_named
      bind_result_def make_recurring_schedule_id_def make_schedule_dispatch_workflow_id_def scoped_identity_def demo_scope_digest
      demo_identity schedule_kinds)

lemma occurrence_kind: "is_identity_kind ''schedule-occurrence''"
  by code_simp

definition demo_occurrence :: string where
  "demo_occurrence = identity_prefix ''schedule-occurrence'' demo_digest @ demo_digest"

definition demo_schedule_binding :: scope_binding where
  "demo_schedule_binding = \<lparr>sb_kind = BindSchedule, sb_scope = LOCAL_RUNTIME_SCOPE, sb_binding_id = ''nightly''\<rparr>"

lemma demo_occurrence_start:
  "start_resolved demo_starter (occurrence_request (demo_plan ''nightly'') demo_occurrence) demo_target ''nightly''
     demo_schedule_binding demo_new =
   Inr (new_result demo_starter (occurrence_request (demo_plan ''nightly'') demo_occurrence) LOCAL_RUNTIME_SCOPE demo_target
     ''nightly'' (identity_prefix ''workflow'' demo_digest @ demo_digest) ''run'')"
  by (code_simp, simp add: scope_digest_of_def)

lemma demo_dispatched:
  "\<exists>r. dispatch_occurrence demo_starter demo_dispatcher 1000 (demo_plan ''nightly'') ''d-1'' (\<lambda>_. demo_new) = Inr r \<and>
     sw_status r = RunStarted"
proof -
  let ?p = "demo_plan ''nightly''"
  have fits: "is_ok (enforce_payload_bytes (ws_bytes demo_starter j) boundary 1000)" for j boundary
    by (simp add: demo_starter_def enforce_payload_bytes_def enforce_limit_def)
  have occurrence: "make_schedule_occurrence_id (ws_sha demo_starter) (sp_name ?p) ''d-1'' (si_scope (sp_target ?p)) =
      Inr demo_occurrence"
    by (simp add: make_schedule_occurrence_id_def demo_plan_def target_of_def demo_scope_digest demo_identity occurrence_kind
        demo_occurrence_def)
  have target: "resolve_schedule_target (ws_sha demo_starter) demo_dispatcher (sp_target ?p) = Some demo_target"
    by (simp add: resolve_schedule_target_def demo_plan_def target_of_def demo_dispatcher_def owns_scope_def demo_scope_digest
        demo_target_def)
  have parts: "di_input_bytes demo_dispatcher = 1000" "sp_name ?p = ''nightly''" "demo_occurrence \<noteq> []"
      "create_binding BindSchedule (di_scope demo_dispatcher) ''nightly'' = Some demo_schedule_binding"
    by (simp_all add: demo_dispatcher_def demo_plan_def demo_occurrence_def demo_digest_def create_binding_def
        MAX_SCOPE_COMPONENT_LENGTH_def demo_schedule_binding_def)
  let ?r = "new_result demo_starter (occurrence_request ?p demo_occurrence) LOCAL_RUNTIME_SCOPE demo_target
     ''nightly'' (identity_prefix ''workflow'' demo_digest @ demo_digest) ''run''"
  have start: "start_scheduled_workflow demo_starter demo_dispatcher ?p demo_occurrence demo_new = Inr ?r"
    unfolding start_scheduled_workflow_def target
    by (simp add: fits parts demo_plan_ok demo_names demo_occurrence_start)
  have "nat (sp_attempts ?p) = Suc 2" by (simp add: demo_plan_def)
  then obtain n where "nat (sp_attempts ?p) = Suc n" by blast
  then have "dispatch_occurrence demo_starter demo_dispatcher 1000 ?p ''d-1'' (\<lambda>_. demo_new) = Inr ?r"
    unfolding dispatch_occurrence_def occurrence by (simp add: fits demo_plan_ok demo_names start)
  then show ?thesis by (simp add: new_result_def)
qed


theorem occurrence_runs_compiled_target_witness:
  "\<exists>d r. demo_compiled ''nightly'' = Inr d \<and>
     dispatch_occurrence demo_starter demo_dispatcher 1000 (demo_plan ''nightly'') ''d-1'' (\<lambda>_. demo_new) = Inr r \<and>
     sw_definition_digest r = demo_digest \<and> sw_artifact r = demo_artifact \<and> sw_trigger r = ''nightly''"
proof -
  obtain d where d: "compile_schedule demo_starter ''nightly'' demo_declaration demo_target ''q'' None LOCAL_RUNTIME_SCOPE 30 3 = Inr d"
      "th_argument (de_schedule d) = dispatch_plan_json (demo_plan ''nightly'')"
    using demo_compiles [OF demo_names(1)] by (auto simp: demo_compiled_def)
  obtain r where r: "dispatch_occurrence demo_starter demo_dispatcher 1000 (demo_plan ''nightly'') ''d-1'' (\<lambda>_. demo_new) = Inr r"
      "sw_status r = RunStarted"
    using demo_dispatched by blast
  show ?thesis
    using occurrence_runs_compiled_target [OF d r(1)] d(1) r by (auto simp: demo_compiled_def demo_target_def)
qed

theorem long_schedule_names_never_start_witness:
  "\<exists>d e. demo_compiled long_name = Inr d \<and> th_argument (de_schedule d) = dispatch_plan_json (demo_plan long_name) \<and>
     dispatch_occurrence demo_starter demo_dispatcher 1000 (demo_plan long_name) ''d-1'' (\<lambda>_. demo_new) = Inl e"
proof -
  have "MAX_SCOPE_COMPONENT_LENGTH < length (sp_name (demo_plan long_name))"
    by (simp add: MAX_SCOPE_COMPONENT_LENGTH_def demo_plan_def long_name_def)
  from long_schedule_names_never_start [OF this] demo_compiles [OF demo_names(2)] show ?thesis by blast
qed

section \<open>Reconciliations\<close>

theorem reconciliation_converges_witness:
  "\<exists>p'. reconciler_plan nightly_sha (\<lambda>_. []) LOCAL_RUNTIME_SCOPE 10 MigrateUnscoped [(nightly_id, nightly)] nightly_after = Inr p' \<and>
     hp_changes p' = [] \<and> hp_desired p' = hp_desired nightly_plan"
proof -
  obtain obs where obs: "observe_world nightly_sha LOCAL_RUNTIME_SCOPE 10 nightly_after = Inr obs"
    using nightly_after_observed by blast
  have "successful [item_of nightly_create SchedApplied None, item_of old_delete SchedApplied None]"
    by (simp add: successful_def item_of_def)
  from reconciliation_converges [OF keep_schedule_keeps nightly_world_facts(8) nightly_desired nightly_planned nightly_applied(1)
      this obs]
  show ?thesis .
qed

theorem schedules_of_others_stay_witness: "dict_get nightly_after ''backup'' = Some foreign_schedule"
proof (rule schedules_of_others_stay [OF nightly_planned nightly_world_facts(8) nightly_desired keep_schedule_keeps nightly_applied(1)])
  show "dict_get nightly_world ''backup'' = Some foreign_schedule"
    by (simp add: nightly_world_def nightly_world_facts)
  show "\<not> managed_here nightly_sha LOCAL_RUNTIME_SCOPE MigrateUnscoped foreign_schedule"
    by (simp add: managed_here_def foreign_observation valid_managed_identity_def managed_schedule_def memo_of_def
        entity_memo_string_def memo_string_value_def)
qed

text \<open>
  The changes of a plan are ordered so that a schedule is created before the one it replaces is deleted; but a
  change is made also after one before it has failed. When a migration to scopes cannot create a schedule, it
  still deletes the unscoped one: until the next application, nothing is scheduled.
\<close>

theorem failed_migration_leaves_nothing:
  "\<exists>items w'. reconciler_plan nightly_sha (\<lambda>_. []) LOCAL_RUNTIME_SCOPE 10 MigrateUnscoped [(nightly_id, nightly)] nightly_world =
       Inr nightly_plan \<and>
     apply_plan nightly_sha keep_schedule nightly_plan (hp_digest nightly_plan)
       (\<lambda>c. if c = nightly_create then (Dropped False, Answered) else (Answered, Answered)) nightly_world = Inr (items, w') \<and>
     \<not> successful items \<and> dict_get nightly_world old_id = Some old_nightly \<and> dict_get w' old_id = None \<and> dict_get w' nightly_id = None"
  using nightly_planned nightly_applied(2)
  by (simp add: successful_def item_of_def nightly_world_def nightly_world_facts)

text \<open>The schedule alone, for an activation.\<close>

definition fresh_world :: temporal where
  "fresh_world = [(''backup'', foreign_schedule)]"

definition fresh_plan :: schedule_plan where
  "fresh_plan = nightly_plan\<lparr>hp_observed := [(''backup'', bare_observation ''backup'' [] True)], hp_changes := [nightly_create],
     hp_digest := provenance_digest nightly_sha (\<lambda>_. []) (schedule_plan_json RequireExplicit [(nightly_id, nightly)]
       [(''backup'', bare_observation ''backup'' [] True)] [nightly_create]), hp_decision := RequireExplicit\<rparr>"

lemma fresh_world_ok: "world_ok fresh_world"
  by (simp add: world_ok_def fresh_world_def foreign_schedule_def)

lemma fresh_planned:
  "reconciler_plan nightly_sha (\<lambda>_. []) LOCAL_RUNTIME_SCOPE 10 RequireExplicit [(nightly_id, nightly)] fresh_world = Inr fresh_plan"
proof -
  let ?bare = "bare_observation ''backup'' [] True"
  have "scanned_entry (''backup'', m)" for m
    by (simp add: scanned_entry_def starts_with_def SCHEDULED_START_SCHEDULE_ID_PREFIX_def SCHEDULED_START_MAINTENANCE_ID_PREFIX_def)
  moreover have "listed_here nightly_sha LOCAL_RUNTIME_SCOPE ''backup'' []"
    by (simp add: listed_here_def owns_scope_def memo_of_def memo_string_value_def entity_memo_string_def)
  moreover have "observe_entry nightly_sha (dict_get fresh_world) (''backup'', []) = Inr ?bare"
    using observe_entry_description [of "dict_get fresh_world" foreign_schedule nightly_sha] foreign_observation
    by (simp add: fresh_world_def foreign_schedule_def)
  ultimately have obs: "observe_world nightly_sha LOCAL_RUNTIME_SCOPE 10 fresh_world = Inr [(''backup'', ?bare)]"
    by (simp add: observe_world_def observe_schedule_list_def fresh_world_def foreign_schedule_def bind_result_def dict_update_def)
  have new: "desired_change [(''backup'', ?bare)] nightly_id nightly = Some nightly_create"
    using nightly_world_facts by (simp add: desired_change_def Let_def nightly_create_def nightly_def)
  have bare: "orphan_change RequireExplicit [(nightly_id, nightly)] [(''backup'', ?bare)] ''backup'' ?bare = None"
    using foreign_unmanaged by (simp add: orphan_change_def Let_def)
  have E: "effective_desired RequireExplicit [(''backup'', ?bare)] [(nightly_id, nightly)] = [(nightly_id, nightly)]"
    by (simp add: effective_desired_def)
  have "schedule_changes RequireExplicit [(nightly_id, nightly)] [(''backup'', ?bare)] = [nightly_create]"
    unfolding schedule_changes_def E using new bare by (simp add: List.map_filter_simps nightly_create_def)
  then show ?thesis
    by (simp add: reconciler_plan_def obs bind_result_def plan_schedule_reconciliation_def E nightly_world_facts fresh_plan_def
        nightly_plan_def Let_def)
qed

lemma fresh_applied:
  "apply_plan nightly_sha keep_schedule fresh_plan (hp_digest fresh_plan) (\<lambda>_. (Answered, Answered)) fresh_world =
     Inr ([item_of nightly_create SchedApplied None], nightly_after)"
  by (simp add: apply_plan_def validate_apply_def has_conflicts_def fresh_plan_def nightly_plan_def nightly_create_def bind_result_def
      apply_change_def change_call_def create_call_def fresh_world_def nightly_after_def dict_has_def nightly_world_facts Let_def)

theorem resumed_reconciliation_changes_nothing_witness:
  "\<exists>d. reconcile_schedules (trial_controllers 0) trial_activation
       (fst (binding_reconcile nightly_sha (\<lambda>_. []) keep_schedule [(nightly_digest, LOCAL_RUNTIME_SCOPE)] 10 LOCAL_RUNTIME_SCOPE
         [(nightly_id, nightly)] (\<lambda>_. (Dropped True, Dropped True)) nightly_after)) 2000 =
     checkpoint_stage CatalogStage trial_activation SchedulesReconciled (Idempotent, d) 2000"
proof -
  obtain obs where obs: "observe_world nightly_sha LOCAL_RUNTIME_SCOPE 10 nightly_after = Inr obs"
    using nightly_after_observed by blast
  have "reconciler_for nightly_sha [(nightly_digest, LOCAL_RUNTIME_SCOPE)] LOCAL_RUNTIME_SCOPE"
    by (simp add: reconciler_for_def scope_digest_of_def nightly_sha_def)
  then obtain r where "binding_reconcile nightly_sha (\<lambda>_. []) keep_schedule [(nightly_digest, LOCAL_RUNTIME_SCOPE)] 10
      LOCAL_RUNTIME_SCOPE [(nightly_id, nightly)] (\<lambda>_. (Answered, Answered)) fresh_world = (Replied r, nightly_after)"
    by (simp add: binding_reconcile_def fresh_planned fresh_applied successful_def item_of_def)
  from resumed_reconciliation_changes_nothing [OF keep_schedule_keeps fresh_world_ok nightly_desired this obs, of trial_activation
      "trial_controllers 0" "\<lambda>_. (Dropped True, Dropped True)" 2000]
  show ?thesis
    by (auto simp: trial_activation_def trial_plan_def has_checkpoint_def trial_controllers_def checkpoint_kinds_def)
qed

end
