(* ===== verification/JF_Messages.thy ===== *)
theory JF_Messages
  imports JF_Run JF_Scope
begin

text \<open>
  The messages a compiled workflow is sent (\<open>PendingMessages\<close> and the two signal handlers of
  \<open>engine/compiler.py\<close>, \<open>SignalPayload\<close> and \<open>EventPayload\<close> of \<open>sdk/message_contract.py\<close>): a queue of
  responses for each signal key, a queue of payloads for each event, the limits on both, the queues a run
  inherits from the one it continues, and the handlers with what each of them raises.

  The interface of the queues is the locale \<open>keyed_queues\<close>, interpreted on the responses and on the
  events: what has been taken from a queue, followed by what is in it, is what was accepted into it.
\<close>

section \<open>Pending messages\<close>

record pending_messages =
  pm_signals :: "json dict list dict"
  pm_events :: "json list dict"

definition no_messages :: pending_messages where
  "no_messages = \<lparr>pm_signals = [], pm_events = []\<rparr>"

text \<open>\<open>queues.get(key, ())\<close>.\<close>

definition queue_of :: "'v list dict \<Rightarrow> string \<Rightarrow> 'v list" where
  "queue_of queues key = (case dict_get queues key of Some q \<Rightarrow> q | None \<Rightarrow> [])"

definition queued_count :: "pending_messages \<Rightarrow> nat" where
  "queued_count p = sum_list (map (length \<circ> snd) (pm_signals p)) + sum_list (map (length \<circ> snd) (pm_events p))"

definition pending_json :: "pending_messages \<Rightarrow> json" where
  "pending_json p = JObj [
     (''signals'', JObj (map (\<lambda>kq. (fst kq, JList (map JObj (snd kq)))) (pm_signals p))),
     (''events'', JObj (map (\<lambda>kq. (fst kq, JList (snd kq))) (pm_events p)))]"

text \<open>
  \<open>validate\<close> and \<open>_validate_append\<close>, which check the same two limits. Serializing the queues raises the
  error of the serializer itself.
\<close>

definition enforce_pending ::
    "(json \<Rightarrow> nat option) \<Rightarrow> runtime_limits \<Rightarrow> string \<Rightarrow> pending_messages \<Rightarrow> exn + unit" where
  "enforce_pending n_bytes limits boundary p =
     bind_result (enforce_limit (queued_count p) (nat (rl_queued_messages limits)) QUEUED_MESSAGES boundary) (\<lambda>_.
       (case n_bytes (pending_json p) of
          None \<Rightarrow> Inl serialization_error
        | Some n \<Rightarrow> enforce_limit n (nat (rl_queued_message_bytes limits)) QUEUED_MESSAGE_BYTES boundary))"

definition validate_pending :: "(json \<Rightarrow> nat option) \<Rightarrow> runtime_limits \<Rightarrow> pending_messages \<Rightarrow> exn + unit" where
  "validate_pending n_bytes limits p = enforce_pending n_bytes limits ''workflow.pending_messages'' p"

definition append_signal ::
    "(json \<Rightarrow> nat option) \<Rightarrow> runtime_limits \<Rightarrow> string \<Rightarrow> json dict \<Rightarrow> pending_messages \<Rightarrow> exn + pending_messages" where
  "append_signal n_bytes limits key v p =
     (let p' = p\<lparr>pm_signals := dict_set key (queue_of (pm_signals p) key @ [v]) (pm_signals p)\<rparr>
      in bind_result (enforce_pending n_bytes limits ''workflow.signals'' p') (\<lambda>_. Inr p'))"

definition append_event ::
    "(json \<Rightarrow> nat option) \<Rightarrow> runtime_limits \<Rightarrow> string \<Rightarrow> json \<Rightarrow> pending_messages \<Rightarrow> exn + pending_messages" where
  "append_event n_bytes limits key v p =
     (let p' = p\<lparr>pm_events := dict_set key (queue_of (pm_events p) key @ [v]) (pm_events p)\<rparr>
      in bind_result (enforce_pending n_bytes limits ''workflow.events'' p') (\<lambda>_. Inr p'))"

text \<open>\<open>queue = self.signals[key]; value = queue.pop(0); if not queue: del self.signals[key]\<close>.\<close>

definition pop_queue :: "string \<Rightarrow> 'v list dict \<Rightarrow> exn + 'v \<times> 'v list dict" where
  "pop_queue key queues = (case dict_get queues key of
       None \<Rightarrow> Inl key_error
     | Some [] \<Rightarrow> Inl (raise_kind (PyError ''IndexError''))
     | Some (v # q) \<Rightarrow> Inr (v, if q = [] then AList.delete key queues else dict_set key q queues))"

definition pop_signal :: "string \<Rightarrow> pending_messages \<Rightarrow> exn + json dict \<times> pending_messages" where
  "pop_signal key p = bind_result (pop_queue key (pm_signals p)) (\<lambda>(v, queues). Inr (v, p\<lparr>pm_signals := queues\<rparr>))"

definition pop_event :: "string \<Rightarrow> pending_messages \<Rightarrow> exn + json \<times> pending_messages" where
  "pop_event key p = bind_result (pop_queue key (pm_events p)) (\<lambda>(v, queues). Inr (v, p\<lparr>pm_events := queues\<rparr>))"

text \<open>
  What a run starts with when it continues another: for every key, what the earlier run left, and then
  what was sent to the new one before it ran.
\<close>

definition merge_queues :: "'v list dict \<Rightarrow> 'v list dict \<Rightarrow> 'v list dict" where
  "merge_queues carried fresh =
     map (\<lambda>key. (key, queue_of carried key @ queue_of fresh key))
       (dict_keys carried @ filter (\<lambda>key. \<not> dict_has carried key) (dict_keys fresh))"

definition merge_pending :: "pending_messages \<Rightarrow> pending_messages \<Rightarrow> pending_messages" where
  "merge_pending carried fresh = \<lparr>
     pm_signals = merge_queues (pm_signals carried) (pm_signals fresh),
     pm_events = merge_queues (pm_events carried) (pm_events fresh)\<rparr>"

section \<open>Queues are first in, first out\<close>

lemma queue_of_set [dict_simps]: "queue_of (dict_set k q queues) k' = (if k' = k then q else queue_of queues k')"
  by (simp add: queue_of_def dict_simps)

lemma queue_of_delete [dict_simps]: "queue_of (AList.delete k queues) k' = (if k' = k then [] else queue_of queues k')"
  by (simp add: queue_of_def delete_conv')

lemma queue_of_merge [dict_simps]: "queue_of (merge_queues carried fresh) k = queue_of carried k @ queue_of fresh k"
proof -
  have map: "map_of (map (\<lambda>key. (key, f key)) ks) k = (if k \<in> set ks then Some (f k) else None)" for f :: "string \<Rightarrow> 'a list" and ks
    by (induction ks) auto
  have none: "queue_of queues k = []" if "k \<notin> fst ` set queues" for queues :: "'a list dict"
    using that by (simp add: queue_of_def map_of_eq_None_iff [THEN iffD2])
  have "queue_of (merge_queues carried fresh) k =
      (if k \<in> fst ` set carried \<union> fst ` set fresh then queue_of carried k @ queue_of fresh k else [])"
    unfolding merge_queues_def queue_of_def [of "map _ _"] map by (auto simp: dict_keys_def dict_simps)
  then show ?thesis using none [of carried] none [of fresh] by auto
qed

lemma pop_queue_eq:
  "pop_queue k queues = Inr (v, queues') \<Longrightarrow>
     queue_of queues k = v # queue_of queues' k \<and> (\<forall>k'. k' \<noteq> k \<longrightarrow> queue_of queues' k' = queue_of queues k')"
  by (auto simp: pop_queue_def dict_simps split: option.splits list.splits if_splits)
     (auto simp: queue_of_def)

lemma pop_queue_ok: "(\<exists>r. pop_queue k queues = Inr r) \<longleftrightarrow> queue_of queues k \<noteq> []"
  by (auto simp: pop_queue_def queue_of_def split: option.splits list.splits)

text \<open>
  A sequence of deliveries (a key with a value) and of receipts (a key alone): the messages accepted, the
  messages taken, and the queues left. A delivery that is refused, and a receipt from an empty queue,
  change nothing.
\<close>

fun exchange ::
    "(string \<Rightarrow> 'v \<Rightarrow> 's \<Rightarrow> exn + 's) \<Rightarrow> (string \<Rightarrow> 's \<Rightarrow> exn + 'v \<times> 's) \<Rightarrow> (string \<times> 'v option) list \<Rightarrow> 's \<Rightarrow>
     'v dict \<times> 'v dict \<times> 's" where
  "exchange put pop [] s = ([], [], s)"
| "exchange put pop ((k, Some v) # ops) s = (case put k v s of
       Inl _ \<Rightarrow> exchange put pop ops s
     | Inr s' \<Rightarrow> (case exchange put pop ops s' of (accepted, taken, t) \<Rightarrow> ((k, v) # accepted, taken, t)))"
| "exchange put pop ((k, None) # ops) s = (case pop k s of
       Inl _ \<Rightarrow> exchange put pop ops s
     | Inr (v, s') \<Rightarrow> (case exchange put pop ops s' of (accepted, taken, t) \<Rightarrow> (accepted, (k, v) # taken, t)))"

definition values_of :: "string \<Rightarrow> 'v dict \<Rightarrow> 'v list" where
  "values_of k ms = map snd (filter (\<lambda>m. fst m = k) ms)"

locale keyed_queues =
  fixes queue :: "'s \<Rightarrow> string \<Rightarrow> 'v list"
    and put :: "string \<Rightarrow> 'v \<Rightarrow> 's \<Rightarrow> exn + 's"
    and pop :: "string \<Rightarrow> 's \<Rightarrow> exn + 'v \<times> 's"
  assumes queue_put: "put k v s = Inr s' \<Longrightarrow> queue s' k' = (if k' = k then queue s k @ [v] else queue s k')"
    and queue_pop: "pop k s = Inr (v, s') \<Longrightarrow> queue s k' = (if k' = k then v # queue s' k else queue s' k')"
    and pop_empty: "pop k s = Inl e \<Longrightarrow> queue s k = []"
begin

lemma exchange_fifo:
  "exchange put pop ops s = (accepted, taken, t) \<Longrightarrow>
     queue s k @ values_of k accepted = values_of k taken @ queue t k"
proof (induction ops arbitrary: s accepted taken)
  case (Cons kv ops)
  obtain k' o' where kv: "kv = (k', o')" by (cases kv)
  show ?case
  proof (cases o')
    case None
    show ?thesis
    proof (cases "pop k' s")
      case (Inr vs)
      then obtain v s' where "pop k' s = Inr (v, s')" by (cases vs) auto
      with Cons.prems Cons.IH [of s'] queue_pop [of k' s v s' k] show ?thesis
        by (auto simp: kv None values_of_def split: prod.splits if_splits)
    qed (use Cons in \<open>auto simp: kv None\<close>)
  next
    case (Some v)
    show ?thesis
    proof (cases "put k' v s")
      case (Inr s')
      with Cons.prems Cons.IH [of s'] queue_put [of k' v s s' k] show ?thesis
        by (auto simp: kv Some values_of_def split: prod.splits if_splits)
    qed (use Cons in \<open>auto simp: kv Some\<close>)
  qed
qed (simp add: values_of_def)

text \<open>A queue that has a message gives its first one.\<close>

lemma pop_first: "queue s k = v # q \<Longrightarrow> \<exists>s'. pop k s = Inr (v, s') \<and> queue s' k = q"
  using pop_empty queue_pop by (metis list.distinct(1) list.inject old.sum.exhaust surj_pair)

end

interpretation responses: keyed_queues "queue_of \<circ> pm_signals" "append_signal n_bytes limits" pop_signal
proof
  fix k k' :: string and v s s'
  assume "append_signal n_bytes limits k v s = Inr s'"
  then show "(queue_of \<circ> pm_signals) s' k' =
      (if k' = k then (queue_of \<circ> pm_signals) s k @ [v] else (queue_of \<circ> pm_signals) s k')"
    by (auto simp: append_signal_def Let_def bind_result_eq_Inr dict_simps)
next
  fix k k' :: string and v s s'
  assume "pop_signal k s = Inr (v, s')"
  then show "(queue_of \<circ> pm_signals) s k' =
      (if k' = k then v # (queue_of \<circ> pm_signals) s' k else (queue_of \<circ> pm_signals) s' k')"
    using pop_queue_eq [of k "pm_signals s" v "pm_signals s'"]
    by (auto simp: pop_signal_def bind_result_eq_Inr split: prod.splits)
next
  fix k s e
  assume "pop_signal k s = Inl e"
  then show "(queue_of \<circ> pm_signals) s k = []"
    using pop_queue_ok [of k "pm_signals s"] by (auto simp: pop_signal_def bind_result_def split: sum.splits prod.splits)
qed

interpretation events: keyed_queues "queue_of \<circ> pm_events" "append_event n_bytes limits" pop_event
proof
  fix k k' :: string and v s s'
  assume "append_event n_bytes limits k v s = Inr s'"
  then show "(queue_of \<circ> pm_events) s' k' =
      (if k' = k then (queue_of \<circ> pm_events) s k @ [v] else (queue_of \<circ> pm_events) s k')"
    by (auto simp: append_event_def Let_def bind_result_eq_Inr dict_simps)
next
  fix k k' :: string and v s s'
  assume "pop_event k s = Inr (v, s')"
  then show "(queue_of \<circ> pm_events) s k' =
      (if k' = k then v # (queue_of \<circ> pm_events) s' k else (queue_of \<circ> pm_events) s' k')"
    using pop_queue_eq [of k "pm_events s" v "pm_events s'"]
    by (auto simp: pop_event_def bind_result_eq_Inr split: prod.splits)
next
  fix k s e
  assume "pop_event k s = Inl e"
  then show "(queue_of \<circ> pm_events) s k = []"
    using pop_queue_ok [of k "pm_events s"] by (auto simp: pop_event_def bind_result_def split: sum.splits prod.splits)
qed

section \<open>Envelope failures\<close>

text \<open>
  \<open>_envelope_error\<close>: the failure of a payload before or beside the steps. Its code is given, so that it
  is classified here; \<open>exc\<close> is the limit or the mismatch that was met, or the plain error of a payload
  that is not valid.
\<close>

definition envelope_error ::
    "environment \<Rightarrow> runtime_limits \<Rightarrow> string \<Rightarrow> string option \<Rightarrow> run_identity \<Rightarrow> failure_phase \<Rightarrow> failure_code \<Rightarrow>
     string \<Rightarrow> exn \<Rightarrow> execution_error option" where
  "envelope_error env limits workflow request_id ri phase code timestamp e =
     build_execution_error (en_render env) (en_bytes env) e (correlation_identity_of workflow request_id ri) phase
       timestamp timestamp None [] [] (Some (classify_failure (en_render env) e phase None (Some code))) []
       (nat (rl_failure_record_bytes limits))"

text \<open>\<open>_request_id\<close>: the request identity of a payload that may be anything.\<close>

definition request_id_of :: "json \<Rightarrow> string option" where
  "request_id_of payload = (case payload of
       JObj kvs \<Rightarrow> (case dict_get kvs ''request_id'' of
           Some (JStr s) \<Rightarrow> Some s
         | _ \<Rightarrow> (case dict_get kvs ''trigger'' of
               Some (JObj trigger) \<Rightarrow> (case dict_get trigger ''request_id'' of Some (JStr s) \<Rightarrow> Some s | _ \<Rightarrow> None)
             | _ \<Rightarrow> None))
     | _ \<Rightarrow> None)"

definition is_limit_exceeded :: "exn \<Rightarrow> bool" where
  "is_limit_exceeded e = (case ex_kind e of LimitExceededError _ _ _ _ \<Rightarrow> True | _ \<Rightarrow> False)"

definition validation_error :: exn where "validation_error = raise_kind (PyError ''ValidationError'')"

definition is_validation_error :: "exn \<Rightarrow> bool" where
  "is_validation_error e \<longleftrightarrow> ex_kind e = PyError ''ValidationError''"

section \<open>Payloads\<close>

text \<open>The fields of a strict model: no others, and of the required ones each.\<close>

definition strict_fields :: "string list \<Rightarrow> json \<Rightarrow> json dict option" where
  "strict_fields allowed j = (case j of
       JObj kvs \<Rightarrow> if list_all (\<lambda>kv. fst kv \<in> set allowed) kvs then Some kvs else None
     | _ \<Rightarrow> None)"

definition text_field :: "nat \<Rightarrow> json dict \<Rightarrow> string \<Rightarrow> string option" where
  "text_field n kvs k = (case dict_get kvs k of
       Some (JStr s) \<Rightarrow> if s \<noteq> [] \<and> length s \<le> n then Some s else None | _ \<Rightarrow> None)"

definition field_or_null :: "json dict \<Rightarrow> string \<Rightarrow> json" where
  "field_or_null kvs k = (case dict_get kvs k of Some v \<Rightarrow> v | None \<Rightarrow> JNull)"

record signal_payload =
  sp_request_id :: string
  sp_step_name :: string
  sp_action :: string
  sp_status :: string
  sp_step_response :: json
  sp_error :: "json dict option"

definition PAYLOAD_IDENTIFIER_LENGTH :: nat where "PAYLOAD_IDENTIFIER_LENGTH = 256"
definition PAYLOAD_ACTION_LENGTH :: nat where "PAYLOAD_ACTION_LENGTH = 512"

definition RESPONSE_STATUSES :: "string list" where "RESPONSE_STATUSES = [''success'', ''error'']"

definition parse_signal :: "json \<Rightarrow> signal_payload option" where
  "parse_signal j =
     Option.bind (strict_fields [''request_id'', ''step_name'', ''action'', ''status'', ''step_response'', ''error''] j) (\<lambda>kvs.
     Option.bind (text_field PAYLOAD_IDENTIFIER_LENGTH kvs ''request_id'') (\<lambda>r.
     Option.bind (text_field PAYLOAD_IDENTIFIER_LENGTH kvs ''step_name'') (\<lambda>s.
     Option.bind (text_field PAYLOAD_ACTION_LENGTH kvs ''action'') (\<lambda>a.
     Option.bind (case dict_get kvs ''status'' of
         Some (JStr v) \<Rightarrow> if v \<in> set RESPONSE_STATUSES then Some v else None | _ \<Rightarrow> None) (\<lambda>status.
     Option.bind (case field_or_null kvs ''error'' of
         JNull \<Rightarrow> Some None | JObj e \<Rightarrow> Some (Some e) | _ \<Rightarrow> None) (\<lambda>e.
       Some \<lparr>sp_request_id = r, sp_step_name = s, sp_action = a, sp_status = status,
         sp_step_response = field_or_null kvs ''step_response'', sp_error = e\<rparr>))))))"

definition dump_signal :: "signal_payload \<Rightarrow> json dict" where
  "dump_signal s = [(''request_id'', JStr (sp_request_id s)), (''step_name'', JStr (sp_step_name s)),
     (''action'', JStr (sp_action s)), (''status'', JStr (sp_status s)), (''step_response'', sp_step_response s),
     (''error'', (case sp_error s of Some e \<Rightarrow> JObj e | None \<Rightarrow> JNull))]"

definition parse_event :: "json \<Rightarrow> (string \<times> json) option" where
  "parse_event j =
     Option.bind (strict_fields [''signal'', ''data''] j) (\<lambda>kvs.
     Option.bind (text_field PAYLOAD_IDENTIFIER_LENGTH kvs ''signal'') (\<lambda>name.
       Some (name, field_or_null kvs ''data'')))"

section \<open>Handlers\<close>

text \<open>
  A handler takes a message in, refuses it with an application error, which fails the workflow, or lets
  another exception out, which fails the workflow task: Temporal runs that task again, with the same
  message, until the worker's code no longer raises.
\<close>

datatype handler_outcome = MessageTaken pending_messages | MessageRefused execution_error | HandlerBroke exn

definition admit_signal ::
    "environment \<Rightarrow> runtime_limits \<Rightarrow> pending_messages \<Rightarrow> json \<Rightarrow> exn + pending_messages" where
  "admit_signal env limits p payload =
     bind_result (enforce_payload_bytes (en_bytes env payload) ''workflow.signal'' (nat (rl_signal_payload_bytes limits))) (\<lambda>_.
     (case parse_signal payload of
        None \<Rightarrow> Inl validation_error
      | Some s \<Rightarrow>
          bind_result (data_result (normalize_json_object MAX_JSON_DEPTH (nat (rl_collection_items limits))
             ''workflow.signal'' (of_json (JObj (dump_signal s))))) (\<lambda>v.
            append_signal (en_bytes env) limits (make_signal_key (sp_request_id s) (sp_step_name s) (sp_action s)) v p)))"

definition admit_event ::
    "environment \<Rightarrow> runtime_limits \<Rightarrow> pending_messages \<Rightarrow> json \<Rightarrow> exn + pending_messages" where
  "admit_event env limits p payload =
     bind_result (enforce_payload_bytes (en_bytes env payload) ''workflow.event'' (nat (rl_signal_payload_bytes limits))) (\<lambda>_.
     (case parse_event payload of
        None \<Rightarrow> Inl validation_error
      | Some (name, data) \<Rightarrow>
          bind_result (data_result (normalize_json_value MAX_JSON_DEPTH (nat (rl_collection_items limits))
             ''workflow.event.data'' 0 (of_json data))) (\<lambda>v.
            append_event (en_bytes env) limits name v p)))"

text \<open>The two \<open>except\<close> clauses; the record of a failure that cannot be serialized is an exception as well.\<close>

definition handler_failure ::
    "environment \<Rightarrow> runtime_limits \<Rightarrow> string \<Rightarrow> string option \<Rightarrow> run_identity \<Rightarrow> string \<Rightarrow> exn \<Rightarrow> handler_outcome" where
  "handler_failure env limits workflow request_id ri timestamp e =
     (let refused = (\<lambda>code exc. (case envelope_error env limits workflow request_id ri PhSignal code timestamp exc of
            None \<Rightarrow> HandlerBroke serialization_error | Some xe \<Rightarrow> MessageRefused xe))
      in if is_limit_exceeded e then refused LIMIT_EXCEEDED e
         else if is_validation_error e then refused INVALID_SIGNAL value_error
         else HandlerBroke e)"

definition handle_signal ::
    "environment \<Rightarrow> runtime_limits \<Rightarrow> string \<Rightarrow> run_identity \<Rightarrow> string \<Rightarrow> pending_messages \<Rightarrow> json \<Rightarrow> handler_outcome" where
  "handle_signal env limits workflow ri timestamp p payload = (case admit_signal env limits p payload of
       Inr p' \<Rightarrow> MessageTaken p'
     | Inl e \<Rightarrow> handler_failure env limits workflow (request_id_of payload) ri timestamp e)"

definition handle_event ::
    "environment \<Rightarrow> runtime_limits \<Rightarrow> string \<Rightarrow> string \<Rightarrow> run_identity \<Rightarrow> string \<Rightarrow> pending_messages \<Rightarrow> json \<Rightarrow>
     handler_outcome" where
  "handle_event env limits workflow workflow_id ri timestamp p payload = (case admit_event env limits p payload of
       Inr p' \<Rightarrow> MessageTaken p'
     | Inl e \<Rightarrow> handler_failure env limits workflow (Some workflow_id) ri timestamp e)"

section \<open>Data that is nested too deep\<close>

text \<open>Normalizing JSON data changes nothing; with small enough collections it only fails on the depth.\<close>

lemma normalize_json_same:
  "normalize_json_value md mi path d (of_json j) = Inr j' \<Longrightarrow> j' = j"
proof (induction j arbitrary: d path j')
  case (JList xs)
  from JList.prems obtain ys where ys: "j' = JList ys"
    "list_all2 (\<lambda>ix y. normalize_json_value md mi (path_index path (fst ix)) (Suc d) (snd ix) = Inr y)
       (enumerate 0 (map of_json xs)) ys"
    by (auto simp: bind_result_eq_Inr map_result_eq_Inr)
  have "ys = xs"
  proof (rule nth_equalityI)
    show len: "length ys = length xs" using list_all2_lengthD [OF ys(2)] by simp
    fix i assume "i < length ys"
    with list_all2_nthD2 [OF ys(2) this] len JList.IH [of "xs ! i"]
    show "ys ! i = xs ! i" by (auto simp: nth_enumerate_eq)
  qed
  with ys show ?case by simp
next
  case (JObj kvs)
  from JObj.prems obtain ys where ys: "j' = JObj ys"
    "list_all2 (\<lambda>kv y. \<exists>v. normalize_json_value md mi (path_key path (fst kv)) (Suc d) (of_json (snd kv)) = Inr v \<and> y = (fst kv, v))
       kvs ys"
    by (auto simp: bind_result_eq_Inr map_result_eq_Inr map_result_map list_all2_map1)
  have "ys = kvs"
  proof (rule nth_equalityI)
    show len: "length ys = length kvs" using list_all2_lengthD [OF ys(2)] by simp
    fix i assume i: "i < length ys"
    then have "kvs ! i \<in> set kvs" using len by simp
    with list_all2_nthD2 [OF ys(2) i] JObj.IH [of "kvs ! i" "snd (kvs ! i)"]
    show "ys ! i = kvs ! i" by (cases "kvs ! i") auto
  qed
  with ys show ?case by simp
qed auto

lemma normalize_too_deep:
  "normalize_json_value md mi path d (of_json j) = Inl e \<Longrightarrow> json_fits D mi j \<Longrightarrow>
     \<exists>p. e = DataNormalizationError p (DepthExceeds md)"
proof (induction j arbitrary: d path D)
  case (JList xs)
  show ?case
  proof (cases "d \<le> md")
    case True
    with JList.prems obtain ix where "ix \<in> set (enumerate 0 (map of_json xs))"
      "normalize_json_value md mi (path_index path (fst ix)) (Suc d) (snd ix) = Inl e"
      by (auto simp: bind_result_def split: sum.splits dest!: map_result_InlD)
    then have "xs ! fst ix \<in> set xs"
      "normalize_json_value md mi (path_index path (fst ix)) (Suc d) (of_json (xs ! fst ix)) = Inl e"
      by (auto simp: in_set_enumerate_eq)
    with JList show ?thesis by (auto simp: list_all_iff)
  qed (use JList.prems in \<open>auto simp: within_depth_def\<close>)
next
  case (JObj kvs)
  show ?case
  proof (cases "d \<le> md")
    case True
    with JObj.prems obtain kv where "kv \<in> set kvs"
      "normalize_json_value md mi (path_key path (fst kv)) (Suc d) (of_json (snd kv)) = Inl e"
      by (auto simp: bind_result_def map_result_map split: sum.splits dest!: map_result_InlD)
    with JObj show ?thesis by (cases kv) (auto simp: list_all_iff)
  qed (use JObj.prems in \<open>auto simp: within_depth_def\<close>)
qed (auto simp: within_depth_def split: if_splits)

lemma normalize_deep_data:
  assumes "json_fits D mi j" "\<not> json_fits md mi j"
  shows "\<exists>p. normalize_json_value md mi path 0 (of_json j) = Inl (DataNormalizationError p (DepthExceeds md))"
proof (cases "normalize_json_value md mi path 0 (of_json j)")
  case (Inl e)
  with normalize_too_deep [OF Inl assms(1)] show ?thesis by auto
next
  case (Inr v)
  with normalize_fits [OF Inr] normalize_json_same [OF Inr] assms(2) show ?thesis by simp
qed

section \<open>What the handlers let through\<close>

lemma enforce_pending_fails:
  assumes "enforce_pending n_bytes limits boundary p = Inl e" "n_bytes (pending_json p) \<noteq> None"
  shows "is_limit_exceeded e"
  using assms by (auto simp: enforce_pending_def bind_result_def enforce_limit_def raise_kind_def
      is_limit_exceeded_def split: sum.splits if_splits option.splits)

lemma append_event_fails:
  "append_event n_bytes limits key v p = Inl e \<Longrightarrow> (\<And>j. n_bytes j \<noteq> None) \<Longrightarrow> is_limit_exceeded e"
  by (auto simp: append_event_def Let_def bind_result_eq_Inl dest: enforce_pending_fails)

lemma append_signal_fails:
  "append_signal n_bytes limits key v p = Inl e \<Longrightarrow> (\<And>j. n_bytes j \<noteq> None) \<Longrightarrow> is_limit_exceeded e"
  by (auto simp: append_signal_def Let_def bind_result_eq_Inl dest: enforce_pending_fails)

lemma envelope_error_total:
  "(\<And>j. en_bytes env j \<noteq> None) \<Longrightarrow>
     \<exists>xe. envelope_error env limits workflow request_id ri phase code timestamp e = Some xe"
  by (auto simp: envelope_error_def build_execution_error_def Let_def split: option.split)

lemma handler_failure_breaks:
  assumes "\<And>j. en_bytes env j \<noteq> None"
  shows "(\<exists>x. handler_failure env limits workflow request_id ri timestamp e = HandlerBroke x) \<longleftrightarrow>
    \<not> is_limit_exceeded e \<and> \<not> is_validation_error e"
proof -
  obtain xe xe' where "envelope_error env limits workflow request_id ri PhSignal LIMIT_EXCEEDED timestamp e = Some xe"
    "envelope_error env limits workflow request_id ri PhSignal INVALID_SIGNAL timestamp value_error = Some xe'"
    using envelope_error_total [OF assms] by metis
  then show ?thesis by (simp add: handler_failure_def)
qed

text \<open>The event a payload within its limits holds is what is queued, unless it is nested too deep.\<close>

lemma admit_event_fits:
  assumes "en_bytes env payload = Some n" "n \<le> nat (rl_signal_payload_bytes limits)" "parse_event payload = Some (name, data)"
    and "json_fits MAX_JSON_DEPTH (nat (rl_collection_items limits)) data"
  shows "admit_event env limits p payload = append_event (en_bytes env) limits name data p"
  using assms by (simp add: admit_event_def enforce_payload_bytes_def enforce_limit_def bind_result_def data_result_def
      normalize_of_json)

lemma admit_event_deep:
  assumes "en_bytes env payload = Some n" "n \<le> nat (rl_signal_payload_bytes limits)" "parse_event payload = Some (name, data)"
    and "json_fits depth (nat (rl_collection_items limits)) data" "\<not> json_fits MAX_JSON_DEPTH (nat (rl_collection_items limits)) data"
  shows "\<exists>path. admit_event env limits p payload = Inl (data_exn (DataNormalizationError path (DepthExceeds MAX_JSON_DEPTH)))"
  using normalize_deep_data [OF assms(4,5), of "''workflow.event.data''"] assms(1,2,3)
  by (auto simp: admit_event_def enforce_payload_bytes_def enforce_limit_def bind_result_def data_result_def)

lemma event_handler_breaks:
  assumes "\<And>j. en_bytes env j \<noteq> None" "the (en_bytes env payload) \<le> nat (rl_signal_payload_bytes limits)"
    and "parse_event payload = Some (name, data)" "json_fits depth (nat (rl_collection_items limits)) data"
  shows "(\<exists>e. handle_event env limits workflow workflow_id ri timestamp p payload = HandlerBroke e) \<longleftrightarrow>
    \<not> json_fits MAX_JSON_DEPTH (nat (rl_collection_items limits)) data"
proof -
  obtain n where n: "en_bytes env payload = Some n" "n \<le> nat (rl_signal_payload_bytes limits)"
    using assms(1) [of payload] assms(2) by auto
  show ?thesis
  proof (cases "json_fits MAX_JSON_DEPTH (nat (rl_collection_items limits)) data")
    case True
    show ?thesis
    proof (cases "append_event (en_bytes env) limits name data p")
      case (Inl e)
      with append_event_fails [OF this] assms(1) handler_failure_breaks [OF assms(1)] True show ?thesis
        by (simp add: handle_event_def admit_event_fits [OF n assms(3) True])
    qed (use True in \<open>simp add: handle_event_def admit_event_fits [OF n assms(3) True]\<close>)
  next
    case False
    from admit_event_deep [OF n assms(3,4) False, of p] obtain path where
      "admit_event env limits p payload = Inl (data_exn (DataNormalizationError path (DepthExceeds MAX_JSON_DEPTH)))"
      by blast
    with False show ?thesis
      by (simp add: handle_event_def handler_failure_def raise_kind_def is_limit_exceeded_def is_validation_error_def)
  qed
qed

end
