(* ===== verification/JF_Triggers.thy ===== *)
theory JF_Triggers
  imports JF_Messages JF_Starter
begin

text \<open>
  The trigger every compiled workflow receives (\<open>WorkflowTrigger\<close> of \<open>sdk/message_contract.py\<close>, with the
  provenance models of \<open>provenance.py\<close> it holds): its fields, what makes it valid, the JSON form that is sent
  and the reading of that form, which give each other back; and the comparison of a trigger with the
  identities a workflow was compiled for (\<open>_verify_trigger_identity\<close> of \<open>engine/compiler.py\<close>).
\<close>

text \<open>So that the optional fields of a trigger can be evaluated.\<close>

lemma pred_option_code [code]: "pred_option P None = True" "pred_option P (Some v) = P v"
  by simp_all

section \<open>Triggers\<close>

record workflow_trigger =
  wt_request_id :: string
  wt_globals :: "json dict"
  wt_correlation_id :: "string option"
  wt_trace_id :: "string option"
  wt_definition_digest :: "string option"
  wt_worker_deployment :: "string option"
  wt_worker_build_id :: "string option"
  wt_worker_artifact :: "worker_artifact option"
  wt_environment_digest :: "string option"
  wt_configuration :: "execution_configuration option"
  wt_source :: "string option"
  wt_name :: "string option"
  wt_source_digest :: "string option"
  wt_correlation_digest :: "string option"
  wt_scope_digest :: "string option"

definition TRIGGER_SOURCES :: "string list" where
  "TRIGGER_SOURCES = [''broker'', ''cloud_event'', ''control_api'', ''host'', ''schedule'', ''webhook'']"

definition DIGEST_TEXT_LENGTH :: nat where "DIGEST_TEXT_LENGTH = 64"

definition artifact_matches :: "workflow_trigger \<Rightarrow> bool" where
  "artifact_matches t = pred_option (\<lambda>a. wt_worker_deployment t = Some (wa_deployment_name a) \<and>
     wt_worker_build_id t = Some (wa_build_id a)) (wt_worker_artifact t)"

definition valid_trigger :: "workflow_trigger \<Rightarrow> bool" where
  "valid_trigger t \<longleftrightarrow>
     bounded_text PAYLOAD_IDENTIFIER_LENGTH (wt_request_id t) \<and>
     list_all (pred_option (bounded_text PAYLOAD_IDENTIFIER_LENGTH))
       [wt_correlation_id t, wt_trace_id t, wt_worker_deployment t, wt_worker_build_id t, wt_name t] \<and>
     pred_option (\<lambda>d. length d = DIGEST_TEXT_LENGTH) (wt_definition_digest t) \<and>
     pred_option (\<lambda>s. s \<in> set TRIGGER_SOURCES) (wt_source t) \<and>
     list_all (pred_option is_sha256_hex)
       [wt_environment_digest t, wt_source_digest t, wt_correlation_digest t, wt_scope_digest t] \<and>
     pred_option valid_artifact (wt_worker_artifact t) \<and> pred_option valid_configuration (wt_configuration t) \<and>
     artifact_matches t"

section \<open>The JSON form\<close>

text \<open>\<open>model_dump(mode="json", exclude_none=True)\<close>.\<close>

definition dump_artifact :: "worker_artifact \<Rightarrow> json" where
  "dump_artifact a = JObj (set_fields [
     (''deployment_name'', Some (JStr (wa_deployment_name a))), (''build_id'', Some (JStr (wa_build_id a))),
     (''artifact_digest'', Some (JStr (wa_artifact_digest a))),
     (''package_version'', Some (JStr (wa_package_version a))), (''source_revision'', opt_str (wa_source_revision a))])"

definition dump_configuration :: "execution_configuration \<Rightarrow> json" where
  "dump_configuration c = JObj (set_fields [
     (''configuration_revision_id'', Some (JStr (xc_revision c))),
     (''tenant_configuration_revision_id'', opt_str (xc_tenant_revision c)),
     (''component_catalog_revision'', opt_str (xc_catalog_revision c)),
     (''component_identity_digest'', opt_str (xc_component_digest c)),
     (''resolution_digest'', Some (JStr (xc_resolution_digest c)))])"

definition trigger_fields :: "workflow_trigger \<Rightarrow> (string \<times> json option) list" where
  "trigger_fields t = [
     (''request_id'', Some (JStr (wt_request_id t))), (''globals'', Some (JObj (wt_globals t))),
     (''correlation_id'', opt_str (wt_correlation_id t)), (''trace_id'', opt_str (wt_trace_id t)),
     (''definition_digest'', opt_str (wt_definition_digest t)),
     (''worker_deployment'', opt_str (wt_worker_deployment t)),
     (''worker_build_id'', opt_str (wt_worker_build_id t)),
     (''worker_artifact'', map_option dump_artifact (wt_worker_artifact t)),
     (''environment_snapshot_digest'', opt_str (wt_environment_digest t)),
     (''execution_configuration'', map_option dump_configuration (wt_configuration t)),
     (''trigger_source'', opt_str (wt_source t)), (''trigger_name'', opt_str (wt_name t)),
     (''source_identity_digest'', opt_str (wt_source_digest t)),
     (''correlation_identity_digest'', opt_str (wt_correlation_digest t)),
     (''scope_digest'', opt_str (wt_scope_digest t))]"

definition dump_trigger :: "workflow_trigger \<Rightarrow> json" where
  "dump_trigger t = JObj (set_fields (trigger_fields t))"

section \<open>Reading it\<close>

definition text_value :: "json \<Rightarrow> string option" where
  "text_value j = (case j of JStr s \<Rightarrow> Some s | _ \<Rightarrow> None)"

text \<open>An optional field: absent or null, or a value that the reader accepts.\<close>

definition optional_field :: "(json \<Rightarrow> 'a option) \<Rightarrow> json dict \<Rightarrow> string \<Rightarrow> 'a option option" where
  "optional_field read kvs k = (case field_or_null kvs k of
       JNull \<Rightarrow> Some None | v \<Rightarrow> map_option Some (read v))"

definition required_field :: "(json \<Rightarrow> 'a option) \<Rightarrow> json dict \<Rightarrow> string \<Rightarrow> 'a option" where
  "required_field read kvs k = Option.bind (dict_get kvs k) read"

definition checked :: "('a \<Rightarrow> bool) \<Rightarrow> 'a \<Rightarrow> 'a option" where
  "checked ok v = (if ok v then Some v else None)"

definition parse_artifact :: "json \<Rightarrow> worker_artifact option" where
  "parse_artifact j =
     Option.bind (strict_fields [''deployment_name'', ''build_id'', ''artifact_digest'', ''package_version'', ''source_revision''] j) (\<lambda>kvs.
     Option.bind (required_field text_value kvs ''deployment_name'') (\<lambda>d.
     Option.bind (required_field text_value kvs ''build_id'') (\<lambda>b.
     Option.bind (required_field text_value kvs ''artifact_digest'') (\<lambda>g.
     Option.bind (required_field text_value kvs ''package_version'') (\<lambda>v.
     Option.bind (optional_field text_value kvs ''source_revision'') (\<lambda>r.
       checked valid_artifact \<lparr>wa_deployment_name = d, wa_build_id = b, wa_artifact_digest = g,
         wa_package_version = v, wa_source_revision = r\<rparr>))))))"

definition parse_configuration :: "json \<Rightarrow> execution_configuration option" where
  "parse_configuration j =
     Option.bind (strict_fields [''configuration_revision_id'', ''tenant_configuration_revision_id'',
         ''component_catalog_revision'', ''component_identity_digest'', ''resolution_digest''] j) (\<lambda>kvs.
     Option.bind (required_field text_value kvs ''configuration_revision_id'') (\<lambda>c.
     Option.bind (optional_field text_value kvs ''tenant_configuration_revision_id'') (\<lambda>t.
     Option.bind (optional_field text_value kvs ''component_catalog_revision'') (\<lambda>g.
     Option.bind (optional_field text_value kvs ''component_identity_digest'') (\<lambda>d.
     Option.bind (required_field text_value kvs ''resolution_digest'') (\<lambda>r.
       checked valid_configuration \<lparr>xc_revision = c, xc_tenant_revision = t, xc_catalog_revision = g,
         xc_component_digest = d, xc_resolution_digest = r\<rparr>))))))"

text \<open>\<open>globals\<close> has an empty default, and takes no null.\<close>

definition globals_field :: "json dict \<Rightarrow> json dict option" where
  "globals_field kvs = (case dict_get kvs ''globals'' of
       None \<Rightarrow> Some [] | Some (JObj g) \<Rightarrow> Some g | Some _ \<Rightarrow> None)"

definition parse_trigger :: "json \<Rightarrow> workflow_trigger option" where
  "parse_trigger j =
     Option.bind (strict_fields [''request_id'', ''globals'', ''correlation_id'', ''trace_id'', ''definition_digest'',
         ''worker_deployment'', ''worker_build_id'', ''worker_artifact'', ''environment_snapshot_digest'',
         ''execution_configuration'', ''trigger_source'', ''trigger_name'', ''source_identity_digest'',
         ''correlation_identity_digest'', ''scope_digest''] j) (\<lambda>kvs.
     Option.bind (required_field text_value kvs ''request_id'') (\<lambda>request_id.
     Option.bind (globals_field kvs) (\<lambda>globals.
     Option.bind (optional_field text_value kvs ''correlation_id'') (\<lambda>correlation_id.
     Option.bind (optional_field text_value kvs ''trace_id'') (\<lambda>trace_id.
     Option.bind (optional_field text_value kvs ''definition_digest'') (\<lambda>definition_digest.
     Option.bind (optional_field text_value kvs ''worker_deployment'') (\<lambda>deployment.
     Option.bind (optional_field text_value kvs ''worker_build_id'') (\<lambda>build_id.
     Option.bind (optional_field parse_artifact kvs ''worker_artifact'') (\<lambda>artifact.
     Option.bind (optional_field text_value kvs ''environment_snapshot_digest'') (\<lambda>environment_digest.
     Option.bind (optional_field parse_configuration kvs ''execution_configuration'') (\<lambda>configuration.
     Option.bind (optional_field text_value kvs ''trigger_source'') (\<lambda>source.
     Option.bind (optional_field text_value kvs ''trigger_name'') (\<lambda>name.
     Option.bind (optional_field text_value kvs ''source_identity_digest'') (\<lambda>source_digest.
     Option.bind (optional_field text_value kvs ''correlation_identity_digest'') (\<lambda>correlation_digest.
     Option.bind (optional_field text_value kvs ''scope_digest'') (\<lambda>scope_digest.
       checked valid_trigger \<lparr>wt_request_id = request_id, wt_globals = globals, wt_correlation_id = correlation_id,
         wt_trace_id = trace_id, wt_definition_digest = definition_digest, wt_worker_deployment = deployment,
         wt_worker_build_id = build_id, wt_worker_artifact = artifact, wt_environment_digest = environment_digest,
         wt_configuration = configuration, wt_source = source, wt_name = name, wt_source_digest = source_digest,
         wt_correlation_digest = correlation_digest, wt_scope_digest = scope_digest\<rparr>))))))))))))))))"

section \<open>The round trip\<close>

lemma keys_set_fields: "fst ` set (set_fields fs) \<subseteq> fst ` set fs"
  by (fastforce simp: set_fields_def split: option.splits elim: list_of_option.elims)

lemma get_set_fields [dict_simps]:
  "distinct (map fst fs) \<Longrightarrow> map_of (set_fields fs) k = Option.bind (map_of fs k) id"
proof (induction fs)
  case (Cons kv fs)
  obtain k' v where kv: "kv = (k', v)" by (cases kv)
  have "k' \<notin> fst ` set (set_fields fs)" using Cons.prems keys_set_fields [of fs] by (auto simp: kv)
  then have none: "map_of (set_fields fs) k' = None" by (simp add: map_of_eq_None_iff)
  have "set_fields (kv # fs) = map (Pair k') (list_of_option v) @ set_fields fs"
    by (simp add: kv set_fields_def)
  with Cons none show ?case by (cases v) (auto simp: kv map_add_def)
qed (simp add: set_fields_def)

lemma strict_set_fields:
  "list_all (\<lambda>kv. fst kv \<in> set allowed) fs \<Longrightarrow> strict_fields allowed (JObj (set_fields fs)) = Some (set_fields fs)"
  using keys_set_fields [of fs] by (fastforce simp: strict_fields_def list_all_iff)

lemma text_value_JStr [simp]: "text_value (JStr s) = Some s"
  by (simp add: text_value_def)

text \<open>An optional field whose values the reader gives back is read as it was written.\<close>

lemma optional_field_dump:
  assumes "distinct (map fst fs)" "map_of fs k = Some (map_option dump v)"
    and "\<And>x. v = Some x \<Longrightarrow> read (dump x) = Some x \<and> dump x \<noteq> JNull"
  shows "optional_field read (set_fields fs) k = Some v"
  using assms by (cases v) (auto simp: optional_field_def field_or_null_def dict_simps split: json.splits)

lemma optional_text_dump:
  "distinct (map fst fs) \<Longrightarrow> map_of fs k = Some (opt_str v) \<Longrightarrow> optional_field text_value (set_fields fs) k = Some v"
  by (rule optional_field_dump [where dump = JStr]) (auto simp: opt_str_def)

lemma required_text_dump:
  "distinct (map fst fs) \<Longrightarrow> map_of fs k = Some (Some (JStr v)) \<Longrightarrow> required_field text_value (set_fields fs) k = Some v"
  by (simp add: required_field_def dict_simps)

lemma checked_ok [simp]: "ok v \<Longrightarrow> checked ok v = Some v"
  by (simp add: checked_def)

lemmas field_reads = strict_set_fields optional_text_dump required_text_dump

lemma parse_dump_artifact: "valid_artifact a \<Longrightarrow> parse_artifact (dump_artifact a) = Some a"
  by (cases a) (simp add: parse_artifact_def dump_artifact_def field_reads)

lemma parse_dump_configuration: "valid_configuration c \<Longrightarrow> parse_configuration (dump_configuration c) = Some c"
  by (cases c) (simp add: parse_configuration_def dump_configuration_def field_reads)

lemma dump_object [simp]: "dump_artifact a \<noteq> JNull" "dump_configuration c \<noteq> JNull"
  by (simp_all add: dump_artifact_def dump_configuration_def)

lemma trigger_keys: "distinct (map fst (trigger_fields t))"
  by (simp add: trigger_fields_def)

lemma trigger_texts:
  "required_field text_value (set_fields (trigger_fields t)) ''request_id'' = Some (wt_request_id t)"
  "optional_field text_value (set_fields (trigger_fields t)) ''correlation_id'' = Some (wt_correlation_id t)"
  "optional_field text_value (set_fields (trigger_fields t)) ''trace_id'' = Some (wt_trace_id t)"
  "optional_field text_value (set_fields (trigger_fields t)) ''definition_digest'' = Some (wt_definition_digest t)"
  "optional_field text_value (set_fields (trigger_fields t)) ''worker_deployment'' = Some (wt_worker_deployment t)"
  "optional_field text_value (set_fields (trigger_fields t)) ''worker_build_id'' = Some (wt_worker_build_id t)"
  "optional_field text_value (set_fields (trigger_fields t)) ''environment_snapshot_digest'' = Some (wt_environment_digest t)"
  "optional_field text_value (set_fields (trigger_fields t)) ''trigger_source'' = Some (wt_source t)"
  "optional_field text_value (set_fields (trigger_fields t)) ''trigger_name'' = Some (wt_name t)"
  "optional_field text_value (set_fields (trigger_fields t)) ''source_identity_digest'' = Some (wt_source_digest t)"
  "optional_field text_value (set_fields (trigger_fields t)) ''correlation_identity_digest'' = Some (wt_correlation_digest t)"
  "optional_field text_value (set_fields (trigger_fields t)) ''scope_digest'' = Some (wt_scope_digest t)"
  by (rule required_text_dump optional_text_dump, rule trigger_keys, simp add: trigger_fields_def)+

lemma trigger_models:
  assumes "valid_trigger t"
  shows "optional_field parse_artifact (set_fields (trigger_fields t)) ''worker_artifact'' = Some (wt_worker_artifact t)"
    "optional_field parse_configuration (set_fields (trigger_fields t)) ''execution_configuration'' = Some (wt_configuration t)"
proof -
  have keys: "map_of (trigger_fields t) ''worker_artifact'' = Some (map_option dump_artifact (wt_worker_artifact t))"
    "map_of (trigger_fields t) ''execution_configuration'' = Some (map_option dump_configuration (wt_configuration t))"
    by (simp_all add: trigger_fields_def)
  have valid: "pred_option valid_artifact (wt_worker_artifact t)" "pred_option valid_configuration (wt_configuration t)"
    using assms by (simp_all add: valid_trigger_def)
  show "optional_field parse_artifact (set_fields (trigger_fields t)) ''worker_artifact'' = Some (wt_worker_artifact t)"
    by (rule optional_field_dump [OF trigger_keys keys(1)]) (use valid(1) in \<open>simp add: parse_dump_artifact\<close>)
  show "optional_field parse_configuration (set_fields (trigger_fields t)) ''execution_configuration'' = Some (wt_configuration t)"
    by (rule optional_field_dump [OF trigger_keys keys(2)]) (use valid(2) in \<open>simp add: parse_dump_configuration\<close>)
qed

lemma trigger_globals: "globals_field (set_fields (trigger_fields t)) = Some (wt_globals t)"
proof -
  have "map_of (trigger_fields t) ''globals'' = Some (Some (JObj (wt_globals t)))"
    by (simp add: trigger_fields_def)
  then show ?thesis by (simp add: globals_field_def get_set_fields [OF trigger_keys])
qed

lemma trigger_surjective:
  "\<lparr>wt_request_id = wt_request_id t, wt_globals = wt_globals t, wt_correlation_id = wt_correlation_id t,
    wt_trace_id = wt_trace_id t, wt_definition_digest = wt_definition_digest t,
    wt_worker_deployment = wt_worker_deployment t, wt_worker_build_id = wt_worker_build_id t,
    wt_worker_artifact = wt_worker_artifact t, wt_environment_digest = wt_environment_digest t,
    wt_configuration = wt_configuration t, wt_source = wt_source t, wt_name = wt_name t,
    wt_source_digest = wt_source_digest t, wt_correlation_digest = wt_correlation_digest t,
    wt_scope_digest = wt_scope_digest t\<rparr> = t"
  by simp

lemma parse_dump_trigger: "valid_trigger t \<Longrightarrow> parse_trigger (dump_trigger t) = Some t"
  unfolding parse_trigger_def dump_trigger_def
  by (subst strict_set_fields, simp add: trigger_fields_def)
     (simp add: trigger_texts trigger_models trigger_globals trigger_surjective)

lemma parsed_trigger_valid: "parse_trigger j = Some t \<Longrightarrow> valid_trigger t"
  unfolding parse_trigger_def checked_def
  by (auto simp: bind_eq_Some_conv simp del: valid_trigger_def split: if_splits)

section \<open>The identities a workflow is compiled for\<close>

record selected_identity =
  sl_definition_digest :: "string option"
  sl_worker_deployment :: "string option"
  sl_worker_build_id :: "string option"
  sl_worker_artifact :: "worker_artifact option"
  sl_environment_digest :: "string option"
  sl_scope_digest :: "string option"
  sl_configuration :: "execution_configuration option"

definition identity_mismatch :: exn where
  "identity_mismatch = raise_kind (PyError ''DefinitionIdentityMismatchError'')"

text \<open>An artifact is compared only when one is selected; the other identities always are.\<close>

definition verify_trigger_identity :: "workflow_trigger \<Rightarrow> selected_identity \<Rightarrow> exn + unit" where
  "verify_trigger_identity t sl =
     (if [wt_definition_digest t, wt_worker_deployment t, wt_worker_build_id t, wt_environment_digest t] \<noteq>
         [sl_definition_digest sl, sl_worker_deployment sl, sl_worker_build_id sl, sl_environment_digest sl]
      then Inl identity_mismatch
      else if sl_worker_artifact sl \<noteq> None \<and> wt_worker_artifact t \<noteq> sl_worker_artifact sl then Inl identity_mismatch
      else if wt_scope_digest t \<noteq> sl_scope_digest sl then Inl identity_mismatch
      else if wt_configuration t \<noteq> sl_configuration sl then Inl identity_mismatch
      else Inr ())"

definition trigger_selects :: "workflow_trigger \<Rightarrow> selected_identity \<Rightarrow> bool" where
  "trigger_selects t sl \<longleftrightarrow>
     wt_definition_digest t = sl_definition_digest sl \<and> wt_worker_deployment t = sl_worker_deployment sl \<and>
     wt_worker_build_id t = sl_worker_build_id sl \<and> wt_environment_digest t = sl_environment_digest sl \<and>
     (sl_worker_artifact sl = None \<or> wt_worker_artifact t = sl_worker_artifact sl) \<and>
     wt_scope_digest t = sl_scope_digest sl \<and> wt_configuration t = sl_configuration sl"

lemma verify_trigger_identity_ok [simp]: "verify_trigger_identity t sl = Inr u \<longleftrightarrow> trigger_selects t sl"
  by (auto simp: verify_trigger_identity_def trigger_selects_def)

lemma verify_trigger_identity_cases:
  "verify_trigger_identity t sl = (if trigger_selects t sl then Inr () else Inl identity_mismatch)"
  by (auto simp: verify_trigger_identity_def trigger_selects_def)

end
