(* ===== verification/JF_Temporal.thy ===== *)
theory JF_Temporal
  imports JF_Triggers
begin

text \<open>
  The step executor of a compiled workflow (\<open>TemporalStepExecutor\<close> of \<open>engine/compiler.py\<close>): activities,
  waits for responses and events, child workflows and archival, over a world that holds the pending
  messages and the messages still to come.

  Temporal and what it runs are the parameter \<open>temporal\<close>, on a state \<open>'e\<close> of its own: what an activity or
  a child workflow gives, how many of the next messages come before it does, how many come before a timer
  fires, the clock, the history, and the answers of \<open>workflow.patched\<close>. An \<open>await\<close> hands those messages to
  the handlers of \<open>JF_Messages\<close>, in order; a wait stops at the first message after which its condition
  holds. A message that a handler does not take ends the run: it is kept in \<open>fw_stopped\<close>, and no later
  message is handled.
\<close>

section \<open>Temporal\<close>

record activity_call =
  at_name :: string
  at_arg :: json
  at_timeout_sec :: nat
  at_attempts :: nat
  at_retry_intervals :: "(nat \<times> nat) option"

record step_activity_result =
  ar_data :: json
  ar_awaiting_signal :: bool
  ar_signal_key :: "string option"
  ar_response_timeout_sec :: "nat option"
  ar_cache :: "string option"

definition dump_step_result :: "step_activity_result \<Rightarrow> json" where
  "dump_step_result r = JObj [(''data'', ar_data r), (''awaiting_signal'', JBool (ar_awaiting_signal r)),
     (''signal_key'', (case ar_signal_key r of Some s \<Rightarrow> JStr s | None \<Rightarrow> JNull)),
     (''response_timeout_sec'', (case ar_response_timeout_sec r of Some n \<Rightarrow> JInt (int n) | None \<Rightarrow> JNull)),
     (''cache'', (case ar_cache r of Some s \<Rightarrow> JStr s | None \<Rightarrow> JNull))]"

record child_start =
  cs_type :: string
  cs_trigger :: json
  cs_id :: string
  cs_memo :: "json dict option"

text \<open>The results of the activities have the types that \<open>engine/activities.py\<close> gives them.\<close>

record 'e temporal =
  tp_step :: "activity_call \<Rightarrow> 'e \<Rightarrow> (exn + step_activity_result) \<times> nat \<times> 'e"
  tp_evaluate :: "activity_call \<Rightarrow> 'e \<Rightarrow> (exn + bool) \<times> nat \<times> 'e"
  tp_activity :: "activity_call \<Rightarrow> 'e \<Rightarrow> (exn + unit) \<times> nat \<times> 'e"
  tp_child :: "child_start \<Rightarrow> 'e \<Rightarrow> (exn + json) \<times> nat \<times> 'e"
  tp_timer :: "rat \<Rightarrow> 'e \<Rightarrow> nat \<times> 'e"
  tp_now :: "'e \<Rightarrow> rat"
  tp_history :: "'e \<Rightarrow> history_observation"
  tp_next_done :: "nat list \<Rightarrow> 'e \<Rightarrow> nat \<times> 'e"
  tp_patched :: "string \<Rightarrow> bool"

datatype delivery = SignalDelivery json | EventDelivery json

record 'e flow_world =
  fw_pending :: pending_messages
  fw_inbox :: "delivery list"
  fw_env :: 'e
  fw_stopped :: "handler_outcome option"

section \<open>The executor's settings\<close>

record service_settings =
  sv_dispatch_timeout_sec :: nat
  sv_retries :: nat

record step_executor =
  te_request_id :: string
  te_propagated_correlation_id :: "string option"
  te_trace_id :: "string option"
  te_workflow_id :: string
  te_run_id :: string
  te_flow_name :: string
  te_limits :: runtime_limits
  te_identity :: selected_identity
  te_contract_identities :: "string dict"
  te_child_types :: "string dict"
  te_child_digests :: "string dict"
  te_child_environments :: "string dict"
  te_services :: "service_settings dict"
  te_env :: environment
  te_canonical :: "json \<Rightarrow> string"
  te_sha :: "string \<Rightarrow> string"

text \<open>\<open>correlation_id or request_id\<close>: an empty identity counts as none.\<close>

definition te_correlation_id :: "step_executor \<Rightarrow> string" where
  "te_correlation_id x = (case te_propagated_correlation_id x of
       Some c \<Rightarrow> if c \<noteq> [] then c else te_request_id x | None \<Rightarrow> te_request_id x)"

definition RESOURCE_GRANTS_PATCH :: string where "RESOURCE_GRANTS_PATCH = ''resource-grants-v1''"
definition QUEUE_INVOCATION_RESPONSE_PATCH :: string where
  "QUEUE_INVOCATION_RESPONSE_PATCH = ''justflow-queue-invocation-response-v1''"
definition UNCONTRACTED_CACHE_IDENTITY :: string where "UNCONTRACTED_CACHE_IDENTITY = ''uncontracted''"
definition EVALUATOR_TIMEOUT :: nat where "EVALUATOR_TIMEOUT = 30"
definition EVALUATOR_RETRY_ATTEMPTS :: nat where "EVALUATOR_RETRY_ATTEMPTS = 3"
definition CONTRACT_VALIDATION_TIMEOUT :: nat where "CONTRACT_VALIDATION_TIMEOUT = 30"
definition CONTRACT_VALIDATION_ATTEMPTS :: nat where "CONTRACT_VALIDATION_ATTEMPTS = 1"
definition ARCHIVAL_TIMEOUT :: nat where "ARCHIVAL_TIMEOUT = 30"
definition ARCHIVAL_RETRY_ATTEMPTS :: nat where "ARCHIVAL_RETRY_ATTEMPTS = 3"
definition INITIAL_RETRY_INTERVAL :: nat where "INITIAL_RETRY_INTERVAL = 1"
definition MAX_RETRY_INTERVAL :: nat where "MAX_RETRY_INTERVAL = 30"

section \<open>Messages while waiting\<close>

text \<open>\<open>type\<close>, the message and \<open>non_retryable\<close> of an \<open>ApplicationError\<close>.\<close>

definition application_exn :: "string \<Rightarrow> string \<Rightarrow> bool \<Rightarrow> exn" where
  "application_exn kind message non_retryable =
     Exn (ExternalError ''ApplicationError'') (Some (kind, message, Some non_retryable)) None"

text \<open>The identities that the failures of a handler are stamped with.\<close>

definition envelope_identity :: "selected_identity \<Rightarrow> string \<Rightarrow> run_identity" where
  "envelope_identity sl run_id = no_identity\<lparr>ri_run_id := Some run_id,
     ri_definition_digest := sl_definition_digest sl, ri_worker_deployment := sl_worker_deployment sl,
     ri_worker_build_id := sl_worker_build_id sl,
     ri_worker_artifact := map_option dump_artifact (sl_worker_artifact sl),
     ri_environment_snapshot_digest := sl_environment_digest sl, ri_scope_digest := sl_scope_digest sl,
     ri_execution_configuration := map_option dump_configuration (sl_configuration sl)\<rparr>"

definition timestamp_of :: "step_executor \<Rightarrow> 'e temporal \<Rightarrow> 'e \<Rightarrow> string" where
  "timestamp_of x tp e = en_iso (te_env x) (tp_now tp e)"

definition handle_delivery ::
    "step_executor \<Rightarrow> 'e temporal \<Rightarrow> 'e \<Rightarrow> pending_messages \<Rightarrow> delivery \<Rightarrow> handler_outcome" where
  "handle_delivery x tp e p d =
     (let ri = envelope_identity (te_identity x) (te_run_id x); t = timestamp_of x tp e
      in (case d of
          SignalDelivery payload \<Rightarrow> handle_signal (te_env x) (te_limits x) (te_flow_name x) ri t p payload
        | EventDelivery payload \<Rightarrow>
            handle_event (te_env x) (te_limits x) (te_flow_name x) (te_workflow_id x) ri t p payload))"

definition receive :: "step_executor \<Rightarrow> 'e temporal \<Rightarrow> delivery \<Rightarrow> 'e flow_world \<Rightarrow> 'e flow_world" where
  "receive x tp d w = (if fw_stopped w \<noteq> None then w
     else (case handle_delivery x tp (fw_env w) (fw_pending w) d of
         MessageTaken p \<Rightarrow> w\<lparr>fw_pending := p\<rparr>
       | out \<Rightarrow> w\<lparr>fw_stopped := Some out\<rparr>))"

text \<open>At most \<open>n\<close> of the next messages, until the condition holds; and whether it holds at the end.\<close>

fun receive_until ::
    "step_executor \<Rightarrow> 'e temporal \<Rightarrow> (pending_messages \<Rightarrow> bool) \<Rightarrow> nat \<Rightarrow> 'e flow_world \<Rightarrow> bool \<times> 'e flow_world" where
  "receive_until x tp cond 0 w = (cond (fw_pending w), w)"
| "receive_until x tp cond (Suc n) w =
     (if cond (fw_pending w) then (True, w)
      else (case fw_inbox w of
          [] \<Rightarrow> (False, w)
        | d # ds \<Rightarrow> receive_until x tp cond n (receive x tp d (w\<lparr>fw_inbox := ds\<rparr>))))"

definition receive_messages :: "step_executor \<Rightarrow> 'e temporal \<Rightarrow> nat \<Rightarrow> 'e flow_world \<Rightarrow> 'e flow_world" where
  "receive_messages x tp n w = snd (receive_until x tp (\<lambda>_. False) n w)"

text \<open>\<open>workflow.wait_condition\<close> with a timeout: whether the condition held in time.\<close>

definition wait_condition ::
    "step_executor \<Rightarrow> 'e temporal \<Rightarrow> (pending_messages \<Rightarrow> bool) \<Rightarrow> rat \<Rightarrow> 'e flow_world \<Rightarrow> bool \<times> 'e flow_world" where
  "wait_condition x tp cond timeout w =
     (if cond (fw_pending w) then (True, w)
      else (case tp_timer tp timeout (fw_env w) of (n, e) \<Rightarrow> receive_until x tp cond n (w\<lparr>fw_env := e\<rparr>)))"

definition await ::
    "step_executor \<Rightarrow> 'e temporal \<Rightarrow> ('e \<Rightarrow> (exn + 'a) \<times> nat \<times> 'e) \<Rightarrow> 'e flow_world \<Rightarrow> (exn + 'a) \<times> 'e flow_world" where
  "await x tp act w = (case act (fw_env w) of (r, n, e) \<Rightarrow> (r, receive_messages x tp n (w\<lparr>fw_env := e\<rparr>)))"

definition bind_world ::
    "('w \<Rightarrow> (exn + 'a) \<times> 'w) \<Rightarrow> ('a \<Rightarrow> 'w \<Rightarrow> (exn + 'b) \<times> 'w) \<Rightarrow> 'w \<Rightarrow> (exn + 'b) \<times> 'w" where
  "bind_world c f w = (case c w of (Inl e, w') \<Rightarrow> (Inl e, w') | (Inr a, w') \<Rightarrow> f a w')"

definition payload_within ::
    "step_executor \<Rightarrow> json \<Rightarrow> string \<Rightarrow> int \<Rightarrow> 'w \<Rightarrow> (exn + unit) \<times> 'w" where
  "payload_within x v boundary limit w = (enforce_payload_bytes (en_bytes (te_env x) v) boundary (nat limit), w)"

section \<open>Waiting for responses and events\<close>

definition has_message :: "string \<Rightarrow> 'v list dict \<Rightarrow> bool" where
  "has_message key queues \<longleftrightarrow> queue_of queues key \<noteq> []"

text \<open>\<open>tuple(dict.fromkeys(...))\<close>: each key once, at its first place.\<close>

definition unique_keys :: "string list \<Rightarrow> string list" where
  "unique_keys keys = rev (remdups (rev keys))"

text \<open>\<open>bool(value)\<close>.\<close>

fun json_truthy :: "json \<Rightarrow> bool" where
  "json_truthy JNull = False"
| "json_truthy (JBool b) = b"
| "json_truthy (JInt i) = (i \<noteq> 0)"
| "json_truthy (JFloat q) = (q \<noteq> 0)"
| "json_truthy (JStr s) = (s \<noteq> [])"
| "json_truthy (JList xs) = (xs \<noteq> [])"
| "json_truthy (JObj kvs) = (kvs \<noteq> [])"

definition response_value :: "step_executor \<Rightarrow> string \<Rightarrow> json dict \<Rightarrow> exn + json" where
  "response_value x step_name response =
     (if dict_get response ''status'' = Some (JStr ''error'')
      then (let err = (case dict_get response ''error'' of Some v \<Rightarrow> v | None \<Rightarrow> JObj [])
            in Inl (application_exn ''STEP_FAILED'' (''Step '' @ step_name @ '' failed: '' @ en_repr (te_env x) err)
                 (\<not> (case err of
                     JObj kvs \<Rightarrow> (case dict_get kvs ''retryable'' of Some v \<Rightarrow> json_truthy v | None \<Rightarrow> False)
                   | _ \<Rightarrow> False))))
      else Inr (field_or_null response ''step_response''))"

definition wait_for_signal ::
    "step_executor \<Rightarrow> 'e temporal \<Rightarrow> string \<Rightarrow> string \<Rightarrow> nat \<Rightarrow> string list \<Rightarrow> 'e flow_world \<Rightarrow>
     (exn + json) \<times> 'e flow_world" where
  "wait_for_signal x tp signal_key step_name timeout_sec alternate_keys w =
     (let accepted = unique_keys (signal_key # alternate_keys);
          ready = (\<lambda>p. list_ex (\<lambda>key. has_message key (pm_signals p)) accepted)
      in (case wait_condition x tp ready (of_nat timeout_sec) w of
          (False, w') \<Rightarrow> (Inl (application_exn ''SIGNAL_TIMEOUT'' (''Step '' @ step_name @ '': no response within '' @
             show_nat timeout_sec @ ''s (signal key '' @ [CHR 0x27] @ signal_key @ [CHR 0x27] @ '')'') False), w')
        | (True, w') \<Rightarrow>
            (case filter (\<lambda>key. has_message key (pm_signals (fw_pending w'))) accepted of
               [] \<Rightarrow> (Inl (raise_kind (PyError ''StopIteration'')), w')
             | key # _ \<Rightarrow>
                 (case pop_signal key (fw_pending w') of
                    Inl e \<Rightarrow> (Inl e, w')
                  | Inr (response, p) \<Rightarrow> (response_value x step_name response, w'\<lparr>fw_pending := p\<rparr>)))))"

definition temporal_wait_for_event ::
    "step_executor \<Rightarrow> 'e temporal \<Rightarrow> string \<Rightarrow> rat \<Rightarrow> 'e flow_world \<Rightarrow> (exn + pyval option) \<times> 'e flow_world" where
  "temporal_wait_for_event x tp signal timeout_sec w =
     (case wait_condition x tp (\<lambda>p. has_message signal (pm_events p)) timeout_sec w of
        (False, w') \<Rightarrow> (Inr None, w')
      | (True, w') \<Rightarrow>
          (case pop_event signal (fw_pending w') of
             Inl e \<Rightarrow> (Inl e, w')
           | Inr (v, p) \<Rightarrow> (Inr (Some (of_json v)), w'\<lparr>fw_pending := p\<rparr>)))"

section \<open>Activities\<close>

definition opt_json :: "json option \<Rightarrow> json" where
  "opt_json v = (case v of Some j \<Rightarrow> j | None \<Rightarrow> JNull)"

definition schema_json :: "schema_source option \<Rightarrow> json" where
  "schema_json s = (case s of None \<Rightarrow> JNull | Some (SchemaInline j) \<Rightarrow> j | Some (SchemaPath p) \<Rightarrow> JStr p)"

definition contract_spec_key :: "step_executor \<Rightarrow> schema_source \<Rightarrow> string" where
  "contract_spec_key x s = (case s of
       SchemaPath p \<Rightarrow> ''pydantic:'' @ p | SchemaInline j \<Rightarrow> ''json-schema:'' @ te_canonical x j)"

text \<open>
  The cache directive of the activity: of a versioned workflow it also names the definition and the
  contract, the two in that order.
\<close>

definition cache_identities :: "step_executor \<Rightarrow> step_invocation \<Rightarrow> exn + string option \<times> string option" where
  "cache_identities x call = (case sl_definition_digest (te_identity x) of
       None \<Rightarrow> Inr (None, None)
     | Some digest \<Rightarrow> (case si_output_schema call of
           None \<Rightarrow> Inr (Some digest, Some UNCONTRACTED_CACHE_IDENTITY)
         | Some s \<Rightarrow> (case dict_get (te_contract_identities x) (contract_spec_key x s) of
               None \<Rightarrow> Inl key_error | Some c \<Rightarrow> Inr (Some digest, Some c))))"

definition cache_json :: "step_executor \<Rightarrow> step_invocation \<Rightarrow> exn + json" where
  "cache_json x call = (case si_cache call of
       None \<Rightarrow> Inr JNull
     | Some c \<Rightarrow> bind_result (cache_identities x call) (\<lambda>(digest, contract).
         Inr (JObj [(''resource'', JStr (cd_resource c)), (''key'', cd_key c),
           (''ttl_sec'', (case cd_ttl_sec c of Some n \<Rightarrow> JInt (int n) | None \<Rightarrow> JNull)),
           (''definition_digest'', opt_json (opt_str digest)), (''contract_identity'', opt_json (opt_str contract))])))"

definition step_payload :: "step_executor \<Rightarrow> 'e temporal \<Rightarrow> step_invocation \<Rightarrow> json \<Rightarrow> json" where
  "step_payload x tp call cache = JObj ([
     (''service_name'', JStr (si_service_name call)), (''action'', JStr (si_action call)), (''input'', si_input call),
     (''globals'', JObj (si_globals call)), (''request_id'', JStr (te_request_id x)),
     (''correlation_id'', JStr (te_correlation_id x)), (''trace_id'', opt_json (opt_str (te_trace_id x))),
     (''workflow_id'', JStr (te_workflow_id x)), (''workflow_run_id'', JStr (te_run_id x)),
     (''flow_name'', JStr (te_flow_name x)),
     (''definition_digest'', opt_json (opt_str (sl_definition_digest (te_identity x)))),
     (''step_name'', JStr (si_step_name call))] @
     set_fields [(''scope_digest'', opt_str (sl_scope_digest (te_identity x)))] @
     [(''cache'', cache), (''input_schema'', schema_json (si_input_schema call)),
      (''output_schema'', schema_json (si_output_schema call))] @
     (if si_required_resources call = [] \<or> \<not> tp_patched tp RESOURCE_GRANTS_PATCH then []
      else [(''required_resources'', JList (map JStr (si_required_resources call)))]))"

definition activity_boundary :: "string \<Rightarrow> string \<Rightarrow> string" where
  "activity_boundary name part = ''activities.'' @ name @ ''.'' @ part"

definition temporal_validate_contract ::
    "step_executor \<Rightarrow> 'e temporal \<Rightarrow> schema_source \<Rightarrow> json \<Rightarrow> string \<Rightarrow> string \<Rightarrow> 'e flow_world \<Rightarrow>
     (exn + unit) \<times> 'e flow_world" where
  "temporal_validate_contract x tp s payload direction name =
     (let arg = JObj [(''schema'', schema_json (Some s)), (''payload'', payload), (''direction'', JStr direction),
            (''boundary_name'', JStr name)]
      in bind_world (payload_within x arg (activity_boundary name ''contract_input'') (rl_activity_input_bytes (te_limits x))) (\<lambda>_.
         await x tp (tp_activity tp \<lparr>at_name = ''validate_contract'', at_arg = arg,
           at_timeout_sec = CONTRACT_VALIDATION_TIMEOUT, at_attempts = CONTRACT_VALIDATION_ATTEMPTS,
           at_retry_intervals = None\<rparr>)))"

text \<open>The keys a response may come under, besides the one that the transport gave.\<close>

definition alternate_signal_keys :: "step_executor \<Rightarrow> 'e temporal \<Rightarrow> step_invocation \<Rightarrow> string list" where
  "alternate_signal_keys x tp call =
     make_signal_key (make_step_invocation_id (te_sha x) (te_workflow_id x) (te_run_id x) (si_step_name call))
       (si_step_name call) (si_action call) #
     (if tp_patched tp QUEUE_INVOCATION_RESPONSE_PATCH
      then [make_signal_key (te_correlation_id x) (si_step_name call) (si_action call)] else [])"

definition asynchronous_result ::
    "step_executor \<Rightarrow> 'e temporal \<Rightarrow> step_invocation \<Rightarrow> step_activity_result \<Rightarrow> 'e flow_world \<Rightarrow>
     (exn + pyval \<times> string option) \<times> 'e flow_world" where
  "asynchronous_result x tp call r = (case (ar_signal_key r, ar_response_timeout_sec r) of
       (Some key, Some timeout) \<Rightarrow>
         bind_world (wait_for_signal x tp key (si_step_name call) timeout (alternate_signal_keys x tp call)) (\<lambda>payload.
         bind_world (case si_output_schema call of
             None \<Rightarrow> Pair (Inr ())
           | Some s \<Rightarrow> temporal_validate_contract x tp s payload ''asynchronous output'' (si_step_name call)) (\<lambda>_.
           Pair (Inr (of_json payload, None))))
     | _ \<Rightarrow> Pair (Inl (application_exn ''INVALID_ASYNC_DISPATCH'' (''Step '' @ si_step_name call @
         '': asynchronous transport result is missing its response key or timeout'') True)))"

definition temporal_run_step ::
    "step_executor \<Rightarrow> 'e temporal \<Rightarrow> step_invocation \<Rightarrow> 'e flow_world \<Rightarrow> (exn + pyval \<times> string option) \<times> 'e flow_world" where
  "temporal_run_step x tp call =
     bind_world (Pair (cache_json x call)) (\<lambda>cache.
     let arg = step_payload x tp call cache
     in bind_world (payload_within x arg (activity_boundary (si_step_name call) ''input'') (rl_activity_input_bytes (te_limits x))) (\<lambda>_.
        (case dict_get (te_services x) (si_service_name call) of
           None \<Rightarrow> Pair (Inl key_error)
         | Some sv \<Rightarrow>
             bind_world (await x tp (tp_step tp \<lparr>at_name = ''execute_step'', at_arg = arg,
                 at_timeout_sec = sv_dispatch_timeout_sec sv, at_attempts = sv_retries sv + 1,
                 at_retry_intervals = Some (INITIAL_RETRY_INTERVAL, MAX_RETRY_INTERVAL)\<rparr>)) (\<lambda>r.
             bind_world (payload_within x (dump_step_result r) (activity_boundary (si_step_name call) ''output'')
                 (rl_activity_output_bytes (te_limits x))) (\<lambda>_.
               if ar_awaiting_signal r then asynchronous_result x tp call r
               else Pair (Inr (of_json (ar_data r), ar_cache r)))))))"

definition temporal_run_evaluator ::
    "step_executor \<Rightarrow> 'e temporal \<Rightarrow> string \<Rightarrow> json \<Rightarrow> string list \<Rightarrow> string \<Rightarrow> 'e flow_world \<Rightarrow>
     (exn + bool) \<times> 'e flow_world" where
  "temporal_run_evaluator x tp evaluator data resources step_name =
     (let arg = JObj [(''evaluator'', JStr evaluator), (''data'', data), (''request_id'', JStr (te_request_id x)),
            (''flow_name'', JStr (te_flow_name x)), (''step_name'', JStr step_name),
            (''resource_names'', JList (map JStr resources))]
      in bind_world (payload_within x arg (activity_boundary step_name ''evaluator_input'') (rl_activity_input_bytes (te_limits x))) (\<lambda>_.
         await x tp (tp_evaluate tp \<lparr>at_name = ''evaluate_condition'', at_arg = arg,
           at_timeout_sec = EVALUATOR_TIMEOUT, at_attempts = EVALUATOR_RETRY_ATTEMPTS, at_retry_intervals = None\<rparr>)))"

text \<open>\<open>workflow.sleep\<close>.\<close>

definition temporal_sleep ::
    "step_executor \<Rightarrow> 'e temporal \<Rightarrow> nat \<Rightarrow> 'e flow_world \<Rightarrow> (exn + unit) \<times> 'e flow_world" where
  "temporal_sleep x tp seconds = await x tp (\<lambda>e. (Inr (), tp_timer tp (of_nat seconds) e))"

definition temporal_archive ::
    "step_executor \<Rightarrow> 'e temporal \<Rightarrow> string \<Rightarrow> json \<Rightarrow> string \<Rightarrow> string \<Rightarrow> json dict \<Rightarrow> 'e flow_world \<Rightarrow>
     (exn + unit) \<times> 'e flow_world" where
  "temporal_archive x tp resource path retention capture record =
     (let arg = JObj [(''resource'', JStr resource), (''path'', path), (''retention_policy'', JStr retention),
            (''capture_mode'', JStr capture), (''record'', JObj record)]
      in bind_world (payload_within x arg ''activities.archive.input'' (rl_activity_input_bytes (te_limits x))) (\<lambda>_.
         await x tp (tp_activity tp \<lparr>at_name = ''archive_workflow'', at_arg = arg, at_timeout_sec = ARCHIVAL_TIMEOUT,
           at_attempts = ARCHIVAL_RETRY_ATTEMPTS, at_retry_intervals = None\<rparr>)))"

section \<open>Child workflows\<close>

definition child_request_id :: "step_executor \<Rightarrow> string \<Rightarrow> exn + string" where
  "child_request_id x step_name = (case sl_scope_digest (te_identity x) of
       None \<Rightarrow> Inr (te_request_id x @ '':'' @ step_name)
     | Some digest \<Rightarrow> (case scoped_identity_from_digest (te_sha x) ''child-workflow'' digest [te_workflow_id x, step_name] of
           Inl _ \<Rightarrow> Inl value_error | Inr v \<Rightarrow> Inr v))"

definition child_trigger :: "step_executor \<Rightarrow> string \<Rightarrow> string \<Rightarrow> json dict \<Rightarrow> workflow_trigger" where
  "child_trigger x workflow request_id globals = \<lparr>
     wt_request_id = request_id, wt_globals = globals, wt_correlation_id = te_propagated_correlation_id x,
     wt_trace_id = te_trace_id x, wt_definition_digest = dict_get (te_child_digests x) workflow,
     wt_worker_deployment = sl_worker_deployment (te_identity x), wt_worker_build_id = sl_worker_build_id (te_identity x),
     wt_worker_artifact = sl_worker_artifact (te_identity x),
     wt_environment_digest = dict_get (te_child_environments x) workflow,
     wt_configuration = sl_configuration (te_identity x), wt_source = None, wt_name = None, wt_source_digest = None,
     wt_correlation_digest = None, wt_scope_digest = sl_scope_digest (te_identity x)\<rparr>"

text \<open>\<open>execution_identity_memo\<close>.\<close>

definition execution_identity_memo ::
    "string \<Rightarrow> string \<Rightarrow> worker_artifact \<Rightarrow> string option \<Rightarrow> string option \<Rightarrow> execution_configuration option \<Rightarrow> json dict" where
  "execution_identity_memo logical_name digest a env_digest scope_digest configuration =
     [(''justflow.logical_workflow'', JStr logical_name), (''justflow.definition_digest'', JStr digest),
      (''justflow.worker_deployment'', JStr (wa_deployment_name a)), (''justflow.worker_build_id'', JStr (wa_build_id a)),
      (''justflow.worker_artifact_digest'', JStr (wa_artifact_digest a)),
      (''justflow.worker_package_version'', JStr (wa_package_version a))] @
     memo_option ''justflow.environment_snapshot_digest'' env_digest @
     memo_option ''justflow.scope_digest'' scope_digest @
     (case configuration of
        None \<Rightarrow> []
      | Some c \<Rightarrow>
          [(''justflow.configuration_revision'', JStr (xc_revision c)),
           (''justflow.configuration_resolution_digest'', JStr (xc_resolution_digest c))] @
          memo_option ''justflow.tenant_configuration_revision'' (xc_tenant_revision c) @
          memo_option ''justflow.component_catalog_revision'' (xc_catalog_revision c) @
          memo_option ''justflow.component_identity_digest'' (xc_component_digest c)) @
     memo_option ''justflow.worker_source_revision'' (wa_source_revision a)"

definition child_memo :: "step_executor \<Rightarrow> string \<Rightarrow> exn + json dict option" where
  "child_memo x workflow = (case dict_get (te_child_digests x) workflow of
       None \<Rightarrow> Inr None
     | Some digest \<Rightarrow>
         (let sl = te_identity x in
          (case sl_worker_artifact sl of
             Some a \<Rightarrow> Inr (Some (execution_identity_memo workflow digest a (dict_get (te_child_environments x) workflow)
               (sl_scope_digest sl) (sl_configuration sl)))
           | None \<Rightarrow> (case (sl_worker_deployment sl, sl_worker_build_id sl) of
                 (Some d, Some b) \<Rightarrow> Inr (Some [(''justflow.logical_workflow'', JStr workflow),
                   (''justflow.definition_digest'', JStr digest), (''justflow.worker_deployment'', JStr d),
                   (''justflow.worker_build_id'', JStr b)])
               | _ \<Rightarrow> Inl identity_mismatch))))"

text \<open>What starts the child, or why it cannot be started.\<close>

definition child_start_of :: "step_executor \<Rightarrow> string \<Rightarrow> string \<Rightarrow> json dict \<Rightarrow> exn + child_start" where
  "child_start_of x workflow step_name globals =
     bind_result (child_request_id x step_name) (\<lambda>request_id.
     let t = child_trigger x workflow request_id globals
     in if \<not> valid_trigger t then Inl validation_error
        else bind_result (child_memo x workflow) (\<lambda>memo. Inr \<lparr>
          cs_type = (case dict_get (te_child_types x) workflow of Some n \<Rightarrow> n | None \<Rightarrow> workflow),
          cs_trigger = dump_trigger t, cs_id = request_id, cs_memo = memo\<rparr>))"

definition temporal_run_subworkflow ::
    "step_executor \<Rightarrow> 'e temporal \<Rightarrow> string \<Rightarrow> string \<Rightarrow> json dict \<Rightarrow> 'e flow_world \<Rightarrow> (exn + pyval) \<times> 'e flow_world" where
  "temporal_run_subworkflow x tp workflow step_name globals =
     bind_world (Pair (child_start_of x workflow step_name globals)) (\<lambda>start.
     bind_world (await x tp (tp_child tp start)) (\<lambda>v. Pair (Inr (of_json v))))"

section \<open>The executor\<close>

definition temporal_executor :: "step_executor \<Rightarrow> 'e temporal \<Rightarrow> 'e flow_world executor" where
  "temporal_executor x tp = \<lparr>
     x_run_step = temporal_run_step x tp, x_run_evaluator = temporal_run_evaluator x tp,
     x_wait_for_event = temporal_wait_for_event x tp, x_sleep = temporal_sleep x tp,
     x_validate_contract = temporal_validate_contract x tp, x_run_subworkflow = temporal_run_subworkflow x tp,
     x_archive = temporal_archive x tp, x_observe_history = (\<lambda>w. tp_history tp (fw_env w)),
     x_now = (\<lambda>w. tp_now tp (fw_env w)),
     x_next_done = (\<lambda>running w. (case tp_next_done tp running (fw_env w) of (k, e) \<Rightarrow> (k, w\<lparr>fw_env := e\<rparr>)))\<rparr>"

end
