(* ===== verification/JF_Compiled.thy ===== *)
theory JF_Compiled
  imports JF_Temporal
begin

text \<open>
  The compiled workflow (\<open>compile_workflow\<close> of \<open>engine/compiler.py\<close>, \<open>WorkflowContinuationInput\<close> of
  \<open>engine/continuation.py\<close>): what is checked when a definition is compiled, and one run of it: the admission
  of its input, a trigger or the state of the run it continues, the flow on the Temporal executor, and the
  input it hands to the run that continues it.

  The coercion of a JSON value into a \<open>WorkflowContinuationInput\<close>, and its dump, are parameters; what
  makes such a value valid is written out.
\<close>

section \<open>Continuations\<close>

record continuation_input =
  cn_sequence :: nat
  cn_previous_run_id :: string
  cn_trigger :: workflow_trigger
  cn_checkpoint :: runner_checkpoint
  cn_signals :: "json dict list dict"
  cn_events :: "json list dict"
  cn_history_events :: int
  cn_history_bytes :: int
  cn_server_suggested :: bool

fun valid_loop :: "loop_checkpoint \<Rightarrow> bool" where
  "valid_loop (IterationLoop c) \<longleftrightarrow> ic_step_name c \<noteq> [] \<and> validate_progress c"
| "valid_loop (UntilLoop c) \<longleftrightarrow> uc_step_name c \<noteq> [] \<and> 1 \<le> uc_attempts_completed c"

definition valid_checkpoint :: "runner_checkpoint \<Rightarrow> bool" where
  "valid_checkpoint ck \<longleftrightarrow> ck_started_at ck \<noteq> [] \<and> ck_next_step_name ck \<noteq> [] \<and>
     pred_option (\<lambda>ep. fep_handler ep \<noteq> []) (ck_active_episode ck) \<and> pred_option valid_loop (ck_loop ck)"

definition validate_request_identity :: "continuation_input \<Rightarrow> bool" where
  "validate_request_identity c \<longleftrightarrow>
     dict_get (ck_params (cn_checkpoint c)) ''request_id'' = Some (JStr (wt_request_id (cn_trigger c)))"

definition valid_continuation :: "continuation_input \<Rightarrow> bool" where
  "valid_continuation c \<longleftrightarrow> 1 \<le> cn_sequence c \<and> bounded_text PAYLOAD_IDENTIFIER_LENGTH (cn_previous_run_id c) \<and>
     valid_trigger (cn_trigger c) \<and> valid_checkpoint (cn_checkpoint c) \<and> 0 \<le> cn_history_events c \<and>
     0 \<le> cn_history_bytes c \<and> validate_request_identity c"

section \<open>Compilation\<close>

text \<open>Of a manifest, what compilation reads; \<open>dm_matches\<close> is \<open>matches_workflow\<close>.\<close>

record definition_manifest =
  dm_logical_name :: string
  dm_definition_digest :: string
  dm_children :: "string dict"
  dm_matches :: "workflow_config \<Rightarrow> bool"

record compiled_workflow =
  cw_config :: workflow_config
  cw_services :: "(string \<times> json dict) list"
  cw_settings :: "service_settings dict"
  cw_limits :: runtime_limits
  cw_identity :: selected_identity
  cw_contract_identities :: "string dict"
  cw_child_types :: "string dict"
  cw_child_digests :: "string dict"
  cw_child_environments :: "string dict"
  cw_temporal_name :: string

text \<open>
  \<open>runtime_workflow_type_name\<close> over \<open>workflow_type_name\<close>, which is given; the scope of local
  development keeps the plain name.
\<close>

definition runtime_workflow_type_name ::
    "(string \<Rightarrow> string) \<Rightarrow> (string \<Rightarrow> string \<Rightarrow> string) \<Rightarrow> string \<Rightarrow> string \<Rightarrow> string option \<Rightarrow> scope_error + string" where
  "runtime_workflow_type_name sha type_name name digest scope_digest = (case scope_digest of
       None \<Rightarrow> Inr (type_name name digest)
     | Some d \<Rightarrow> if d = scope_digest_of sha LOCAL_RUNTIME_SCOPE then Inr (type_name name digest)
         else scoped_identity_from_digest sha ''workflow-type'' d [name, digest])"

datatype compile_error =
    ManifestWithoutDeployment | ManifestWithoutEnvironment | ManifestOfOtherWorkflow | ManifestContentDiffers
  | ChildDefinitionsDiffer | ChildEnvironmentsDiffer | CompileScope scope_error

definition same_dict :: "'v dict \<Rightarrow> 'v dict \<Rightarrow> bool" where
  "same_dict d e \<longleftrightarrow> list_all (\<lambda>k. dict_get d k = dict_get e k) (dict_keys d @ dict_keys e)"

definition compile_checks ::
    "workflow_config \<Rightarrow> definition_manifest option \<Rightarrow> worker_artifact option \<Rightarrow> string option \<Rightarrow> string dict \<Rightarrow>
     compile_error + unit" where
  "compile_checks config manifest deployment env_digest children =
     (if (manifest = None) \<noteq> (deployment = None) then Inl ManifestWithoutDeployment
      else if (manifest = None) \<noteq> (env_digest = None) then Inl ManifestWithoutEnvironment
      else (case manifest of
          None \<Rightarrow> Inr ()
        | Some m \<Rightarrow>
            if dm_logical_name m \<noteq> wc_workflow config then Inl ManifestOfOtherWorkflow
            else if \<not> dm_matches m config then Inl ManifestContentDiffers
            else if \<not> same_dict children (dm_children m) then Inl ChildDefinitionsDiffer
            else Inr ()))"

text \<open>
  The definition digests of the children are those of their manifests. \<open>contracts\<close> are the identities
  of the output contracts, by their keys. A class that an equal registration has made is returned as it is.
\<close>

definition compile_workflow ::
    "(string \<Rightarrow> string) \<Rightarrow> (string \<Rightarrow> string \<Rightarrow> string) \<Rightarrow> workflow_config \<Rightarrow> (string \<times> json dict) list \<Rightarrow>
     service_settings dict \<Rightarrow> runtime_limits \<Rightarrow> definition_manifest option \<Rightarrow> worker_artifact option \<Rightarrow>
     string dict \<Rightarrow> string option \<Rightarrow> string dict \<Rightarrow> string option \<Rightarrow> execution_configuration option \<Rightarrow> string dict \<Rightarrow>
     compile_error + compiled_workflow" where
  "compile_workflow sha type_name config services settings limits manifest artifact children env_digest
     child_environments scope_digest configuration contracts =
     bind_result (compile_checks config manifest artifact env_digest children) (\<lambda>_.
     bind_result (map_sum CompileScope id (case manifest of
         None \<Rightarrow> Inr (wc_workflow config)
       | Some m \<Rightarrow> runtime_workflow_type_name sha type_name (wc_workflow config) (dm_definition_digest m) scope_digest)) (\<lambda>name.
     bind_result (map_sum CompileScope id (map_result (\<lambda>kd. bind_result
         (runtime_workflow_type_name sha type_name (fst kd) (snd kd) scope_digest) (\<lambda>n. Inr (fst kd, n))) children)) (\<lambda>types.
     bind_result (guard_result (set (dict_keys child_environments) = set (dict_keys children)) ChildEnvironmentsDiffer) (\<lambda>_.
       Inr \<lparr>cw_config = config, cw_services = services, cw_settings = settings, cw_limits = limits,
         cw_identity = \<lparr>sl_definition_digest = map_option dm_definition_digest manifest,
           sl_worker_deployment = map_option wa_deployment_name artifact, sl_worker_build_id = map_option wa_build_id artifact,
           sl_worker_artifact = artifact, sl_environment_digest = env_digest, sl_scope_digest = scope_digest,
           sl_configuration = configuration\<rparr>,
         cw_contract_identities = contracts, cw_child_types = types, cw_child_digests = children,
         cw_child_environments = child_environments, cw_temporal_name = name\<rparr>))))"

section \<open>Admission of a run\<close>

definition EXECUTION_PROVENANCE_PATCH :: string where
  "EXECUTION_PROVENANCE_PATCH = ''justflow-execution-provenance-v1''"
definition ENVIRONMENT_SNAPSHOT_PATCH :: string where
  "ENVIRONMENT_SNAPSHOT_PATCH = ''justflow-environment-snapshot-v1''"
definition RUNTIME_SCOPE_PATCH :: string where "RUNTIME_SCOPE_PATCH = ''justflow-runtime-scope-v1''"
definition EXECUTION_CONFIGURATION_PATCH :: string where
  "EXECUTION_CONFIGURATION_PATCH = ''justflow-execution-configuration-v1''"
definition BOUNDED_EXECUTION_PATCH :: string where "BOUNDED_EXECUTION_PATCH = ''justflow-bounded-execution-v1''"
definition TIMEZONE_AWARE_DEADLINES_PATCH :: string where
  "TIMEZONE_AWARE_DEADLINES_PATCH = ''justflow-timezone-aware-deadlines-v1''"

text \<open>The identities a run selects: those that its patches know.\<close>

definition selected :: "(string \<Rightarrow> bool) \<Rightarrow> selected_identity \<Rightarrow> selected_identity" where
  "selected patched sl = sl\<lparr>
     sl_worker_artifact := (if patched EXECUTION_PROVENANCE_PATCH then sl_worker_artifact sl else None),
     sl_environment_digest := (if patched ENVIRONMENT_SNAPSHOT_PATCH then sl_environment_digest sl else None),
     sl_scope_digest := (if patched RUNTIME_SCOPE_PATCH then sl_scope_digest sl else None),
     sl_configuration := (if patched EXECUTION_CONFIGURATION_PATCH then sl_configuration sl else None)\<rparr>"

text \<open>What a run knows of its environment; \<open>xi_continued_from\<close> is the run it continues.\<close>

record execution_info =
  xi_workflow_id :: string
  xi_run_id :: string
  xi_continued_from :: "string option"

text \<open>The parameters that every run of every workflow has.\<close>

record engine =
  eg_env :: environment
  eg_canonical :: "json \<Rightarrow> string"
  eg_sha :: "string \<Rightarrow> string"
  eg_parse_continuation :: "json \<Rightarrow> continuation_input option"
  eg_dump_continuation :: "continuation_input \<Rightarrow> json"

record admitted_run =
  am_trigger :: workflow_trigger
  am_continuation :: "continuation_input option"
  am_pending :: pending_messages

definition admit_first ::
    "engine \<Rightarrow> runtime_limits \<Rightarrow> json \<Rightarrow> pending_messages \<Rightarrow> exn + admitted_run" where
  "admit_first eg limits input p =
     bind_result (enforce_payload_bytes (en_bytes (eg_env eg) input) ''workflow.trigger'' (nat (rl_trigger_payload_bytes limits))) (\<lambda>_.
     (case parse_trigger input of
        None \<Rightarrow> Inl validation_error
      | Some t \<Rightarrow> Inr \<lparr>am_trigger = t, am_continuation = None, am_pending = p\<rparr>))"

definition admit_continued ::
    "engine \<Rightarrow> runtime_limits \<Rightarrow> string \<Rightarrow> json \<Rightarrow> pending_messages \<Rightarrow> exn + admitted_run" where
  "admit_continued eg limits continued_from input p =
     bind_result (enforce_payload_bytes (en_bytes (eg_env eg) input) ''workflow.continuation.input''
       (nat (rl_continuation_input_bytes limits))) (\<lambda>_.
     (case eg_parse_continuation eg input of
        None \<Rightarrow> Inl validation_error
      | Some c \<Rightarrow>
          if \<not> valid_continuation c then Inl validation_error
          else if cn_previous_run_id c \<noteq> continued_from then Inl identity_mismatch
          else (let pending = merge_pending \<lparr>pm_signals = cn_signals c, pm_events = cn_events c\<rparr> p
                in bind_result (validate_pending (en_bytes (eg_env eg)) limits pending) (\<lambda>_.
                   Inr \<lparr>am_trigger = cn_trigger c, am_continuation = Some c, am_pending = pending\<rparr>))))"

definition admit_run ::
    "engine \<Rightarrow> runtime_limits \<Rightarrow> selected_identity \<Rightarrow> execution_info \<Rightarrow> json \<Rightarrow> pending_messages \<Rightarrow> exn + admitted_run" where
  "admit_run eg limits sl info input p =
     bind_result (case xi_continued_from info of
         None \<Rightarrow> admit_first eg limits input p
       | Some previous \<Rightarrow> admit_continued eg limits previous input p) (\<lambda>am.
     bind_result (verify_trigger_identity (am_trigger am) sl) (\<lambda>_. Inr am))"

section \<open>A run\<close>

text \<open>
  How a run ends: with its record, with the input of the run that continues it, failed, cancelled, or with
  an exception that fails the workflow task, which Temporal runs again.
\<close>

datatype workflow_outcome =
    WorkflowCompleted "json dict"
  | WorkflowContinued json
  | WorkflowFailed execution_error
  | WorkflowCancelled exn
  | TaskFailed exn

definition escaped :: "exn \<Rightarrow> workflow_outcome" where
  "escaped e = (if is_cancellation e then WorkflowCancelled e else TaskFailed e)"

definition failed_envelope ::
    "engine \<Rightarrow> compiled_workflow \<Rightarrow> selected_identity \<Rightarrow> execution_info \<Rightarrow> string option \<Rightarrow> failure_phase \<Rightarrow> failure_code \<Rightarrow>
     string \<Rightarrow> exn \<Rightarrow> workflow_outcome" where
  "failed_envelope eg cw sl info request_id phase code timestamp e =
     (case envelope_error (eg_env eg) (cw_limits cw) (wc_workflow (cw_config cw)) request_id
         (envelope_identity sl (xi_run_id info)) phase code timestamp e of
        None \<Rightarrow> TaskFailed serialization_error
      | Some xe \<Rightarrow> WorkflowFailed xe)"

text \<open>The \<open>except\<close> clauses of the admission.\<close>

definition refused_run ::
    "engine \<Rightarrow> compiled_workflow \<Rightarrow> selected_identity \<Rightarrow> execution_info \<Rightarrow> json \<Rightarrow> string \<Rightarrow> exn \<Rightarrow> workflow_outcome" where
  "refused_run eg cw sl info input timestamp e =
     (if is_limit_exceeded e
      then failed_envelope eg cw sl info (request_id_of input) PhTrigger LIMIT_EXCEEDED timestamp e
      else if is_validation_error e
      then failed_envelope eg cw sl info (request_id_of input) PhTrigger INVALID_TRIGGER timestamp value_error
      else if e = identity_mismatch
      then failed_envelope eg cw sl info (request_id_of input) PhTrigger INVALID_TRIGGER timestamp e
      else escaped e)"

definition executor_of ::
    "engine \<Rightarrow> compiled_workflow \<Rightarrow> selected_identity \<Rightarrow> execution_info \<Rightarrow> workflow_trigger \<Rightarrow> step_executor" where
  "executor_of eg cw sl info t = \<lparr>
     te_request_id = wt_request_id t, te_propagated_correlation_id = wt_correlation_id t, te_trace_id = wt_trace_id t,
     te_workflow_id = xi_workflow_id info, te_run_id = xi_run_id info, te_flow_name = wc_workflow (cw_config cw),
     te_limits = cw_limits cw, te_identity = sl, te_contract_identities = cw_contract_identities cw,
     te_child_types = cw_child_types cw, te_child_digests = cw_child_digests cw,
     te_child_environments = cw_child_environments cw, te_services = cw_settings cw, te_env = eg_env eg,
     te_canonical = eg_canonical eg, te_sha = eg_sha eg\<rparr>"

definition has_runtime_deadline :: "workflow_config \<Rightarrow> bool" where
  "has_runtime_deadline config \<longleftrightarrow>
     list_ex (\<lambda>s. case fs_wait_for s of Some w \<Rightarrow> wf_timeout_until w \<noteq> None | None \<Rightarrow> False) (wc_flow config)"

definition runner_of ::
    "engine \<Rightarrow> compiled_workflow \<Rightarrow> 'e temporal \<Rightarrow> selected_identity \<Rightarrow> execution_info \<Rightarrow> workflow_trigger \<Rightarrow>
     'e flow_world runner" where
  "runner_of eg cw tp sl info t = \<lparr>
     rn_config = cw_config cw, rn_services = cw_services cw, rn_limits = cw_limits cw,
     rn_bounded = tp_patched tp BOUNDED_EXECUTION_PATCH,
     rn_timezone_aware = (\<not> has_runtime_deadline (cw_config cw) \<or> tp_patched tp TIMEZONE_AWARE_DEADLINES_PATCH),
     rn_identity = (envelope_identity sl (xi_run_id info))\<lparr>ri_trigger_source := wt_source t, ri_trigger_name := wt_name t,
       ri_source_identity_digest := wt_source_digest t, ri_correlation_identity_digest := wt_correlation_digest t\<rparr>,
     rn_executor = temporal_executor (executor_of eg cw sl info t) tp, rn_env = eg_env eg\<rparr>"

text \<open>What the fresh run is given, and the removal of the identities that this run's patches do not know.\<close>

definition continuation_of ::
    "execution_info \<Rightarrow> admitted_run \<Rightarrow> runner_checkpoint \<Rightarrow> history_observation \<Rightarrow> pending_messages \<Rightarrow> continuation_input" where
  "continuation_of info am ck obs p = \<lparr>
     cn_sequence = (case am_continuation am of Some c \<Rightarrow> Suc (cn_sequence c) | None \<Rightarrow> 1),
     cn_previous_run_id = xi_run_id info, cn_trigger = am_trigger am, cn_checkpoint = ck, cn_signals = pm_signals p,
     cn_events = pm_events p, cn_history_events = ho_events obs, cn_history_bytes = ho_bytes obs,
     cn_server_suggested = ho_server_suggested obs\<rparr>"

definition without_trigger_field :: "string \<Rightarrow> json \<Rightarrow> json" where
  "without_trigger_field k j = (case j of
       JObj kvs \<Rightarrow> (case dict_get kvs ''trigger'' of
           Some (JObj t) \<Rightarrow> JObj (dict_set ''trigger'' (JObj (AList.delete k t)) kvs)
         | _ \<Rightarrow> j)
     | _ \<Rightarrow> j)"

definition known_trigger_fields :: "(string \<Rightarrow> bool) \<Rightarrow> selected_identity \<Rightarrow> json \<Rightarrow> json" where
  "known_trigger_fields patched sl j =
     fold without_trigger_field
       ((if patched EXECUTION_PROVENANCE_PATCH then [] else [''worker_artifact'']) @
        (if patched ENVIRONMENT_SNAPSHOT_PATCH then [] else [''environment_snapshot_digest'']) @
        (if sl_scope_digest sl \<noteq> None \<and> patched RUNTIME_SCOPE_PATCH then [] else [''scope_digest'']) @
        (if sl_configuration sl \<noteq> None \<and> patched EXECUTION_CONFIGURATION_PATCH then [] else [''execution_configuration''])) j"

text \<open>\<open>except FlowContinuation\<close>: the constructor validates, and its error is caught by no clause.\<close>

definition continue_run ::
    "engine \<Rightarrow> compiled_workflow \<Rightarrow> 'e temporal \<Rightarrow> execution_info \<Rightarrow> admitted_run \<Rightarrow> runner_checkpoint \<Rightarrow> 'e flow_world \<Rightarrow>
     workflow_outcome" where
  "continue_run eg cw tp info am ck w =
     (let c = continuation_of info am ck (tp_history tp (fw_env w)) (fw_pending w);
          sl = selected (tp_patched tp) (cw_identity cw);
          j = known_trigger_fields (tp_patched tp) (cw_identity cw) (eg_dump_continuation eg c)
      in if \<not> valid_continuation c then TaskFailed validation_error
         else (case enforce_payload_bytes (en_bytes (eg_env eg) j) ''workflow.continuation.input''
               (nat (rl_continuation_input_bytes (cw_limits cw))) of
             Inl e \<Rightarrow> if is_limit_exceeded e
               then failed_envelope eg cw sl info (Some (wt_request_id (am_trigger am))) PhInternal LIMIT_EXCEEDED
                      (en_iso (eg_env eg) (tp_now tp (fw_env w))) e
               else escaped e
           | Inr _ \<Rightarrow> WorkflowContinued j))"

definition run_result ::
    "engine \<Rightarrow> compiled_workflow \<Rightarrow> 'e temporal \<Rightarrow> execution_info \<Rightarrow> admitted_run \<Rightarrow> run_outcome \<Rightarrow> 'e flow_world \<Rightarrow>
     workflow_outcome" where
  "run_result eg cw tp info am out w = (case out of
       RunCompleted record \<Rightarrow> WorkflowCompleted record
     | RunContinued ck \<Rightarrow> continue_run eg cw tp info am ck w
     | RunFailed xe \<Rightarrow> WorkflowFailed xe
     | RunRaised e \<Rightarrow> escaped e)"

text \<open>A message that was not taken ends the run, whatever the flow does.\<close>

definition stopped_or :: "'e flow_world \<Rightarrow> workflow_outcome \<Rightarrow> workflow_outcome" where
  "stopped_or w out = (case fw_stopped w of
       Some (MessageRefused xe) \<Rightarrow> WorkflowFailed xe
     | Some (HandlerBroke e) \<Rightarrow> escaped e
     | _ \<Rightarrow> out)"

text \<open>
  \<open>_run\<close>: \<open>early\<close> messages come before the run method starts, when the workflow has no selected
  identities yet. \<open>None\<close> is a flow that has not ended within the fuel.
\<close>

definition initial_executor :: "engine \<Rightarrow> compiled_workflow \<Rightarrow> execution_info \<Rightarrow> step_executor" where
  "initial_executor eg cw info = executor_of eg cw (selected (\<lambda>_. False) (cw_identity cw)) info
     \<lparr>wt_request_id = [], wt_globals = [], wt_correlation_id = None, wt_trace_id = None, wt_definition_digest = None,
      wt_worker_deployment = None, wt_worker_build_id = None, wt_worker_artifact = None, wt_environment_digest = None,
      wt_configuration = None, wt_source = None, wt_name = None, wt_source_digest = None,
      wt_correlation_digest = None, wt_scope_digest = None\<rparr>"

definition run_admitted ::
    "engine \<Rightarrow> compiled_workflow \<Rightarrow> 'e temporal \<Rightarrow> nat \<Rightarrow> execution_info \<Rightarrow> admitted_run \<Rightarrow> 'e flow_world \<Rightarrow>
     (workflow_outcome \<times> 'e flow_world) option" where
  "run_admitted eg cw tp fuel info am w =
     (case run (runner_of eg cw tp (selected (tp_patched tp) (cw_identity cw)) info (am_trigger am)) fuel
         (wt_request_id (am_trigger am)) (of_json (JObj (wt_globals (am_trigger am))))
         (map_option cn_checkpoint (am_continuation am)) (w\<lparr>fw_pending := am_pending am\<rparr>) of
        None \<Rightarrow> None
      | Some (out, m) \<Rightarrow> Some (stopped_or (m_world m) (run_result eg cw tp info am out (m_world m)), m_world m))"

definition run_compiled ::
    "engine \<Rightarrow> compiled_workflow \<Rightarrow> 'e temporal \<Rightarrow> nat \<Rightarrow> execution_info \<Rightarrow> nat \<Rightarrow> json \<Rightarrow> 'e flow_world \<Rightarrow>
     (workflow_outcome \<times> 'e flow_world) option" where
  "run_compiled eg cw tp fuel info early input w =
     (let w0 = receive_messages (initial_executor eg cw info) tp early (w\<lparr>fw_pending := no_messages, fw_stopped := None\<rparr>);
          sl = selected (tp_patched tp) (cw_identity cw)
      in (case admit_run eg (cw_limits cw) sl info input (fw_pending w0) of
           Inl e \<Rightarrow> Some (stopped_or w0 (refused_run eg cw sl info input (en_iso (eg_env eg) (tp_now tp (fw_env w0))) e), w0)
         | Inr am \<Rightarrow> run_admitted eg cw tp fuel info am w0))"

end
