(* ===== verification/JF_Requests.thy ===== *)
theory JF_Requests
  imports JF_Compiled JF_Start
begin

text \<open>
  What a requested checkpoint holds. The laws of \<open>JF_Frames\<close> are extended to whole steps and flows: a
  relation that also allows the changes of a step's own records is kept by every flow. Its interpretation
  shows that the parameters of a checkpoint are those the run was prepared with.
\<close>

section \<open>Relations kept by steps and flows\<close>

locale step_relation = loop_relation R for R :: "'w mach \<Rightarrow> 'w mach \<Rightarrow> bool" +
  assumes R_records: "R m (m\<lparr>m_outputs := outputs, m_timings := timings, m_transitions := transitions,
      m_failures := failures, m_episode := episode\<rparr>)"
    and R_position: "R m (m\<lparr>m_phase := phase, m_step := step, m_step_started := started, m_next_seq := seq\<rparr>)"
begin

lemma R_recordsI:
  "m' = m\<lparr>m_outputs := m_outputs m', m_timings := m_timings m', m_transitions := m_transitions m',
     m_failures := m_failures m', m_episode := m_episode m'\<rparr> \<Longrightarrow> R m m'"
  using R_records by metis

lemma R_positionI:
  "m' = m\<lparr>m_phase := m_phase m', m_step := m_step m', m_step_started := m_step_started m', m_next_seq := m_next_seq m'\<rparr> \<Longrightarrow>
     R m m'"
  using R_position by metis

lemma stays_set_timing [intro!]: "stays (set_timing name e)"
  by (auto simp: set_timing_def intro!: stays_modify R_recordsI)

lemma stays_add_transition [intro!]: "stays (add_transition t)"
  by (auto simp: add_transition_def intro!: stays_modify R_recordsI)

lemma stays_add_decision [intro!]: "stays (add_decision t)"
  by (auto simp: add_decision_def split: option.split)

lemma stays_store_result [intro!]: "stays (store_result step v)"
  by (intro staysI) (auto simp: store_result_def R_refl intro!: R_recordsI split: sum.splits)

lemma stays_begin_step [intro!]: "stays (modify (begin_step name seq))"
proof (rule stays_modify)
  fix m :: "'w mach"
  let ?m = "m\<lparr>m_phase := PhStep, m_step := Some name, m_step_started := None, m_next_seq := seq\<rparr>"
  have "R m ?m" by (rule R_positionI) simp
  moreover have "R ?m (begin_step name seq m)" by (rule R_recordsI) (simp add: begin_step_def)
  ultimately show "R m (begin_step name seq m)" by (rule R_trans)
qed

lemma stays_operation_failed [intro!]: "stays (operation_failed rn step seq started e)"
  unfolding operation_failed_def Let_def
  by (intro stays_if stays_throw stays_bind stays_gets)
     (auto split: option.split intro!: stays_modify R_recordsI)

lemma stays_operation_done [intro!]: "stays (operation_done rn step seq globals input started r)"
  unfolding operation_done_def case_prod_unfold by (auto split: option.split)

lemma stays_operation_step [intro!]: "stays (operation_step rn step sd input globals seq started loop)"
proof (rule staysI)
  fix m r m'
  assume run: "operation_step rn step sd input globals seq started loop m = (r, m')"
  obtain r1 m1 where op: "run_operation rn step sd input globals seq started loop m = (r1, m1)" by fastforce
  have "R m m1" by (rule staysD [OF stays_run_operation op])
  moreover have "R m1 m'"
    using run op by (cases r1) (auto simp: operation_step_def intro: staysD [OF stays_operation_failed] staysD [OF stays_operation_done])
  ultimately show "R m m'" by (rule R_trans)
qed

lemma stays_sleep_step [intro!]: "stays (sleep_step rn step seconds seq)"
  by (auto simp: sleep_step_def)

lemma stays_wait_step [intro!]: "stays (wait_step rn step wt seq)"
  unfolding wait_step_def wait_timed_out_def wait_received_def case_prod_unfold by (auto split: option.split)

lemma stays_op_step [intro!]: "stays (op_step rn step seq loop)"
  unfolding op_step_def skip_step_def case_prod_unfold
  by (auto split: option.split loop_checkpoint.split intro!: stays_modify R_positionI stays_pure)

lemma stays_execute_step: "stays (execute_step rn name seq loop)"
  unfolding execute_step_def by (auto split: option.split)

lemma stays_set_phase [intro!]: "stays (set_phase p)"
  by (auto simp: set_phase_def intro!: stays_modify R_positionI)

lemma stays_contract_check [intro!]: "stays (contract_check rn schema payload direction)"
  by (auto simp: contract_check_def split: option.split)

lemma stays_complete_run: "stays (complete_run rn request_id reason)"
  unfolding complete_run_def workflow_result_def archive_completed_def
  by (auto split: option.split sum.split intro!: stays_modify R_recordsI stays_pure)

lemma flow_loop_stays: "flow_loop rn fuel name seq loop m = Some (r, m') \<Longrightarrow> R m m'"
proof (induction fuel arbitrary: name seq loop m)
  case (Suc fuel)
  show ?case
  proof (cases "truthy_name name")
    case True
    obtain r1 m1 where ex: "execute_step rn (the name) seq loop m = (r1, m1)" by fastforce
    then have m1: "R m m1" by (rule staysD [OF stays_execute_step])
    show ?thesis
    proof (cases r1)
      case (Inr out)
      with Suc True ex m1 show ?thesis by (cases out) (auto intro: R_trans)
    qed (use Suc.prems True ex m1 in auto)
  qed (use Suc.prems R_refl in auto)
qed simp

end

section \<open>The parameters of a checkpoint\<close>

definition keeps_params :: "'w mach \<Rightarrow> 'w mach \<Rightarrow> bool" where
  "keeps_params m m' \<longleftrightarrow> m_params m' = m_params m \<and>
     (m_requested m' = m_requested m \<or> (\<exists>ck. m_requested m' = Some ck \<and> ck_params ck = m_params m))"

interpretation requests: step_relation keeps_params
  by unfold_locales (auto simp: keeps_params_def)

lemma prepare_requests: "prepare_run rn request_id tg m = (r, m') \<Longrightarrow> m_requested m' = m_requested m"
proof -
  have "unrequested.stays (prepare_run rn request_id tg)"
    by (auto simp: prepare_run_def set_phase_def contract_check_def intro!: unrequested.stays_modify split: option.split)
  then show "prepare_run rn request_id tg m = (r, m') \<Longrightarrow> m_requested m' = m_requested m"
    by (rule unrequested.staysD)
qed

lemma execute_requests:
  assumes "execute rn fuel tg None m = Some (r, m')" "m_requested m = None" "m_requested m' = Some ck"
  shows "\<exists>globals request_id. ci_request_id (m_correlation m) = Some request_id \<and>
    build_params rn request_id globals = Inr (ck_params ck)"
proof -
  obtain request_id where rid: "ci_request_id (m_correlation m) = Some request_id"
    using assms by (auto simp: execute_def split: option.splits)
  obtain r1 m1 where prep: "prepare_run rn request_id tg m = (r1, m1)" by fastforce
  have none: "m_requested m1 = None" using prepare_requests [OF prep] assms(2) by simp
  obtain u where r1: "r1 = Inr u"
    using assms(1,3) rid prep none by (cases r1) (auto simp: execute_def)
  then obtain s flow where flow: "wc_flow (rn_config rn) = s # flow"
    using assms(1,3) rid prep none by (cases "wc_flow (rn_config rn)") (auto simp: execute_def)
  with assms(1) rid prep r1 obtain r2 m2 where loop: "flow_loop rn fuel (Some (fs_name s)) 0 None m1 = Some (r2, m2)"
    and rest: "(case r2 of Inl e \<Rightarrow> (Inl e, m2) | Inr reason \<Rightarrow> complete_run rn request_id reason m2) = (r, m')"
    by (auto simp: execute_def split: option.splits sum.splits prod.splits)
  have "keeps_params m1 m2" by (rule requests.flow_loop_stays [OF loop])
  moreover have "keeps_params m2 m'"
    using rest requests.R_refl [of m2] by (auto split: sum.splits intro: requests.staysD [OF requests.stays_complete_run])
  ultimately have "keeps_params m1 m'" by (rule requests.R_trans)
  then have "ck_params ck = m_params m1" using none assms(3) by (auto simp: keeps_params_def)
  with prepare_runD(9) [OF prep [unfolded r1]] rid show ?thesis by auto
qed

text \<open>A run that was not itself continued asks for a fresh history with the parameters it was prepared with.\<close>

lemma continued_params:
  assumes "run rn fuel request_id tg None w = Some (RunContinued ck, m)"
  shows "m_requested m = Some ck \<and>
    (\<exists>globals. build_params rn (bounded request_id MAX_CORRELATION_VALUE_LENGTH) globals = Inr (ck_params ck))"
proof -
  obtain r where ex: "execute rn fuel tg None (fresh_state rn request_id w) = Some (r, m)" and req: "m_requested m = Some ck"
    using assms by (auto simp: run_def start_state_def archive_failure_def Let_def split: option.splits sum.splits if_splits prod.splits)
  from execute_requests [OF ex _ req] req show ?thesis
    by (auto simp: fresh_state_def correlation_identity_of_def bounded_id_def)
qed

section \<open>The request identity among the parameters\<close>

lemma map_of_related:
  "list_all2 (\<lambda>x y. fst y = fst x \<and> P (snd x) (snd y)) xs ys \<Longrightarrow> map_of xs k = Some v \<Longrightarrow>
     \<exists>v'. map_of ys k = Some v' \<and> P v v'"
  by (induction rule: list_all2_induct) (auto split: if_splits)

lemma no_placeholders: "CHR ''$'' \<notin> set s \<Longrightarrow> parse_placeholders s = Inr []"
proof -
  assume s: "CHR ''$'' \<notin> set s"
  have "\<not> starts_at s ''${'' k" for k
  proof
    assume "starts_at s ''${'' k"
    then have "take 2 (drop k s) = ''${''" by (simp add: starts_at_def numeral_2_eq_2)
    then have "CHR ''$'' \<in> set (take 2 (drop k s))" by simp
    with s show False using in_set_takeD in_set_dropD by fast
  qed
  then have "str_find s ''${'' 0 = None" using str_find_Some [of s "''${''" 0] by (cases "str_find s ''${'' 0") auto
  then show ?thesis by (simp add: parse_placeholders_def parse_placeholders_from.simps)
qed

lemma build_params_request_id:
  assumes "build_params rn request_id globals = Inr params" "CHR ''$'' \<notin> set request_id"
  shows "dict_get params ''request_id'' = Some (JStr request_id)"
proof -
  let ?raw = "dict_set ''request_id'' (JStr request_id)
            (dict_update (map (\<lambda>kv. (fst kv, JStr (snd kv))) (wc_params (rn_config rn))) globals)"
  obtain v where v: "interpolate rn (JObj ?raw) ?raw = Inr v" "normalize_object rn ''workflow.params'' (of_json v) = Inr params"
    using assms by (auto simp: build_params_def Let_def bind_result_def split: sum.splits if_splits)
  obtain kvs where kvs: "v = JObj kvs"
    "list_all2 (\<lambda>kv kv'. \<exists>x. interpolate_params (en_repr (rn_env rn)) ?raw (snd kv) = Inr x \<and> kv' = (fst kv, x)) ?raw kvs"
    using v(1) by (auto simp: interpolate_def map_result_eq_Inr)
  have related: "list_all2 (\<lambda>kv kv'. fst kv' = fst kv \<and> interpolate_params (en_repr (rn_env rn)) ?raw (snd kv) = Inr (snd kv')) ?raw kvs"
    using kvs(2) by (rule list.rel_mono_strong) auto
  have "v = JObj params"
    using v(2) by (auto simp: normalize_object_def data_result_def normalize_json_object_def bind_result_def
        split: sum.splits json.splits dest!: normalize_json_same)
  moreover have "map_of ?raw ''request_id'' = Some (JStr request_id)" by (simp add: dict_simps)
  ultimately show ?thesis
    using map_of_related [OF related] kvs(1) no_placeholders [OF assms(2)]
    by (fastforce simp: interpolate_string_def)
qed

lemma continued_request_id:
  assumes "run rn fuel request_id tg None w = Some (RunContinued ck, m)" "CHR ''$'' \<notin> set request_id"
  shows "dict_get (ck_params ck) ''request_id'' = Some (JStr (bounded request_id MAX_CORRELATION_VALUE_LENGTH))"
proof -
  have "CHR ''$'' \<notin> set (bounded request_id MAX_CORRELATION_VALUE_LENGTH)"
    using assms(2) by (auto simp: bounded_def dest: in_set_takeD)
  with continued_params [OF assms(1)] show ?thesis by (auto dest: build_params_request_id)
qed

lemma bounded_same: "0 < n \<Longrightarrow> bounded s n = s \<longleftrightarrow> length s \<le> n"
  using length_bounded [of n s] by (auto simp: bounded_def)

end
