(* ===== verification/JF_Continuations.thy ===== *)
theory JF_Continuations
  imports JF_Requests JF_Relay
begin

text \<open>
  Runs that continue one another, and what reaches them: the input a run hands on and its admission by the
  next one, the identity of the request in it, child workflows, and events from the relay.
\<close>

section \<open>Messages\<close>


section \<open>Continued runs\<close>



section \<open>The identity of the request\<close>

lemma request_identity_kept:
  assumes "run (runner_of eg cw tp sl info (am_trigger am)) fuel (wt_request_id (am_trigger am)) tg None w
      = Some (RunContinued ck, m)"
    and "CHR ''$'' \<notin> set (wt_request_id (am_trigger am))"
  shows "(validate_request_identity (continuation_of info am ck obs p) \<longleftrightarrow>
      length (wt_request_id (am_trigger am)) \<le> MAX_CORRELATION_VALUE_LENGTH) \<and>
    (MAX_CORRELATION_VALUE_LENGTH < length (wt_request_id (am_trigger am)) \<longrightarrow>
      run_result eg cw tp info am (RunContinued ck) (m_world m) = TaskFailed validation_error)"
proof -
  have same: "validate_request_identity (continuation_of info am ck obs' p') \<longleftrightarrow>
      length (wt_request_id (am_trigger am)) \<le> MAX_CORRELATION_VALUE_LENGTH" for obs' p'
    using continued_request_id [OF assms]
    by (simp add: validate_request_identity_def continuation_of_def bounded_same MAX_CORRELATION_VALUE_LENGTH_def)
  then show ?thesis by (auto simp: run_result_def continue_run_def Let_def valid_continuation_def)
qed


section \<open>Child workflows\<close>

lemma child_startD:
  assumes "child_start_of x workflow step_name globals = Inr start"
  shows "valid_trigger (child_trigger x workflow (cs_id start) globals)"
    "cs_trigger start = dump_trigger (child_trigger x workflow (cs_id start) globals)"
    "child_request_id x step_name = Inr (cs_id start)"
    "cs_type start = (case dict_get (te_child_types x) workflow of Some n \<Rightarrow> n | None \<Rightarrow> workflow)"
  using assms by (auto simp: child_start_of_def Let_def bind_result_eq_Inr split: if_splits)

lemma child_parsed:
  "child_start_of x workflow step_name globals = Inr start \<Longrightarrow>
     parse_trigger (cs_trigger start) = Some (child_trigger x workflow (cs_id start) globals)"
  using child_startD parse_dump_trigger by metis

text \<open>In a scope, the identity of a child is longer than the identity of a correlation may be.\<close>

lemma scoped_child_id:
  assumes "child_start_of x workflow step_name globals = Inr start" "sl_scope_digest (te_identity x) = Some d"
    and "\<And>s. is_digest (te_sha x s)"
  shows "MAX_CORRELATION_VALUE_LENGTH < length (cs_id start)" "CHR ''$'' \<notin> set (cs_id start)"
proof -
  let ?h = "te_sha x (json_texts [te_workflow_id x, step_name])"
  have id: "cs_id start = identity_prefix ''child-workflow'' d @ ?h" "is_digest d"
    using child_startD(3) [OF assms(1)] assms(2)
    by (auto simp: child_request_id_def scoped_identity_from_digest_def validate_scope_digest_def bind_result_eq_Inr
        split: sum.splits if_splits)
  have hex: "length s = 64" "CHR ''$'' \<notin> set s" if "is_digest s" for s
    using that by (auto simp: is_digest_def SCOPE_DIGEST_LENGTH_def list_all_iff is_lower_hex_def is_digit_def char_code_def)
  show "MAX_CORRELATION_VALUE_LENGTH < length (cs_id start)"
    using hex(1) [OF id(2)] hex(1) [OF assms(3)]
    by (simp add: id identity_prefix_def SCOPED_IDENTITY_VERSION_def MAX_CORRELATION_VALUE_LENGTH_def)
  show "CHR ''$'' \<notin> set (cs_id start)"
    using hex(2) [OF id(2)] hex(2) [OF assms(3)] by (simp add: id identity_prefix_def SCOPED_IDENTITY_VERSION_def)
qed

text \<open>
  C13. In a runtime scope no child workflow can be continued by a fresh history: the trigger that its parent
  starts it with has a request identity that is too long for it.
\<close>

theorem scoped_child_cannot_continue:
  assumes "child_start_of x workflow step_name globals = Inr start" "sl_scope_digest (te_identity x) = Some d"
    and "\<And>s. is_digest (te_sha x s)"
    and "admit_run eg limits sl info (cs_trigger start) p = Inr am" "xi_continued_from info = None"
    and "run (runner_of eg cw tp sl info (am_trigger am)) fuel (wt_request_id (am_trigger am)) tg None w
      = Some (RunContinued ck, m)"
  shows "run_result eg cw tp info am (RunContinued ck) (m_world m) = TaskFailed validation_error"
proof -
  have "am_trigger am = child_trigger x workflow (cs_id start) globals"
    using assms(4,5) child_parsed [OF assms(1)]
    by (auto simp: admit_run_def admit_first_def bind_result_eq_Inr)
  then have id: "wt_request_id (am_trigger am) = cs_id start" by (simp add: child_trigger_def)
  show ?thesis
    using request_identity_kept [OF assms(6)] scoped_child_id [OF assms(1-3)] unfolding id by blast
qed

lemma map_sum_Inr_id [simp]: "map_sum f id r = Inr y \<longleftrightarrow> r = Inr y"
  by (cases r) auto

lemma compile_identity:
  assumes "compile_workflow sha tn config services settings limits manifest artifact children env_digest
      child_envs scope_digest configuration contracts = Inr cw"
  shows "cw_identity cw = \<lparr>sl_definition_digest = map_option dm_definition_digest manifest,
      sl_worker_deployment = map_option wa_deployment_name artifact, sl_worker_build_id = map_option wa_build_id artifact,
      sl_worker_artifact = artifact, sl_environment_digest = env_digest, sl_scope_digest = scope_digest,
      sl_configuration = configuration\<rparr>"
    "cw_child_digests cw = children" "cw_child_environments cw = child_envs" "cw_limits cw = limits" "cw_config cw = config"
    "compile_checks config manifest artifact env_digest children = Inr ()" "set (dict_keys child_envs) = set (dict_keys children)"
  using assms by (auto simp: compile_workflow_def bind_result_eq_Inr guard_result_def split: if_splits)

lemma compile_names:
  assumes "compile_workflow sha tn config services settings limits (Some manifest) artifact children env_digest
      child_envs scope_digest configuration contracts = Inr cw"
  shows "runtime_workflow_type_name sha tn (dm_logical_name manifest) (dm_definition_digest manifest) scope_digest
      = Inr (cw_temporal_name cw)"
  using assms by (auto simp: compile_workflow_def compile_checks_def bind_result_eq_Inr guard_result_def
      split: if_splits sum.splits)

lemma compile_child_types:
  assumes "compile_workflow sha tn config services settings limits manifest artifact children env_digest
      child_envs scope_digest configuration contracts = Inr cw"
    and "dict_get children name = Some digest"
  shows "\<exists>n. dict_get (cw_child_types cw) name = Some n \<and> runtime_workflow_type_name sha tn name digest scope_digest = Inr n"
proof -
  have "list_all2 (\<lambda>kd kn. fst kn = fst kd \<and> runtime_workflow_type_name sha tn (fst kd) (snd kd) scope_digest = Inr (snd kn))
      children (cw_child_types cw)"
    using assms(1) by (auto simp: compile_workflow_def bind_result_eq_Inr map_result_eq_Inr elim!: list.rel_mono_strong)
  then show ?thesis using assms(2)
    by (induction rule: list_all2_induct) (auto split: if_splits)
qed

text \<open>
  C11. The trigger a parent sends is one the child accepts, and the type it starts is the one the child is
  registered under, when the two are compiled for the same worker, scope and configuration, and the parent
  for the definition and environment of the child.
\<close>

theorem child_is_admitted:
  assumes parent: "compile_workflow (eg_sha eg) tn config services settings limits (Some m) (Some a) children (Some env_digest)
      child_envs scope_digest configuration contracts = Inr cw"
    and child: "compile_workflow (eg_sha eg) tn config' services' settings' limits' (Some m') (Some a) children' (Some env_digest')
      child_envs' scope_digest configuration contracts' = Inr cw'"
    and built: "dict_get children (dm_logical_name m') = Some (dm_definition_digest m')"
      "dict_get child_envs (dm_logical_name m') = Some env_digest'"
    and start: "child_start_of (executor_of eg cw (selected patched (cw_identity cw)) info t) (dm_logical_name m') step_name globals
      = Inr start" "\<And>p. patched p"
    and input: "en_bytes (eg_env eg) (cs_trigger start) = Some n" "n \<le> nat (rl_trigger_payload_bytes limits')"
      "xi_continued_from info' = None"
  shows "cs_type start = cw_temporal_name cw' \<and>
    (\<exists>am. admit_run eg (cw_limits cw') (selected patched (cw_identity cw')) info' (cs_trigger start) p = Inr am \<and>
      wt_request_id (am_trigger am) = cs_id start \<and> wt_globals (am_trigger am) = globals \<and>
      wt_correlation_id (am_trigger am) = wt_correlation_id t \<and> am_pending am = p)"
proof
  let ?x = "executor_of eg cw (selected patched (cw_identity cw)) info t"
  let ?t = "child_trigger ?x (dm_logical_name m') (cs_id start) globals"
  have sel: "trigger_selects ?t (selected patched (cw_identity cw'))"
    using start(2) built
    by (simp add: trigger_selects_def child_trigger_def executor_of_def selected_def compile_identity [OF parent]
        compile_identity [OF child])
  have "admit_run eg (cw_limits cw') (selected patched (cw_identity cw')) info' (cs_trigger start) p
      = Inr \<lparr>am_trigger = ?t, am_continuation = None, am_pending = p\<rparr>"
    using input sel child_parsed [OF start(1)]
    by (simp add: admit_run_def admit_first_def enforce_payload_bytes_def enforce_limit_def bind_result_def
        compile_identity [OF child] verify_trigger_identity_cases)
  then show "\<exists>am. admit_run eg (cw_limits cw') (selected patched (cw_identity cw')) info' (cs_trigger start) p = Inr am \<and>
      wt_request_id (am_trigger am) = cs_id start \<and> wt_globals (am_trigger am) = globals \<and>
      wt_correlation_id (am_trigger am) = wt_correlation_id t \<and> am_pending am = p"
    by (simp add: child_trigger_def executor_of_def)
  show "cs_type start = cw_temporal_name cw'"
    using compile_child_types [OF parent built(1)] compile_names [OF child] child_startD(4) [OF start(1)]
    by (auto simp: executor_of_def)
qed

section \<open>Events from the relay\<close>

text \<open>The payload of the Temporal signal that the relay sends.\<close>

fun signal_payload_of :: "relay_signal \<Rightarrow> delivery" where
  "signal_payload_of (StepResponseSignal invocation step action out err) = SignalDelivery (JObj (dump_signal \<lparr>
     sp_request_id = invocation, sp_step_name = step, sp_action = action,
     sp_status = (if err = None then ''success'' else ''error''), sp_step_response = opt_json out,
     sp_error = map_option (\<lambda>(code, message, retryable). [(''code'', JStr code), (''message'', JStr message),
       (''retryable'', JBool retryable)]) err\<rparr>))"
| "signal_payload_of (WorkflowEventSignal name data) = EventDelivery (JObj [(''signal'', JStr name), (''data'', data)])"

text \<open>
  C14. An event that the relay admits and signals, and that is within the limits of size, breaks the handler
  of the workflow exactly if its data is nested deeper than normalization allows; the exception is not one
  that fails the workflow, so that the workflow task fails, each time it is run.
\<close>

theorem relayed_event_breaks_handler:
  assumes "admit_delivery sha parse sc limit body = Some (EventEnvelope c run_id name data)"
    and "signal_of (EventEnvelope c run_id name data) = Some s"
    and "\<And>j. en_bytes (te_env x) j \<noteq> None"
    and "the (en_bytes (te_env x) (JObj [(''signal'', JStr name), (''data'', data)])) \<le> nat (rl_signal_payload_bytes (te_limits x))"
    and "json_fits depth (nat (rl_collection_items (te_limits x))) data"
  shows "(\<exists>e. handle_delivery x tp e0 p (signal_payload_of s) = HandlerBroke e) \<longleftrightarrow>
    \<not> json_fits MAX_JSON_DEPTH (nat (rl_collection_items (te_limits x))) data"
proof -
  have "in_bounds MAX_MESSAGE_IDENTIFIER name"
    using assms(1) by (auto simp: admit_delivery_def split: if_splits option.splits async_envelope.splits)
  then have "parse_event (JObj [(''signal'', JStr name), (''data'', data)]) = Some (name, data)"
    by (simp add: parse_event_def strict_fields_def text_field_def field_or_null_def in_bounds_def
        MAX_MESSAGE_IDENTIFIER_def PAYLOAD_IDENTIFIER_LENGTH_def)
  from event_handler_breaks [OF assms(3,4) this assms(5)] assms(2) show ?thesis
    by (auto simp: handle_delivery_def Let_def)
qed

end
