(* ===== verification/JF_Trial_Runs.thy ===== *)
theory JF_Trial_Runs
  imports JF_Continuations JF_Examples
begin

text \<open>
  Concrete compiled workflows: a parent and its child, compiled for one worker in one scope, a Temporal
  whose history is full after the first step, and the properties of \<open>JF_Continuations\<close> applied to them.
\<close>

section \<open>A parent and a child\<close>

definition trial_artifact :: worker_artifact where
  "trial_artifact = \<lparr>wa_deployment_name = ''w'', wa_build_id = ''1'', wa_artifact_digest = LOCAL_ARTIFACT_DIGEST,
     wa_package_version = ''1'', wa_source_revision = None\<rparr>"

definition trial_digest :: "char \<Rightarrow> string" where
  "trial_digest c = replicate 64 c"

definition trial_flow :: "flow_step list" where
  "trial_flow = [(op_of ''fetch'' ''ok'')\<lparr>fs_then := Some ''send''\<rparr>, (op_of ''send'' ''ok'')\<lparr>fs_then := Some ''done''\<rparr>,
     end_of ''done'']"

definition trial_config :: "string \<Rightarrow> workflow_config" where
  "trial_config name = (sample_config trial_flow)\<lparr>wc_workflow := name\<rparr>"

definition trial_manifest :: "string \<Rightarrow> string \<Rightarrow> string dict \<Rightarrow> definition_manifest" where
  "trial_manifest name digest children = \<lparr>dm_logical_name = name, dm_definition_digest = digest, dm_children = children,
     dm_matches = (\<lambda>_. True)\<rparr>"

definition trial_compile ::
    "string \<Rightarrow> string \<Rightarrow> string dict \<Rightarrow> string dict \<Rightarrow> string option \<Rightarrow> compile_error + compiled_workflow" where
  "trial_compile name digest children child_envs scope_digest =
     compile_workflow demo_sha (\<lambda>n d. n @ ''-'' @ d) (trial_config name) [(''svc'', [])]
       [(''svc'', \<lparr>sv_dispatch_timeout_sec = 30, sv_retries = 2\<rparr>)] sample_limits
       (Some (trial_manifest name digest children)) (Some trial_artifact) children
       (Some (trial_digest (CHR ''e''))) child_envs scope_digest None []"

abbreviation trial_children :: "string dict" where
  "trial_children \<equiv> [(''child'', trial_digest (CHR ''c''))]"

abbreviation trial_environments :: "string dict" where
  "trial_environments \<equiv> [(''child'', trial_digest (CHR ''e''))]"

definition trial_parent :: compiled_workflow where
  "trial_parent = projr (trial_compile ''demo'' (trial_digest (CHR ''d'')) trial_children trial_environments
     (Some (trial_digest (CHR ''a''))))"

definition trial_child :: compiled_workflow where
  "trial_child = projr (trial_compile ''child'' (trial_digest (CHR ''c'')) [] [] (Some (trial_digest (CHR ''a''))))"

lemma trial_compiled:
  "trial_compile ''demo'' (trial_digest (CHR ''d'')) trial_children trial_environments (Some (trial_digest (CHR ''a'')))
     = Inr trial_parent"
  "trial_compile ''child'' (trial_digest (CHR ''c'')) [] [] (Some (trial_digest (CHR ''a''))) = Inr trial_child"
proof -
  have ok: "is_ok r \<Longrightarrow> r = Inr (projr r)" for r :: "compile_error + compiled_workflow" by (cases r) auto
  show "trial_compile ''demo'' (trial_digest (CHR ''d'')) trial_children trial_environments (Some (trial_digest (CHR ''a'')))
     = Inr trial_parent" unfolding trial_parent_def by (rule ok) code_simp
  show "trial_compile ''child'' (trial_digest (CHR ''c'')) [] [] (Some (trial_digest (CHR ''a''))) = Inr trial_child"
    unfolding trial_child_def by (rule ok) code_simp
qed

section \<open>Temporal\<close>

definition trial_temporal :: "nat temporal" where
  "trial_temporal = \<lparr>
     tp_step = (\<lambda>call e. (Inr \<lparr>ar_data = JObj [(''ok'', JBool True)], ar_awaiting_signal = False, ar_signal_key = None,
       ar_response_timeout_sec = None, ar_cache = None\<rparr>, 0, Suc e)),
     tp_evaluate = (\<lambda>call e. (Inr True, 0, e)), tp_activity = (\<lambda>call e. (Inr (), 0, e)),
     tp_child = (\<lambda>start e. (Inr JNull, 0, e)), tp_timer = (\<lambda>t e. (0, e)), tp_now = of_nat,
     tp_history = (\<lambda>e. \<lparr>ho_events = 5, ho_bytes = 5, ho_server_suggested = True\<rparr>),
     tp_next_done = (\<lambda>running e. (0, e)), tp_patched = (\<lambda>_. True)\<rparr>"

definition trial_engine :: "continuation_input option \<Rightarrow> engine" where
  "trial_engine c = \<lparr>eg_env = sample_env, eg_canonical = (\<lambda>_. []), eg_sha = demo_sha,
     eg_parse_continuation = (\<lambda>_. c), eg_dump_continuation = (\<lambda>_. JNull)\<rparr>"

definition trial_info :: "string \<Rightarrow> string option \<Rightarrow> execution_info" where
  "trial_info run_id continued_from = \<lparr>xi_workflow_id = ''wf'', xi_run_id = run_id, xi_continued_from = continued_from\<rparr>"

definition trial_world :: "nat flow_world" where
  "trial_world = \<lparr>fw_pending = no_messages, fw_inbox = [], fw_env = 0, fw_stopped = None\<rparr>"

definition trial_trigger :: "string \<Rightarrow> workflow_trigger" where
  "trial_trigger request_id = \<lparr>wt_request_id = request_id, wt_globals = [], wt_correlation_id = None, wt_trace_id = None,
     wt_definition_digest = Some (trial_digest (CHR ''d'')), wt_worker_deployment = Some ''w'', wt_worker_build_id = Some ''1'',
     wt_worker_artifact = Some trial_artifact, wt_environment_digest = Some (trial_digest (CHR ''e'')),
     wt_configuration = None, wt_source = None, wt_name = None, wt_source_digest = None,
     wt_correlation_digest = None, wt_scope_digest = Some (trial_digest (CHR ''a''))\<rparr>"

definition admitted :: "workflow_trigger \<Rightarrow> admitted_run" where
  "admitted t = \<lparr>am_trigger = t, am_continuation = None, am_pending = no_messages\<rparr>"

abbreviation trial_identity :: "compiled_workflow \<Rightarrow> selected_identity" where
  "trial_identity cw \<equiv> selected (tp_patched trial_temporal) (cw_identity cw)"


fun requested_checkpoint :: "(run_outcome \<times> 'w mach) option \<Rightarrow> runner_checkpoint option" where
  "requested_checkpoint (Some (RunContinued ck, m)) = Some ck"
| "requested_checkpoint _ = None"

lemma requested_checkpointD: "requested_checkpoint r = Some ck \<Longrightarrow> r = Some (RunContinued ck, snd (the r))"
  by (induction r rule: requested_checkpoint.induct) simp_all



lemma some_the: "\<not> Option.is_none v \<Longrightarrow> v = Some (the v)"
  by (cases v) simp_all



text \<open>The child, as its parent starts it.\<close>

definition parent_executor :: step_executor where
  "parent_executor = executor_of (trial_engine None) trial_parent (trial_identity trial_parent) (trial_info ''run'' None)
     (trial_trigger ''r'')"

definition started_child :: child_start where
  "started_child = projr (child_start_of parent_executor ''child'' ''call'' [])"

definition sub_trigger :: workflow_trigger where
  "sub_trigger = (trial_trigger (''jf1.child-workflow.'' @ trial_digest (CHR ''a'') @ ''.'' @ replicate 63 (CHR ''0'') @ ''2''))
     \<lparr>wt_definition_digest := Some (trial_digest (CHR ''c''))\<rparr>"

lemma ok_projr: "is_ok r \<Longrightarrow> r = Inr (projr r)"
  by (cases r) auto

lemma child_starts: "child_start_of parent_executor ''child'' ''call'' [] = Inr started_child"
  unfolding started_child_def by (rule ok_projr) code_simp

lemma child_admits: "admit_run (trial_engine None) sample_limits (trial_identity trial_child) (trial_info ''sub'' None)
    (cs_trigger started_child) no_messages = Inr (admitted sub_trigger)"
proof -
  have "am_trigger (projr (admit_run (trial_engine None) sample_limits (trial_identity trial_child) (trial_info ''sub'' None)
    (cs_trigger started_child) no_messages)) = sub_trigger" by code_simp
  moreover have "is_ok (admit_run (trial_engine None) sample_limits (trial_identity trial_child) (trial_info ''sub'' None)
    (cs_trigger started_child) no_messages)" by code_simp
  then obtain am where am: "admit_run (trial_engine None) sample_limits (trial_identity trial_child) (trial_info ''sub'' None)
    (cs_trigger started_child) no_messages = Inr am" using ok_projr by blast
  ultimately have "am_trigger am = sub_trigger" by simp
  moreover have "am_continuation am = None" "am_pending am = no_messages"
    using am by (auto simp: admit_run_def admit_first_def trial_info_def bind_result_eq_Inr split: option.splits)
  ultimately show ?thesis using am by (simp add: admitted_def)
qed

definition child_run :: "(run_outcome \<times> nat flow_world mach) option" where
  "child_run = run (runner_of (trial_engine None) trial_child trial_temporal (trial_identity trial_child)
     (trial_info ''sub'' None) sub_trigger) 9 (wt_request_id sub_trigger) (PDict []) None trial_world"

lemma child_runs: "child_run = Some (RunContinued (the (requested_checkpoint child_run)), snd (the child_run))"
  by (rule requested_checkpointD, rule some_the) code_simp

lemma scoped_child_cannot_continue_witness:
  "run_result (trial_engine None) trial_child trial_temporal (trial_info ''sub'' None) (admitted sub_trigger)
     (RunContinued (the (requested_checkpoint child_run))) (m_world (snd (the child_run))) = TaskFailed validation_error"
proof (rule scoped_child_cannot_continue)
  show "child_start_of parent_executor ''child'' ''call'' [] = Inr started_child" by (rule child_starts)
  show "sl_scope_digest (te_identity parent_executor) = Some (trial_digest (CHR ''a''))" by code_simp
  show "is_digest (te_sha parent_executor s)" for s
    using demo_sha_digest by (simp add: parent_executor_def executor_of_def trial_engine_def)
  show "admit_run (trial_engine None) sample_limits (trial_identity trial_child) (trial_info ''sub'' None)
      (cs_trigger started_child) no_messages = Inr (admitted sub_trigger)" by (rule child_admits)
  show "xi_continued_from (trial_info ''sub'' None) = None" by (simp add: trial_info_def)
  show "run (runner_of (trial_engine None) trial_child trial_temporal (trial_identity trial_child) (trial_info ''sub'' None)
      (am_trigger (admitted sub_trigger))) 9 (wt_request_id (am_trigger (admitted sub_trigger))) (PDict []) None trial_world
      = Some (RunContinued (the (requested_checkpoint child_run)), snd (the child_run))"
    using child_runs unfolding child_run_def admitted_def admitted_run.select_convs .
qed

lemma child_is_admitted_witness:
  "cs_type started_child = cw_temporal_name trial_child \<and>
   (\<exists>am. admit_run (trial_engine None) (cw_limits trial_child) (trial_identity trial_child) (trial_info ''sub'' None)
       (cs_trigger started_child) no_messages = Inr am \<and> wt_request_id (am_trigger am) = cs_id started_child \<and>
     wt_globals (am_trigger am) = [] \<and> wt_correlation_id (am_trigger am) = wt_correlation_id (trial_trigger ''r'') \<and>
     am_pending am = no_messages)"
proof (rule child_is_admitted [where patched = "tp_patched trial_temporal" and eg = "trial_engine None" and
      m' = "trial_manifest ''child'' (trial_digest (CHR ''c'')) []" and n = 10 and limits' = sample_limits])
  show "child_start_of (executor_of (trial_engine None) trial_parent (trial_identity trial_parent) (trial_info ''run'' None)
      (trial_trigger ''r'')) (dm_logical_name (trial_manifest ''child'' (trial_digest (CHR ''c'')) [])) ''call'' [] = Inr started_child"
    using child_starts by (simp add: parent_executor_def trial_manifest_def)
  show "compile_workflow (eg_sha (trial_engine None)) (\<lambda>n d. n @ ''-'' @ d) (trial_config ''demo'') [(''svc'', [])]
      [(''svc'', \<lparr>sv_dispatch_timeout_sec = 30, sv_retries = 2\<rparr>)] sample_limits
      (Some (trial_manifest ''demo'' (trial_digest (CHR ''d'')) trial_children)) (Some trial_artifact) trial_children
      (Some (trial_digest (CHR ''e''))) trial_environments (Some (trial_digest (CHR ''a''))) None [] = Inr trial_parent"
    using trial_compiled(1) by (simp add: trial_compile_def trial_engine_def)
  show "compile_workflow (eg_sha (trial_engine None)) (\<lambda>n d. n @ ''-'' @ d) (trial_config ''child'') [(''svc'', [])]
      [(''svc'', \<lparr>sv_dispatch_timeout_sec = 30, sv_retries = 2\<rparr>)] sample_limits
      (Some (trial_manifest ''child'' (trial_digest (CHR ''c'')) [])) (Some trial_artifact) []
      (Some (trial_digest (CHR ''e''))) [] (Some (trial_digest (CHR ''a''))) None [] = Inr trial_child"
    using trial_compiled(2) by (simp add: trial_compile_def trial_engine_def)
  show "en_bytes (eg_env (trial_engine None)) (cs_trigger started_child) = Some 10"
    by (simp add: trial_engine_def sample_env_def)
  show "10 \<le> nat (rl_trigger_payload_bytes sample_limits)" by code_simp
qed (simp_all add: trial_manifest_def trial_info_def trial_temporal_def)

section \<open>A continued run\<close>

text \<open>What \<open>trial_parent\<close> asks to be continued with, after its first step, while an event is waiting.\<close>

definition short_checkpoint :: runner_checkpoint where
  "short_checkpoint = \<lparr>ck_started_at = ''2026-01-01T00:00:00+00:00'', ck_params = [(''request_id'', JStr ''r'')],
     ck_step_outputs = [(''fetch'', JObj [(''ok'', JBool True)])],
     ck_step_timings = [(''fetch'', [(''seq'', JInt 0), (''status'', JStr ''succeeded''), (''globals'', JObj []),
       (''input'', JNull), (''output'', JObj [(''ok'', JBool True)]), (''started_at'', JStr ''2026-01-01T00:00:00+00:00''),
       (''duration_ms'', JInt 1000)])],
     ck_transitions = [], ck_failures = [], ck_active_episode = None, ck_next_step_name = ''send'', ck_next_seq = 1,
     ck_invocations = 1, ck_loop = None\<rparr>"

definition waiting_event :: "int \<Rightarrow> pending_messages" where
  "waiting_event n = no_messages\<lparr>pm_events := [(''go'', [JInt n])]\<rparr>"



lemma short_asked: "requested_checkpoint (run (runner_of (trial_engine None) trial_parent trial_temporal (trial_identity trial_parent)
   (trial_info ''run'' None) (trial_trigger ''r'')) 9 ''r'' (PDict []) None (trial_world\<lparr>fw_pending := waiting_event 1\<rparr>))
   = Some short_checkpoint"
  by code_simp




section \<open>Messages\<close>


section \<open>An event that is nested too deep\<close>

definition deep_data :: json where
  "deep_data = ((\<lambda>j. JList [j]) ^^ 34) JNull"

lemma deep_event_admitted:
  "admit_delivery demo_sha (\<lambda>_. Some (EventEnvelope foreign_common ''run'' ''go'' deep_data)) other_scope 100 ''{}''
     = Some (EventEnvelope foreign_common ''run'' ''go'' deep_data)"
proof -
  have "in_bounds MAX_MESSAGE_IDENTIFIER (ec_workflow_id foreign_common)"
    using demo_sha_digest [of "scope_payload LOCAL_RUNTIME_SCOPE"] demo_sha_digest [of "json_texts [''w'', ''r'']"]
    by (simp add: in_bounds_def MAX_MESSAGE_IDENTIFIER_def foreign_common_def identity_prefix_def scope_digest_of_def
        SCOPED_IDENTITY_VERSION_def is_digest_def SCOPE_DIGEST_LENGTH_def)
  then have "valid_envelope demo_sha (EventEnvelope foreign_common ''run'' ''go'' deep_data)"
    using demo_sha_digest
    by (simp add: valid_common_def foreign_common_def in_bounds_def MAX_MESSAGE_IDENTIFIER_def
        DEFINITION_DIGEST_LENGTH_def scope_digest_of_def)
  then show ?thesis
    by (simp add: admit_delivery_def enforce_utf8_bytes_def enforce_limit_def relay_scope_ok_iff owns_scope_def
        utf8_length_def foreign_common_def)
qed

lemma relayed_event_breaks_handler_witness:
  "\<exists>e. handle_delivery parent_executor trial_temporal 0 no_messages
     (signal_payload_of (WorkflowEventSignal ''go'' deep_data)) = HandlerBroke e"
proof -
  have "signal_of (EventEnvelope foreign_common ''run'' ''go'' deep_data) = Some (WorkflowEventSignal ''go'' deep_data)"
    by simp
  moreover have "en_bytes (te_env parent_executor) j = Some 10" for j
    by (simp add: parent_executor_def executor_of_def trial_engine_def sample_env_def)
  moreover have "10 \<le> nat (rl_signal_payload_bytes (te_limits parent_executor))" by code_simp
  moreover have "json_fits 40 (nat (rl_collection_items (te_limits parent_executor))) deep_data" by code_simp
  moreover have "\<not> json_fits MAX_JSON_DEPTH (nat (rl_collection_items (te_limits parent_executor))) deep_data" by code_simp
  ultimately show ?thesis
    using relayed_event_breaks_handler [OF deep_event_admitted, of _ parent_executor 40 trial_temporal 0 no_messages] by auto
qed

end
