(* ===== verification/Spec2Isabelle.thy ===== *)
theory Spec2Isabelle
  imports JF_Examples JF_Contracts JF_Relay JF_Outcomes JF_Exhausted JF_Dispatched JF_Trial_Runs
begin

text \<open>
  A model of the core of justflow, an engine that executes workflows written as data on top of Temporal.
  A workflow is a list of steps; a run starts at the first step, resolves its inputs from the outputs of
  earlier steps and the run's parameters, calls a service or a child workflow (once, once per item of a
  collection, or until a condition holds), waits for a signal or sleeps, and goes on to the next step
  along \<open>then\<close>, \<open>on_result\<close>, \<open>on_timeout\<close>, \<open>on_exhausted\<close> or, after a failure, \<open>on_failure\<close> and
  \<open>on_error\<close>. The sources are those of \<open>src/src/justflow\<close>.

  Theories, and the code they model:

    \<^item> \<open>JF_Prelude\<close>: results \<open>error + value\<close>, Python dictionaries as association lists in insertion order,
      and the string operations the code uses.
    \<^item> \<open>JF_Values\<close>, \<open>JF_References\<close> (\<open>engine/data.py\<close>, \<open>engine/references.py\<close>): Python values, JSON data,
      normalization, paths, reference resolution and the interpolation of placeholders.
    \<^item> \<open>JF_Grammar\<close> (\<open>config/grammar.py\<close>): references and placeholders as recognisers of their regular
      expressions.
    \<^item> \<open>JF_Evaluator\<close> (\<open>engine/evaluator.py\<close>): the check and the evaluation of conditions over the abstract
      syntax of Python expressions; \<open>ast.parse\<close> is a parameter.
    \<^item> \<open>JF_Errors\<close>, \<open>JF_Failures\<close> (\<open>engine/errors.py\<close>, \<open>engine/limits.py\<close>, \<open>engine/audit.py\<close>): exceptions
      as values with their chain of causes, their classification, limits, the bounded failure record.
    \<^item> \<open>JF_Audit_Capture\<close> (\<open>engine/audit_capture.py\<close>): what is archived of a record.
    \<^item> \<open>JF_Models\<close> (\<open>config/models.py\<close>): the declarations of a workflow and their validators.
    \<^item> \<open>JF_Analysis\<close> (\<open>engine/analysis.py\<close>): edges, reachability, cycles, the symbols available at a step,
      and the issues reported.
    \<^item> \<open>JF_Machine\<close>, \<open>JF_Runner\<close>, \<open>JF_Run\<close> (\<open>engine/runner.py\<close>, \<open>engine/continuation.py\<close>,
      \<open>config/runtime_limits.py\<close>): the state of a run (\<open>_RunState\<close>) as the record \<open>mach\<close>, each method of
      \<open>FlowRunner\<close> as a function on it, the main loop of \<open>_execute\<close> as \<open>flow_loop\<close> over \<open>execute_step\<close>, and
      \<open>run\<close> with the completed record, the checkpoint for a fresh history, or the failure.
    \<^item> \<open>JF_Scope\<close> (\<open>scope.py\<close>, \<open>sdk/message_contract.py\<close>): runtime scopes and the identities made in them.
    \<^item> \<open>JF_Delivery\<close> (\<open>engine/deduplication.py\<close>, \<open>engine/consumer_backoff.py\<close>): the store of delivered and
      pending messages, and the delays between reconnects.
    \<^item> \<open>JF_Relay\<close> (\<open>engine/response_relay.py\<close>, \<open>sdk/message_contract.py\<close>): envelopes, which of them the relay
      of responses admits, and the relay as a step relation over concurrent deliveries.
    \<^item> \<open>JF_Starter\<close> (\<open>runtime/starter.py\<close>, \<open>config/triggers.py\<close>, \<open>definitions/routing.py\<close>,
      \<open>provenance.py\<close>): the start of a workflow from its trigger, against a view of what Temporal answers.
    \<^item> \<open>JF_Scheduled\<close> (\<open>runtime/scheduled_starts.py\<close>): the records of scheduled starts and their transitions.
    \<^item> \<open>JF_Arbiter\<close>, \<open>JF_Contention\<close> (\<open>runtime/scheduled_start_service.py\<close>,
      \<open>runtime/scheduled_start_dispatch.py\<close>): requests, due workflows and arbiters that compete for a version of a
      record; their interleavings are the step relation \<open>entity_step\<close> over the record, its arbiters and the run.
    \<^item> \<open>JF_Activation\<close>, \<open>JF_Control_Store\<close> (\<open>configuration/activation.py\<close>, \<open>configuration/activation_store.py\<close>,
      \<open>configuration/lifecycle.py\<close>, \<open>configuration/activation_sqlite.py\<close>): plans, activations, publications and
      discards with their transitions, and the conditional store they are kept in, whose laws are a locale.
    \<^item> \<open>JF_Controller\<close>, \<open>JF_Activations\<close> (\<open>runtime/configuration_activation.py\<close>): the stages of \<open>resume\<close> as
      functions of the record and the answers of bindings, the index of the runtime and the pointer to the
      active revision; controllers that resume an activation, fail, lose their lease and race are the step
      relation \<open>control_step\<close>.
    \<^item> \<open>JF_Messages\<close> (\<open>PendingMessages\<close> and the signal handlers of \<open>engine/compiler.py\<close>): the queues of
      responses and events with their limits, the locale \<open>keyed_queues\<close> that both interpret, and the handlers,
      with what each of them raises.
    \<^item> \<open>JF_Triggers\<close> (\<open>WorkflowTrigger\<close> of \<open>sdk/message_contract.py\<close>, \<open>_verify_trigger_identity\<close>): triggers, their
      JSON form, which is parsed back, and the identities they have to agree with.
    \<^item> \<open>JF_Temporal\<close> (\<open>TemporalStepExecutor\<close> of \<open>engine/compiler.py\<close>, \<open>definitions/routing.py\<close>): the executor of a
      compiled workflow, as an \<open>executor\<close> over the world \<open>flow_world\<close> of pending messages and messages to come.
    \<^item> \<open>JF_Compiled\<close> (\<open>compile_workflow\<close>, \<open>engine/continuation.py\<close>): what is checked when a workflow is compiled, and
      \<open>_run\<close>: the admission of a trigger or of the input of a continuation, the flow, and what the run hands on.
    \<^item> \<open>JF_Schedule_Specs\<close>, \<open>JF_Recurring\<close> (\<open>config/schedules.py\<close>, \<open>runtime/schedules.py\<close>): cron, calendar and interval
      specifications, what a schedule trigger compiles to, and the plan of a reconciliation.
    \<^item> \<open>JF_Reconciler\<close>, \<open>JF_Occurrences\<close> (\<open>runtime/schedule_reconciler.py\<close>, \<open>runtime/schedule_dispatch.py\<close>): the
      observation of schedules and the application of a plan, and the start of an occurrence.

  A method of the runner takes the state and gives a value or an exception together with the new state,
  so the effects made before an exception stay, as in the code. What Temporal and the services do is the
  record \<open>executor\<close>: one function per method of \<open>StepExecutor\<close> on an abstract world. The tasks of a
  parallel iteration end in the order that the world chooses (\<open>x_next_done\<close>). Texts that Python or
  pydantic make (\<open>str\<close> of a float or an exception, ISO timestamps, the length of the JSON form) are the
  parameters \<open>environment\<close>.

  In a compiled workflow that world is \<open>flow_world\<close>, and Temporal is the parameter \<open>temporal\<close> on a state of its
  own: the results of activities and child workflows, the clock, the history, the answers of
  \<open>workflow.patched\<close>, and how many of the messages to come arrive before an awaited operation ends or a timer
  fires. They go through the handlers in order; a message that its handler does not take is kept in
  \<open>fw_stopped\<close> and ends the run, whatever the flow does. Of the tasks of a parallel iteration the operations
  awaited are made in the order in which the tasks end.

  The lemmas:

    \<^item> \<open>JF_Frames\<close>: locales for the relations between the states before and after an effect, one level for
      each group of operations, and their interpretations: what a step never changes, that invocations
      are only counted up, that a checkpoint is requested only where the history is exhausted.
    \<^item> \<open>JF_Flow\<close>, \<open>JF_Progress\<close>, \<open>JF_Start\<close>: what one step does to the records and to the scope, the flow as
      a step relation \<open>flow_next\<close> with its invariants, and the loop against the relation.
    \<^item> \<open>JF_Continue\<close>, \<open>JF_Loops\<close>: checkpoints and resumption; iterations and until loops.
    \<^item> \<open>JF_Contracts\<close>: what the components promise, and \<open>JF_Examples\<close>: concrete workflows for the instances
      of the theorems here, which span the components.
    \<^item> \<open>JF_Contention\<close>, \<open>JF_Schedules\<close>: the invariant that ties the arbiters of a scheduled start to its record,
      kept by every step; the runs of the protocol and the outcome of all dispatch attempts. \<open>JF_Outcomes\<close>: what
      scheduled starts and the starter promise, and where they do not.
    \<^item> \<open>JF_Activations\<close>: what every stage makes of a record in order. \<open>JF_Activated\<close>: the invariant of the stored
      record, of what each controller knows and of the history of the pointer. \<open>JF_Applied\<close>, \<open>JF_Exhausted\<close>: what
      follows for applied activations, races, full histories and lost leases, with a run that is computed.
    \<^item> \<open>JF_Reconciled\<close>, \<open>JF_Settled\<close>: what a change of a schedule leaves behind, that a successful reconciliation leaves
      nothing to reconcile, and that the schedules of others stay. They rest on the hypothesis \<open>keeps_schedules\<close> about
      Temporal: a created schedule has the memo and the action it was created with, an updated one the new action and
      the memo it had. \<open>JF_Schedule_Trial\<close>, \<open>JF_Dispatched\<close>: a reconciliation and an occurrence that are computed.

    \<^item> \<open>JF_Requests\<close>: the locale \<open>step_relation\<close>, a relation that every part of a run respects, and its use: the
      checkpoint of a run has the parameters, and so the request identity, that the run was started with.
      \<open>JF_Continuations\<close>: messages across continued runs, the admission of continuations and of children, the
      identities that cannot be continued, and the events that break a handler. \<open>JF_Trial_Runs\<close>: a parent and its
      child, compiled, run and continued on a concrete Temporal.

  Bounds. \<open>flow_loop\<close> takes fuel, one unit per step; \<open>None\<close> is a flow that has not ended within it. Fuel
  two above the length of the flow is enough for a flow without a cycle (\<open>run_terminates\<close>); for a flow with
  a cycle through a failure handler no fuel is (\<open>handler_cycle_never_ends\<close>). Every other recursion is
  proved to terminate. Floats are rationals with the infinities and NaN at the JSON boundary only; times
  are rationals, so the rounding of \<open>duration_ms\<close> is exact. Characters are those of 8 bits.

  Not modelled: the class that a workflow is compiled to and its registration with Temporal, loading and
  settings, the Temporal worker and its activities, brokers, HTTP and database code, the strict JSON bytes, the
  publication of configurations, the retirement of workers, the operations on recurring schedules, the list and the clean-up of
  scheduled starts. The field coercions of pydantic are taken as done, but for triggers and the payloads of
  signals, whose JSON form is parsed.
\<close>

section \<open>The flow of a run\<close>







text \<open>
  C4. After \<open>k\<close> steps of a run the next sequence number is \<open>k\<close>; every entry of the history has the
  number of an earlier step, no step has two entries, there are at most \<open>k\<close> transitions, and the
  parameters are those of the start.
\<close>

theorem run_history:
  assumes "valid_flow (rn_config rn)"
    and "prepare_run rn request_id trigger_globals (fresh_state rn request_id w) = (Inr u, m0)"
    and "((flow_next rn) ^^ k) (name0, 0, None, m0) (name, seq, loop, m)"
  shows "seq = k \<and> length (m_transitions m) \<le> k \<and> distinct (map fst (m_timings m)) \<and> m_params m = m_params m0 \<and>
    (\<forall>step entry. map_of (m_timings m) step = Some entry \<longrightarrow>
       (\<exists>i < k. map_of entry ''seq'' = Some (JInt (int i))))"
proof -
  have "seq = 0 + k \<and> history_ok seq m \<and> m_params m = m_params m0"
    by (rule flow_history [OF assms(1,3) fresh_prepared(3) [OF assms(2)]])
  then show ?thesis unfolding history_ok_def add_0 by blast
qed

lemma run_history_witness:
  "(1::nat) = 1 \<and> length (m_transitions loop_each) \<le> 1 \<and> distinct (map fst (m_timings loop_each)) \<and>
    m_params loop_each = m_params loop_start \<and>
    (\<exists>entry. map_of (m_timings loop_each) ''fetch'' = Some entry \<and> (\<exists>i < 1. map_of entry ''seq'' = Some (JInt (int i))))"
proof -
  have "\<not> Option.is_none (map_of (m_timings loop_each) ''fetch'')" by code_simp
  then obtain entry where e: "map_of (m_timings loop_each) ''fetch'' = Some entry"
    by (cases "map_of (m_timings loop_each) ''fetch''") auto
  have "(1::nat) = 1 \<and> length (m_transitions loop_each) \<le> 1 \<and> distinct (map fst (m_timings loop_each)) \<and>
    m_params loop_each = m_params loop_start \<and>
    (\<forall>step entry. map_of (m_timings loop_each) step = Some entry \<longrightarrow>
       (\<exists>i < 1. map_of entry ''seq'' = Some (JInt (int i))))"
  proof (rule run_history [OF _ loop_prepared])
    show "valid_flow (rn_config loop_runner)" by (simp add: loop_runner_config valid_loop_flow)
    show "((flow_next loop_runner) ^^ 1) (Some ''fetch'', 0, None, loop_start) (Some ''each'', 1, None, loop_each)"
      using loop_next by (simp only: relpowp_1)
  qed
  with e show ?thesis by blast
qed

section \<open>Fresh histories\<close>

text \<open>
  C5. When a step's end asks for a fresh history, the checkpoint names the next step, and the flow that a
  new run resumes from it is the flow that would have gone on.
\<close>

theorem resumed_flow:
  assumes "checkpoint_after_step rn (Some t) seq m = (Inl e, m')" "m_requested m = None" "m_requested m' = Some ck"
    and "m_correlation m = correlation_identity_of (wc_workflow (rn_config rn)) (Some request_id) (rn_identity rn)"
    and "t \<noteq> []"
  shows "e = raise_kind FlowContinuation \<and> ck_next_step_name ck = t \<and>
    flow_loop rn (Suc fuel) (Some (ck_next_step_name ck)) (ck_next_seq ck) (ck_loop ck)
      (start_state rn request_id (Some ck) (m_world m')) = flow_loop rn (Suc fuel) (Some t) seq None m"
proof -
  have c: "e = raise_kind FlowContinuation" "m' = m\<lparr>m_requested := Some (build_checkpoint m t seq None)\<rparr>"
    using checkpoint_after_step_cases(2) [OF assms(1)] assms(2,3) by auto
  then have ck: "ck = build_checkpoint m t seq None" using assms(3) by simp
  have "m\<lparr>m_requested := None\<rparr> = m" using assms(2) by simp
  then show ?thesis
    using flow_loop_resumed [of rn request_id m t fuel seq None] assms(4,5) c
    by (simp add: ck start_state_def same_correlation_def build_checkpoint_def)
qed

lemma resumed_flow_witness:
  "raise_kind FlowContinuation = raise_kind FlowContinuation \<and>
    ck_next_step_name (the (m_requested (snd fetch_end))) = ''each'' \<and>
    flow_loop (sample_runner (loop_flow None) True 1) (Suc 10)
      (Some (ck_next_step_name (the (m_requested (snd fetch_end))))) (ck_next_seq (the (m_requested (snd fetch_end))))
      (ck_loop (the (m_requested (snd fetch_end))))
      (start_state (sample_runner (loop_flow None) True 1) ''r'' (Some (the (m_requested (snd fetch_end)))) (m_world (snd fetch_end)))
    = flow_loop (sample_runner (loop_flow None) True 1) (Suc 10) (Some ''each'') 1 None loop_each"
proof (rule resumed_flow)
  show "checkpoint_after_step (sample_runner (loop_flow None) True 1) (Some ''each'') 1 loop_each
      = (Inl (raise_kind FlowContinuation), snd fetch_end)"
    using asks_for_history(5) unfolding fetch_end_def .
  show "m_correlation loop_each = correlation_identity_of (wc_workflow (rn_config (sample_runner (loop_flow None) True 1)))
      (Some ''r'') (rn_identity (sample_runner (loop_flow None) True 1))"
    by code_simp
  show "m_requested loop_each = None" by (rule loop_facts(2))
  show "m_requested (snd fetch_end) = Some (the (m_requested (snd fetch_end)))" by (rule asks_for_history(6))
qed simp

text \<open>
  C6. An iteration that asks for a fresh history leaves a checkpoint whose progress fits its items: the
  results are keyed by the items already done, in order. A sequential iteration that is resumed from it
  goes on as the iteration without the interruption.
\<close>

theorem resumed_iteration:
  assumes "run_iteration rn step ref sd input globals seq started None m = (Inl e, m')"
    and "m_requested m = None" "m_requested m' = Some ck"
  shows "\<exists>c items is_dict. ck = build_checkpoint m' (fs_name step) seq (Some (IterationLoop c)) \<and>
    e = raise_kind FlowContinuation \<and> validate_progress c \<and> loop_matches step (IterationLoop c) = (fs_for_each step \<noteq> None) \<and>
    iteration_admitted rn step ref sd input m = Inr (items, is_dict) \<and>
    map result_key (ic_results c) = map fst (take (ic_next_offset c) items) \<and>
    (fs_parallel step \<or>
       run_iteration (unbounded rn) step ref sd input globals seq started (Some c) (m'\<lparr>m_requested := None\<rparr>) =
       run_iteration (unbounded rn) step ref sd input globals seq started None m)"
proof (rule iteration_requests [OF assms])
  fix c items is_dict
  assume "ck = build_checkpoint m' (fs_name step) seq (Some (IterationLoop c))" "e = raise_kind FlowContinuation"
    and name: "ic_step_name c = fs_name step"
    and "iteration_admitted rn step ref sd input m = Inr (items, is_dict)"
    and p: "loop_progress items (ic_results c) (ic_next_offset c) (ic_failed c)"
    and same: "\<not> fs_parallel step \<Longrightarrow> run_iteration (unbounded rn) step ref sd input globals seq started None m =
       run_iteration (unbounded rn) step ref sd input globals seq started (Some c) (m'\<lparr>m_requested := None\<rparr>)"
  moreover have "fs_parallel step \<or>
       run_iteration (unbounded rn) step ref sd input globals seq started (Some c) (m'\<lparr>m_requested := None\<rparr>) =
       run_iteration (unbounded rn) step ref sd input globals seq started None m"
    using same [symmetric] by blast
  moreover have "map result_key (ic_results c) = map fst (take (ic_next_offset c) items)"
    using p by (simp add: loop_progress_def continuation_fits_def)
  ultimately show ?thesis
    using loop_progress_validates [OF p] name
    by (intro exI [of _ c] exI [of _ items] exI [of _ is_dict]) (simp add: loop_matches_def)
qed simp

lemma resumed_iteration_witness:
  "\<exists>c items is_dict. the (m_requested (snd each_run)) =
      build_checkpoint (snd each_run) (fs_name each_step) 1 (Some (IterationLoop c)) \<and>
    raise_kind FlowContinuation = raise_kind FlowContinuation \<and> validate_progress c \<and>
    loop_matches each_step (IterationLoop c) = (fs_for_each each_step \<noteq> None) \<and>
    iteration_admitted loop_runner each_step (parsed ''fetch'') (service_step ''ok'') JNull loop_each = Inr (items, is_dict) \<and>
    map result_key (ic_results c) = map fst (take (ic_next_offset c) items) \<and>
    (fs_parallel each_step \<or>
       run_iteration (unbounded loop_runner) each_step (parsed ''fetch'') (service_step ''ok'') JNull [] 1 0 (Some c)
         ((snd each_run)\<lparr>m_requested := None\<rparr>) =
       run_iteration (unbounded loop_runner) each_step (parsed ''fetch'') (service_step ''ok'') JNull [] 1 0 None loop_each)"
  by (rule resumed_iteration [OF trans [OF each_run_def [symmetric] asks_for_history(1)] loop_facts(2) asks_for_history(2)])

text \<open>
  C7. An until loop that asks for a fresh history has made at least one attempt and no more than allowed,
  and resumed from its checkpoint it goes on as without the interruption.
\<close>

theorem resumed_until:
  assumes "run_until rn step sd input globals seq started continuation m = (Inl e, m')"
    and "m_requested m = None" "m_requested m' = Some ck"
  shows "\<exists>c attempts. ck = build_checkpoint m' (fs_name step) seq (Some (UntilLoop c)) \<and>
    e = raise_kind FlowContinuation \<and> fs_max_iterations step = Some attempts \<and>
    1 \<le> uc_attempts_completed c \<and> uc_attempts_completed c \<le> attempts \<and>
    run_until (unbounded rn) step sd input globals seq started (Some c) (m'\<lparr>m_requested := None\<rparr>) =
    run_until (unbounded rn) step sd input globals seq started continuation m"
  by (rule until_run_requests [OF assms]) (intro exI conjI; (assumption | simp))

lemma resumed_until_witness:
  "\<exists>c attempts. the (m_requested (snd poll_run)) =
      build_checkpoint (snd poll_run) (fs_name poll_step) 1 (Some (UntilLoop c)) \<and>
    raise_kind FlowContinuation = raise_kind FlowContinuation \<and> fs_max_iterations poll_step = Some attempts \<and>
    1 \<le> uc_attempts_completed c \<and> uc_attempts_completed c \<le> attempts \<and>
    run_until (unbounded loop_runner) poll_step (service_step ''wait'') JNull [] 1 0 (Some c)
      ((snd poll_run)\<lparr>m_requested := None\<rparr>) =
    run_until (unbounded loop_runner) poll_step (service_step ''wait'') JNull [] 1 0 None loop_each"
  by (rule resumed_until [OF trans [OF poll_run_def [symmetric] asks_for_history(3)] loop_facts(2) asks_for_history(4)])

section \<open>Loops\<close>



text \<open>
  An until loop makes no more attempts than allowed, and exactly as many invocations as attempts; it
  is satisfied only with a last result for which its condition held, and gives up only after them all.
\<close>

theorem until_outcome:
  assumes "run_until rn step sd input globals seq started None m = (Inr (v, n, satisfied), m')"
  shows "\<exists>attempts. fs_max_iterations step = Some attempts \<and> n \<le> attempts \<and> (satisfied \<or> n = attempts) \<and>
    m_invocations m' = m_invocations m + n \<and>
    (satisfied \<longrightarrow> (\<exists>cond m1. fs_until step = Some cond \<and> flow_condition rn cond v m1 = (Inr True, m')))"
  using run_until_attempts [OF assms] by blast

lemma until_outcome_witness:
  "\<exists>attempts. fs_max_iterations (poll_step\<lparr>fs_max_iterations := Some 1\<rparr>) = Some attempts \<and> 1 \<le> attempts \<and>
    (False \<or> 1 = attempts) \<and> m_invocations (snd poll_end) = m_invocations loop_each + 1 \<and>
    (False \<longrightarrow> (\<exists>cond m1. fs_until (poll_step\<lparr>fs_max_iterations := Some 1\<rparr>) = Some cond \<and>
       flow_condition (unbounded loop_runner) cond (JObj [(''ok'', JBool False)]) m1 = (Inr True, snd poll_end)))"
  by (rule until_outcome [OF trans [OF poll_end_def [symmetric] loops_end(2)]])

text \<open>
  Once the invocations of a run have reached their limit, a further one raises the limit's error: it
  is counted, and neither the executor nor the world is touched.
\<close>

theorem invocations_limited:
  assumes "nat (rl_total_invocations (rn_limits rn)) \<le> m_invocations m"
  shows "\<exists>e. invoke rn sd name input globals m = (Inl e, m\<lparr>m_invocations := Suc (m_invocations m)\<rparr>) \<and>
    ex_kind e = LimitExceededError TOTAL_INVOCATIONS ''workflow.step_invocations'' (Suc (m_invocations m))
      (nat (rl_total_invocations (rn_limits rn)))"
  using invoke_limited [OF assms] by (simp add: raise_kind_def)

lemma invocations_limited_witness:
  "\<exists>e. invoke loop_runner (service_step ''ok'') ''each'' JNull [] (loop_each\<lparr>m_invocations := 20\<rparr>)
      = (Inl e, loop_each\<lparr>m_invocations := 20\<rparr>\<lparr>m_invocations := Suc (m_invocations (loop_each\<lparr>m_invocations := 20\<rparr>))\<rparr>) \<and>
    ex_kind e = LimitExceededError TOTAL_INVOCATIONS ''workflow.step_invocations''
      (Suc (m_invocations (loop_each\<lparr>m_invocations := 20\<rparr>))) (nat (rl_total_invocations (rn_limits loop_runner)))"
  by (rule invocations_limited) (simp add: loop_runner_def sample_runner_def sample_limits_def)

section \<open>Where the code does less than it means to\<close>

text \<open>
  The request id that a run uses for its parameters and its record is the one of the correlation
  identity: the id given, exactly when it has at most 128 characters. A trigger may have up to 256.
\<close>

theorem long_request_ids_change:
  "ci_request_id (m_correlation (start_state rn request_id ck w)) = Some request_id \<longleftrightarrow> length request_id \<le> 128"
proof -
  have "bounded request_id 128 = request_id \<longleftrightarrow> length request_id \<le> 128"
    using length_bounded [of 128 request_id] by (auto simp: bounded_def)
  then show ?thesis
    by (simp add: start_state_def fresh_state_def restore_state_def correlation_identity_of_def bounded_id_def
        MAX_CORRELATION_VALUE_LENGTH_def split: option.split)
qed


text \<open>
  With two failures in one run the analysis is not enough: it reports no issue for a flow in which
  the handler of the second failure reads a symbol that only the first step, which failed, produces. The
  run ends with the resolution error.
\<close>

theorem second_failure_missing_symbol:
  "valid_flow (sample_config second_flow) \<and> analyze_workflow (en_parse sample_env) (sample_config second_flow) = [] \<and>
   map_option (\<lambda>r. map_sum ex_kind id (fst r))
     (flow_loop (sample_runner second_flow False 100) 6 (Some ''fetch'') 0 None
       (fresh_state (sample_runner second_flow False 100) ''r'' 0))
   = Some (Inl (FlowDefinitionError RESOLUTION_ERROR))"
proof -
  have "analyze_workflow (en_parse sample_env) (sample_config second_flow) = []" by code_simp
  moreover have "map_option (\<lambda>r. map_sum ex_kind id (fst r))
     (flow_loop (sample_runner second_flow False 100) 6 (Some ''fetch'') 0 None
       (fresh_state (sample_runner second_flow False 100) ''r'' 0))
     = Some (Inl (FlowDefinitionError RESOLUTION_ERROR))" by code_simp
  ultimately show ?thesis using valid_second_flow by simp
qed

text \<open>
  C14. A request for a fresh history that an iteration makes is an exception like any other to the
  failure handler of its step: the step is recorded as failed with the cause \<open>FlowContinuation\<close>, and the
  handler runs; without a handler the run asks for the fresh history.
\<close>

theorem continuation_taken_for_failure:
  "map_option (\<lambda>r. map sf_cause_code (m_failures (snd r)))
     (flow_loop (sample_runner (loop_flow (Some ''done'')) True 2) 6 (Some ''fetch'') 0 None
       (fresh_state (sample_runner (loop_flow (Some ''done'')) True 2) ''r'' 0)) = Some [''FlowContinuation''] \<and>
   map_option (\<lambda>r. (map_sum ex_kind id (fst r), m_failures (snd r)))
     (flow_loop (sample_runner (loop_flow None) True 2) 6 (Some ''fetch'') 0 None
       (fresh_state (sample_runner (loop_flow None) True 2) ''r'' 0)) = Some (Inl FlowContinuation, [])"
  by (rule conjI; code_simp)

text \<open>
  C15. A last branch with both \<open>default\<close> and \<open>then\<close> is accepted; the analysis follows \<open>then\<close> and reports no
  cycle, and the runner goes to \<open>default\<close>, back to the step itself.
\<close>

theorem default_and_then_disagree:
  "valid_workflow (sample_config both_flow) \<and> analyze_workflow (en_parse sample_env) (sample_config both_flow) = [] \<and>
   fst (execute_step (sample_runner both_flow False 100) ''fetch'' 0 None
     (fresh_state (sample_runner both_flow False 100) ''r'' 0)) = Inr (Next (Some ''fetch'') 1)"
proof -
  have "analyze_workflow (en_parse sample_env) (sample_config both_flow) = []" by code_simp
  moreover have "fst (execute_step (sample_runner both_flow False 100) ''fetch'' 0 None
     (fresh_state (sample_runner both_flow False 100) ''r'' 0)) = Inr (Next (Some ''fetch'') 1)" by code_simp
  ultimately show ?thesis using valid_both_flow by simp
qed

text \<open>
  A step without an alias whose result is not an object can store it only once: when a handler leads
  back to the step, storing the second result raises a type error outside any handler.
\<close>

theorem second_result_not_stored:
  assumes "fs_output s = None" "store_output s v outputs = Inr outputs'" "\<forall>d. v \<noteq> JObj d"
  shows "store_output s v' outputs' = Inl type_error"
proof -
  have "map_of outputs' (fs_name s) = Some v"
    using assms(1,2) by (auto simp: store_output_def Let_def dict_simps split: option.splits json.splits if_splits)
  then show ?thesis using assms(1,3)
    by (auto simp: store_output_def Let_def dict_has_def split: json.split)
qed

lemma second_result_not_stored_witness:
  "store_output (plain_step ''a'') (JInt 2) (projr (store_output (plain_step ''a'') (JInt 1) [])) = Inl type_error"
proof (rule second_result_not_stored)
  show "store_output (plain_step ''a'') (JInt 1) [] = Inr (projr (store_output (plain_step ''a'') (JInt 1) []))"
    by (simp add: store_output_def plain_step_def dict_has_def)
qed (simp_all add: plain_step_def)

end
